(* ===== verification/Prelude.thy ===== *)
theory Prelude
  imports Main "HOL-Library.Word" "HOL-Library.Multiset"
begin

text \<open>
  What the component theories share: names for the Rust integer types, the overflow
  behaviour of the optimised build (two's complement wrap-around for \<open>i64\<close> arithmetic,
  \<open>checked_*\<close> and \<open>saturating_*\<close> operations as the standard library defines them), the
  result type with the \<open>?\<close> operator, the state-and-error actions that model a sequence of
  database statements, big-endian and little-endian byte strings, and the interface
  (\<open>transition_system\<close>) through which every state machine of the development proves its
  invariant for all reachable states.
\<close>

unbundle bit_operations_syntax

named_theorems action_simps \<open>rewriting rules for state-and-error actions\<close>
named_theorems result_simps \<open>rewriting rules for results and the ? operator\<close>

section \<open>Rust types\<close>

type_synonym u8 = "8 word"
type_synonym u16 = "16 word"
type_synonym u32 = "32 word"
type_synonym u64 = "64 word"
type_synonym u128 = "128 word"
type_synonym bytes = "u8 list"

text \<open>
  A value of type \<open>i64\<close> is an \<open>int\<close> kept in range by \<open>wrap64\<close>; identifiers
  (\<open>Uuid\<close>, drawn at random by the code) are numbers supplied by the caller; a time stamp is
  a number of time units since the epoch.
\<close>

type_synonym i64 = int
type_synonym uuid = nat
type_synonym timestamp = int

definition i64_max :: int where "i64_max = 2 ^ 63 - 1"

definition i64_min :: int where "i64_min = - (2 ^ 63)"

definition in_i64 :: "int \<Rightarrow> bool" where
  "in_i64 x \<longleftrightarrow> i64_min \<le> x \<and> x \<le> i64_max"

text \<open>Arithmetic of the optimised build: the exact result modulo \<open>2 ^ 64\<close>, read as signed.\<close>

definition wrap64 :: "int \<Rightarrow> i64" where
  "wrap64 x = (x + 2 ^ 63) mod 2 ^ 64 - 2 ^ 63"

definition wrap32 :: "int \<Rightarrow> int" where
  "wrap32 x = (x + 2 ^ 31) mod 2 ^ 32 - 2 ^ 31"

definition saturate64 :: "int \<Rightarrow> i64" where
  "saturate64 x = max i64_min (min i64_max x)"

text \<open>The cast \<open>x as i64\<close> of a \<open>u64\<close>: the same 64 bits read as signed.\<close>

definition u64_as_i64 :: "u64 \<Rightarrow> i64" where
  "u64_as_i64 x = wrap64 (uint x)"

lemmas i64_defs = i64_max_def i64_min_def in_i64_def

lemma in_i64_iff: "in_i64 x \<longleftrightarrow> - (2 ^ 63) \<le> x \<and> x < 2 ^ 63"
  by (auto simp: i64_defs)

lemma wrap64_in_i64 [simp]: "in_i64 (wrap64 x)"
  by (simp add: in_i64_iff wrap64_def) 

lemma wrap64_id [simp]: "in_i64 x \<Longrightarrow> wrap64 x = x"
  by (simp add: in_i64_iff wrap64_def mod_pos_pos_trivial)

lemma wrap64_cong: "wrap64 x mod 2 ^ 64 = x mod 2 ^ 64"
  by (simp add: wrap64_def mod_diff_left_eq)

lemma saturate64_id [simp]: "in_i64 x \<Longrightarrow> saturate64 x = x"
  by (simp add: saturate64_def i64_defs)

lemma saturate64_in_i64 [simp]: "in_i64 (saturate64 x)"
  by (simp add: saturate64_def i64_defs)

lemma u64_as_i64_small: "uint x < 2 ^ 63 \<Longrightarrow> u64_as_i64 x = uint x"
  unfolding u64_as_i64_def
  by (intro wrap64_id) (simp add: in_i64_iff order_trans [OF _ uint_ge_0])

lemma u64_as_i64_large:
  assumes "2 ^ 63 \<le> uint x"
  shows "u64_as_i64 x = uint x - 2 ^ 64"
proof -
  have "uint x < 2 ^ 64" using uint_lt2p [of x] by simp
  then have "(uint x + 2 ^ 63 - 2 ^ 64) mod 2 ^ 64 = uint x + 2 ^ 63 - 2 ^ 64"
    using assms by (intro mod_pos_pos_trivial) auto
  then have "(uint x + 2 ^ 63) mod 2 ^ 64 = uint x + 2 ^ 63 - 2 ^ 64"
    by (metis minus_mod_self2)
  then show ?thesis by (simp add: u64_as_i64_def wrap64_def)
qed

section \<open>Checked arithmetic on machine words\<close>

definition checked_add :: "'a::len word \<Rightarrow> 'a word \<Rightarrow> 'a word option" where
  "checked_add a b = (if uint a + uint b < 2 ^ LENGTH('a) then Some (a + b) else None)"

definition checked_sub :: "'a::len word \<Rightarrow> 'a word \<Rightarrow> 'a word option" where
  "checked_sub a b = (if b \<le> a then Some (a - b) else None)"

definition checked_mul :: "'a::len word \<Rightarrow> 'a word \<Rightarrow> 'a word option" where
  "checked_mul a b = (if uint a * uint b < 2 ^ LENGTH('a) then Some (a * b) else None)"

definition checked_div :: "'a::len word \<Rightarrow> 'a word \<Rightarrow> 'a word option" where
  "checked_div a b = (if b = 0 then None else Some (a div b))"

lemma checked_add_SomeD: "checked_add a b = Some c \<Longrightarrow> uint c = uint a + uint b"
  by (auto simp: checked_add_def uint_word_ariths uint_plus_if_size word_size split: if_splits)

lemma checked_sub_SomeD: "checked_sub a b = Some c \<Longrightarrow> uint c = uint a - uint b"
  by (auto simp: checked_sub_def uint_minus_simple_alt split: if_splits)

lemma checked_sub_Some_iff: "checked_sub a b = Some c \<longleftrightarrow> b \<le> a \<and> c = a - b"
  by (auto simp: checked_sub_def)

lemma checked_mul_SomeD: "checked_mul a b = Some c \<Longrightarrow> uint c = uint a * uint b"
  by (auto simp: checked_mul_def uint_word_ariths mod_pos_pos_trivial split: if_splits)

section \<open>Results and the \<open>?\<close> operator\<close>

definition bindR :: "'e + 'a \<Rightarrow> ('a \<Rightarrow> 'e + 'b) \<Rightarrow> 'e + 'b" where
  "bindR r f = (case r of Inl e \<Rightarrow> Inl e | Inr x \<Rightarrow> f x)"

definition ensure :: "bool \<Rightarrow> 'e \<Rightarrow> 'e + unit" where
  "ensure b e = (if b then Inr () else Inl e)"

definition ok_or :: "'a option \<Rightarrow> 'e \<Rightarrow> 'e + 'a" where
  "ok_or x e = (case x of None \<Rightarrow> Inl e | Some y \<Rightarrow> Inr y)"

lemma bindR_simps [simp, result_simps]:
  "bindR (Inl e) f = Inl e"
  "bindR (Inr x) f = f x"
  by (simp_all add: bindR_def)

lemma bindR_Inr_iff [result_simps]:
  "bindR r f = Inr y \<longleftrightarrow> (\<exists>x. r = Inr x \<and> f x = Inr y)"
  by (cases r) auto

lemma bindR_Inl_iff [result_simps]:
  "bindR r f = Inl e \<longleftrightarrow> r = Inl e \<or> (\<exists>x. r = Inr x \<and> f x = Inl e)"
  by (cases r) auto

lemma no_Inr_Inl: "(\<And>y. r \<noteq> Inr y) \<Longrightarrow> \<exists>e. r = Inl e"
  by (cases r) auto

lemma ensure_simps [simp, result_simps]:
  "ensure b e = Inr u \<longleftrightarrow> b"
  "ensure b e = Inl e' \<longleftrightarrow> \<not> b \<and> e' = e"
  by (auto simp: ensure_def)

lemma ensure_True [simp]: "ensure True e = Inr ()"
  by (simp add: ensure_def)

lemma ensure_False [simp]: "ensure False e = Inl e"
  by (simp add: ensure_def)

lemma ok_or_simps [simp, result_simps]:
  "ok_or x e = Inr y \<longleftrightarrow> x = Some y"
  "ok_or x e = Inl e' \<longleftrightarrow> x = None \<and> e' = e"
  by (auto simp: ok_or_def split: option.splits)

lemma ok_or_eval [simp]: "ok_or (Some y) e = Inr y" "ok_or None e = Inl e"
  by (simp_all add: ok_or_def)

section \<open>State-and-error actions\<close>

text \<open>
  A handler that issues several statements against shared state is an action: it takes the
  state and returns either an error or a value, together with the state it leaves behind.
  Effects made before an error stay (no rollback), unless the action is wrapped in
  \<open>transaction\<close>, which restores the state it started from when its body fails.
\<close>

type_synonym ('s, 'e, 'a) action = "'s \<Rightarrow> ('e + 'a) \<times> 's"

definition returnA :: "'a \<Rightarrow> ('s, 'e, 'a) action" where
  "returnA x s = (Inr x, s)"

definition raiseA :: "'e \<Rightarrow> ('s, 'e, 'a) action" where
  "raiseA e s = (Inl e, s)"

definition bindA :: "('s, 'e, 'a) action \<Rightarrow> ('a \<Rightarrow> ('s, 'e, 'b) action) \<Rightarrow> ('s, 'e, 'b) action" where
  "bindA m f s = (case m s of (Inl e, s') \<Rightarrow> (Inl e, s') | (Inr x, s') \<Rightarrow> f x s')"

definition seqA :: "('s, 'e, unit) action \<Rightarrow> ('s, 'e, 'b) action \<Rightarrow> ('s, 'e, 'b) action" where
  "seqA m n = bindA m (\<lambda>_. n)"

definition getsA :: "('s \<Rightarrow> 'a) \<Rightarrow> ('s, 'e, 'a) action" where
  "getsA f s = (Inr (f s), s)"

definition modifyA :: "('s \<Rightarrow> 's) \<Rightarrow> ('s, 'e, unit) action" where
  "modifyA f s = (Inr (), f s)"

definition ensureA :: "bool \<Rightarrow> 'e \<Rightarrow> ('s, 'e, unit) action" where
  "ensureA b e s = (if b then (Inr (), s) else (Inl e, s))"

definition whenA :: "bool \<Rightarrow> ('s, 'e, unit) action \<Rightarrow> ('s, 'e, unit) action" where
  "whenA b m = (if b then m else returnA ())"

definition map_errA :: "('e \<Rightarrow> 'f) \<Rightarrow> ('s, 'e, 'a) action \<Rightarrow> ('s, 'f, 'a) action" where
  "map_errA g m s = (case m s of (Inl e, s') \<Rightarrow> (Inl (g e), s') | (Inr x, s') \<Rightarrow> (Inr x, s'))"

text \<open>\<open>let _ = m.await;\<close>: the error is dropped, the state change is kept.\<close>

definition ignoreA :: "('s, 'e, 'a) action \<Rightarrow> ('s, 'f, unit) action" where
  "ignoreA m s = (Inr (), snd (m s))"

text \<open>\<open>match m.await { Ok(x) => .., Err(e) => .. }\<close>: the outcome as a value.\<close>

definition tryA :: "('s, 'e, 'a) action \<Rightarrow> ('s, 'f, 'e + 'a) action" where
  "tryA m s = (case m s of (r, t) \<Rightarrow> (Inr r, t))"

text \<open>\<open>r?\<close> for a result that does not touch the state.\<close>

definition liftR :: "'e + 'a \<Rightarrow> ('s, 'e, 'a) action" where
  "liftR r s = (r, s)"

text \<open>A loop over a vector, stopping at the first error.\<close>

fun for_eachA :: "('a \<Rightarrow> ('s, 'e, unit) action) \<Rightarrow> 'a list \<Rightarrow> ('s, 'e, unit) action" where
  "for_eachA f [] = returnA ()"
| "for_eachA f (x # xs) = seqA (f x) (for_eachA f xs)"

text \<open>Integer division of Rust: towards zero.\<close>

definition rust_div :: "int \<Rightarrow> int \<Rightarrow> int" where
  "rust_div a b = sgn a * sgn b * (\<bar>a\<bar> div \<bar>b\<bar>)"

lemma wrap64_small: "\<bar>x\<bar> \<le> 2 ^ 62 \<Longrightarrow> wrap64 x = x"
  by (intro wrap64_id) (auto simp: in_i64_iff)

lemma nonneg_in_i64: "0 \<le> x \<Longrightarrow> x \<le> i64_max \<Longrightarrow> in_i64 x"
  by (simp add: i64_defs)

lemma abs_mult_le: "\<bar>a\<bar> \<le> A \<Longrightarrow> \<bar>b\<bar> \<le> B \<Longrightarrow> \<bar>a * b\<bar> \<le> A * B" for a b A B :: int
  unfolding abs_mult by (intro mult_mono) auto

lemma div_le_bound: "a \<le> k * n \<Longrightarrow> 0 < n \<Longrightarrow> a div n \<le> k" for a k n :: int
  using zdiv_mono1 [of a "k * n" n] by simp

lemma rust_div_nonneg: "0 \<le> a \<Longrightarrow> 0 < b \<Longrightarrow> rust_div a b = a div b"
  by (simp add: rust_div_def sgn_if)

definition transaction :: "('s \<Rightarrow> 's \<Rightarrow> 's) \<Rightarrow> ('s, 'e, 'a) action \<Rightarrow> ('s, 'e, 'a) action" where
  "transaction restore m s = (case m s of (Inl e, s') \<Rightarrow> (Inl e, restore s s') | (Inr x, s') \<Rightarrow> (Inr x, s'))"

lemma bindA_Inr_iff [action_simps]:
  "bindA m f s = (Inr y, t) \<longleftrightarrow> (\<exists>x s'. m s = (Inr x, s') \<and> f x s' = (Inr y, t))"
  by (auto simp: bindA_def split: prod.splits sum.splits)

lemma bindA_Inl_iff [action_simps]:
  "bindA m f s = (Inl e, t) \<longleftrightarrow> m s = (Inl e, t) \<or> (\<exists>x s'. m s = (Inr x, s') \<and> f x s' = (Inl e, t))"
  by (auto simp: bindA_def split: prod.splits sum.splits)

lemma seqA_Inr_iff [action_simps]:
  "seqA m n s = (Inr y, t) \<longleftrightarrow> (\<exists>s'. m s = (Inr (), s') \<and> n s' = (Inr y, t))"
  by (auto simp: seqA_def bindA_Inr_iff)

lemma returnA_iff [action_simps]: "returnA x s = (r, t) \<longleftrightarrow> r = Inr x \<and> t = s"
  by (auto simp: returnA_def)

lemma raiseA_iff [action_simps]: "raiseA e s = (r, t) \<longleftrightarrow> r = Inl e \<and> t = s"
  by (auto simp: raiseA_def)

lemma getsA_iff [action_simps]: "getsA f s = (r, t) \<longleftrightarrow> r = Inr (f s) \<and> t = s"
  by (auto simp: getsA_def)

lemma modifyA_iff [action_simps]: "modifyA f s = (r, t) \<longleftrightarrow> r = Inr () \<and> t = f s"
  by (auto simp: modifyA_def)

lemma ensureA_Inr_iff [action_simps]: "ensureA b e s = (Inr u, t) \<longleftrightarrow> b \<and> t = s"
  by (auto simp: ensureA_def)

lemma whenA_Inr_iff [action_simps]:
  "whenA b m s = (Inr u, t) \<longleftrightarrow> (if b then m s = (Inr u, t) else t = s)"
  by (auto simp: whenA_def returnA_def)

lemma map_errA_Inr_iff [action_simps]: "map_errA g m s = (Inr x, t) \<longleftrightarrow> m s = (Inr x, t)"
  by (auto simp: map_errA_def split: prod.splits sum.splits)

lemma seqA_Inl_iff [action_simps]:
  "seqA m n s = (Inl e, t) \<longleftrightarrow> m s = (Inl e, t) \<or> (\<exists>s'. m s = (Inr (), s') \<and> n s' = (Inl e, t))"
  by (auto simp: seqA_def bindA_Inl_iff)

lemma map_errA_Inl_iff [action_simps]:
  "map_errA g m s = (Inl e, t) \<longleftrightarrow> (\<exists>e'. m s = (Inl e', t) \<and> e = g e')"
  by (auto simp: map_errA_def split: prod.splits sum.splits)

lemma ensureA_Inl_iff [action_simps]: "ensureA b e s = (Inl e', t) \<longleftrightarrow> \<not> b \<and> e' = e \<and> t = s"
  by (auto simp: ensureA_def)

lemma whenA_Inl_iff [action_simps]: "whenA b m s = (Inl e, t) \<longleftrightarrow> b \<and> m s = (Inl e, t)"
  by (auto simp: whenA_def returnA_def)

lemma tryA_iff [action_simps]: "tryA m s = (Inr r, t) \<longleftrightarrow> m s = (r, t)" "tryA m s \<noteq> (Inl e, t)"
  by (auto simp: tryA_def split: prod.splits)

text \<open>A loop keeps what each of its iterations keeps.\<close>

lemma for_eachA_keeps:
  assumes "\<And>x s r t. x \<in> set xs \<Longrightarrow> f x s = (r, t) \<Longrightarrow> I s \<Longrightarrow> I t"
  shows "for_eachA f xs s = (r, t) \<Longrightarrow> I s \<Longrightarrow> I t"
  using assms
proof (induction xs arbitrary: s)
  case Nil
  then show ?case by (simp add: returnA_def)
next
  case (Cons x xs)
  obtain q u where u: "f x s = (q, u)" by fastforce
  have "I u" using Cons.prems(2,3) u by (metis list.set_intros(1))
  moreover have "I t" if "for_eachA f xs u = (r, t)"
    using Cons.IH [OF that \<open>I u\<close>] Cons.prems(3) by (metis list.set_intros(2))
  ultimately show ?case using Cons.prems(1) u by (cases q) (auto simp: seqA_def bindA_def)
qed

text \<open>Invariants of a whole operation, in every outcome, composed along its structure.\<close>

definition preserves :: "('s \<Rightarrow> bool) \<Rightarrow> ('s, 'e, 'a) action \<Rightarrow> bool" where
  "preserves I m \<longleftrightarrow> (\<forall>s. I s \<longrightarrow> I (snd (m s)))"

lemma preservesD: "preserves I m \<Longrightarrow> m s = (r, t) \<Longrightarrow> I s \<Longrightarrow> I t"
  by (metis preserves_def snd_conv)

lemma preserves_pure [intro!]: "preserves I (returnA x)" "preserves I (raiseA e)"
  by (simp_all add: preserves_def returnA_def raiseA_def)

lemma preserves_liftR [intro!]: "preserves I (liftR r)" and preserves_getsA [intro!]: "preserves I (getsA f)"
  by (simp_all add: preserves_def liftR_def getsA_def)

lemma preserves_bindA [intro!]: "preserves I m \<Longrightarrow> (\<And>x. preserves I (f x)) \<Longrightarrow> preserves I (bindA m f)"
  by (auto simp: preserves_def bindA_def split: prod.splits sum.splits)

lemma preserves_seqA [intro!]: "preserves I m \<Longrightarrow> preserves I n \<Longrightarrow> preserves I (seqA m n)"
  unfolding seqA_def by (rule preserves_bindA)

lemma preserves_ignoreA [intro!]: "preserves I m \<Longrightarrow> preserves I (ignoreA m)"
  by (simp add: preserves_def ignoreA_def)

lemma preserves_tryA [intro!]: "preserves I m \<Longrightarrow> preserves I (tryA m)"
  by (auto simp: preserves_def tryA_def split: prod.splits)

lemma preserves_map_errA [intro!]: "preserves I m \<Longrightarrow> preserves I (map_errA g m)"
  by (auto simp: preserves_def map_errA_def split: prod.splits sum.splits)

lemma preserves_ensureA [intro!]: "preserves I (ensureA b e)"
  by (simp add: preserves_def ensureA_def)

lemma preserves_for_eachA [intro!]: "(\<And>x. preserves I (f x)) \<Longrightarrow> preserves I (for_eachA f xs)"
  by (induction xs) auto

lemma liftR_iff [action_simps]: "liftR r s = (q, t) \<longleftrightarrow> r = q \<and> t = s"
  by (auto simp: liftR_def)

lemma ignoreA_iff [action_simps]: "ignoreA m s = (r, t) \<longleftrightarrow> r = Inr () \<and> t = snd (m s)"
  by (auto simp: ignoreA_def)

lemma transaction_Inr_iff [action_simps]:
  "transaction restore m s = (Inr x, t) \<longleftrightarrow> m s = (Inr x, t)"
  by (auto simp: transaction_def split: prod.splits sum.splits)

lemma transaction_InlD:
  "transaction restore m s = (Inl e, t) \<Longrightarrow> \<exists>t'. t = restore s t'"
  by (auto simp: transaction_def split: prod.splits sum.splits)

lemmas action_evals = bindA_def seqA_def returnA_def raiseA_def getsA_def modifyA_def ensureA_def
  whenA_def map_errA_def ignoreA_def tryA_def transaction_def

section \<open>Integers as byte strings\<close>

text \<open>\<open>to_be_bytes\<close> of an \<open>n\<close>-byte integer; \<open>to_le_bytes\<close> is its reverse.\<close>

fun le_bytes :: "nat \<Rightarrow> nat \<Rightarrow> bytes" where
  "le_bytes 0 v = []"
| "le_bytes (Suc n) v = word_of_nat (v mod 256) # le_bytes n (v div 256)"

definition be_bytes :: "nat \<Rightarrow> nat \<Rightarrow> bytes" where
  "be_bytes n v = rev (le_bytes n v)"

fun of_le_bytes :: "bytes \<Rightarrow> nat" where
  "of_le_bytes [] = 0"
| "of_le_bytes (b # bs) = unat b + 256 * of_le_bytes bs"

definition of_be_bytes :: "bytes \<Rightarrow> nat" where
  "of_be_bytes bs = of_le_bytes (rev bs)"

lemma length_le_bytes [simp]: "length (le_bytes n v) = n"
  by (induction n arbitrary: v) auto

lemma length_be_bytes [simp]: "length (be_bytes n v) = n"
  by (simp add: be_bytes_def)

lemma unat_byte_mod: "unat (word_of_nat (v mod 256) :: u8) = v mod 256"
  by (simp add: unat_of_nat)

lemma of_le_bytes_le_bytes: "v < 256 ^ n \<Longrightarrow> of_le_bytes (le_bytes n v) = v"
proof (induction n arbitrary: v)
  case 0
  then show ?case by simp
next
  case (Suc n)
  then have "v div 256 < 256 ^ n"
    by (simp add: less_mult_imp_div_less mult.commute)
  then show ?case by (simp add: Suc.IH unat_byte_mod)
qed

lemma of_be_bytes_be_bytes: "v < 256 ^ n \<Longrightarrow> of_be_bytes (be_bytes n v) = v"
  by (simp add: of_be_bytes_def be_bytes_def of_le_bytes_le_bytes)

lemma of_le_bytes_append:
  "of_le_bytes (xs @ ys) = of_le_bytes xs + 256 ^ length xs * of_le_bytes ys"
  by (induction xs) (auto simp: algebra_simps)

lemma of_be_bytes_append:
  "of_be_bytes (xs @ ys) = of_be_bytes xs * 256 ^ length ys + of_be_bytes ys"
  by (simp add: of_be_bytes_def of_le_bytes_append)

lemma of_be_bytes_Cons: "of_be_bytes (b # bs) = unat b * 256 ^ length bs + of_be_bytes bs"
  using of_be_bytes_append [of "[b]" bs] by (simp add: of_be_bytes_def)

lemma be_bytes_zero [simp]: "be_bytes n 0 = replicate n 0"
proof -
  have "le_bytes n 0 = replicate n 0" by (induction n) auto
  then show ?thesis by (simp add: be_bytes_def)
qed

lemma of_be_bytes_drop_zeros: "of_be_bytes (dropWhile (\<lambda>b. b = 0) bs) = of_be_bytes bs"
  by (induction bs) (auto simp: of_be_bytes_Cons)

section \<open>Lists\<close>

lemma takeWhile_dropWhile_zeros: "replicate (length (takeWhile (\<lambda>b. b = 0) bs)) 0 @ dropWhile (\<lambda>b. b = 0) bs = bs"
  by (induction bs) auto

lemma sum_list_map_update:
  fixes f :: "'a \<Rightarrow> int"
  assumes "distinct (map k xs)" and "x \<in> set xs"
  shows "sum_list (map (\<lambda>y. f (if k y = k x then g y else y)) xs) = sum_list (map f xs) - f x + f (g x)"
  using assms
proof (induction xs)
  case Nil
  then show ?case by simp
next
  case (Cons a xs)
  have skip: "sum_list (map (\<lambda>y. f (if k y = k x then g y else y)) xs) = sum_list (map f xs)" if "k x \<notin> k ` set xs"
    using that by (intro arg_cong [where f = sum_list] map_cong refl) (auto simp: image_iff eq_commute)
  show ?case
  proof (cases "x = a")
    case True
    then show ?thesis using Cons.prems skip by simp
  next
    case False
    then have "x \<in> set xs" using Cons.prems by auto
    moreover from this have "k a \<noteq> k x" using Cons.prems by (auto simp: image_iff)
    ultimately show ?thesis using Cons by auto
  qed
qed

lemma member_le_sum_list_nonneg:
  fixes f :: "'a \<Rightarrow> int"
  assumes "x \<in> set xs" and "\<And>y. y \<in> set xs \<Longrightarrow> 0 \<le> f y"
  shows "f x \<le> sum_list (map f xs)"
  using assms
proof (induction xs)
  case Nil
  then show ?case by simp
next
  case (Cons a xs)
  have "0 \<le> sum_list (map f xs)" using Cons.prems by (intro sum_list_nonneg) auto
  then show ?case using Cons by (cases "x = a") (auto intro: add_increasing)
qed

lemma find_append: "find P (xs @ ys) = (case find P xs of None \<Rightarrow> find P ys | Some x \<Rightarrow> Some x)"
  by (induction xs) auto

lemma find_map_update:
  assumes "find P xs = Some x" and "\<And>y. P (f y) = P y"
  shows "find P (map (\<lambda>y. if P y then f y else y) xs) = Some (f x)"
  using assms by (induction xs) (auto split: if_splits)

lemma find_map_other:
  assumes "\<And>y. P y \<Longrightarrow> \<not> Q y \<and> \<not> Q (f y)"
  shows "find Q (map (\<lambda>y. if P y then f y else y) xs) = find Q xs"
  using assms by (induction xs) auto

lemma find_Some_memD: "List.find P xs = Some x \<Longrightarrow> x \<in> set xs \<and> P x"
  by (auto simp: find_Some_iff)

section \<open>Transition systems\<close>

text \<open>
  The interface of every state machine below: where it starts, how it steps, and an invariant
  that the start states have and the steps keep. What a client may conclude is proved here
  once: the invariant holds in every state that any number of steps can reach.
\<close>

locale transition_system =
  fixes start :: "'s \<Rightarrow> bool"
    and step :: "'s \<Rightarrow> 's \<Rightarrow> bool"
    and invar :: "'s \<Rightarrow> bool"
  assumes start_invar: "start s \<Longrightarrow> invar s"
    and step_invar: "step s t \<Longrightarrow> invar s \<Longrightarrow> invar t"
begin

lemma steps_invar: "step\<^sup>*\<^sup>* s t \<Longrightarrow> invar s \<Longrightarrow> invar t"
  by (induction rule: rtranclp_induct) (auto intro: step_invar)

lemma reachable_invar: "start s \<Longrightarrow> step\<^sup>*\<^sup>* s t \<Longrightarrow> invar t"
  by (blast intro: steps_invar start_invar)

end

text \<open>A machine whose steps never decrease a measure, for properties that are never undone.\<close>

locale monotone_system = transition_system +
  fixes progress :: "'a \<Rightarrow> 'b::order"
  assumes step_progress: "step s t \<Longrightarrow> invar s \<Longrightarrow> progress s \<le> progress t"
begin

lemma steps_progress: "step\<^sup>*\<^sup>* s t \<Longrightarrow> invar s \<Longrightarrow> progress s \<le> progress t"
proof (induction rule: rtranclp_induct)
  case base
  show ?case by simp
next
  case (step y z)
  have "invar y" using step.hyps(1) step.prems by (rule steps_invar)
  then have "progress y \<le> progress z" using step.hyps(2) by (blast intro: step_progress)
  then show ?case using step by (meson order_trans)
qed

end

end
