(* ===== verification/Solana_Runtime.thy ===== *)
theory Solana_Runtime
  imports Prelude
begin

text \<open>
  The part of the Solana runtime that both on-chain programs of the repository call. Program
  derived addresses and the SPL token program are not code of the repository: they are fields of
  a \<open>runtime\<close> record that every instruction takes as an argument, with their documented
  behaviour as the hypotheses \<open>pda_law\<close> and \<open>spl_transfer_law\<close>. A program derived address is
  identified by its list of seeds, a datatype of its own for each program.
\<close>

type_synonym pubkey = nat

text \<open>\<open>Pubkey::default()\<close>, the value of every key field of a freshly created account.\<close>

definition default_pubkey :: pubkey where "default_pubkey = 0"

record token_account =
  ta_owner :: pubkey
  ta_mint :: pubkey
  ta_amount :: u64

type_synonym tokens = "pubkey \<rightharpoonup> token_account"

record 'seed runtime =
  find_pda :: "'seed \<Rightarrow> pubkey \<times> u8"
  create_pda :: "'seed \<Rightarrow> u8 \<Rightarrow> pubkey option"
  spl_transfer :: "tokens \<Rightarrow> pubkey \<Rightarrow> pubkey \<Rightarrow> pubkey \<Rightarrow> u64 \<Rightarrow> tokens option"

text \<open>
  \<open>find_program_address\<close> returns an address together with the bump under which
  \<open>create_program_address\<close> derives it again, and no two seed lists derive one address
  (the collision resistance of the derivation).
\<close>

definition pda_law :: "'seed runtime \<Rightarrow> bool" where
  "pda_law rt \<longleftrightarrow>
     (\<forall>s. create_pda rt s (snd (find_pda rt s)) = Some (fst (find_pda rt s))) \<and>
     (\<forall>s s' b b' k. create_pda rt s b = Some k \<longrightarrow> create_pda rt s' b' = Some k \<longrightarrow> s = s')"

text \<open>
  The SPL \<open>Transfer\<close> instruction, where it succeeds: both accounts exist and hold the same
  mint, the source covers the amount, the amount moves, and nothing else changes. A transfer of
  an account to itself changes nothing.
\<close>

definition spl_transfer_law :: "'seed runtime \<Rightarrow> bool" where
  "spl_transfer_law rt \<longleftrightarrow>
     (\<forall>ts src dst auth n ts'. spl_transfer rt ts src dst auth n = Some ts' \<longrightarrow>
        (\<exists>a b. ts src = Some a \<and> ts dst = Some b \<and> ta_mint a = ta_mint b \<and> n \<le> ta_amount a \<and>
           (if src = dst then ts' = ts
            else uint (ta_amount b) + uint n < 2 ^ 64 \<and>
                 ts' = ts(src \<mapsto> a\<lparr>ta_amount := ta_amount a - n\<rparr>,
                          dst \<mapsto> b\<lparr>ta_amount := ta_amount b + n\<rparr>))))"

definition amount_at :: "tokens \<Rightarrow> pubkey \<Rightarrow> int" where
  "amount_at ts k = (case ts k of None \<Rightarrow> 0 | Some a \<Rightarrow> uint (ta_amount a))"

lemma pda_law_find: "pda_law rt \<Longrightarrow> create_pda rt s (snd (find_pda rt s)) = Some (fst (find_pda rt s))"
  by (simp add: pda_law_def)

lemma pda_law_inj:
  "pda_law rt \<Longrightarrow> create_pda rt s b = Some k \<Longrightarrow> create_pda rt s' b' = Some k \<Longrightarrow> s = s'"
  unfolding pda_law_def by blast

lemma pda_law_find_inj: "pda_law rt \<Longrightarrow> fst (find_pda rt s) = fst (find_pda rt s') \<longleftrightarrow> s = s'"
  by (metis pda_law_find pda_law_inj)

lemma spl_transferE:
  assumes "spl_transfer_law rt" and "spl_transfer rt ts src dst auth n = Some ts'"
  obtains a b where "ts src = Some a" "ts dst = Some b" "ta_mint a = ta_mint b" "n \<le> ta_amount a"
    "if src = dst then ts' = ts
     else uint (ta_amount b) + uint n < 2 ^ 64 \<and>
          ts' = ts(src \<mapsto> a\<lparr>ta_amount := ta_amount a - n\<rparr>, dst \<mapsto> b\<lparr>ta_amount := ta_amount b + n\<rparr>)"
  using assms unfolding spl_transfer_law_def by blast

lemma uint_word_add: "uint (a :: u64) + uint b < 2 ^ 64 \<Longrightarrow> uint (a + b) = uint a + uint b"
  by (simp add: uint_plus_if_size word_size)

lemma uint_word_sub: "b \<le> a \<Longrightarrow> uint (a - b) = uint a - uint (b :: u64)"
  by (simp add: uint_minus_simple_alt)

lemma spl_transfer_amounts:
  assumes "spl_transfer_law rt" and "spl_transfer rt ts src dst auth n = Some ts'" and "src \<noteq> dst"
  shows "amount_at ts' src = amount_at ts src - uint n"
    and "amount_at ts' dst = amount_at ts dst + uint n"
    and "k \<noteq> src \<Longrightarrow> k \<noteq> dst \<Longrightarrow> ts' k = ts k"
  using assms by (auto elim!: spl_transferE simp: amount_at_def uint_word_add uint_word_sub)

lemma spl_transfer_covered:
  "spl_transfer_law rt \<Longrightarrow> spl_transfer rt ts src dst auth n = Some ts' \<Longrightarrow> uint n \<le> amount_at ts src"
  by (auto elim!: spl_transferE simp: amount_at_def word_le_def)

lemma spl_transfer_dom:
  "spl_transfer_law rt \<Longrightarrow> spl_transfer rt ts src dst auth n = Some ts' \<Longrightarrow> dom ts' = dom ts"
  by (erule (1) spl_transferE) (auto split: if_splits)

lemma spl_transfer_static:
  assumes "spl_transfer_law rt" and "spl_transfer rt ts src dst auth n = Some ts'"
  shows "map_option ta_owner (ts' k) = map_option ta_owner (ts k)"
    and "map_option ta_mint (ts' k) = map_option ta_mint (ts k)"
  using assms by (auto elim!: spl_transferE split: if_splits)

text \<open>An account that is not the source of a transfer keeps its owner and loses nothing.\<close>

lemma spl_transfer_keeps:
  assumes "spl_transfer_law rt" and "spl_transfer rt ts src dst auth n = Some ts'"
    and "k \<noteq> src" and "ts k = Some e"
  shows "\<exists>e'. ts' k = Some e' \<and> ta_owner e' = ta_owner e \<and> ta_amount e \<le> ta_amount e'"
  using assms
  by (auto elim!: spl_transferE simp: word_le_def uint_word_add split: if_splits)

text \<open>The total over any finite set of token accounts that holds both ends is unchanged.\<close>

lemma spl_transfer_total:
  assumes "spl_transfer_law rt" and "spl_transfer rt ts src dst auth n = Some ts'"
    and "finite A" and "src \<in> A" and "dst \<in> A"
  shows "(\<Sum>k\<in>A. amount_at ts' k) = (\<Sum>k\<in>A. amount_at ts k)"
proof (cases "src = dst")
  case True
  then show ?thesis using assms by (auto elim!: spl_transferE)
next
  case False
  let ?B = "A - {src} - {dst}"
  have split: "(\<Sum>k\<in>A. f k) = f src + f dst + (\<Sum>k\<in>?B. f k)" for f :: "pubkey \<Rightarrow> int"
    using assms False by (simp add: sum.remove [of A src] sum.remove [of "A - {src}" dst])
  have "(\<Sum>k\<in>?B. amount_at ts' k) = (\<Sum>k\<in>?B. amount_at ts k)"
    using spl_transfer_amounts(3) [OF assms(1,2) False]
    by (intro sum.cong) (auto simp: amount_at_def)
  then show ?thesis
    using spl_transfer_amounts(1,2) [OF assms(1,2) False] by (simp add: split)
qed

section \<open>A concrete runtime\<close>

text \<open>
  A runtime on which the hypotheses hold, for the concrete instances of the theorems: the token
  program as it is documented, and an injective encoding of seeds as addresses.
\<close>

definition token_move :: "tokens \<Rightarrow> pubkey \<Rightarrow> pubkey \<Rightarrow> pubkey \<Rightarrow> u64 \<Rightarrow> tokens option" where
  "token_move ts src dst auth n =
     (case (ts src, ts dst) of
        (Some a, Some b) \<Rightarrow>
          (if ta_owner a = auth \<and> ta_mint a = ta_mint b \<and> n \<le> ta_amount a then
             (if src = dst then Some ts
              else if uint (ta_amount b) + uint n < 2 ^ 64
              then Some (ts(src \<mapsto> a\<lparr>ta_amount := ta_amount a - n\<rparr>, dst \<mapsto> b\<lparr>ta_amount := ta_amount b + n\<rparr>))
              else None)
           else None)
      | _ \<Rightarrow> None)"

definition sample_runtime :: "('seed \<Rightarrow> pubkey) \<Rightarrow> 'seed runtime" where
  "sample_runtime addr = \<lparr>find_pda = (\<lambda>s. (addr s, 255)),
     create_pda = (\<lambda>s b. if b = 255 then Some (addr s) else None),
     spl_transfer = token_move\<rparr>"

lemma sample_runtime_simps [simp]:
  "find_pda (sample_runtime addr) s = (addr s, 255)"
  "create_pda (sample_runtime addr) s b = (if b = 255 then Some (addr s) else None)"
  "spl_transfer (sample_runtime addr) = token_move"
  by (simp_all add: sample_runtime_def)

lemma sample_runtime_pda_law: "inj addr \<Longrightarrow> pda_law (sample_runtime addr)"
  by (auto simp: pda_law_def dest: injD split: if_splits)

lemma token_move_SomeD:
  assumes "token_move ts src dst auth n = Some ts'"
  shows "\<exists>a b. ts src = Some a \<and> ts dst = Some b \<and> ta_mint a = ta_mint b \<and> n \<le> ta_amount a \<and>
           (if src = dst then ts' = ts
            else uint (ta_amount b) + uint n < 2 ^ 64 \<and>
                 ts' = ts(src \<mapsto> a\<lparr>ta_amount := ta_amount a - n\<rparr>,
                          dst \<mapsto> b\<lparr>ta_amount := ta_amount b + n\<rparr>))"
proof -
  obtain a b where "ts src = Some a" "ts dst = Some b"
    using assms by (auto simp: token_move_def split: option.splits)
  with assms show ?thesis by (simp add: token_move_def split: if_split_asm)
qed

lemma sample_runtime_spl_law: "spl_transfer_law (sample_runtime addr)"
  unfolding spl_transfer_law_def sample_runtime_simps by (blast intro: token_move_SomeD)

end
