(* ===== verification/Settlement_Program.thy ===== *)
theory Settlement_Program
  imports Solana_Runtime
begin

text \<open>
  The Anchor program \<open>intentx_settlement\<close> (programs/intentx-settlement/src/lib.rs): its
  accounts, the constraints of the instruction contexts, the six instructions with their early
  returns in source order, and the events they emit. An instruction maps the program's state to
  an error or to the new state; the runtime discards every change of an instruction that fails.
  Each account of a context is loaded before the handler runs and written back after it in the
  order of the context's fields, so an account that is passed twice is written twice.
\<close>

section \<open>Data\<close>

datatype settlement_error = ZeroAmount | InsufficientBalance | Overflow | FeeTooHigh | InvalidFeeRecipient

text \<open>A program error, a failed account constraint, a failed token transfer or a panic.\<close>

datatype program_error =
    Custom settlement_error
  | ConstraintSeeds | ConstraintHasOne | ConstraintRaw
  | AccountNotInitialized | AccountInUse
  | TokenError
  | Panic

datatype seed = ConfigSeed | UserSeed pubkey pubkey | VaultSeed pubkey

definition MAX_FEE_BPS :: u16 where "MAX_FEE_BPS = 5000"

record config =
  cfg_authority :: pubkey
  cfg_fee_bps :: u16
  cfg_fee_recipient :: pubkey
  cfg_total_settlements :: u64
  cfg_total_volume :: u64
  cfg_bump :: u8

record user_account =
  ua_owner :: pubkey
  ua_mint :: pubkey
  ua_balance :: u64
  ua_bump :: u8

datatype event =
    ConfigInitialized pubkey u16
  | DepositEvent pubkey pubkey u64 u64
  | SettlementEvent bytes pubkey pubkey pubkey u64 u64 u64
  | WithdrawEvent pubkey pubkey u64 u64
  | AuthorityUpdated pubkey pubkey
  | FeeUpdated u16

record program_state =
  ps_config :: "config option"
  ps_users :: "pubkey \<rightharpoonup> user_account"
  ps_tokens :: tokens
  ps_events :: "event list"

text \<open>The accounts a client passes with an instruction, besides the derived ones.\<close>

record token_instr_accounts =
  ti_user :: pubkey
  ti_mint :: pubkey
  ti_user_token_account :: pubkey
  ti_vault_token_account :: pubkey

record settle_accounts =
  sa_authority :: pubkey
  sa_mint :: pubkey
  sa_buyer_account :: pubkey
  sa_seller_account :: pubkey
  sa_fee_account :: pubkey

text \<open>What \<open>init\<close> and \<open>init_if_needed\<close> create: an account whose bytes are all zero.\<close>

definition zeroed_user_account :: user_account where
  "zeroed_user_account = \<lparr>ua_owner = default_pubkey, ua_mint = default_pubkey, ua_balance = 0, ua_bump = 0\<rparr>"

section \<open>Instructions\<close>

definition seeds_match :: "seed runtime \<Rightarrow> seed \<Rightarrow> u8 \<Rightarrow> pubkey \<Rightarrow> bool" where
  "seeds_match rt s b k \<longleftrightarrow> create_pda rt s b = Some k"

definition config_key :: "seed runtime \<Rightarrow> pubkey" where
  "config_key rt = fst (find_pda rt ConfigSeed)"

definition load_config :: "seed runtime \<Rightarrow> program_state \<Rightarrow> program_error + config" where
  "load_config rt st =
     bindR (ok_or (ps_config st) AccountNotInitialized) (\<lambda>c.
     bindR (ensure (seeds_match rt ConfigSeed (cfg_bump c) (config_key rt)) ConstraintSeeds) (\<lambda>_.
     Inr c))"

definition initialize ::
  "seed runtime \<Rightarrow> pubkey \<Rightarrow> pubkey \<Rightarrow> u16 \<Rightarrow> program_state \<Rightarrow> program_error + program_state" where
  "initialize rt authority fee_recipient fee_bps st =
     bindR (ensure (ps_config st = None) AccountInUse) (\<lambda>_.
     bindR (ensure (fee_bps \<le> MAX_FEE_BPS) (Custom FeeTooHigh)) (\<lambda>_.
     Inr (st\<lparr>ps_config := Some \<lparr>cfg_authority = authority, cfg_fee_bps = fee_bps,
               cfg_fee_recipient = fee_recipient, cfg_total_settlements = 0, cfg_total_volume = 0,
               cfg_bump = snd (find_pda rt ConfigSeed)\<rparr>,
             ps_events := ps_events st @ [ConfigInitialized authority fee_bps]\<rparr>)))"

definition check_token_accounts :: "token_instr_accounts \<Rightarrow> program_state \<Rightarrow> program_error + unit" where
  "check_token_accounts acc st =
     bindR (ok_or (ps_tokens st (ti_user_token_account acc)) AccountNotInitialized) (\<lambda>u.
     bindR (ensure (ta_owner u = ti_user acc) ConstraintRaw) (\<lambda>_.
     bindR (ensure (ta_mint u = ti_mint acc) ConstraintRaw) (\<lambda>_.
     bindR (ok_or (ps_tokens st (ti_vault_token_account acc)) AccountNotInitialized) (\<lambda>v.
     ensure (ta_mint v = ti_mint acc) ConstraintRaw))))"

definition deposit ::
  "seed runtime \<Rightarrow> token_instr_accounts \<Rightarrow> u64 \<Rightarrow> program_state \<Rightarrow> program_error + program_state" where
  "deposit rt acc amount st =
     bindR (load_config rt st) (\<lambda>_.
     (let key = fst (find_pda rt (UserSeed (ti_user acc) (ti_mint acc)));
          user_account = (case ps_users st key of None \<Rightarrow> zeroed_user_account | Some u \<Rightarrow> u)
      in
     bindR (check_token_accounts acc st) (\<lambda>_.
     bindR (ensure (amount > 0) (Custom ZeroAmount)) (\<lambda>_.
     bindR (ok_or (spl_transfer rt (ps_tokens st) (ti_user_token_account acc)
                     (ti_vault_token_account acc) (ti_user acc) amount) TokenError) (\<lambda>tokens.
     bindR (ok_or (checked_add (ua_balance user_account) amount) (Custom Overflow)) (\<lambda>balance.
     Inr (st\<lparr>ps_users := (ps_users st)(key \<mapsto> user_account\<lparr>ua_balance := balance\<rparr>),
             ps_tokens := tokens,
             ps_events := ps_events st @ [DepositEvent (ti_user acc) (ti_mint acc) amount balance]\<rparr>)))))))"

text \<open>
  \<open>(amount as u128).checked_mul(fee_bps as u128).unwrap().checked_div(10_000).unwrap() as u64\<close>;
  \<open>None\<close> is a panic of \<open>unwrap\<close>.
\<close>

definition settle_fee :: "u16 \<Rightarrow> u64 \<Rightarrow> u64 option" where
  "settle_fee fee_bps amount =
     (case checked_mul (ucast amount :: u128) (ucast fee_bps) of
        None \<Rightarrow> None
      | Some p \<Rightarrow> (case checked_div p 10000 of None \<Rightarrow> None | Some q \<Rightarrow> Some (ucast q)))"

text \<open>The handler on the loaded accounts: config, buyer, seller and fee account.\<close>

definition settle_body ::
  "u64 \<Rightarrow> config \<Rightarrow> user_account \<Rightarrow> user_account \<Rightarrow> user_account
   \<Rightarrow> program_error + (config \<times> user_account \<times> user_account \<times> user_account \<times> u64 \<times> u64)" where
  "settle_body amount config buyer seller fee_account =
     bindR (ensure (amount > 0) (Custom ZeroAmount)) (\<lambda>_.
     bindR (ok_or (settle_fee (cfg_fee_bps config) amount) Panic) (\<lambda>fee.
     bindR (ok_or (checked_sub amount fee) (Custom Overflow)) (\<lambda>seller_receives.
     bindR (ensure (ua_balance buyer \<ge> amount) (Custom InsufficientBalance)) (\<lambda>_.
     bindR (ok_or (checked_sub (ua_balance buyer) amount) (Custom Overflow)) (\<lambda>buyer_balance.
     bindR (ok_or (checked_add (ua_balance seller) seller_receives) (Custom Overflow)) (\<lambda>seller_balance.
     bindR (if fee > 0 then ok_or (checked_add (ua_balance fee_account) fee) (Custom Overflow)
            else Inr (ua_balance fee_account)) (\<lambda>fee_balance.
     bindR (ok_or (checked_add (cfg_total_settlements config) 1) (Custom Overflow)) (\<lambda>count.
     bindR (ok_or (checked_add (cfg_total_volume config) amount) (Custom Overflow)) (\<lambda>volume.
     Inr (config\<lparr>cfg_total_settlements := count, cfg_total_volume := volume\<rparr>,
          buyer\<lparr>ua_balance := buyer_balance\<rparr>, seller\<lparr>ua_balance := seller_balance\<rparr>,
          fee_account\<lparr>ua_balance := fee_balance\<rparr>, fee, seller_receives))))))))))"

definition load_user ::
  "seed runtime \<Rightarrow> pubkey \<Rightarrow> pubkey \<Rightarrow> program_state \<Rightarrow> program_error + user_account" where
  "load_user rt mint key st =
     bindR (ok_or (ps_users st key) AccountNotInitialized) (\<lambda>u.
     bindR (ensure (seeds_match rt (UserSeed (ua_owner u) mint) (ua_bump u) key) ConstraintSeeds) (\<lambda>_.
     Inr u))"

definition settle ::
  "seed runtime \<Rightarrow> settle_accounts \<Rightarrow> u64 \<Rightarrow> bytes \<Rightarrow> program_state \<Rightarrow> program_error + program_state" where
  "settle rt acc amount fill_id st =
     bindR (load_config rt st) (\<lambda>config.
     bindR (ensure (cfg_authority config = sa_authority acc) ConstraintHasOne) (\<lambda>_.
     bindR (load_user rt (sa_mint acc) (sa_buyer_account acc) st) (\<lambda>buyer.
     bindR (load_user rt (sa_mint acc) (sa_seller_account acc) st) (\<lambda>seller.
     bindR (load_user rt (sa_mint acc) (sa_fee_account acc) st) (\<lambda>fee_account.
     bindR (ensure (ua_owner fee_account = cfg_fee_recipient config) (Custom InvalidFeeRecipient)) (\<lambda>_.
     bindR (settle_body amount config buyer seller fee_account)
       (\<lambda>(config', buyer', seller', fee_account', fee, seller_receives).
     Inr (st\<lparr>ps_config := Some config',
             ps_users := (ps_users st)(sa_buyer_account acc \<mapsto> buyer', sa_seller_account acc \<mapsto> seller',
                                       sa_fee_account acc \<mapsto> fee_account'),
             ps_events := ps_events st @ [SettlementEvent fill_id (ua_owner buyer') (ua_owner seller')
                                            (sa_mint acc) amount fee seller_receives]\<rparr>))))))))"

definition withdraw ::
  "seed runtime \<Rightarrow> token_instr_accounts \<Rightarrow> u64 \<Rightarrow> program_state \<Rightarrow> program_error + program_state" where
  "withdraw rt acc amount st =
     bindR (load_config rt st) (\<lambda>_.
     (let key = fst (find_pda rt (UserSeed (ti_user acc) (ti_mint acc))) in
     bindR (ok_or (ps_users st key) AccountNotInitialized) (\<lambda>user_account.
     bindR (ensure (seeds_match rt (UserSeed (ti_user acc) (ti_mint acc)) (ua_bump user_account) key) ConstraintSeeds) (\<lambda>_.
     bindR (ensure (ua_owner user_account = ti_user acc) ConstraintRaw) (\<lambda>_.
     bindR (check_token_accounts acc st) (\<lambda>_.
     bindR (ensure (amount > 0) (Custom ZeroAmount)) (\<lambda>_.
     bindR (ensure (ua_balance user_account \<ge> amount) (Custom InsufficientBalance)) (\<lambda>_.
     bindR (ok_or (checked_sub (ua_balance user_account) amount) (Custom Overflow)) (\<lambda>balance.
     bindR (ok_or (spl_transfer rt (ps_tokens st) (ti_vault_token_account acc) (ti_user_token_account acc)
                     (fst (find_pda rt (VaultSeed (config_key rt)))) amount) TokenError) (\<lambda>tokens.
     Inr (st\<lparr>ps_users := (ps_users st)(key \<mapsto> user_account\<lparr>ua_balance := balance\<rparr>),
             ps_tokens := tokens,
             ps_events := ps_events st @ [WithdrawEvent (ti_user acc) (ti_mint acc) amount balance]\<rparr>)))))))))))"

definition update_authority ::
  "seed runtime \<Rightarrow> pubkey \<Rightarrow> pubkey \<Rightarrow> program_state \<Rightarrow> program_error + program_state" where
  "update_authority rt authority new_authority st =
     bindR (load_config rt st) (\<lambda>config.
     bindR (ensure (cfg_authority config = authority) ConstraintHasOne) (\<lambda>_.
     Inr (st\<lparr>ps_config := Some (config\<lparr>cfg_authority := new_authority\<rparr>),
             ps_events := ps_events st @ [AuthorityUpdated (cfg_authority config) new_authority]\<rparr>)))"

definition update_fee ::
  "seed runtime \<Rightarrow> pubkey \<Rightarrow> u16 \<Rightarrow> program_state \<Rightarrow> program_error + program_state" where
  "update_fee rt authority new_fee_bps st =
     bindR (load_config rt st) (\<lambda>config.
     bindR (ensure (cfg_authority config = authority) ConstraintHasOne) (\<lambda>_.
     bindR (ensure (new_fee_bps \<le> MAX_FEE_BPS) (Custom FeeTooHigh)) (\<lambda>_.
     Inr (st\<lparr>ps_config := Some (config\<lparr>cfg_fee_bps := new_fee_bps\<rparr>),
             ps_events := ps_events st @ [FeeUpdated new_fee_bps]\<rparr>))))"

section \<open>The program as a transition system\<close>

text \<open>A transaction: any instruction, with any accounts and arguments, that succeeds.\<close>

inductive program_step :: "seed runtime \<Rightarrow> program_state \<Rightarrow> program_state \<Rightarrow> bool" for rt where
  step_initialize: "initialize rt authority fee_recipient fee_bps s = Inr t \<Longrightarrow> program_step rt s t"
| step_deposit: "deposit rt acc amount s = Inr t \<Longrightarrow> program_step rt s t"
| step_settle: "settle rt sacc amount fill_id s = Inr t \<Longrightarrow> program_step rt s t"
| step_withdraw: "withdraw rt acc amount s = Inr t \<Longrightarrow> program_step rt s t"
| step_update_authority: "update_authority rt authority new_authority s = Inr t \<Longrightarrow> program_step rt s t"
| step_update_fee: "update_fee rt authority new_fee_bps s = Inr t \<Longrightarrow> program_step rt s t"

text \<open>The program before its first instruction: no config and no user account.\<close>

definition program_start :: "program_state \<Rightarrow> bool" where
  "program_start s \<longleftrightarrow> ps_config s = None \<and> ps_users s = Map.empty"

section \<open>Lemmas\<close>

lemmas instr_defs = initialize_def deposit_def settle_def withdraw_def update_authority_def
  update_fee_def load_config_def load_user_def check_token_accounts_def

lemma uint_u64_128: "uint (ucast (x :: u64) :: u128) = uint x"
  by (simp add: uint_up_ucast is_up)

lemma uint_u16_128: "uint (ucast (x :: u16) :: u128) = uint x"
  by (simp add: uint_up_ucast is_up)

lemma settle_fee_cap:
  assumes "fee_bps \<le> MAX_FEE_BPS"
  obtains fee where "settle_fee fee_bps amount = Some fee"
    and "uint fee = uint amount * uint fee_bps div 10000"
    and "2 * uint fee \<le> uint amount"
proof -
  let ?p = "uint amount * uint fee_bps"
  have bps: "uint fee_bps \<le> 5000" using assms by (simp add: MAX_FEE_BPS_def word_le_def)
  have a: "uint amount < 2 ^ 64" using uint_lt2p [of amount] by simp
  have "?p \<le> uint amount * 5000" using bps by (intro mult_left_mono) auto
  with a have p: "?p < 2 ^ 128" by simp
  have p2: "2 * ?p \<le> uint amount * 10000" using \<open>?p \<le> uint amount * 5000\<close> by simp
  then have half: "2 * (?p div 10000) \<le> uint amount" by linarith
  have "checked_mul (ucast amount :: u128) (ucast fee_bps) = Some (ucast amount * ucast fee_bps)"
    using p by (simp add: checked_mul_def uint_u64_128 uint_u16_128)
  moreover have "uint (ucast amount * ucast fee_bps :: u128) = ?p"
    using p by (simp add: uint_word_ariths uint_u64_128 uint_u16_128 mod_pos_pos_trivial)
  ultimately have fee: "settle_fee fee_bps amount = Some (ucast (ucast amount * ucast fee_bps div 10000 :: u128))"
    and q: "uint (ucast amount * ucast fee_bps div 10000 :: u128) = ?p div 10000"
    by (simp_all add: settle_fee_def checked_div_def uint_div)
  have "uint (ucast (ucast amount * ucast fee_bps div 10000 :: u128) :: u64) = ?p div 10000"
    using half a unfolding unsigned_ucast_eq q
    by (simp add: take_bit_int_eq_self_iff div_int_pos_iff)
  with that [OF fee] half show thesis by simp
qed

lemma settle_body_effect:
  assumes "settle_body amount c b s f = Inr (c', b', s', f', fee, recv)"
    and "cfg_fee_bps c \<le> MAX_FEE_BPS"
  shows "uint fee = uint amount * uint (cfg_fee_bps c) div 10000"
    and "2 * uint fee \<le> uint amount"
    and "uint recv = uint amount - uint fee"
    and "uint amount \<le> uint (ua_balance b)"
    and "b' = b\<lparr>ua_balance := ua_balance b'\<rparr>" "uint (ua_balance b') = uint (ua_balance b) - uint amount"
    and "s' = s\<lparr>ua_balance := ua_balance s'\<rparr>" "uint (ua_balance s') = uint (ua_balance s) + uint recv"
    and "f' = f\<lparr>ua_balance := ua_balance f'\<rparr>" "uint (ua_balance f') = uint (ua_balance f) + uint fee"
    and "c' = c\<lparr>cfg_total_settlements := cfg_total_settlements c', cfg_total_volume := cfg_total_volume c'\<rparr>"
    and "uint (cfg_total_settlements c') = uint (cfg_total_settlements c) + 1"
    and "uint (cfg_total_volume c') = uint (cfg_total_volume c) + uint amount"
proof -
  obtain fee' where fee': "settle_fee (cfg_fee_bps c) amount = Some fee'"
    "uint fee' = uint amount * uint (cfg_fee_bps c) div 10000" "2 * uint fee' \<le> uint amount"
    using settle_fee_cap [OF assms(2), of amount] by blast
  have zero: "fee = 0 \<or> fee > 0" using word_gt_0 by auto
  note body = assms(1) [unfolded settle_body_def]
  have fee: "fee = fee'" using body fee'(1) by (auto simp: result_simps split: if_splits)
  show "uint fee = uint amount * uint (cfg_fee_bps c) div 10000" "2 * uint fee \<le> uint amount"
    using fee fee' by auto
  show "uint recv = uint amount - uint fee" "uint amount \<le> uint (ua_balance b)"
    using body fee fee'(1) by (auto simp: result_simps word_le_def dest!: checked_sub_SomeD)
  show "b' = b\<lparr>ua_balance := ua_balance b'\<rparr>" "uint (ua_balance b') = uint (ua_balance b) - uint amount"
    using body fee fee'(1) by (auto simp: result_simps dest!: checked_sub_SomeD)
  show "s' = s\<lparr>ua_balance := ua_balance s'\<rparr>" "uint (ua_balance s') = uint (ua_balance s) + uint recv"
    using body fee fee'(1) by (auto simp: result_simps dest!: checked_add_SomeD)
  show "f' = f\<lparr>ua_balance := ua_balance f'\<rparr>" "uint (ua_balance f') = uint (ua_balance f) + uint fee"
    using body fee fee'(1) zero by (auto simp: result_simps dest!: checked_add_SomeD split: if_splits)
  show "c' = c\<lparr>cfg_total_settlements := cfg_total_settlements c', cfg_total_volume := cfg_total_volume c'\<rparr>"
    "uint (cfg_total_settlements c') = uint (cfg_total_settlements c) + 1"
    "uint (cfg_total_volume c') = uint (cfg_total_volume c) + uint amount"
    using body fee fee'(1) by (auto simp: result_simps dest!: checked_add_SomeD split: if_splits)
qed

lemma settleE:
  assumes "settle rt acc amount fill_id st = Inr st'"
  obtains c b s f c' b' s' f' fee recv where
    "ps_config st = Some c" "cfg_authority c = sa_authority acc"
    "ps_users st (sa_buyer_account acc) = Some b" "ps_users st (sa_seller_account acc) = Some s"
    "ps_users st (sa_fee_account acc) = Some f" "ua_owner f = cfg_fee_recipient c"
    "settle_body amount c b s f = Inr (c', b', s', f', fee, recv)"
    "st' = st\<lparr>ps_config := Some c',
       ps_users := (ps_users st)(sa_buyer_account acc \<mapsto> b', sa_seller_account acc \<mapsto> s', sa_fee_account acc \<mapsto> f'),
       ps_events := ps_events st @ [SettlementEvent fill_id (ua_owner b') (ua_owner s') (sa_mint acc) amount fee recv]\<rparr>"
proof -
  obtain c b s f where *: "load_config rt st = Inr c" "cfg_authority c = sa_authority acc"
    "load_user rt (sa_mint acc) (sa_buyer_account acc) st = Inr b"
    "load_user rt (sa_mint acc) (sa_seller_account acc) st = Inr s"
    "load_user rt (sa_mint acc) (sa_fee_account acc) st = Inr f" "ua_owner f = cfg_fee_recipient c"
    using assms by (auto simp: settle_def result_simps)
  moreover obtain r where "settle_body amount c b s f = Inr r"
    using assms * by (auto simp: settle_def result_simps)
  ultimately show thesis using assms that
    by (cases r) (simp add: settle_def load_config_def load_user_def result_simps)
qed

definition balance_at :: "program_state \<Rightarrow> pubkey \<Rightarrow> int" where
  "balance_at st k = (case ps_users st k of None \<Rightarrow> 0 | Some u \<Rightarrow> uint (ua_balance u))"

section \<open>Invariants of every reachable state\<close>

definition program_invar :: "program_state \<Rightarrow> bool" where
  "program_invar s \<longleftrightarrow>
     (\<forall>c. ps_config s = Some c \<longrightarrow> cfg_fee_bps c \<le> MAX_FEE_BPS) \<and>
     (\<forall>k u. ps_users s k = Some u \<longrightarrow> ua_owner u = default_pubkey \<and> ua_bump u = 0)"

lemma program_invarD:
  "program_invar s \<Longrightarrow> ps_config s = Some c \<Longrightarrow> cfg_fee_bps c \<le> MAX_FEE_BPS"
  "program_invar s \<Longrightarrow> ps_users s k = Some u \<Longrightarrow> ua_owner u = default_pubkey"
  by (auto simp: program_invar_def)

lemma settle_invar:
  assumes "settle rt acc amount fill_id s = Inr t" and inv: "program_invar s"
  shows "program_invar t"
  using assms(1)
proof (rule settleE)
  fix c b sl f c' b' s' f' fee recv
  assume c: "ps_config s = Some c" and u: "ps_users s (sa_buyer_account acc) = Some b"
    "ps_users s (sa_seller_account acc) = Some sl" "ps_users s (sa_fee_account acc) = Some f"
    and body: "settle_body amount c b sl f = Inr (c', b', s', f', fee, recv)"
    and t: "t = s\<lparr>ps_config := Some c',
       ps_users := (ps_users s)(sa_buyer_account acc \<mapsto> b', sa_seller_account acc \<mapsto> s', sa_fee_account acc \<mapsto> f'),
       ps_events := ps_events s @ [SettlementEvent fill_id (ua_owner b') (ua_owner s') (sa_mint acc) amount fee recv]\<rparr>"
  note eff = settle_body_effect [OF body program_invarD(1) [OF inv c]]
  have "cfg_fee_bps c' \<le> MAX_FEE_BPS" using eff(11) program_invarD(1) [OF inv c] by (metis config.simps(2) config.surjective config.update_convs(4) config.update_convs(5))
  moreover have "ua_owner b' = ua_owner b \<and> ua_bump b' = ua_bump b" "ua_owner s' = ua_owner sl \<and> ua_bump s' = ua_bump sl"
    "ua_owner f' = ua_owner f \<and> ua_bump f' = ua_bump f"
    using eff(5,7,9) by (metis user_account.simps(1,4) user_account.surjective user_account.update_convs(3))+
  ultimately show "program_invar t" using inv u unfolding t program_invar_def by simp
qed

lemma program_step_invar: "program_step rt s t \<Longrightarrow> program_invar s \<Longrightarrow> program_invar t"
proof (induction rule: program_step.induct)
  case (step_settle sacc amount fill_id s t)
  then show ?case by (rule settle_invar)
qed (auto simp: instr_defs result_simps program_invar_def zeroed_user_account_def Let_def
       split: if_splits option.splits)

interpretation program_ts: transition_system program_start "program_step rt" program_invar for rt
  by unfold_locales (simp add: program_start_def program_invar_def, rule program_step_invar)

section \<open>Properties\<close>

text \<open>
  C1. A settlement between three different user accounts moves exactly \<open>amount\<close> out of the
  buyer's balance, \<open>amount - fee\<close> to the seller and \<open>fee\<close> to the fee recipient, where the fee
  is \<open>amount * fee_bps / 10000\<close> rounded down and never more than half of the amount; the three
  balances keep their sum, no other account changes, the running totals grow by one settlement
  and by the amount, and no wrap-around takes place anywhere.
\<close>

theorem settle_exact:
  assumes "settle rt acc amount fill_id st = Inr st'"
    and "ps_config st = Some c" and "cfg_fee_bps c \<le> MAX_FEE_BPS"
    and "distinct [sa_buyer_account acc, sa_seller_account acc, sa_fee_account acc]"
  defines "fee \<equiv> uint amount * uint (cfg_fee_bps c) div 10000"
  shows "balance_at st' (sa_buyer_account acc) = balance_at st (sa_buyer_account acc) - uint amount
    \<and> balance_at st' (sa_seller_account acc) = balance_at st (sa_seller_account acc) + (uint amount - fee)
    \<and> balance_at st' (sa_fee_account acc) = balance_at st (sa_fee_account acc) + fee
    \<and> 2 * fee \<le> uint amount
    \<and> uint amount \<le> balance_at st (sa_buyer_account acc)
    \<and> (\<forall>k. k \<notin> {sa_buyer_account acc, sa_seller_account acc, sa_fee_account acc}
           \<longrightarrow> ps_users st' k = ps_users st k)
    \<and> ps_tokens st' = ps_tokens st
    \<and> (\<exists>c'. ps_config st' = Some c' \<and> uint (cfg_total_settlements c') = uint (cfg_total_settlements c) + 1
           \<and> uint (cfg_total_volume c') = uint (cfg_total_volume c) + uint amount)"
  using assms(1)
proof (rule settleE)
  fix c2 b s f c' b' s' f' fe recv
  assume st: "ps_config st = Some c2" "ps_users st (sa_buyer_account acc) = Some b"
    "ps_users st (sa_seller_account acc) = Some s" "ps_users st (sa_fee_account acc) = Some f"
    and body: "settle_body amount c2 b s f = Inr (c', b', s', f', fe, recv)"
    and st': "st' = st\<lparr>ps_config := Some c',
       ps_users := (ps_users st)(sa_buyer_account acc \<mapsto> b', sa_seller_account acc \<mapsto> s', sa_fee_account acc \<mapsto> f'),
       ps_events := ps_events st @ [SettlementEvent fill_id (ua_owner b') (ua_owner s') (sa_mint acc) amount fe recv]\<rparr>"
  have c2: "c2 = c" using st assms(2) by simp
  note eff = settle_body_effect [OF body [unfolded c2] assms(3)]
  show ?thesis using st eff assms(4) unfolding st' fee_def
    by (auto simp: balance_at_def c2)
qed

definition sample_pair :: "nat \<Rightarrow> nat \<Rightarrow> nat" where
  "sample_pair u m = (u + m) * (u + m) + u"

definition sample_addr :: "seed \<Rightarrow> pubkey" where
  "sample_addr s = (case s of ConfigSeed \<Rightarrow> 0 | UserSeed u m \<Rightarrow> 3 * sample_pair u m + 1 | VaultSeed k \<Rightarrow> 3 * k + 2)"

definition sample_user :: "pubkey \<Rightarrow> u64 \<Rightarrow> user_account" where
  "sample_user owner balance = \<lparr>ua_owner = owner, ua_mint = 9, ua_balance = balance, ua_bump = 255\<rparr>"

definition sample_config :: config where
  "sample_config = \<lparr>cfg_authority = 4, cfg_fee_bps = 100, cfg_fee_recipient = 3,
     cfg_total_settlements = 0, cfg_total_volume = 0, cfg_bump = 255\<rparr>"

definition sample_state :: program_state where
  "sample_state = \<lparr>ps_config = Some sample_config,
     ps_users = [304 \<mapsto> sample_user 1 10000, 370 \<mapsto> sample_user 2 0, 442 \<mapsto> sample_user 3 0],
     ps_tokens = [20 \<mapsto> \<lparr>ta_owner = 1, ta_mint = 9, ta_amount = 500\<rparr>,
                  21 \<mapsto> \<lparr>ta_owner = 1, ta_mint = 9, ta_amount = 0\<rparr>],
     ps_events = []\<rparr>"

definition sample_settle :: settle_accounts where
  "sample_settle = \<lparr>sa_authority = 4, sa_mint = 9, sa_buyer_account = 304, sa_seller_account = 370, sa_fee_account = 442\<rparr>"

lemmas sample_defs = sample_addr_def sample_pair_def sample_user_def sample_config_def sample_state_def
  sample_settle_def

lemmas instr_evals = instr_defs config_key_def seeds_match_def settle_body_def settle_fee_def
  checked_mul_def checked_div_def checked_sub_def checked_add_def token_move_def

lemma sample_pair_inj: "sample_pair u m = sample_pair u' m' \<longleftrightarrow> u = u' \<and> m = m'"
proof -
  have less: "sample_pair a b < sample_pair a' b'" if "a + b < a' + b'" for a b a' b'
  proof -
    from that have "(a + b + 1) * (a + b + 1) \<le> (a' + b') * (a' + b')" by (intro mult_le_mono) auto
    then show ?thesis by (simp add: sample_pair_def algebra_simps)
  qed
  show ?thesis
    using less [of u m u' m'] less [of u' m' u m] by (cases "u + m" "u' + m'" rule: linorder_cases) (auto simp: sample_pair_def)
qed

lemma sample_pda_law: "pda_law (sample_runtime sample_addr)"
proof (rule sample_runtime_pda_law, rule injI)
  fix x y assume "sample_addr x = sample_addr y"
  then show "x = y" by (cases x; cases y; simp add: sample_addr_def sample_pair_inj; presburger)
qed

theorem settle_exact_witness:
  "\<exists>st'. settle (sample_runtime sample_addr) sample_settle 10000 [] sample_state = Inr st'
     \<and> balance_at st' 304 = 0 \<and> balance_at st' 370 = 9900 \<and> balance_at st' 442 = 100"
proof -
  obtain st' where st': "settle (sample_runtime sample_addr) sample_settle 10000 [] sample_state = Inr st'"
    by (simp add: instr_evals sample_defs)
  then show ?thesis
    using settle_exact [OF st', of sample_config]
    by (auto simp: sample_defs MAX_FEE_BPS_def balance_at_def)
qed

text \<open>
  C2. Whatever instructions are sent in whatever order, in every state the program can reach the
  configured fee is at most \<open>MAX_FEE_BPS\<close>, and a settlement that succeeds there charges at most
  half of the settled amount and gives the seller the rest.
\<close>

theorem reachable_fee_bounded:
  assumes "program_start s" and "(program_step rt)\<^sup>*\<^sup>* s t"
    and "ps_config t = Some c"
  shows "cfg_fee_bps c \<le> MAX_FEE_BPS
    \<and> (\<exists>fee. settle_fee (cfg_fee_bps c) amount = Some fee \<and> 2 * uint fee \<le> uint amount
            \<and> checked_sub amount fee = Some (amount - fee))"
proof -
  have "program_invar t" using assms(1,2) by (rule program_ts.reachable_invar)
  then have cap: "cfg_fee_bps c \<le> MAX_FEE_BPS" using assms(3) by (rule program_invarD)
  obtain fee where "settle_fee (cfg_fee_bps c) amount = Some fee" "2 * uint fee \<le> uint amount"
    using settle_fee_cap [OF cap] by blast
  moreover from this have "fee \<le> amount" using uint_ge_0 [of fee] unfolding word_le_def by linarith
  ultimately show ?thesis using cap by (simp add: checked_sub_def)
qed

definition sample_blank :: program_state where
  "sample_blank = sample_state\<lparr>ps_config := None, ps_users := Map.empty\<rparr>"

lemma sample_blank_start: "program_start sample_blank"
  by (simp add: sample_blank_def program_start_def)

lemma sample_initialized:
  "initialize (sample_runtime sample_addr) 4 3 100 sample_blank =
     Inr (sample_blank\<lparr>ps_config := Some sample_config, ps_events := [ConfigInitialized 4 100]\<rparr>)"
  by (simp add: initialize_def sample_blank_def sample_defs MAX_FEE_BPS_def)

lemma sample_reachable:
  "(program_step (sample_runtime sample_addr))\<^sup>*\<^sup>* sample_blank
     (sample_blank\<lparr>ps_config := Some sample_config, ps_events := [ConfigInitialized 4 100]\<rparr>)"
  by (rule r_into_rtranclp) (rule step_initialize, rule sample_initialized)

theorem reachable_fee_bounded_witness: "cfg_fee_bps sample_config \<le> MAX_FEE_BPS"
  using reachable_fee_bounded
    [OF sample_blank_start sample_reachable, of sample_config 1]
  by simp

text \<open>
  C3. The \<open>deposit\<close> handler never stores the owner, the mint or the bump of a user account that
  \<open>init_if_needed\<close> has just created. So in every reachable state no user (whose key is not the
  all-zero default key) can withdraw, and no settlement that names the account of such a user as
  buyer, seller or fee account can succeed: deposits cannot be paid out again.
\<close>

theorem deposits_never_leave:
  assumes "program_start s" and "(program_step rt)\<^sup>*\<^sup>* s t" and "pda_law rt"
    and "user \<noteq> default_pubkey"
  shows "(\<forall>acc amount. ti_user acc = user \<longrightarrow> (\<exists>e. withdraw rt acc amount t = Inl e))
    \<and> (\<forall>acc amount fill_id mint. fst (find_pda rt (UserSeed user mint)) \<in>
         {sa_buyer_account acc, sa_seller_account acc, sa_fee_account acc} \<longrightarrow>
         (\<exists>e. settle rt acc amount fill_id t = Inl e))"
proof -
  have inv: "program_invar t" using assms(1,2) by (rule program_ts.reachable_invar)
  have no_withdraw: "withdraw rt acc amount t \<noteq> Inr t'" if "ti_user acc = user" for acc amount t'
    using that assms(4) program_invarD(2) [OF inv] by (auto simp: withdraw_def Let_def result_simps)
  have no_load: "load_user rt m (fst (find_pda rt (UserSeed user mint))) t \<noteq> Inr u" for m u mint
  proof
    assume "load_user rt m (fst (find_pda rt (UserSeed user mint))) t = Inr u"
    then have "seeds_match rt (UserSeed default_pubkey m) (ua_bump u) (fst (find_pda rt (UserSeed user mint)))"
      using program_invarD(2) [OF inv] by (auto simp: load_user_def result_simps)
    then have "UserSeed default_pubkey m = UserSeed user mint"
      unfolding seeds_match_def by (rule pda_law_inj [OF assms(3) _ pda_law_find [OF assms(3)]])
    with assms(4) show False by simp
  qed
  have no_settle: "settle rt acc amount fill_id t \<noteq> Inr t'"
    if "fst (find_pda rt (UserSeed user mint)) \<in> {sa_buyer_account acc, sa_seller_account acc, sa_fee_account acc}"
    for acc amount fill_id t' mint
    using that no_load [of _ mint] by (auto simp: settle_def result_simps)
  show ?thesis by (intro conjI allI impI no_Inr_Inl) (erule no_withdraw, erule no_settle)
qed

theorem deposits_never_leave_witness:
  "\<exists>e. withdraw (sample_runtime sample_addr)
     \<lparr>ti_user = 1, ti_mint = 9, ti_user_token_account = 20, ti_vault_token_account = 21\<rparr> 5
     (sample_blank\<lparr>ps_config := Some sample_config, ps_events := [ConfigInitialized 4 100]\<rparr>) = Inl e"
  using deposits_never_leave
    [OF sample_blank_start sample_reachable sample_pda_law, of 1]
  by (simp add: default_pubkey_def)

text \<open>
  The context of \<open>settle\<close> does not exclude that the buyer's and the seller's account are one
  account. Since both copies are loaded before and written back after the handler, such a
  settlement leaves the account with \<open>amount - fee\<close> more than it had, and the fee recipient
  with the fee on top: the sum of the tracked balances grows by the whole amount.
\<close>

theorem self_settlement_mints:
  assumes "settle rt acc amount fill_id st = Inr st'"
    and "ps_config st = Some c" and "cfg_fee_bps c \<le> MAX_FEE_BPS"
    and "sa_buyer_account acc = sa_seller_account acc"
    and "sa_fee_account acc \<noteq> sa_seller_account acc"
  shows "balance_at st' (sa_buyer_account acc) + balance_at st' (sa_fee_account acc)
       = balance_at st (sa_buyer_account acc) + balance_at st (sa_fee_account acc) + uint amount"
  using assms(1)
proof (rule settleE)
  fix c2 b s f c' b' s' f' fe recv
  assume st: "ps_config st = Some c2" "ps_users st (sa_buyer_account acc) = Some b"
    "ps_users st (sa_seller_account acc) = Some s" "ps_users st (sa_fee_account acc) = Some f"
    and body: "settle_body amount c2 b s f = Inr (c', b', s', f', fe, recv)"
    and st': "st' = st\<lparr>ps_config := Some c',
       ps_users := (ps_users st)(sa_buyer_account acc \<mapsto> b', sa_seller_account acc \<mapsto> s', sa_fee_account acc \<mapsto> f'),
       ps_events := ps_events st @ [SettlementEvent fill_id (ua_owner b') (ua_owner s') (sa_mint acc) amount fe recv]\<rparr>"
  have c2: "c2 = c" using st assms(2) by simp
  note eff = settle_body_effect [OF body [unfolded c2] assms(3)]
  show ?thesis using st eff(3,8,10) assms(4,5) unfolding st'
    by (simp add: balance_at_def)
qed

theorem self_settlement_mints_witness:
  "\<exists>st'. settle (sample_runtime sample_addr) (sample_settle\<lparr>sa_seller_account := 304\<rparr>) 10000 [] sample_state = Inr st'
     \<and> balance_at st' 304 + balance_at st' 442 = balance_at sample_state 304 + balance_at sample_state 442 + 10000"
proof -
  obtain st' where st': "settle (sample_runtime sample_addr) (sample_settle\<lparr>sa_seller_account := 304\<rparr>) 10000 [] sample_state = Inr st'"
    by (simp add: instr_evals sample_defs)
  show ?thesis
    using self_settlement_mints [OF st', of sample_config] st'
    by (simp add: sample_defs MAX_FEE_BPS_def)
qed

text \<open>
  \<open>deposit\<close> checks only the mint of the account it is given as the vault. With a second
  token account of the depositor in its place, a deposit that succeeds credits the full amount to
  the tracked balance while every token account that does not belong to the depositor, the real
  vault included, keeps its contents and the depositor's own two accounts keep their sum.
\<close>

theorem deposit_without_vault:
  assumes "deposit rt acc amount st = Inr st'" and "spl_transfer_law rt"
    and "ps_tokens st (ti_vault_token_account acc) = Some v" and "ta_owner v = ti_user acc"
  defines "key \<equiv> fst (find_pda rt (UserSeed (ti_user acc) (ti_mint acc)))"
  shows "balance_at st' key = balance_at st key + uint amount
    \<and> (\<forall>k a. ps_tokens st k = Some a \<and> ta_owner a \<noteq> ti_user acc \<longrightarrow> ps_tokens st' k = Some a)
    \<and> (\<Sum>k\<in>{ti_user_token_account acc, ti_vault_token_account acc}. amount_at (ps_tokens st') k)
      = (\<Sum>k\<in>{ti_user_token_account acc, ti_vault_token_account acc}. amount_at (ps_tokens st) k)"
proof -
  define ua where "ua = (case ps_users st key of None \<Rightarrow> zeroed_user_account | Some u \<Rightarrow> u)"
  obtain u tokens balance where u: "ps_tokens st (ti_user_token_account acc) = Some u" "ta_owner u = ti_user acc"
    and tr: "spl_transfer rt (ps_tokens st) (ti_user_token_account acc) (ti_vault_token_account acc) (ti_user acc) amount = Some tokens"
    and bal: "checked_add (ua_balance ua) amount = Some balance"
    and st': "ps_users st' = (ps_users st)(key \<mapsto> ua\<lparr>ua_balance := balance\<rparr>)" "ps_tokens st' = tokens"
    using assms(1) unfolding deposit_def check_token_accounts_def Let_def key_def [symmetric] ua_def [symmetric]
    by (auto simp: result_simps)
  have ua: "uint (ua_balance ua) = balance_at st key"
    by (simp add: ua_def balance_at_def zeroed_user_account_def split: option.split)
  have frame: "tokens k = Some a" if "ps_tokens st k = Some a" "ta_owner a \<noteq> ti_user acc" for k a
  proof (cases "ti_user_token_account acc = ti_vault_token_account acc")
    case True
    then show ?thesis using spl_transferE [OF assms(2) tr] that by auto
  next
    case False
    then show ?thesis using spl_transfer_amounts(3) [OF assms(2) tr] that u assms(3,4) by (metis option.inject)
  qed
  show ?thesis
    using frame st' ua checked_add_SomeD [OF bal] spl_transfer_total [OF assms(2) tr]
    by (auto simp: balance_at_def)
qed

theorem deposit_without_vault_witness:
  "\<exists>st'. deposit (sample_runtime sample_addr)
       \<lparr>ti_user = 1, ti_mint = 9, ti_user_token_account = 20, ti_vault_token_account = 21\<rparr> 500 sample_state = Inr st'
     \<and> balance_at st' 304 = 10500
     \<and> (\<Sum>k\<in>{20, 21}. amount_at (ps_tokens st') k) = 500"
proof -
  let ?acc = "\<lparr>ti_user = 1, ti_mint = 9, ti_user_token_account = 20, ti_vault_token_account = 21\<rparr> :: token_instr_accounts"
  obtain st' where st': "deposit (sample_runtime sample_addr) ?acc 500 sample_state = Inr st'"
    by (simp add: instr_evals sample_defs)
  show ?thesis
    using deposit_without_vault [OF st' sample_runtime_spl_law, of "\<lparr>ta_owner = 1, ta_mint = 9, ta_amount = 0\<rparr>"] st'
    by (simp add: sample_defs balance_at_def amount_at_def)
qed

end
