(* ===== verification/Htlc_Program.thy ===== *)
theory Htlc_Program
  imports Solana_Runtime
begin

text \<open>
  The Anchor program \<open>intentx_htlc\<close> (programs/intentx-htlc/src/lib.rs): hash time-locked
  contracts over SPL token escrows. Its three instructions with the constraints of their account
  contexts, the clock as an argument, SHA-256 as a parameter, and the transition system of the
  program's instructions interleaved with arbitrary token transfers of other parties.
\<close>

section \<open>Data\<close>

datatype htlc_error =
    ZeroAmount | TimelockInPast | InvalidSecret | AlreadyClaimed | AlreadyRefunded
  | TimelockNotExpired | WrongReceiver

datatype htlc_failure =
    HtlcError htlc_error
  | ConstraintSeeds | ConstraintHasOne | ConstraintRaw
  | AccountNotInitialized | AccountInUse
  | TokenError

datatype htlc_seed = HtlcSeed bytes | EscrowSeed bytes

record htlc =
  h_sender :: pubkey
  h_receiver :: pubkey
  h_mint :: pubkey
  h_hashlock :: bytes
  h_timelock :: i64
  h_amount :: u64
  h_claimed :: bool
  h_refunded :: bool
  h_bump :: u8
  h_escrow_bump :: u8

datatype htlc_event =
    FundsLocked pubkey pubkey pubkey pubkey bytes i64 u64
  | FundsClaimed pubkey pubkey bytes u64
  | FundsRefunded pubkey pubkey u64

record htlc_state =
  hs_htlcs :: "pubkey \<rightharpoonup> htlc"
  hs_tokens :: tokens
  hs_events :: "htlc_event list"

record lock_accounts =
  la_sender :: pubkey
  la_receiver :: pubkey
  la_mint :: pubkey
  la_sender_token_account :: pubkey

section \<open>Instructions\<close>

definition htlc_key :: "htlc_seed runtime \<Rightarrow> bytes \<Rightarrow> pubkey" where
  "htlc_key rt hashlock = fst (find_pda rt (HtlcSeed hashlock))"

definition escrow_key :: "htlc_seed runtime \<Rightarrow> bytes \<Rightarrow> pubkey" where
  "escrow_key rt hashlock = fst (find_pda rt (EscrowSeed hashlock))"

definition lock_funds ::
  "htlc_seed runtime \<Rightarrow> lock_accounts \<Rightarrow> bytes \<Rightarrow> i64 \<Rightarrow> u64 \<Rightarrow> i64 \<Rightarrow> htlc_state \<Rightarrow> htlc_failure + htlc_state" where
  "lock_funds rt acc hashlock timelock amount now st =
     (let hkey = htlc_key rt hashlock; ekey = escrow_key rt hashlock in
     bindR (ensure (hs_htlcs st hkey = None) AccountInUse) (\<lambda>_.
     bindR (ensure (hs_tokens st ekey = None) AccountInUse) (\<lambda>_.
     bindR (ok_or (hs_tokens st (la_sender_token_account acc)) AccountNotInitialized) (\<lambda>src.
     bindR (ensure (ta_owner src = la_sender acc) ConstraintRaw) (\<lambda>_.
     bindR (ensure (ta_mint src = la_mint acc) ConstraintRaw) (\<lambda>_.
     bindR (ensure (amount > 0) (HtlcError ZeroAmount)) (\<lambda>_.
     bindR (ensure (timelock > now) (HtlcError TimelockInPast)) (\<lambda>_.
     bindR (ok_or (spl_transfer rt
                     ((hs_tokens st)(ekey \<mapsto> \<lparr>ta_owner = ekey, ta_mint = la_mint acc, ta_amount = 0\<rparr>))
                     (la_sender_token_account acc) ekey (la_sender acc) amount) TokenError) (\<lambda>tokens.
     Inr (st\<lparr>hs_htlcs := (hs_htlcs st)(hkey \<mapsto>
               \<lparr>h_sender = la_sender acc, h_receiver = la_receiver acc, h_mint = la_mint acc,
                h_hashlock = hashlock, h_timelock = timelock, h_amount = amount,
                h_claimed = False, h_refunded = False,
                h_bump = snd (find_pda rt (HtlcSeed hashlock)),
                h_escrow_bump = snd (find_pda rt (EscrowSeed hashlock))\<rparr>),
             hs_tokens := tokens,
             hs_events := hs_events st @ [FundsLocked hkey (la_sender acc) (la_receiver acc) (la_mint acc)
                                            hashlock timelock amount]\<rparr>))))))))))"

text \<open>
  The constraints that the contexts \<open>Claim\<close> and \<open>Refund\<close> share: the account at \<open>hkey\<close> is the
  HTLC its own hash lock derives, it is still open, and \<open>escrow\<close> is its escrow.
\<close>

definition load_htlc ::
  "htlc_seed runtime \<Rightarrow> pubkey \<Rightarrow> pubkey \<Rightarrow> htlc_state \<Rightarrow> htlc_failure + htlc" where
  "load_htlc rt hkey escrow st =
     bindR (ok_or (hs_htlcs st hkey) AccountNotInitialized) (\<lambda>h.
     bindR (ensure (create_pda rt (HtlcSeed (h_hashlock h)) (h_bump h) = Some hkey) ConstraintSeeds) (\<lambda>_.
     bindR (ensure (\<not> h_claimed h) (HtlcError AlreadyClaimed)) (\<lambda>_.
     bindR (ensure (\<not> h_refunded h) (HtlcError AlreadyRefunded)) (\<lambda>_.
     bindR (ensure (create_pda rt (EscrowSeed (h_hashlock h)) (h_escrow_bump h) = Some escrow) ConstraintSeeds) (\<lambda>_.
     Inr h)))))"

definition claim ::
  "(bytes \<Rightarrow> bytes) \<Rightarrow> htlc_seed runtime \<Rightarrow> pubkey \<Rightarrow> pubkey \<Rightarrow> pubkey \<Rightarrow> bytes \<Rightarrow> htlc_state
   \<Rightarrow> htlc_failure + htlc_state" where
  "claim sha256 rt hkey escrow receiver_token_account secret st =
     bindR (load_htlc rt hkey escrow st) (\<lambda>h.
     bindR (ok_or (hs_tokens st receiver_token_account) AccountNotInitialized) (\<lambda>dst.
     bindR (ensure (ta_owner dst = h_receiver h) (HtlcError WrongReceiver)) (\<lambda>_.
     bindR (ensure (ta_mint dst = h_mint h) ConstraintRaw) (\<lambda>_.
     bindR (ensure (\<not> h_claimed h) (HtlcError AlreadyClaimed)) (\<lambda>_.
     bindR (ensure (\<not> h_refunded h) (HtlcError AlreadyRefunded)) (\<lambda>_.
     bindR (ensure (sha256 secret = h_hashlock h) (HtlcError InvalidSecret)) (\<lambda>_.
     bindR (ok_or (spl_transfer rt (hs_tokens st) escrow receiver_token_account escrow (h_amount h)) TokenError) (\<lambda>tokens.
     Inr (st\<lparr>hs_htlcs := (hs_htlcs st)(hkey \<mapsto> h\<lparr>h_claimed := True\<rparr>),
             hs_tokens := tokens,
             hs_events := hs_events st @ [FundsClaimed hkey (h_receiver h) secret (h_amount h)]\<rparr>)))))))))"

definition refund ::
  "htlc_seed runtime \<Rightarrow> pubkey \<Rightarrow> pubkey \<Rightarrow> pubkey \<Rightarrow> pubkey \<Rightarrow> i64 \<Rightarrow> htlc_state \<Rightarrow> htlc_failure + htlc_state" where
  "refund rt sender hkey escrow sender_token_account now st =
     bindR (load_htlc rt hkey escrow st) (\<lambda>h.
     bindR (ensure (h_sender h = sender) ConstraintHasOne) (\<lambda>_.
     bindR (ok_or (hs_tokens st sender_token_account) AccountNotInitialized) (\<lambda>dst.
     bindR (ensure (ta_owner dst = sender) ConstraintRaw) (\<lambda>_.
     bindR (ensure (ta_mint dst = h_mint h) ConstraintRaw) (\<lambda>_.
     bindR (ensure (\<not> h_claimed h) (HtlcError AlreadyClaimed)) (\<lambda>_.
     bindR (ensure (\<not> h_refunded h) (HtlcError AlreadyRefunded)) (\<lambda>_.
     bindR (ensure (now \<ge> h_timelock h) (HtlcError TimelockNotExpired)) (\<lambda>_.
     bindR (ok_or (spl_transfer rt (hs_tokens st) escrow sender_token_account escrow (h_amount h)) TokenError) (\<lambda>tokens.
     Inr (st\<lparr>hs_htlcs := (hs_htlcs st)(hkey \<mapsto> h\<lparr>h_refunded := True\<rparr>),
             hs_tokens := tokens,
             hs_events := hs_events st @ [FundsRefunded hkey sender (h_amount h)]\<rparr>))))))))))"

section \<open>The program as a transition system\<close>

text \<open>
  A derived address has no private key, so it signs for nobody but the program that derives it;
  \<open>has_key\<close> says that a key can sign a transaction.
\<close>

definition has_key :: "htlc_seed runtime \<Rightarrow> pubkey \<Rightarrow> bool" where
  "has_key rt k \<longleftrightarrow> (\<forall>s b. create_pda rt s b \<noteq> Some k)"

text \<open>
  A step is an instruction of the program that succeeds, at any clock value and with any
  accounts, or a transfer some owner makes between two token accounts of their choice.
\<close>

inductive htlc_step :: "(bytes \<Rightarrow> bytes) \<Rightarrow> htlc_seed runtime \<Rightarrow> htlc_state \<Rightarrow> htlc_state \<Rightarrow> bool"
  for sha256 rt where
  step_lock: "has_key rt (la_sender acc) \<Longrightarrow>
     lock_funds rt acc hashlock timelock amount now s = Inr t \<Longrightarrow> htlc_step sha256 rt s t"
| step_claim: "claim sha256 rt hkey escrow dst secret s = Inr t \<Longrightarrow> htlc_step sha256 rt s t"
| step_refund: "has_key rt sender \<Longrightarrow>
     refund rt sender hkey escrow dst now s = Inr t \<Longrightarrow> htlc_step sha256 rt s t"
| step_transfer: "hs_tokens s src = Some a \<Longrightarrow> has_key rt (ta_owner a) \<Longrightarrow>
     spl_transfer rt (hs_tokens s) src dst (ta_owner a) n = Some tokens \<Longrightarrow>
     htlc_step sha256 rt s (s\<lparr>hs_tokens := tokens\<rparr>)"

definition htlc_start :: "htlc_state \<Rightarrow> bool" where
  "htlc_start s \<longleftrightarrow> hs_htlcs s = Map.empty"

definition h_open :: "htlc \<Rightarrow> bool" where
  "h_open h \<longleftrightarrow> \<not> h_claimed h \<and> \<not> h_refunded h"

text \<open>
  The invariant: an HTLC lives at the address its hash lock derives, is never both claimed and
  refunded, and while it is open its escrow exists, is its own owner and covers the amount.
\<close>

definition htlc_invar :: "htlc_seed runtime \<Rightarrow> htlc_state \<Rightarrow> bool" where
  "htlc_invar rt s \<longleftrightarrow>
     (\<forall>k h. hs_htlcs s k = Some h \<longrightarrow>
        k = htlc_key rt (h_hashlock h) \<and> h_escrow_bump h = snd (find_pda rt (EscrowSeed (h_hashlock h))) \<and>
        \<not> (h_claimed h \<and> h_refunded h) \<and>
        (h_open h \<longrightarrow> (\<exists>e. hs_tokens s (escrow_key rt (h_hashlock h)) = Some e \<and>
                        ta_owner e = escrow_key rt (h_hashlock h) \<and> h_amount h \<le> ta_amount e)))"

section \<open>Lemmas\<close>

definition escrow_covers :: "htlc_seed runtime \<Rightarrow> tokens \<Rightarrow> htlc \<Rightarrow> bool" where
  "escrow_covers rt ts h \<longleftrightarrow>
     (\<exists>e. ts (escrow_key rt (h_hashlock h)) = Some e \<and>
          ta_owner e = escrow_key rt (h_hashlock h) \<and> h_amount h \<le> ta_amount e)"

lemma htlc_invarI:
  assumes "\<And>k h. hs_htlcs s k = Some h \<Longrightarrow> k = htlc_key rt (h_hashlock h)"
    and "\<And>k h. hs_htlcs s k = Some h \<Longrightarrow> h_escrow_bump h = snd (find_pda rt (EscrowSeed (h_hashlock h)))"
    and "\<And>k h. hs_htlcs s k = Some h \<Longrightarrow> \<not> (h_claimed h \<and> h_refunded h)"
    and "\<And>k h. hs_htlcs s k = Some h \<Longrightarrow> h_open h \<Longrightarrow> escrow_covers rt (hs_tokens s) h"
  shows "htlc_invar rt s"
  using assms unfolding htlc_invar_def escrow_covers_def by blast

lemma htlc_invarD:
  assumes "htlc_invar rt s" and "hs_htlcs s k = Some h"
  shows "k = htlc_key rt (h_hashlock h)" "h_escrow_bump h = snd (find_pda rt (EscrowSeed (h_hashlock h)))"
    "\<not> (h_claimed h \<and> h_refunded h)" "h_open h \<Longrightarrow> escrow_covers rt (hs_tokens s) h"
  using assms unfolding htlc_invar_def escrow_covers_def by blast+

lemma escrow_covers_transfer:
  assumes "spl_transfer_law rt" and "spl_transfer rt ts src dst auth n = Some ts'"
    and "src \<noteq> escrow_key rt (h_hashlock h)" and "escrow_covers rt ts h"
  shows "escrow_covers rt ts' h"
proof -
  obtain e where e: "ts (escrow_key rt (h_hashlock h)) = Some e"
    "ta_owner e = escrow_key rt (h_hashlock h)" "h_amount h \<le> ta_amount e"
    using assms(4) unfolding escrow_covers_def by blast
  obtain e' where "ts' (escrow_key rt (h_hashlock h)) = Some e'" "ta_owner e' = ta_owner e" "ta_amount e \<le> ta_amount e'"
    using spl_transfer_keeps [OF assms(1,2) not_sym [OF assms(3)] e(1)] by blast
  with e show ?thesis unfolding escrow_covers_def by auto
qed

lemma key_inj:
  assumes "pda_law rt"
  shows "htlc_key rt a = htlc_key rt b \<longleftrightarrow> a = b" "escrow_key rt a = escrow_key rt b \<longleftrightarrow> a = b"
  using assms by (simp_all add: htlc_key_def escrow_key_def pda_law_find_inj)

lemma escrow_has_no_key: "pda_law rt \<Longrightarrow> \<not> has_key rt (escrow_key rt hl)"
  using pda_law_find [of rt "EscrowSeed hl"] by (auto simp: has_key_def escrow_key_def)

lemma escrow_owner_no_key:
  assumes "pda_law rt" and "escrow_covers rt ts h" and "ts src = Some a" and "has_key rt (ta_owner a)"
  shows "src \<noteq> escrow_key rt (h_hashlock h)"
  using assms escrow_has_no_key [OF assms(1)] unfolding escrow_covers_def by auto

lemma load_htlc_iff:
  "load_htlc rt hkey escrow st = Inr h \<longleftrightarrow>
     hs_htlcs st hkey = Some h \<and> h_open h \<and>
     create_pda rt (HtlcSeed (h_hashlock h)) (h_bump h) = Some hkey \<and>
     create_pda rt (EscrowSeed (h_hashlock h)) (h_escrow_bump h) = Some escrow"
  by (auto simp: load_htlc_def h_open_def result_simps)

lemma load_htlc_escrow:
  assumes "pda_law rt" and "htlc_invar rt s" and "load_htlc rt hkey escrow s = Inr h"
  shows "escrow = escrow_key rt (h_hashlock h)"
  using assms(3) htlc_invarD(2) [OF assms(2)] pda_law_find [OF assms(1), of "EscrowSeed (h_hashlock h)"]
  by (auto simp: load_htlc_iff escrow_key_def)

lemma claimE:
  assumes "claim sha256 rt hkey escrow dst secret s = Inr t"
  obtains h d tokens where "load_htlc rt hkey escrow s = Inr h" "hs_tokens s dst = Some d"
    "ta_owner d = h_receiver h" "ta_mint d = h_mint h" "sha256 secret = h_hashlock h"
    "spl_transfer rt (hs_tokens s) escrow dst escrow (h_amount h) = Some tokens"
    "t = s\<lparr>hs_htlcs := (hs_htlcs s)(hkey \<mapsto> h\<lparr>h_claimed := True\<rparr>), hs_tokens := tokens,
           hs_events := hs_events s @ [FundsClaimed hkey (h_receiver h) secret (h_amount h)]\<rparr>"
  using assms unfolding claim_def by (auto simp: result_simps)

lemma refundE:
  assumes "refund rt sender hkey escrow dst now s = Inr t"
  obtains h d tokens where "load_htlc rt hkey escrow s = Inr h" "h_sender h = sender" "hs_tokens s dst = Some d"
    "ta_owner d = sender" "ta_mint d = h_mint h" "h_timelock h \<le> now"
    "spl_transfer rt (hs_tokens s) escrow dst escrow (h_amount h) = Some tokens"
    "t = s\<lparr>hs_htlcs := (hs_htlcs s)(hkey \<mapsto> h\<lparr>h_refunded := True\<rparr>), hs_tokens := tokens,
           hs_events := hs_events s @ [FundsRefunded hkey sender (h_amount h)]\<rparr>"
  using assms unfolding refund_def by (auto simp: result_simps)

text \<open>Both ways of closing an HTLC keep the invariant: the other escrows are not the source.\<close>

lemma close_invar:
  assumes laws: "pda_law rt" "spl_transfer_law rt" and inv: "htlc_invar rt s"
    and load: "load_htlc rt hkey escrow s = Inr h"
    and tr: "spl_transfer rt (hs_tokens s) escrow dst escrow n = Some tokens"
    and t: "hs_htlcs t = (hs_htlcs s)(hkey \<mapsto> h')" "hs_tokens t = tokens"
    and h': "h_hashlock h' = h_hashlock h" "h_escrow_bump h' = h_escrow_bump h"
      "h_claimed h' \<noteq> h_refunded h'"
  shows "htlc_invar rt t"
proof (rule htlc_invarI)
  note h = load [unfolded load_htlc_iff]
  note d = htlc_invarD [OF inv]
  have escrow: "escrow = escrow_key rt (h_hashlock h)"
    using load_htlc_escrow [OF laws(1) inv] load .
  fix k g assume g: "hs_htlcs t k = Some g"
  show "k = htlc_key rt (h_hashlock g)" "h_escrow_bump g = snd (find_pda rt (EscrowSeed (h_hashlock g)))"
    "\<not> (h_claimed g \<and> h_refunded g)"
    using g t(1) h h' d(1-3) by (auto split: if_splits)
  show "escrow_covers rt (hs_tokens t) g" if "h_open g"
  proof (cases "k = hkey")
    case True
    then show ?thesis using g t(1) h' that by (auto simp: h_open_def)
  next
    case False
    then have g: "hs_htlcs s k = Some g" using g t(1) by simp
    then have "h_hashlock g \<noteq> h_hashlock h" using False d(1) h by metis
    then have "escrow \<noteq> escrow_key rt (h_hashlock g)" using escrow key_inj(2) [OF laws(1)] by simp
    then show ?thesis using d(4) [OF g that] t(2) tr laws(2) by (auto intro: escrow_covers_transfer)
  qed
qed

lemma lock_invar:
  assumes laws: "pda_law rt" "spl_transfer_law rt" and inv: "htlc_invar rt s"
    and key: "has_key rt (la_sender acc)"
    and lock: "lock_funds rt acc hashlock timelock amount now s = Inr t"
  shows "htlc_invar rt t"
proof -
  let ?e = "escrow_key rt hashlock" and ?k = "htlc_key rt hashlock"
  let ?ts = "(hs_tokens s)(?e \<mapsto> \<lparr>ta_owner = ?e, ta_mint = la_mint acc, ta_amount = 0\<rparr>)"
  obtain src tokens h where src: "hs_tokens s (la_sender_token_account acc) = Some src" "ta_owner src = la_sender acc"
    and fresh: "hs_tokens s ?e = None"
    and tr: "spl_transfer rt ?ts (la_sender_token_account acc) ?e (la_sender acc) amount = Some tokens"
    and t: "hs_htlcs t = (hs_htlcs s)(?k \<mapsto> h)" "hs_tokens t = tokens"
    and h: "h_hashlock h = hashlock" "h_amount h = amount" "\<not> h_claimed h" "\<not> h_refunded h"
      "h_escrow_bump h = snd (find_pda rt (EscrowSeed hashlock))"
    using lock unfolding lock_funds_def Let_def by (auto simp: result_simps)
  have ne: "la_sender_token_account acc \<noteq> ?e" using src fresh by auto
  note d = htlc_invarD [OF inv]
  show ?thesis
  proof (rule htlc_invarI)
    fix k g assume g: "hs_htlcs t k = Some g"
    show "k = htlc_key rt (h_hashlock g)" "h_escrow_bump g = snd (find_pda rt (EscrowSeed (h_hashlock g)))"
      "\<not> (h_claimed g \<and> h_refunded g)"
      using g t(1) h d(1-3) by (auto split: if_splits)
    show "escrow_covers rt (hs_tokens t) g" if "h_open g"
    proof (cases "k = ?k")
      case True
      then have "g = h" using g t(1) by simp
      moreover have "tokens ?e = Some \<lparr>ta_owner = ?e, ta_mint = la_mint acc, ta_amount = amount\<rparr>"
        by (rule spl_transferE [OF laws(2) tr]) (use ne in auto)
      ultimately show ?thesis using h t(2) by (simp add: escrow_covers_def)
    next
      case False
      then have g: "hs_htlcs s k = Some g" using g t(1) by simp
      then have cov: "escrow_covers rt (hs_tokens s) g" using d(4) that by blast
      then have "escrow_covers rt ?ts g" using fresh by (auto simp: escrow_covers_def)
      moreover have "la_sender_token_account acc \<noteq> escrow_key rt (h_hashlock g)"
        using escrow_owner_no_key [OF laws(1) cov src(1)] src(2) key by simp
      ultimately show ?thesis using t(2) tr laws(2) by (auto intro: escrow_covers_transfer)
    qed
  qed
qed

lemma htlc_step_invar:
  assumes laws: "pda_law rt" "spl_transfer_law rt"
  shows "htlc_step sha256 rt s t \<Longrightarrow> htlc_invar rt s \<Longrightarrow> htlc_invar rt t"
proof (induction rule: htlc_step.induct)
  case (step_lock acc hashlock timelock amount now s t)
  then show ?case using lock_invar [OF laws] by blast
next
  case (step_claim hkey escrow dst secret s t)
  from step_claim(1) obtain h tokens where "load_htlc rt hkey escrow s = Inr h"
    "spl_transfer rt (hs_tokens s) escrow dst escrow (h_amount h) = Some tokens"
    "hs_htlcs t = (hs_htlcs s)(hkey \<mapsto> h\<lparr>h_claimed := True\<rparr>)" "hs_tokens t = tokens"
    by (auto elim!: claimE)
  moreover from this(1) have "h_open h" by (simp add: load_htlc_iff)
  ultimately show ?case using close_invar [OF laws step_claim(2)] by (simp add: h_open_def)
next
  case (step_refund sender hkey escrow dst now s t)
  from step_refund(2) obtain h tokens where "load_htlc rt hkey escrow s = Inr h"
    "spl_transfer rt (hs_tokens s) escrow dst escrow (h_amount h) = Some tokens"
    "hs_htlcs t = (hs_htlcs s)(hkey \<mapsto> h\<lparr>h_refunded := True\<rparr>)" "hs_tokens t = tokens"
    by (auto elim!: refundE)
  moreover from this(1) have "h_open h" by (simp add: load_htlc_iff)
  ultimately show ?case using close_invar [OF laws step_refund(3)] by (simp add: h_open_def)
next
  case (step_transfer s src a dst n tokens)
  note d = htlc_invarD [OF step_transfer(4)]
  show ?case
  proof (rule htlc_invarI)
    fix k h assume "hs_htlcs (s\<lparr>hs_tokens := tokens\<rparr>) k = Some h"
    then have h: "hs_htlcs s k = Some h" by simp
    show "k = htlc_key rt (h_hashlock h)" "h_escrow_bump h = snd (find_pda rt (EscrowSeed (h_hashlock h)))"
      "\<not> (h_claimed h \<and> h_refunded h)"
      using d(1-3) [OF h] by auto
    assume "h_open h"
    then have cov: "escrow_covers rt (hs_tokens s) h" using d(4) [OF h] by blast
    have "src \<noteq> escrow_key rt (h_hashlock h)"
      using cov step_transfer(1,2) by (rule escrow_owner_no_key [OF laws(1)])
    then show "escrow_covers rt (hs_tokens (s\<lparr>hs_tokens := tokens\<rparr>)) h"
      using escrow_covers_transfer [OF laws(2) step_transfer(3) _ cov] by simp
  qed
qed

interpretation htlc_ts: transition_system htlc_start "htlc_step sha256 rt"
  "\<lambda>s. pda_law rt \<and> spl_transfer_law rt \<longrightarrow> htlc_invar rt s" for sha256 rt
  by unfold_locales (simp add: htlc_start_def htlc_invar_def, blast intro: htlc_step_invar)

text \<open>A closed HTLC never changes again: no instruction and no transfer rewrites its record.\<close>

definition closed_htlcs :: "htlc_state \<Rightarrow> (pubkey \<times> htlc) set" where
  "closed_htlcs s = {(k, h). hs_htlcs s k = Some h \<and> \<not> h_open h}"

lemma htlc_step_closed: "htlc_step sha256 rt s t \<Longrightarrow> closed_htlcs s \<subseteq> closed_htlcs t"
proof (induction rule: htlc_step.induct)
  case (step_lock acc hashlock timelock amount now s t)
  then have "hs_htlcs s (htlc_key rt hashlock) = None" "\<exists>h. hs_htlcs t = (hs_htlcs s)(htlc_key rt hashlock \<mapsto> h)"
    by (auto simp: lock_funds_def Let_def result_simps)
  then show ?case by (auto simp: closed_htlcs_def)
qed (auto elim!: claimE refundE simp: closed_htlcs_def load_htlc_iff)

interpretation htlc_ms: monotone_system htlc_start "htlc_step sha256 rt"
  "\<lambda>s. pda_law rt \<and> spl_transfer_law rt \<longrightarrow> htlc_invar rt s" closed_htlcs for sha256 rt
  by unfold_locales (rule htlc_step_closed)

section \<open>A concrete run\<close>

text \<open>An injective numbering of the seeds, and one HTLC that is locked and then claimed.\<close>

fun sample_code :: "bytes \<Rightarrow> nat" where
  "sample_code [] = 0"
| "sample_code (b # bs) = Suc (unat b + 256 * sample_code bs)"

definition sample_htlc_addr :: "htlc_seed \<Rightarrow> pubkey" where
  "sample_htlc_addr s = (case s of HtlcSeed b \<Rightarrow> 3 * sample_code b + 1 | EscrowSeed b \<Rightarrow> 3 * sample_code b + 2)"

definition sample_rt :: "htlc_seed runtime" where
  "sample_rt = sample_runtime sample_htlc_addr"

definition sample_open :: htlc_state where
  "sample_open = \<lparr>hs_htlcs = Map.empty,
     hs_tokens = [33 \<mapsto> \<lparr>ta_owner = 30, ta_mint = 9, ta_amount = 80\<rparr>, 36 \<mapsto> \<lparr>ta_owner = 60, ta_mint = 9, ta_amount = 1\<rparr>],
     hs_events = []\<rparr>"

definition sample_htlc :: htlc where
  "sample_htlc = \<lparr>h_sender = 30, h_receiver = 60, h_mint = 9, h_hashlock = [7], h_timelock = 100,
     h_amount = 50, h_claimed = False, h_refunded = False, h_bump = 255, h_escrow_bump = 255\<rparr>"

definition sample_locked :: htlc_state where
  "sample_locked = \<lparr>hs_htlcs = [25 \<mapsto> sample_htlc],
     hs_tokens = [33 \<mapsto> \<lparr>ta_owner = 30, ta_mint = 9, ta_amount = 30\<rparr>, 36 \<mapsto> \<lparr>ta_owner = 60, ta_mint = 9, ta_amount = 1\<rparr>,
                  26 \<mapsto> \<lparr>ta_owner = 26, ta_mint = 9, ta_amount = 50\<rparr>],
     hs_events = [FundsLocked 25 30 60 9 [7] 100 50]\<rparr>"

definition sample_claimed :: htlc_state where
  "sample_claimed = \<lparr>hs_htlcs = [25 \<mapsto> sample_htlc\<lparr>h_claimed := True\<rparr>],
     hs_tokens = [33 \<mapsto> \<lparr>ta_owner = 30, ta_mint = 9, ta_amount = 30\<rparr>, 36 \<mapsto> \<lparr>ta_owner = 60, ta_mint = 9, ta_amount = 51\<rparr>,
                  26 \<mapsto> \<lparr>ta_owner = 26, ta_mint = 9, ta_amount = 0\<rparr>],
     hs_events = [FundsLocked 25 30 60 9 [7] 100 50, FundsClaimed 25 60 [7] 50]\<rparr>"

lemmas sample_htlc_defs = sample_rt_def sample_htlc_addr_def sample_open_def sample_htlc_def
  sample_locked_def sample_claimed_def htlc_key_def escrow_key_def token_move_def

lemma sample_code_inj: "sample_code xs = sample_code ys \<Longrightarrow> xs = ys"
proof (induction xs arbitrary: ys)
  case Nil
  then show ?case by (cases ys) auto
next
  case (Cons x xs)
  then obtain y ys' where ys: "ys = y # ys'" by (cases ys) auto
  have eq: "unat x + 256 * sample_code xs = unat y + 256 * sample_code ys'"
    using Cons.prems ys by simp
  have b: "unat x < 256" "unat y < 256" using unsigned_less [of x] unsigned_less [of y] by simp_all
  have "unat x = unat y" using arg_cong [OF eq, of "\<lambda>n. n mod 256"] b by simp
  moreover from this have "sample_code xs = sample_code ys'" using eq by simp
  ultimately show ?case using ys Cons.IH by (simp add: word_unat_eq_iff)
qed

lemma sample_rt_laws: "pda_law sample_rt" "spl_transfer_law sample_rt"
proof -
  have "inj sample_htlc_addr"
  proof (rule injI)
    fix x y assume "sample_htlc_addr x = sample_htlc_addr y"
    then show "x = y"
      by (cases x; cases y) (auto simp: sample_htlc_addr_def intro!: sample_code_inj, presburger+)
  qed
  then show "pda_law sample_rt" unfolding sample_rt_def by (rule sample_runtime_pda_law)
  show "spl_transfer_law sample_rt" unfolding sample_rt_def by (rule sample_runtime_spl_law)
qed

lemma sample_lock:
  "lock_funds sample_rt \<lparr>la_sender = 30, la_receiver = 60, la_mint = 9, la_sender_token_account = 33\<rparr>
     [7] 100 50 10 sample_open = Inr sample_locked"
  by (simp add: lock_funds_def sample_htlc_defs Let_def fun_upd_twist)

lemma sample_claim: "claim (\<lambda>x. x) sample_rt 25 26 36 [7] sample_locked = Inr sample_claimed"
  by (simp add: claim_def load_htlc_def sample_htlc_defs fun_upd_twist)

lemma sample_has_key: "has_key sample_rt 30"
  unfolding has_key_def sample_rt_def sample_runtime_simps sample_htlc_addr_def
  by (auto split: htlc_seed.splits, presburger+)

lemma sample_start: "htlc_start sample_open"
  by (simp add: htlc_start_def sample_open_def)

lemma sample_locked_reachable: "(htlc_step (\<lambda>x. x) sample_rt)\<^sup>*\<^sup>* sample_open sample_locked"
  by (rule r_into_rtranclp, rule step_lock [OF _ sample_lock]) (simp add: sample_has_key)

lemma sample_claimed_reachable: "(htlc_step (\<lambda>x. x) sample_rt)\<^sup>*\<^sup>* sample_open sample_claimed"
  by (rule rtranclp.rtrancl_into_rtrancl [OF sample_locked_reachable], rule step_claim [OF sample_claim])

section \<open>Properties\<close>

text \<open>
  C4. Solvency of the hash time-locked contracts: in every state that any interleaving of the
  program's instructions with other parties' token transfers can reach, no HTLC is both claimed
  and refunded, and the escrow of every HTLC that is still open holds at least its amount, so
  neither a claim nor a refund can fail for lack of funds.
\<close>

theorem open_htlc_is_funded:
  assumes "htlc_start s" and "(htlc_step sha256 rt)\<^sup>*\<^sup>* s t" and "pda_law rt" and "spl_transfer_law rt"
    and "hs_htlcs t k = Some h"
  shows "\<not> (h_claimed h \<and> h_refunded h)
    \<and> (h_open h \<longrightarrow> uint (h_amount h) \<le> amount_at (hs_tokens t) (escrow_key rt (h_hashlock h)))"
proof -
  have "htlc_invar rt t" using htlc_ts.reachable_invar [OF assms(1,2)] assms(3,4) by blast
  note d = htlc_invarD [OF this assms(5)]
  show ?thesis using d(3,4) by (auto simp: escrow_covers_def amount_at_def word_le_def)
qed

theorem open_htlc_is_funded_witness:
  "h_open sample_htlc \<and> uint (h_amount sample_htlc) \<le> amount_at (hs_tokens sample_locked) 26"
proof -
  have h: "hs_htlcs sample_locked 25 = Some sample_htlc" by (simp add: sample_locked_def)
  show ?thesis
    using open_htlc_is_funded [OF sample_start sample_locked_reachable sample_rt_laws h]
    by (simp add: h_open_def sample_htlc_def sample_rt_def sample_htlc_addr_def escrow_key_def)
qed

text \<open>
  C5. A claim that succeeds has revealed a preimage of the hash lock of an HTLC that was neither
  claimed nor refunded, moves exactly the locked amount from its escrow to a token account of
  the designated receiver, and marks it claimed; a refund that succeeds was signed by the
  original sender at or after the timelock, moves exactly the locked amount to a token account
  of the sender, and marks it refunded.
\<close>

theorem claim_and_refund_effects:
  assumes "pda_law rt" and "spl_transfer_law rt" and "htlc_invar rt s" and "escrow \<noteq> dst"
  shows "(claim sha256 rt hkey escrow dst secret s = Inr t \<longrightarrow>
      (\<exists>h d. hs_htlcs s hkey = Some h \<and> h_open h \<and> sha256 secret = h_hashlock h
        \<and> escrow = escrow_key rt (h_hashlock h)
        \<and> hs_tokens s dst = Some d \<and> ta_owner d = h_receiver h
        \<and> amount_at (hs_tokens t) escrow = amount_at (hs_tokens s) escrow - uint (h_amount h)
        \<and> amount_at (hs_tokens t) dst = amount_at (hs_tokens s) dst + uint (h_amount h)
        \<and> hs_htlcs t = (hs_htlcs s)(hkey \<mapsto> h\<lparr>h_claimed := True\<rparr>)))
    \<and> (refund rt sender hkey escrow dst now s = Inr t \<longrightarrow>
      (\<exists>h d. hs_htlcs s hkey = Some h \<and> h_open h \<and> h_sender h = sender \<and> h_timelock h \<le> now
        \<and> escrow = escrow_key rt (h_hashlock h)
        \<and> hs_tokens s dst = Some d \<and> ta_owner d = sender
        \<and> amount_at (hs_tokens t) escrow = amount_at (hs_tokens s) escrow - uint (h_amount h)
        \<and> amount_at (hs_tokens t) dst = amount_at (hs_tokens s) dst + uint (h_amount h)
        \<and> hs_htlcs t = (hs_htlcs s)(hkey \<mapsto> h\<lparr>h_refunded := True\<rparr>)))"
proof (intro conjI impI)
  note escrow = load_htlc_escrow [OF assms(1,3)]
  note tr = spl_transfer_amounts(1,2) [OF assms(2) _ assms(4)]
  assume "claim sha256 rt hkey escrow dst secret s = Inr t"
  then show "\<exists>h d. hs_htlcs s hkey = Some h \<and> h_open h \<and> sha256 secret = h_hashlock h
        \<and> escrow = escrow_key rt (h_hashlock h)
        \<and> hs_tokens s dst = Some d \<and> ta_owner d = h_receiver h
        \<and> amount_at (hs_tokens t) escrow = amount_at (hs_tokens s) escrow - uint (h_amount h)
        \<and> amount_at (hs_tokens t) dst = amount_at (hs_tokens s) dst + uint (h_amount h)
        \<and> hs_htlcs t = (hs_htlcs s)(hkey \<mapsto> h\<lparr>h_claimed := True\<rparr>)"
    by (rule claimE) (use escrow tr in \<open>auto simp: load_htlc_iff\<close>)
next
  note escrow = load_htlc_escrow [OF assms(1,3)]
  note tr = spl_transfer_amounts(1,2) [OF assms(2) _ assms(4)]
  assume "refund rt sender hkey escrow dst now s = Inr t"
  then show "\<exists>h d. hs_htlcs s hkey = Some h \<and> h_open h \<and> h_sender h = sender \<and> h_timelock h \<le> now
        \<and> escrow = escrow_key rt (h_hashlock h)
        \<and> hs_tokens s dst = Some d \<and> ta_owner d = sender
        \<and> amount_at (hs_tokens t) escrow = amount_at (hs_tokens s) escrow - uint (h_amount h)
        \<and> amount_at (hs_tokens t) dst = amount_at (hs_tokens s) dst + uint (h_amount h)
        \<and> hs_htlcs t = (hs_htlcs s)(hkey \<mapsto> h\<lparr>h_refunded := True\<rparr>)"
    by (rule refundE) (use escrow tr in \<open>auto simp: load_htlc_iff\<close>)
qed

theorem claim_and_refund_effects_witness:
  "\<exists>h d. hs_htlcs sample_locked 25 = Some h \<and> h_open h \<and> hs_tokens sample_locked 36 = Some d
     \<and> ta_owner d = h_receiver h
     \<and> amount_at (hs_tokens sample_claimed) 36 = amount_at (hs_tokens sample_locked) 36 + uint (h_amount h)"
proof -
  have "htlc_invar sample_rt sample_locked"
    using htlc_ts.reachable_invar [OF sample_start sample_locked_reachable] sample_rt_laws by blast
  then show ?thesis
    using claim_and_refund_effects [OF sample_rt_laws, of sample_locked 26 36 "\<lambda>x. x" 25 "[7]" sample_claimed 0 0]
      sample_claim by auto
qed

text \<open>
  Finality: once an HTLC is claimed or refunded, then after any further steps its record is
  the same and every further claim or refund of it fails, so its escrow pays out at most once.
\<close>

theorem closed_htlc_is_final:
  assumes "(htlc_step sha256 rt)\<^sup>*\<^sup>* s t" and "htlc_start s0" and "(htlc_step sha256 rt)\<^sup>*\<^sup>* s0 s"
    and "hs_htlcs s k = Some h" and "\<not> h_open h"
  shows "hs_htlcs t k = Some h
    \<and> (\<exists>e. claim sha256 rt k escrow dst secret t = Inl e)
    \<and> (\<exists>e. refund rt sender k escrow dst now t = Inl e)"
proof -
  have "closed_htlcs s \<subseteq> closed_htlcs t"
    using assms(1) htlc_ts.reachable_invar [OF assms(2,3)] by (rule htlc_ms.steps_progress)
  then have t: "hs_htlcs t k = Some h" using assms(4,5) by (auto simp: closed_htlcs_def)
  have "claim sha256 rt k escrow dst secret t \<noteq> Inr t'" "refund rt sender k escrow dst now t \<noteq> Inr t'" for t'
    using t assms(5) by (auto elim!: claimE refundE simp: load_htlc_iff)
  then show ?thesis using t by (auto intro!: no_Inr_Inl)
qed

theorem closed_htlc_is_final_witness:
  "hs_htlcs sample_claimed 25 = Some (sample_htlc\<lparr>h_claimed := True\<rparr>)
   \<and> (\<exists>e. refund sample_rt 30 25 26 33 1000 sample_claimed = Inl e)"
proof -
  have h: "hs_htlcs sample_claimed 25 = Some (sample_htlc\<lparr>h_claimed := True\<rparr>)" by (simp add: sample_claimed_def)
  show ?thesis
    using closed_htlc_is_final [OF rtranclp.rtrancl_refl sample_start sample_claimed_reachable h]
    by (simp add: h_open_def)
qed

end
