(* ===== verification/F64.thy ===== *)
theory F64
  imports Prelude Complex_Main
begin

text \<open>
  IEEE 754 double precision as the backend uses it for fee rates and averages: a finite double is
  a pair of integers (significand and exponent), rounding is to nearest with ties to even at 53
  bits (fewer below the smallest normal number), overflow gives an infinity. The two zeros are
  identified; no computation of the modelled code can tell them apart. The conversions are those
  of Rust: \<open>as f64\<close> rounds, \<open>as i64\<close> and \<open>as u64\<close> truncate towards zero, saturate, and
  send NaN to zero. The lemmas bound the rounding error and the results of the conversions.
\<close>

datatype f64 = Fin int int | PosInf | NegInf | NaN

fun bit_length :: "nat \<Rightarrow> nat" where
  "bit_length n = (if n = 0 then 0 else Suc (bit_length (n div 2)))"

declare bit_length.simps [simp del]

text \<open>\<open>m / 2 ^ s\<close>, rounded to the nearest integer, ties to even.\<close>

definition round_shift :: "int \<Rightarrow> nat \<Rightarrow> int" where
  "round_shift m s =
     (let q = m div 2 ^ s; r = m mod 2 ^ s in
      if 2 * r < 2 ^ s then q else if 2 * r > 2 ^ s then q + 1 else q + q mod 2)"

text \<open>Rounding of the exact value \<open>m * 2 ^ e\<close>.\<close>

definition f64_round :: "int \<Rightarrow> int \<Rightarrow> f64" where
  "f64_round m e =
     (if m = 0 then Fin 0 0
      else let e' = max (e + int (bit_length (nat \<bar>m\<bar>)) - 53) (- 1074) in
           let (m', d) = (if e' \<le> e then (m, e) else (round_shift m (nat (e' - e)), e')) in
           if int (bit_length (nat \<bar>m'\<bar>)) + d > 1024 then (if m > 0 then PosInf else NegInf)
           else Fin m' d)"

definition f64_of_int :: "int \<Rightarrow> f64" where
  "f64_of_int x = f64_round x 0"

fun f64_mult :: "f64 \<Rightarrow> f64 \<Rightarrow> f64" where
  "f64_mult (Fin m1 e1) (Fin m2 e2) = f64_round (m1 * m2) (e1 + e2)"
| "f64_mult NaN y = NaN"
| "f64_mult x NaN = NaN"
| "f64_mult (Fin m e) PosInf = (if m > 0 then PosInf else if m < 0 then NegInf else NaN)"
| "f64_mult (Fin m e) NegInf = (if m > 0 then NegInf else if m < 0 then PosInf else NaN)"
| "f64_mult PosInf (Fin m e) = (if m > 0 then PosInf else if m < 0 then NegInf else NaN)"
| "f64_mult NegInf (Fin m e) = (if m > 0 then NegInf else if m < 0 then PosInf else NaN)"
| "f64_mult PosInf PosInf = PosInf"
| "f64_mult PosInf NegInf = NegInf"
| "f64_mult NegInf PosInf = NegInf"
| "f64_mult NegInf NegInf = PosInf"

text \<open>Subtraction, and division by a positive or negative number: the quotient gets more bits than the rounding keeps, and a last bit that says whether it is exact.\<close>

fun f64_sub :: "f64 \<Rightarrow> f64 \<Rightarrow> f64" where
  "f64_sub (Fin m1 e1) (Fin m2 e2) =
     (let e = min e1 e2 in f64_round (m1 * 2 ^ nat (e1 - e) - m2 * 2 ^ nat (e2 - e)) e)"
| "f64_sub NaN y = NaN"
| "f64_sub x NaN = NaN"
| "f64_sub (Fin m e) PosInf = NegInf"
| "f64_sub (Fin m e) NegInf = PosInf"
| "f64_sub PosInf (Fin m e) = PosInf"
| "f64_sub NegInf (Fin m e) = NegInf"
| "f64_sub PosInf PosInf = NaN"
| "f64_sub PosInf NegInf = PosInf"
| "f64_sub NegInf PosInf = NegInf"
| "f64_sub NegInf NegInf = NaN"

fun f64_div :: "f64 \<Rightarrow> f64 \<Rightarrow> f64" where
  "f64_div (Fin m1 e1) (Fin m2 e2) =
     (if m2 = 0 then (if m1 > 0 then PosInf else if m1 < 0 then NegInf else NaN)
      else let k = 64 + bit_length (nat \<bar>m2\<bar>);
               n = \<bar>m1\<bar> * 2 ^ k;
               q = 2 * (n div \<bar>m2\<bar>) + (if n mod \<bar>m2\<bar> = 0 then 0 else 1)
           in f64_round (sgn m1 * sgn m2 * q) (e1 - e2 - int k - 1))"
| "f64_div NaN y = NaN"
| "f64_div x NaN = NaN"
| "f64_div (Fin m e) PosInf = Fin 0 0"
| "f64_div (Fin m e) NegInf = Fin 0 0"
| "f64_div PosInf (Fin m e) = (if m < 0 then NegInf else PosInf)"
| "f64_div NegInf (Fin m e) = (if m < 0 then PosInf else NegInf)"
| "f64_div PosInf PosInf = NaN"
| "f64_div PosInf NegInf = NaN"
| "f64_div NegInf PosInf = NaN"
| "f64_div NegInf NegInf = NaN"

fun f64_less :: "f64 \<Rightarrow> f64 \<Rightarrow> bool" where
  "f64_less (Fin m1 e1) (Fin m2 e2) =
     (let e = min e1 e2 in m1 * 2 ^ nat (e1 - e) < m2 * 2 ^ nat (e2 - e))"
| "f64_less NaN y = False"
| "f64_less x NaN = False"
| "f64_less NegInf y = (y \<noteq> NegInf)"
| "f64_less x PosInf = (x \<noteq> PosInf)"
| "f64_less x y = False"

fun f64_abs :: "f64 \<Rightarrow> f64" where
  "f64_abs (Fin m e) = Fin \<bar>m\<bar> e"
| "f64_abs NegInf = PosInf"
| "f64_abs x = x"

text \<open>The integer part of \<open>m * 2 ^ e\<close>, towards zero.\<close>

definition truncate :: "int \<Rightarrow> int \<Rightarrow> int" where
  "truncate m e = (if 0 \<le> e then m * 2 ^ nat e else sgn m * (\<bar>m\<bar> div 2 ^ nat (- e)))"

fun f64_to_i64 :: "f64 \<Rightarrow> i64" where
  "f64_to_i64 (Fin m e) = saturate64 (truncate m e)"
| "f64_to_i64 PosInf = i64_max"
| "f64_to_i64 NegInf = i64_min"
| "f64_to_i64 NaN = 0"

fun f64_to_u64 :: "f64 \<Rightarrow> u64" where
  "f64_to_u64 (Fin m e) = word_of_int (max 0 (min (2 ^ 64 - 1) (truncate m e)))"
| "f64_to_u64 PosInf = - 1"
| "f64_to_u64 NegInf = 0"
| "f64_to_u64 NaN = 0"

text \<open>The doubles nearest to the decimal literals of the code.\<close>

definition f64_0_3 :: f64 where "f64_0_3 = Fin 5404319552844595 (- 54)"
definition f64_0_6 :: f64 where "f64_0_6 = Fin 5404319552844595 (- 53)"
definition f64_0_001 :: f64 where "f64_0_001 = Fin 1152921504606847 (- 60)"

lemma bit_length_numeral:
  "bit_length 0 = 0" "bit_length 1 = 1" "bit_length (Suc 0) = 1"
  "bit_length (numeral n) = Suc (bit_length (numeral n div 2))"
  by (simp_all add: bit_length.simps)

lemmas f64_evals = f64_of_int_def f64_round_def round_shift_def truncate_def saturate64_def i64_max_def i64_min_def
  bit_length_numeral Let_def f64_0_3_def f64_0_6_def f64_0_001_def

section \<open>Rounding error\<close>

text \<open>The real number a finite double stands for.\<close>

definition fval :: "int \<Rightarrow> int \<Rightarrow> real" where
  "fval m e = of_int m * 2 powi e"

lemma bit_length_bounds:
  "0 < n \<Longrightarrow> 2 ^ (bit_length n - 1) \<le> n \<and> n < 2 ^ bit_length n"
proof (induction n rule: bit_length.induct)
  case (1 n)
  show ?case
  proof (cases "n div 2 = 0")
    case True
    then have "n = 1" using 1 by simp
    then show ?thesis by (simp add: bit_length.simps)
  next
    case False
    then have IH: "2 ^ (bit_length (n div 2) - 1) \<le> n div 2" "n div 2 < 2 ^ bit_length (n div 2)"
      using 1 by auto
    have b: "bit_length n = Suc (bit_length (n div 2))" using 1 by (simp add: bit_length.simps [of n])
    obtain k where k: "bit_length (n div 2) = Suc k"
      using False by (cases "bit_length (n div 2)") (simp_all add: bit_length.simps [of "n div 2"])
    have "2 * 2 ^ k \<le> n" "n < 4 * 2 ^ k" using IH unfolding k by auto
    then show ?thesis unfolding b k by simp
  qed
qed

lemma round_shift_cases:
  "round_shift m s = m div 2 ^ s \<and> 2 * (m mod 2 ^ s) \<le> 2 ^ s \<or>
   round_shift m s = m div 2 ^ s + 1 \<and> 2 ^ s \<le> 2 * (m mod 2 ^ s)"
proof -
  have "q mod 2 = 0 \<or> q mod 2 = 1" for q :: int by presburger
  then show ?thesis by (auto simp: round_shift_def Let_def)
qed

lemma round_shift_error: "2 * \<bar>round_shift m s * 2 ^ s - m\<bar> \<le> 2 ^ s"
proof -
  have m: "m div 2 ^ s * 2 ^ s = m - m mod 2 ^ s" by (simp add: minus_mod_eq_div_mult)
  have r: "0 \<le> m mod 2 ^ s" "m mod 2 ^ s < 2 ^ s" by simp_all
  define p :: int where "p = 2 ^ s"
  show ?thesis using round_shift_cases [of m s] r m unfolding p_def [symmetric] by (auto simp: distrib_right)
qed

lemma round_shift_nonneg: "0 \<le> m \<Longrightarrow> 0 \<le> round_shift m s"
  using round_shift_cases [of m s] pos_imp_zdiv_nonneg_iff [of "2 ^ s" m] by auto

lemma round_shift_nonpos: "m < 0 \<Longrightarrow> round_shift m s \<le> 0"
  using round_shift_cases [of m s] div_neg_pos_less0 [of m "2 ^ s"] by auto

lemma fval_shift: "fval (m * 2 ^ s) e = fval m (e + int s)"
  by (simp add: fval_def power_int_add power_int_of_nat)

lemma abs_fval: "\<bar>fval m e\<bar> = fval \<bar>m\<bar> e"
  by (simp add: fval_def abs_mult)

lemma fval_nonneg_iff [simp]: "0 \<le> fval m e \<longleftrightarrow> 0 \<le> m"
proof -
  have "(0::real) < 2 powi e" by simp
  then show ?thesis by (simp only: fval_def zero_le_mult_iff) (auto simp: not_le [symmetric])
qed

lemma fval_mult: "fval (m1 * m2) (e1 + e2) = fval m1 e1 * fval m2 e2"
  by (simp add: fval_def power_int_add)

text \<open>The exact value and the value before the overflow test differ by half a unit in the last place.\<close>

definition rounded :: "int \<Rightarrow> int \<Rightarrow> int \<times> int" where
  "rounded m e =
     (let e' = max (e + int (bit_length (nat \<bar>m\<bar>)) - 53) (- 1074) in
      if e' \<le> e then (m, e) else (round_shift m (nat (e' - e)), e'))"

lemma f64_round_rounded:
  "f64_round m e =
     (if m = 0 then Fin 0 0
      else case rounded m e of (m', d) \<Rightarrow>
        if int (bit_length (nat \<bar>m'\<bar>)) + d > 1024 then (if m > 0 then PosInf else NegInf) else Fin m' d)"
  by (simp add: f64_round_def rounded_def Let_def split: prod.splits)

lemma rounded_sign: "rounded m e = (m', d) \<Longrightarrow> (0 \<le> m \<longrightarrow> 0 \<le> m') \<and> (m < 0 \<longrightarrow> m' \<le> 0)"
  by (auto simp: rounded_def Let_def round_shift_nonneg round_shift_nonpos split: if_splits)

lemma unit_in_last_place:
  assumes "m \<noteq> 0"
  shows "2 powi (e + int (bit_length (nat \<bar>m\<bar>)) - 53) \<le> \<bar>fval m e\<bar> / 2 ^ 52"
proof -
  let ?b = "bit_length (nat \<bar>m\<bar>)"
  have "2 ^ (?b - 1) \<le> nat \<bar>m\<bar>" using bit_length_bounds [of "nat \<bar>m\<bar>"] assms by simp
  then have "(2::int) ^ (?b - 1) \<le> \<bar>m\<bar>" by (simp add: nat_le_iff [symmetric] nat_power_eq le_nat_iff)
  then have "(2::real) ^ (?b - 1) \<le> \<bar>of_int m\<bar>" by (metis of_int_abs of_int_le_iff of_int_numeral of_int_power)
  moreover have "?b \<noteq> 0" using assms by (subst bit_length.simps) simp
  ultimately have b: "2 powi (int ?b - 1) \<le> \<bar>real_of_int m\<bar>"
    by (cases ?b) (auto simp: power_int_of_nat)
  have add: "(2::real) powi (x + y + z) = 2 powi x * 2 powi y * 2 powi z" for x y z
    by (simp add: power_int_add)
  have "(2::real) powi (e + int ?b - 53) = 2 powi (int ?b - 1) * 2 powi e * 2 powi (- 52 :: int)"
    using add [of "int ?b - 1" e "- 52"] by (simp add: algebra_simps)
  also have "\<dots> \<le> \<bar>real_of_int m\<bar> * 2 powi e * 2 powi (- 52 :: int)"
    by (intro mult_right_mono b) simp_all
  also have "(2::real) powi (- 52 :: int) = inverse (2 ^ 52)"
    by (simp only: power_int_minus power_int_numeral)
  finally show ?thesis by (simp only: fval_def abs_mult divide_inverse) simp
qed

lemma rounded_error:
  assumes "rounded m e = (m', d)" and "m \<noteq> 0"
  shows "\<bar>fval m' d - fval m e\<bar> \<le> \<bar>fval m e\<bar> / 2 ^ 53 + 2 powi (- 1075)"
proof -
  define e' where "e' = max (e + int (bit_length (nat \<bar>m\<bar>)) - 53) (- 1074)"
  show ?thesis
  proof (cases "e' \<le> e")
    case True
    then have "m' = m" "d = e" using assms by (auto simp: rounded_def Let_def e'_def)
    then show ?thesis by simp
  next
    case False
    define s where "s = nat (e' - e)"
    have md: "m' = round_shift m s" "d = e + int s"
      using assms False by (auto simp: rounded_def Let_def e'_def s_def)
    have "fval m' d - fval m e = fval (m' * 2 ^ s - m) e"
      by (simp add: md fval_def left_diff_distrib power_int_add power_int_of_nat)
    then have "2 * \<bar>fval m' d - fval m e\<bar> = fval (2 * \<bar>m' * 2 ^ s - m\<bar>) e"
      by (simp add: abs_fval) (simp add: fval_def)
    also have "\<dots> \<le> fval (2 ^ s) e"
      unfolding fval_def md(1) by (intro mult_right_mono) (metis of_int_le_iff round_shift_error, simp)
    also have "\<dots> = 2 powi e'"
      using fval_shift [of 1 s e] False by (simp add: fval_def s_def)
    also have "\<dots> \<le> \<bar>fval m e\<bar> / 2 ^ 52 + 2 powi (- 1074)"
    proof (cases "e' = - 1074")
      case True
      then show ?thesis by simp
    next
      case False
      then have "e' = e + int (bit_length (nat \<bar>m\<bar>)) - 53" by (simp add: e'_def max_def split: if_splits)
      then have "2 powi e' \<le> \<bar>fval m e\<bar> / 2 ^ 52" using unit_in_last_place [OF assms(2)] by simp
      moreover have "(0::real) \<le> 2 powi (- 1074)" by simp
      ultimately show ?thesis by linarith
    qed
    finally have "2 * \<bar>fval m' d - fval m e\<bar> \<le> \<bar>fval m e\<bar> / 2 ^ 52 + 2 powi (- 1074)" .
    moreover have "2 powi (- 1074 :: int) = 2 * (2 powi (- 1075) :: real)"
      using power_int_add_1 [of "2::real" "- 1075"] by simp
    ultimately show ?thesis by simp
  qed
qed

section \<open>Scaling an integer by a rate\<close>

lemma truncate_bounds:
  assumes "0 \<le> m"
  shows "0 \<le> truncate m e \<and> of_int (truncate m e) \<le> fval m e"
proof (cases "0 \<le> e")
  case True
  then show ?thesis using assms by (simp add: truncate_def fval_def power_int_def)
next
  case False
  have "of_int (m div 2 ^ nat (- e)) \<le> of_int m / (2 ^ nat (- e) :: real)"
    using real_of_int_div4 [of m "2 ^ nat (- e)"] by simp
  moreover have "sgn m * (\<bar>m\<bar> div 2 ^ nat (- e)) = m div 2 ^ nat (- e)"
    using assms by (cases "m = 0") auto
  moreover have "0 \<le> m div 2 ^ nat (- e)" using assms by (simp add: pos_imp_zdiv_nonneg_iff)
  ultimately show ?thesis using False
    by (simp only: truncate_def fval_def power_int_def if_False) (simp add: inverse_eq_divide power_one_over)
qed

lemma tiny_powi: "(2::real) powi (- 1075) \<le> 1 / 2 ^ 64"
proof -
  have "(2::real) powi (- 1075) = inverse (2 ^ 1075)" by (simp only: power_int_minus power_int_numeral)
  also have "\<dots> \<le> inverse (2 ^ 64)" by (intro le_imp_inverse_le power_increasing) auto
  finally show ?thesis by (simp add: inverse_eq_divide power_one_over)
qed

lemma f64_round_bounded:
  assumes m: "0 \<le> m" and small: "fval m e \<le> 2 ^ 64"
  shows "\<exists>m' d. f64_round m e = Fin m' d \<and> 0 \<le> m' \<and> fval m' d \<le> fval m e * (1 + 1 / 2 ^ 53) + 1 / 2 ^ 64"
proof (cases "m = 0")
  case True
  then show ?thesis by (auto simp: f64_round_def fval_def)
next
  case False
  obtain m' d where r: "rounded m e = (m', d)" by fastforce
  have "\<bar>fval m' d - fval m e\<bar> \<le> fval m e / 2 ^ 53 + 2 powi (- 1075)"
    using rounded_error [OF r False] m by (simp add: abs_fval)
  then have le: "fval m' d \<le> fval m e * (1 + 1 / 2 ^ 53) + 1 / 2 ^ 64"
    using tiny_powi by (auto simp: abs_le_iff algebra_simps)
  have m': "0 \<le> m'" using rounded_sign [OF r] m by simp
  have "int (bit_length (nat \<bar>m'\<bar>)) + d \<le> 1024"
  proof (rule ccontr)
    assume big: "\<not> ?thesis"
    show False
    proof (cases "m' = 0")
      case True
      have "d \<le> 1024"
      proof -
        have "e + int (bit_length (nat \<bar>m\<bar>)) - 53 \<le> 900"
        proof (rule ccontr)
          assume "\<not> ?thesis"
          then have "(2::real) powi 900 \<le> 2 powi (e + int (bit_length (nat \<bar>m\<bar>)) - 53)"
            by (intro power_int_increasing) auto
          also have "\<dots> \<le> fval m e / 2 ^ 52" using unit_in_last_place [OF False, of e] m by (simp add: abs_fval)
          also have "\<dots> \<le> 2 ^ 64" using small by (simp add: divide_le_eq)
          finally have "(2::real) powi 900 \<le> 2 ^ 64" .
          then show False by (simp add: power_int_numeral)
        qed
        moreover have "0 < bit_length (nat \<bar>m\<bar>)" using False by (subst bit_length.simps) simp
        ultimately show ?thesis using r by (auto simp: rounded_def Let_def split: if_splits)
      qed
      then show False using big True by (simp add: bit_length.simps)
    next
      case False
      then have "(2::real) powi (d + int (bit_length (nat \<bar>m'\<bar>)) - 53) \<le> fval m' d / 2 ^ 52"
        using unit_in_last_place [OF False, of d] m' by (simp add: abs_fval)
      also have "\<dots> \<le> 2 ^ 65 / 2 ^ 52" using le small by (intro divide_right_mono) auto
      finally have "(2::real) powi (d + int (bit_length (nat \<bar>m'\<bar>)) - 53) \<le> 2 ^ 13" by simp
      moreover have "(2::real) powi 900 \<le> 2 powi (d + int (bit_length (nat \<bar>m'\<bar>)) - 53)"
        using big by (intro power_int_increasing) auto
      ultimately have "(2::real) powi 900 \<le> 2 ^ 13" by linarith
      then show False by (simp add: power_int_numeral)
    qed
  qed
  then show ?thesis using r False m' le by (auto simp: f64_round_rounded)
qed

text \<open>
  \<open>(a as f64 * rate) as i64\<close> for a non-negative \<open>a\<close> and a rate between zero and 7/8: the result
  lies between zero and \<open>a\<close>, whatever the rounding.
\<close>

definition rate_ok :: "f64 \<Rightarrow> bool" where
  "rate_ok r \<longleftrightarrow> (case r of Fin m e \<Rightarrow> 0 \<le> m \<and> fval m e \<le> 7 / 8 | _ \<Rightarrow> False)"

lemma scale_bounds:
  assumes a: "0 \<le> a" "in_i64 a" and rate: "rate_ok r"
  shows "0 \<le> f64_to_i64 (f64_mult (f64_of_int a) r) \<and> f64_to_i64 (f64_mult (f64_of_int a) r) \<le> a"
proof -
  obtain m e where r: "r = Fin m e" "0 \<le> m" "fval m e \<le> 7 / 8"
    using rate by (auto simp: rate_ok_def split: f64.splits)
  have a63: "real_of_int a < 2 ^ 63" using a by (simp add: in_i64_iff)
  then have "fval a 0 \<le> 2 ^ 64" by (simp add: fval_def)
  then obtain n d where n: "f64_of_int a = Fin n d" "0 \<le> n" "fval n d \<le> a * (1 + 1 / 2 ^ 53) + 1 / 2 ^ 64"
    using f64_round_bounded [OF a(1), of 0] by (auto simp: f64_of_int_def fval_def)
  have p: "fval (n * m) (d + e) \<le> (a * (1 + 1 / 2 ^ 53) + 1 / 2 ^ 64) * (7 / 8)"
    unfolding fval_mult using n r a by (intro mult_mono) auto
  also have "\<dots> \<le> 2 ^ 64" using a63 by simp
  finally obtain q c where q: "f64_mult (f64_of_int a) r = Fin q c" "0 \<le> q"
      "fval q c \<le> fval (n * m) (d + e) * (1 + 1 / 2 ^ 53) + 1 / 2 ^ 64"
    using f64_round_bounded [of "n * m" "d + e"] n r by auto
  have "fval q c < a + 1"
  proof -
    have "fval q c \<le> (a * (1 + 1 / 2 ^ 53) + 1 / 2 ^ 64) * (7 / 8) * (1 + 1 / 2 ^ 53) + 1 / 2 ^ 64"
      by (rule order_trans [OF q(3)], rule add_right_mono, rule mult_right_mono [OF p]) simp
    also have "\<dots> < a + 1" using a by (simp add: field_simps)
    finally show ?thesis .
  qed
  moreover note truncate_bounds [OF q(2), of c]
  ultimately have t: "0 \<le> truncate q c" "truncate q c \<le> a" by linarith+
  then have "in_i64 (truncate q c)" using a by (auto simp: in_i64_iff)
  then show ?thesis using t by (simp add: q(1))
qed

lemma rate_ok_literals [simp]: "rate_ok f64_0_3" "rate_ok f64_0_6" "rate_ok f64_0_001"
proof -
  have p: "(2::real) powi (- numeral n) = 1 / 2 ^ numeral n" for n
    by (simp only: power_int_minus power_int_numeral inverse_eq_divide)
  show "rate_ok f64_0_3" "rate_ok f64_0_6" "rate_ok f64_0_001"
    by (simp_all add: rate_ok_def f64_0_3_def f64_0_6_def f64_0_001_def fval_def p)
qed

lemma in_i64_scale [simp]: "in_i64 (f64_to_i64 x)"
  by (cases x) (auto simp: i64_defs saturate64_def)

end
