(* ===== verification/Models.thy ===== *)
theory Models
  imports F64
begin

text \<open>
  The rows and enumerations of the backend: src/balances/model.rs, src/ledger/model.rs,
  src/settlement/model.rs, src/markets/model.rs, src/models/intent.rs, bid.rs, fill.rs and execution.rs, with their
  constructors and the order-type builders of \<open>Intent\<close>. Identifiers and the current time, which
  the code draws from the environment, are arguments of the constructors.
\<close>

datatype asset = USDC | ETH | BTC | SOL

record balance =
  bal_id :: uuid
  bal_account_id :: uuid
  bal_asset :: asset
  bal_available_balance :: i64
  bal_locked_balance :: i64
  bal_updated_at :: timestamp

datatype entry_type = DEBIT | CREDIT

datatype reference_type = TRADE | DEPOSIT | WITHDRAWAL | FEE

record ledger_entry =
  le_id :: uuid
  le_account_id :: uuid
  le_asset :: asset
  le_amount :: i64
  le_entry_type :: entry_type
  le_reference_type :: reference_type
  le_reference_id :: uuid
  le_created_at :: timestamp

datatype trade_status = TradePending | TradeSettled | TradeFailed

record trade =
  tr_id :: uuid
  tr_buyer_account_id :: uuid
  tr_seller_account_id :: uuid
  tr_solver_account_id :: uuid
  tr_asset_in :: asset
  tr_asset_out :: asset
  tr_amount_in :: i64
  tr_amount_out :: i64
  tr_platform_fee :: i64
  tr_solver_fee :: i64
  tr_status :: trade_status
  tr_created_at :: timestamp
  tr_settled_at :: "timestamp option"

datatype intent_status =
    Open | Bidding | Matched | PartiallyFilled | Executing | Completed | Failed | Cancelled | Expired

datatype order_type = Market | Limit | Stop

record intent =
  in_id :: uuid
  in_user_id :: string
  in_token_in :: string
  in_token_out :: string
  in_amount_in :: i64
  in_min_amount_out :: i64
  in_deadline :: i64
  in_status :: intent_status
  in_created_at :: i64
  in_order_type :: order_type
  in_limit_price :: "i64 option"
  in_stop_price :: "i64 option"
  in_stop_side :: "string option"
  in_triggered_at :: "timestamp option"
  in_source_chain :: string
  in_destination_chain :: string
  in_cross_chain :: bool

definition Intent_new ::
  "uuid \<Rightarrow> i64 \<Rightarrow> string \<Rightarrow> string \<Rightarrow> string \<Rightarrow> u64 \<Rightarrow> u64 \<Rightarrow> i64 \<Rightarrow> intent" where
  "Intent_new new_id now user_id token_in token_out amount_in min_amount_out deadline =
     \<lparr>in_id = new_id, in_user_id = user_id, in_token_in = token_in, in_token_out = token_out,
      in_amount_in = u64_as_i64 amount_in, in_min_amount_out = u64_as_i64 min_amount_out,
      in_deadline = deadline, in_status = Open, in_created_at = now, in_order_type = Market,
      in_limit_price = None, in_stop_price = None, in_stop_side = None, in_triggered_at = None,
      in_source_chain = ''ethereum'', in_destination_chain = ''ethereum'', in_cross_chain = False\<rparr>"

definition with_chains :: "string \<Rightarrow> string \<Rightarrow> intent \<Rightarrow> intent" where
  "with_chains source destination i =
     i\<lparr>in_source_chain := source, in_destination_chain := destination,
       in_cross_chain := (source \<noteq> destination)\<rparr>"

definition with_limit :: "i64 \<Rightarrow> intent \<Rightarrow> intent" where
  "with_limit price i = i\<lparr>in_order_type := Limit, in_limit_price := Some price\<rparr>"

definition with_stop_loss :: "i64 \<Rightarrow> intent \<Rightarrow> intent" where
  "with_stop_loss price i =
     i\<lparr>in_order_type := Stop, in_stop_price := Some price, in_stop_side := Some ''sell''\<rparr>"

definition with_stop_buy :: "i64 \<Rightarrow> intent \<Rightarrow> intent" where
  "with_stop_buy price i =
     i\<lparr>in_order_type := Stop, in_stop_price := Some price, in_stop_side := Some ''buy''\<rparr>"

definition with_stop_limit :: "i64 \<Rightarrow> i64 \<Rightarrow> string \<Rightarrow> intent \<Rightarrow> intent" where
  "with_stop_limit stop limit side i =
     i\<lparr>in_order_type := Stop, in_stop_price := Some stop, in_limit_price := Some limit,
       in_stop_side := Some side\<rparr>"

definition with_stop :: "i64 \<Rightarrow> intent \<Rightarrow> intent" where
  "with_stop price i =
     i\<lparr>in_order_type := Stop, in_stop_price := Some price, in_stop_side := Some ''sell''\<rparr>"

record solver_bid =
  bid_id :: uuid
  bid_intent_id :: uuid
  bid_solver_id :: string
  bid_amount_out :: i64
  bid_fee :: i64
  bid_timestamp :: i64

definition SolverBid_new :: "uuid \<Rightarrow> i64 \<Rightarrow> uuid \<Rightarrow> string \<Rightarrow> u64 \<Rightarrow> u64 \<Rightarrow> solver_bid" where
  "SolverBid_new new_id now intent_id solver_id amount_out fee =
     \<lparr>bid_id = new_id, bid_intent_id = intent_id, bid_solver_id = solver_id,
      bid_amount_out = u64_as_i64 amount_out, bid_fee = u64_as_i64 fee, bid_timestamp = now\<rparr>"

record fill =
  fi_id :: uuid
  fi_intent_id :: uuid
  fi_solver_id :: string
  fi_price :: i64
  fi_qty :: i64
  fi_filled_qty :: i64
  fi_tx_hash :: string
  fi_timestamp :: i64
  fi_settled :: bool
  fi_settled_at :: "timestamp option"

definition Fill_new :: "uuid \<Rightarrow> i64 \<Rightarrow> uuid \<Rightarrow> string \<Rightarrow> i64 \<Rightarrow> i64 \<Rightarrow> i64 \<Rightarrow> fill" where
  "Fill_new new_id now intent_id solver_id price qty filled_qty =
     \<lparr>fi_id = new_id, fi_intent_id = intent_id, fi_solver_id = solver_id, fi_price = price,
      fi_qty = qty, fi_filled_qty = filled_qty, fi_tx_hash = [], fi_timestamp = now,
      fi_settled = False, fi_settled_at = None\<rparr>"

datatype execution_status = ExecPending | ExecExecuting | ExecCompleted | ExecFailed

record execution =
  ex_id :: uuid
  ex_intent_id :: uuid
  ex_solver_id :: string
  ex_tx_hash :: string
  ex_status :: execution_status
  ex_created_at :: timestamp

definition Execution_new :: "uuid \<Rightarrow> timestamp \<Rightarrow> uuid \<Rightarrow> string \<Rightarrow> string \<Rightarrow> execution" where
  "Execution_new new_id now intent_id solver_id tx_hash =
     \<lparr>ex_id = new_id, ex_intent_id = intent_id, ex_solver_id = solver_id, ex_tx_hash = tx_hash,
      ex_status = ExecPending, ex_created_at = now\<rparr>"

record market =
  mk_id :: uuid
  mk_base_asset :: asset
  mk_quote_asset :: asset
  mk_tick_size :: i64
  mk_min_order_size :: i64
  mk_fee_rate :: f64
  mk_chain :: string
  mk_settlement_contract :: "string option"
  mk_base_token_mint :: "string option"
  mk_quote_token_mint :: "string option"
  mk_base_decimals :: int
  mk_quote_decimals :: int
  mk_created_at :: timestamp

definition is_solana :: "market \<Rightarrow> bool" where
  "is_solana k = (mk_chain k = ''solana'')"

definition is_ethereum :: "market \<Rightarrow> bool" where
  "is_ethereum k = (mk_chain k = ''ethereum'')"

text \<open>The row of the table \<open>solver_stats\<close> (src/solver_reputation/stats.rs).\<close>

record solver_stats_row =
  ss_solver_id :: uuid
  ss_total_auctions_entered :: i64
  ss_total_auctions_won :: i64
  ss_total_fills :: i64
  ss_total_settled :: i64
  ss_total_failed :: i64
  ss_total_volume :: i64
  ss_total_profit :: i64
  ss_sum_latency_ms :: i64
  ss_sum_slippage_bps :: i64

section \<open>Cross-chain records\<close>

datatype htlc_status = SwapCreated | SourceLocked | DestClaimed | SourceUnlocked | SwapRefunded | SwapExpired | SwapFailed

definition is_terminal :: "htlc_status \<Rightarrow> bool" where
  "is_terminal st = (st = SourceUnlocked \<or> st = SwapRefunded \<or> st = SwapExpired \<or> st = SwapFailed)"

record htlc_swap =
  hs_id :: uuid
  hs_fill_id :: uuid
  hs_intent_id :: uuid
  hs_secret_hash :: bytes
  hs_secret :: "bytes option"
  hs_source_chain :: string
  hs_source_sender :: string
  hs_source_receiver :: string
  hs_source_token :: "string option"
  hs_source_amount :: i64
  hs_source_lock_tx :: "string option"
  hs_source_unlock_tx :: "string option"
  hs_source_timelock :: timestamp
  hs_dest_chain :: string
  hs_dest_sender :: string
  hs_dest_receiver :: string
  hs_dest_token :: "string option"
  hs_dest_amount :: i64
  hs_dest_lock_tx :: "string option"
  hs_dest_claim_tx :: "string option"
  hs_status :: htlc_status
  hs_solver_id :: string
  hs_error :: "string option"
  hs_created_at :: timestamp
  hs_locked_at :: "timestamp option"
  hs_claimed_at :: "timestamp option"
  hs_completed_at :: "timestamp option"

datatype leg_status = LegPending | LegEscrowed | LegExecuting | LegConfirmed | LegFailed | LegRefunded

record cross_chain_leg =
  lg_id :: uuid
  lg_intent_id :: uuid
  lg_fill_id :: uuid
  lg_leg_index :: int
  lg_chain :: string
  lg_from_address :: string
  lg_to_address :: string
  lg_token_mint :: "string option"
  lg_amount :: i64
  lg_tx_hash :: "string option"
  lg_status :: leg_status
  lg_error :: "string option"
  lg_timeout_at :: timestamp
  lg_created_at :: timestamp
  lg_confirmed_at :: "timestamp option"

section \<open>Time-weighted orders and solver positions\<close>

datatype twap_status = TwapActive | TwapCompleted | TwapCancelled | TwapFailed

record twap_intent =
  tw_id :: uuid
  tw_user_id :: string
  tw_account_id :: uuid
  tw_token_in :: string
  tw_token_out :: string
  tw_total_qty :: i64
  tw_filled_qty :: i64
  tw_min_price :: i64
  tw_duration_secs :: i64
  tw_interval_secs :: i64
  tw_slices_total :: int
  tw_slices_completed :: int
  tw_status :: twap_status
  tw_created_at :: timestamp
  tw_finished_at :: "timestamp option"

text \<open>The column \<open>status\<close> of a slice is text; these are the values the program writes.\<close>

datatype child_status = ChildPending | ChildSubmitted | ChildCompleted | ChildExpired | ChildFailed | ChildCancelled

record twap_child =
  tc_id :: uuid
  tc_twap_id :: uuid
  tc_intent_id :: uuid
  tc_slice_index :: int
  tc_qty :: i64
  tc_status :: child_status
  tc_scheduled_at :: timestamp
  tc_created_at :: timestamp

record solver_position =
  sp_solver_id :: string
  sp_asset :: string
  sp_position :: i64
  sp_avg_entry_price :: i64
  sp_realized_pnl :: i64
  sp_updated_at :: timestamp

section \<open>Asset names\<close>

text \<open>\<open>str::to_uppercase\<close> on ASCII letters; the asset names are ASCII.\<close>

definition to_upper :: "char \<Rightarrow> char" where
  "to_upper c = (let n = of_char c :: nat in if 97 \<le> n \<and> n \<le> 122 then char_of (n - 32) else c)"

definition parse_asset :: "string \<Rightarrow> asset option" where
  "parse_asset token =
     (let t = map to_upper token in
      if t = ''USDC'' then Some USDC
      else if t = ''ETH'' then Some ETH
      else if t = ''BTC'' then Some BTC
      else if t = ''SOL'' then Some SOL
      else None)"

text \<open>The \<open>asset::text\<close> of the database: the name of the enumeration's value.\<close>

definition asset_text :: "asset \<Rightarrow> string" where
  "asset_text a = (case a of USDC \<Rightarrow> ''USDC'' | ETH \<Rightarrow> ''ETH'' | BTC \<Rightarrow> ''BTC'' | SOL \<Rightarrow> ''SOL'')"

lemma parse_asset_text [simp]: "parse_asset (asset_text a) = Some a"
  by (cases a) (simp_all add: asset_text_def parse_asset_def to_upper_def Let_def)

lemma parse_asset_iff: "parse_asset t = Some a \<longleftrightarrow> map to_upper t = asset_text a"
proof
  show "map to_upper t = asset_text a" if "parse_asset t = Some a"
    using that by (auto simp: parse_asset_def asset_text_def Let_def split: if_splits)
  show "parse_asset t = Some a" if "map to_upper t = asset_text a"
    using that by (cases a) (auto simp: parse_asset_def asset_text_def Let_def)
qed

section \<open>Wallets and on-chain transactions\<close>

record wallet =
  wa_id :: uuid
  wa_account_id :: uuid
  wa_address :: string
  wa_chain :: string
  wa_encrypted_key :: "u8 list"
  wa_nonce :: "u8 list"
  wa_active :: bool
  wa_created_at :: timestamp

datatype tx_status = TsPending | TsSubmitted | TsConfirmed | TsFailed | TsDropped

record transaction_record =
  tx_id :: uuid
  tx_fill_id :: "uuid option"
  tx_from_address :: string
  tx_to_address :: string
  tx_chain :: string
  tx_tx_hash :: "string option"
  tx_amount :: i64
  tx_asset :: string
  tx_status :: tx_status
  tx_gas_price :: "i64 option"
  tx_gas_used :: "i64 option"
  tx_block_number :: "i64 option"
  tx_confirmations :: int
  tx_error :: "string option"
  tx_submitted_at :: "timestamp option"
  tx_confirmed_at :: "timestamp option"
  tx_created_at :: timestamp

section \<open>Prices\<close>

record market_price =
  mp_market_id :: uuid
  mp_price :: i64
  mp_source :: string
  mp_updated_at :: timestamp

record price_point =
  ph_id :: uuid
  ph_market_id :: uuid
  ph_price :: i64
  ph_source :: string
  ph_fetched_at :: timestamp

section \<open>Users, keys and stored responses\<close>

record user =
  us_id :: uuid
  us_email :: string
  us_password_hash :: string
  us_created_at :: timestamp
  us_updated_at :: timestamp

record jwt_key =
  jk_id :: uuid
  jk_key_secret :: string
  jk_active :: bool
  jk_created_at :: timestamp

record api_key =
  ak_id :: uuid
  ak_user_id :: uuid
  ak_key_hash :: string
  ak_key_prefix :: string
  ak_name :: string
  ak_permissions :: "string list"
  ak_created_at :: timestamp
  ak_last_used_at :: "timestamp option"
  ak_revoked :: bool

record role =
  ro_id :: uuid
  ro_name :: string
  ro_description :: string

record role_permission =
  rp_role_id :: uuid
  rp_resource :: string
  rp_action :: string

record cached_response =
  cr_key :: string
  cr_user_id :: string
  cr_request_hash :: string
  cr_status_code :: int
  cr_response_body :: string

end
