(* ===== verification/Database.thy ===== *)
theory Database
  imports Models
begin

text \<open>
  The PostgreSQL database as the backend uses it: one list of rows per table, the constraints of
  the migrations that the statements can run into (primary keys, the unique pair of account and
  asset, the reference from a balance to its account), the statements as actions, and
  transactions. A statement can also fail for reasons outside the program (connection, time-out):
  the field \<open>db_faults\<close> is the schedule of such failures, one entry per statement, and every
  theorem is about all schedules. Random identifiers are drawn from the counter \<open>db_next_uuid\<close>.
  PostgreSQL returns the sum of a \<open>BIGINT\<close> column as \<open>NUMERIC\<close>; whether the driver decodes that
  into an \<open>i64\<close> is the parameter \<open>db_decodes_numeric\<close>. The driver the program is built with documents \<open>i64\<close> for \<open>BIGINT\<close>
  columns only, so an empty database has it false.
\<close>

datatype sqlx_error =
    Io | Protocol string | UniqueViolation | ForeignKeyViolation | NumericOutOfRange | RowNotFound
  | ColumnDecode

record failed_settlement =
  fs_id :: uuid
  fs_trade_id :: uuid
  fs_fill_id :: "uuid option"
  fs_retry_count :: int
  fs_last_error :: string
  fs_next_retry_at :: timestamp
  fs_permanently_failed :: bool

record amendment =
  am_intent_id :: uuid
  am_number :: int
  am_field_changed :: string
  am_old_value :: int
  am_new_value :: int
  am_amended_by :: string

record pgdb =
  db_accounts :: "uuid list"
  db_user_accounts :: "(string \<times> uuid) list"
  db_balances :: "balance list"
  db_ledger :: "ledger_entry list"
  db_trades :: "trade list"
  db_intents :: "intent list"
  db_bids :: "solver_bid list"
  db_fills :: "fill list"
  db_executions :: "execution list"
  db_failed :: "failed_settlement list"
  db_amendments :: "amendment list"
  db_markets :: "market list"
  db_solvers :: "uuid list"
  db_solver_stats :: "solver_stats_row list"
  db_legs :: "cross_chain_leg list"
  db_swaps :: "htlc_swap list"
  db_twaps :: "twap_intent list"
  db_twap_children :: "twap_child list"
  db_positions :: "solver_position list"
  db_wallets :: "wallet list"
  db_transactions :: "transaction_record list"
  db_prices :: "market_price list"
  db_price_history :: "price_point list"
  db_users :: "user list"
  db_jwt_keys :: "jwt_key list"
  db_api_keys :: "api_key list"
  db_responses :: "cached_response list"
  db_roles :: "role list"
  db_user_roles :: "(uuid \<times> uuid) list"
  db_permissions :: "role_permission list"
  db_decodes_numeric :: bool
  db_next_uuid :: uuid
  db_faults :: "bool list"

text \<open>A database without rows.\<close>

definition empty_db :: pgdb where
  "empty_db =
     \<lparr>db_accounts = [], db_user_accounts = [], db_balances = [], db_ledger = [], db_trades = [], db_intents = [], db_bids = [],
      db_fills = [], db_executions = [], db_failed = [], db_amendments = [], db_markets = [], db_solvers = [],
      db_solver_stats = [], db_legs = [], db_swaps = [], db_twaps = [], db_twap_children = [], db_positions = [], db_wallets = [], db_transactions = [],
      db_prices = [], db_price_history = [], db_users = [], db_jwt_keys = [], db_api_keys = [], db_responses = [], db_roles = [], db_user_roles = [], db_permissions = [], db_decodes_numeric = False, db_next_uuid = 100, db_faults = []\<rparr>"

lemma empty_db_fields [simp]:
  "db_accounts empty_db = []"
  "db_user_accounts empty_db = []"
  "db_balances empty_db = []"
  "db_ledger empty_db = []"
  "db_trades empty_db = []"
  "db_intents empty_db = []"
  "db_bids empty_db = []"
  "db_fills empty_db = []"
  "db_executions empty_db = []"
  "db_failed empty_db = []"
  "db_amendments empty_db = []"
  "db_markets empty_db = []"
  "db_solvers empty_db = []"
  "db_solver_stats empty_db = []"
  "db_legs empty_db = []"
  "db_swaps empty_db = []"
  "db_twaps empty_db = []"
  "db_twap_children empty_db = []"
  "db_positions empty_db = []"
  "db_wallets empty_db = []"
  "db_transactions empty_db = []"
  "db_prices empty_db = []"
  "db_price_history empty_db = []"
  "db_users empty_db = []"
  "db_jwt_keys empty_db = []"
  "db_api_keys empty_db = []"
  "db_responses empty_db = []"
  "db_roles empty_db = []"
  "db_user_roles empty_db = []"
  "db_permissions empty_db = []"
  "db_next_uuid empty_db = 100"
  "db_faults empty_db = []"
  "\<not> db_decodes_numeric empty_db"
  by (simp_all add: empty_db_def)

type_synonym 'a dbm = "(pgdb, sqlx_error, 'a) action"

section \<open>Statements\<close>

definition next_fault :: "pgdb \<Rightarrow> bool" where
  "next_fault s = (case db_faults s of [] \<Rightarrow> False | f # _ \<Rightarrow> f)"

definition tick :: "pgdb \<Rightarrow> pgdb" where
  "tick s = s\<lparr>db_faults := tl (db_faults s)\<rparr>"

text \<open>A \<open>SELECT\<close>, and a statement that changes rows or is rejected by the database.\<close>

definition sql_query :: "(pgdb \<Rightarrow> 'a) \<Rightarrow> 'a dbm" where
  "sql_query f s = (if next_fault s then (Inl Io, tick s) else (Inr (f s), tick s))"

definition sql_exec :: "(pgdb \<Rightarrow> sqlx_error + 'a \<times> pgdb) \<Rightarrow> 'a dbm" where
  "sql_exec f s =
     (if next_fault s then (Inl Io, tick s)
      else case f s of Inl e \<Rightarrow> (Inl e, tick s) | Inr (x, s') \<Rightarrow> (Inr x, tick s'))"

text \<open>\<open>SELECT COALESCE(SUM(..), 0)\<close> read as one \<open>i64\<close>.\<close>

definition sql_sum :: "(pgdb \<Rightarrow> int) \<Rightarrow> i64 dbm" where
  "sql_sum f = sql_exec (\<lambda>s. if db_decodes_numeric s \<and> in_i64 (f s) then Inr (f s, s) else Inl ColumnDecode)"

definition sql_update :: "(pgdb \<Rightarrow> pgdb) \<Rightarrow> unit dbm" where
  "sql_update f = sql_exec (\<lambda>s. Inr ((), f s))"

text \<open>\<open>Uuid::new_v4()\<close>\<close>

definition new_uuid :: "(pgdb, 'e, uuid) action" where
  "new_uuid s = (Inr (db_next_uuid s), s\<lparr>db_next_uuid := Suc (db_next_uuid s)\<rparr>)"

text \<open>
  A transaction: \<open>BEGIN\<close>, the body, \<open>COMMIT\<close>. An early return or an error of any statement drops
  the transaction and the database forgets its changes; the identifiers it drew are free again.
\<close>

definition rollback :: "pgdb \<Rightarrow> pgdb \<Rightarrow> pgdb" where
  "rollback s s' = s\<lparr>db_faults := db_faults s'\<rparr>"

definition in_tx :: "(sqlx_error \<Rightarrow> 'e) \<Rightarrow> (pgdb, 'e, 'a) action \<Rightarrow> (pgdb, 'e, 'a) action" where
  "in_tx wrap body =
     transaction rollback
       (seqA (map_errA wrap (sql_query (\<lambda>_. ())))
       (bindA body (\<lambda>x.
        seqA (map_errA wrap (sql_query (\<lambda>_. ())))
        (returnA x))))"

section \<open>Rules for statements\<close>

lemma tick_fields [simp]:
  "db_accounts (tick s) = db_accounts s" "db_balances (tick s) = db_balances s"
  "db_user_accounts (tick s) = db_user_accounts s"
  "db_ledger (tick s) = db_ledger s" "db_trades (tick s) = db_trades s"
  "db_intents (tick s) = db_intents s" "db_bids (tick s) = db_bids s"
  "db_fills (tick s) = db_fills s" "db_executions (tick s) = db_executions s"
  "db_failed (tick s) = db_failed s" "db_amendments (tick s) = db_amendments s"
  "db_markets (tick s) = db_markets s" "db_solvers (tick s) = db_solvers s"
  "db_solver_stats (tick s) = db_solver_stats s" "db_legs (tick s) = db_legs s" "db_swaps (tick s) = db_swaps s"
  "db_wallets (tick s) = db_wallets s" "db_transactions (tick s) = db_transactions s"
  "db_twaps (tick s) = db_twaps s" "db_twap_children (tick s) = db_twap_children s" "db_positions (tick s) = db_positions s"
  "db_prices (tick s) = db_prices s" "db_price_history (tick s) = db_price_history s" "db_users (tick s) = db_users s" "db_jwt_keys (tick s) = db_jwt_keys s" "db_api_keys (tick s) = db_api_keys s" "db_responses (tick s) = db_responses s" "db_roles (tick s) = db_roles s" "db_user_roles (tick s) = db_user_roles s" "db_permissions (tick s) = db_permissions s"
  "db_decodes_numeric (tick s) = db_decodes_numeric s"
  "db_next_uuid (tick s) = db_next_uuid s"
  by (simp_all add: tick_def)

lemma sql_query_Inr_iff [action_simps]:
  "sql_query f s = (Inr x, t) \<longleftrightarrow> \<not> next_fault s \<and> x = f s \<and> t = tick s"
  by (auto simp: sql_query_def)

lemma sql_query_Inl_iff [action_simps]:
  "sql_query f s = (Inl e, t) \<longleftrightarrow> next_fault s \<and> e = Io \<and> t = tick s"
  by (auto simp: sql_query_def)

lemma sql_exec_Inr_iff [action_simps]:
  "sql_exec f s = (Inr x, t) \<longleftrightarrow> \<not> next_fault s \<and> (\<exists>s'. f s = Inr (x, s') \<and> t = tick s')"
  by (auto simp: sql_exec_def split: sum.splits)

lemma sql_update_Inr_iff [action_simps]:
  "sql_update f s = (Inr x, t) \<longleftrightarrow> \<not> next_fault s \<and> t = tick (f s)"
  by (auto simp: sql_update_def sql_exec_Inr_iff)

lemma sql_sum_Inr_iff [action_simps]:
  "sql_sum f s = (Inr x, t) \<longleftrightarrow> \<not> next_fault s \<and> db_decodes_numeric s \<and> in_i64 (f s) \<and> x = f s \<and> t = tick s"
  by (auto simp: sql_sum_def sql_exec_Inr_iff)

lemma new_uuid_iff [action_simps]:
  "new_uuid s = (r, t) \<longleftrightarrow> r = Inr (db_next_uuid s) \<and> t = s\<lparr>db_next_uuid := Suc (db_next_uuid s)\<rparr>"
  by (auto simp: new_uuid_def)

lemma in_tx_Inr_iff [action_simps]:
  "in_tx wrap body s = (Inr x, t) \<longleftrightarrow>
     \<not> next_fault s \<and> (\<exists>s'. body (tick s) = (Inr x, s') \<and> \<not> next_fault s' \<and> t = tick s')"
  by (auto simp: in_tx_def action_simps)

text \<open>Atomicity: a transaction that fails, for whatever reason, changes no table.\<close>

lemma in_tx_atomic:
  assumes "in_tx wrap body s = (Inl e, t)"
  shows "\<exists>f. t = s\<lparr>db_faults := f\<rparr>"
  using transaction_InlD [OF assms [unfolded in_tx_def]] by (auto simp: rollback_def)

lemma preserves_sql_query [intro]: "(\<And>s. I (tick s) = I s) \<Longrightarrow> preserves I (sql_query f)"
  by (auto simp: preserves_def sql_query_def)

lemma preserves_sql_update: "(\<And>s. I (tick s) = I s) \<Longrightarrow> (\<And>s. I s \<Longrightarrow> I (f s)) \<Longrightarrow> preserves I (sql_update f)"
  by (auto simp: preserves_def sql_update_def sql_exec_def)

lemma preserves_in_tx:
  assumes "preserves I m" and "\<And>s. I (tick s) = I s" and "\<And>s f. I (s\<lparr>db_faults := f\<rparr>) = I s"
  shows "preserves I (in_tx wrap m)"
  using assms
  by (auto simp: preserves_def in_tx_def transaction_def rollback_def seqA_def bindA_def map_errA_def sql_query_def returnA_def
      split: prod.splits sum.splits if_splits) (metis snd_conv)+

lemmas db_evals = Let_def action_evals sql_query_def sql_exec_def sql_update_def sql_sum_def new_uuid_def in_tx_def
  rollback_def tick_def next_fault_def

section \<open>The balances table\<close>

definition balance_key :: "balance \<Rightarrow> uuid \<times> asset" where
  "balance_key b = (bal_account_id b, bal_asset b)"

definition find_balance :: "uuid \<Rightarrow> asset \<Rightarrow> pgdb \<Rightarrow> balance option" where
  "find_balance account_id asset s =
     List.find (\<lambda>b. bal_account_id b = account_id \<and> bal_asset b = asset) (db_balances s)"

definition insert_balance_row :: "balance \<Rightarrow> pgdb \<Rightarrow> sqlx_error + unit \<times> pgdb" where
  "insert_balance_row b s =
     (if bal_account_id b \<notin> set (db_accounts s) then Inl ForeignKeyViolation
      else if bal_id b \<in> bal_id ` set (db_balances s) \<or> balance_key b \<in> balance_key ` set (db_balances s)
      then Inl UniqueViolation
      else Inr ((), s\<lparr>db_balances := db_balances s @ [b]\<rparr>))"

definition update_balances :: "(balance \<Rightarrow> bool) \<Rightarrow> (balance \<Rightarrow> balance) \<Rightarrow> pgdb \<Rightarrow> pgdb" where
  "update_balances P f s = s\<lparr>db_balances := map (\<lambda>b. if P b then f b else b) (db_balances s)\<rparr>"

text \<open>
  \<open>UPDATE balances SET available = available + d1, locked = locked + d2 WHERE account and asset\<close>:
  the database computes the new values, rejects a \<open>BIGINT\<close> overflow and reports the number of rows.
\<close>

definition add_to_balance ::
  "uuid \<Rightarrow> asset \<Rightarrow> int \<Rightarrow> int \<Rightarrow> timestamp \<Rightarrow> (balance \<Rightarrow> bool) \<Rightarrow> pgdb \<Rightarrow> sqlx_error + nat \<times> pgdb" where
  "add_to_balance account_id asset d1 d2 now guard s =
     (let P = (\<lambda>b. bal_account_id b = account_id \<and> bal_asset b = asset \<and> guard b);
          hit = filter P (db_balances s)
      in if list_all (\<lambda>b. in_i64 (bal_available_balance b + d1) \<and> in_i64 (bal_locked_balance b + d2)) hit
         then Inr (length hit, update_balances P (\<lambda>b. b\<lparr>bal_available_balance := bal_available_balance b + d1,
                       bal_locked_balance := bal_locked_balance b + d2, bal_updated_at := now\<rparr>) s)
         else Inl NumericOutOfRange)"

text \<open>The constraints of the table, and what an asset's rows add up to.\<close>

definition balances_wf :: "pgdb \<Rightarrow> bool" where
  "balances_wf s \<longleftrightarrow>
     distinct (map bal_id (db_balances s)) \<and> distinct (map balance_key (db_balances s)) \<and>
     (\<forall>b\<in>set (db_balances s). bal_id b < db_next_uuid s)"

definition holding :: "asset \<Rightarrow> balance \<Rightarrow> int" where
  "holding a b = (if bal_asset b = a then bal_available_balance b + bal_locked_balance b else 0)"

definition total_supply :: "asset \<Rightarrow> pgdb \<Rightarrow> int" where
  "total_supply a s = sum_list (map (holding a) (db_balances s))"

text \<open>A user's two columns; an account without a row holds nothing.\<close>

definition available :: "uuid \<Rightarrow> asset \<Rightarrow> pgdb \<Rightarrow> int" where
  "available account_id a s = (case find_balance account_id a s of None \<Rightarrow> 0 | Some b \<Rightarrow> bal_available_balance b)"

definition locked :: "uuid \<Rightarrow> asset \<Rightarrow> pgdb \<Rightarrow> int" where
  "locked account_id a s = (case find_balance account_id a s of None \<Rightarrow> 0 | Some b \<Rightarrow> bal_locked_balance b)"

definition all_nonneg :: "pgdb \<Rightarrow> bool" where
  "all_nonneg s \<longleftrightarrow> (\<forall>b\<in>set (db_balances s). 0 \<le> bal_available_balance b \<and> 0 \<le> bal_locked_balance b)"

text \<open>The tables a statement on balances must leave alone.\<close>

definition same_tables :: "pgdb \<Rightarrow> pgdb \<Rightarrow> bool" where
  "same_tables s t \<longleftrightarrow>
     db_accounts t = db_accounts s \<and> db_user_accounts t = db_user_accounts s \<and>
     db_ledger t = db_ledger s \<and> db_trades t = db_trades s \<and> db_intents t = db_intents s \<and>
     db_bids t = db_bids s \<and> db_fills t = db_fills s \<and> db_executions t = db_executions s \<and>
     db_failed t = db_failed s \<and> db_amendments t = db_amendments s \<and> db_markets t = db_markets s \<and>
     db_solvers t = db_solvers s \<and> db_solver_stats t = db_solver_stats s \<and> db_legs t = db_legs s \<and> db_swaps t = db_swaps s \<and>
     db_twaps t = db_twaps s \<and> db_twap_children t = db_twap_children s \<and> db_positions t = db_positions s \<and>
     db_wallets t = db_wallets s \<and> db_transactions t = db_transactions s \<and>
     db_prices t = db_prices s \<and> db_price_history t = db_price_history s \<and> db_users t = db_users s \<and> db_jwt_keys t = db_jwt_keys s \<and> db_api_keys t = db_api_keys s \<and> db_responses t = db_responses s \<and> db_roles t = db_roles s \<and> db_user_roles t = db_user_roles s \<and> db_permissions t = db_permissions s \<and>
     db_decodes_numeric t = db_decodes_numeric s \<and> db_next_uuid s \<le> db_next_uuid t"

text \<open>
  The abstract effect of every operation on the table: the two columns of one account and asset
  change by \<open>d1\<close> and \<open>d2\<close>, the asset's total by their sum, and nothing else changes.
\<close>

definition moved :: "uuid \<Rightarrow> asset \<Rightarrow> int \<Rightarrow> int \<Rightarrow> pgdb \<Rightarrow> pgdb \<Rightarrow> bool" where
  "moved account_id a d1 d2 s t \<longleftrightarrow>
     balances_wf t \<and> same_tables s t \<and>
     (\<forall>c x. available c x t = available c x s + (if c = account_id \<and> x = a then d1 else 0)) \<and>
     (\<forall>c x. locked c x t = locked c x s + (if c = account_id \<and> x = a then d2 else 0)) \<and>
     (\<forall>x. total_supply x t = total_supply x s + (if x = a then d1 + d2 else 0))"

lemma same_tables_refl [simp]: "same_tables s s"
  by (simp add: same_tables_def)

lemma same_tables_trans: "same_tables s t \<Longrightarrow> same_tables t u \<Longrightarrow> same_tables s u"
  by (auto simp: same_tables_def)

lemma table_views_cong:
  assumes "db_balances t = db_balances s"
  shows "find_balance c x t = find_balance c x s" "available c x t = available c x s"
    "locked c x t = locked c x s" "total_supply x t = total_supply x s" "all_nonneg t = all_nonneg s"
  using assms by (simp_all add: find_balance_def available_def locked_def total_supply_def all_nonneg_def)

lemma tick_views [simp]:
  "find_balance c x (tick s) = find_balance c x s" "available c x (tick s) = available c x s"
  "locked c x (tick s) = locked c x s" "total_supply x (tick s) = total_supply x s"
  "all_nonneg (tick s) = all_nonneg s" "balances_wf (tick s) = balances_wf s"
  by (simp_all add: find_balance_def available_def locked_def total_supply_def all_nonneg_def balances_wf_def)

lemma same_tables_tick [simp]:
  "same_tables (tick s) t = same_tables s t" "same_tables s (tick t) = same_tables s t"
  by (simp_all add: same_tables_def)

lemma moved_tick [simp]:
  "moved c a d1 d2 (tick s) t = moved c a d1 d2 s t" "moved c a d1 d2 s (tick t) = moved c a d1 d2 s t"
  by (simp_all add: moved_def)

lemma find_balance_SomeD:
  "find_balance c x s = Some b \<Longrightarrow> b \<in> set (db_balances s) \<and> bal_account_id b = c \<and> bal_asset b = x"
  by (auto simp: find_balance_def dest: find_Some_memD)

lemma find_balance_key:
  "find_balance c x s = List.find (\<lambda>b. balance_key b = (c, x)) (db_balances s)"
  by (simp add: find_balance_def balance_key_def)

lemma find_balance_mem:
  assumes "balances_wf s" and "b \<in> set (db_balances s)"
  shows "find_balance (bal_account_id b) (bal_asset b) s = Some b"
proof -
  have "distinct (map balance_key (db_balances s))" using assms by (simp add: balances_wf_def)
  then have "List.find (\<lambda>r. balance_key r = balance_key b) xs = Some b"
    if "b \<in> set xs" "distinct (map balance_key xs)" for xs
    using that by (induction xs) (auto simp: image_iff)
  then show ?thesis using assms by (simp add: find_balance_key balances_wf_def balance_key_def)
qed

lemma nonneg_views: "all_nonneg s \<Longrightarrow> 0 \<le> available c x s \<and> 0 \<le> locked c x s"
  by (auto simp: available_def locked_def all_nonneg_def dest!: find_balance_SomeD split: option.splits)

lemma all_nonneg_iff:
  assumes "balances_wf s"
  shows "all_nonneg s \<longleftrightarrow> (\<forall>c x. 0 \<le> available c x s \<and> 0 \<le> locked c x s)" (is "?l \<longleftrightarrow> ?r")
proof
  show ?r if ?l using that nonneg_views by blast
  show ?l if r: ?r
  proof (unfold all_nonneg_def, intro ballI)
    fix b assume "b \<in> set (db_balances s)"
    then show "0 \<le> bal_available_balance b \<and> 0 \<le> bal_locked_balance b"
      using find_balance_mem [OF assms] r [rule_format, of "bal_account_id b" "bal_asset b"]
      by (simp add: available_def locked_def)
  qed
qed

text \<open>No account holds more of an asset than there is.\<close>

lemma row_le_total:
  assumes "all_nonneg s"
  shows "available c x s + locked c x s \<le> total_supply x s"
proof (cases "find_balance c x s")
  case None
  have "0 \<le> total_supply x s"
    using assms unfolding total_supply_def
    by (intro sum_list_nonneg) (auto simp: all_nonneg_def holding_def)
  then show ?thesis using None by (simp add: available_def locked_def)
next
  case (Some b)
  then have b: "b \<in> set (db_balances s)" "bal_asset b = x" by (auto dest: find_balance_SomeD)
  have "holding x b \<le> total_supply x s"
    unfolding total_supply_def using assms b
    by (intro member_le_sum_list_nonneg) (auto simp: all_nonneg_def holding_def)
  then show ?thesis using Some b by (simp add: available_def locked_def holding_def)
qed

section \<open>Effects of the statements on balances\<close>

lemma update_row_moved:
  assumes wf: "balances_wf s" and b: "find_balance c a s = Some b"
    and P: "\<And>r. r \<in> set (db_balances s) \<Longrightarrow> P r \<longleftrightarrow> r = b"
    and f: "bal_id (f b) = bal_id b" "bal_account_id (f b) = c" "bal_asset (f b) = a"
    and d: "bal_available_balance (f b) = bal_available_balance b + d1"
      "bal_locked_balance (f b) = bal_locked_balance b + d2"
  shows "moved c a d1 d2 s (update_balances P f s)"
proof -
  note mem = find_balance_SomeD [OF b]
  define g where "g r = (if bal_id r = bal_id b then f b else r)" for r
  have ids: "distinct (map bal_id (db_balances s))" and keys: "distinct (map balance_key (db_balances s))"
    using wf by (auto simp: balances_wf_def)
  have uniq: "r = b" if "r \<in> set (db_balances s)" "bal_id r = bal_id b" for r
    using ids that mem by (auto simp: distinct_map inj_on_def)
  have rows: "db_balances (update_balances P f s) = map g (db_balances s)"
    using P uniq mem by (auto simp: update_balances_def g_def)
  have g_keeps: "bal_id (g r) = bal_id r" "balance_key (g r) = balance_key r" if "r \<in> set (db_balances s)" for r
    using uniq [OF that] f mem by (auto simp: g_def balance_key_def)
  have fb: "find_balance k x (update_balances P f s) = map_option g (find_balance k x s)" for k x
  proof -
    have "List.find (\<lambda>r. balance_key r = (k, x)) (map g rs) = map_option g (List.find (\<lambda>r. balance_key r = (k, x)) rs)"
      if "set rs \<subseteq> set (db_balances s)" for rs
      using that by (induction rs) (auto simp: g_keeps)
    then show ?thesis by (simp add: find_balance_key rows)
  qed
  have gb: "g r = (if k = c \<and> x = a then f b else r)" if "find_balance k x s = Some r" for k x r
  proof (cases "k = c \<and> x = a")
    case True
    then have "r = b" using that b by simp
    then show ?thesis using True by (simp add: g_def)
  next
    case False
    then have "r \<noteq> b" using find_balance_SomeD [OF that] mem by auto
    then have "bal_id r \<noteq> bal_id b" using uniq find_balance_SomeD [OF that] by blast
    then show ?thesis using False by (auto simp: g_def)
  qed
  have "map bal_id (map g (db_balances s)) = map bal_id (db_balances s)"
    "map balance_key (map g (db_balances s)) = map balance_key (db_balances s)"
    using g_keeps by simp_all
  moreover have "bal_id r < db_next_uuid s" if "r \<in> set (map g (db_balances s))" for r
    using that wf g_keeps by (auto simp: balances_wf_def)
  moreover have "db_next_uuid (update_balances P f s) = db_next_uuid s" by (simp add: update_balances_def)
  ultimately have "balances_wf (update_balances P f s)"
    using ids keys unfolding balances_wf_def rows by metis
  moreover have "same_tables s (update_balances P f s)" by (simp add: same_tables_def update_balances_def)
  moreover have "available k x (update_balances P f s) = available k x s + (if k = c \<and> x = a then d1 else 0)"
    and "locked k x (update_balances P f s) = locked k x s + (if k = c \<and> x = a then d2 else 0)" for k x
    using b d gb by (auto simp: available_def locked_def fb split: option.splits)
  moreover have "total_supply x (update_balances P f s) = total_supply x s + (if x = a then d1 + d2 else 0)" for x
  proof -
    have g: "g = (\<lambda>r. if bal_id r = bal_id b then f b else r)" by (simp add: g_def fun_eq_iff)
    have "total_supply x (update_balances P f s) = total_supply x s - holding x b + holding x (f b)"
      unfolding total_supply_def rows g map_map comp_def
      using sum_list_map_update [OF ids, of b "holding x" "\<lambda>_. f b"] mem by simp
    then show ?thesis using d f mem by (simp add: holding_def)
  qed
  ultimately show ?thesis by (simp add: moved_def)
qed

lemma key_selects:
  assumes "balances_wf s" and "find_balance c a s = Some b" and "r \<in> set (db_balances s)"
  shows "bal_account_id r = c \<and> bal_asset r = a \<longleftrightarrow> r = b"
proof
  show "r = b" if "bal_account_id r = c \<and> bal_asset r = a"
    using find_balance_mem [OF assms(1,3)] that assms(2) by simp
  show "bal_account_id r = c \<and> bal_asset r = a" if "r = b"
    using find_balance_SomeD [OF assms(2)] that by simp
qed

lemma id_selects:
  assumes "balances_wf s" and "find_balance c a s = Some b" and "r \<in> set (db_balances s)"
  shows "bal_id r = bal_id b \<longleftrightarrow> r = b"
  using assms find_balance_SomeD [OF assms(2)] by (auto simp: balances_wf_def distinct_map inj_on_def)

lemma find_balance_NoneD:
  "find_balance c a s = None \<Longrightarrow> r \<in> set (db_balances s) \<Longrightarrow> \<not> (bal_account_id r = c \<and> bal_asset r = a)"
  by (auto simp: find_balance_def find_None_iff)

lemma insert_row_moved:
  assumes ins: "insert_balance_row b s = Inr ((), t)" and wf: "balances_wf s"
    and key: "bal_account_id b = c" "bal_asset b = a" and fresh: "bal_id b < db_next_uuid s"
  shows "moved c a (bal_available_balance b) (bal_locked_balance b) s t"
proof -
  have t: "t = s\<lparr>db_balances := db_balances s @ [b]\<rparr>"
    and new: "bal_id b \<notin> bal_id ` set (db_balances s)" "balance_key b \<notin> balance_key ` set (db_balances s)"
    using ins by (auto simp: insert_balance_row_def split: if_splits)
  have none: "find_balance c a s = None"
    using new key by (auto simp: find_balance_key find_None_iff balance_key_def image_iff)
  have fb: "find_balance k x t = (if k = c \<and> x = a then Some b else find_balance k x s)" for k x
  proof -
    have "List.find Q (xs @ [b]) = (case List.find Q xs of None \<Rightarrow> if Q b then Some b else None | Some r \<Rightarrow> Some r)" for Q xs
      by (induction xs) auto
    then show ?thesis using none key by (auto simp: find_balance_def t split: option.splits)
  qed
  have "balances_wf t" using wf new fresh by (auto simp: balances_wf_def t)
  moreover have "same_tables s t" by (simp add: same_tables_def t)
  moreover have "total_supply x t = total_supply x s + holding x b" for x by (simp add: total_supply_def t)
  ultimately show ?thesis using none key by (simp add: moved_def available_def locked_def fb holding_def)
qed

lemma add_to_balance_moved:
  assumes wf: "balances_wf s" and eff: "add_to_balance c a d1 d2 now guard s = Inr (n, t)" and n: "n \<noteq> 0"
  shows "(\<exists>b. find_balance c a s = Some b \<and> guard b \<and> in_i64 (available c a s + d1) \<and> in_i64 (locked c a s + d2)) \<and>
         moved c a d1 d2 s t"
proof -
  let ?P = "\<lambda>b. bal_account_id b = c \<and> bal_asset b = a \<and> guard b"
  obtain b where b: "b \<in> set (db_balances s)" "?P b"
    using eff n by (auto simp: add_to_balance_def Let_def filter_empty_conv split: if_splits)
  then have fb: "find_balance c a s = Some b" using find_balance_mem [OF wf] by blast
  then have P: "?P r \<longleftrightarrow> r = b" if "r \<in> set (db_balances s)" for r
    using key_selects [OF wf fb that] b by blast
  have t: "t = update_balances ?P (\<lambda>b. b\<lparr>bal_available_balance := bal_available_balance b + d1,
                       bal_locked_balance := bal_locked_balance b + d2, bal_updated_at := now\<rparr>) s"
    and ok: "in_i64 (bal_available_balance b + d1)" "in_i64 (bal_locked_balance b + d2)"
    using eff b by (auto simp: add_to_balance_def Let_def list_all_iff split: if_splits)
  have "moved c a d1 d2 s t" unfolding t using b by (intro update_row_moved [OF wf fb P]) auto
  then show ?thesis using fb b ok by (auto simp: available_def locked_def)
qed

lemma add_to_missing_balance:
  assumes "add_to_balance c a d1 d2 now guard s = Inr (0, t)"
  shows "t = s"
proof -
  have none: "\<not> (bal_account_id b = c \<and> bal_asset b = a \<and> guard b)" if "b \<in> set (db_balances s)" for b
    using assms that by (auto simp: add_to_balance_def Let_def filter_empty_conv split: if_splits)
  then have "map (\<lambda>b. if bal_account_id b = c \<and> bal_asset b = a \<and> guard b then h b else b) (db_balances s) = db_balances s" for h
    by (intro map_idI) auto
  then show ?thesis using assms by (simp add: add_to_balance_def update_balances_def Let_def split: if_splits)
qed

text \<open>Rules for chaining effects.\<close>

lemma moved_views:
  assumes "moved c a d1 d2 s t"
  shows "available k x t = available k x s + (if k = c \<and> x = a then d1 else 0)"
    "locked k x t = locked k x s + (if k = c \<and> x = a then d2 else 0)"
    "total_supply x t = total_supply x s + (if x = a then d1 + d2 else 0)"
    "balances_wf t" "same_tables s t"
  using assms by (auto simp: moved_def)

lemma moved_nonneg:
  assumes "moved c a d1 d2 s t" and "all_nonneg s"
    and "0 \<le> available c a s + d1" and "0 \<le> locked c a s + d2"
  shows "all_nonneg t"
  using assms nonneg_views [OF assms(2)]
  by (simp add: all_nonneg_iff moved_views [OF assms(1)])

lemma same_balances_views:
  assumes "db_balances t = db_balances s"
  shows "balances_wf s \<Longrightarrow> db_next_uuid s \<le> db_next_uuid t \<Longrightarrow> balances_wf t"
  using assms by (force simp: balances_wf_def)

lemma moved_trans: "moved c a d1 d2 s t \<Longrightarrow> moved c a e1 e2 t u \<Longrightarrow> moved c a (d1 + e1) (d2 + e2) s u"
  by (auto simp: moved_def intro: same_tables_trans)

lemma moved_zero:
  "balances_wf t \<Longrightarrow> db_balances t = db_balances s \<Longrightarrow> same_tables s t \<Longrightarrow> moved c a 0 0 s t"
  by (simp add: moved_def table_views_cong [of t s])

section \<open>Posting to the ledger\<close>

text \<open>The abstract effect of a ledger insertion: one more entry, everything else as it was.\<close>

definition posted :: "ledger_entry list \<Rightarrow> pgdb \<Rightarrow> pgdb \<Rightarrow> bool" where
  "posted es s t \<longleftrightarrow>
     db_ledger t = db_ledger s @ es \<and> db_balances t = db_balances s \<and>
     same_tables (s\<lparr>db_ledger := db_ledger t\<rparr>) t"

definition signed_amount :: "ledger_entry \<Rightarrow> int" where
  "signed_amount e = (if le_entry_type e = DEBIT then le_amount e else - le_amount e)"

text \<open>What the ledger says an account holds: debits less credits.\<close>

definition entry_value :: "uuid \<Rightarrow> asset \<Rightarrow> ledger_entry \<Rightarrow> int" where
  "entry_value account_id a e =
     (if le_account_id e = account_id \<and> le_asset e = a then signed_amount e else 0)"

definition ledger_balance :: "uuid \<Rightarrow> asset \<Rightarrow> pgdb \<Rightarrow> int" where
  "ledger_balance account_id a s = sum_list (map (entry_value account_id a) (db_ledger s))"

lemma posted_views:
  assumes "posted es s t"
  shows "available c x t = available c x s" "locked c x t = locked c x s"
    "total_supply x t = total_supply x s" "all_nonneg t = all_nonneg s"
    "find_balance c x t = find_balance c x s"
    "balances_wf s \<Longrightarrow> balances_wf t"
    "ledger_balance c x t = ledger_balance c x s + sum_list (map (entry_value c x) es)"
    "db_next_uuid s \<le> db_next_uuid t" "db_fills t = db_fills s" "db_intents t = db_intents s"
    "db_trades t = db_trades s" "db_failed t = db_failed s" "db_user_accounts t = db_user_accounts s"
    "db_accounts t = db_accounts s" "db_ledger t = db_ledger s @ es"
proof -
  have b: "db_balances t = db_balances s" and r: "same_tables (s\<lparr>db_ledger := db_ledger t\<rparr>) t"
    and l: "db_ledger t = db_ledger s @ es" using assms by (auto simp: posted_def)
  show "balances_wf t" if "balances_wf s"
    using that b r by (force simp: balances_wf_def same_tables_def)
  show "available c x t = available c x s" "locked c x t = locked c x s"
    "total_supply x t = total_supply x s" "all_nonneg t = all_nonneg s"
    "find_balance c x t = find_balance c x s" by (fact table_views_cong [OF b])+
  show "ledger_balance c x t = ledger_balance c x s + sum_list (map (entry_value c x) es)"
    using l by (simp add: ledger_balance_def)
  show "db_next_uuid s \<le> db_next_uuid t" "db_fills t = db_fills s" "db_intents t = db_intents s"
    "db_trades t = db_trades s" "db_failed t = db_failed s" "db_user_accounts t = db_user_accounts s"
    "db_accounts t = db_accounts s"
    using r by (auto simp: same_tables_def)
qed (use assms in \<open>simp add: posted_def\<close>)

lemma posted_Nil: "db_ledger t = db_ledger s \<Longrightarrow> db_balances t = db_balances s \<Longrightarrow> same_tables s t \<Longrightarrow> posted [] s t"
  by (simp add: posted_def same_tables_def)

lemma posted_trans: "posted es s t \<Longrightarrow> posted fs t u \<Longrightarrow> posted (es @ fs) s u"
  by (auto simp: posted_def same_tables_def)

lemma posted_tick [simp]: "posted es (tick s) t = posted es s t" "posted es s (tick t) = posted es s t"
  by (simp_all add: posted_def same_tables_def)

lemma ledger_of_moved: "moved c a d1 d2 s t \<Longrightarrow> ledger_balance k x t = ledger_balance k x s"
  by (simp add: moved_def same_tables_def ledger_balance_def)

section \<open>Lookups shared by the components\<close>

definition find_intent :: "uuid \<Rightarrow> pgdb \<Rightarrow> intent option" where
  "find_intent intent_id s = List.find (\<lambda>i. in_id i = intent_id) (db_intents s)"

definition set_intent_status :: "uuid \<Rightarrow> intent_status \<Rightarrow> pgdb \<Rightarrow> pgdb" where
  "set_intent_status intent_id status s =
     s\<lparr>db_intents := map (\<lambda>i. if in_id i = intent_id then i\<lparr>in_status := status\<rparr> else i) (db_intents s)\<rparr>"

definition find_fill :: "uuid \<Rightarrow> pgdb \<Rightarrow> fill option" where
  "find_fill fill_id s = List.find (\<lambda>f. fi_id f = fill_id) (db_fills s)"

text \<open>\<open>SELECT a.id FROM accounts a JOIN users u ON u.id = a.user_id WHERE u.id::text = $1 LIMIT 1\<close>\<close>

definition find_user_account :: "string \<Rightarrow> pgdb \<Rightarrow> uuid option" where
  "find_user_account user_text s = map_of (db_user_accounts s) user_text"

lemma lookups_tick [simp]:
  "find_intent i (tick s) = find_intent i s" "find_fill i (tick s) = find_fill i s"
  "find_user_account u (tick s) = find_user_account u s"
  by (simp_all add: find_intent_def find_fill_def find_user_account_def)

end
