(* ===== verification/Balances.thy ===== *)
theory Balances
  imports Ledger
begin

text \<open>
  Accounts' balances: src/balances/repository.rs and src/balances/service.rs. The repository is
  used through the interface \<open>balance_store\<close> (a row can be loaded, created when missing, and
  written back), which the transaction helpers of the settlement engine implement too. The service
  reads a row, computes in memory with wrapping \<open>i64\<close> arithmetic and writes the row back; it opens
  no transaction, so a failing statement leaves the effects of the earlier ones.
\<close>

datatype balance_error =
    InsufficientBalance | InsufficientLockedBalance | InvalidAmount
  | BalanceDb sqlx_error | BalanceLedger ledger_error

section \<open>BalanceRepository\<close>

definition find_or_create :: "timestamp \<Rightarrow> uuid \<Rightarrow> asset \<Rightarrow> balance dbm" where
  "find_or_create now account_id asset =
     bindA (sql_query (find_balance account_id asset)) (\<lambda>existing.
     case existing of
       Some b \<Rightarrow> returnA b
     | None \<Rightarrow>
         bindA new_uuid (\<lambda>new_id.
         let b = \<lparr>bal_id = new_id, bal_account_id = account_id, bal_asset = asset,
                  bal_available_balance = 0, bal_locked_balance = 0, bal_updated_at = now\<rparr> in
         seqA (sql_exec (insert_balance_row b))
         (returnA b)))"

definition balance_update :: "balance \<Rightarrow> unit dbm" where
  "balance_update b =
     sql_update (update_balances (\<lambda>r. bal_id r = bal_id b)
       (\<lambda>r. r\<lparr>bal_available_balance := bal_available_balance b,
              bal_locked_balance := bal_locked_balance b, bal_updated_at := bal_updated_at b\<rparr>))"

definition balance_find_by_account_id :: "uuid \<Rightarrow> balance list dbm" where
  "balance_find_by_account_id account_id =
     sql_query (\<lambda>s. filter (\<lambda>b. bal_account_id b = account_id) (db_balances s))"

section \<open>BalanceService\<close>

definition deposit :: "timestamp \<Rightarrow> uuid \<Rightarrow> asset \<Rightarrow> i64 \<Rightarrow> (pgdb, balance_error, balance) action" where
  "deposit now account_id asset amount =
     (if amount \<le> 0 then raiseA InvalidAmount else
      bindA (map_errA BalanceDb (find_or_create now account_id asset)) (\<lambda>b.
      let b = b\<lparr>bal_available_balance := wrap64 (bal_available_balance b + amount), bal_updated_at := now\<rparr> in
      seqA (map_errA BalanceDb (balance_update b))
      (bindA new_uuid (\<lambda>reference_id.
       bindA (map_errA BalanceLedger (create_entry now account_id asset amount DEBIT DEPOSIT reference_id)) (\<lambda>_.
       returnA b)))))"

definition withdraw :: "timestamp \<Rightarrow> uuid \<Rightarrow> asset \<Rightarrow> i64 \<Rightarrow> (pgdb, balance_error, balance) action" where
  "withdraw now account_id asset amount =
     (if amount \<le> 0 then raiseA InvalidAmount else
      bindA (map_errA BalanceDb (find_or_create now account_id asset)) (\<lambda>b.
      if bal_available_balance b < amount then raiseA InsufficientBalance else
      let b = b\<lparr>bal_available_balance := wrap64 (bal_available_balance b - amount), bal_updated_at := now\<rparr> in
      seqA (map_errA BalanceDb (balance_update b))
      (bindA new_uuid (\<lambda>reference_id.
       bindA (map_errA BalanceLedger (create_entry now account_id asset amount CREDIT WITHDRAWAL reference_id)) (\<lambda>_.
       returnA b)))))"

definition lock_balance :: "timestamp \<Rightarrow> uuid \<Rightarrow> asset \<Rightarrow> i64 \<Rightarrow> (pgdb, balance_error, balance) action" where
  "lock_balance now account_id asset amount =
     (if amount \<le> 0 then raiseA InvalidAmount else
      bindA (map_errA BalanceDb (find_or_create now account_id asset)) (\<lambda>b.
      if bal_available_balance b < amount then raiseA InsufficientBalance else
      let b = b\<lparr>bal_available_balance := wrap64 (bal_available_balance b - amount),
                bal_locked_balance := wrap64 (bal_locked_balance b + amount), bal_updated_at := now\<rparr> in
      seqA (map_errA BalanceDb (balance_update b))
      (returnA b)))"

definition unlock_balance :: "timestamp \<Rightarrow> uuid \<Rightarrow> asset \<Rightarrow> i64 \<Rightarrow> (pgdb, balance_error, balance) action" where
  "unlock_balance now account_id asset amount =
     (if amount \<le> 0 then raiseA InvalidAmount else
      bindA (map_errA BalanceDb (find_or_create now account_id asset)) (\<lambda>b.
      if bal_locked_balance b < amount then raiseA InsufficientLockedBalance else
      let b = b\<lparr>bal_available_balance := wrap64 (bal_available_balance b + amount),
                bal_locked_balance := wrap64 (bal_locked_balance b - amount), bal_updated_at := now\<rparr> in
      seqA (map_errA BalanceDb (balance_update b))
      (returnA b)))"

definition transfer ::
  "timestamp \<Rightarrow> uuid \<Rightarrow> uuid \<Rightarrow> asset \<Rightarrow> i64 \<Rightarrow> (pgdb, balance_error, balance \<times> balance) action" where
  "transfer now from_account_id to_account_id asset amount =
     (if amount \<le> 0 then raiseA InvalidAmount else
      bindA (map_errA BalanceDb (find_or_create now from_account_id asset)) (\<lambda>from.
      if bal_available_balance from < amount then raiseA InsufficientBalance else
      bindA (map_errA BalanceDb (find_or_create now to_account_id asset)) (\<lambda>to.
      let from = from\<lparr>bal_available_balance := wrap64 (bal_available_balance from - amount), bal_updated_at := now\<rparr>;
          to = to\<lparr>bal_available_balance := wrap64 (bal_available_balance to + amount), bal_updated_at := now\<rparr> in
      seqA (map_errA BalanceDb (balance_update from))
      (seqA (map_errA BalanceDb (balance_update to))
      (bindA new_uuid (\<lambda>reference_id.
       bindA (map_errA BalanceLedger
                (create_double_entry now from_account_id to_account_id asset amount TRADE reference_id)) (\<lambda>_.
       returnA (from, to))))))))"

text \<open>The cached answer, when there is one, is returned without a query.\<close>

definition get_balances :: "balance list option \<Rightarrow> uuid \<Rightarrow> (pgdb, balance_error, balance list) action" where
  "get_balances cached account_id =
     (case cached of
        Some balances \<Rightarrow> returnA balances
      | None \<Rightarrow> map_errA BalanceDb (balance_find_by_account_id account_id))"

section \<open>The interface to the balances table\<close>

text \<open>
  \<open>load\<close> returns the row of an account and asset and creates an empty one when there is none;
  \<open>store\<close> writes a row back. The first locale promises the available column only; the second
  promises the locked column too.
\<close>

locale balance_store =
  fixes load :: "uuid \<Rightarrow> asset \<Rightarrow> balance dbm"
    and store :: "balance \<Rightarrow> unit dbm"
  assumes load_ok: "load c a s = (Inr b, t) \<Longrightarrow> balances_wf s \<Longrightarrow> moved c a 0 0 s t \<and> find_balance c a t = Some b"
    and load_error: "load c a s = (Inl e, t) \<Longrightarrow> balances_wf s \<Longrightarrow> moved c a 0 0 s t"
    and store_ok: "store b' s = (Inr (), t) \<Longrightarrow> balances_wf s \<Longrightarrow> find_balance c a s = Some b \<Longrightarrow>
      bal_id b' = bal_id b \<Longrightarrow> bal_locked_balance b' = bal_locked_balance b \<Longrightarrow>
      moved c a (bal_available_balance b' - bal_available_balance b) 0 s t"
    and store_error: "store b' s = (Inl e, t) \<Longrightarrow> balances_wf s \<Longrightarrow> moved c a 0 0 s t"
begin

lemma load_view:
  assumes "load c a s = (Inr b, t)" and "balances_wf s"
  shows "bal_available_balance b = available c a s" "bal_locked_balance b = locked c a s"
    "bal_account_id b = c" "bal_asset b = a"
  using load_ok [OF assms] moved_views(1,2) [of c a 0 0 s t c a]
  by (auto simp: available_def locked_def dest: find_balance_SomeD)

lemma read_then_write:
  assumes "load c a s = (Inr b, s1)" and "balances_wf s"
    and "store (b\<lparr>bal_available_balance := v, bal_updated_at := u\<rparr>) s1 = (Inr (), t)"
  shows "moved c a (v - available c a s) 0 s t"
  using moved_trans [OF conjunct1 [OF load_ok [OF assms(1,2)]]
      store_ok [OF assms(3) _ conjunct2 [OF load_ok [OF assms(1,2)]]]]
    moved_views(4) [OF conjunct1 [OF load_ok [OF assms(1,2)]]] load_view [OF assms(1,2)] by simp

lemma read_then_failed_write:
  assumes "load c a s = (Inr b, s1)" and "balances_wf s" and "store b' s1 = (Inl e, t)"
  shows "moved c a 0 0 s t"
  using moved_trans [OF conjunct1 [OF load_ok [OF assms(1,2)]] store_error [OF assms(3)]]
    moved_views(4) [OF conjunct1 [OF load_ok [OF assms(1,2)]]] by simp

end

locale full_balance_store = balance_store +
  assumes store_all: "store b' s = (Inr (), t) \<Longrightarrow> balances_wf s \<Longrightarrow> find_balance c a s = Some b \<Longrightarrow>
      bal_id b' = bal_id b \<Longrightarrow>
      moved c a (bal_available_balance b' - bal_available_balance b)
                (bal_locked_balance b' - bal_locked_balance b) s t"
begin

lemma read_then_write_all:
  assumes "load c a s = (Inr b, s1)" and "balances_wf s"
    and "store (b\<lparr>bal_available_balance := v, bal_locked_balance := w, bal_updated_at := u\<rparr>) s1 = (Inr (), t)"
  shows "moved c a (v - available c a s) (w - locked c a s) s t"
  using moved_trans [OF conjunct1 [OF load_ok [OF assms(1,2)]]
      store_all [OF assms(3) _ conjunct2 [OF load_ok [OF assms(1,2)]]]]
    moved_views(4) [OF conjunct1 [OF load_ok [OF assms(1,2)]]] load_view [OF assms(1,2)] by simp

end

lemma moved_new_uuid: "new_uuid s = (r, t) \<Longrightarrow> balances_wf s \<Longrightarrow> moved c a 0 0 s t"
  by (intro moved_zero) (auto simp: new_uuid_def same_tables_def balances_wf_def less_SucI)

lemma find_or_create_ok:
  assumes "find_or_create now c a s = (Inr b, t)" and wf: "balances_wf s"
  shows "moved c a 0 0 s t \<and> find_balance c a t = Some b"
proof (cases "find_balance c a s")
  case (Some r)
  then have "t = tick s" "b = r" using assms(1) by (auto simp: find_or_create_def action_simps)
  then show ?thesis using wf Some by (simp add: moved_zero)
next
  case None
  define s1 where "s1 = (tick s)\<lparr>db_next_uuid := Suc (db_next_uuid s)\<rparr>"
  have b: "b = \<lparr>bal_id = db_next_uuid s, bal_account_id = c, bal_asset = a, bal_available_balance = 0,
                bal_locked_balance = 0, bal_updated_at = now\<rparr>"
    and "\<exists>u. insert_balance_row b s1 = Inr ((), u) \<and> t = tick u"
    using assms(1) None by (auto simp: find_or_create_def action_simps Let_def s1_def)
  then obtain u where u: "insert_balance_row b s1 = Inr ((), u)" "t = tick u" by blast
  have s1: "moved c a 0 0 s s1" using wf unfolding s1_def
    by (intro moved_zero) (auto simp: same_tables_def balances_wf_def less_SucI)
  have "moved c a 0 0 s1 u"
    using insert_row_moved [OF u(1) moved_views(4) [OF s1], of c a] b by (simp add: s1_def)
  then have m: "moved c a 0 0 s t" using moved_trans [OF s1] u(2) by simp
  have "b \<in> set (db_balances t)"
    using u by (auto simp: insert_balance_row_def split: if_splits)
  then show ?thesis using find_balance_mem [OF moved_views(4) [OF m]] m b by fastforce
qed

lemma find_or_create_error:
  assumes "find_or_create now c a s = (Inl e, t)" and wf: "balances_wf s"
  shows "moved k x 0 0 s t"
  using assms unfolding find_or_create_def
  by (intro moved_zero)
    (auto simp: action_simps sql_exec_def tick_def same_tables_def balances_wf_def less_SucI Let_def
      split: option.splits if_splits sum.splits)

lemma balance_update_ok:
  assumes "balance_update b' s = (Inr (), t)" and wf: "balances_wf s" and b: "find_balance c a s = Some b"
    and id: "bal_id b' = bal_id b"
  shows "moved c a (bal_available_balance b' - bal_available_balance b)
                   (bal_locked_balance b' - bal_locked_balance b) s t"
proof -
  have t: "t = tick (update_balances (\<lambda>r. bal_id r = bal_id b')
       (\<lambda>r. r\<lparr>bal_available_balance := bal_available_balance b',
              bal_locked_balance := bal_locked_balance b', bal_updated_at := bal_updated_at b'\<rparr>) s)"
    using assms(1) by (auto simp: balance_update_def action_simps)
  show ?thesis unfolding t moved_tick
    using id_selects [OF wf b] id find_balance_SomeD [OF b] by (intro update_row_moved [OF wf b]) auto
qed

lemma balance_update_error: "balance_update b s = (Inl e, t) \<Longrightarrow> balances_wf s \<Longrightarrow> moved c a 0 0 s t"
  by (intro moved_zero)
    (auto simp: balance_update_def sql_update_def sql_exec_def tick_def same_tables_def balances_wf_def split: if_splits)

interpretation repo: full_balance_store "find_or_create now" balance_update for now
proof unfold_locales
  show "moved c a 0 0 s t \<and> find_balance c a t = Some b"
    if "find_or_create now c a s = (Inr b, t)" "balances_wf s" for c a s b t
    using that by (rule find_or_create_ok)
  show "moved c a 0 0 s t" if "find_or_create now c a s = (Inl e, t)" "balances_wf s" for c a s e t
    using that by (rule find_or_create_error)
  show "moved c a (bal_available_balance b' - bal_available_balance b) 0 s t"
    if "balance_update b' s = (Inr (), t)" "balances_wf s" "find_balance c a s = Some b"
      "bal_id b' = bal_id b" "bal_locked_balance b' = bal_locked_balance b" for b' s t c a b
    using balance_update_ok [OF that(1-4)] that(5) by simp
  show "moved c a 0 0 s t" if "balance_update b' s = (Inl e, t)" "balances_wf s" for b' s e t c a
    using that by (rule balance_update_error)
  show "moved c a (bal_available_balance b' - bal_available_balance b)
                (bal_locked_balance b' - bal_locked_balance b) s t"
    if "balance_update b' s = (Inr (), t)" "balances_wf s" "find_balance c a s = Some b"
      "bal_id b' = bal_id b" for b' s t c a b
    using that by (rule balance_update_ok)
qed

section \<open>Effects of the operations\<close>

lemma post_after_uuid:
  assumes "new_uuid s = (Inr n, s1)" and "create_entry now c a amt et rt n s1 = (Inr e, t)"
  shows "posted [e] s t"
  using posted_trans [OF new_uuid_posted [OF assms(1)] conjunct1 [OF create_entry_ok [OF assms(2)]]] by simp

lemma deposit_ok:
  assumes "deposit now c a amt s = (Inr b, t)" and "balances_wf s"
  shows "0 < amt \<and> (\<exists>u e. moved c a (wrap64 (available c a s + amt) - available c a s) 0 s u \<and> posted [e] u t \<and>
     le_account_id e = c \<and> le_asset e = a \<and> le_amount e = amt \<and> le_entry_type e = DEBIT \<and> le_reference_type e = DEPOSIT)"
proof -
  obtain r s1 s2 n s3 e where *: "0 < amt" "find_or_create now c a s = (Inr r, s1)"
    "balance_update (r\<lparr>bal_available_balance := wrap64 (bal_available_balance r + amt), bal_updated_at := now\<rparr>) s1 = (Inr (), s2)"
    "new_uuid s2 = (Inr n, s3)" "create_entry now c a amt DEBIT DEPOSIT n s3 = (Inr e, t)"
    using assms(1) by (auto simp: deposit_def Let_def action_simps split: if_splits)
  show ?thesis
    using *(1) repo.read_then_write [OF *(2) assms(2) *(3)] repo.load_view(1) [OF *(2) assms(2)]
      post_after_uuid [OF *(4,5)] create_entry_ok [OF *(5)] by auto
qed

lemma withdraw_ok:
  assumes "withdraw now c a amt s = (Inr b, t)" and "balances_wf s"
  shows "0 < amt \<and> amt \<le> available c a s \<and>
     (\<exists>u e. moved c a (wrap64 (available c a s - amt) - available c a s) 0 s u \<and> posted [e] u t \<and>
     le_account_id e = c \<and> le_asset e = a \<and> le_amount e = amt \<and> le_entry_type e = CREDIT \<and> le_reference_type e = WITHDRAWAL)"
proof -
  obtain r s1 s2 n s3 e where *: "0 < amt" "find_or_create now c a s = (Inr r, s1)" "amt \<le> bal_available_balance r"
    "balance_update (r\<lparr>bal_available_balance := wrap64 (bal_available_balance r - amt), bal_updated_at := now\<rparr>) s1 = (Inr (), s2)"
    "new_uuid s2 = (Inr n, s3)" "create_entry now c a amt CREDIT WITHDRAWAL n s3 = (Inr e, t)"
    using assms(1) by (auto simp: withdraw_def Let_def action_simps split: if_splits)
  show ?thesis
    using *(1,3) repo.read_then_write [OF *(2) assms(2) *(4)] repo.load_view(1) [OF *(2) assms(2)]
      post_after_uuid [OF *(5,6)] create_entry_ok [OF *(6)] by auto
qed

lemma lock_balance_ok:
  assumes "lock_balance now c a amt s = (Inr b, t)" and "balances_wf s"
  shows "0 < amt \<and> amt \<le> available c a s \<and>
     moved c a (wrap64 (available c a s - amt) - available c a s) (wrap64 (locked c a s + amt) - locked c a s) s t"
proof -
  obtain r s1 where *: "0 < amt" "find_or_create now c a s = (Inr r, s1)" "amt \<le> bal_available_balance r"
    "balance_update (r\<lparr>bal_available_balance := wrap64 (bal_available_balance r - amt),
        bal_locked_balance := wrap64 (bal_locked_balance r + amt), bal_updated_at := now\<rparr>) s1 = (Inr (), t)"
    using assms(1) by (auto simp: lock_balance_def Let_def action_simps split: if_splits)
  show ?thesis
    using *(1,3) repo.read_then_write_all [OF *(2) assms(2) *(4)] repo.load_view(1,2) [OF *(2) assms(2)] by simp
qed

lemma unlock_balance_ok:
  assumes "unlock_balance now c a amt s = (Inr b, t)" and "balances_wf s"
  shows "0 < amt \<and> amt \<le> locked c a s \<and>
     moved c a (wrap64 (available c a s + amt) - available c a s) (wrap64 (locked c a s - amt) - locked c a s) s t"
proof -
  obtain r s1 where *: "0 < amt" "find_or_create now c a s = (Inr r, s1)" "amt \<le> bal_locked_balance r"
    "balance_update (r\<lparr>bal_available_balance := wrap64 (bal_available_balance r + amt),
        bal_locked_balance := wrap64 (bal_locked_balance r - amt), bal_updated_at := now\<rparr>) s1 = (Inr (), t)"
    using assms(1) by (auto simp: unlock_balance_def Let_def action_simps split: if_splits)
  show ?thesis
    using *(1,3) repo.read_then_write_all [OF *(2) assms(2) *(4)] repo.load_view(1,2) [OF *(2) assms(2)] by simp
qed

lemma double_entry_ok:
  assumes "create_double_entry now k c a amt rt n s = (Inr p, t)"
  shows "\<exists>d e. posted [d, e] s t \<and>
     le_account_id d = k \<and> le_asset d = a \<and> le_amount d = amt \<and> le_entry_type d = DEBIT \<and> le_reference_type d = rt \<and>
     le_account_id e = c \<and> le_asset e = a \<and> le_amount e = amt \<and> le_entry_type e = CREDIT \<and> le_reference_type e = rt"
proof -
  obtain d e s1 where *: "create_entry now k a amt DEBIT rt n s = (Inr d, s1)" "create_entry now c a amt CREDIT rt n s1 = (Inr e, t)"
    using assms by (auto simp: create_double_entry_def action_simps)
  show ?thesis using create_entry_ok [OF *(1)] create_entry_ok [OF *(2)]
      posted_trans [of "[d]" s s1 "[e]" t] by force
qed

lemma moved_zero_views:
  assumes "moved c a 0 0 s t"
  shows "available k x t = available k x s" "locked k x t = locked k x s" "total_supply x t = total_supply x s"
  using moved_views(1,2) [OF assms, of k x] moved_views(3) [OF assms, of x] by auto

lemma moved_zero_rows: "moved c a 0 0 s t \<Longrightarrow> moved k x 0 0 s t"
  by (auto simp: moved_def)

text \<open>Loading a row finds the same row again after other rows were created.\<close>

lemma find_or_create_stable:
  assumes "find_or_create now c a s = (Inr b, t)" and "balances_wf s" and "find_balance k x s = Some r"
  shows "find_balance k x t = Some r"
proof -
  have "db_balances s = db_balances t \<or> (\<exists>b. db_balances t = db_balances s @ [b])"
    using assms(1) by (auto simp: find_or_create_def action_simps insert_balance_row_def Let_def
        split: option.splits if_splits)
  moreover have "List.find P xs = Some r \<Longrightarrow> List.find P (xs @ ys) = Some r" for P xs ys
    by (induction xs) (auto split: if_splits)
  ultimately show ?thesis using assms(3) by (auto simp: find_balance_def)
qed

lemma balance_update_keeps_other:
  assumes "balance_update b s = (Inr (), t)" and "find_balance k x s = Some r" and "bal_id r \<noteq> bal_id b"
  shows "find_balance k x t = Some r"
proof -
  have "List.find (\<lambda>y. bal_account_id y = k \<and> bal_asset y = x) xs = Some r \<Longrightarrow>
    List.find (\<lambda>y. bal_account_id y = k \<and> bal_asset y = x)
      (map (\<lambda>y. if bal_id y = bal_id b then g y else y) xs) = Some r"
    if "\<And>y. bal_account_id (g y) = bal_account_id y \<and> bal_asset (g y) = bal_asset y" for g xs
    using that assms(3) by (induction xs) (auto split: if_splits)
  then show ?thesis using assms(1,2) by (auto simp: balance_update_def action_simps update_balances_def find_balance_def)
qed

text \<open>
  A transfer loads both rows before it writes either. \<open>rows_transferred\<close> is what both writes do to the
  rows: for an account that transfers to itself the second write overwrites the first.
\<close>

definition rows_transferred :: "uuid \<Rightarrow> uuid \<Rightarrow> asset \<Rightarrow> int \<Rightarrow> pgdb \<Rightarrow> pgdb \<Rightarrow> bool" where
  "rows_transferred f c a amt s t \<longleftrightarrow>
     (if f = c then moved c a (wrap64 (available c a s + amt) - available c a s) 0 s t
      else \<exists>u. moved f a (wrap64 (available f a s - amt) - available f a s) 0 s u \<and>
             moved c a (wrap64 (available c a s + amt) - available c a s) 0 u t)"

lemma find_map_rows: "(\<And>y. P (g y) = P y) \<Longrightarrow> List.find P (map g xs) = map_option g (List.find P xs)"
  for g :: "balance \<Rightarrow> balance"
  by (induction xs) auto

lemma balance_update_same_row:
  assumes "balance_update b' s = (Inr (), t)" and "find_balance c a s = Some b" and "bal_id b' = bal_id b"
    and "bal_locked_balance b' = bal_locked_balance b"
  obtains r where "find_balance c a t = Some r" "bal_id r = bal_id b" "bal_available_balance r = bal_available_balance b'"
    "bal_locked_balance r = bal_locked_balance b"
proof -
  have "find_balance c a t = Some (b\<lparr>bal_available_balance := bal_available_balance b',
      bal_locked_balance := bal_locked_balance b', bal_updated_at := bal_updated_at b'\<rparr>)"
    using assms by (auto simp: balance_update_def action_simps update_balances_def find_balance_def find_map_rows)
  then show thesis using that assms(4) by simp
qed

lemma transfer_writes:
  assumes "find_or_create now f a s = (Inr rf, s1)" and "find_or_create now c a s1 = (Inr rt, s2)" and wf: "balances_wf s"
    and "balance_update (rf\<lparr>bal_available_balance := wrap64 (bal_available_balance rf - amt), bal_updated_at := now\<rparr>) s2 = (Inr (), s3)"
  shows "moved f a (wrap64 (available f a s - amt) - available f a s) 0 s s3"
    "balance_update (rt\<lparr>bal_available_balance := wrap64 (bal_available_balance rt + amt), bal_updated_at := now\<rparr>) s3 = (Inr (), s4) \<Longrightarrow>
     rows_transferred f c a amt s s4"
    "balance_update b s3 = (Inl e, s4) \<Longrightarrow> moved f a (wrap64 (available f a s - amt) - available f a s) 0 s s4"
proof -
  have m1: "moved f a 0 0 s s1" "find_balance f a s1 = Some rf" using repo.load_ok [OF assms(1) wf] by auto
  note wf1 = moved_views(4) [OF m1(1)]
  have m2: "moved c a 0 0 s1 s2" "find_balance c a s2 = Some rt" using repo.load_ok [OF assms(2) wf1] by auto
  note wf2 = moved_views(4) [OF m2(1)]
  have f2: "find_balance f a s2 = Some rf" by (rule find_or_create_stable [OF assms(2) wf1 m1(2)])
  have vf: "bal_available_balance rf = available f a s" by (rule repo.load_view(1) [OF assms(1) wf])
  have vt: "bal_available_balance rt = available c a s"
    using repo.load_view(1) [OF assms(2) wf1] moved_zero_views(1) [OF m1(1)] by simp
  have m3: "moved f a (wrap64 (bal_available_balance rf - amt) - bal_available_balance rf) 0 s2 s3"
    using repo.store_ok [OF assms(4) wf2 f2] by simp
  note wf3 = moved_views(4) [OF m3]
  have s3: "moved f a (wrap64 (available f a s - amt) - available f a s) 0 s s3"
    using moved_trans [OF moved_trans [OF m1(1) moved_zero_rows [OF m2(1)]] m3] vf by simp
  then show "moved f a (wrap64 (available f a s - amt) - available f a s) 0 s s3" .
  show "moved f a (wrap64 (available f a s - amt) - available f a s) 0 s s4" if "balance_update b s3 = (Inl e, s4)"
    using moved_trans [OF s3 repo.store_error [OF that wf3]] by simp
  assume w: "balance_update (rt\<lparr>bal_available_balance := wrap64 (bal_available_balance rt + amt), bal_updated_at := now\<rparr>) s3 = (Inr (), s4)"
  show "rows_transferred f c a amt s s4"
  proof (cases "f = c")
    case True
    then have same: "rt = rf" using f2 m2(2) by simp
    obtain r where r: "find_balance c a s3 = Some r" "bal_id r = bal_id rf" "bal_available_balance r = wrap64 (bal_available_balance rf - amt)"
      "bal_locked_balance r = bal_locked_balance rf"
      using True by (auto intro: balance_update_same_row [OF assms(4) f2])
    have "moved c a (wrap64 (bal_available_balance rf + amt) - wrap64 (bal_available_balance rf - amt)) 0 s3 s4"
      using repo.store_ok [OF w wf3 r(1)] same r by simp
    then show ?thesis using moved_trans [OF s3 [unfolded True]] vf True by (fastforce simp: rows_transferred_def)
  next
    case False
    have "bal_id rt \<noteq> bal_id rf"
      using id_selects [OF wf2 f2] find_balance_SomeD [OF f2] find_balance_SomeD [OF m2(2)] False by auto
    then have "find_balance c a s3 = Some rt" using balance_update_keeps_other [OF assms(4) m2(2)] by simp
    then have "moved c a (wrap64 (bal_available_balance rt + amt) - bal_available_balance rt) 0 s3 s4"
      using repo.store_ok [OF w wf3] by simp
    then show ?thesis using s3 vt False by (auto simp: rows_transferred_def)
  qed
qed

lemma transfer_ok:
  assumes "transfer now f c a amt s = (Inr p, t)" and wf: "balances_wf s"
  shows "0 < amt \<and> amt \<le> available f a s \<and>
    (\<exists>v d e. rows_transferred f c a amt s v \<and> posted [d, e] v t \<and>
       le_account_id d = f \<and> le_asset d = a \<and> le_amount d = amt \<and> le_entry_type d = DEBIT \<and> le_reference_type d = TRADE \<and>
       le_account_id e = c \<and> le_asset e = a \<and> le_amount e = amt \<and> le_entry_type e = CREDIT \<and> le_reference_type e = TRADE)"
proof -
  obtain rf s1 rt s2 s3 s4 n s5 q where *: "0 < amt" "amt \<le> bal_available_balance rf"
    "find_or_create now f a s = (Inr rf, s1)" "find_or_create now c a s1 = (Inr rt, s2)"
    "balance_update (rf\<lparr>bal_available_balance := wrap64 (bal_available_balance rf - amt), bal_updated_at := now\<rparr>) s2 = (Inr (), s3)"
    "balance_update (rt\<lparr>bal_available_balance := wrap64 (bal_available_balance rt + amt), bal_updated_at := now\<rparr>) s3 = (Inr (), s4)"
    "new_uuid s4 = (Inr n, s5)" "create_double_entry now f c a amt TRADE n s5 = (Inr q, t)"
    using assms(1) by (auto simp: transfer_def Let_def action_simps not_less not_le split: if_splits)
  obtain d e where "posted [d, e] s5 t" and de:
     "le_account_id d = f" "le_asset d = a" "le_amount d = amt" "le_entry_type d = DEBIT" "le_reference_type d = TRADE"
     "le_account_id e = c" "le_asset e = a" "le_amount e = amt" "le_entry_type e = CREDIT" "le_reference_type e = TRADE"
    using double_entry_ok [OF *(8)] by blast
  moreover from this have "posted [d, e] s4 t" using posted_trans [OF new_uuid_posted [OF *(7)]] by fastforce
  ultimately show ?thesis
    using *(1,2) repo.load_view(1) [OF *(3) wf] transfer_writes(2) [OF *(3,4) wf *(5,6)] by metis
qed

text \<open>What is left behind by a call that fails.\<close>

lemma deposit_failed:
  assumes "deposit now c a amt s = (Inl e, t)" and wf: "balances_wf s"
  shows "case e of BalanceLedger _ \<Rightarrow> 0 < amt \<and>
           (\<exists>u. moved c a (wrap64 (available c a s + amt) - available c a s) 0 s u \<and> posted [] u t)
         | _ \<Rightarrow> moved c a 0 0 s t"
proof (cases e)
  case (BalanceLedger e')
  then obtain r s1 s2 n s3 where *: "0 < amt" "find_or_create now c a s = (Inr r, s1)"
    "balance_update (r\<lparr>bal_available_balance := wrap64 (bal_available_balance r + amt), bal_updated_at := now\<rparr>) s1 = (Inr (), s2)"
    "new_uuid s2 = (Inr n, s3)" "create_entry now c a amt DEBIT DEPOSIT n s3 = (Inl e', t)"
    using assms(1) by (auto simp: deposit_def Let_def action_simps split: if_splits)
  show ?thesis using *(1) BalanceLedger repo.read_then_write [OF *(2) wf *(3)] repo.load_view(1) [OF *(2) wf]
      posted_trans [OF new_uuid_posted [OF *(4)] create_entry_error [OF *(5)]] by auto
qed (use assms in \<open>auto simp: deposit_def Let_def action_simps moved_zero split: if_splits
      dest: repo.load_error repo.read_then_failed_write\<close>)

lemma withdraw_failed:
  assumes "withdraw now c a amt s = (Inl e, t)" and wf: "balances_wf s"
  shows "case e of BalanceLedger _ \<Rightarrow> 0 < amt \<and> amt \<le> available c a s \<and>
           (\<exists>u. moved c a (wrap64 (available c a s - amt) - available c a s) 0 s u \<and> posted [] u t)
         | _ \<Rightarrow> moved c a 0 0 s t"
proof (cases e)
  case (BalanceLedger e')
  then obtain r s1 s2 n s3 where *: "0 < amt" "find_or_create now c a s = (Inr r, s1)" "amt \<le> bal_available_balance r"
    "balance_update (r\<lparr>bal_available_balance := wrap64 (bal_available_balance r - amt), bal_updated_at := now\<rparr>) s1 = (Inr (), s2)"
    "new_uuid s2 = (Inr n, s3)" "create_entry now c a amt CREDIT WITHDRAWAL n s3 = (Inl e', t)"
    using assms(1) by (auto simp: withdraw_def Let_def action_simps split: if_splits)
  show ?thesis using *(1,3) BalanceLedger repo.read_then_write [OF *(2) wf *(4)] repo.load_view(1) [OF *(2) wf]
      posted_trans [OF new_uuid_posted [OF *(5)] create_entry_error [OF *(6)]] by auto
qed (use assms in \<open>auto simp: withdraw_def Let_def action_simps moved_zero split: if_splits
      dest: repo.load_ok repo.load_error repo.read_then_failed_write\<close>)

lemma lock_failed: "lock_balance now c a amt s = (Inl e, t) \<Longrightarrow> balances_wf s \<Longrightarrow> moved c a 0 0 s t"
  "unlock_balance now c a amt s = (Inl e, t) \<Longrightarrow> balances_wf s \<Longrightarrow> moved c a 0 0 s t"
  by (auto simp: lock_balance_def unlock_balance_def Let_def action_simps moved_zero split: if_splits
      dest: repo.load_ok repo.load_error repo.read_then_failed_write)

lemma double_entry_failed:
  assumes "create_double_entry now k c a amt rt n s = (Inl err, t)"
  shows "\<exists>es. posted es s t \<and> list_all (\<lambda>e. le_reference_type e = rt) es"
proof -
  consider "create_entry now k a amt DEBIT rt n s = (Inl err, t)"
    | d s1 where "create_entry now k a amt DEBIT rt n s = (Inr d, s1)" "create_entry now c a amt CREDIT rt n s1 = (Inl err, t)"
    using assms by (auto simp: create_double_entry_def action_simps)
  then show ?thesis
  proof cases
    case 1
    then show ?thesis using create_entry_error by fastforce
  next
    case 2
    then have "posted [d] s t" "le_reference_type d = rt"
      using create_entry_ok [OF 2(1)] posted_trans [of "[d]" s s1 "[]"] create_entry_error [OF 2(2)] by auto
    then show ?thesis by (intro exI [of _ "[d]"]) simp
  qed
qed

text \<open>The part of a transfer after both rows are loaded.\<close>

definition transfer_tail ::
  "timestamp \<Rightarrow> uuid \<Rightarrow> uuid \<Rightarrow> asset \<Rightarrow> i64 \<Rightarrow> balance \<Rightarrow> balance \<Rightarrow> (pgdb, balance_error, balance \<times> balance) action" where
  "transfer_tail now f c a amt from to =
     (let from = from\<lparr>bal_available_balance := wrap64 (bal_available_balance from - amt), bal_updated_at := now\<rparr>;
          to = to\<lparr>bal_available_balance := wrap64 (bal_available_balance to + amt), bal_updated_at := now\<rparr> in
      seqA (map_errA BalanceDb (balance_update from))
      (seqA (map_errA BalanceDb (balance_update to))
      (bindA new_uuid (\<lambda>reference_id.
       bindA (map_errA BalanceLedger (create_double_entry now f c a amt TRADE reference_id)) (\<lambda>_.
       returnA (from, to))))))"

lemma loads_move_nothing:
  assumes "find_or_create now f a s = (Inr rf, s1)" and "find_or_create now c a s1 = (r, s2)" and wf: "balances_wf s"
  shows "moved f a 0 0 s s2"
proof -
  have m: "moved f a 0 0 s s1" using repo.load_ok [OF assms(1) wf] by simp
  note wf1 = moved_views(4) [OF m]
  have "moved c a 0 0 s1 s2" using assms(2) repo.load_ok [OF _ wf1] repo.load_error [OF _ wf1] by (cases r) auto
  then show ?thesis using moved_trans [OF m moved_zero_rows] by simp
qed

lemma transfer_tail_failed:
  assumes "transfer_tail now f c a amt rf rt s2 = (Inl e, t)"
    and loads: "find_or_create now f a s = (Inr rf, s1)" "find_or_create now c a s1 = (Inr rt, s2)" and wf: "balances_wf s"
  shows "case e of
      BalanceLedger _ \<Rightarrow> (\<exists>u es. rows_transferred f c a amt s u \<and> posted es u t \<and> list_all (\<lambda>e. le_reference_type e = TRADE) es)
    | BalanceDb _ \<Rightarrow> moved f a 0 0 s t \<or> moved f a (wrap64 (available f a s - amt) - available f a s) 0 s t
    | _ \<Rightarrow> False"
proof -
  note m2 = loads_move_nothing [OF loads wf]
  let ?f = "rf\<lparr>bal_available_balance := wrap64 (bal_available_balance rf - amt), bal_updated_at := now\<rparr>"
  let ?t = "rt\<lparr>bal_available_balance := wrap64 (bal_available_balance rt + amt), bal_updated_at := now\<rparr>"
  consider (first) e' where "balance_update ?f s2 = (Inl e', t)" "e = BalanceDb e'"
    | (second) s3 e' where "balance_update ?f s2 = (Inr (), s3)" "balance_update ?t s3 = (Inl e', t)" "e = BalanceDb e'"
    | (ledger) s3 s4 n s5 e' where "balance_update ?f s2 = (Inr (), s3)" "balance_update ?t s3 = (Inr (), s4)"
        "new_uuid s4 = (Inr n :: ledger_error + nat, s5)" "create_double_entry now f c a amt TRADE n s5 = (Inl e', t)" "e = BalanceLedger e'"
    using assms(1) by (auto simp: transfer_tail_def Let_def action_simps)
  then show ?thesis
  proof cases
    case first
    then show ?thesis using moved_trans [OF m2 repo.store_error [OF first(1) moved_views(4) [OF m2]]] by simp
  next
    case second
    then show ?thesis using transfer_writes(3) [OF loads wf second(1,2)] by simp
  next
    case ledger
    obtain es where "posted es s5 t" "list_all (\<lambda>e. le_reference_type e = TRADE) es" using double_entry_failed [OF ledger(4)] by blast
    moreover from this have "posted es s4 t" using posted_trans [OF new_uuid_posted [OF ledger(3)]] by fastforce
    ultimately show ?thesis using transfer_writes(2) [OF loads wf ledger(1,2)] ledger(5) by auto
  qed
qed

lemma transfer_failed:
  assumes "transfer now f c a amt s = (Inl e, t)" and wf: "balances_wf s"
  shows "case e of
      BalanceLedger _ \<Rightarrow> 0 < amt \<and> amt \<le> available f a s \<and>
        (\<exists>u es. rows_transferred f c a amt s u \<and> posted es u t \<and> list_all (\<lambda>e. le_reference_type e = TRADE) es)
    | BalanceDb _ \<Rightarrow> moved f a 0 0 s t \<or> 0 < amt \<and> amt \<le> available f a s \<and>
        moved f a (wrap64 (available f a s - amt) - available f a s) 0 s t
    | _ \<Rightarrow> moved f a 0 0 s t"
proof -
  consider (early) "moved f a 0 0 s t" "\<forall>e'. e \<noteq> BalanceLedger e'"
    | (second) rf s1 rt s2 where "0 < amt" "amt \<le> bal_available_balance rf"
        "find_or_create now f a s = (Inr rf, s1)" "find_or_create now c a s1 = (Inr rt, s2)"
        "transfer_tail now f c a amt rf rt s2 = (Inl e, t)"
    using assms(1) wf
    by (auto simp: transfer_def transfer_tail_def Let_def action_simps not_less not_le moved_zero split: if_splits
        dest: repo.load_ok repo.load_error loads_move_nothing)
  then show ?thesis
  proof cases
    case early
    then show ?thesis by (auto split: balance_error.split)
  next
    case second
    show ?thesis using second(1,2) repo.load_view(1) [OF second(3) wf]
        transfer_tail_failed [OF second(5,3,4) wf] by (auto split: balance_error.splits)
  qed
qed

section \<open>Balances are backed by deposits\<close>

text \<open>Deposits less withdrawals of an asset, as the ledger records them.\<close>

definition flow_value :: "asset \<Rightarrow> ledger_entry \<Rightarrow> int" where
  "flow_value a e =
     (if le_asset e \<noteq> a then 0
      else case le_reference_type e of DEPOSIT \<Rightarrow> le_amount e | WITHDRAWAL \<Rightarrow> - le_amount e | _ \<Rightarrow> 0)"

definition deposited :: "asset \<Rightarrow> pgdb \<Rightarrow> int" where
  "deposited a s = sum_list (map (flow_value a) (db_ledger s))"

text \<open>The calls of the service, and what a sequence of them answers and leaves behind.\<close>

datatype bank_call =
    Deposit timestamp uuid asset i64 | Withdraw timestamp uuid asset i64
  | Lock timestamp uuid asset i64 | Unlock timestamp uuid asset i64
  | Transfer timestamp uuid uuid asset i64

type_synonym bank_answer = "balance_error + unit"

fun run_call :: "bank_call \<Rightarrow> pgdb \<Rightarrow> bank_answer \<times> pgdb" where
  "run_call (Deposit now c a amt) s = apfst (map_sum id (\<lambda>_. ())) (deposit now c a amt s)"
| "run_call (Withdraw now c a amt) s = apfst (map_sum id (\<lambda>_. ())) (withdraw now c a amt s)"
| "run_call (Lock now c a amt) s = apfst (map_sum id (\<lambda>_. ())) (lock_balance now c a amt s)"
| "run_call (Unlock now c a amt) s = apfst (map_sum id (\<lambda>_. ())) (unlock_balance now c a amt s)"
| "run_call (Transfer now f c a amt) s = apfst (map_sum id (\<lambda>_. ())) (transfer now f c a amt s)"

fun run_calls :: "bank_call list \<Rightarrow> pgdb \<Rightarrow> (bank_call \<times> bank_answer) list \<times> pgdb" where
  "run_calls [] s = ([], s)"
| "run_calls (k # ks) s = (let (r, t) = run_call k s; (rs, u) = run_calls ks t in ((k, r) # rs, u))"

text \<open>
  The rows and the ledger part in three cases. A deposit or a withdrawal whose ledger entry fails has changed the
  row already; a transfer from an account to itself adds the amount; a transfer that fails in the database may have
  taken the amount from the sender and not have given it to the receiver.
\<close>

fun unrecorded :: "asset \<Rightarrow> bank_call \<times> bank_answer \<Rightarrow> int" where
  "unrecorded x (Deposit _ _ a amt, Inl (BalanceLedger _)) = (if a = x then amt else 0)"
| "unrecorded x (Withdraw _ _ a amt, Inl (BalanceLedger _)) = (if a = x then - amt else 0)"
| "unrecorded x (Transfer _ f c a amt, Inl (BalanceLedger _)) = (if a = x \<and> f = c then amt else 0)"
| "unrecorded x (Transfer _ f c a amt, Inr _) = (if a = x \<and> f = c then amt else 0)"
| "unrecorded x _ = 0"

fun at_risk :: "asset \<Rightarrow> bank_call \<times> bank_answer \<Rightarrow> int" where
  "at_risk x (Transfer _ f c a amt, Inl (BalanceDb _)) = (if a = x \<and> 0 < amt then amt else 0)"
| "at_risk x _ = 0"

text \<open>No call of the sequence can take the total of its asset out of the \<open>i64\<close> range.\<close>

fun call_fits :: "bank_call \<Rightarrow> pgdb \<Rightarrow> bool" where
  "call_fits (Deposit _ _ a amt) s \<longleftrightarrow> total_supply a s + amt \<le> i64_max"
| "call_fits (Transfer _ f c a amt) s \<longleftrightarrow> (f = c \<longrightarrow> total_supply a s + amt \<le> i64_max)"
| "call_fits _ s \<longleftrightarrow> True"

fun calls_fit :: "bank_call list \<Rightarrow> pgdb \<Rightarrow> bool" where
  "calls_fit [] s \<longleftrightarrow> True"
| "calls_fit (k # ks) s \<longleftrightarrow> call_fits k s \<and> calls_fit ks (snd (run_call k s))"

definition bank_start :: "pgdb \<Rightarrow> bool" where
  "bank_start s \<longleftrightarrow> db_balances s = [] \<and> db_ledger s = []"

definition book_ok :: "pgdb \<Rightarrow> bool" where
  "book_ok s \<longleftrightarrow> balances_wf s \<and> all_nonneg s \<and> (\<forall>a. total_supply a s \<le> i64_max)"

text \<open>How far the rows of an asset are from what the ledger records.\<close>

definition gap :: "asset \<Rightarrow> pgdb \<Rightarrow> int" where
  "gap x s = total_supply x s - deposited x s"

lemma flow_moved: "moved c a d1 d2 s t \<Longrightarrow> deposited x t = deposited x s"
  by (simp add: moved_def same_tables_def deposited_def)

lemma flow_posted: "posted es s t \<Longrightarrow> deposited x t = deposited x s + sum_list (map (flow_value x) es)"
  by (simp add: posted_def deposited_def)

lemma trade_flow: "list_all (\<lambda>e. le_reference_type e = TRADE) es \<Longrightarrow> sum_list (map (flow_value x) es) = 0"
  by (induction es) (auto simp: flow_value_def)

lemma book_rows: "book_ok s \<Longrightarrow> balances_wf s" "book_ok s \<Longrightarrow> all_nonneg s"
  by (simp_all add: book_ok_def)

lemma book_bounds:
  assumes "book_ok s"
  shows "0 \<le> available c a s" "0 \<le> locked c a s" "available c a s + locked c a s \<le> i64_max"
    "in_i64 (available c a s)" "available c a s + locked c a s \<le> total_supply a s"
proof -
  show "0 \<le> available c a s" "0 \<le> locked c a s" using assms nonneg_views by (auto simp: book_ok_def)
  show "available c a s + locked c a s \<le> total_supply a s"
    using assms row_le_total [of s c a] by (simp add: book_ok_def)
  then show "available c a s + locked c a s \<le> i64_max"
    using assms by (metis book_ok_def order_trans)
  then show "in_i64 (available c a s)"
    using \<open>0 \<le> available c a s\<close> \<open>0 \<le> locked c a s\<close> by (simp add: i64_defs)
qed

text \<open>A change of one row, and entries after it: the book stays in order and the gap is known.\<close>

lemma book_moved:
  assumes "book_ok s" and m: "moved c a d1 d2 s u" and p: "posted es u t"
    and "0 \<le> available c a s + d1" and "0 \<le> locked c a s + d2" and "total_supply a s + d1 + d2 \<le> i64_max"
  shows "book_ok t" "gap x t = gap x s + (if x = a then d1 + d2 else 0) - sum_list (map (flow_value x) es)"
proof -
  have "all_nonneg u" using moved_nonneg [OF m book_rows(2) [OF assms(1)] assms(4,5)] .
  then show "book_ok t"
    using assms(1,6) moved_views(3,4) [OF m] posted_views(3,4,6) [OF p] by (auto simp: book_ok_def)
  show "gap x t = gap x s + (if x = a then d1 + d2 else 0) - sum_list (map (flow_value x) es)"
    using moved_views(3) [OF m] posted_views(3) [OF p] flow_moved [OF m] flow_posted [OF p] by (simp add: gap_def)
qed

lemma posted_none [simp]: "posted [] s s"
  by (simp add: posted_Nil same_tables_def)

lemma book_unmoved:
  assumes "book_ok s" and "moved c a 0 0 s t"
  shows "book_ok t" "gap x t = gap x s"
  using book_moved [OF assms posted_none] book_bounds [OF assms(1)] assms(1) by (auto simp: book_ok_def)

text \<open>Two accounts together hold no more than there is, so the receiver's column cannot overflow.\<close>

lemma two_rows_le_total:
  assumes "balances_wf s" and "all_nonneg s" and "f \<noteq> c"
  shows "available f a s + available c a s \<le> total_supply a s"
proof (cases "find_balance f a s")
  case None
  then show ?thesis using row_le_total [OF assms(2), of c a] nonneg_views [OF assms(2), of c a]
    by (simp add: available_def)
next
  case (Some r)
  let ?P = "\<lambda>b. bal_id b = bal_id r"
  let ?f = "\<lambda>b. b\<lparr>bal_available_balance := 0, bal_locked_balance := 0\<rparr>"
  have m: "moved f a (- available f a s) (- locked f a s) s (update_balances ?P ?f s)"
    using id_selects [OF assms(1) Some] find_balance_SomeD [OF Some] Some
    by (intro update_row_moved [OF assms(1) Some]) (auto simp: available_def locked_def)
  have "all_nonneg (update_balances ?P ?f s)" using moved_nonneg [OF m assms(2)] by simp
  from row_le_total [OF this, of c a] show ?thesis
    using moved_views(1,2) [OF m, of c a] moved_views(3) [OF m, of a] assms(3)
      nonneg_views [OF assms(2), of c a] nonneg_views [OF assms(2), of f a] by auto
qed

text \<open>Both writes of a transfer.\<close>

lemma book_transferred:
  assumes ok: "book_ok s" and rows: "rows_transferred f c a amt s u" and p: "posted es u t"
    and trade: "list_all (\<lambda>e. le_reference_type e = TRADE) es"
    and amt: "0 < amt" "amt \<le> available f a s" and fits: "f = c \<Longrightarrow> total_supply a s + amt \<le> i64_max"
  shows "book_ok t" "gap x t = gap x s + (if x = a \<and> f = c then amt else 0)"
proof -
  note bf = book_bounds [OF ok, of f a] and bc = book_bounds [OF ok, of c a]
  have "book_ok t \<and> gap x t = gap x s + (if x = a \<and> f = c then amt else 0)"
  proof (cases "f = c")
    case True
    then have "in_i64 (available c a s + amt)" using fits amt bc by (simp add: i64_defs)
    then have "moved c a amt 0 s u" using rows True by (simp add: rows_transferred_def)
    from book_moved [OF ok this p] show ?thesis using bc amt fits True trade_flow [OF trade] by simp
  next
    case False
    have "available f a s + available c a s \<le> i64_max"
      using two_rows_le_total [OF book_rows [OF ok] False, of a] ok by (metis book_ok_def order_trans)
    then have "in_i64 (available c a s + amt)" "in_i64 (available f a s - amt)" using amt bf bc by (simp_all add: i64_defs)
    then obtain v where m: "moved f a (- amt) 0 s v" and n: "moved c a amt 0 v u"
      using rows False by (auto simp: rows_transferred_def)
    note v = book_moved [OF ok m posted_none]
    have "total_supply a s \<le> i64_max" using ok by (simp add: book_ok_def)
    then have v': "book_ok v" "gap x v = gap x s - (if x = a then amt else 0)" for x using v bf amt by auto
    have "available c a v = available c a s" "locked c a v = locked c a s" "total_supply a v = total_supply a s - amt"
      using moved_views(1,2) [OF m, of c a] moved_views(3) [OF m, of a] False by auto
    with book_moved [OF v'(1) n p] show ?thesis
      using v'(2) bc amt trade_flow [OF trade] \<open>total_supply a s \<le> i64_max\<close> False by auto
  qed
  then show "book_ok t" "gap x t = gap x s + (if x = a \<and> f = c then amt else 0)" by blast+
qed

text \<open>Each call keeps the book, whatever it answers.\<close>

definition call_ok :: "bank_call \<Rightarrow> bank_answer \<Rightarrow> pgdb \<Rightarrow> pgdb \<Rightarrow> bool" where
  "call_ok k r s t \<longleftrightarrow> book_ok t \<and>
     (\<forall>x. gap x s + unrecorded x (k, r) - at_risk x (k, r) \<le> gap x t \<and> gap x t \<le> gap x s + unrecorded x (k, r))"

lemma deposit_call:
  assumes ok: "book_ok s" and "run_call (Deposit now c a amt) s = (r, t)" and fits: "total_supply a s + amt \<le> i64_max"
  shows "call_ok (Deposit now c a amt) r s t"
proof -
  note b = book_bounds [OF ok, of c a] and wf = book_rows(1) [OF ok]
  obtain q where q: "deposit now c a amt s = (q, t)" "r = map_sum id (\<lambda>_. ()) q" using assms(2) by (cases "deposit now c a amt s") auto
  have in64: "in_i64 (available c a s + amt)" if "0 < amt" using that fits b by (simp add: i64_defs)
  show ?thesis
  proof (cases q)
    case (Inr y)
    obtain u e where u: "0 < amt" "moved c a amt 0 s u" "posted [e] u t" "le_asset e = a" "le_amount e = amt" "le_reference_type e = DEPOSIT"
      using deposit_ok [OF q(1) [unfolded Inr] wf] in64 by auto
    from book_moved [OF ok u(2,3)] show ?thesis using u b fits q(2) Inr by (auto simp: call_ok_def flow_value_def)
  next
    case (Inl e)
    show ?thesis
    proof (cases "\<exists>e'. e = BalanceLedger e'")
      case True
      then obtain e' u where u: "e = BalanceLedger e'" "0 < amt" "moved c a amt 0 s u" "posted [] u t"
        using deposit_failed [OF q(1) [unfolded Inl] wf] in64 by auto
      from book_moved [OF ok u(3,4)] show ?thesis using u b fits q(2) Inl by (auto simp: call_ok_def)
    next
      case False
      then have "moved c a 0 0 s t" using deposit_failed [OF q(1) [unfolded Inl] wf] by (auto split: balance_error.splits)
      from book_unmoved [OF ok this] show ?thesis using False q(2) Inl by (cases e) (auto simp: call_ok_def)
    qed
  qed
qed

lemma withdraw_call:
  assumes ok: "book_ok s" and "run_call (Withdraw now c a amt) s = (r, t)"
  shows "call_ok (Withdraw now c a amt) r s t"
proof -
  note b = book_bounds [OF ok, of c a] and wf = book_rows(1) [OF ok]
  have max: "total_supply a s \<le> i64_max" using ok by (simp add: book_ok_def)
  obtain q where q: "withdraw now c a amt s = (q, t)" "r = map_sum id (\<lambda>_. ()) q" using assms(2) by (cases "withdraw now c a amt s") auto
  have in64: "in_i64 (available c a s - amt)" if "0 < amt" "amt \<le> available c a s" using that b by (simp add: i64_defs)
  show ?thesis
  proof (cases q)
    case (Inr y)
    obtain u e where u: "0 < amt" "amt \<le> available c a s" "moved c a (- amt) 0 s u" "posted [e] u t"
        "le_asset e = a" "le_amount e = amt" "le_reference_type e = WITHDRAWAL"
      using withdraw_ok [OF q(1) [unfolded Inr] wf] in64 by auto
    from book_moved [OF ok u(3,4)] show ?thesis using u b max q(2) Inr by (auto simp: call_ok_def flow_value_def)
  next
    case (Inl e)
    show ?thesis
    proof (cases "\<exists>e'. e = BalanceLedger e'")
      case True
      then obtain e' u where u: "e = BalanceLedger e'" "0 < amt" "amt \<le> available c a s" "moved c a (- amt) 0 s u" "posted [] u t"
        using withdraw_failed [OF q(1) [unfolded Inl] wf] in64 by auto
      from book_moved [OF ok u(4,5)] show ?thesis using u b max q(2) Inl by (auto simp: call_ok_def)
    next
      case False
      then have "moved c a 0 0 s t" using withdraw_failed [OF q(1) [unfolded Inl] wf] by (auto split: balance_error.splits)
      from book_unmoved [OF ok this] show ?thesis using False q(2) Inl by (cases e) (auto simp: call_ok_def)
    qed
  qed
qed

lemma lock_call:
  assumes ok: "book_ok s" and "run_call (Lock now c a amt) s = (r, t)"
  shows "call_ok (Lock now c a amt) r s t"
proof -
  note b = book_bounds [OF ok, of c a] and wf = book_rows(1) [OF ok]
  have max: "total_supply a s \<le> i64_max" using ok by (simp add: book_ok_def)
  obtain q where q: "lock_balance now c a amt s = (q, t)" using assms(2) by (cases "lock_balance now c a amt s") auto
  have "book_ok t \<and> (\<forall>x. gap x t = gap x s)"
  proof (cases q)
    case (Inr y)
    note l = lock_balance_ok [OF q [unfolded Inr] wf]
    have "in_i64 (available c a s - amt)" "in_i64 (locked c a s + amt)" using l b by (simp_all add: i64_defs)
    then have "moved c a (- amt) amt s t" using l by simp
    from book_moved [OF ok this posted_none] show ?thesis using l b max by simp
  qed (use book_unmoved [OF ok] lock_failed(1) [OF _ wf] q in blast)
  then show ?thesis by (simp add: call_ok_def)
qed

lemma unlock_call:
  assumes ok: "book_ok s" and "run_call (Unlock now c a amt) s = (r, t)"
  shows "call_ok (Unlock now c a amt) r s t"
proof -
  note b = book_bounds [OF ok, of c a] and wf = book_rows(1) [OF ok]
  have max: "total_supply a s \<le> i64_max" using ok by (simp add: book_ok_def)
  obtain q where q: "unlock_balance now c a amt s = (q, t)" using assms(2) by (cases "unlock_balance now c a amt s") auto
  have "book_ok t \<and> (\<forall>x. gap x t = gap x s)"
  proof (cases q)
    case (Inr y)
    note l = unlock_balance_ok [OF q [unfolded Inr] wf]
    have "in_i64 (available c a s + amt)" "in_i64 (locked c a s - amt)" using l b by (simp_all add: i64_defs)
    then have "moved c a amt (- amt) s t" using l by simp
    from book_moved [OF ok this posted_none] show ?thesis using l b max by simp
  qed (use book_unmoved [OF ok] lock_failed(2) [OF _ wf] q in blast)
  then show ?thesis by (simp add: call_ok_def)
qed

lemma transfer_call:
  assumes ok: "book_ok s" and "run_call (Transfer now f c a amt) s = (r, t)" and fits: "f = c \<Longrightarrow> total_supply a s + amt \<le> i64_max"
  shows "call_ok (Transfer now f c a amt) r s t"
proof -
  note b = book_bounds [OF ok, of f a] and wf = book_rows(1) [OF ok]
  have max: "total_supply a s \<le> i64_max" using ok by (simp add: book_ok_def)
  obtain q where q: "transfer now f c a amt s = (q, t)" "r = map_sum id (\<lambda>_. ()) q" using assms(2) by (cases "transfer now f c a amt s") auto
  show ?thesis
  proof (cases q)
    case (Inr y)
    obtain u d e where u: "0 < amt" "amt \<le> available f a s" "rows_transferred f c a amt s u" "posted [d, e] u t"
        "list_all (\<lambda>e. le_reference_type e = TRADE) [d, e]"
      using transfer_ok [OF q(1) [unfolded Inr] wf] by auto
    from book_transferred [OF ok u(3,4,5,1,2) fits] show ?thesis using q(2) Inr by (auto simp: call_ok_def)
  next
    case (Inl e)
    note failed = transfer_failed [OF q(1) [unfolded Inl] wf]
    show ?thesis
    proof (cases e)
      case (BalanceLedger e')
      then obtain u es where u: "0 < amt" "amt \<le> available f a s" "rows_transferred f c a amt s u" "posted es u t"
          "list_all (\<lambda>e. le_reference_type e = TRADE) es"
        using failed by auto
      from book_transferred [OF ok u(3,4,5,1,2) fits] show ?thesis using q(2) Inl BalanceLedger by (auto simp: call_ok_def)
    next
      case (BalanceDb e')
      have "call_ok (Transfer now f c a amt) (Inl (BalanceDb e')) s t"
        if m: "0 < amt" "amt \<le> available f a s" "moved f a (wrap64 (available f a s - amt) - available f a s) 0 s t"
      proof -
        have "in_i64 (available f a s - amt)" using m(1,2) b by (simp add: i64_defs)
        then have "moved f a (- amt) 0 s t" using m(3) by simp
        from book_moved [OF ok this posted_none] show ?thesis using m b max by (auto simp: call_ok_def)
      qed
      moreover have "call_ok (Transfer now f c a amt) (Inl (BalanceDb e')) s t" if "moved f a 0 0 s t"
        using book_unmoved [OF ok that] by (simp add: call_ok_def)
      ultimately show ?thesis using failed q(2) Inl BalanceDb by auto
    qed (use book_unmoved [OF ok] failed q(2) Inl in \<open>auto simp: call_ok_def\<close>)
  qed
qed

lemma run_call_ok: "book_ok s \<Longrightarrow> run_call k s = (r, t) \<Longrightarrow> call_fits k s \<Longrightarrow> call_ok k r s t"
  by (cases k) (auto intro: deposit_call withdraw_call lock_call unlock_call transfer_call simp del: run_call.simps)

lemma run_calls_ok:
  assumes "book_ok s" and "run_calls ks s = (rs, t)" and "calls_fit ks s"
  shows "book_ok t \<and> gap x s + sum_list (map (unrecorded x) rs) - sum_list (map (at_risk x) rs) \<le> gap x t \<and>
    gap x t \<le> gap x s + sum_list (map (unrecorded x) rs)"
  using assms
proof (induction ks arbitrary: s rs)
  case (Cons k ks)
  obtain r u where r: "run_call k s = (r, u)" by fastforce
  obtain rs' where rs: "run_calls ks u = (rs', t)" "rs = (k, r) # rs'" using Cons.prems(2) r by (auto split: prod.splits)
  have step: "call_ok k r s u" using run_call_ok [OF Cons.prems(1) r] Cons.prems(3) by simp
  have "book_ok t \<and> gap x u + sum_list (map (unrecorded x) rs') - sum_list (map (at_risk x) rs') \<le> gap x t \<and>
      gap x t \<le> gap x u + sum_list (map (unrecorded x) rs')"
    using Cons.IH [OF _ rs(1)] step Cons.prems(3) r by (simp add: call_ok_def)
  moreover have "gap x s + unrecorded x (k, r) - at_risk x (k, r) \<le> gap x u" "gap x u \<le> gap x s + unrecorded x (k, r)"
    using step by (simp_all add: call_ok_def)
  ultimately show ?case unfolding rs(2) by simp
qed simp

lemma bank_start_ok: "bank_start s \<Longrightarrow> book_ok s \<and> gap x s = 0"
  by (simp add: bank_start_def book_ok_def gap_def balances_wf_def all_nonneg_def total_supply_def deposited_def i64_max_def)

section \<open>Properties\<close>

text \<open>An empty database with two accounts, and the platform's account.\<close>

definition sample_db :: pgdb where
  "sample_db =
     empty_db\<lparr>db_accounts := [1, 10, 20], db_user_accounts := [(''alice'', 10), (''bob'', 20)]\<rparr>"

lemmas balances_evals = db_evals empty_db_def sample_db_def deposit_def withdraw_def lock_balance_def unlock_balance_def
  transfer_def find_or_create_def balance_update_def create_entry_def create_double_entry_def ledger_insert_def
  find_balance_def insert_balance_row_def update_balances_def balance_key_def wrap64_def

definition funded_db :: pgdb where
  "funded_db = snd (deposit 5 10 USDC 1000 sample_db)"

lemma funded_db_eval:
  "funded_db =
     sample_db\<lparr>db_balances := [\<lparr>bal_id = 100, bal_account_id = 10, bal_asset = USDC, bal_available_balance = 1000,
                                bal_locked_balance = 0, bal_updated_at = 5\<rparr>],
               db_ledger := [\<lparr>le_id = 102, le_account_id = 10, le_asset = USDC, le_amount = 1000, le_entry_type = DEBIT,
                              le_reference_type = DEPOSIT, le_reference_id = 101, le_created_at = 5\<rparr>],
               db_next_uuid := 103\<rparr>"
  by (simp add: funded_db_def balances_evals)

lemma funded_db_wf: "balances_wf funded_db"
  by (simp add: funded_db_eval balances_wf_def sample_db_def balance_key_def)

text \<open>
  C6. Balances are backed and never negative: after any sequence of deposits, withdrawals, locks,
  unlocks and transfers on an initially empty database, with any rejections and any failing statements, and as long
  as no deposit and no transfer of an account to itself takes the total of an asset past the \<open>i64\<close> range, every
  available and locked column is non-negative. The rows of an asset add up to the deposits less the withdrawals in the ledger,
  plus what was changed without an entry (deposits and withdrawals whose entry failed, and transfers of an account
  to itself, which create their amount), less at most the amounts of the transfers that failed in the database.
\<close>

theorem balances_backed:
  assumes "bank_start s" and "run_calls ks s = (rs, t)" and "calls_fit ks s"
  shows "all_nonneg t \<and>
    deposited x t + sum_list (map (unrecorded x) rs) - sum_list (map (at_risk x) rs) \<le> total_supply x t \<and>
    total_supply x t \<le> deposited x t + sum_list (map (unrecorded x) rs)"
  using run_calls_ok [OF _ assms(2,3), of x] bank_start_ok [OF assms(1), of x] by (simp add: book_ok_def gap_def)

theorem balances_backed_witness:
  "\<exists>rs t. run_calls [Deposit 5 10 USDC 1000, Transfer 6 10 10 USDC 300, Withdraw 7 10 USDC 2000] sample_db = (rs, t) \<and>
     all_nonneg t \<and> deposited USDC t = 1000 \<and> total_supply USDC t = 1300"
proof -
  let ?ks = "[Deposit 5 10 USDC 1000, Transfer 6 10 10 USDC 300, Withdraw 7 10 USDC 2000]"
  have start: "bank_start sample_db" by (simp add: bank_start_def sample_db_def)
  obtain rs t where run: "run_calls ?ks sample_db = (rs, t)" by fastforce
  have rs: "map snd rs = [Inr (), Inr (), Inl InsufficientBalance]" "map fst rs = ?ks" "deposited USDC t = 1000"
    using run by (auto simp: balances_evals deposited_def flow_value_def apfst_def map_prod_def)
  have "calls_fit ?ks sample_db"
    by (simp add: balances_evals total_supply_def holding_def i64_max_def)
  from balances_backed [OF start run this, of USDC] show ?thesis using run rs by (auto simp: map_eq_Cons_conv)
qed

text \<open>
  Deposits, withdrawals, locks and unlocks that succeed have exactly their meaning, when the
  sums stay in the \<open>i64\<close> range: a deposit adds to the available column and to the account's ledger
  balance, a withdrawal needs enough available and takes from both, a lock needs enough available
  and moves it to the locked column, an unlock needs enough locked and moves it back; so the sum of
  the two columns and the ledger balance of every account always change together.
\<close>

theorem balance_operations_effects:
  assumes "balances_wf s" and "in_i64 (available c a s + amt)" and "in_i64 (available c a s - amt)"
    and "in_i64 (locked c a s + amt)" and "in_i64 (locked c a s - amt)"
  shows
   "(\<forall>b t. deposit now c a amt s = (Inr b, t) \<longrightarrow> 0 < amt \<and> available c a t = available c a s + amt \<and>
       locked c a t = locked c a s \<and> ledger_balance c a t = ledger_balance c a s + amt) \<and>
    (\<forall>b t. withdraw now c a amt s = (Inr b, t) \<longrightarrow> 0 < amt \<and> amt \<le> available c a s \<and>
       available c a t = available c a s - amt \<and> locked c a t = locked c a s \<and>
       ledger_balance c a t = ledger_balance c a s - amt) \<and>
    (\<forall>b t. lock_balance now c a amt s = (Inr b, t) \<longrightarrow> 0 < amt \<and> amt \<le> available c a s \<and>
       available c a t = available c a s - amt \<and> locked c a t = locked c a s + amt \<and>
       ledger_balance c a t = ledger_balance c a s) \<and>
    (\<forall>b t. unlock_balance now c a amt s = (Inr b, t) \<longrightarrow> 0 < amt \<and> amt \<le> locked c a s \<and>
       available c a t = available c a s + amt \<and> locked c a t = locked c a s - amt \<and>
       ledger_balance c a t = ledger_balance c a s)"
proof (intro conjI allI impI)
  fix b t assume run: "deposit now c a amt s = (Inr b, t)"
  note d = deposit_ok [OF run assms(1)]
  then obtain u e where u: "moved c a amt 0 s u" "posted [e] u t" "le_account_id e = c" "le_asset e = a"
    "le_amount e = amt" "le_entry_type e = DEBIT" using assms(2) by auto
  show "0 < amt" using d by blast
  show "available c a t = available c a s + amt" "locked c a t = locked c a s"
    "ledger_balance c a t = ledger_balance c a s + amt"
    using u moved_views(1,2) [OF u(1), of c a] posted_views(1,2,7) [OF u(2), of c a] ledger_of_moved [OF u(1), of c a]
    by (auto simp: entry_value_def signed_amount_def)
next
  fix b t assume run: "withdraw now c a amt s = (Inr b, t)"
  note d = withdraw_ok [OF run assms(1)]
  then obtain u e where u: "moved c a (- amt) 0 s u" "posted [e] u t" "le_account_id e = c" "le_asset e = a"
    "le_amount e = amt" "le_entry_type e = CREDIT" using assms(3) by auto
  show "0 < amt" "amt \<le> available c a s" using d by blast+
  show "available c a t = available c a s - amt" "locked c a t = locked c a s"
    "ledger_balance c a t = ledger_balance c a s - amt"
    using u moved_views(1,2) [OF u(1), of c a] posted_views(1,2,7) [OF u(2), of c a] ledger_of_moved [OF u(1), of c a]
    by (auto simp: entry_value_def signed_amount_def)
next
  fix b t assume run: "lock_balance now c a amt s = (Inr b, t)"
  note d = lock_balance_ok [OF run assms(1)]
  then have u: "moved c a (- amt) amt s t" using assms(3,4) by simp
  show "0 < amt" "amt \<le> available c a s" using d by blast+
  show "available c a t = available c a s - amt" "locked c a t = locked c a s + amt"
    "ledger_balance c a t = ledger_balance c a s"
    using moved_views(1,2) [OF u, of c a] ledger_of_moved [OF u, of c a] by auto
next
  fix b t assume run: "unlock_balance now c a amt s = (Inr b, t)"
  note d = unlock_balance_ok [OF run assms(1)]
  then have u: "moved c a amt (- amt) s t" using assms(2,5) by simp
  show "0 < amt" "amt \<le> locked c a s" using d by blast+
  show "available c a t = available c a s + amt" "locked c a t = locked c a s - amt"
    "ledger_balance c a t = ledger_balance c a s"
    using moved_views(1,2) [OF u, of c a] ledger_of_moved [OF u, of c a] by auto
qed

theorem balance_operations_effects_witness:
  "(\<exists>b t. lock_balance 6 10 USDC 400 funded_db = (Inr b, t) \<and> available 10 USDC t = 600 \<and> locked 10 USDC t = 400)"
proof -
  have v: "available 10 USDC funded_db = 1000" "locked 10 USDC funded_db = 0"
    by (simp_all add: funded_db_eval available_def locked_def find_balance_def)
  obtain b t where run: "lock_balance 6 10 USDC 400 funded_db = (Inr b, t)"
    by (simp add: funded_db_eval balances_evals)
  have "\<forall>b t. lock_balance 6 10 USDC 400 funded_db = (Inr b, t) \<longrightarrow> 0 < (400::int) \<and> 400 \<le> available 10 USDC funded_db \<and>
       available 10 USDC t = available 10 USDC funded_db - 400 \<and> locked 10 USDC t = locked 10 USDC funded_db + 400 \<and>
       ledger_balance 10 USDC t = ledger_balance 10 USDC funded_db"
    using balance_operations_effects [OF funded_db_wf, of 10 USDC 400 6] by (simp add: v i64_defs)
  with run show ?thesis by (auto simp: v)
qed

text \<open>
  C7. A transfer between two different accounts that succeeds needs enough available funds and moves
  exactly the amount: the sender's available column drops by it, the receiver's grows by it, the total
  of every asset is unchanged.  Its ledger entries, however, are posted the other way round than the
  entries of deposits and withdrawals: the ledger balance of the sender grows and the receiver's drops.
\<close>

theorem transfer_moves_exactly:
  assumes "transfer now f c a amt s = (Inr (bf, bt), t)" and "f \<noteq> c" and "book_ok s"
  shows "0 < amt \<and> amt \<le> available f a s \<and>
    available f a t = available f a s - amt \<and> available c a t = available c a s + amt \<and>
    (\<forall>x. total_supply x t = total_supply x s) \<and>
    ledger_balance f a t = ledger_balance f a s + amt \<and> ledger_balance c a t = ledger_balance c a s - amt"
proof -
  obtain v d e where u: "0 < amt" "amt \<le> available f a s" "rows_transferred f c a amt s v" "posted [d, e] v t"
    "le_account_id d = f" "le_asset d = a" "le_amount d = amt" "le_entry_type d = DEBIT"
    "le_account_id e = c" "le_asset e = a" "le_amount e = amt" "le_entry_type e = CREDIT"
    using transfer_ok [OF assms(1) book_rows(1) [OF assms(3)]] by blast
  note bf = book_bounds [OF assms(3), of f a] and bc = book_bounds [OF assms(3), of c a]
  have "available f a s + available c a s \<le> i64_max"
    using two_rows_le_total [OF book_rows [OF assms(3)] assms(2), of a] assms(3) by (metis book_ok_def order_trans)
  then have "in_i64 (available c a s + amt)" "in_i64 (available f a s - amt)" using u(1,2) bf bc by (simp_all add: i64_defs)
  then obtain w where m: "moved f a (- amt) 0 s w" and n: "moved c a amt 0 w v"
    using u(3) assms(2) by (auto simp: rows_transferred_def)
  show ?thesis
    using u moved_views(1) [OF m, of f a] moved_views(1) [OF m, of c a] moved_views(1) [OF n, of f a]
      moved_views(1) [OF n, of c a] moved_views(3) [OF m] moved_views(3) [OF n] posted_views(1,7) [OF u(4), of f a]
      posted_views(1,7) [OF u(4), of c a] posted_views(3) [OF u(4)] assms(2)
      ledger_of_moved [OF m] ledger_of_moved [OF n]
    by (auto simp: entry_value_def signed_amount_def)
qed

theorem transfer_moves_exactly_witness:
  "\<exists>bf bt t. transfer 7 10 20 USDC 300 funded_db = (Inr (bf, bt), t) \<and> available 10 USDC t = 700 \<and>
     available 20 USDC t = 300 \<and> ledger_balance 10 USDC t = 1300 \<and> ledger_balance 20 USDC t = - 300"
proof -
  have v: "available 10 USDC funded_db = 1000" "available 20 USDC funded_db = 0"
    "ledger_balance 10 USDC funded_db = 1000" "ledger_balance 20 USDC funded_db = 0"
    by (simp_all add: funded_db_eval sample_db_def available_def find_balance_def ledger_balance_def entry_value_def signed_amount_def)
  have ok: "book_ok funded_db"
    using funded_db_wf by (auto simp: book_ok_def funded_db_eval all_nonneg_def total_supply_def holding_def i64_max_def)
  obtain bf bt t where run: "transfer 7 10 20 USDC 300 funded_db = (Inr (bf, bt), t)"
    by (simp add: funded_db_eval balances_evals)
  then show ?thesis using transfer_moves_exactly [OF run _ ok] v by auto
qed

text \<open>
  A transfer from an account to itself creates money: when the row exists and the amount is
  available, the call succeeds and the account ends with the amount more than before, because both
  copies of the row were read before either was written back.
\<close>

theorem self_transfer_mints:
  assumes "transfer now c c a amt s = (Inr (bf, bt), t)" and "balances_wf s"
    and "in_i64 (available c a s + amt)"
  shows "0 < amt \<and> available c a t = available c a s + amt \<and> total_supply a t = total_supply a s + amt"
proof -
  obtain v d e where u: "0 < amt" "moved c a amt 0 s v" "posted [d, e] v t"
    using transfer_ok [OF assms(1,2)] assms(3) by (auto simp: rows_transferred_def)
  show ?thesis using u(1) moved_views(1) [OF u(2), of c a] moved_views(3) [OF u(2), of a] posted_views(1,3) [OF u(3)] by simp
qed

theorem self_transfer_mints_witness:
  "\<exists>bf bt t. transfer 7 10 10 USDC 300 funded_db = (Inr (bf, bt), t) \<and> available 10 USDC t = 1300"
proof -
  have v: "available 10 USDC funded_db = 1000" by (simp add: funded_db_eval available_def find_balance_def)
  obtain bf bt t where run: "transfer 7 10 10 USDC 300 funded_db = (Inr (bf, bt), t)"
    by (simp add: funded_db_eval balances_evals)
  then show ?thesis using self_transfer_mints [OF run funded_db_wf] v by (auto simp: i64_defs)
qed

end
