(* ===== verification/Fees.thy ===== *)
theory Fees
  imports Balances
begin

text \<open>
  Trading fees: src/fees/service.rs. The split of a fee is computed in double precision and
  truncated; the lemmas show that the parts are non-negative, add up, and never exceed the traded
  amount. Applying the fees happens inside the caller's transaction, with arithmetic done by the
  database: a missing row of a payer is not an error there, which the last theorem makes precise.
\<close>

definition platform_account_id :: uuid where "platform_account_id = 1"

record fee_breakdown =
  total_fee :: i64
  platform_fee :: i64
  solver_fee :: i64
  maker_fee :: i64
  taker_fee :: i64

definition calculate_fees :: "trade \<Rightarrow> market \<Rightarrow> fee_breakdown" where
  "calculate_fees trade market =
     (let total = f64_to_i64 (f64_mult (f64_of_int (tr_amount_in trade)) (mk_fee_rate market));
          solver = f64_to_i64 (f64_mult (f64_of_int total) f64_0_3);
          platform = wrap64 (total - solver);
          taker = f64_to_i64 (f64_mult (f64_of_int total) f64_0_6);
          maker = wrap64 (total - taker)
      in \<lparr>total_fee = total, platform_fee = platform, solver_fee = solver, maker_fee = maker, taker_fee = taker\<rparr>)"

definition debit_fee :: "uuid \<Rightarrow> asset \<Rightarrow> i64 \<Rightarrow> timestamp \<Rightarrow> unit dbm" where
  "debit_fee account_id asset amount now =
     (if amount = 0 then returnA ()
      else bindA (sql_exec (add_to_balance account_id asset (- amount) 0 now (\<lambda>_. True))) (\<lambda>_. returnA ()))"

definition credit_fee :: "uuid \<Rightarrow> asset \<Rightarrow> i64 \<Rightarrow> timestamp \<Rightarrow> unit dbm" where
  "credit_fee account_id asset amount now =
     (if amount = 0 then returnA ()
      else bindA (sql_query (\<lambda>s. find_balance account_id asset s \<noteq> None)) (\<lambda>exists.
        if \<not> exists then
          bindA new_uuid (\<lambda>new_id.
          sql_exec (insert_balance_row
            \<lparr>bal_id = new_id, bal_account_id = account_id, bal_asset = asset, bal_available_balance = amount,
             bal_locked_balance = 0, bal_updated_at = now\<rparr>))
        else
          bindA (sql_exec (add_to_balance account_id asset amount 0 now (\<lambda>_. True))) (\<lambda>_. returnA ())))"

definition insert_fee_ledger ::
  "uuid \<Rightarrow> asset \<Rightarrow> i64 \<Rightarrow> entry_type \<Rightarrow> uuid \<Rightarrow> timestamp \<Rightarrow> unit dbm" where
  "insert_fee_ledger account_id asset amount entry_type reference_id now =
     (if amount = 0 then returnA ()
      else bindA new_uuid (\<lambda>new_id.
        ledger_insert \<lparr>le_id = new_id, le_account_id = account_id, le_asset = asset, le_amount = amount,
                       le_entry_type = entry_type, le_reference_type = FEE,
                       le_reference_id = reference_id, le_created_at = now\<rparr>))"

text \<open>The only error of the module is that of the database (\<open>FeeError::DbError\<close>).\<close>

definition apply_fees :: "timestamp \<Rightarrow> trade \<Rightarrow> fee_breakdown \<Rightarrow> unit dbm" where
  "apply_fees now trade fees =
     (let platform_id = platform_account_id; a = tr_asset_in trade in
      seqA (debit_fee (tr_buyer_account_id trade) a (taker_fee fees) now)
     (seqA (debit_fee (tr_seller_account_id trade) a (maker_fee fees) now)
     (seqA (credit_fee platform_id a (platform_fee fees) now)
     (seqA (credit_fee (tr_solver_account_id trade) a (solver_fee fees) now)
     (seqA (insert_fee_ledger (tr_buyer_account_id trade) a (taker_fee fees) CREDIT (tr_id trade) now)
     (seqA (insert_fee_ledger (tr_seller_account_id trade) a (maker_fee fees) CREDIT (tr_id trade) now)
     (seqA (insert_fee_ledger platform_id a (platform_fee fees) DEBIT (tr_id trade) now)
     (insert_fee_ledger (tr_solver_account_id trade) a (solver_fee fees) DEBIT (tr_id trade) now))))))))"

section \<open>The split\<close>

lemma split_bounds:
  assumes "0 \<le> tot" and "in_i64 tot" and "rate_ok r"
  shows "0 \<le> f64_to_i64 (f64_mult (f64_of_int tot) r)" "f64_to_i64 (f64_mult (f64_of_int tot) r) \<le> tot"
    "wrap64 (tot - f64_to_i64 (f64_mult (f64_of_int tot) r)) = tot - f64_to_i64 (f64_mult (f64_of_int tot) r)"
proof -
  note b = scale_bounds [OF assms]
  show "0 \<le> f64_to_i64 (f64_mult (f64_of_int tot) r)" "f64_to_i64 (f64_mult (f64_of_int tot) r) \<le> tot"
    using b by auto
  have "in_i64 (tot - f64_to_i64 (f64_mult (f64_of_int tot) r))" using b assms by (simp add: i64_defs)
  then show "wrap64 (tot - f64_to_i64 (f64_mult (f64_of_int tot) r)) = tot - f64_to_i64 (f64_mult (f64_of_int tot) r)"
    by simp
qed

definition sample_trade :: trade where
  "sample_trade = \<lparr>tr_id = 7, tr_buyer_account_id = 10, tr_seller_account_id = 20, tr_solver_account_id = 1,
     tr_asset_in = USDC, tr_asset_out = ETH, tr_amount_in = 10000, tr_amount_out = 1, tr_platform_fee = 0,
     tr_solver_fee = 0, tr_status = TradePending, tr_created_at = 0, tr_settled_at = None\<rparr>"

definition sample_market :: market where
  "sample_market = \<lparr>mk_id = 5, mk_base_asset = ETH, mk_quote_asset = USDC, mk_tick_size = 1, mk_min_order_size = 1,
     mk_fee_rate = f64_0_001, mk_chain = ''ethereum'', mk_settlement_contract = None, mk_base_token_mint = None,
     mk_quote_token_mint = None, mk_base_decimals = 18, mk_quote_decimals = 6, mk_created_at = 0\<rparr>"

text \<open>
  C8. The fee split is exact and bounded, in floating point as computed: for a non-negative amount
  and a fee rate between zero and 7/8 the total fee lies between zero and the amount, all four parts
  are non-negative, solver and platform share add up to the total, and so do maker and taker share.
\<close>

theorem fee_split_exact:
  assumes "0 \<le> tr_amount_in tr" and "in_i64 (tr_amount_in tr)" and "rate_ok (mk_fee_rate mk)"
  shows "let f = calculate_fees tr mk in
    0 \<le> total_fee f \<and> total_fee f \<le> tr_amount_in tr \<and>
    0 \<le> solver_fee f \<and> 0 \<le> platform_fee f \<and> solver_fee f + platform_fee f = total_fee f \<and>
    0 \<le> taker_fee f \<and> 0 \<le> maker_fee f \<and> taker_fee f + maker_fee f = total_fee f"
proof -
  define tot where "tot = f64_to_i64 (f64_mult (f64_of_int (tr_amount_in tr)) (mk_fee_rate mk))"
  have t: "0 \<le> tot" "tot \<le> tr_amount_in tr" "in_i64 tot"
    using split_bounds(1,2) [OF assms] by (simp_all add: tot_def)
  show ?thesis using t split_bounds [OF t(1,3), of f64_0_3] split_bounds [OF t(1,3), of f64_0_6]
    by (simp add: calculate_fees_def Let_def tot_def [symmetric])
qed

theorem fee_split_exact_witness:
  "calculate_fees sample_trade sample_market =
     \<lparr>total_fee = 10, platform_fee = 7, solver_fee = 3, maker_fee = 4, taker_fee = 6\<rparr> \<and>
   (let f = calculate_fees sample_trade sample_market in
    0 \<le> total_fee f \<and> total_fee f \<le> 10000 \<and> solver_fee f + platform_fee f = total_fee f)"
proof -
  have "calculate_fees sample_trade sample_market =
     \<lparr>total_fee = 10, platform_fee = 7, solver_fee = 3, maker_fee = 4, taker_fee = 6\<rparr>"
  proof -
    have "f64_to_i64 (f64_mult (f64_of_int 10000) f64_0_001) = 10" "f64_to_i64 (f64_mult (f64_of_int 10) f64_0_3) = 3"
      "f64_to_i64 (f64_mult (f64_of_int 10) f64_0_6) = 6" by (simp_all add: f64_evals)
    then show ?thesis by (simp add: calculate_fees_def sample_trade_def sample_market_def Let_def wrap64_def)
  qed
  moreover have "let f = calculate_fees sample_trade sample_market in
    0 \<le> total_fee f \<and> total_fee f \<le> 10000 \<and> solver_fee f + platform_fee f = total_fee f"
  proof -
    have a: "tr_amount_in sample_trade = 10000" and r: "mk_fee_rate sample_market = f64_0_001"
      by (simp_all add: sample_trade_def sample_market_def)
    have "0 \<le> tr_amount_in sample_trade" "in_i64 (tr_amount_in sample_trade)" "rate_ok (mk_fee_rate sample_market)"
      unfolding a r by (simp_all add: i64_defs)
    from fee_split_exact [OF this] show ?thesis unfolding a by (auto simp: Let_def)
  qed
  ultimately show ?thesis by blast
qed

section \<open>Applying the fees\<close>

definition has_row :: "uuid \<Rightarrow> asset \<Rightarrow> pgdb \<Rightarrow> bool" where
  "has_row c a s \<longleftrightarrow> find_balance c a s \<noteq> None"

lemma has_row_iff: "has_row c a s \<longleftrightarrow> (c, a) \<in> set (map balance_key (db_balances s))"
  by (auto simp: has_row_def find_balance_def find_None_iff balance_key_def)

lemma has_row_tick [simp]: "has_row c a (tick s) = has_row c a s"
  by (simp add: has_row_def)

lemma add_to_balance_rows:
  assumes "add_to_balance c a d1 d2 now guard s = Inr (n, t)"
  shows "has_row k x t = has_row k x s"
proof -
  have "map balance_key (map (\<lambda>b. if P b then f b else b) xs) = map balance_key xs"
    if "\<And>b. balance_key (f b) = balance_key b" for f P xs using that by (induction xs) auto
  then have "map balance_key (db_balances t) = map balance_key (db_balances s)"
    using assms by (auto simp: add_to_balance_def Let_def update_balances_def balance_key_def split: if_splits)
  then show ?thesis by (simp only: has_row_iff)
qed

lemma update_where_key:
  assumes "sql_exec (add_to_balance c a d1 d2 now (\<lambda>_. True)) s = (Inr n, t)" and "balances_wf s"
  shows "moved c a (if has_row c a s then d1 else 0) (if has_row c a s then d2 else 0) s t \<and> (\<forall>k x. has_row k x t = has_row k x s)"
proof -
  obtain t' where t': "add_to_balance c a d1 d2 now (\<lambda>_. True) s = Inr (n, t')" "t = tick t'"
    using assms(1) by (auto simp: action_simps)
  show ?thesis
  proof (cases "n = 0")
    case True
    then have "t' = s" using add_to_missing_balance t'(1) by blast
    moreover have "\<not> has_row c a s"
      using t'(1) True by (auto simp: add_to_balance_def Let_def filter_empty_conv has_row_iff balance_key_def split: if_splits)
    ultimately show ?thesis using t'(2) assms(2) by (simp add: moved_zero)
  next
    case False
    then show ?thesis using add_to_balance_moved [OF assms(2) t'(1)] add_to_balance_rows [OF t'(1)] t'(2)
      by (auto simp: has_row_def)
  qed
qed

lemma debit_fee_ok:
  assumes "debit_fee c a amt now s = (Inr (), t)" and "balances_wf s"
  shows "moved c a (if has_row c a s then - amt else 0) 0 s t \<and> (\<forall>k x. has_row k x t = has_row k x s)"
proof (cases "amt = 0")
  case True
  then show ?thesis using assms by (simp add: debit_fee_def action_simps moved_zero)
next
  case False
  then obtain n where "sql_exec (add_to_balance c a (- amt) 0 now (\<lambda>_. True)) s = (Inr n, t)"
    using assms(1) by (auto simp: debit_fee_def bindA_Inr_iff returnA_iff)
  then show ?thesis using update_where_key [OF _ assms(2)] by fastforce
qed

lemma credit_fee_ok:
  assumes "credit_fee c a amt now s = (Inr (), t)" and wf: "balances_wf s"
  shows "moved c a amt 0 s t"
proof (cases "amt = 0")
  case True
  then show ?thesis using assms by (simp add: credit_fee_def action_simps moved_zero)
next
  case False
  show ?thesis
  proof (cases "has_row c a s")
    case True
    then obtain n where "sql_exec (add_to_balance c a amt 0 now (\<lambda>_. True)) (tick s) = (Inr n, t)"
      using assms(1) \<open>amt \<noteq> 0\<close> by (auto simp: credit_fee_def bindA_Inr_iff returnA_iff sql_query_Inr_iff has_row_def)
    from update_where_key [OF this] show ?thesis using wf True by simp
  next
    case False
    define s1 where "s1 = (tick s)\<lparr>db_next_uuid := Suc (db_next_uuid s)\<rparr>"
    obtain b u where u: "insert_balance_row b s1 = Inr ((), u)" "t = tick u" and b: "bal_id b = db_next_uuid s"
      "bal_account_id b = c" "bal_asset b = a" "bal_available_balance b = amt" "bal_locked_balance b = 0"
      using assms(1) False \<open>amt \<noteq> 0\<close> by (auto simp: credit_fee_def action_simps has_row_def s1_def)
    have m: "moved c a 0 0 s s1"
      using moved_new_uuid [of "tick s" _ s1] wf by (auto simp: s1_def new_uuid_def)
    have "moved c a amt 0 s1 u"
      using insert_row_moved [OF u(1) moved_views(4) [OF m], of c a] b by (simp add: s1_def)
    then show ?thesis using moved_trans [OF m] u(2) by fastforce
  qed
qed

lemma insert_fee_ledger_ok:
  assumes "insert_fee_ledger c a amt et ref now s = (Inr (), t)"
  shows "\<exists>es. posted es s t \<and> (\<forall>k x. sum_list (map (entry_value k x) es) =
      (if k = c \<and> x = a then (if et = DEBIT then amt else - amt) else 0))"
proof (cases "amt = 0")
  case True
  then show ?thesis using assms
    by (auto simp: insert_fee_ledger_def action_simps posted_Nil intro!: exI [of _ "[]"])
next
  case False
  then obtain n s1 e where n: "new_uuid s = (Inr n, s1)" "ledger_insert e s1 = (Inr (), t)"
    "le_account_id e = c" "le_asset e = a" "le_amount e = amt" "le_entry_type e = et"
    using assms by (auto simp: insert_fee_ledger_def action_simps)
  have "posted [e] s t" using posted_trans [OF new_uuid_posted [OF n(1)] ledger_insert_posted(1) [OF n(2)]] by simp
  then show ?thesis using n by (intro exI [of _ "[e]"]) (auto simp: entry_value_def signed_amount_def)
qed

text \<open>
  Applying the fees of a trade collects from buyer and seller and pays platform and solver, but
  a payer without a balance row in the asset is skipped silently: whenever all statements succeed, the
  total of the asset changes by what platform and solver received less what the payers that do have a
  row paid; with both rows present and a breakdown that adds up it is unchanged.
\<close>

theorem apply_fees_total:
  assumes "apply_fees now tr f s = (Inr (), t)" and "balances_wf s"
  shows "total_supply (tr_asset_in tr) t = total_supply (tr_asset_in tr) s + platform_fee f + solver_fee f
     - (if has_row (tr_buyer_account_id tr) (tr_asset_in tr) s then taker_fee f else 0)
     - (if has_row (tr_seller_account_id tr) (tr_asset_in tr) s then maker_fee f else 0)"
proof -
  let ?a = "tr_asset_in tr"
  obtain s1 s2 s3 s4 s5 s6 s7 where *:
    "debit_fee (tr_buyer_account_id tr) ?a (taker_fee f) now s = (Inr (), s1)"
    "debit_fee (tr_seller_account_id tr) ?a (maker_fee f) now s1 = (Inr (), s2)"
    "credit_fee platform_account_id ?a (platform_fee f) now s2 = (Inr (), s3)"
    "credit_fee (tr_solver_account_id tr) ?a (solver_fee f) now s3 = (Inr (), s4)"
    "insert_fee_ledger (tr_buyer_account_id tr) ?a (taker_fee f) CREDIT (tr_id tr) now s4 = (Inr (), s5)"
    "insert_fee_ledger (tr_seller_account_id tr) ?a (maker_fee f) CREDIT (tr_id tr) now s5 = (Inr (), s6)"
    "insert_fee_ledger platform_account_id ?a (platform_fee f) DEBIT (tr_id tr) now s6 = (Inr (), s7)"
    "insert_fee_ledger (tr_solver_account_id tr) ?a (solver_fee f) DEBIT (tr_id tr) now s7 = (Inr (), t)"
    using assms(1) by (auto simp: apply_fees_def Let_def action_simps)
  note d1 = debit_fee_ok [OF *(1) assms(2)]
  note d2 = debit_fee_ok [OF *(2) moved_views(4) [OF conjunct1 [OF d1]]]
  note c1 = credit_fee_ok [OF *(3) moved_views(4) [OF conjunct1 [OF d2]]]
  note c2 = credit_fee_ok [OF *(4) moved_views(4) [OF c1]]
  have ledger: "total_supply x t = total_supply x s4" for x
    using insert_fee_ledger_ok [OF *(5)] insert_fee_ledger_ok [OF *(6)] insert_fee_ledger_ok [OF *(7)]
      insert_fee_ledger_ok [OF *(8)] posted_views(3) by metis
  show ?thesis
    unfolding ledger using moved_views(3) [OF conjunct1 [OF d1], of ?a] moved_views(3) [OF conjunct1 [OF d2], of ?a]
      moved_views(3) [OF c1, of ?a] moved_views(3) [OF c2, of ?a] d1 by simp
qed

text \<open>
  In the sample database the buyer has a row and the seller has none: four units are created.
\<close>

theorem apply_fees_total_witness:
  "\<exists>t. apply_fees 9 sample_trade \<lparr>total_fee = 10, platform_fee = 7, solver_fee = 3, maker_fee = 4, taker_fee = 6\<rparr> funded_db = (Inr (), t) \<and>
     total_supply USDC funded_db = 1000 \<and> total_supply USDC t = 1004"
proof -
  let ?f = "\<lparr>total_fee = 10, platform_fee = 7, solver_fee = 3, maker_fee = 4, taker_fee = 6\<rparr>"
  have "\<exists>t. apply_fees 9 sample_trade ?f funded_db = (Inr (), t)"
    by (simp add: apply_fees_def funded_db_eval balances_evals debit_fee_def credit_fee_def insert_fee_ledger_def
        sample_trade_def add_to_balance_def platform_account_id_def i64_defs)
  then obtain t where run: "apply_fees 9 sample_trade ?f funded_db = (Inr (), t)" ..
  have "total_supply USDC funded_db = 1000" by (simp add: funded_db_eval total_supply_def holding_def)
  moreover have "has_row 10 USDC funded_db" "\<not> has_row 20 USDC funded_db"
    by (simp_all add: has_row_iff funded_db_eval balance_key_def)
  ultimately show ?thesis using run apply_fees_total [OF run funded_db_wf]
    by (simp add: sample_trade_def)
qed

end
