(* ===== verification/Solver_Stats.thy ===== *)
theory Solver_Stats
  imports Database
begin

text \<open>
  Performance counters of the solvers: the write operations of src/solver_reputation/stats.rs. Each
  is one \<open>INSERT .. ON CONFLICT DO UPDATE\<close> on the table \<open>solver_stats\<close>, whose key refers to
  \<open>solvers\<close>; the database rejects unknown solvers and counters that leave the \<open>BIGINT\<close> range.
\<close>

definition empty_stats :: "uuid \<Rightarrow> solver_stats_row" where
  "empty_stats solver_id =
     \<lparr>ss_solver_id = solver_id, ss_total_auctions_entered = 0, ss_total_auctions_won = 0, ss_total_fills = 0,
      ss_total_settled = 0, ss_total_failed = 0, ss_total_volume = 0, ss_total_profit = 0,
      ss_sum_latency_ms = 0, ss_sum_slippage_bps = 0\<rparr>"

definition stats_in_range :: "solver_stats_row \<Rightarrow> bool" where
  "stats_in_range r \<longleftrightarrow>
     in_i64 (ss_total_auctions_entered r) \<and> in_i64 (ss_total_auctions_won r) \<and> in_i64 (ss_total_fills r) \<and>
     in_i64 (ss_total_settled r) \<and> in_i64 (ss_total_failed r) \<and> in_i64 (ss_total_volume r) \<and>
     in_i64 (ss_total_profit r) \<and> in_i64 (ss_sum_latency_ms r) \<and> in_i64 (ss_sum_slippage_bps r)"

text \<open>The upsert: apply the increments to the existing row, or to a row of zeros.\<close>

definition upsert_stats :: "uuid \<Rightarrow> (solver_stats_row \<Rightarrow> solver_stats_row) \<Rightarrow> unit dbm" where
  "upsert_stats solver_id inc =
     sql_exec (\<lambda>s.
       case List.find (\<lambda>r. ss_solver_id r = solver_id) (db_solver_stats s) of
         Some r \<Rightarrow>
           if stats_in_range (inc r)
           then Inr ((), s\<lparr>db_solver_stats := map (\<lambda>x. if ss_solver_id x = solver_id then inc x else x) (db_solver_stats s)\<rparr>)
           else Inl NumericOutOfRange
       | None \<Rightarrow>
           if solver_id \<notin> set (db_solvers s) then Inl ForeignKeyViolation
           else Inr ((), s\<lparr>db_solver_stats := db_solver_stats s @ [inc (empty_stats solver_id)]\<rparr>))"

definition record_settled_fill :: "uuid \<Rightarrow> i64 \<Rightarrow> i64 \<Rightarrow> i64 \<Rightarrow> i64 \<Rightarrow> unit dbm" where
  "record_settled_fill solver_id volume profit latency_ms slippage_bps =
     upsert_stats solver_id (\<lambda>r.
       r\<lparr>ss_total_fills := ss_total_fills r + 1, ss_total_settled := ss_total_settled r + 1,
         ss_total_volume := ss_total_volume r + volume, ss_total_profit := ss_total_profit r + profit,
         ss_sum_latency_ms := ss_sum_latency_ms r + latency_ms,
         ss_sum_slippage_bps := ss_sum_slippage_bps r + slippage_bps\<rparr>)"

definition record_failed_fill :: "uuid \<Rightarrow> unit dbm" where
  "record_failed_fill solver_id =
     upsert_stats solver_id (\<lambda>r.
       r\<lparr>ss_total_fills := ss_total_fills r + 1, ss_total_failed := ss_total_failed r + 1\<rparr>)"

definition record_auction_result :: "uuid \<Rightarrow> bool \<Rightarrow> unit dbm" where
  "record_auction_result solver_id won =
     (let won_inc = (if won then 1 else 0) in
      upsert_stats solver_id (\<lambda>r.
        r\<lparr>ss_total_auctions_entered := ss_total_auctions_entered r + 1,
          ss_total_auctions_won := ss_total_auctions_won r + won_inc\<rparr>))"

section \<open>Effects\<close>

text \<open>What the counters of a solver must satisfy: every fill was settled or failed, and no auction
  was won that was not entered.\<close>

definition stats_ok :: "pgdb \<Rightarrow> bool" where
  "stats_ok s \<longleftrightarrow>
     (\<forall>r\<in>set (db_solver_stats s).
        ss_total_fills r = ss_total_settled r + ss_total_failed r \<and>
        0 \<le> ss_total_settled r \<and> 0 \<le> ss_total_failed r \<and>
        0 \<le> ss_total_auctions_won r \<and> ss_total_auctions_won r \<le> ss_total_auctions_entered r)"

definition stats_only :: "pgdb \<Rightarrow> pgdb \<Rightarrow> bool" where
  "stats_only s t \<longleftrightarrow> t = s\<lparr>db_solver_stats := db_solver_stats t, db_faults := db_faults t\<rparr>"

lemma stats_only_refl [simp]: "stats_only s s"
  by (simp add: stats_only_def)

lemma upsert_stats_only: "upsert_stats i inc s = (r, t) \<Longrightarrow> stats_only s t"
  unfolding upsert_stats_def sql_exec_def stats_only_def tick_def
  by (auto split: if_splits option.splits)

lemma stats_writes_only:
  "record_settled_fill i v p l b s = (r, t) \<Longrightarrow> stats_only s t"
  "record_failed_fill i s = (r, t) \<Longrightarrow> stats_only s t"
  "record_auction_result i w s = (r, t) \<Longrightarrow> stats_only s t"
  by (auto simp: record_settled_fill_def record_failed_fill_def record_auction_result_def Let_def
      dest: upsert_stats_only)

lemma upsert_stats_ok:
  assumes "upsert_stats i inc s = (r, t)" and "stats_ok s"
    and "\<And>x. P x \<Longrightarrow> P (inc x)" and "P (empty_stats i)"
    and "\<And>x. P x \<longleftrightarrow> ss_total_fills x = ss_total_settled x + ss_total_failed x \<and>
        0 \<le> ss_total_settled x \<and> 0 \<le> ss_total_failed x \<and>
        0 \<le> ss_total_auctions_won x \<and> ss_total_auctions_won x \<le> ss_total_auctions_entered x"
  shows "stats_ok t"
proof -
  have iff: "stats_ok u \<longleftrightarrow> (\<forall>x\<in>set (db_solver_stats u). P x)" for u
    by (simp add: stats_ok_def assms(5))
  show ?thesis
    using assms(1-4) unfolding iff upsert_stats_def sql_exec_def
    by (auto split: if_splits option.splits)
qed

text \<open>
  The counters stay consistent: every write operation, whether it succeeds or fails, keeps for
  every solver that the fills are the settled plus the failed ones and that no more auctions were
  won than entered, and touches no other table.
\<close>

theorem solver_stats_consistent:
  assumes "stats_ok s"
    and "record_settled_fill i v p l b s = (r, t) \<or> record_failed_fill i s = (r, t) \<or> record_auction_result i w s = (r, t)"
  shows "stats_ok t \<and> stats_only s t"
proof -
  let ?P = "\<lambda>x. ss_total_fills x = ss_total_settled x + ss_total_failed x \<and>
        0 \<le> ss_total_settled x \<and> 0 \<le> ss_total_failed x \<and>
        0 \<le> ss_total_auctions_won x \<and> ss_total_auctions_won x \<le> ss_total_auctions_entered x"
  have "stats_ok t" if "upsert_stats i inc s = (r, t)" "\<And>x. ?P x \<Longrightarrow> ?P (inc x)" for inc
    using that by (intro upsert_stats_ok [OF that(1) assms(1), of ?P]) (auto simp: empty_stats_def)
  then show ?thesis using assms(2) stats_writes_only
    by (auto simp: record_settled_fill_def record_failed_fill_def record_auction_result_def Let_def)
qed

theorem solver_stats_consistent_witness:
  "let s = empty_db\<lparr>db_solvers := [4]\<rparr> in
   stats_ok s \<and> (\<exists>t. record_failed_fill 4 s = (Inr (), t) \<and> stats_ok t \<and> db_solver_stats t \<noteq> [])"
proof -
  let ?s = "empty_db\<lparr>db_solvers := [4]\<rparr>"
  have ok: "stats_ok ?s" by (simp add: stats_ok_def empty_db_def)
  obtain t where run: "record_failed_fill 4 ?s = (Inr (), t)" "db_solver_stats t \<noteq> []"
    by (simp add: record_failed_fill_def upsert_stats_def db_evals empty_db_def)
  then have "stats_ok t" using solver_stats_consistent [OF ok] by blast
  then show ?thesis using ok run by (auto simp: Let_def)
qed

end
