(* ===== verification/Settlement.thy ===== *)
theory Settlement
  imports Fees Solver_Stats
begin

text \<open>
  The settlement engine: src/settlement/engine.rs with the recording of failures from
  src/settlement/retry.rs that it calls. A fill, or a trade of the older interface, is settled in one
  database transaction. What the engine takes from its environment is in \<open>settle_env\<close>: the clock,
  the measured duration, the parser of the \<open>uuid\<close> crate and the text of a database error.
\<close>

datatype settlement_error =
    TradeNotFound | FillNotFound | AlreadySettled | SettlementInsufficientBalance
  | FeeError string | ChainError string | UnsupportedChain string | SettlementDb sqlx_error

record settle_env =
  env_now :: timestamp
  env_latency_ms :: i64
  env_parse_uuid :: "string \<Rightarrow> uuid option"
  env_db_text :: "sqlx_error \<Rightarrow> string"

definition settlement_text :: "settle_env \<Rightarrow> settlement_error \<Rightarrow> string" where
  "settlement_text env e =
     (case e of
        TradeNotFound \<Rightarrow> ''Trade not found''
      | FillNotFound \<Rightarrow> ''Fill not found''
      | AlreadySettled \<Rightarrow> ''Already settled''
      | SettlementInsufficientBalance \<Rightarrow> ''Insufficient balance''
      | FeeError x \<Rightarrow> ''Fee error: '' @ x
      | ChainError x \<Rightarrow> ''Chain error: '' @ x
      | UnsupportedChain c \<Rightarrow> ''Unsupported chain: '' @ c
      | SettlementDb x \<Rightarrow> ''Database error: '' @ env_db_text env x)"

type_synonym 'a settlem = "(pgdb, settlement_error, 'a) action"

section \<open>Transaction helpers\<close>

definition unlock_and_debit :: "uuid \<Rightarrow> asset \<Rightarrow> i64 \<Rightarrow> timestamp \<Rightarrow> unit settlem" where
  "unlock_and_debit account_id asset amount now =
     bindA (map_errA SettlementDb
       (sql_exec (add_to_balance account_id asset 0 (- amount) now (\<lambda>b. amount \<le> bal_locked_balance b)))) (\<lambda>rows_affected.
     if rows_affected = 0 then raiseA SettlementInsufficientBalance else returnA ())"

definition find_or_create_balance :: "timestamp \<Rightarrow> uuid \<Rightarrow> asset \<Rightarrow> balance dbm" where
  "find_or_create_balance now account_id asset =
     bindA (sql_query (find_balance account_id asset)) (\<lambda>row.
     case row of
       Some b \<Rightarrow> returnA b
     | None \<Rightarrow>
         bindA new_uuid (\<lambda>new_id.
         let b = \<lparr>bal_id = new_id, bal_account_id = account_id, bal_asset = asset,
                  bal_available_balance = 0, bal_locked_balance = 0, bal_updated_at = now\<rparr> in
         seqA (sql_exec (insert_balance_row b))
         (returnA b)))"

text \<open>\<open>UPDATE balances SET available_balance = $1, updated_at = $2 WHERE id = $3\<close>\<close>

definition write_available :: "balance \<Rightarrow> unit dbm" where
  "write_available b =
     sql_update (update_balances (\<lambda>r. bal_id r = bal_id b)
       (\<lambda>r. r\<lparr>bal_available_balance := bal_available_balance b, bal_updated_at := bal_updated_at b\<rparr>))"

definition debit_balance :: "uuid \<Rightarrow> asset \<Rightarrow> i64 \<Rightarrow> timestamp \<Rightarrow> unit dbm" where
  "debit_balance account_id asset amount now =
     bindA (find_or_create_balance now account_id asset) (\<lambda>b.
     if bal_available_balance b < amount then raiseA (Protocol ''Insufficient balance'') else
     write_available (b\<lparr>bal_available_balance := wrap64 (bal_available_balance b - amount), bal_updated_at := now\<rparr>))"

definition credit_balance :: "uuid \<Rightarrow> asset \<Rightarrow> i64 \<Rightarrow> timestamp \<Rightarrow> unit dbm" where
  "credit_balance account_id asset amount now =
     bindA (find_or_create_balance now account_id asset) (\<lambda>b.
     write_available (b\<lparr>bal_available_balance := wrap64 (bal_available_balance b + amount), bal_updated_at := now\<rparr>))"

definition insert_ledger ::
  "uuid \<Rightarrow> asset \<Rightarrow> i64 \<Rightarrow> entry_type \<Rightarrow> reference_type \<Rightarrow> uuid \<Rightarrow> timestamp \<Rightarrow> unit dbm" where
  "insert_ledger account_id asset amount entry_type reference_type reference_id now =
     bindA new_uuid (\<lambda>new_id.
     ledger_insert \<lparr>le_id = new_id, le_account_id = account_id, le_asset = asset, le_amount = amount,
                    le_entry_type = entry_type, le_reference_type = reference_type,
                    le_reference_id = reference_id, le_created_at = now\<rparr>)"

section \<open>Trades\<close>

record create_trade_request =
  ctr_buyer_account_id :: uuid
  ctr_seller_account_id :: uuid
  ctr_solver_account_id :: uuid
  ctr_asset_in :: asset
  ctr_asset_out :: asset
  ctr_amount_in :: i64
  ctr_amount_out :: i64
  ctr_platform_fee :: i64
  ctr_solver_fee :: i64

definition create_trade :: "settle_env \<Rightarrow> create_trade_request \<Rightarrow> trade settlem" where
  "create_trade env req =
     bindA new_uuid (\<lambda>new_id.
     let trade = \<lparr>tr_id = new_id, tr_buyer_account_id = ctr_buyer_account_id req,
                  tr_seller_account_id = ctr_seller_account_id req, tr_solver_account_id = ctr_solver_account_id req,
                  tr_asset_in = ctr_asset_in req, tr_asset_out = ctr_asset_out req,
                  tr_amount_in = ctr_amount_in req, tr_amount_out = ctr_amount_out req,
                  tr_platform_fee = ctr_platform_fee req, tr_solver_fee = ctr_solver_fee req,
                  tr_status = TradePending, tr_created_at = env_now env, tr_settled_at = None\<rparr> in
     seqA (map_errA SettlementDb (sql_update (\<lambda>s. s\<lparr>db_trades := db_trades s @ [trade]\<rparr>)))
     (returnA trade))"

definition find_trade :: "uuid \<Rightarrow> pgdb \<Rightarrow> trade option" where
  "find_trade trade_id s = List.find (\<lambda>t. tr_id t = trade_id) (db_trades s)"

definition get_trade :: "uuid \<Rightarrow> trade option settlem" where
  "get_trade trade_id = map_errA SettlementDb (sql_query (find_trade trade_id))"

section \<open>Per-fill settlement\<close>

definition mark_fill_settled :: "uuid \<Rightarrow> timestamp \<Rightarrow> pgdb \<Rightarrow> pgdb" where
  "mark_fill_settled fill_id now s =
     s\<lparr>db_fills := map (\<lambda>f. if fi_id f = fill_id then f\<lparr>fi_settled := True, fi_settled_at := Some now\<rparr> else f) (db_fills s)\<rparr>"

text \<open>The total, solver and platform share of a fill's fee.\<close>

definition fill_fees :: "i64 \<Rightarrow> f64 \<Rightarrow> i64 \<times> i64 \<times> i64" where
  "fill_fees amount fee_rate =
     (let tot = f64_to_i64 (f64_mult (f64_of_int amount) fee_rate);
          solver = f64_to_i64 (f64_mult (f64_of_int tot) f64_0_3)
      in (tot, solver, wrap64 (tot - solver)))"

text \<open>The body of the transaction; it returns the fill and the solver's fee for the statistics.\<close>

definition settle_fill_tx ::
  "settle_env \<Rightarrow> uuid \<Rightarrow> uuid \<Rightarrow> uuid \<Rightarrow> asset \<Rightarrow> asset \<Rightarrow> f64 \<Rightarrow> (fill \<times> i64) settlem" where
  "settle_fill_tx env fill_id buyer_account_id seller_account_id asset_in asset_out fee_rate =
     bindA (map_errA SettlementDb (sql_query (find_fill fill_id))) (\<lambda>row.
     case row of None \<Rightarrow> raiseA FillNotFound | Some fill \<Rightarrow>
     if fi_settled fill then raiseA AlreadySettled else
     let now = env_now env; platform_id = platform_account_id; amount = fi_filled_qty fill;
         (tot_fee, s_fee, p_fee) = fill_fees amount fee_rate;
         seller_receives = wrap64 (amount - tot_fee) in
     seqA (unlock_and_debit buyer_account_id asset_in amount now)
    (seqA (map_errA SettlementDb (credit_balance seller_account_id asset_in seller_receives now))
    (seqA (map_errA SettlementDb (credit_balance buyer_account_id asset_out (fi_qty fill) now))
    (seqA (map_errA (\<lambda>_. SettlementInsufficientBalance) (debit_balance seller_account_id asset_out (fi_qty fill) now))
    (seqA (whenA (0 < p_fee) (map_errA SettlementDb (credit_balance platform_id asset_in p_fee now)))
    (seqA (whenA (0 < s_fee)
            (bindA (map_errA SettlementDb (sql_query (find_user_account (fi_solver_id fill)))) (\<lambda>acc.
             map_errA SettlementDb
               (credit_balance (case acc of None \<Rightarrow> platform_id | Some c \<Rightarrow> c) asset_in s_fee now))))
    (seqA (map_errA SettlementDb (insert_ledger buyer_account_id asset_in amount CREDIT TRADE (fi_id fill) now))
    (seqA (map_errA SettlementDb (insert_ledger buyer_account_id asset_out (fi_qty fill) DEBIT TRADE (fi_id fill) now))
    (seqA (map_errA SettlementDb (insert_ledger seller_account_id asset_in seller_receives DEBIT TRADE (fi_id fill) now))
    (seqA (map_errA SettlementDb (insert_ledger seller_account_id asset_out (fi_qty fill) CREDIT TRADE (fi_id fill) now))
    (seqA (whenA (0 < p_fee)
            (map_errA SettlementDb (insert_ledger platform_id asset_in p_fee DEBIT FEE (fi_id fill) now)))
    (seqA (whenA (0 < s_fee)
            (map_errA SettlementDb (insert_ledger platform_id asset_in s_fee DEBIT FEE (fi_id fill) now)))
    (seqA (map_errA SettlementDb (sql_update (mark_fill_settled fill_id now)))
    (returnA (fill, s_fee)))))))))))))))"

definition slippage_bps :: "fill \<Rightarrow> i64" where
  "slippage_bps fill =
     (if 0 < fi_price fill
      then rust_div (wrap64 (wrap64 \<bar>wrap64 (fi_qty fill - fi_filled_qty fill)\<bar> * 10000)) (fi_price fill)
      else 0)"

definition settle_fill ::
  "settle_env \<Rightarrow> uuid \<Rightarrow> uuid \<Rightarrow> uuid \<Rightarrow> asset \<Rightarrow> asset \<Rightarrow> f64 \<Rightarrow> unit settlem" where
  "settle_fill env fill_id buyer_account_id seller_account_id asset_in asset_out fee_rate =
     bindA (in_tx SettlementDb
       (settle_fill_tx env fill_id buyer_account_id seller_account_id asset_in asset_out fee_rate)) (\<lambda>(fill, s_fee).
     case env_parse_uuid env (fi_solver_id fill) of
       None \<Rightarrow> returnA ()
     | Some sid \<Rightarrow>
         ignoreA (record_settled_fill sid (fi_filled_qty fill) s_fee (env_latency_ms env) (slippage_bps fill)))"

text \<open>
  The join of a fill with its intent and the market of the two tokens; the tokens are compared in
  upper case.
\<close>

definition resolve_fill_chain ::
  "uuid \<Rightarrow> (string \<times> string option \<times> string option \<times> string option) settlem" where
  "resolve_fill_chain fill_id =
     bindA (map_errA SettlementDb (sql_query (\<lambda>s.
       [(mk_chain m, mk_settlement_contract m, mk_base_token_mint m, mk_quote_token_mint m).
          f \<leftarrow> db_fills s, fi_id f = fill_id,
          i \<leftarrow> db_intents s, in_id i = fi_intent_id f,
          m \<leftarrow> db_markets s,
          asset_text (mk_base_asset m) = map to_upper (in_token_in i) \<and>
          asset_text (mk_quote_asset m) = map to_upper (in_token_out i)]))) (\<lambda>rows.
     case rows of [] \<Rightarrow> raiseA FillNotFound | r # _ \<Rightarrow> returnA r)"

section \<open>Recording failures\<close>

text \<open>\<open>backoff_secs\<close> of the retry module, and its two recording functions.\<close>

definition backoff_secs :: "int \<Rightarrow> i64" where
  "backoff_secs retry_count = wrap64 (10 * wrap64 (3 ^ nat retry_count))"

definition record_failure :: "settle_env \<Rightarrow> uuid \<Rightarrow> string \<Rightarrow> unit dbm" where
  "record_failure env trade_id err =
     bindA new_uuid (\<lambda>new_id.
     let next_retry = env_now env + backoff_secs 0 in
     sql_update (\<lambda>s.
       if trade_id \<in> fs_trade_id ` set (db_failed s)
       then s\<lparr>db_failed := map (\<lambda>r. if fs_trade_id r = trade_id
                then r\<lparr>fs_last_error := err, fs_next_retry_at := next_retry\<rparr> else r) (db_failed s)\<rparr>
       else s\<lparr>db_failed := db_failed s @ [\<lparr>fs_id = new_id, fs_trade_id = trade_id, fs_fill_id = None,
                fs_retry_count = 0, fs_last_error = err, fs_next_retry_at = next_retry,
                fs_permanently_failed = False\<rparr>]\<rparr>))"

definition record_fill_failure :: "settle_env \<Rightarrow> uuid \<Rightarrow> string \<Rightarrow> unit dbm" where
  "record_fill_failure env fill_id err =
     bindA new_uuid (\<lambda>new_id.
     let next_retry = env_now env + backoff_secs 0 in
     sql_update (\<lambda>s.
       if new_id \<in> fs_trade_id ` set (db_failed s) \<or> new_id \<in> fs_id ` set (db_failed s) then s
       else s\<lparr>db_failed := db_failed s @ [\<lparr>fs_id = new_id, fs_trade_id = new_id, fs_fill_id = Some fill_id,
                fs_retry_count = 0, fs_last_error = err, fs_next_retry_at = next_retry,
                fs_permanently_failed = False\<rparr>]\<rparr>))"

section \<open>Settling an intent\<close>

definition settled_qty :: "uuid \<Rightarrow> pgdb \<Rightarrow> int" where
  "settled_qty intent_id s =
     sum_list (map fi_filled_qty (filter (\<lambda>f. fi_intent_id f = intent_id \<and> fi_settled f) (db_fills s)))"

definition compute_intent_status :: "uuid \<Rightarrow> intent_status settlem" where
  "compute_intent_status intent_id =
     bindA (map_errA SettlementDb (sql_exec (\<lambda>s.
       case find_intent intent_id s of None \<Rightarrow> Inl RowNotFound | Some i \<Rightarrow> Inr (in_amount_in i, s)))) (\<lambda>intent_amount.
     bindA (map_errA SettlementDb (sql_sum (settled_qty intent_id))) (\<lambda>settled.
     bindA (map_errA SettlementDb (sql_query (\<lambda>s. length (filter (\<lambda>f. fi_intent_id f = intent_id) (db_fills s))))) (\<lambda>total_fills.
     if total_fills = 0 then returnA Failed
     else if settled \<ge> intent_amount then returnA Completed
     else if settled > 0 then returnA PartiallyFilled
     else returnA Executing)))"

text \<open>The body of the loop over the unsettled fills.\<close>

definition settle_or_record ::
  "settle_env \<Rightarrow> uuid \<Rightarrow> uuid \<Rightarrow> asset \<Rightarrow> asset \<Rightarrow> f64 \<Rightarrow> fill \<Rightarrow> unit settlem" where
  "settle_or_record env buyer_account_id seller_account_id asset_in asset_out fee_rate fill =
     bindA (tryA (settle_fill env (fi_id fill) buyer_account_id seller_account_id asset_in asset_out fee_rate)) (\<lambda>r.
     case r of
       Inr _ \<Rightarrow> returnA ()
     | Inl AlreadySettled \<Rightarrow> returnA ()
     | Inl e \<Rightarrow> ignoreA (record_fill_failure env (fi_id fill) (settlement_text env e)))"

definition settle_intent_fills ::
  "settle_env \<Rightarrow> uuid \<Rightarrow> uuid \<Rightarrow> uuid \<Rightarrow> asset \<Rightarrow> asset \<Rightarrow> f64 \<Rightarrow> intent_status settlem" where
  "settle_intent_fills env intent_id buyer_account_id seller_account_id asset_in asset_out fee_rate =
     bindA (map_errA SettlementDb (sql_query (\<lambda>s.
       sort_key (\<lambda>f. - fi_price f) (filter (\<lambda>f. fi_intent_id f = intent_id \<and> \<not> fi_settled f) (db_fills s))))) (\<lambda>unsettled.
     seqA (for_eachA (settle_or_record env buyer_account_id seller_account_id asset_in asset_out fee_rate) unsettled)
    (bindA (compute_intent_status intent_id) (\<lambda>status.
     seqA (map_errA SettlementDb (sql_update (set_intent_status intent_id status)))
    (returnA status))))"

section \<open>Single-trade settlement\<close>

definition seller_proceeds :: "trade \<Rightarrow> i64" where
  "seller_proceeds trade = wrap64 (wrap64 (tr_amount_in trade - tr_platform_fee trade) - tr_solver_fee trade)"

definition mark_trade_settled :: "trade \<Rightarrow> timestamp \<Rightarrow> pgdb \<Rightarrow> pgdb" where
  "mark_trade_settled trade now s =
     s\<lparr>db_trades := map (\<lambda>t. if tr_id t = tr_id trade then t\<lparr>tr_status := TradeSettled, tr_settled_at := Some now\<rparr> else t)
                        (db_trades s)\<rparr>"

definition settle_trade_tx :: "settle_env \<Rightarrow> uuid \<Rightarrow> trade settlem" where
  "settle_trade_tx env trade_id =
     bindA (map_errA SettlementDb (sql_query (find_trade trade_id))) (\<lambda>row.
     case row of None \<Rightarrow> raiseA TradeNotFound | Some trade \<Rightarrow>
     if tr_status trade = TradeSettled then raiseA AlreadySettled else
     let now = env_now env; platform_id = platform_account_id;
         buyer = tr_buyer_account_id trade; seller = tr_seller_account_id trade;
         a_in = tr_asset_in trade; a_out = tr_asset_out trade;
         seller_receives = seller_proceeds trade in
     seqA (map_errA (\<lambda>_. SettlementInsufficientBalance) (debit_balance buyer a_in (tr_amount_in trade) now))
    (seqA (map_errA SettlementDb (credit_balance seller a_in seller_receives now))
    (seqA (map_errA SettlementDb (credit_balance buyer a_out (tr_amount_out trade) now))
    (seqA (map_errA (\<lambda>_. SettlementInsufficientBalance) (debit_balance seller a_out (tr_amount_out trade) now))
    (seqA (map_errA SettlementDb (credit_balance platform_id a_in (tr_platform_fee trade) now))
    (seqA (map_errA SettlementDb (credit_balance (tr_solver_account_id trade) a_in (tr_solver_fee trade) now))
    (seqA (map_errA SettlementDb (insert_ledger buyer a_in (tr_amount_in trade) CREDIT TRADE (tr_id trade) now))
    (seqA (map_errA SettlementDb (insert_ledger buyer a_out (tr_amount_out trade) DEBIT TRADE (tr_id trade) now))
    (seqA (map_errA SettlementDb (insert_ledger seller a_in seller_receives DEBIT TRADE (tr_id trade) now))
    (seqA (map_errA SettlementDb (insert_ledger seller a_out (tr_amount_out trade) CREDIT TRADE (tr_id trade) now))
    (seqA (map_errA SettlementDb (insert_ledger platform_id a_in (tr_platform_fee trade) DEBIT FEE (tr_id trade) now))
    (seqA (map_errA SettlementDb
            (insert_ledger (tr_solver_account_id trade) a_in (tr_solver_fee trade) DEBIT FEE (tr_id trade) now))
    (seqA (map_errA SettlementDb (sql_update (mark_trade_settled trade now)))
    (returnA (trade\<lparr>tr_status := TradeSettled, tr_settled_at := Some now\<rparr>)))))))))))))))"

definition settle_trade :: "settle_env \<Rightarrow> uuid \<Rightarrow> trade settlem" where
  "settle_trade env trade_id = in_tx SettlementDb (settle_trade_tx env trade_id)"

definition settle_trade_with_retry :: "settle_env \<Rightarrow> uuid \<Rightarrow> trade settlem" where
  "settle_trade_with_retry env trade_id =
     bindA (tryA (settle_trade env trade_id)) (\<lambda>r.
     case r of
       Inr trade \<Rightarrow> returnA trade
     | Inl AlreadySettled \<Rightarrow> raiseA AlreadySettled
     | Inl e \<Rightarrow> seqA (ignoreA (record_failure env trade_id (settlement_text env e))) (raiseA e))"

section \<open>Effects of the helpers\<close>

text \<open>The helpers implement the interface to the balances table, restricted to the available column.\<close>

lemma find_or_create_balance_eq: "find_or_create_balance = find_or_create"
  by (simp add: find_or_create_balance_def find_or_create_def fun_eq_iff)

lemma write_available_ok:
  assumes "write_available b' s = (Inr (), t)" and wf: "balances_wf s" and b: "find_balance c a s = Some b"
    and id: "bal_id b' = bal_id b"
  shows "moved c a (bal_available_balance b' - bal_available_balance b) 0 s t"
proof -
  have t: "t = tick (update_balances (\<lambda>r. bal_id r = bal_id b')
       (\<lambda>r. r\<lparr>bal_available_balance := bal_available_balance b', bal_updated_at := bal_updated_at b'\<rparr>) s)"
    using assms(1) by (auto simp: write_available_def action_simps)
  show ?thesis unfolding t moved_tick
    using id_selects [OF wf b] id find_balance_SomeD [OF b] by (intro update_row_moved [OF wf b]) auto
qed

lemma write_available_error: "write_available b s = (Inl e, t) \<Longrightarrow> balances_wf s \<Longrightarrow> moved c a 0 0 s t"
  by (intro moved_zero)
    (auto simp: write_available_def sql_update_def sql_exec_def tick_def same_tables_def balances_wf_def split: if_splits)

interpretation tx: balance_store "find_or_create_balance now" write_available for now
proof unfold_locales
  show "moved c a 0 0 s t \<and> find_balance c a t = Some b"
    if "find_or_create_balance now c a s = (Inr b, t)" "balances_wf s" for c a s b t
    using that unfolding find_or_create_balance_eq by (rule repo.load_ok)
  show "moved c a 0 0 s t" if "find_or_create_balance now c a s = (Inl e, t)" "balances_wf s" for c a s e t
    using that unfolding find_or_create_balance_eq by (rule repo.load_error)
  show "moved c a (bal_available_balance b' - bal_available_balance b) 0 s t"
    if "write_available b' s = (Inr (), t)" "balances_wf s" "find_balance c a s = Some b"
      "bal_id b' = bal_id b" "bal_locked_balance b' = bal_locked_balance b" for b' s t c a b
    using that(1-4) by (rule write_available_ok)
  show "moved c a 0 0 s t" if "write_available b' s = (Inl e, t)" "balances_wf s" for b' s e t c a
    using that by (rule write_available_error)
qed

definition solvent :: "pgdb \<Rightarrow> bool" where
  "solvent s \<longleftrightarrow> balances_wf s \<and> all_nonneg s"

lemma available_le_total: "solvent s \<Longrightarrow> available c a s \<le> total_supply a s"
  using row_le_total [of s c a] nonneg_views [of s c a] by (simp add: solvent_def)

lemma credit_balance_ok:
  assumes "credit_balance c a amt now s = (Inr (), t)" and ok: "solvent s"
    and "0 \<le> amt" and "total_supply a s + amt \<le> i64_max"
  shows "moved c a amt 0 s t \<and> solvent t"
proof -
  have wf: "balances_wf s" and nn: "all_nonneg s" using ok by (auto simp: solvent_def)
  obtain b s1 where *: "find_or_create_balance now c a s = (Inr b, s1)"
    "write_available (b\<lparr>bal_available_balance := wrap64 (bal_available_balance b + amt), bal_updated_at := now\<rparr>) s1 = (Inr (), t)"
    using assms(1) by (auto simp: credit_balance_def action_simps)
  have "in_i64 (available c a s + amt)"
    using available_le_total [OF ok, of c a] nonneg_views [OF nn, of c a] assms(3,4) by (simp add: i64_defs)
  then have m: "moved c a amt 0 s t"
    using tx.read_then_write [OF *(1) wf *(2)] tx.load_view(1) [OF *(1) wf] by simp
  then show ?thesis using moved_nonneg [OF m nn] nonneg_views [OF nn, of c a] assms(3) moved_views(4) [OF m]
    by (simp add: solvent_def)
qed

lemma debit_balance_ok:
  assumes "debit_balance c a amt now s = (Inr (), t)" and ok: "solvent s"
    and "0 \<le> amt" and "total_supply a s \<le> i64_max"
  shows "amt \<le> available c a s \<and> moved c a (- amt) 0 s t \<and> solvent t"
proof -
  have wf: "balances_wf s" and nn: "all_nonneg s" using ok by (auto simp: solvent_def)
  obtain b s1 where *: "find_or_create_balance now c a s = (Inr b, s1)" "amt \<le> bal_available_balance b"
    "write_available (b\<lparr>bal_available_balance := wrap64 (bal_available_balance b - amt), bal_updated_at := now\<rparr>) s1 = (Inr (), t)"
    using assms(1) by (auto simp: debit_balance_def action_simps split: if_splits)
  have le: "amt \<le> available c a s" using *(2) tx.load_view(1) [OF *(1) wf] by simp
  then have "in_i64 (available c a s - amt)"
    using available_le_total [OF ok, of c a] assms(3,4) by (simp add: i64_defs)
  then have m: "moved c a (- amt) 0 s t"
    using tx.read_then_write [OF *(1) wf *(3)] tx.load_view(1) [OF *(1) wf] by simp
  then show ?thesis using moved_nonneg [OF m nn] nonneg_views [OF nn, of c a] le moved_views(4) [OF m]
    by (simp add: solvent_def)
qed

lemma unlock_and_debit_ok:
  assumes "unlock_and_debit c a amt now s = (Inr (), t)" and ok: "solvent s"
  shows "amt \<le> locked c a s \<and> moved c a 0 (- amt) s t \<and> solvent t"
proof -
  have wf: "balances_wf s" and nn: "all_nonneg s" using ok by (auto simp: solvent_def)
  obtain n u where u: "add_to_balance c a 0 (- amt) now (\<lambda>b. amt \<le> bal_locked_balance b) s = Inr (n, u)" "n \<noteq> 0" "t = tick u"
    using assms(1) by (auto simp: unlock_and_debit_def action_simps split: if_splits)
  note e = add_to_balance_moved [OF wf u(1,2)]
  then have le: "amt \<le> locked c a s" and m: "moved c a 0 (- amt) s t" using u(3) by (auto simp: locked_def)
  then show ?thesis using moved_nonneg [OF m nn] nonneg_views [OF nn, of c a] moved_views(4) [OF m]
    by (simp add: solvent_def)
qed

lemma insert_ledger_ok:
  assumes "insert_ledger c a amt et rt ref now s = (Inr (), t)"
  shows "\<exists>e. posted [e] s t \<and> (\<forall>k x. entry_value k x e =
      (if k = c \<and> x = a then (if et = DEBIT then amt else - amt) else 0))"
proof -
  obtain n s1 e where n: "new_uuid s = (Inr n, s1)" "ledger_insert e s1 = (Inr (), t)"
    "le_account_id e = c" "le_asset e = a" "le_amount e = amt" "le_entry_type e = et"
    using assms by (auto simp: insert_ledger_def action_simps)
  have "posted [e] s t" using posted_trans [OF new_uuid_posted [OF n(1)] ledger_insert_posted(1) [OF n(2)]] by simp
  then show ?thesis using n by (intro exI [of _ e]) (auto simp: entry_value_def signed_amount_def)
qed

lemma solvent_posted: "posted es s t \<Longrightarrow> solvent s \<Longrightarrow> solvent t"
  by (simp add: solvent_def posted_views)

lemma solvent_tick [simp]: "solvent (tick s) = solvent s"
  by (simp add: solvent_def)

text \<open>
  The effect of a whole settlement on one account and asset, as a sum over the movements and over
  the entries it makes.
\<close>

definition entry_at :: "uuid \<Rightarrow> asset \<Rightarrow> int \<Rightarrow> uuid \<Rightarrow> asset \<Rightarrow> int" where
  "entry_at c a v k x = (if k = c \<and> x = a then v else 0)"

lemma entry_at_views:
  assumes "moved c a d1 d2 s t"
  shows "available k x t = available k x s + entry_at c a d1 k x" "locked k x t = locked k x s + entry_at c a d2 k x"
    "ledger_balance k x t = ledger_balance k x s" "db_fills t = db_fills s" "db_trades t = db_trades s"
    "db_user_accounts t = db_user_accounts s"
  using assms ledger_of_moved [OF assms] by (simp_all add: entry_at_def moved_def same_tables_def)

lemma ledger_at:
  assumes "insert_ledger c a amt et rt ref now s = (Inr (), t)"
  shows "ledger_balance k x t = ledger_balance k x s + entry_at c a (if et = DEBIT then amt else - amt) k x"
    "available k x t = available k x s" "locked k x t = locked k x s" "total_supply x t = total_supply x s"
    "solvent s \<Longrightarrow> solvent t" "db_fills t = db_fills s" "db_trades t = db_trades s"
  using insert_ledger_ok [OF assms] by (auto simp: posted_views entry_at_def intro: solvent_posted)

lemma entry_at_zero [simp]: "entry_at c a 0 k x = 0"
  by (simp add: entry_at_def)

section \<open>Settling a fill\<close>

lemma fill_fees_bounds:
  assumes "fill_fees amount rate = (tf, sf, pf)" and "0 \<le> amount" and "in_i64 amount" and "rate_ok rate"
  shows "0 \<le> tf" "tf \<le> amount" "0 \<le> sf" "0 \<le> pf" "sf + pf = tf" "wrap64 (amount - tf) = amount - tf"
proof -
  have tf: "tf = f64_to_i64 (f64_mult (f64_of_int amount) rate)"
    and sf: "sf = f64_to_i64 (f64_mult (f64_of_int tf) f64_0_3)" and pf: "pf = wrap64 (tf - sf)"
    using assms(1) by (auto simp: fill_fees_def Let_def)
  show t: "0 \<le> tf" "tf \<le> amount" "wrap64 (amount - tf) = amount - tf"
    using split_bounds [OF assms(2-4)] by (simp_all add: tf)
  have "in_i64 tf" by (simp add: tf)
  from split_bounds [OF t(1) this, of f64_0_3] show "0 \<le> sf" "0 \<le> pf" "sf + pf = tf"
    by (simp_all add: sf pf)
qed

lemma when_credit_ok:
  assumes "whenA (0 < amt) (map_errA w (credit_balance c a amt now)) s = (Inr (), t)" and "solvent s"
    and "0 \<le> amt" and "total_supply a s + amt \<le> i64_max"
  shows "moved c a amt 0 s t \<and> solvent t"
proof (cases "0 < amt")
  case True
  then show ?thesis using assms credit_balance_ok [of c a amt now s t] by (simp add: action_simps)
next
  case False
  then show ?thesis using assms by (simp add: action_simps moved_zero solvent_def)
qed

text \<open>The account the solver's fee goes to.\<close>

definition solver_account :: "fill \<Rightarrow> pgdb \<Rightarrow> uuid" where
  "solver_account f s = (case find_user_account (fi_solver_id f) s of None \<Rightarrow> platform_account_id | Some c \<Rightarrow> c)"

lemma when_solver_credit:
  assumes "whenA (0 < sf) (bindA (map_errA SettlementDb (sql_query (find_user_account u))) (\<lambda>acc.
             map_errA SettlementDb (credit_balance (case acc of None \<Rightarrow> p | Some c \<Rightarrow> c) a sf now))) s = (Inr (), t)"
    and "solvent s" and "0 \<le> sf" and "total_supply a s + sf \<le> i64_max"
  shows "moved (case find_user_account u s of None \<Rightarrow> p | Some c \<Rightarrow> c) a sf 0 s t \<and> solvent t"
proof (cases "0 < sf")
  case True
  then have "credit_balance (case find_user_account u s of None \<Rightarrow> p | Some c \<Rightarrow> c) a sf now (tick s) = (Inr (), t)"
    using assms(1) by (simp add: action_simps)
  from credit_balance_ok [OF this] show ?thesis using assms(2-4) by simp
next
  case False
  then show ?thesis using assms by (simp add: action_simps moved_zero solvent_def)
qed

lemma when_insert_ledger:
  assumes "whenA (0 < amt) (map_errA w (insert_ledger c a amt DEBIT rt ref now)) s = (Inr (), t)" and "0 \<le> amt"
  shows "ledger_balance k x t = ledger_balance k x s + entry_at c a amt k x"
    "available k x t = available k x s" "locked k x t = locked k x s" "total_supply x t = total_supply x s"
    "solvent s \<Longrightarrow> solvent t" "db_fills t = db_fills s"
proof -
  have "insert_ledger c a amt DEBIT rt ref now s = (Inr (), t) \<or> amt = 0 \<and> t = s"
    using assms by (auto simp: action_simps split: if_splits)
  then show "ledger_balance k x t = ledger_balance k x s + entry_at c a amt k x"
    "available k x t = available k x s" "locked k x t = locked k x s" "total_supply x t = total_supply x s"
    "solvent s \<Longrightarrow> solvent t" "db_fills t = db_fills s"
    by (auto dest: ledger_at)
qed

text \<open>What a fill's settlement adds to the available column, and what it posts to the ledger.\<close>

definition fill_movement :: "fill \<Rightarrow> uuid \<Rightarrow> uuid \<Rightarrow> asset \<Rightarrow> asset \<Rightarrow> f64 \<Rightarrow> uuid \<Rightarrow> uuid \<Rightarrow> asset \<Rightarrow> int" where
  "fill_movement f buyer seller a_in a_out rate solver k x =
     (case fill_fees (fi_filled_qty f) rate of (tf, sf, pf) \<Rightarrow>
        entry_at seller a_in (fi_filled_qty f - tf) k x + entry_at buyer a_out (fi_qty f) k x
        + entry_at seller a_out (- fi_qty f) k x + entry_at platform_account_id a_in pf k x + entry_at solver a_in sf k x)"

lemma settle_fill_tx_parts:
  assumes run: "settle_fill_tx env fid buyer seller a_in a_out rate s = (Inr (f, sf), t)"
    and fees: "fill_fees (fi_filled_qty f) rate = (tf, sf', pf)"
  obtains s1 s2 s3 s4 s5 s6 s7 s8 s9 s10 s11 s12 where "find_fill fid s = Some f" "\<not> fi_settled f" "sf = sf'"
    "unlock_and_debit buyer a_in (fi_filled_qty f) (env_now env) (tick s) = (Inr (), s1)"
    "credit_balance seller a_in (wrap64 (fi_filled_qty f - tf)) (env_now env) s1 = (Inr (), s2)"
    "credit_balance buyer a_out (fi_qty f) (env_now env) s2 = (Inr (), s3)"
    "debit_balance seller a_out (fi_qty f) (env_now env) s3 = (Inr (), s4)"
    "whenA (0 < pf) (map_errA SettlementDb (credit_balance platform_account_id a_in pf (env_now env))) s4 = (Inr (), s5)"
    "whenA (0 < sf) (bindA (map_errA SettlementDb (sql_query (find_user_account (fi_solver_id f)))) (\<lambda>acc.
       map_errA SettlementDb (credit_balance (case acc of None \<Rightarrow> platform_account_id | Some c \<Rightarrow> c) a_in sf (env_now env)))) s5 = (Inr (), s6)"
    "insert_ledger buyer a_in (fi_filled_qty f) CREDIT TRADE (fi_id f) (env_now env) s6 = (Inr (), s7)"
    "insert_ledger buyer a_out (fi_qty f) DEBIT TRADE (fi_id f) (env_now env) s7 = (Inr (), s8)"
    "insert_ledger seller a_in (wrap64 (fi_filled_qty f - tf)) DEBIT TRADE (fi_id f) (env_now env) s8 = (Inr (), s9)"
    "insert_ledger seller a_out (fi_qty f) CREDIT TRADE (fi_id f) (env_now env) s9 = (Inr (), s10)"
    "whenA (0 < pf) (map_errA SettlementDb (insert_ledger platform_account_id a_in pf DEBIT FEE (fi_id f) (env_now env))) s10 = (Inr (), s11)"
    "whenA (0 < sf) (map_errA SettlementDb (insert_ledger platform_account_id a_in sf DEBIT FEE (fi_id f) (env_now env))) s11 = (Inr (), s12)"
    "t = tick (mark_fill_settled fid (env_now env) s12)"
proof -
  obtain f' where f': "find_fill fid s = Some f'" "\<not> fi_settled f'" "\<not> next_fault s"
    using run by (cases "find_fill fid s") (auto simp: settle_fill_tx_def action_simps split: if_splits)
  obtain tf' sf'' pf' where fees': "fill_fees (fi_filled_qty f') rate = (tf', sf'', pf')" by (metis prod_cases3)
  have "f' = f"
    using run f' fees' by (auto simp: settle_fill_tx_def Let_def bindA_Inr_iff seqA_Inr_iff map_errA_Inr_iff
        sql_query_Inr_iff returnA_iff)
  then show thesis
    using run f' fees that
    by (auto simp: settle_fill_tx_def Let_def bindA_Inr_iff seqA_Inr_iff map_errA_Inr_iff
        sql_query_Inr_iff returnA_iff sql_update_Inr_iff)
qed

text \<open>The six movements of a settlement, from the state after the fill was read to the last credit.\<close>

lemma fill_exchange:
  assumes *: "unlock_and_debit buyer a_in amt now s = (Inr (), s1)"
    "credit_balance seller a_in (amt - tf) now s1 = (Inr (), s2)"
    "credit_balance buyer a_out q now s2 = (Inr (), s3)"
    "debit_balance seller a_out q now s3 = (Inr (), s4)"
    "whenA (0 < pf) (map_errA SettlementDb (credit_balance platform_account_id a_in pf now)) s4 = (Inr (), s5)"
    "whenA (0 < sf) (bindA (map_errA SettlementDb (sql_query (find_user_account u))) (\<lambda>acc.
       map_errA SettlementDb (credit_balance (case acc of None \<Rightarrow> platform_account_id | Some c \<Rightarrow> c) a_in sf now))) s5 = (Inr (), s6)"
    and ok: "solvent s" and room: "\<And>a. total_supply a s + q \<le> i64_max" and q: "0 \<le> q"
    and b: "0 \<le> tf" "tf \<le> amt" "0 \<le> sf" "0 \<le> pf" "sf + pf = tf"
    and solver: "solver = (case find_user_account u s of None \<Rightarrow> platform_account_id | Some c \<Rightarrow> c)"
  shows "amt \<le> locked buyer a_in s" "solvent s6"
    "available k x s6 = available k x s + (entry_at seller a_in (amt - tf) k x + entry_at buyer a_out q k x
       + entry_at seller a_out (- q) k x + entry_at platform_account_id a_in pf k x + entry_at solver a_in sf k x)"
    "locked k x s6 = locked k x s + entry_at buyer a_in (- amt) k x"
    "total_supply x s6 = total_supply x s" "ledger_balance k x s6 = ledger_balance k x s" "db_fills s6 = db_fills s"
proof -
  have T: "total_supply a s \<le> i64_max" for a using room [of a] q by linarith
  have m1: "amt \<le> locked buyer a_in s" "moved buyer a_in 0 (- amt) s s1" "solvent s1"
    using unlock_and_debit_ok [OF *(1)] ok by auto
  show "amt \<le> locked buyer a_in s" by fact
  have t1: "total_supply a s1 = total_supply a s - (if a = a_in then amt else 0)" for a
    using moved_views(3) [OF m1(2), of a] by simp
  have m2: "moved seller a_in (amt - tf) 0 s1 s2" "solvent s2"
    using credit_balance_ok [OF *(2) m1(3)] b T [of a_in] by (auto simp: t1)
  have t2: "total_supply a s2 = total_supply a s - (if a = a_in then tf else 0)" for a
    using moved_views(3) [OF m2(1), of a] by (simp add: t1)
  have "total_supply a_out s2 + q \<le> i64_max" using b(1) room [of a_out] by (auto simp: t2)
  then have m3: "moved buyer a_out q 0 s2 s3" "solvent s3"
    using credit_balance_ok [OF *(3) m2(2) q] by auto
  have t3: "total_supply a s3 = total_supply a s - (if a = a_in then tf else 0) + (if a = a_out then q else 0)" for a
    using moved_views(3) [OF m3(1), of a] by (simp add: t2)
  have "total_supply a_out s3 \<le> i64_max" using b(1) room [of a_out] by (auto simp: t3)
  then have m4: "moved seller a_out (- q) 0 s3 s4" "solvent s4"
    using debit_balance_ok [OF *(4) m3(2) q] by auto
  have t4: "total_supply a s4 = total_supply a s - (if a = a_in then tf else 0)" for a
    using moved_views(3) [OF m4(1), of a] by (simp add: t3)
  have m5: "moved platform_account_id a_in pf 0 s4 s5" "solvent s5"
    using when_credit_ok [OF *(5) m4(2) b(4)] b T [of a_in] by (auto simp: t4)
  have t5: "total_supply a s5 = total_supply a s - (if a = a_in then sf else 0)" for a
    using moved_views(3) [OF m5(1), of a] b(5) by (simp add: t4)
  have "find_user_account u s5 = find_user_account u s"
    using m1 m2 m3 m4 m5 by (simp add: find_user_account_def entry_at_views)
  then have m6: "moved solver a_in sf 0 s5 s6" "solvent s6"
    using when_solver_credit [OF *(6) m5(2) b(3)] b T [of a_in] by (auto simp: t5 solver)
  show "total_supply x s6 = total_supply x s" using moved_views(3) [OF m6(1), of x] by (simp add: t5)
  show "solvent s6" by fact
  note v = entry_at_views [OF m6(1)] entry_at_views [OF m5(1)] entry_at_views [OF m4(1)]
    entry_at_views [OF m3(1)] entry_at_views [OF m2(1)] entry_at_views [OF m1(2)]
  show "available k x s6 = available k x s + (entry_at seller a_in (amt - tf) k x + entry_at buyer a_out q k x
       + entry_at seller a_out (- q) k x + entry_at platform_account_id a_in pf k x + entry_at solver a_in sf k x)"
    "locked k x s6 = locked k x s + entry_at buyer a_in (- amt) k x"
    "ledger_balance k x s6 = ledger_balance k x s" "db_fills s6 = db_fills s" by (simp_all add: v)
qed

lemma mark_fill_settled_views:
  "available k x (mark_fill_settled i now s) = available k x s" "locked k x (mark_fill_settled i now s) = locked k x s"
  "total_supply x (mark_fill_settled i now s) = total_supply x s" "solvent (mark_fill_settled i now s) = solvent s"
  "ledger_balance k x (mark_fill_settled i now s) = ledger_balance k x s"
  by (simp_all add: mark_fill_settled_def available_def locked_def find_balance_def total_supply_def solvent_def
      balances_wf_def all_nonneg_def ledger_balance_def)

lemma ledger_balance_tick [simp]: "ledger_balance k x (tick s) = ledger_balance k x s"
  by (simp add: ledger_balance_def)

lemma settle_fill_tx_effect:
  assumes run: "settle_fill_tx env fid buyer seller a_in a_out rate s = (Inr (f, sf), t)"
    and ok: "solvent s" and room: "\<And>a. total_supply a s + fi_qty f \<le> i64_max"
    and pos: "0 \<le> fi_filled_qty f" "in_i64 (fi_filled_qty f)" "0 \<le> fi_qty f" and rate: "rate_ok rate"
  shows "find_fill fid s = Some f" "\<not> fi_settled f" "fi_filled_qty f \<le> locked buyer a_in s"
    "available k x t = available k x s + fill_movement f buyer seller a_in a_out rate (solver_account f s) k x"
    "locked k x t = locked k x s + entry_at buyer a_in (- fi_filled_qty f) k x"
    "total_supply x t = total_supply x s" "solvent t" "db_fills t = db_fills (mark_fill_settled fid (env_now env) s)"
    "ledger_balance k x t = ledger_balance k x s
       + fill_movement f buyer seller a_in a_out rate platform_account_id k x + entry_at buyer a_in (- fi_filled_qty f) k x"
proof -
  obtain tf sf' pf where fees: "fill_fees (fi_filled_qty f) rate = (tf, sf', pf)" by (metis prod_cases3)
  note b = fill_fees_bounds [OF fees pos(1,2) rate]
  from run fees obtain s1 s2 s3 s4 s5 s6 s7 s8 s9 s10 s11 s12 where p: "find_fill fid s = Some f" "\<not> fi_settled f" "sf = sf'"
    "unlock_and_debit buyer a_in (fi_filled_qty f) (env_now env) (tick s) = (Inr (), s1)"
    "credit_balance seller a_in (wrap64 (fi_filled_qty f - tf)) (env_now env) s1 = (Inr (), s2)"
    "credit_balance buyer a_out (fi_qty f) (env_now env) s2 = (Inr (), s3)"
    "debit_balance seller a_out (fi_qty f) (env_now env) s3 = (Inr (), s4)"
    "whenA (0 < pf) (map_errA SettlementDb (credit_balance platform_account_id a_in pf (env_now env))) s4 = (Inr (), s5)"
    "whenA (0 < sf) (bindA (map_errA SettlementDb (sql_query (find_user_account (fi_solver_id f)))) (\<lambda>acc.
       map_errA SettlementDb (credit_balance (case acc of None \<Rightarrow> platform_account_id | Some c \<Rightarrow> c) a_in sf (env_now env)))) s5 = (Inr (), s6)"
    "insert_ledger buyer a_in (fi_filled_qty f) CREDIT TRADE (fi_id f) (env_now env) s6 = (Inr (), s7)"
    "insert_ledger buyer a_out (fi_qty f) DEBIT TRADE (fi_id f) (env_now env) s7 = (Inr (), s8)"
    "insert_ledger seller a_in (wrap64 (fi_filled_qty f - tf)) DEBIT TRADE (fi_id f) (env_now env) s8 = (Inr (), s9)"
    "insert_ledger seller a_out (fi_qty f) CREDIT TRADE (fi_id f) (env_now env) s9 = (Inr (), s10)"
    "whenA (0 < pf) (map_errA SettlementDb (insert_ledger platform_account_id a_in pf DEBIT FEE (fi_id f) (env_now env))) s10 = (Inr (), s11)"
    "whenA (0 < sf) (map_errA SettlementDb (insert_ledger platform_account_id a_in sf DEBIT FEE (fi_id f) (env_now env))) s11 = (Inr (), s12)"
    and t: "t = tick (mark_fill_settled fid (env_now env) s12)"
    by (rule settle_fill_tx_parts)
  show "find_fill fid s = Some f" "\<not> fi_settled f" by fact+
  have pos': "0 \<le> sf" "0 \<le> pf" "sf + pf = tf" using b p(3) by auto
  have solver: "solver_account f s = (case find_user_account (fi_solver_id f) (tick s) of None \<Rightarrow> platform_account_id | Some c \<Rightarrow> c)"
    by (simp add: solver_account_def)
  note x = fill_exchange [OF p(4) p(5) [unfolded b(6)] p(6-9) _ _ pos(3) b(1,2) pos' solver, unfolded solvent_tick tick_views, OF ok room]
  show "fi_filled_qty f \<le> locked buyer a_in s" by (rule x(1))
  note l = ledger_at [OF p(10)] ledger_at [OF p(11)] ledger_at [OF p(12)] ledger_at [OF p(13)]
    when_insert_ledger [OF p(14) pos'(2)] when_insert_ledger [OF p(15) pos'(1)]
  show "available k x t = available k x s + fill_movement f buyer seller a_in a_out rate (solver_account f s) k x"
    "locked k x t = locked k x s + entry_at buyer a_in (- fi_filled_qty f) k x"
    "total_supply x t = total_supply x s" "solvent t"
    "ledger_balance k x t = ledger_balance k x s
       + fill_movement f buyer seller a_in a_out rate platform_account_id k x + entry_at buyer a_in (- fi_filled_qty f) k x"
    using x(2) by (simp_all add: t mark_fill_settled_views l x(3-6) fill_movement_def fees p(3) b(6))
  show "db_fills t = db_fills (mark_fill_settled fid (env_now env) s)" by (simp add: t mark_fill_settled_def l x(7))
qed

lemma stats_only_views:
  assumes "stats_only s t"
  shows "available k x t = available k x s" "locked k x t = locked k x s" "total_supply x t = total_supply x s"
    "ledger_balance k x t = ledger_balance k x s" "solvent t = solvent s" "db_fills t = db_fills s" "all_nonneg t = all_nonneg s"
    "db_intents t = db_intents s" "db_failed t = db_failed s"
proof -
  obtain r f where t: "t = s\<lparr>db_solver_stats := r, db_faults := f\<rparr>" using assms unfolding stats_only_def by blast
  show "available k x t = available k x s" "locked k x t = locked k x s" "total_supply x t = total_supply x s"
    "ledger_balance k x t = ledger_balance k x s" "solvent t = solvent s" "db_fills t = db_fills s" "all_nonneg t = all_nonneg s"
    "db_intents t = db_intents s" "db_failed t = db_failed s"
    by (simp_all add: t available_def locked_def find_balance_def total_supply_def ledger_balance_def solvent_def
        balances_wf_def all_nonneg_def)
qed

lemma settle_fill_split:
  assumes "settle_fill env fid buyer seller a_in a_out rate s = (Inr (), t)"
  obtains f sf u where "settle_fill_tx env fid buyer seller a_in a_out rate (tick s) = (Inr (f, sf), u)" "stats_only (tick u) t"
proof -
  obtain f sf u where u: "settle_fill_tx env fid buyer seller a_in a_out rate (tick s) = (Inr (f, sf), u)"
    and rest: "((case env_parse_uuid env (fi_solver_id f) of None \<Rightarrow> returnA ()
       | Some sid \<Rightarrow> ignoreA (record_settled_fill sid (fi_filled_qty f) sf (env_latency_ms env) (slippage_bps f))) :: unit settlem)
         (tick u) = (Inr (), t)"
    using assms by (auto simp: settle_fill_def bindA_Inr_iff in_tx_Inr_iff)
  have "stats_only (tick u) t"
  proof (cases "env_parse_uuid env (fi_solver_id f)")
    case None
    then show ?thesis using rest by (simp add: returnA_def)
  next
    case (Some sid)
    then have "t = snd (record_settled_fill sid (fi_filled_qty f) sf (env_latency_ms env) (slippage_bps f) (tick u))"
      using rest by (simp add: ignoreA_iff)
    then show ?thesis using stats_writes_only(1) [of sid "fi_filled_qty f" sf "env_latency_ms env" "slippage_bps f" "tick u"]
      by (metis prod.collapse)
  qed
  then show thesis using that u by blast
qed

lemma settle_fill_error:
  assumes "settle_fill env fid buyer seller a_in a_out rate s = (Inl e, t)"
  shows "in_tx SettlementDb (settle_fill_tx env fid buyer seller a_in a_out rate) s = (Inl e, t)"
  using assms by (auto simp: settle_fill_def bindA_Inl_iff returnA_def ignoreA_def split: option.splits)

lemma solver_account_tick [simp]: "solver_account f (tick s) = solver_account f s"
  by (simp add: solver_account_def find_user_account_def)

section \<open>What settlement leaves alone\<close>

text \<open>Without any assumption on the amounts: the helpers touch balances and the ledger only.\<close>

definition keeps :: "pgdb \<Rightarrow> pgdb \<Rightarrow> bool" where
  "keeps s t \<longleftrightarrow> balances_wf t \<and> db_decodes_numeric t = db_decodes_numeric s \<and> db_intents t = db_intents s \<and>
     db_fills t = db_fills s \<and> db_failed t = db_failed s \<and> db_trades t = db_trades s"

lemma keeps_trans: "keeps s t \<Longrightarrow> keeps t u \<Longrightarrow> keeps s u"
  by (simp add: keeps_def)

lemma keeps_refl: "balances_wf s \<Longrightarrow> keeps s s"
  by (simp add: keeps_def)

lemma keeps_wf: "keeps s t \<Longrightarrow> balances_wf t"
  by (simp add: keeps_def)

lemma keeps_tick [simp]: "keeps (tick s) t = keeps s t" "keeps s (tick t) = keeps s t"
  by (simp_all add: keeps_def)

lemma moved_keeps: "moved c a d1 d2 s t \<Longrightarrow> keeps s t"
  by (simp add: moved_def keeps_def same_tables_def)

lemma posted_keeps: "posted es s t \<Longrightarrow> balances_wf s \<Longrightarrow> keeps s t"
  using posted_views(6) [of es s t] by (simp add: posted_def keeps_def same_tables_def)

lemma helpers_keep:
  assumes "balances_wf s"
  shows "credit_balance c a amt now s = (Inr (), t) \<Longrightarrow> keeps s t"
    "debit_balance c a amt now s = (Inr (), t) \<Longrightarrow> keeps s t"
    "unlock_and_debit c a amt now s = (Inr (), t) \<Longrightarrow> keeps s t"
    "insert_ledger c a amt et rt ref now s = (Inr (), t) \<Longrightarrow> keeps s t"
proof -
  show "keeps s t" if "credit_balance c a amt now s = (Inr (), t)"
    using that assms by (auto simp: credit_balance_def action_simps dest!: tx.read_then_write intro: moved_keeps)
  show "keeps s t" if "debit_balance c a amt now s = (Inr (), t)"
    using that assms by (auto simp: debit_balance_def action_simps dest!: tx.read_then_write intro: moved_keeps split: if_splits)
  show "keeps s t" if "unlock_and_debit c a amt now s = (Inr (), t)"
    using that assms by (auto simp: unlock_and_debit_def action_simps dest!: add_to_balance_moved intro: moved_keeps split: if_splits)
  show "keeps s t" if "insert_ledger c a amt et rt ref now s = (Inr (), t)"
    using insert_ledger_ok [OF that] assms by (auto intro: posted_keeps)
qed

lemma when_keeps:
  assumes "whenA b m s = (Inr (), t)" and "balances_wf s" and "\<And>t. m s = (Inr (), t) \<Longrightarrow> keeps s t"
  shows "keeps s t"
  using assms by (auto simp: whenA_Inr_iff keeps_refl split: if_splits)

lemma settle_fill_tx_keeps:
  assumes run: "settle_fill_tx env fid buyer seller a_in a_out rate s = (Inr (f, sf), t)" and wf: "balances_wf s"
  shows "find_fill fid s = Some f \<and> \<not> fi_settled f \<and> (\<exists>u. keeps s u \<and> t = tick (mark_fill_settled fid (env_now env) u))"
proof -
  obtain tf sf' pf where fees: "fill_fees (fi_filled_qty f) rate = (tf, sf', pf)" by (metis prod_cases3)
  from run fees obtain s1 s2 s3 s4 s5 s6 s7 s8 s9 s10 s11 s12 where p: "find_fill fid s = Some f" "\<not> fi_settled f" "sf = sf'"
    "unlock_and_debit buyer a_in (fi_filled_qty f) (env_now env) (tick s) = (Inr (), s1)"
    "credit_balance seller a_in (wrap64 (fi_filled_qty f - tf)) (env_now env) s1 = (Inr (), s2)"
    "credit_balance buyer a_out (fi_qty f) (env_now env) s2 = (Inr (), s3)"
    "debit_balance seller a_out (fi_qty f) (env_now env) s3 = (Inr (), s4)"
    "whenA (0 < pf) (map_errA SettlementDb (credit_balance platform_account_id a_in pf (env_now env))) s4 = (Inr (), s5)"
    "whenA (0 < sf) (bindA (map_errA SettlementDb (sql_query (find_user_account (fi_solver_id f)))) (\<lambda>acc.
       map_errA SettlementDb (credit_balance (case acc of None \<Rightarrow> platform_account_id | Some c \<Rightarrow> c) a_in sf (env_now env)))) s5 = (Inr (), s6)"
    "insert_ledger buyer a_in (fi_filled_qty f) CREDIT TRADE (fi_id f) (env_now env) s6 = (Inr (), s7)"
    "insert_ledger buyer a_out (fi_qty f) DEBIT TRADE (fi_id f) (env_now env) s7 = (Inr (), s8)"
    "insert_ledger seller a_in (wrap64 (fi_filled_qty f - tf)) DEBIT TRADE (fi_id f) (env_now env) s8 = (Inr (), s9)"
    "insert_ledger seller a_out (fi_qty f) CREDIT TRADE (fi_id f) (env_now env) s9 = (Inr (), s10)"
    "whenA (0 < pf) (map_errA SettlementDb (insert_ledger platform_account_id a_in pf DEBIT FEE (fi_id f) (env_now env))) s10 = (Inr (), s11)"
    "whenA (0 < sf) (map_errA SettlementDb (insert_ledger platform_account_id a_in sf DEBIT FEE (fi_id f) (env_now env))) s11 = (Inr (), s12)"
    and t: "t = tick (mark_fill_settled fid (env_now env) s12)"
    by (rule settle_fill_tx_parts)
  have k1: "keeps s s1" using helpers_keep(3) [OF _ p(4)] wf by simp
  have k2: "keeps s s2" by (rule keeps_trans [OF k1 helpers_keep(1) [OF keeps_wf [OF k1] p(5)]])
  have k3: "keeps s s3" by (rule keeps_trans [OF k2 helpers_keep(1) [OF keeps_wf [OF k2] p(6)]])
  have k4: "keeps s s4" by (rule keeps_trans [OF k3 helpers_keep(2) [OF keeps_wf [OF k3] p(7)]])
  have k5: "keeps s s5" using keeps_trans [OF k4 when_keeps [OF p(8) keeps_wf [OF k4]]] helpers_keep(1) [OF keeps_wf [OF k4]]
    by (simp add: map_errA_Inr_iff)
  have k6: "keeps s s6" using keeps_trans [OF k5 when_keeps [OF p(9) keeps_wf [OF k5]]] helpers_keep(1) [of "tick s5"] keeps_wf [OF k5]
    by (simp add: map_errA_Inr_iff bindA_Inr_iff sql_query_Inr_iff) blast
  have k7: "keeps s s7" by (rule keeps_trans [OF k6 helpers_keep(4) [OF keeps_wf [OF k6] p(10)]])
  have k8: "keeps s s8" by (rule keeps_trans [OF k7 helpers_keep(4) [OF keeps_wf [OF k7] p(11)]])
  have k9: "keeps s s9" by (rule keeps_trans [OF k8 helpers_keep(4) [OF keeps_wf [OF k8] p(12)]])
  have k10: "keeps s s10" by (rule keeps_trans [OF k9 helpers_keep(4) [OF keeps_wf [OF k9] p(13)]])
  have k11: "keeps s s11" using keeps_trans [OF k10 when_keeps [OF p(14) keeps_wf [OF k10]]] helpers_keep(4) [OF keeps_wf [OF k10]]
    by (simp add: map_errA_Inr_iff)
  have "keeps s s12" using keeps_trans [OF k11 when_keeps [OF p(15) keeps_wf [OF k11]]] helpers_keep(4) [OF keeps_wf [OF k11]]
    by (simp add: map_errA_Inr_iff)
  then show ?thesis using p(1,2) t by blast
qed

text \<open>Every outcome of \<open>settle_fill\<close>: either the fill was unsettled and is now, or no table changed.\<close>

lemma settle_fill_outcome:
  assumes "settle_fill env fid buyer seller a_in a_out rate s = (r, t)" and wf: "balances_wf s"
  shows "balances_wf t \<and> db_decodes_numeric t = db_decodes_numeric s \<and> db_intents t = db_intents s \<and> db_failed t = db_failed s \<and>
    (case r of
       Inr _ \<Rightarrow> (\<exists>f. find_fill fid s = Some f \<and> \<not> fi_settled f) \<and> db_fills t = db_fills (mark_fill_settled fid (env_now env) s)
     | Inl e \<Rightarrow> \<exists>q. t = s\<lparr>db_faults := q\<rparr>)"
proof (cases r)
  case (Inl e)
  then obtain q where "t = s\<lparr>db_faults := q\<rparr>"
    using in_tx_atomic [OF settle_fill_error] assms(1) by fastforce
  then show ?thesis using Inl wf by (auto simp: balances_wf_def)
next
  case (Inr x)
  then have "settle_fill env fid buyer seller a_in a_out rate s = (Inr (), t)" using assms(1) by simp
  then obtain f sf u where u: "settle_fill_tx env fid buyer seller a_in a_out rate (tick s) = (Inr (f, sf), u)"
    and st: "stats_only (tick u) t" by (rule settle_fill_split)
  obtain v where v: "find_fill fid s = Some f" "\<not> fi_settled f" "keeps s v" "u = tick (mark_fill_settled fid (env_now env) v)"
    using settle_fill_tx_keeps [OF u] wf by auto
  obtain rows q where "t = (tick u)\<lparr>db_solver_stats := rows, db_faults := q\<rparr>" using st unfolding stats_only_def by blast
  then show ?thesis using Inr v by (auto simp: keeps_def mark_fill_settled_def balances_wf_def)
qed

lemma record_fill_failure_keeps:
  assumes "record_fill_failure env fid err s = (r, t)" and "balances_wf s"
  shows "balances_wf t \<and> db_decodes_numeric t = db_decodes_numeric s \<and> db_intents t = db_intents s \<and>
    db_fills t = db_fills s \<and> db_balances t = db_balances s"
  using assms unfolding record_fill_failure_def
  by (auto simp: db_evals balances_wf_def less_SucI split: if_splits)

text \<open>One iteration of the loop over an intent's fills.\<close>

lemma settle_iteration_keeps:
  assumes "settle_or_record env buyer seller a_in a_out rate fill s = (r, t)"
    and "balances_wf s \<and> db_decodes_numeric s = d \<and> db_intents s = is"
  shows "balances_wf t \<and> db_decodes_numeric t = d \<and> db_intents t = is"
proof -
  obtain q u where q: "settle_fill env (fi_id fill) buyer seller a_in a_out rate s = (q, u)" by fastforce
  have u: "balances_wf u" "db_decodes_numeric u = d" "db_intents u = is"
    using settle_fill_outcome [OF q] assms(2) by auto
  have "t = u \<or> (\<exists>e. t = snd (record_fill_failure env (fi_id fill) e u))"
    using assms(1) q
    by (auto simp: settle_or_record_def bindA_def tryA_def ignoreA_def returnA_def split: sum.splits settlement_error.splits)
  then show ?thesis using u record_fill_failure_keeps [of env "fi_id fill" _ u] by (metis prod.collapse)
qed

lemma find_set_intent_status:
  "find_intent i (set_intent_status i st s) = map_option (\<lambda>x. x\<lparr>in_status := st\<rparr>) (find_intent i s)"
proof -
  have "List.find (\<lambda>x. in_id x = i) (map (\<lambda>x. if in_id x = i then x\<lparr>in_status := st\<rparr> else x) xs) =
      map_option (\<lambda>x. x\<lparr>in_status := st\<rparr>) (List.find (\<lambda>x. in_id x = i) xs)" for xs
    by (induction xs) auto
  then show ?thesis by (simp add: find_intent_def set_intent_status_def)
qed

lemma set_intent_status_fills [simp]:
  "db_fills (set_intent_status i st s) = db_fills s" "settled_qty k (set_intent_status i st s) = settled_qty k s"
  by (simp_all add: set_intent_status_def settled_qty_def)

lemma settled_qty_tick [simp]: "settled_qty i (tick s) = settled_qty i s"
  by (simp add: settled_qty_def)

definition status_for :: "int \<Rightarrow> int \<Rightarrow> nat \<Rightarrow> intent_status" where
  "status_for amount settled fills =
     (if fills = 0 then Failed else if settled \<ge> amount then Completed
      else if settled > 0 then PartiallyFilled else Executing)"

lemma compute_intent_status_ok:
  assumes "compute_intent_status i s = (Inr st, t)"
  shows "db_decodes_numeric s \<and> (\<exists>x. find_intent i s = Some x \<and>
      st = status_for (in_amount_in x) (settled_qty i s) (length (filter (\<lambda>f. fi_intent_id f = i) (db_fills s)))) \<and>
     db_fills t = db_fills s \<and> db_intents t = db_intents s"
  using assms
  by (auto simp: compute_intent_status_def action_simps settled_qty_def find_intent_def status_for_def
      split: option.splits if_splits)

section \<open>Settling a trade\<close>

lemma settle_trade_tx_parts:
  assumes run: "settle_trade_tx env i s = (Inr tr, t)"
  obtains x s1 s2 s3 s4 s5 s6 s7 s8 s9 s10 s11 s12 where "find_trade i s = Some x" "tr_status x \<noteq> TradeSettled"
    "debit_balance (tr_buyer_account_id x) (tr_asset_in x) (tr_amount_in x) (env_now env) (tick s) = (Inr (), s1)"
    "credit_balance (tr_seller_account_id x) (tr_asset_in x) (seller_proceeds x) (env_now env) s1 = (Inr (), s2)"
    "credit_balance (tr_buyer_account_id x) (tr_asset_out x) (tr_amount_out x) (env_now env) s2 = (Inr (), s3)"
    "debit_balance (tr_seller_account_id x) (tr_asset_out x) (tr_amount_out x) (env_now env) s3 = (Inr (), s4)"
    "credit_balance platform_account_id (tr_asset_in x) (tr_platform_fee x) (env_now env) s4 = (Inr (), s5)"
    "credit_balance (tr_solver_account_id x) (tr_asset_in x) (tr_solver_fee x) (env_now env) s5 = (Inr (), s6)"
    "insert_ledger (tr_buyer_account_id x) (tr_asset_in x) (tr_amount_in x) CREDIT TRADE (tr_id x) (env_now env) s6 = (Inr (), s7)"
    "insert_ledger (tr_buyer_account_id x) (tr_asset_out x) (tr_amount_out x) DEBIT TRADE (tr_id x) (env_now env) s7 = (Inr (), s8)"
    "insert_ledger (tr_seller_account_id x) (tr_asset_in x) (seller_proceeds x) DEBIT TRADE (tr_id x) (env_now env) s8 = (Inr (), s9)"
    "insert_ledger (tr_seller_account_id x) (tr_asset_out x) (tr_amount_out x) CREDIT TRADE (tr_id x) (env_now env) s9 = (Inr (), s10)"
    "insert_ledger platform_account_id (tr_asset_in x) (tr_platform_fee x) DEBIT FEE (tr_id x) (env_now env) s10 = (Inr (), s11)"
    "insert_ledger (tr_solver_account_id x) (tr_asset_in x) (tr_solver_fee x) DEBIT FEE (tr_id x) (env_now env) s11 = (Inr (), s12)"
    "t = tick (mark_trade_settled x (env_now env) s12)"
proof -
  obtain x where x: "find_trade i s = Some x" "tr_status x \<noteq> TradeSettled" "\<not> next_fault s"
    using run by (cases "find_trade i s") (auto simp: settle_trade_tx_def action_simps split: if_splits)
  then show thesis
    using run that
    by (auto simp: settle_trade_tx_def Let_def bindA_Inr_iff seqA_Inr_iff map_errA_Inr_iff sql_query_Inr_iff returnA_iff sql_update_Inr_iff)
qed

lemma settle_trade_tx_keeps:
  assumes run: "settle_trade_tx env i s = (Inr tr, t)" and wf: "balances_wf s"
  shows "balances_wf t \<and> db_failed t = db_failed s"
proof -
  from run obtain x s1 s2 s3 s4 s5 s6 s7 s8 s9 s10 s11 s12 where p: "find_trade i s = Some x" "tr_status x \<noteq> TradeSettled"
    "debit_balance (tr_buyer_account_id x) (tr_asset_in x) (tr_amount_in x) (env_now env) (tick s) = (Inr (), s1)"
    "credit_balance (tr_seller_account_id x) (tr_asset_in x) (seller_proceeds x) (env_now env) s1 = (Inr (), s2)"
    "credit_balance (tr_buyer_account_id x) (tr_asset_out x) (tr_amount_out x) (env_now env) s2 = (Inr (), s3)"
    "debit_balance (tr_seller_account_id x) (tr_asset_out x) (tr_amount_out x) (env_now env) s3 = (Inr (), s4)"
    "credit_balance platform_account_id (tr_asset_in x) (tr_platform_fee x) (env_now env) s4 = (Inr (), s5)"
    "credit_balance (tr_solver_account_id x) (tr_asset_in x) (tr_solver_fee x) (env_now env) s5 = (Inr (), s6)"
    "insert_ledger (tr_buyer_account_id x) (tr_asset_in x) (tr_amount_in x) CREDIT TRADE (tr_id x) (env_now env) s6 = (Inr (), s7)"
    "insert_ledger (tr_buyer_account_id x) (tr_asset_out x) (tr_amount_out x) DEBIT TRADE (tr_id x) (env_now env) s7 = (Inr (), s8)"
    "insert_ledger (tr_seller_account_id x) (tr_asset_in x) (seller_proceeds x) DEBIT TRADE (tr_id x) (env_now env) s8 = (Inr (), s9)"
    "insert_ledger (tr_seller_account_id x) (tr_asset_out x) (tr_amount_out x) CREDIT TRADE (tr_id x) (env_now env) s9 = (Inr (), s10)"
    "insert_ledger platform_account_id (tr_asset_in x) (tr_platform_fee x) DEBIT FEE (tr_id x) (env_now env) s10 = (Inr (), s11)"
    "insert_ledger (tr_solver_account_id x) (tr_asset_in x) (tr_solver_fee x) DEBIT FEE (tr_id x) (env_now env) s11 = (Inr (), s12)"
    "t = tick (mark_trade_settled x (env_now env) s12)"
    by (rule settle_trade_tx_parts)
  have k1: "keeps s s1" using helpers_keep(2) [OF _ p(3)] wf by simp
  have k2: "keeps s s2" by (rule keeps_trans [OF k1 helpers_keep(1) [OF keeps_wf [OF k1] p(4)]])
  have k3: "keeps s s3" by (rule keeps_trans [OF k2 helpers_keep(1) [OF keeps_wf [OF k2] p(5)]])
  have k4: "keeps s s4" by (rule keeps_trans [OF k3 helpers_keep(2) [OF keeps_wf [OF k3] p(6)]])
  have k5: "keeps s s5" by (rule keeps_trans [OF k4 helpers_keep(1) [OF keeps_wf [OF k4] p(7)]])
  have k6: "keeps s s6" by (rule keeps_trans [OF k5 helpers_keep(1) [OF keeps_wf [OF k5] p(8)]])
  have k7: "keeps s s7" by (rule keeps_trans [OF k6 helpers_keep(4) [OF keeps_wf [OF k6] p(9)]])
  have k8: "keeps s s8" by (rule keeps_trans [OF k7 helpers_keep(4) [OF keeps_wf [OF k7] p(10)]])
  have k9: "keeps s s9" by (rule keeps_trans [OF k8 helpers_keep(4) [OF keeps_wf [OF k8] p(11)]])
  have k10: "keeps s s10" by (rule keeps_trans [OF k9 helpers_keep(4) [OF keeps_wf [OF k9] p(12)]])
  have k11: "keeps s s11" by (rule keeps_trans [OF k10 helpers_keep(4) [OF keeps_wf [OF k10] p(13)]])
  have "keeps s s12" by (rule keeps_trans [OF k11 helpers_keep(4) [OF keeps_wf [OF k11] p(14)]])
  then show ?thesis using p(15) by (simp add: keeps_def balances_wf_def mark_trade_settled_def)
qed

lemma settle_trade_keeps:
  assumes "settle_trade env i s = (r, t)" and "balances_wf s"
  shows "balances_wf t \<and> db_failed t = db_failed s"
proof (cases r)
  case (Inl e)
  then obtain q where "t = s\<lparr>db_faults := q\<rparr>" 
    using in_tx_atomic [of SettlementDb "settle_trade_tx env i" s e t] assms(1) unfolding settle_trade_def by auto
  then show ?thesis using assms(2) by (simp add: balances_wf_def)
next
  case (Inr x)
  then obtain u where "settle_trade_tx env i (tick s) = (Inr x, u)" "t = tick u"
    using assms(1) by (auto simp: settle_trade_def in_tx_Inr_iff)
  then show ?thesis using settle_trade_tx_keeps [of env i "tick s" x u] assms(2) by simp
qed

section \<open>Properties\<close>

definition sample_fill :: fill where
  "sample_fill = \<lparr>fi_id = 7, fi_intent_id = 3, fi_solver_id = ''carol'', fi_price = 20, fi_qty = 20, fi_filled_qty = 10000,
     fi_tx_hash = [], fi_timestamp = 0, fi_settled = False, fi_settled_at = None\<rparr>"

definition sample_env :: settle_env where
  "sample_env = \<lparr>env_now = 9, env_latency_ms = 1, env_parse_uuid = (\<lambda>_. None), env_db_text = (\<lambda>_. ''db'')\<rparr>"

text \<open>The buyer (10) has locked its USDC, the seller (20) holds ETH, the solver's account is 30.\<close>

definition settle_db :: pgdb where
  "settle_db = sample_db\<lparr>db_accounts := [1, 10, 20, 30], db_user_accounts := [(''carol'', 30)],
     db_balances := [\<lparr>bal_id = 2, bal_account_id = 10, bal_asset = USDC, bal_available_balance = 0, bal_locked_balance = 10000, bal_updated_at = 0\<rparr>,
       \<lparr>bal_id = 3, bal_account_id = 20, bal_asset = ETH, bal_available_balance = 50, bal_locked_balance = 0, bal_updated_at = 0\<rparr>],
     db_fills := [sample_fill]\<rparr>"

lemma sample_fees: "fill_fees 10000 f64_0_001 = (10, 3, 7)"
proof -
  have "f64_to_i64 (f64_mult (f64_of_int 10000) f64_0_001) = 10" "f64_to_i64 (f64_mult (f64_of_int 10) f64_0_3) = 3"
    by (simp_all add: f64_evals)
  then show ?thesis by (simp add: fill_fees_def Let_def wrap64_def)
qed

lemma settle_db_facts:
  "solvent settle_db" "total_supply a settle_db + 20 \<le> i64_max" "find_fill 7 settle_db = Some sample_fill"
  "available 20 ETH settle_db = 50" "available 20 USDC settle_db = 0" "locked 10 USDC settle_db = 10000"
  "solver_account sample_fill settle_db = 30" "available platform_account_id USDC settle_db = 0" "available 30 USDC settle_db = 0"
  by (simp_all add: settle_db_def sample_db_def sample_fill_def solvent_def balances_wf_def balance_key_def all_nonneg_def
      total_supply_def holding_def i64_max_def find_fill_def available_def locked_def find_balance_def solver_account_def
      find_user_account_def platform_account_id_def)

lemma sample_fill_fields [simp]:
  "fi_filled_qty sample_fill = 10000" "fi_qty sample_fill = 20" "fi_solver_id sample_fill = ''carol''"
  by (simp_all add: sample_fill_def)

lemma settle_db_runs: "\<exists>t. settle_fill sample_env 7 10 20 USDC ETH f64_0_001 settle_db = (Inr (), t)"
  by (simp add: settle_fill_def settle_fill_tx_def settle_db_def sample_fill_def sample_env_def sample_fees balances_evals
      unlock_and_debit_def credit_balance_def debit_balance_def insert_ledger_def write_available_def find_or_create_balance_def
      add_to_balance_def mark_fill_settled_def find_fill_def find_user_account_def platform_account_id_def i64_defs)

text \<open>
  C9. Settling a fill moves exactly what it should: when \<open>settle_fill\<close> succeeds in a state with
  non-negative balances and room in the \<open>i64\<close> range, for a fill with non-negative quantities and a fee
  rate between zero and 7/8, the fill was unsettled and the buyer had locked its quantity; then for
  every account and asset the available column changes by the proceeds of the seller, the bought
  quantity of the buyer and the fees of platform and solver, the locked column by the buyer's filled
  quantity; the total of every asset is unchanged, no balance is negative, and the fill is settled.
\<close>

theorem settle_fill_exact:
  assumes "settle_fill env fid buyer seller a_in a_out rate s = (Inr (), t)" and "find_fill fid s = Some f"
    and "solvent s" and "\<And>a. total_supply a s + fi_qty f \<le> i64_max"
    and "0 \<le> fi_filled_qty f" and "in_i64 (fi_filled_qty f)" and "0 \<le> fi_qty f" and "rate_ok rate"
  shows "\<not> fi_settled f \<and> fi_filled_qty f \<le> locked buyer a_in s \<and>
    (\<forall>k x. available k x t = available k x s + fill_movement f buyer seller a_in a_out rate (solver_account f s) k x) \<and>
    (\<forall>k x. locked k x t = locked k x s - entry_at buyer a_in (fi_filled_qty f) k x) \<and>
    (\<forall>x. total_supply x t = total_supply x s) \<and> all_nonneg t \<and>
    db_fills t = db_fills (mark_fill_settled fid (env_now env) s)"
proof -
  obtain f' sf u where u: "settle_fill_tx env fid buyer seller a_in a_out rate (tick s) = (Inr (f', sf), u)"
    and st: "stats_only (tick u) t" using assms(1) by (rule settle_fill_split)
  have "f' = f" using u assms(2)
    by (auto simp: settle_fill_tx_def Let_def bindA_Inr_iff seqA_Inr_iff map_errA_Inr_iff sql_query_Inr_iff returnA_iff raiseA_iff
        split: if_splits prod.splits)
  then have "solvent (tick s)" "\<And>a. total_supply a (tick s) + fi_qty f' \<le> i64_max" "0 \<le> fi_filled_qty f'"
    "in_i64 (fi_filled_qty f')" "0 \<le> fi_qty f'" using assms(3-7) by simp_all
  note e = settle_fill_tx_effect [OF u this assms(8)]
  show ?thesis using e(2-8) \<open>f' = f\<close>
    by (simp add: stats_only_views [OF st] entry_at_def solvent_def mark_fill_settled_def)
qed

theorem settle_fill_exact_witness:
  "\<exists>t. settle_fill sample_env 7 10 20 USDC ETH f64_0_001 settle_db = (Inr (), t) \<and>
     available 20 USDC t = 9990 \<and> available 20 ETH t = 30 \<and> available 30 USDC t = 3 \<and> available platform_account_id USDC t = 7 \<and>
     locked 10 USDC t = 0"
proof -
  obtain t where run: "settle_fill sample_env 7 10 20 USDC ETH f64_0_001 settle_db = (Inr (), t)"
    using settle_db_runs by blast
  have pre: "\<And>a. total_supply a settle_db + fi_qty sample_fill \<le> i64_max" "0 \<le> fi_filled_qty sample_fill"
    "in_i64 (fi_filled_qty sample_fill)" "0 \<le> fi_qty sample_fill"
    using settle_db_facts(2) by (simp_all add: i64_defs)
  note e = settle_fill_exact [OF run settle_db_facts(3,1) pre rate_ok_literals(3)]
  have "fill_movement sample_fill 10 20 USDC ETH f64_0_001 30 k x =
      entry_at 20 USDC 9990 k x + entry_at 10 ETH 20 k x + entry_at 20 ETH (- 20) k x
      + entry_at platform_account_id USDC 7 k x + entry_at 30 USDC 3 k x" for k x
    by (simp add: fill_movement_def sample_fees)
  moreover have "platform_account_id \<noteq> 20" "platform_account_id \<noteq> 30" "platform_account_id \<noteq> 10"
    by (simp_all add: platform_account_id_def)
  ultimately show ?thesis using run e by (simp add: settle_db_facts entry_at_def)
qed

text \<open>
  The ledger follows the balances, up to the solver's fee: a settled fill changes the ledger
  balance of every account by exactly the change of its available plus locked funds, except that the
  fee credited to the solver's account is posted to the platform's account.
\<close>

theorem settle_fill_ledger:
  assumes "settle_fill env fid buyer seller a_in a_out rate s = (Inr (), t)" and "find_fill fid s = Some f"
    and "solvent s" and "\<And>a. total_supply a s + fi_qty f \<le> i64_max"
    and "0 \<le> fi_filled_qty f" and "in_i64 (fi_filled_qty f)" and "0 \<le> fi_qty f" and "rate_ok rate"
  shows "\<exists>sf. sf = fst (snd (fill_fees (fi_filled_qty f) rate)) \<and>
    (\<forall>k x. ledger_balance k x t - ledger_balance k x s =
       (available k x t + locked k x t) - (available k x s + locked k x s)
       + entry_at platform_account_id a_in sf k x - entry_at (solver_account f s) a_in sf k x)"
proof -
  obtain f' sf u where u: "settle_fill_tx env fid buyer seller a_in a_out rate (tick s) = (Inr (f', sf), u)"
    and st: "stats_only (tick u) t" using assms(1) by (rule settle_fill_split)
  have "f' = f" using u assms(2)
    by (auto simp: settle_fill_tx_def Let_def bindA_Inr_iff seqA_Inr_iff map_errA_Inr_iff sql_query_Inr_iff returnA_iff raiseA_iff
        split: if_splits prod.splits)
  then have "solvent (tick s)" "\<And>a. total_supply a (tick s) + fi_qty f' \<le> i64_max" "0 \<le> fi_filled_qty f'"
    "in_i64 (fi_filled_qty f')" "0 \<le> fi_qty f'" using assms(3-7) by simp_all
  note e = settle_fill_tx_effect [OF u this assms(8)]
  show ?thesis using e(4,5,9) \<open>f' = f\<close>
    by (simp add: stats_only_views [OF st] fill_movement_def entry_at_def split: prod.splits)
qed

theorem settle_fill_ledger_witness:
  "\<exists>t. settle_fill sample_env 7 10 20 USDC ETH f64_0_001 settle_db = (Inr (), t) \<and>
     available 30 USDC t + locked 30 USDC t = 3 \<and> ledger_balance 30 USDC t = 0"
proof -
  obtain t where run: "settle_fill sample_env 7 10 20 USDC ETH f64_0_001 settle_db = (Inr (), t)"
    using settle_db_runs by blast
  have pre: "\<And>a. total_supply a settle_db + fi_qty sample_fill \<le> i64_max" "0 \<le> fi_filled_qty sample_fill"
    "in_i64 (fi_filled_qty sample_fill)" "0 \<le> fi_qty sample_fill"
    using settle_db_facts(2) by (simp_all add: i64_defs)
  have "available 30 USDC t + locked 30 USDC t = 3"
    using run by (auto simp: settle_fill_def settle_fill_tx_def settle_db_def sample_fill_def sample_env_def sample_fees balances_evals
      unlock_and_debit_def credit_balance_def debit_balance_def insert_ledger_def write_available_def find_or_create_balance_def
      add_to_balance_def mark_fill_settled_def find_fill_def find_user_account_def platform_account_id_def i64_defs available_def locked_def)
  moreover have "available 30 USDC settle_db = 0" "locked 30 USDC settle_db = 0" "ledger_balance 30 USDC settle_db = 0"
    by (simp_all add: settle_db_def sample_db_def available_def locked_def find_balance_def ledger_balance_def)
  moreover have "fst (snd (fill_fees (fi_filled_qty sample_fill) f64_0_001)) = 3" by (simp add: sample_fees)
  moreover have "\<forall>k x. ledger_balance k x t - ledger_balance k x settle_db =
       (available k x t + locked k x t) - (available k x settle_db + locked k x settle_db)
       + entry_at platform_account_id USDC 3 k x - entry_at 30 USDC 3 k x"
    using settle_fill_ledger [OF run settle_db_facts(3,1) pre rate_ok_literals(3)]
    by (simp add: sample_fees settle_db_facts)
  from this [rule_format, of 30 USDC]
  have "ledger_balance 30 USDC t - ledger_balance 30 USDC settle_db =
       (available 30 USDC t + locked 30 USDC t) - (available 30 USDC settle_db + locked 30 USDC settle_db) - 3"
    by (simp add: entry_at_def platform_account_id_def)
  ultimately show ?thesis using run by (intro exI [of _ t]) simp
qed

text \<open>
  C10. Settlement is all or nothing and happens once: a call that succeeds found the fill unsettled
  and leaves it marked as settled; a call that fails, for whatever reason and at whatever statement,
  leaves every table as it was; and a call on a settled fill always fails, with the error that says so
  unless the database itself fails first.
\<close>

theorem settle_fill_all_or_nothing:
  assumes "settle_fill env fid buyer seller a_in a_out rate s = (r, t)" and "balances_wf s"
  shows "(r = Inr () \<and> (\<exists>f. find_fill fid s = Some f \<and> \<not> fi_settled f) \<and>
            db_fills t = db_fills (mark_fill_settled fid (env_now env) s)) \<or>
         (\<exists>e q. r = Inl e \<and> t = s\<lparr>db_faults := q\<rparr> \<and>
            ((\<exists>f. find_fill fid s = Some f \<and> fi_settled f) \<longrightarrow> e = AlreadySettled \<or> e = SettlementDb Io))"
proof (cases r)
  case (Inr x)
  then show ?thesis using settle_fill_outcome [OF assms] by simp
next
  case (Inl e)
  have "e = AlreadySettled \<or> e = SettlementDb Io" if "find_fill fid s = Some f" "fi_settled f" for f
  proof -
    have "in_tx SettlementDb (settle_fill_tx env fid buyer seller a_in a_out rate) s = (Inl e, t)"
      using settle_fill_error assms(1) Inl by blast
    then show ?thesis using that
      by (auto simp: in_tx_def transaction_def seqA_def bindA_def map_errA_def sql_query_def settle_fill_tx_def raiseA_def
          split: if_splits)
  qed
  then show ?thesis using settle_fill_outcome [OF assms] Inl by auto
qed

theorem settle_fill_all_or_nothing_witness:
  "\<exists>t r u. settle_fill sample_env 7 10 20 USDC ETH f64_0_001 settle_db = (Inr (), t) \<and>
     settle_fill sample_env 7 10 20 USDC ETH f64_0_001 t = (r, u) \<and>
     (\<exists>e q. r = Inl e \<and> u = t\<lparr>db_faults := q\<rparr> \<and> (e = AlreadySettled \<or> e = SettlementDb Io))"
proof -
  have wf: "balances_wf settle_db" using settle_db_facts(1) by (simp add: solvent_def)
  obtain t where run: "settle_fill sample_env 7 10 20 USDC ETH f64_0_001 settle_db = (Inr (), t)"
    using settle_db_runs by blast
  have wt: "balances_wf t" using settle_fill_outcome [OF run wf] by simp
  have "db_fills t = db_fills (mark_fill_settled 7 9 settle_db)"
    using settle_fill_all_or_nothing [OF run wf] by (simp add: sample_env_def)
  then have "\<exists>f. find_fill 7 t = Some f \<and> fi_settled f"
    by (simp add: find_fill_def mark_fill_settled_def settle_db_def sample_fill_def)
  moreover obtain r u where again: "settle_fill sample_env 7 10 20 USDC ETH f64_0_001 t = (r, u)" by fastforce
  ultimately show ?thesis using settle_fill_all_or_nothing [OF again wt] run again by auto
qed

text \<open>
  Settling an intent ends with the right status: when \<open>settle_intent_fills\<close> returns a status, the
  intent's row carries it and it is \<open>Failed\<close> for an intent without fills, \<open>Completed\<close> when the settled
  quantity reaches the intent's amount, \<open>PartiallyFilled\<close> when something but not enough is settled and
  \<open>Executing\<close> otherwise, for the fills as the loop left them. It can only return one if the driver
  decodes the sum of a \<open>BIGINT\<close> column, a \<open>NUMERIC\<close>, as \<open>i64\<close>: otherwise every call ends in an error after
  the fills were settled, and the status stays what it was.
\<close>

theorem settle_intent_status:
  assumes "settle_intent_fills env i buyer seller a_in a_out rate s = (r, t)" and "balances_wf s"
  shows "(\<forall>st. r = Inr st \<longrightarrow> db_decodes_numeric s \<and>
      (\<exists>x. find_intent i s = Some x \<and> find_intent i t = Some (x\<lparr>in_status := st\<rparr>) \<and>
        st = status_for (in_amount_in x) (settled_qty i t) (length (filter (\<lambda>f. fi_intent_id f = i) (db_fills t))))) \<and>
    (\<not> db_decodes_numeric s \<longrightarrow> (\<exists>e. r = Inl e))"
proof -
  have main: "db_decodes_numeric s \<and> (\<exists>x. find_intent i s = Some x \<and> find_intent i t = Some (x\<lparr>in_status := st\<rparr>) \<and>
        st = status_for (in_amount_in x) (settled_qty i t) (length (filter (\<lambda>f. fi_intent_id f = i) (db_fills t))))"
    if r: "r = Inr st" for st
  proof -
    obtain fs u v where u: "for_eachA (settle_or_record env buyer seller a_in a_out rate) fs (tick s) = (Inr (), u)" and v: "compute_intent_status i u = (Inr st, v)"
      and t: "t = tick (set_intent_status i st v)"
      using assms(1) r by (auto simp: settle_intent_fills_def action_simps)
    have "balances_wf u \<and> db_decodes_numeric u = db_decodes_numeric s \<and> db_intents u = db_intents s"
      by (rule for_eachA_keeps [where I = "\<lambda>x. balances_wf x \<and> db_decodes_numeric x = db_decodes_numeric s \<and> db_intents x = db_intents s",
            OF settle_iteration_keeps u]) (use assms(2) in auto)
    moreover from this have "settled_qty i v = settled_qty i u" "find_intent i v = find_intent i u" "find_intent i u = find_intent i s"
      using compute_intent_status_ok [OF v] by (simp_all add: settled_qty_def find_intent_def)
    ultimately show ?thesis using compute_intent_status_ok [OF v]
      by (auto simp: t find_set_intent_status)
  qed
  then show ?thesis by (cases r) auto
qed

definition sample_intent :: intent where
  "sample_intent = (Intent_new 3 0 ''alice'' ''USDC'' ''ETH'' 10000 10 99)"

theorem settle_intent_status_witness:
  "\<exists>e t. settle_intent_fills sample_env 3 10 20 USDC ETH f64_0_001 (sample_db\<lparr>db_intents := [sample_intent]\<rparr>) = (Inl e, t)"
proof -
  let ?s = "sample_db\<lparr>db_intents := [sample_intent]\<rparr>"
  have wf: "balances_wf ?s" and d: "\<not> db_decodes_numeric ?s" by (simp_all add: balances_wf_def sample_db_def)
  obtain r t where run: "settle_intent_fills sample_env 3 10 20 USDC ETH f64_0_001 ?s = (r, t)" by fastforce
  then show ?thesis using settle_intent_status [OF run wf] d by blast
qed

text \<open>
  A trade is settled exactly: when \<open>settle_trade\<close> succeeds in a state with non-negative balances
  and room in the \<open>i64\<close> range, for a trade with non-negative amounts and fees that do not exceed what
  the buyer pays, the buyer had the amount, every account's available column changes by what the trade
  says, locked funds and the total of every asset are unchanged, no balance is negative, and the
  ledger balance of every account changes by exactly as much as its funds.
\<close>

theorem settle_trade_exact:
  assumes "settle_trade env i s = (Inr tr, t)" and "find_trade i s = Some x" and "solvent s"
    and room: "\<And>a. total_supply a s + tr_amount_out x \<le> i64_max"
    and pos: "0 \<le> tr_amount_in x" "in_i64 (tr_amount_in x)" "0 \<le> tr_amount_out x" "0 \<le> tr_platform_fee x" "0 \<le> tr_solver_fee x"
      "tr_platform_fee x + tr_solver_fee x \<le> tr_amount_in x"
  shows "tr_status x \<noteq> TradeSettled \<and> tr = x\<lparr>tr_status := TradeSettled, tr_settled_at := Some (env_now env)\<rparr> \<and>
    tr_amount_in x \<le> available (tr_buyer_account_id x) (tr_asset_in x) s \<and>
    (\<forall>k y. available k y t = available k y s
       + entry_at (tr_buyer_account_id x) (tr_asset_in x) (- tr_amount_in x) k y
       + entry_at (tr_seller_account_id x) (tr_asset_in x) (tr_amount_in x - tr_platform_fee x - tr_solver_fee x) k y
       + entry_at (tr_buyer_account_id x) (tr_asset_out x) (tr_amount_out x) k y
       + entry_at (tr_seller_account_id x) (tr_asset_out x) (- tr_amount_out x) k y
       + entry_at platform_account_id (tr_asset_in x) (tr_platform_fee x) k y
       + entry_at (tr_solver_account_id x) (tr_asset_in x) (tr_solver_fee x) k y) \<and>
    (\<forall>k y. locked k y t = locked k y s) \<and> (\<forall>y. total_supply y t = total_supply y s) \<and> all_nonneg t \<and>
    (\<forall>k y. ledger_balance k y t - ledger_balance k y s = available k y t - available k y s)"
proof -
  obtain u where u: "settle_trade_tx env i (tick s) = (Inr tr, u)" "t = tick u"
    using assms(1) by (auto simp: settle_trade_def in_tx_Inr_iff)
  have "tr = x\<lparr>tr_status := TradeSettled, tr_settled_at := Some (env_now env)\<rparr>"
    using u(1) assms(2) by (auto simp: settle_trade_tx_def Let_def action_simps find_trade_def split: if_splits)
  from u(1) obtain x' s1 s2 s3 s4 s5 s6 s7 s8 s9 s10 s11 s12 where p: "find_trade i (tick s) = Some x'" "tr_status x' \<noteq> TradeSettled"
    "debit_balance (tr_buyer_account_id x') (tr_asset_in x') (tr_amount_in x') (env_now env) (tick (tick s)) = (Inr (), s1)"
    "credit_balance (tr_seller_account_id x') (tr_asset_in x') (seller_proceeds x') (env_now env) s1 = (Inr (), s2)"
    "credit_balance (tr_buyer_account_id x') (tr_asset_out x') (tr_amount_out x') (env_now env) s2 = (Inr (), s3)"
    "debit_balance (tr_seller_account_id x') (tr_asset_out x') (tr_amount_out x') (env_now env) s3 = (Inr (), s4)"
    "credit_balance platform_account_id (tr_asset_in x') (tr_platform_fee x') (env_now env) s4 = (Inr (), s5)"
    "credit_balance (tr_solver_account_id x') (tr_asset_in x') (tr_solver_fee x') (env_now env) s5 = (Inr (), s6)"
    "insert_ledger (tr_buyer_account_id x') (tr_asset_in x') (tr_amount_in x') CREDIT TRADE (tr_id x') (env_now env) s6 = (Inr (), s7)"
    "insert_ledger (tr_buyer_account_id x') (tr_asset_out x') (tr_amount_out x') DEBIT TRADE (tr_id x') (env_now env) s7 = (Inr (), s8)"
    "insert_ledger (tr_seller_account_id x') (tr_asset_in x') (seller_proceeds x') DEBIT TRADE (tr_id x') (env_now env) s8 = (Inr (), s9)"
    "insert_ledger (tr_seller_account_id x') (tr_asset_out x') (tr_amount_out x') CREDIT TRADE (tr_id x') (env_now env) s9 = (Inr (), s10)"
    "insert_ledger platform_account_id (tr_asset_in x') (tr_platform_fee x') DEBIT FEE (tr_id x') (env_now env) s10 = (Inr (), s11)"
    "insert_ledger (tr_solver_account_id x') (tr_asset_in x') (tr_solver_fee x') DEBIT FEE (tr_id x') (env_now env) s11 = (Inr (), s12)"
    "u = tick (mark_trade_settled x' (env_now env) s12)"
    by (rule settle_trade_tx_parts)
  have "x' = x" using p(1) assms(2) by (simp add: find_trade_def)
  note p = p [unfolded \<open>x' = x\<close>]
  let ?f = "tr_platform_fee x + tr_solver_fee x"
  have recv: "seller_proceeds x = tr_amount_in x - ?f"
  proof -
    have "in_i64 (tr_amount_in x - tr_platform_fee x)" "in_i64 (tr_amount_in x - ?f)" using pos by (simp_all add: i64_defs)
    then show ?thesis by (simp add: seller_proceeds_def diff_diff_eq)
  qed
  have T: "total_supply a s \<le> i64_max" for a using room [of a] pos(3) by linarith
  have m1: "tr_amount_in x \<le> available (tr_buyer_account_id x) (tr_asset_in x) s"
    "moved (tr_buyer_account_id x) (tr_asset_in x) (- tr_amount_in x) 0 s s1" "solvent s1"
    using debit_balance_ok [OF p(3)] assms(3) pos(1) T by auto
  have t1: "total_supply a s1 = total_supply a s - (if a = tr_asset_in x then tr_amount_in x else 0)" for a
    using moved_views(3) [OF m1(2), of a] by simp
  have m2: "moved (tr_seller_account_id x) (tr_asset_in x) (tr_amount_in x - ?f) 0 s1 s2" "solvent s2"
    using credit_balance_ok [OF p(4) m1(3)] pos T [of "tr_asset_in x"] by (auto simp: t1 recv)
  have t2: "total_supply a s2 = total_supply a s - (if a = tr_asset_in x then ?f else 0)" for a
    using moved_views(3) [OF m2(1), of a] by (simp add: t1)
  have "total_supply (tr_asset_out x) s2 + tr_amount_out x \<le> i64_max" using pos room [of "tr_asset_out x"] by (auto simp: t2)
  then have m3: "moved (tr_buyer_account_id x) (tr_asset_out x) (tr_amount_out x) 0 s2 s3" "solvent s3"
    using credit_balance_ok [OF p(5) m2(2) pos(3)] by auto
  have t3: "total_supply a s3 = total_supply a s - (if a = tr_asset_in x then ?f else 0) + (if a = tr_asset_out x then tr_amount_out x else 0)" for a
    using moved_views(3) [OF m3(1), of a] by (simp add: t2)
  have "total_supply (tr_asset_out x) s3 \<le> i64_max" using pos room [of "tr_asset_out x"] by (auto simp: t3)
  then have m4: "moved (tr_seller_account_id x) (tr_asset_out x) (- tr_amount_out x) 0 s3 s4" "solvent s4"
    using debit_balance_ok [OF p(6) m3(2) pos(3)] by auto
  have t4: "total_supply a s4 = total_supply a s - (if a = tr_asset_in x then ?f else 0)" for a
    using moved_views(3) [OF m4(1), of a] by (simp add: t3)
  have m5: "moved platform_account_id (tr_asset_in x) (tr_platform_fee x) 0 s4 s5" "solvent s5"
    using credit_balance_ok [OF p(7) m4(2) pos(4)] pos T [of "tr_asset_in x"] by (auto simp: t4)
  have t5: "total_supply a s5 = total_supply a s - (if a = tr_asset_in x then tr_solver_fee x else 0)" for a
    using moved_views(3) [OF m5(1), of a] by (simp add: t4)
  have m6: "moved (tr_solver_account_id x) (tr_asset_in x) (tr_solver_fee x) 0 s5 s6" "solvent s6"
    using credit_balance_ok [OF p(8) m5(2) pos(5)] T [of "tr_asset_in x"] by (auto simp: t5)
  have t6: "total_supply a s6 = total_supply a s" for a using moved_views(3) [OF m6(1), of a] by (simp add: t5)
  note v = entry_at_views [OF m6(1)] entry_at_views [OF m5(1)] entry_at_views [OF m4(1)]
    entry_at_views [OF m3(1)] entry_at_views [OF m2(1)] entry_at_views [OF m1(2)]
  note l = ledger_at [OF p(9)] ledger_at [OF p(10)] ledger_at [OF p(11)] ledger_at [OF p(12)] ledger_at [OF p(13)] ledger_at [OF p(14)]
  have w: "available k y t = available k y s12" "locked k y t = locked k y s12" "total_supply y t = total_supply y s12"
    "all_nonneg t = all_nonneg s12" "ledger_balance k y t = ledger_balance k y s12" for k y
    by (simp_all add: u(2) p(15) mark_trade_settled_def available_def locked_def find_balance_def total_supply_def
        all_nonneg_def ledger_balance_def)
  have "all_nonneg s12" using m6(2) l by (simp add: solvent_def)
  moreover have "tr_status x \<noteq> TradeSettled" by (rule p(2))
  ultimately show ?thesis using m1(1) \<open>tr = _\<close>
    by (simp add: w l v t6 recv algebra_simps)
qed

definition trade_db :: pgdb where
  "trade_db = sample_db\<lparr>db_balances := [\<lparr>bal_id = 2, bal_account_id = 10, bal_asset = USDC, bal_available_balance = 10000, bal_locked_balance = 0, bal_updated_at = 0\<rparr>,
       \<lparr>bal_id = 3, bal_account_id = 20, bal_asset = ETH, bal_available_balance = 50, bal_locked_balance = 0, bal_updated_at = 0\<rparr>],
     db_trades := [sample_trade\<lparr>tr_platform_fee := 7, tr_solver_fee := 3\<rparr>]\<rparr>"

theorem settle_trade_exact_witness:
  "\<exists>tr t. settle_trade sample_env 7 trade_db = (Inr tr, t) \<and> available 20 USDC t = 9990 \<and> available 20 ETH t = 49"
proof -
  let ?x = "sample_trade\<lparr>tr_platform_fee := 7, tr_solver_fee := 3\<rparr>"
  have "\<exists>tr t. settle_trade sample_env 7 trade_db = (Inr tr, t)"
    by (simp add: settle_trade_def settle_trade_tx_def trade_db_def sample_trade_def sample_env_def balances_evals find_trade_def
      credit_balance_def debit_balance_def insert_ledger_def write_available_def find_or_create_balance_def
      mark_trade_settled_def seller_proceeds_def platform_account_id_def)
  then obtain tr t where run: "settle_trade sample_env 7 trade_db = (Inr tr, t)" by blast
  have f: "find_trade 7 trade_db = Some ?x" "solvent trade_db" "\<And>a. total_supply a trade_db + tr_amount_out ?x \<le> i64_max"
    by (simp_all add: trade_db_def sample_trade_def find_trade_def solvent_def balances_wf_def balance_key_def sample_db_def
        all_nonneg_def total_supply_def holding_def i64_max_def)
  have "available 20 USDC trade_db = 0" "available 20 ETH trade_db = 50"
    by (simp_all add: trade_db_def available_def find_balance_def)
  then show ?thesis using run settle_trade_exact [OF run f(1,2) f(3)]
    by (simp add: sample_trade_def entry_at_def platform_account_id_def i64_defs)
qed

end
