(* ===== verification/Settlement_Worker.thy ===== *)
theory Settlement_Worker
  imports Settlement
begin

text \<open>
  The two background workers of settlement: the retry worker of src/settlement/retry.rs, which
  picks up recorded failures with an exponential delay, and the consumer of execution events of
  src/settlement/worker.rs. One cycle of the retry worker is \<open>process_retries\<close>; the event loop
  delivers an event at least once to \<open>process_event\<close>, whose payload is the decoded event, if the
  JSON text decodes. Events published to the stream are returned.
\<close>

definition MAX_RETRIES :: int where "MAX_RETRIES = 5"

section \<open>The retry worker\<close>

definition update_failed :: "uuid \<Rightarrow> (failed_settlement \<Rightarrow> failed_settlement) \<Rightarrow> pgdb \<Rightarrow> pgdb" where
  "update_failed i f s = s\<lparr>db_failed := map (\<lambda>r. if fs_id r = i then f r else r) (db_failed s)\<rparr>"

definition delete_failed :: "uuid \<Rightarrow> unit dbm" where
  "delete_failed i = sql_update (\<lambda>s. s\<lparr>db_failed := filter (\<lambda>r. fs_id r \<noteq> i) (db_failed s)\<rparr>)"

definition handle_retry_failure :: "settle_env \<Rightarrow> failed_settlement \<Rightarrow> int \<Rightarrow> string \<Rightarrow> unit dbm" where
  "handle_retry_failure env entry attempt error_msg =
     (if attempt \<ge> MAX_RETRIES then
        sql_update (update_failed (fs_id entry) (\<lambda>r.
          r\<lparr>fs_retry_count := attempt, fs_last_error := error_msg, fs_permanently_failed := True\<rparr>))
      else
        let next = env_now env + backoff_secs attempt in
        sql_update (update_failed (fs_id entry) (\<lambda>r.
          r\<lparr>fs_retry_count := attempt, fs_last_error := error_msg, fs_next_retry_at := next\<rparr>)))"

definition retry_trade :: "settle_env \<Rightarrow> failed_settlement \<Rightarrow> int \<Rightarrow> unit dbm" where
  "retry_trade env entry attempt =
     bindA (tryA (settle_trade env (fs_trade_id entry))) (\<lambda>r.
     case r of
       Inr _ \<Rightarrow> delete_failed (fs_id entry)
     | Inl AlreadySettled \<Rightarrow> delete_failed (fs_id entry)
     | Inl e \<Rightarrow> handle_retry_failure env entry attempt (settlement_text env e))"

definition retry_fill :: "settle_env \<Rightarrow> failed_settlement \<Rightarrow> uuid \<Rightarrow> int \<Rightarrow> unit dbm" where
  "retry_fill env entry fill_id attempt =
     bindA (sql_query (\<lambda>s. case find_fill fill_id s of None \<Rightarrow> False
         | Some f \<Rightarrow> find_intent (fi_intent_id f) s \<noteq> None)) (\<lambda>fill_ctx.
     if \<not> fill_ctx then delete_failed (fs_id entry)
     else
       bindA (sql_query (\<lambda>s. case find_fill fill_id s of None \<Rightarrow> True | Some f \<Rightarrow> fi_settled f)) (\<lambda>settled.
       if settled then delete_failed (fs_id entry)
       else handle_retry_failure env entry attempt ''fill retry requires execution context''))"

definition process_entry :: "settle_env \<Rightarrow> failed_settlement \<Rightarrow> unit dbm" where
  "process_entry env entry =
     (let attempt = fs_retry_count entry + 1 in
      case fs_fill_id entry of
        Some fill_id \<Rightarrow> retry_fill env entry fill_id attempt
      | None \<Rightarrow> retry_trade env entry attempt)"

definition pending_retries :: "timestamp \<Rightarrow> pgdb \<Rightarrow> failed_settlement list" where
  "pending_retries now s =
     take 50 (sort_key fs_next_retry_at
       (filter (\<lambda>r. \<not> fs_permanently_failed r \<and> fs_next_retry_at r \<le> now) (db_failed s)))"

definition process_retries :: "settle_env \<Rightarrow> unit dbm" where
  "process_retries env =
     bindA (sql_query (pending_retries (env_now env))) (\<lambda>pending.
     if pending = [] then returnA () else for_eachA (process_entry env) pending)"

section \<open>The event consumer\<close>

record execution_completed_event =
  ece_execution_id :: uuid
  ece_fill_id :: uuid
  ece_intent_id :: uuid
  ece_solver_id :: string
  ece_buyer_account_id :: uuid
  ece_seller_account_id :: uuid
  ece_token_in :: string
  ece_token_out :: string
  ece_fee_rate :: f64

record intent_settled_event =
  ise_intent_id :: uuid
  ise_settled_qty :: i64
  ise_status :: intent_status

text \<open>Every error is swallowed; the result is the event to publish, if any.\<close>

definition update_intent_status :: "uuid \<Rightarrow> (pgdb, unit, intent_settled_event option) action" where
  "update_intent_status intent_id =
     bindA (tryA (sql_query (\<lambda>s. map_option in_amount_in (find_intent intent_id s)))) (\<lambda>amount.
     case amount of
       Inr (Some intent_amount) \<Rightarrow>
         bindA (tryA (sql_sum (settled_qty intent_id))) (\<lambda>q.
         let settled = (case q of Inr v \<Rightarrow> v | Inl _ \<Rightarrow> 0) in
         if settled \<ge> intent_amount \<or> settled > 0 then
           let new_status = (if settled \<ge> intent_amount then Completed else PartiallyFilled) in
           seqA (ignoreA (sql_update (set_intent_status intent_id new_status)))
           (returnA (Some \<lparr>ise_intent_id = intent_id, ise_settled_qty = settled, ise_status = new_status\<rparr>))
         else returnA None)
     | _ \<Rightarrow> returnA None)"

definition process_event ::
  "settle_env \<Rightarrow> execution_completed_event option \<Rightarrow> (pgdb, unit, intent_settled_event option) action" where
  "process_event env payload =
     (case payload of None \<Rightarrow> returnA None | Some event \<Rightarrow>
     (case parse_asset (ece_token_in event) of None \<Rightarrow> returnA None | Some asset_in \<Rightarrow>
     (case parse_asset (ece_token_out event) of None \<Rightarrow> returnA None | Some asset_out \<Rightarrow>
      bindA (tryA (settle_fill env (ece_fill_id event) (ece_buyer_account_id event) (ece_seller_account_id event)
                     asset_in asset_out (ece_fee_rate event))) (\<lambda>r.
      case r of
        Inr _ \<Rightarrow> update_intent_status (ece_intent_id event)
      | Inl AlreadySettled \<Rightarrow> update_intent_status (ece_intent_id event)
      | Inl e \<Rightarrow>
          seqA (ignoreA (record_fill_failure env (ece_fill_id event) (settlement_text env e)))
         (seqA (case env_parse_uuid env (ece_solver_id event) of
                  None \<Rightarrow> returnA () | Some sid \<Rightarrow> ignoreA (record_failed_fill sid))
         (returnA None))))))"

section \<open>Bounded retries\<close>

text \<open>
  The retry count of a recorded failure never exceeds the limit, and a failure that reached it is
  marked as permanent, so that the worker never picks it up again.
\<close>

definition retries_ok :: "pgdb \<Rightarrow> bool" where
  "retries_ok s \<longleftrightarrow> balances_wf s \<and>
     (\<forall>r\<in>set (db_failed s). 0 \<le> fs_retry_count r \<and> fs_retry_count r \<le> MAX_RETRIES \<and>
        (fs_retry_count r = MAX_RETRIES \<longrightarrow> fs_permanently_failed r))"

inductive retry_step :: "pgdb \<Rightarrow> pgdb \<Rightarrow> bool" where
  cycle: "process_retries env s = (r, t) \<Longrightarrow> retry_step s t"
| trade_failed: "record_failure env i e s = (r, t) \<Longrightarrow> retry_step s t"
| fill_failed: "record_fill_failure env i e s = (r, t) \<Longrightarrow> retry_step s t"

definition retry_start :: "pgdb \<Rightarrow> bool" where
  "retry_start s \<longleftrightarrow> balances_wf s \<and> db_failed s = []"

lemma delete_failed_ok: "delete_failed i s = (r, t) \<Longrightarrow> retries_ok s \<Longrightarrow> retries_ok t"
  by (auto simp: delete_failed_def db_evals retries_ok_def balances_wf_def split: if_splits)

lemma handle_retry_failure_ok:
  "handle_retry_failure env e att m s = (r, t) \<Longrightarrow> retries_ok s \<Longrightarrow> 0 \<le> att \<Longrightarrow> att \<le> MAX_RETRIES \<Longrightarrow> retries_ok t"
  by (auto simp: handle_retry_failure_def update_failed_def db_evals retries_ok_def balances_wf_def split: if_splits)

lemma retries_ok_tick [simp]: "retries_ok (tick s) = retries_ok s"
  by (simp add: retries_ok_def)

lemma retry_trade_ok:
  assumes "retry_trade env e att s = (r, t)" and "retries_ok s" and "0 \<le> att" and "att \<le> MAX_RETRIES"
  shows "retries_ok t"
proof -
  obtain q u where q: "settle_trade env (fs_trade_id e) s = (q, u)" by fastforce
  have u: "retries_ok u" using settle_trade_keeps [OF q] assms(2) by (simp add: retries_ok_def)
  have "delete_failed (fs_id e) u = (r, t) \<or> (\<exists>m. handle_retry_failure env e att m u = (r, t))"
    using assms(1) q by (auto simp: retry_trade_def bindA_def tryA_def split: sum.splits settlement_error.splits)
  then show ?thesis using u assms(3,4) delete_failed_ok handle_retry_failure_ok by blast
qed

lemma retry_fill_ok:
  assumes "retry_fill env e fid att s = (r, t)" and "retries_ok s" and "0 \<le> att" and "att \<le> MAX_RETRIES"
  shows "retries_ok t"
proof -
  have "(\<exists>u. (u = tick s \<or> u = tick (tick s)) \<and>
      (delete_failed (fs_id e) u = (r, t) \<or> handle_retry_failure env e att ''fill retry requires execution context'' u = (r, t))) \<or>
      t = tick s \<or> t = tick (tick s)"
    using assms(1) by (auto simp: retry_fill_def bindA_def sql_query_def split: if_splits)
  then show ?thesis using assms(2-4) delete_failed_ok handle_retry_failure_ok by (metis retries_ok_tick)
qed

lemma process_entry_ok:
  assumes "process_entry env e s = (r, t)" and "retries_ok s" and "0 \<le> fs_retry_count e" and "fs_retry_count e < MAX_RETRIES"
  shows "retries_ok t"
  using assms retry_trade_ok [of env e "fs_retry_count e + 1" s r t] retry_fill_ok [of env e _ "fs_retry_count e + 1" s r t]
  by (auto simp: process_entry_def Let_def split: option.splits)

lemma process_retries_ok:
  assumes "process_retries env s = (r, t)" and ok: "retries_ok s"
  shows "retries_ok t"
proof -
  have "set (take n (sort_key f xs)) \<subseteq> set xs" for n :: nat and f :: "failed_settlement \<Rightarrow> int" and xs
    using set_take_subset [of n "sort_key f xs"] by simp
  then have pend: "0 \<le> fs_retry_count e \<and> fs_retry_count e < MAX_RETRIES" if "e \<in> set (pending_retries (env_now env) s)" for e
    using that ok unfolding pending_retries_def retries_ok_def
    by (metis (no_types, lifting) mem_Collect_eq order_le_less set_filter subset_iff)
  have "t = tick s \<or> for_eachA (process_entry env) (pending_retries (env_now env) s) (tick s) = (r, t)"
    using assms(1) by (auto simp: process_retries_def bindA_def sql_query_def returnA_def split: if_splits)
  then show ?thesis
  proof
    assume loop: "for_eachA (process_entry env) (pending_retries (env_now env) s) (tick s) = (r, t)"
    show ?thesis
      by (rule for_eachA_keeps [where I = retries_ok, OF _ loop]) (use ok pend process_entry_ok in auto)
  qed (simp add: ok)
qed

interpretation retries: transition_system retry_start retry_step retries_ok
proof unfold_locales
  show "retries_ok s" if "retry_start s" for s using that by (simp add: retry_start_def retries_ok_def)
  show "retries_ok t" if "retry_step s t" "retries_ok s" for s t
    using that(1)
  proof cases
    case cycle
    then show ?thesis using that(2) by (blast intro: process_retries_ok)
  next
    case trade_failed
    then show ?thesis using that(2)
      by (auto simp: record_failure_def db_evals retries_ok_def balances_wf_def less_SucI MAX_RETRIES_def split: if_splits)
  next
    case fill_failed
    then show ?thesis using that(2)
      by (auto simp: record_fill_failure_def db_evals retries_ok_def balances_wf_def less_SucI MAX_RETRIES_def split: if_splits)
  qed
qed

section \<open>What the consumer leaves alone\<close>

definition same_books :: "pgdb \<Rightarrow> pgdb \<Rightarrow> bool" where
  "same_books s t \<longleftrightarrow> db_balances t = db_balances s \<and> db_ledger t = db_ledger s \<and> db_fills t = db_fills s"

lemma same_books_trans: "same_books s t \<Longrightarrow> same_books t u \<Longrightarrow> same_books s u"
  by (simp add: same_books_def)

lemma update_intent_status_books: "update_intent_status i s = (r, t) \<Longrightarrow> same_books s t"
  unfolding update_intent_status_def same_books_def
  by (auto simp: db_evals set_intent_status_def split: if_splits option.splits sum.splits prod.splits)

lemma record_fill_failure_books: "same_books s (snd (record_fill_failure env i m s))"
  by (auto simp: record_fill_failure_def same_books_def db_evals)

lemma stats_only_books: "stats_only s t \<Longrightarrow> same_books s t"
proof -
  assume "stats_only s t"
  then obtain rows f where "t = s\<lparr>db_solver_stats := rows, db_faults := f\<rparr>" unfolding stats_only_def by blast
  then show "same_books s t" by (simp add: same_books_def)
qed

lemma record_failed_fill_books: "same_books s (snd (record_failed_fill i s))"
  using stats_only_books [OF stats_writes_only(2)] by (metis prod.collapse)

section \<open>Properties\<close>

definition failed_entry :: failed_settlement where
  "failed_entry = \<lparr>fs_id = 100, fs_trade_id = 100, fs_fill_id = Some 7, fs_retry_count = 0, fs_last_error = ''x'',
     fs_next_retry_at = 19, fs_permanently_failed = False\<rparr>"

lemma sample_fill_failure:
  "record_fill_failure sample_env 7 ''x'' settle_db = (Inr (), settle_db\<lparr>db_failed := [failed_entry], db_next_uuid := 101\<rparr>)"
  by (simp add: record_fill_failure_def settle_db_def sample_db_def sample_env_def failed_entry_def db_evals backoff_secs_def wrap64_def)

text \<open>
  Retries are bounded: whatever failures are recorded and however often the retry worker runs,
  the retry count of every recorded failure stays between zero and five, a failure that reached five is
  marked as permanent, and the worker only ever picks up failures with a count below five.
\<close>

theorem retries_are_bounded:
  assumes "retry_start s" and "retry_step\<^sup>*\<^sup>* s t"
  shows "(\<forall>r\<in>set (db_failed t). 0 \<le> fs_retry_count r \<and> fs_retry_count r \<le> 5 \<and> (fs_retry_count r = 5 \<longrightarrow> fs_permanently_failed r)) \<and>
    (\<forall>now. \<forall>r\<in>set (pending_retries now t). fs_retry_count r < 5)"
proof -
  have ok: "\<forall>r\<in>set (db_failed t). 0 \<le> fs_retry_count r \<and> fs_retry_count r \<le> 5 \<and> (fs_retry_count r = 5 \<longrightarrow> fs_permanently_failed r)"
    using retries.reachable_invar [OF assms] by (simp add: retries_ok_def MAX_RETRIES_def)
  have "fs_retry_count r < 5" if "r \<in> set (pending_retries now t)" for now r
  proof -
    have "r \<in> set (filter (\<lambda>r. \<not> fs_permanently_failed r \<and> fs_next_retry_at r \<le> now) (db_failed t))"
      using that unfolding pending_retries_def by (metis in_set_takeD set_sort)
    then have "r \<in> set (db_failed t)" "\<not> fs_permanently_failed r" by simp_all
    then show ?thesis using ok by force
  qed
  then show ?thesis using ok by blast
qed

theorem retries_are_bounded_witness:
  "\<exists>t. retry_start settle_db \<and> retry_step\<^sup>*\<^sup>* settle_db t \<and> db_failed t \<noteq> [] \<and>
     (\<forall>r\<in>set (db_failed t). fs_retry_count r \<le> 5)"
proof -
  let ?t = "settle_db\<lparr>db_failed := [failed_entry], db_next_uuid := 101\<rparr>"
  have start: "retry_start settle_db"
    using settle_db_facts(1) by (simp add: retry_start_def solvent_def) (simp add: settle_db_def sample_db_def)
  have "retry_step\<^sup>*\<^sup>* settle_db ?t" by (rule r_into_rtranclp) (rule fill_failed [OF sample_fill_failure])
  then show ?thesis using retries_are_bounded [OF start, of ?t] start by (intro exI [of _ ?t]) simp
qed

text \<open>
  The delay between retries triples: a retry that fails for the \<open>n\<close>-th time, with \<open>n\<close> below five,
  leaves the failure scheduled \<open>10 * 3 ^ n\<close> seconds later and not permanent, with its count and error
  updated; the fifth marks it as permanent. Other failures are untouched.
\<close>

theorem retry_backoff:
  assumes "handle_retry_failure env e n m s = (Inr (), t)" and "1 \<le> n" and "r \<in> set (db_failed s)"
  shows "\<exists>r'\<in>set (db_failed t). (if fs_id r = fs_id e then
      fs_retry_count r' = n \<and> fs_last_error r' = m \<and> fs_trade_id r' = fs_trade_id r \<and>
      (if n < 5 then fs_next_retry_at r' = env_now env + 10 * 3 ^ nat n \<and> fs_permanently_failed r' = fs_permanently_failed r
       else fs_permanently_failed r')
    else r' = r)"
proof -
  have small: "backoff_secs n = 10 * 3 ^ nat n" if "n < 5"
  proof -
    have "n = 1 \<or> n = 2 \<or> n = 3 \<or> n = 4" using that assms(2) by auto
    then show ?thesis by (auto simp: backoff_secs_def wrap64_def)
  qed
  let ?f = "if n \<ge> MAX_RETRIES
    then (\<lambda>r. r\<lparr>fs_retry_count := n, fs_last_error := m, fs_permanently_failed := True\<rparr>)
    else (\<lambda>r. r\<lparr>fs_retry_count := n, fs_last_error := m, fs_next_retry_at := env_now env + backoff_secs n\<rparr>)"
  have "t = tick (update_failed (fs_id e) ?f s)"
    using assms(1) by (auto simp: handle_retry_failure_def Let_def action_simps split: if_splits)
  then have "(if fs_id r = fs_id e then ?f r else r) \<in> set (db_failed t)"
    using assms(3) by (simp add: update_failed_def)
  then show ?thesis using small by (intro bexI [of _ "if fs_id r = fs_id e then ?f r else r"]) (auto simp: MAX_RETRIES_def)
qed

theorem retry_backoff_witness:
  "\<exists>t r'. handle_retry_failure sample_env failed_entry 2 ''again'' (settle_db\<lparr>db_failed := [failed_entry]\<rparr>) = (Inr (), t) \<and>
     r' \<in> set (db_failed t) \<and> fs_retry_count r' = 2 \<and> fs_next_retry_at r' = 99"
proof -
  let ?s = "settle_db\<lparr>db_failed := [failed_entry]\<rparr>"
  have "\<exists>t. handle_retry_failure sample_env failed_entry 2 ''again'' ?s = (Inr (), t)"
    by (simp add: handle_retry_failure_def update_failed_def settle_db_def sample_db_def db_evals MAX_RETRIES_def)
  then obtain t where run: "handle_retry_failure sample_env failed_entry 2 ''again'' ?s = (Inr (), t)" by blast
  have "failed_entry \<in> set (db_failed ?s)" by simp
  from retry_backoff [OF run _ this] show ?thesis using run by (auto simp: sample_env_def)
qed

text \<open>
  The retry worker never settles a fill: retrying a failed fill, in every outcome, changes no
  balance, no ledger entry and no fill; it only reschedules the entry, gives up on it, or deletes it
  when the fill is gone or was settled by someone else. And each further failure of the same fill
  is recorded as one more entry, because the conflict target never matches.
\<close>

theorem fill_retry_settles_nothing:
  assumes "fs_id ` set (db_failed s) \<subseteq> {..<db_next_uuid s}" and "fs_trade_id ` set (db_failed s) \<subseteq> {..<db_next_uuid s}"
  shows "(\<forall>e fid n r t. retry_fill env e fid n s = (r, t) \<longrightarrow>
      db_balances t = db_balances s \<and> db_ledger t = db_ledger s \<and> db_fills t = db_fills s \<and> db_trades t = db_trades s) \<and>
    (\<forall>fid m t. record_fill_failure env fid m s = (Inr (), t) \<longrightarrow>
      length (filter (\<lambda>r. fs_fill_id r = Some fid) (db_failed t)) =
      Suc (length (filter (\<lambda>r. fs_fill_id r = Some fid) (db_failed s))))"
proof (intro conjI allI impI)
  show "db_balances t = db_balances s" "db_ledger t = db_ledger s" "db_fills t = db_fills s" "db_trades t = db_trades s"
    if "retry_fill env e fid n s = (r, t)" for e fid n r t
    using that unfolding retry_fill_def
    by (auto simp: bindA_def sql_query_def delete_failed_def handle_retry_failure_def update_failed_def sql_update_def sql_exec_def
        Let_def split: if_splits)
  show "length (filter (\<lambda>r. fs_fill_id r = Some fid) (db_failed t)) =
      Suc (length (filter (\<lambda>r. fs_fill_id r = Some fid) (db_failed s)))"
    if "record_fill_failure env fid m s = (Inr (), t)" for fid m t
    using that assms by (auto simp: record_fill_failure_def action_simps Let_def image_subset_iff split: if_splits)
qed

theorem fill_retry_settles_nothing_witness:
  "\<exists>t u. record_fill_failure sample_env 7 ''x'' settle_db = (Inr (), t) \<and>
     record_fill_failure sample_env 7 ''x'' t = (Inr (), u) \<and>
     length (filter (\<lambda>r. fs_fill_id r = Some 7) (db_failed u)) = 2"
proof -
  let ?t = "settle_db\<lparr>db_failed := [failed_entry], db_next_uuid := 101\<rparr>"
  have "\<exists>u. record_fill_failure sample_env 7 ''x'' ?t = (Inr (), u)"
    by (simp add: record_fill_failure_def settle_db_def sample_db_def db_evals failed_entry_def)
  then obtain u where u: "record_fill_failure sample_env 7 ''x'' ?t = (Inr (), u)" by blast
  have "length (filter (\<lambda>r. fs_fill_id r = Some 7) (db_failed u)) =
      Suc (length (filter (\<lambda>r. fs_fill_id r = Some 7) (db_failed ?t)))"
    using fill_retry_settles_nothing [of ?t sample_env] u by (simp add: failed_entry_def)
  then show ?thesis using sample_fill_failure u by (auto simp: failed_entry_def)
qed

lemma process_event_failed_books:
  assumes "process_event env (Some ev) s = (r, t)" and "balances_wf s"
    and fails: "\<And>a b. \<exists>e u. settle_fill env (ece_fill_id ev) (ece_buyer_account_id ev) (ece_seller_account_id ev) a b (ece_fee_rate ev) s = (Inl e, u)"
  shows "same_books s t"
proof (cases "parse_asset (ece_token_in ev) = None \<or> parse_asset (ece_token_out ev) = None")
  case True
  then show ?thesis using assms(1) by (auto simp: process_event_def returnA_def same_books_def split: option.splits)
next
  case False
  then obtain a b where ab: "parse_asset (ece_token_in ev) = Some a" "parse_asset (ece_token_out ev) = Some b" by auto
  obtain e u where q: "settle_fill env (ece_fill_id ev) (ece_buyer_account_id ev) (ece_seller_account_id ev) a b (ece_fee_rate ev) s = (Inl e, u)"
    using fails by blast
  have su: "same_books s u" using settle_fill_outcome [OF q assms(2)] by (auto simp: same_books_def)
  have "(\<exists>p. update_intent_status (ece_intent_id ev) u = (p, t)) \<or>
    (\<exists>m. t = snd (record_fill_failure env (ece_fill_id ev) m u)) \<or>
    (\<exists>m j. t = snd (record_failed_fill j (snd (record_fill_failure env (ece_fill_id ev) m u))))"
    using assms(1) ab q
    by (auto simp: process_event_def bindA_def seqA_def tryA_def ignoreA_def returnA_def
        split: option.splits settlement_error.splits)
  then have "same_books u t"
    by (auto dest: update_intent_status_books intro: record_fill_failure_books
        same_books_trans [OF record_fill_failure_books record_failed_fill_books])
  then show ?thesis using same_books_trans [OF su] by blast
qed

text \<open>
  C11. Events may be delivered more than once: processing an execution event whose fill is already
  settled, in every outcome, changes no balance, no ledger entry and no fill.
\<close>

theorem redelivery_is_harmless:
  assumes "process_event env (Some ev) s = (r, t)" and "balances_wf s"
    and "find_fill (ece_fill_id ev) s = Some f" and "fi_settled f"
  shows "db_balances t = db_balances s \<and> db_ledger t = db_ledger s \<and> db_fills t = db_fills s"
proof -
  have "\<exists>e u. settle_fill env (ece_fill_id ev) (ece_buyer_account_id ev) (ece_seller_account_id ev) a b (ece_fee_rate ev) s = (Inl e, u)" for a b
  proof -
    obtain q u where q: "settle_fill env (ece_fill_id ev) (ece_buyer_account_id ev) (ece_seller_account_id ev) a b (ece_fee_rate ev) s = (q, u)"
      by fastforce
    show ?thesis using settle_fill_outcome [OF q assms(2)] assms(3,4) q by (cases q) auto
  qed
  then show ?thesis using process_event_failed_books [OF assms(1,2)] by (simp add: same_books_def)
qed

definition sample_event :: execution_completed_event where
  "sample_event = \<lparr>ece_execution_id = 8, ece_fill_id = 7, ece_intent_id = 3, ece_solver_id = ''carol'',
     ece_buyer_account_id = 10, ece_seller_account_id = 20, ece_token_in = ''usdc'', ece_token_out = ''eth'',
     ece_fee_rate = f64_0_001\<rparr>"

theorem redelivery_is_harmless_witness:
  "let s = settle_db\<lparr>db_fills := [sample_fill\<lparr>fi_settled := True\<rparr>]\<rparr> in
   \<exists>r t. process_event sample_env (Some sample_event) s = (r, t) \<and> db_balances t = db_balances s"
proof -
  let ?s = "settle_db\<lparr>db_fills := [sample_fill\<lparr>fi_settled := True\<rparr>]\<rparr>"
  have wf: "balances_wf ?s" by (simp add: settle_db_def sample_db_def balances_wf_def balance_key_def)
  have "find_fill (ece_fill_id sample_event) ?s = Some (sample_fill\<lparr>fi_settled := True\<rparr>)"
    by (simp add: find_fill_def sample_event_def sample_fill_def)
  moreover obtain r t where run: "process_event sample_env (Some sample_event) ?s = (r, t)" by fastforce
  ultimately show ?thesis using redelivery_is_harmless [OF run wf] by (auto simp: Let_def)
qed

text \<open>
  After a fill is settled the consumer updates its intent: the intent becomes \<open>Completed\<close> when the
  settled quantity reaches its amount and \<open>PartiallyFilled\<close> when some of it is settled, and the
  published event carries that quantity and status. When the driver does not decode the sum of a
  \<open>BIGINT\<close> column as \<open>i64\<close>, the error is read as zero: an intent with a positive amount never
  changes status and no event is ever published.
\<close>

theorem consumer_updates_status:
  assumes "update_intent_status i s = (Inr ev, t)" and "find_intent i s = Some x"
  shows "(\<forall>e. ev = Some e \<longrightarrow> 0 < in_amount_in x \<longrightarrow>
      db_decodes_numeric s \<and> ise_settled_qty e = settled_qty i s \<and> 0 < settled_qty i s \<and>
      ise_status e = (if settled_qty i s \<ge> in_amount_in x then Completed else PartiallyFilled)) \<and>
    (\<not> db_decodes_numeric s \<longrightarrow> 0 < in_amount_in x \<longrightarrow> ev = None \<and> find_intent i t = Some x)"
  using assms
  by (auto simp: update_intent_status_def db_evals find_intent_def settled_qty_def split: if_splits)

theorem consumer_updates_status_witness:
  "let s = settle_db\<lparr>db_intents := [sample_intent], db_fills := [sample_fill\<lparr>fi_settled := True\<rparr>]\<rparr> in
   \<exists>t. update_intent_status 3 s = (Inr None, t) \<and> find_intent 3 t = Some sample_intent \<and> settled_qty 3 s = in_amount_in sample_intent"
proof -
  let ?s = "settle_db\<lparr>db_intents := [sample_intent], db_fills := [sample_fill\<lparr>fi_settled := True\<rparr>]\<rparr>"
  have f: "find_intent 3 ?s = Some sample_intent" "settled_qty 3 ?s = 10000"
    by (simp_all add: find_intent_def settled_qty_def sample_intent_def Intent_new_def sample_fill_def)
  have a: "in_amount_in sample_intent = 10000" by (simp add: sample_intent_def Intent_new_def u64_as_i64_def wrap64_def)
  have q: "db_faults settle_db = []" "\<not> db_decodes_numeric settle_db" "db_faults (tick u) = tl (db_faults u)" for u
    by (simp_all add: settle_db_def sample_db_def tick_def)
  have "\<exists>ev t. update_intent_status 3 ?s = (Inr ev, t)"
    by (simp add: update_intent_status_def f a q action_evals sql_query_def sql_sum_def sql_exec_def next_fault_def i64_defs)
  then obtain ev t where run: "update_intent_status 3 ?s = (Inr ev, t)" by blast
  then show ?thesis using consumer_updates_status [OF run f(1)] q(2) f(2) unfolding a Let_def by auto
qed

end
