(* ===== verification/Storage.thy ===== *)
theory Storage
  imports Settlement_Worker
begin

text \<open>
  The storage facade over the tables of intents, bids, fills and executions (src/db/storage.rs) and
  the event bus (the events of src/db/redis.rs and the stream messages published by the services).
  Reads swallow database errors and return nothing; \<open>insert_intent\<close> writes twelve of the seventeen
  columns, the others get the defaults of the migrations. The world of the services is the
  database together with the published events and the memory of the risk engine; publishing to the Redis bus can fail, by a schedule
  like that of the database.
\<close>

section \<open>Storage\<close>

text \<open>A query whose error counts as no result.\<close>

definition query_or :: "'a \<Rightarrow> 'a dbm \<Rightarrow> (pgdb, 'e, 'a) action" where
  "query_or dflt q = bindA (tryA q) (\<lambda>r. returnA (case r of Inr x \<Rightarrow> x | Inl _ \<Rightarrow> dflt))"

definition stored_intent :: "intent \<Rightarrow> intent" where
  "stored_intent i = i\<lparr>in_stop_side := Some ''sell'', in_triggered_at := None, in_source_chain := ''ethereum'',
     in_destination_chain := ''ethereum'', in_cross_chain := False\<rparr>"

definition insert_intent :: "intent \<Rightarrow> unit dbm" where
  "insert_intent i =
     sql_exec (\<lambda>s. if in_id i \<in> in_id ` set (db_intents s) then Inl UniqueViolation
       else Inr ((), s\<lparr>db_intents := db_intents s @ [stored_intent i]\<rparr>))"

definition get_intent :: "uuid \<Rightarrow> (pgdb, 'e, intent option) action" where
  "get_intent i = query_or None (sql_query (find_intent i))"

definition list_intents :: "(pgdb, 'e, intent list) action" where
  "list_intents = query_or [] (sql_query (\<lambda>s. sort_key (\<lambda>i. - in_created_at i) (db_intents s)))"

definition list_active_intents :: "(pgdb, 'e, intent list) action" where
  "list_active_intents =
     query_or [] (sql_query (\<lambda>s. sort_key (\<lambda>i. - in_created_at i)
       (filter (\<lambda>i. in_status i \<in> {Open, Bidding, Matched, Executing}) (db_intents s))))"

definition update_intent :: "intent \<Rightarrow> unit dbm" where
  "update_intent i = sql_update (set_intent_status (in_id i) (in_status i))"

definition insert_bid :: "solver_bid \<Rightarrow> unit dbm" where
  "insert_bid b =
     sql_exec (\<lambda>s. if bid_intent_id b \<notin> in_id ` set (db_intents s) then Inl ForeignKeyViolation
       else if bid_id b \<in> bid_id ` set (db_bids s) then Inl UniqueViolation
       else Inr ((), s\<lparr>db_bids := db_bids s @ [b]\<rparr>))"

definition get_bids :: "uuid \<Rightarrow> (pgdb, 'e, solver_bid list) action" where
  "get_bids i = query_or [] (sql_query (\<lambda>s. sort_key bid_timestamp (filter (\<lambda>b. bid_intent_id b = i) (db_bids s))))"

definition insert_fill :: "fill \<Rightarrow> unit dbm" where
  "insert_fill f = sql_update (\<lambda>s. s\<lparr>db_fills := db_fills s @ [f]\<rparr>)"

definition get_fills :: "uuid \<Rightarrow> (pgdb, 'e, fill list) action" where
  "get_fills i = query_or [] (sql_query (\<lambda>s. sort_key (\<lambda>f. - fi_price f) (filter (\<lambda>f. fi_intent_id f = i) (db_fills s))))"

definition insert_execution :: "execution \<Rightarrow> unit dbm" where
  "insert_execution e = sql_update (\<lambda>s. s\<lparr>db_executions := db_executions s @ [e]\<rparr>)"

definition update_execution :: "execution \<Rightarrow> unit dbm" where
  "update_execution e =
     sql_update (\<lambda>s. s\<lparr>db_executions := map (\<lambda>x. if ex_id x = ex_id e then x\<lparr>ex_status := ex_status e\<rparr> else x) (db_executions s)\<rparr>)"

section \<open>The event bus\<close>

datatype event =
    IntentCreated intent | BidSubmitted solver_bid | IntentMatched intent solver_bid
  | ExecutionStarted execution | ExecutionCompleted execution | ExecutionFailed execution string
  | IntentCancelled intent | IntentBidding intent | IntentFailed intent | IntentExpired intent
  | IntentAmended intent | StopTriggered intent
  | StreamIntentCreated intent | StreamBidSubmitted solver_bid
  | StreamExecutionCompleted execution_completed_event | StreamIntentSettled intent_settled_event

text \<open>What the risk engine remembers of a user: when its recent intents came in, and its volume of the day.\<close>

record user_activity =
  ua_recent_intents :: "int list"
  ua_daily_volume :: u64
  ua_day_start :: int

record world =
  w_db :: pgdb
  w_events :: "event list"
  w_bus_faults :: "bool list"
  w_activity :: "string \<rightharpoonup> user_activity"

type_synonym ('e, 'a) service = "(world, 'e, 'a) action"

definition on_db :: "(pgdb, 'e, 'a) action \<Rightarrow> ('e, 'a) service" where
  "on_db m w = (case m (w_db w) of (r, d) \<Rightarrow> (r, w\<lparr>w_db := d\<rparr>))"

text \<open>\<open>EventBus::publish\<close>: delivers the event or reports a Redis error.\<close>

definition publish :: "'e \<Rightarrow> event \<Rightarrow> ('e, unit) service" where
  "publish err ev w =
     (let w' = w\<lparr>w_bus_faults := tl (w_bus_faults w)\<rparr> in
      if w_bus_faults w \<noteq> [] \<and> hd (w_bus_faults w) then (Inl err, w')
      else (Inr (), w'\<lparr>w_events := w_events w @ [ev]\<rparr>))"

lemma on_db_iff [action_simps]:
  "on_db m w = (r, w') \<longleftrightarrow> (\<exists>d. m (w_db w) = (r, d) \<and> w' = w\<lparr>w_db := d\<rparr>)"
  by (auto simp: on_db_def split: prod.splits)

lemma preserves_on_db: "preserves I m \<Longrightarrow> preserves (\<lambda>w. I (w_db w)) (on_db m)"
  by (auto simp: preserves_def on_db_def split: prod.splits)

lemma preserves_publish: "preserves (\<lambda>w. I (w_db w)) (publish e ev)"
  by (auto simp: preserves_def publish_def Let_def)

lemma publish_db: "publish e ev w = (r, w') \<Longrightarrow> w_db w' = w_db w"
  by (auto simp: publish_def Let_def split: if_splits)

lemma publish_Inr_iff [action_simps]:
  "publish e ev w = (Inr u, w') \<longleftrightarrow> \<not> (w_bus_faults w \<noteq> [] \<and> hd (w_bus_faults w)) \<and>
     w' = w\<lparr>w_bus_faults := tl (w_bus_faults w), w_events := w_events w @ [ev]\<rparr>"
  by (auto simp: publish_def Let_def)

lemma query_or_total: "\<exists>x. query_or dflt (sql_query f) s = (Inr x, tick s) \<and> (x = f s \<or> x = dflt)"
  by (auto simp: query_or_def bindA_def tryA_def returnA_def sql_query_def)

lemma query_or_iff: "query_or dflt (sql_query f) s = (r, t) \<longleftrightarrow> t = tick s \<and> r = Inr (if next_fault s then dflt else f s)"
  by (auto simp: query_or_def bindA_def tryA_def returnA_def sql_query_def)

lemmas storage_evals = db_evals query_or_def get_intent_def get_bids_def get_fills_def insert_intent_def update_intent_def
  insert_bid_def insert_fill_def insert_execution_def update_execution_def on_db_def publish_def stored_intent_def

section \<open>Properties\<close>

text \<open>
  What comes back from storage: an intent that was inserted into a database without its
  identifier is found again with the same owner, tokens, amounts, deadline, status, order type and
  prices, but with the stop side reset to sell and the chains reset to a single-chain Ethereum intent;
  so it comes back unchanged exactly when it already had these values.
\<close>

theorem intent_storage_roundtrip:
  assumes "insert_intent i s = (Inr (), t)" and "\<not> next_fault t"
  shows "fst (get_intent (in_id i) t :: (unit + intent option) \<times> pgdb) = Inr (Some (stored_intent i)) \<and>
    in_id (stored_intent i) = in_id i \<and> in_amount_in (stored_intent i) = in_amount_in i \<and> in_status (stored_intent i) = in_status i \<and>
    in_order_type (stored_intent i) = in_order_type i \<and> in_limit_price (stored_intent i) = in_limit_price i \<and>
    in_stop_price (stored_intent i) = in_stop_price i \<and>
    (stored_intent i = i \<longleftrightarrow> in_stop_side i = Some ''sell'' \<and> in_triggered_at i = None \<and> in_source_chain i = ''ethereum'' \<and>
       in_destination_chain i = ''ethereum'' \<and> \<not> in_cross_chain i)"
proof -
  have new: "in_id i \<notin> in_id ` set (db_intents s)" and t: "t = tick (s\<lparr>db_intents := db_intents s @ [stored_intent i]\<rparr>)"
    using assms(1) by (auto simp: insert_intent_def action_simps split: if_splits)
  have app: "List.find P (xs @ [x]) = (case List.find P xs of None \<Rightarrow> if P x then Some x else None | Some y \<Rightarrow> Some y)" for P :: "intent \<Rightarrow> bool" and xs x
    by (induction xs) auto
  have "List.find (\<lambda>x. in_id x = in_id i) (db_intents s) = None" using new by (auto simp: find_None_iff image_iff)
  then have "find_intent (in_id i) t = Some (stored_intent i)"
    by (simp add: find_intent_def t app stored_intent_def)
  then have "fst (get_intent (in_id i) t :: (unit + intent option) \<times> pgdb) = Inr (Some (stored_intent i))"
    using assms(2) by (simp add: get_intent_def query_or_def bindA_def tryA_def returnA_def sql_query_def)
  moreover have "stored_intent i = i \<longleftrightarrow> in_stop_side i = Some ''sell'' \<and> in_triggered_at i = None \<and> in_source_chain i = ''ethereum'' \<and>
       in_destination_chain i = ''ethereum'' \<and> \<not> in_cross_chain i"
    by (cases i) (auto simp: stored_intent_def)
  ultimately show ?thesis by (simp add: stored_intent_def)
qed

theorem intent_storage_roundtrip_witness:
  "let i = with_chains ''ethereum'' ''solana'' (with_stop_buy 5 sample_intent) in
   \<exists>t. insert_intent i sample_db = (Inr (), t) \<and>
     (\<exists>j. fst (get_intent 3 t :: (unit + intent option) \<times> pgdb) = Inr (Some j) \<and> in_stop_side j = Some ''sell'' \<and> \<not> in_cross_chain j) \<and>
     in_stop_side i = Some ''buy'' \<and> in_cross_chain i"
proof -
  let ?i = "with_chains ''ethereum'' ''solana'' (with_stop_buy 5 sample_intent)"
  have id: "in_id ?i = 3" "in_stop_side ?i = Some ''buy''" "in_cross_chain ?i"
    by (simp_all add: with_chains_def with_stop_buy_def sample_intent_def Intent_new_def)
  have run: "insert_intent ?i sample_db = (Inr (), sample_db\<lparr>db_intents := [stored_intent ?i]\<rparr>)"
    by (simp add: insert_intent_def sample_db_def sql_exec_def next_fault_def tick_def)
  have "\<not> next_fault (sample_db\<lparr>db_intents := [stored_intent ?i]\<rparr>)" by (simp add: sample_db_def next_fault_def)
  from intent_storage_roundtrip [OF run this]
  have "fst (get_intent 3 (sample_db\<lparr>db_intents := [stored_intent ?i]\<rparr>) :: (unit + intent option) \<times> pgdb) = Inr (Some (stored_intent ?i))"
    by (simp add: id)
  moreover have "in_stop_side (stored_intent ?i) = Some ''sell''" "\<not> in_cross_chain (stored_intent ?i)"
    by (simp_all add: stored_intent_def)
  ultimately show ?thesis unfolding Let_def using run id by blast
qed

end
