(* ===== verification/Markets.thy ===== *)
theory Markets
  imports Balances
begin

text \<open>
  Markets: the repository and the service of src/markets. The answers of the Redis cache in front of
  the table are arguments: \<open>None\<close> when the cache has no entry (or there is no cache).
\<close>

datatype market_error = MarketErrNotFound | MarketDb sqlx_error

record create_market_request =
  cm_base_asset :: asset
  cm_quote_asset :: asset
  cm_tick_size :: i64
  cm_min_order_size :: i64
  cm_fee_rate :: f64
  cm_chain :: "string option"
  cm_settlement_contract :: "string option"
  cm_base_token_mint :: "string option"
  cm_quote_token_mint :: "string option"
  cm_base_decimals :: "int option"
  cm_quote_decimals :: "int option"

section \<open>Repository\<close>

definition market_insert :: "market \<Rightarrow> unit dbm" where
  "market_insert k =
     sql_exec (\<lambda>s. if mk_id k \<in> mk_id ` set (db_markets s) then Inl UniqueViolation
       else Inr ((), s\<lparr>db_markets := db_markets s @ [k]\<rparr>))"

definition market_find_by_id :: "uuid \<Rightarrow> market option dbm" where
  "market_find_by_id i = sql_query (\<lambda>s. List.find (\<lambda>k. mk_id k = i) (db_markets s))"

definition market_find_all :: "market list dbm" where
  "market_find_all = sql_query (\<lambda>s. sort_key (\<lambda>k. - mk_created_at k) (db_markets s))"

definition market_find_by_chain :: "string \<Rightarrow> market list dbm" where
  "market_find_by_chain chain =
     sql_query (\<lambda>s. sort_key (\<lambda>k. - mk_created_at k) (filter (\<lambda>k. mk_chain k = chain) (db_markets s)))"

section \<open>Service\<close>

definition create_market :: "timestamp \<Rightarrow> create_market_request \<Rightarrow> (pgdb, market_error, market) action" where
  "create_market now req =
     bindA new_uuid (\<lambda>new_id.
     let k = \<lparr>mk_id = new_id, mk_base_asset = cm_base_asset req, mk_quote_asset = cm_quote_asset req,
              mk_tick_size = cm_tick_size req, mk_min_order_size = cm_min_order_size req, mk_fee_rate = cm_fee_rate req,
              mk_chain = (case cm_chain req of None \<Rightarrow> ''ethereum'' | Some c \<Rightarrow> c),
              mk_settlement_contract = cm_settlement_contract req, mk_base_token_mint = cm_base_token_mint req,
              mk_quote_token_mint = cm_quote_token_mint req,
              mk_base_decimals = (case cm_base_decimals req of None \<Rightarrow> 18 | Some d \<Rightarrow> d),
              mk_quote_decimals = (case cm_quote_decimals req of None \<Rightarrow> 6 | Some d \<Rightarrow> d),
              mk_created_at = now\<rparr> in
     seqA (map_errA MarketDb (market_insert k))
    (returnA k))"

definition get_market :: "market option \<Rightarrow> uuid \<Rightarrow> (pgdb, market_error, market) action" where
  "get_market cached market_id =
     (case cached of Some k \<Rightarrow> returnA k | None \<Rightarrow>
      bindA (map_errA MarketDb (market_find_by_id market_id)) (\<lambda>row.
      case row of None \<Rightarrow> raiseA MarketErrNotFound | Some k \<Rightarrow> returnA k))"

definition list_markets :: "market list option \<Rightarrow> (pgdb, market_error, market list) action" where
  "list_markets cached =
     (case cached of Some ks \<Rightarrow> returnA ks | None \<Rightarrow> map_errA MarketDb market_find_all)"

lemma list_markets_db: "list_markets cached s = (r, t) \<Longrightarrow> t = s \<or> t = tick s"
  by (auto simp: list_markets_def market_find_all_def action_evals sql_query_def split: option.splits if_splits)

end
