(* ===== verification/Risk.thy ===== *)
theory Risk
  imports Storage Markets
begin

text \<open>
  The risk engine of src/risk/service.rs. Its memory of each user is part of the world; the clock
  (\<open>Instant\<close> in nanoseconds, the day as a number), the configured limits, the prices the oracle answers
  and the answers of the caches are in the environment record. The checks of an intent and the
  recording of an accepted intent are separate steps, as in the code: other requests may come between.
\<close>

datatype risk_rejection =
    RiskInsufficientBalance i64 u64 | BelowMinOrderSize i64 u64 | PriceDeviationTooHigh f64 f64
  | BidPriceDeviation f64 f64 f64 | CrossMarketArbitrage f64 f64 f64 | MarketNotFound | MarketInactive
  | RateLimitExceeded u64 | DailyVolumeLimitExceeded u64 u64 | RiskInvalidAsset string | MissingChainConfig string

record intent_risk_params =
  rp_user_id :: string
  rp_account_id :: uuid
  rp_token_in :: string
  rp_token_out :: string
  rp_amount_in :: u64
  rp_min_amount_out :: u64

record risk_env =
  re_instant :: int
  re_today :: int
  re_max_intents_per_minute :: u64
  re_daily_volume_limit :: u64
  re_max_price_deviation :: f64
  re_oracle_price :: "uuid \<Rightarrow> i64 option"
  re_cached_markets :: "market list option"
  re_cached_balances :: "balance list option"

section \<open>Activity of a user\<close>

definition activity_new :: "risk_env \<Rightarrow> user_activity" where
  "activity_new env = \<lparr>ua_recent_intents = [], ua_daily_volume = 0, ua_day_start = re_today env\<rparr>"

definition reset_if_new_day :: "risk_env \<Rightarrow> user_activity \<Rightarrow> user_activity" where
  "reset_if_new_day env e =
     (if re_today env \<noteq> ua_day_start e then e\<lparr>ua_daily_volume := 0, ua_day_start := re_today env\<rparr> else e)"

definition minute_ns :: int where "minute_ns = 60 * 10 ^ 9"

definition prune_old_intents :: "risk_env \<Rightarrow> user_activity \<Rightarrow> user_activity" where
  "prune_old_intents env e =
     e\<lparr>ua_recent_intents := filter (\<lambda>t. re_instant env - minute_ns < t) (ua_recent_intents e)\<rparr>"

definition activity_of :: "risk_env \<Rightarrow> string \<Rightarrow> world \<Rightarrow> user_activity" where
  "activity_of env user_id w = (case w_activity w user_id of None \<Rightarrow> activity_new env | Some e \<Rightarrow> e)"

definition record_accepted_intent :: "risk_env \<Rightarrow> string \<Rightarrow> u64 \<Rightarrow> ('e, unit) service" where
  "record_accepted_intent env user_id amount w =
     (let entry = activity_of env user_id w;
          entry = entry\<lparr>ua_recent_intents := ua_recent_intents entry @ [re_instant env]\<rparr>;
          entry = reset_if_new_day env entry;
          entry = entry\<lparr>ua_daily_volume := ua_daily_volume entry + amount\<rparr>
      in (Inr (), w\<lparr>w_activity := (w_activity w)(user_id \<mapsto> entry)\<rparr>))"

definition check_user_limits :: "risk_env \<Rightarrow> string \<Rightarrow> u64 \<Rightarrow> (risk_rejection, unit) service" where
  "check_user_limits env user_id amount w =
     (let entry = prune_old_intents env (activity_of env user_id w) in
      if unat (re_max_intents_per_minute env) \<le> length (ua_recent_intents entry)
      then (Inl (RateLimitExceeded (re_max_intents_per_minute env)), w\<lparr>w_activity := (w_activity w)(user_id \<mapsto> entry)\<rparr>)
      else let entry = reset_if_new_day env entry;
               w' = w\<lparr>w_activity := (w_activity w)(user_id \<mapsto> entry)\<rparr> in
           if ua_daily_volume entry + amount > re_daily_volume_limit env
           then (Inl (DailyVolumeLimitExceeded (ua_daily_volume entry) (re_daily_volume_limit env)), w')
           else (Inr (), w'))"

section \<open>Markets, balances and prices\<close>

definition risk_parse_asset :: "string \<Rightarrow> ('s, risk_rejection, asset) action" where
  "risk_parse_asset token =
     (case parse_asset token of None \<Rightarrow> raiseA (RiskInvalidAsset (map to_upper token)) | Some a \<Rightarrow> returnA a)"

definition find_market :: "risk_env \<Rightarrow> asset \<Rightarrow> asset \<Rightarrow> (pgdb, risk_rejection, market) action" where
  "find_market env asset_in asset_out =
     bindA (map_errA (\<lambda>_. MarketNotFound) (list_markets (re_cached_markets env))) (\<lambda>markets.
     case List.find (\<lambda>k. mk_base_asset k = asset_in \<and> mk_quote_asset k = asset_out \<or>
                         mk_base_asset k = asset_out \<and> mk_quote_asset k = asset_in) markets of
       None \<Rightarrow> raiseA MarketNotFound | Some k \<Rightarrow> returnA k)"

definition check_balance :: "risk_env \<Rightarrow> uuid \<Rightarrow> asset \<Rightarrow> u64 \<Rightarrow> (pgdb, risk_rejection, unit) action" where
  "check_balance env account_id asset required =
     bindA (map_errA (\<lambda>_. RiskInsufficientBalance 0 required) (get_balances (re_cached_balances env) account_id)) (\<lambda>balances.
     let available = (case List.find (\<lambda>b. bal_asset b = asset) balances of None \<Rightarrow> 0 | Some b \<Rightarrow> bal_available_balance b) in
     if available < u64_as_i64 required then raiseA (RiskInsufficientBalance available required) else returnA ())"

definition price_gap :: "f64 \<Rightarrow> f64 \<Rightarrow> f64" where
  "price_gap implied reference =
     (if f64_less reference implied then f64_div (f64_sub implied reference) reference
      else f64_div (f64_sub reference implied) reference)"

definition oracle_reference :: "risk_env \<Rightarrow> market \<Rightarrow> f64 option" where
  "oracle_reference env k =
     (case re_oracle_price env (mk_id k) of
        Some p \<Rightarrow> if 0 < p then Some (f64_of_int p) else None
      | None \<Rightarrow> None)"

definition check_price_deviation :: "risk_env \<Rightarrow> u64 \<Rightarrow> u64 \<Rightarrow> market \<Rightarrow> (pgdb, risk_rejection, unit) action" where
  "check_price_deviation env amount_in min_amount_out k =
     (if min_amount_out = 0 \<or> amount_in = 0 then returnA ()
      else let implied_price = f64_div (f64_of_int (uint amount_in)) (f64_of_int (uint min_amount_out)) in
        case (case oracle_reference env k of
                Some p \<Rightarrow> Some p
              | None \<Rightarrow> if 0 < mk_tick_size k then Some (f64_of_int (mk_tick_size k)) else None) of
          None \<Rightarrow> returnA ()
        | Some reference_price \<Rightarrow>
            let deviation = price_gap implied_price reference_price in
            if f64_less (re_max_price_deviation env) deviation
            then raiseA (PriceDeviationTooHigh (f64_mult deviation (f64_of_int 100))
                          (f64_mult (re_max_price_deviation env) (f64_of_int 100)))
            else returnA ())"

definition validate_intent :: "risk_env \<Rightarrow> intent_risk_params \<Rightarrow> (risk_rejection, market) service" where
  "validate_intent env p =
     bindA (risk_parse_asset (rp_token_in p)) (\<lambda>asset_in.
     bindA (risk_parse_asset (rp_token_out p)) (\<lambda>asset_out.
     bindA (on_db (find_market env asset_in asset_out)) (\<lambda>k.
     if mk_chain k \<noteq> ''ethereum'' \<and> mk_chain k \<noteq> ''solana'' then raiseA (MissingChainConfig (''Unknown chain: '' @ mk_chain k))
     else if is_solana k \<and> mk_base_token_mint k = None then raiseA (MissingChainConfig ''Solana market missing base_token_mint'')
     else if u64_as_i64 (rp_amount_in p) < mk_min_order_size k then raiseA (BelowMinOrderSize (mk_min_order_size k) (rp_amount_in p))
     else
       seqA (on_db (check_balance env (rp_account_id p) asset_in (rp_amount_in p)))
      (seqA (on_db (check_price_deviation env (rp_amount_in p) (rp_min_amount_out p) k))
      (seqA (check_user_limits env (rp_user_id p) (rp_amount_in p))
      (returnA k))))))"

section \<open>Bids\<close>

definition check_bid_vs_oracle :: "risk_env \<Rightarrow> f64 \<Rightarrow> market \<Rightarrow> (pgdb, risk_rejection, unit) action" where
  "check_bid_vs_oracle env bid_price k =
     (case oracle_reference env k of
        None \<Rightarrow> returnA ()
      | Some oracle_price \<Rightarrow>
          let deviation = f64_div (f64_abs (f64_sub bid_price oracle_price)) oracle_price in
          if f64_less (re_max_price_deviation env) deviation
          then raiseA (BidPriceDeviation bid_price oracle_price (f64_mult deviation (f64_of_int 100)))
          else returnA ())"

definition check_cross_market :: "risk_env \<Rightarrow> asset \<Rightarrow> f64 \<Rightarrow> (pgdb, risk_rejection, unit) action" where
  "check_cross_market env base_asset bid_price =
     bindA (tryA (list_markets (re_cached_markets env))) (\<lambda>r.
     case r of Inl _ \<Rightarrow> returnA () | Inr markets \<Rightarrow>
     let related = filter (\<lambda>k. mk_base_asset k = base_asset) markets in
     if length related < 2 then returnA () else
     let max_spread = f64_mult (re_max_price_deviation env) (f64_of_int 2) in
     for_eachA (\<lambda>k.
       case oracle_reference env k of
         None \<Rightarrow> returnA ()
       | Some oracle_price \<Rightarrow>
           let spread = f64_div (f64_abs (f64_sub bid_price oracle_price)) oracle_price in
           if f64_less max_spread spread
           then raiseA (CrossMarketArbitrage bid_price oracle_price (f64_mult spread (f64_of_int 100)))
           else returnA ()) related)"

definition validate_bid :: "risk_env \<Rightarrow> string \<Rightarrow> string \<Rightarrow> i64 \<Rightarrow> i64 \<Rightarrow> i64 \<Rightarrow> (pgdb, risk_rejection, unit) action" where
  "validate_bid env token_in token_out amount_out fee intent_amount_in =
     (if intent_amount_in = 0 then returnA () else
      bindA (risk_parse_asset token_in) (\<lambda>asset_in.
      bindA (risk_parse_asset token_out) (\<lambda>asset_out.
      bindA (find_market env asset_in asset_out) (\<lambda>k.
      let net_bid = saturate64 (amount_out - fee) in
      if net_bid \<le> 0 then returnA () else
      let bid_price = f64_div (f64_of_int intent_amount_in) (f64_of_int net_bid) in
      seqA (check_bid_vs_oracle env bid_price k)
     (check_cross_market env asset_in bid_price)))))"

section \<open>Limits per user\<close>

text \<open>
  Requests that are handled one after the other. Each is checked; one that passes may be recorded, at a later reading of the
  clock, before the next one is checked, or not, when the intent is not created after all. The clocks never run
  backwards. \<open>ls_admitted\<close> lists what was recorded: it is no part of the program.
\<close>

record admission =
  ad_user :: string
  ad_instant :: int
  ad_day :: int
  ad_amount :: u64

record limits_state =
  ls_now :: int
  ls_today :: int
  ls_world :: world
  ls_admitted :: "admission list"

inductive limits_step :: "u64 \<Rightarrow> u64 \<Rightarrow> limits_state \<Rightarrow> limits_state \<Rightarrow> bool" for M L where
  Admitted: "limits_step M L st \<lparr>ls_now = re_instant env', ls_today = re_today env', ls_world = w2,
      ls_admitted = ls_admitted st @ [\<lparr>ad_user = u, ad_instant = re_instant env', ad_day = re_today env', ad_amount = amount\<rparr>]\<rparr>"
    if "ls_now st \<le> re_instant env" "re_instant env \<le> re_instant env'" "ls_today st \<le> re_today env" "re_today env \<le> re_today env'"
      "re_max_intents_per_minute env = M" "re_daily_volume_limit env = L" "unat L + unat amount < 2 ^ 64"
      "check_user_limits env u amount (ls_world st) = (Inr (), w1)"
      "record_accepted_intent env' u amount w1 = (Inr () :: unit + unit, w2)"
| Unrecorded: "limits_step M L st \<lparr>ls_now = re_instant env, ls_today = re_today env, ls_world = w1, ls_admitted = ls_admitted st\<rparr>"
    if "ls_now st \<le> re_instant env" "ls_today st \<le> re_today env" "check_user_limits env u amount (ls_world st) = (r, w1)"

definition within_minute :: "int \<Rightarrow> int list \<Rightarrow> int list" where
  "within_minute now ts = filter (\<lambda>t. now - minute_ns < t) ts"

definition admitted_at :: "string \<Rightarrow> admission list \<Rightarrow> int list" where
  "admitted_at u adm = map ad_instant (filter (\<lambda>a. ad_user a = u) adm)"

definition day_volume :: "string \<Rightarrow> int \<Rightarrow> admission list \<Rightarrow> nat" where
  "day_volume u d adm = sum_list (map (\<lambda>a. unat (ad_amount a)) (filter (\<lambda>a. ad_user a = u \<and> ad_day a = d) adm))"

text \<open>The memory of the engine agrees with what was admitted.\<close>

definition tracks :: "int \<Rightarrow> int \<Rightarrow> admission list \<Rightarrow> string \<Rightarrow> user_activity \<Rightarrow> bool" where
  "tracks now today adm u e \<longleftrightarrow>
     within_minute now (ua_recent_intents e) = within_minute now (admitted_at u adm) \<and> ua_day_start e \<le> today \<and>
     unat (ua_daily_volume e) = day_volume u (ua_day_start e) adm \<and> (\<forall>d > ua_day_start e. day_volume u d adm = 0)"

definition user_ok :: "u64 \<Rightarrow> u64 \<Rightarrow> limits_state \<Rightarrow> string \<Rightarrow> bool" where
  "user_ok M L st u \<longleftrightarrow>
     (case w_activity (ls_world st) u of
        None \<Rightarrow> filter (\<lambda>a. ad_user a = u) (ls_admitted st) = []
      | Some e \<Rightarrow> tracks (ls_now st) (ls_today st) (ls_admitted st) u e) \<and>
     length (within_minute (ls_now st) (admitted_at u (ls_admitted st))) \<le> unat M \<and>
     (\<forall>d. day_volume u d (ls_admitted st) \<le> unat L)"

lemma within_minute_later: "now \<le> now' \<Longrightarrow> within_minute now' (within_minute now ts) = within_minute now' ts"
  by (auto simp: within_minute_def intro!: filter_cong)

lemma within_minute_shrinks: "now \<le> now' \<Longrightarrow> length (within_minute now' ts) \<le> length (within_minute now ts)"
  using within_minute_later [of now now' ts] length_filter_le [of "\<lambda>t. now' - minute_ns < t" "within_minute now ts"]
  by (simp add: within_minute_def)

lemma tracks_later: "tracks now today adm u e \<Longrightarrow> now \<le> now' \<Longrightarrow> today \<le> today' \<Longrightarrow> tracks now' today' adm u e"
  unfolding tracks_def by (metis within_minute_later order_trans)

lemma user_ok_later:
  assumes "user_ok M L st u" and "ls_now st \<le> now" and "ls_today st \<le> today"
  shows "user_ok M L (st\<lparr>ls_now := now, ls_today := today\<rparr>) u"
  using assms within_minute_shrinks [OF assms(2), of "admitted_at u (ls_admitted st)"]
  by (auto simp: user_ok_def intro: tracks_later split: option.splits)

lemma nothing_admitted:
  "filter (\<lambda>a. ad_user a = u) adm = [] \<Longrightarrow> admitted_at u adm = []"
  "filter (\<lambda>a. ad_user a = u) adm = [] \<Longrightarrow> day_volume u d adm = 0"
proof -
  assume none: "filter (\<lambda>a. ad_user a = u) adm = []"
  then show "admitted_at u adm = []" by (simp add: admitted_at_def)
  have "filter (\<lambda>a. ad_user a = u \<and> ad_day a = d) adm = []" using none by (auto simp: filter_empty_conv)
  then show "day_volume u d adm = 0" by (simp add: day_volume_def)
qed

lemma activity_tracks:
  assumes "user_ok M L st u" and "ls_now st = re_instant env" and "ls_today st = re_today env"
  shows "tracks (re_instant env) (re_today env) (ls_admitted st) u (activity_of env u (ls_world st))"
  using assms nothing_admitted [of u "ls_admitted st"]
  by (auto simp: user_ok_def activity_of_def activity_new_def tracks_def within_minute_def split: option.splits)

lemma prune_tracks: "tracks (re_instant env) today adm u e \<Longrightarrow> tracks (re_instant env) today adm u (prune_old_intents env e)"
  by (simp add: tracks_def prune_old_intents_def within_minute_def)

lemma reset_tracks: "tracks now (re_today env) adm u e \<Longrightarrow> tracks now (re_today env) adm u (reset_if_new_day env e)"
  by (auto simp: tracks_def reset_if_new_day_def)

definition set_activity :: "string \<Rightarrow> user_activity \<Rightarrow> world \<Rightarrow> world" where
  "set_activity u e w = w\<lparr>w_activity := (w_activity w)(u \<mapsto> e)\<rparr>"

lemma checked:
  assumes "check_user_limits env u amount w = (r, w1)"
  obtains e where "w1 = set_activity u e w" "e = prune_old_intents env (activity_of env u w) \<or> e = reset_if_new_day env (prune_old_intents env (activity_of env u w))"
    "r = Inr () \<Longrightarrow> e = reset_if_new_day env (prune_old_intents env (activity_of env u w)) \<and>
       length (ua_recent_intents e) < unat (re_max_intents_per_minute env) \<and> ua_daily_volume e + amount \<le> re_daily_volume_limit env"
  using assms that [of "prune_old_intents env (activity_of env u w)"] that [of "reset_if_new_day env (prune_old_intents env (activity_of env u w))"]
  by (auto simp: check_user_limits_def Let_def set_activity_def reset_if_new_day_def split: if_splits)

lemma set_activity_ok:
  assumes "user_ok M L st v" and "v = u \<Longrightarrow> tracks (ls_now st) (ls_today st) (ls_admitted st) u e"
  shows "user_ok M L (st\<lparr>ls_world := set_activity u e (ls_world st)\<rparr>) v"
  using assms by (auto simp: user_ok_def set_activity_def split: option.splits)

text \<open>A check, at a reading of the clock.\<close>

lemma check_keeps:
  assumes ok: "\<And>v. user_ok M L st v" and now: "ls_now st = re_instant env" "ls_today st = re_today env"
    and check: "check_user_limits env u amount (ls_world st) = (r, w1)"
  shows "user_ok M L (st\<lparr>ls_world := w1\<rparr>) v"
proof -
  obtain e where e: "w1 = set_activity u e (ls_world st)"
    "e = prune_old_intents env (activity_of env u (ls_world st)) \<or> e = reset_if_new_day env (prune_old_intents env (activity_of env u (ls_world st)))"
    using checked [OF check] by metis
  have "tracks (re_instant env) (re_today env) (ls_admitted st) u e"
    using e(2) prune_tracks [OF activity_tracks [OF ok now, of u]] reset_tracks by auto
  then show ?thesis unfolding e(1) using now by (intro set_activity_ok ok) simp
qed

text \<open>Recording what passed a check.\<close>

definition recorded :: "risk_env \<Rightarrow> u64 \<Rightarrow> user_activity \<Rightarrow> user_activity" where
  "recorded env amount e =
     (let e = reset_if_new_day env (e\<lparr>ua_recent_intents := ua_recent_intents e @ [re_instant env]\<rparr>) in
      e\<lparr>ua_daily_volume := ua_daily_volume e + amount\<rparr>)"

lemma day_volume_snoc:
  "day_volume u d (adm @ [a]) = day_volume u d adm + (if ad_user a = u \<and> ad_day a = d then unat (ad_amount a) else 0)"
  by (simp add: day_volume_def)

lemma admitted_at_snoc: "admitted_at u (adm @ [a]) = admitted_at u adm @ (if ad_user a = u then [ad_instant a] else [])"
  by (simp add: admitted_at_def)

lemma volume_fits:
  fixes L v amount :: u64
  assumes "unat v \<le> unat L" and "unat L + unat amount < 2 ^ 64" and "v + amount \<le> L"
  shows "unat (v + amount) = unat v + unat amount" "unat v + unat amount \<le> unat L"
proof -
  have "unat v + unat amount < 2 ^ 64" using assms(1,2) by simp
  then show s: "unat (v + amount) = unat v + unat amount" by (simp add: unat_word_ariths)
  show "unat v + unat amount \<le> unat L" using assms(3) unfolding s [symmetric] by (simp add: word_le_nat_alt)
qed

lemma record_tracks:
  assumes t: "tracks now today adm u e" and later: "now \<le> re_instant env" "today \<le> re_today env"
    and vol: "\<And>d. day_volume u d adm \<le> unat L" and fits: "unat L + unat amount < 2 ^ 64" and passed: "ua_daily_volume e + amount \<le> L"
    and adm': "adm' = adm @ [\<lparr>ad_user = u, ad_instant = re_instant env, ad_day = re_today env, ad_amount = amount\<rparr>]"
  shows "tracks (re_instant env) (re_today env) adm' u (recorded env amount e)" "day_volume u d adm' \<le> unat L"
proof -
  have e: "unat (ua_daily_volume e) = day_volume u (ua_day_start e) adm" "ua_day_start e \<le> re_today env"
    "\<forall>d > ua_day_start e. day_volume u d adm = 0" using t later(2) by (auto simp: tracks_def)
  have v: "unat (ua_daily_volume e) \<le> unat L" using vol e(1) by simp
  note sum = volume_fits [OF v fits passed]
  have "within_minute (re_instant env) (ua_recent_intents e) = within_minute (re_instant env) (admitted_at u adm)"
    using tracks_later [OF t later] by (simp add: tracks_def)
  then show "tracks (re_instant env) (re_today env) adm' u (recorded env amount e)"
    using e sum(1) adm' by (auto simp: tracks_def recorded_def reset_if_new_day_def Let_def admitted_at_snoc day_volume_snoc within_minute_def)
  have "day_volume u (re_today env) adm + unat amount \<le> unat L"
    using e sum(2) by (cases "ua_day_start e = re_today env") auto
  then show "day_volume u d adm' \<le> unat L" using vol adm' by (auto simp: day_volume_snoc)
qed

lemma record_keeps:
  assumes ok: "user_ok M L st v" and e: "w_activity (ls_world st) u = Some e" and room: "length (ua_recent_intents e) < unat M"
    and passed: "ua_daily_volume e + amount \<le> L" "unat L + unat amount < 2 ^ 64"
    and later: "ls_now st \<le> re_instant env" "ls_today st \<le> re_today env"
  shows "user_ok M L \<lparr>ls_now = re_instant env, ls_today = re_today env, ls_world = set_activity u (recorded env amount e) (ls_world st),
      ls_admitted = ls_admitted st @ [\<lparr>ad_user = u, ad_instant = re_instant env, ad_day = re_today env, ad_amount = amount\<rparr>]\<rparr> v"
proof (cases "v = u")
  case True
  let ?adm = "ls_admitted st @ [\<lparr>ad_user = u, ad_instant = re_instant env, ad_day = re_today env, ad_amount = amount\<rparr>]"
  have t: "tracks (ls_now st) (ls_today st) (ls_admitted st) u e" and vol: "\<And>d. day_volume u d (ls_admitted st) \<le> unat L"
    using ok e True by (simp_all add: user_ok_def)
  note new = record_tracks [OF t later vol passed(2,1) refl]
  have "length (within_minute (re_instant env) (admitted_at u (ls_admitted st))) \<le> length (within_minute (ls_now st) (ua_recent_intents e))"
    using within_minute_shrinks [OF later(1), of "admitted_at u (ls_admitted st)"] t by (simp add: tracks_def)
  also have "\<dots> < unat M" using room length_filter_le [of _ "ua_recent_intents e"] unfolding within_minute_def by (rule le_less_trans [rotated])
  finally have "length (within_minute (re_instant env) (admitted_at u ?adm)) \<le> unat M"
    by (simp add: admitted_at_snoc within_minute_def minute_ns_def)
  then show ?thesis using new True by (simp add: user_ok_def set_activity_def)
next
  case False
  then show ?thesis
    using user_ok_later [OF ok later] by (auto simp: user_ok_def tracks_def set_activity_def admitted_at_snoc day_volume_snoc split: option.splits)
qed

interpretation limits: transition_system "\<lambda>st. w_activity (ls_world st) = Map.empty \<and> ls_admitted st = []" "limits_step M L"
  "\<lambda>st. \<forall>u. user_ok M L st u" for M L
proof
  show "\<forall>u. user_ok M L st u" if "w_activity (ls_world st) = Map.empty \<and> ls_admitted st = []" for st
    using that by (simp add: user_ok_def admitted_at_def within_minute_def day_volume_def)
  show "\<forall>v. user_ok M L st' v" if step: "limits_step M L st st'" and ok: "\<forall>v. user_ok M L st v" for st st'
  proof
    fix v
    have at: "user_ok M L (st\<lparr>ls_now := now, ls_today := today\<rparr>) v" if "ls_now st \<le> now" "ls_today st \<le> today" for now today v
      using ok that by (blast intro: user_ok_later)
    from step show "user_ok M L st' v"
    proof cases
      case (Admitted env env' amount u w1 w2)
      let ?st = "st\<lparr>ls_now := re_instant env, ls_today := re_today env\<rparr>"
      obtain e where e: "w1 = set_activity u e (ls_world st)" "length (ua_recent_intents e) < unat M" "ua_daily_volume e + amount \<le> L"
        using checked [OF Admitted(9)] Admitted(6,7) by metis
      have mid: "user_ok M L (?st\<lparr>ls_world := w1\<rparr>) v"
        using check_keeps [of M L ?st env u amount "Inr ()" w1 v] at [OF Admitted(2,4)] Admitted(9) by simp
      have w2: "w2 = set_activity u (recorded env' amount e) w1"
        using Admitted(10) e(1) by (simp add: record_accepted_intent_def activity_of_def recorded_def set_activity_def Let_def)
      have "w_activity w1 u = Some e" using e(1) by (simp add: set_activity_def)
      from record_keeps [OF mid, of u e amount env'] this e(2,3) Admitted show ?thesis by (simp add: w2)
    next
      case (Unrecorded env u amount r w1)
      have "st\<lparr>ls_now := re_instant env, ls_today := re_today env, ls_world := w1\<rparr> = st'" unfolding Unrecorded(1) by (cases st) simp
      then show ?thesis
        using check_keeps [of M L "st\<lparr>ls_now := re_instant env, ls_today := re_today env\<rparr>" env u amount r w1 v] at [OF Unrecorded(2,3)] Unrecorded(4)
        by simp
    qed
  qed
qed

section \<open>Properties\<close>

text \<open>
  C16. The limits per user are kept when requests are handled one at a time: starting with no
  activity and with any requests of any users at any later times, the number of requests of a user that were admitted
  within the last minute never exceeds the configured number, and the sum of the amounts admitted for a user on any
  day never exceeds the configured limit, for amounts that do not overflow 64 bits when added to the limit.
\<close>

theorem user_limits_enforced:
  assumes "w_activity (ls_world st) = Map.empty" and "ls_admitted st = []" and "(limits_step M L)\<^sup>*\<^sup>* st st'"
  shows "length (filter (\<lambda>a. ad_user a = u \<and> ls_now st' - 60 * 10 ^ 9 < ad_instant a) (ls_admitted st')) \<le> unat M \<and>
    sum_list (map (\<lambda>a. unat (ad_amount a)) (filter (\<lambda>a. ad_user a = u \<and> ad_day a = d) (ls_admitted st'))) \<le> unat L"
proof -
  have ok: "user_ok M L st' u" using limits.reachable_invar [of st M L st'] assms by blast
  have "length (within_minute t (admitted_at u adm)) = length (filter (\<lambda>a. ad_user a = u \<and> t - 60 * 10 ^ 9 < ad_instant a) adm)" for t adm
    by (induction adm) (auto simp: within_minute_def admitted_at_def minute_ns_def)
  then show ?thesis using ok by (simp add: user_ok_def day_volume_def)
qed

definition sample_risk :: "int \<Rightarrow> risk_env" where
  "sample_risk t = \<lparr>re_instant = t, re_today = 0, re_max_intents_per_minute = 2, re_daily_volume_limit = 1000,
     re_max_price_deviation = f64_0_3, re_oracle_price = (\<lambda>_. None), re_cached_markets = None, re_cached_balances = None\<rparr>"

definition sample_world :: "pgdb \<Rightarrow> world" where
  "sample_world d = \<lparr>w_db = d, w_events = [], w_bus_faults = [], w_activity = Map.empty\<rparr>"

theorem user_limits_enforced_witness:
  "\<exists>st'. (limits_step 2 1000)\<^sup>*\<^sup>* \<lparr>ls_now = 0, ls_today = 0, ls_world = sample_world sample_db, ls_admitted = []\<rparr> st' \<and>
     map ad_amount (ls_admitted st') = [300] \<and> length (filter (\<lambda>a. ad_user a = ''alice'' \<and> ls_now st' - 60 * 10 ^ 9 < ad_instant a) (ls_admitted st')) \<le> 2"
proof -
  let ?w = "sample_world sample_db"
  let ?st = "\<lparr>ls_now = 0, ls_today = 0, ls_world = ?w, ls_admitted = []\<rparr>"
  obtain w1 where c: "check_user_limits (sample_risk 7) ''alice'' 300 ?w = (Inr (), w1)"
    by (simp add: check_user_limits_def sample_risk_def sample_world_def activity_of_def activity_new_def prune_old_intents_def
        reset_if_new_day_def Let_def)
  obtain w2 where r: "record_accepted_intent (sample_risk 8) ''alice'' 300 w1 = (Inr () :: unit + unit, w2)"
    by (simp add: record_accepted_intent_def Let_def)
  let ?st' = "\<lparr>ls_now = 8, ls_today = 0, ls_world = w2, ls_admitted = [\<lparr>ad_user = ''alice'', ad_instant = 8, ad_day = 0, ad_amount = 300\<rparr>]\<rparr>"
  have "limits_step 2 1000 ?st ?st'"
    using Admitted [of ?st "sample_risk 7" "sample_risk 8" 2 1000 300 "''alice''" w1 w2] c r by (simp add: sample_risk_def)
  then have steps: "(limits_step 2 1000)\<^sup>*\<^sup>* ?st ?st'" by blast
  have "w_activity ?w = Map.empty" by (simp add: sample_world_def)
  then show ?thesis using steps user_limits_enforced [OF _ _ steps, of "''alice''" 0] by (intro exI [of _ ?st']) simp
qed

text \<open>
  A check reserves nothing: a second request of the same user that is checked before the first one
  is recorded passes as well, and recording both leaves one entry more than the check allowed for.
\<close>

theorem limits_race:
  assumes "check_user_limits env u a w = (Inr (), w1)" and "ua_daily_volume (activity_of env u w1) + b \<le> re_daily_volume_limit env"
  shows "check_user_limits env u b w1 = (Inr (), w1) \<and>
    length (ua_recent_intents (activity_of env u (snd (record_accepted_intent env u b (snd (record_accepted_intent env u a w1 :: (unit + unit) \<times> world)) :: (unit + unit) \<times> world)))) =
    length (ua_recent_intents (activity_of env u w1)) + 2"
proof -
  let ?e = "reset_if_new_day env (prune_old_intents env (activity_of env u w))"
  have w1: "w1 = w\<lparr>w_activity := (w_activity w)(u \<mapsto> ?e)\<rparr>" and room: "length (ua_recent_intents ?e) < unat (re_max_intents_per_minute env)"
    using assms(1) by (auto simp: check_user_limits_def Let_def reset_if_new_day_def split: if_splits)
  have act: "activity_of env u w1 = ?e" unfolding w1 by (simp add: activity_of_def [of env u "w_activity_update _ _"])
  have again: "prune_old_intents env ?e = ?e" "reset_if_new_day env ?e = ?e"
    by (simp_all add: prune_old_intents_def reset_if_new_day_def)
  have "check_user_limits env u b w1 = (Inr (), w1)"
    using assms(2) room by (simp add: check_user_limits_def act again Let_def) (simp add: w1)
  moreover have len: "length (ua_recent_intents (activity_of env u (snd (record_accepted_intent env u x v :: (unit + unit) \<times> world)))) =
      Suc (length (ua_recent_intents (activity_of env u v)))" for x v
    by (simp add: record_accepted_intent_def Let_def activity_of_def [of env u "w_activity_update _ _"]) (simp add: reset_if_new_day_def)
  ultimately show ?thesis by simp
qed

end
