(* ===== verification/Auction.thy ===== *)
theory Auction
  imports Risk "HOL-Library.Product_Lexorder"
begin

text \<open>
  From bids to executions: the auction of src/engine/auction_engine.rs, the bid service of
  src/services/bid_service.rs and the execution engine of src/engine/execution_engine.rs. An auction
  sleeps between its two halves, so \<open>run_auction\<close> is the pair \<open>begin_auction\<close> and \<open>close_auction\<close> with
  arbitrary steps of others in between.
\<close>

section \<open>Bids\<close>

definition net_value :: "solver_bid \<Rightarrow> i64" where
  "net_value b = saturate64 (bid_amount_out b - bid_fee b)"

text \<open>Stable sort: net value descending, earliest time stamp first among equals.\<close>

definition sort_bids :: "solver_bid list \<Rightarrow> solver_bid list" where
  "sort_bids bids = sort_key (\<lambda>b. (- net_value b, bid_timestamp b)) bids"

definition sort_bids_by_price :: "uuid \<Rightarrow> (pgdb, 'e, solver_bid list) action" where
  "sort_bids_by_price intent_id = bindA (get_bids intent_id) (\<lambda>bids. returnA (sort_bids bids))"

definition build_orderbook :: "uuid \<Rightarrow> (pgdb, 'e, solver_bid list) action" where
  "build_orderbook intent_id = bindA (get_bids intent_id) (\<lambda>bids. returnA (sort_bids bids))"

text \<open>\<open>Iterator::max_by\<close> returns the last of several maxima.\<close>

definition better_or_equal :: "solver_bid \<Rightarrow> solver_bid \<Rightarrow> bool" where
  "better_or_equal b a \<longleftrightarrow>
     net_value a < net_value b \<or> net_value a = net_value b \<and> bid_timestamp b \<le> bid_timestamp a"

definition best_of :: "solver_bid list \<Rightarrow> solver_bid option" where
  "best_of bids =
     (case bids of [] \<Rightarrow> None
      | b # bs \<Rightarrow> Some (foldl (\<lambda>best x. if better_or_equal x best then x else best) b bs))"

definition get_best_bid :: "uuid \<Rightarrow> (pgdb, 'e, solver_bid option) action" where
  "get_best_bid intent_id = bindA (get_bids intent_id) (\<lambda>bids. returnA (best_of bids))"

datatype bid_error = BidRedisError | BidRiskRejected risk_rejection | BidIntentNotFound

definition submit_bid :: "i64 \<Rightarrow> risk_env \<Rightarrow> uuid \<Rightarrow> string \<Rightarrow> u64 \<Rightarrow> u64 \<Rightarrow> (bid_error, solver_bid) service" where
  "submit_bid now env intent_id solver_id amount_out fee =
     bindA (on_db (get_intent intent_id)) (\<lambda>found.
     case found of None \<Rightarrow> raiseA BidIntentNotFound | Some intent \<Rightarrow>
     seqA (map_errA BidRiskRejected (on_db (validate_bid env (in_token_in intent) (in_token_out intent)
            (u64_as_i64 amount_out) (u64_as_i64 fee) (in_amount_in intent))))
    (bindA (on_db new_uuid) (\<lambda>new_id.
     let bid = SolverBid_new new_id now intent_id solver_id amount_out fee in
     seqA (ignoreA (on_db (insert_bid bid)))
    (seqA (publish BidRedisError (BidSubmitted bid))
    (seqA (ignoreA (publish BidRedisError (StreamBidSubmitted bid)))
    (returnA bid))))))"

section \<open>The auction\<close>

definition filter_bids_for_order_type :: "intent \<Rightarrow> solver_bid list \<Rightarrow> solver_bid list" where
  "filter_bids_for_order_type intent bids =
     (case in_order_type intent of
        Limit \<Rightarrow>
          (let limit = (case in_limit_price intent of None \<Rightarrow> 0 | Some p \<Rightarrow> p) in
           filter (\<lambda>b. net_value b \<ge> limit) bids)
      | Market \<Rightarrow> bids
      | Stop \<Rightarrow> bids)"

text \<open>The identifiers of the fills are drawn one after the other, starting with \<open>n\<close>.\<close>

fun partial_fills :: "i64 \<Rightarrow> uuid \<Rightarrow> uuid \<Rightarrow> i64 \<Rightarrow> solver_bid list \<Rightarrow> fill list" where
  "partial_fills now n intent_id remaining [] = []"
| "partial_fills now n intent_id remaining (bid # bids) =
     (if remaining \<le> 0 then []
      else let fill_qty = min remaining (net_value bid) in
           if fill_qty \<le> 0 then partial_fills now n intent_id remaining bids
           else Fill_new n now intent_id (bid_solver_id bid) (bid_amount_out bid) (net_value bid) fill_qty #
                partial_fills now (Suc n) intent_id (wrap64 (remaining - fill_qty)) bids)"

definition generate_partial_fills :: "i64 \<Rightarrow> intent \<Rightarrow> solver_bid list \<Rightarrow> (pgdb, 'e, fill list) action" where
  "generate_partial_fills now intent sorted_bids s =
     (let fills = partial_fills now (db_next_uuid s) (in_id intent) (in_amount_in intent) sorted_bids in
      (Inr fills, s\<lparr>db_next_uuid := db_next_uuid s + length fills\<rparr>))"

definition begin_auction :: "uuid \<Rightarrow> (unit, unit) service" where
  "begin_auction intent_id =
     bindA (on_db (get_intent intent_id)) (\<lambda>found.
     case found of
       None \<Rightarrow> returnA ()
     | Some intent \<Rightarrow>
         let intent = intent\<lparr>in_status := Bidding\<rparr> in
         seqA (ignoreA (on_db (update_intent intent)))
         (publish () (IntentBidding intent)))"

definition close_auction :: "i64 \<Rightarrow> uuid \<Rightarrow> (unit, unit) service" where
  "close_auction now intent_id =
     bindA (on_db (get_intent intent_id)) (\<lambda>found.
     case found of
       None \<Rightarrow> returnA ()
     | Some intent \<Rightarrow>
         bindA (on_db (sort_bids_by_price intent_id)) (\<lambda>all_bids.
         let bids = filter_bids_for_order_type intent all_bids in
         if bids = [] then
           let intent = intent\<lparr>in_status := Failed\<rparr> in
           seqA (ignoreA (on_db (update_intent intent)))
           (publish () (IntentFailed intent))
         else
           bindA (on_db (generate_partial_fills now intent bids)) (\<lambda>fills.
           let total_filled = wrap64 (sum_list (map fi_filled_qty fills));
               fully_filled = total_filled \<ge> in_amount_in intent in
           seqA (for_eachA (\<lambda>fill. ignoreA (on_db (insert_fill fill))) fills)
          (let intent = intent\<lparr>in_status := (if fully_filled then Matched else PartiallyFilled)\<rparr> in
           seqA (ignoreA (on_db (update_intent intent)))
           (case fills of
              [] \<Rightarrow> returnA ()
            | best_fill # _ \<Rightarrow>
               (case List.find (\<lambda>b. bid_solver_id b = fi_solver_id best_fill) bids of
                  None \<Rightarrow> returnA ()
                | Some bid \<Rightarrow> publish () (IntentMatched intent bid)))))))"

section \<open>The execution engine\<close>

definition resolve_account :: "string \<Rightarrow> (pgdb, 'e, uuid option) action" where
  "resolve_account user_id = query_or None (sql_query (find_user_account user_id))"

definition nil_uuid :: uuid where "nil_uuid = 0"

text \<open>One iteration of the loop over the fills; \<open>uuid_text\<close> prints an identifier.\<close>

definition execute_fill ::
  "timestamp \<Rightarrow> (uuid \<Rightarrow> string) \<Rightarrow> intent \<Rightarrow> uuid option \<Rightarrow> fill \<Rightarrow> (unit, unit) service" where
  "execute_fill now uuid_text intent buyer_account_id fill =
     bindA (on_db new_uuid) (\<lambda>hash_id.
     let tx_hash = ''0x'' @ uuid_text hash_id in
     bindA (on_db new_uuid) (\<lambda>new_id.
     let execution = (Execution_new new_id now (in_id intent) (fi_solver_id fill) tx_hash)\<lparr>ex_status := ExecExecuting\<rparr> in
     seqA (ignoreA (on_db (insert_execution execution)))
    (seqA (publish () (ExecutionStarted execution))
    (let execution = execution\<lparr>ex_status := ExecCompleted\<rparr> in
     seqA (ignoreA (on_db (update_execution execution)))
    (seqA (publish () (ExecutionCompleted execution))
    (ignoreA (publish () (StreamExecutionCompleted
       \<lparr>ece_execution_id = ex_id execution, ece_fill_id = fi_id fill, ece_intent_id = in_id intent,
        ece_solver_id = fi_solver_id fill,
        ece_buyer_account_id = (case buyer_account_id of None \<Rightarrow> nil_uuid | Some c \<Rightarrow> c),
        ece_seller_account_id = nil_uuid, ece_token_in = in_token_in intent, ece_token_out = in_token_out intent,
        ece_fee_rate = f64_0_001\<rparr>))))))))"

definition execute_fills :: "timestamp \<Rightarrow> (uuid \<Rightarrow> string) \<Rightarrow> uuid \<Rightarrow> (unit, unit) service" where
  "execute_fills now uuid_text intent_id =
     bindA (on_db (get_fills intent_id)) (\<lambda>fills.
     if fills = [] then returnA () else
     bindA (on_db (get_intent intent_id)) (\<lambda>found.
     case found of None \<Rightarrow> returnA () | Some intent \<Rightarrow>
     bindA (on_db (resolve_account (in_user_id intent))) (\<lambda>buyer_account_id.
     seqA (bindA (on_db (get_intent intent_id)) (\<lambda>again.
           case again of None \<Rightarrow> returnA ()
           | Some i \<Rightarrow> ignoreA (on_db (update_intent (i\<lparr>in_status := Executing\<rparr>)))))
     (for_eachA (execute_fill now uuid_text intent buyer_account_id) fills))))"

section \<open>Greedy filling\<close>

definition positive_net :: "solver_bid list \<Rightarrow> int" where
  "positive_net bids = sum_list (map (\<lambda>b. max 0 (net_value b)) bids)"

lemma positive_net_nonneg [simp]: "0 \<le> positive_net bids"
  unfolding positive_net_def by (intro sum_list_nonneg) auto

lemma partial_fills_sum:
  "0 \<le> remaining \<Longrightarrow> in_i64 remaining \<Longrightarrow>
   sum_list (map fi_filled_qty (partial_fills now n i remaining bids)) = min remaining (positive_net bids)"
proof (induction now n i remaining bids rule: partial_fills.induct)
  case (1 now n i remaining)
  then show ?case by (simp add: positive_net_def)
next
  case (2 now n i remaining bid bids)
  let ?q = "min remaining (net_value bid)"
  have step: "positive_net (bid # bids) = max 0 (net_value bid) + positive_net bids" by (simp add: positive_net_def)
  have nn: "0 \<le> positive_net bids" by simp
  show ?case
  proof (cases "remaining \<le> 0 \<or> ?q \<le> 0")
    case True
    then show ?thesis using 2 nn step by (cases "remaining \<le> 0") (auto simp: Let_def)
  next
    case False
    then have "in_i64 (remaining - ?q)" "0 \<le> remaining - ?q" using 2(4) by (auto simp: i64_defs)
    then have "sum_list (map fi_filled_qty (partial_fills now (Suc n) i (remaining - ?q) bids)) = min (remaining - ?q) (positive_net bids)"
      using 2(2) False by (simp add: Let_def)
    moreover have "?q + min (remaining - ?q) (positive_net bids) = min remaining (max 0 (net_value bid) + positive_net bids)"
    proof -
      have "min r v + min (r - min r v) p = min r (max 0 v + p)" if "0 \<le> p" "0 < r" "0 < v" for p r v :: int
        using that by (auto simp: min_def max_def)
      then show ?thesis using nn False by auto
    qed
    ultimately show ?thesis using False step \<open>in_i64 (remaining - ?q)\<close> by (simp add: Let_def Fill_new_def)
  qed
qed

lemma partial_fills_each:
  "f \<in> set (partial_fills now n i remaining bids) \<Longrightarrow>
   n \<le> fi_id f \<and> fi_intent_id f = i \<and> 0 < fi_filled_qty f \<and> fi_filled_qty f \<le> fi_qty f \<and> \<not> fi_settled f \<and>
   (\<exists>b\<in>set bids. fi_solver_id f = bid_solver_id b \<and> fi_qty f = net_value b \<and> fi_price f = bid_amount_out b)"
proof (induction now n i remaining bids rule: partial_fills.induct)
  case (1 now n i remaining)
  then show ?case by simp
next
  case (2 now n i remaining bid bids)
  then show ?case
    by (auto simp: Let_def Fill_new_def not_le dest: Suc_leD split: if_splits)
qed

lemma partial_fills_ids: "map fi_id (partial_fills now n i remaining bids) = [n ..< n + length (partial_fills now n i remaining bids)]"
proof (induction now n i remaining bids rule: partial_fills.induct)
  case (1 now n i remaining)
  then show ?case by simp
next
  case (2 now n i remaining bid bids)
  consider "remaining \<le> 0" | "0 < remaining" "min remaining (net_value bid) \<le> 0" | "0 < remaining" "0 < min remaining (net_value bid)"
    by linarith
  then show ?case
  proof cases
    case 3
    let ?r = "partial_fills now (Suc n) i (wrap64 (remaining - min remaining (net_value bid))) bids"
    have "map fi_id ?r = [Suc n ..< Suc n + length ?r]" using 2(2) 3 by (meson not_le)
    moreover have "[n ..< Suc (n + length ?r)] = n # [Suc n ..< Suc (n + length ?r)]" by (rule upt_conv_Cons) simp
    moreover have "\<not> remaining \<le> 0" "\<not> min remaining (net_value bid) \<le> 0" using 3 by simp_all
    ultimately show ?thesis by (simp only: partial_fills.simps Let_def if_False) (simp add: Fill_new_def del: upt_Suc)
  qed (use 2(1) in \<open>auto simp: Let_def\<close>)
qed

text \<open>The fills quote a sublist of the bids, in the order of the bids.\<close>

lemma partial_fills_subseq:
  "\<exists>bs. map fi_qty (partial_fills now n i remaining bids) = map net_value bs \<and> (\<forall>P. sorted_wrt P bids \<longrightarrow> sorted_wrt P bs) \<and> set bs \<subseteq> set bids"
proof (induction now n i remaining bids rule: partial_fills.induct)
  case (1 now n i remaining)
  then show ?case by (intro exI [of _ "[]"]) simp
next
  case (2 now n i remaining bid bids)
  show ?case
  proof (cases "remaining \<le> 0")
    case True
    then show ?thesis by (intro exI [of _ "[]"]) simp
  next
    case False
    show ?thesis
    proof (cases "min remaining (net_value bid) \<le> 0")
      case True
      then obtain bs where "map fi_qty (partial_fills now n i remaining bids) = map net_value bs"
        "\<forall>P. sorted_wrt P bids \<longrightarrow> sorted_wrt P bs" "set bs \<subseteq> set bids" using 2(1) False by blast
      then show ?thesis using True False by (intro exI [of _ bs]) (auto simp: Let_def)
    next
      case pos: False
      then obtain bs where "map fi_qty (partial_fills now (Suc n) i (wrap64 (remaining - min remaining (net_value bid))) bids) = map net_value bs"
        "\<forall>P. sorted_wrt P bids \<longrightarrow> sorted_wrt P bs" "set bs \<subseteq> set bids" using 2(2) False by blast
      then show ?thesis using pos False by (intro exI [of _ "bid # bs"]) (auto simp: Let_def Fill_new_def)
    qed
  qed
qed

section \<open>Properties\<close>

lemma sort_bids_perm [simp]: "set (sort_bids bids) = set bids" "mset (sort_bids bids) = mset bids"
  by (simp_all add: sort_bids_def)

lemma sort_bids_order:
  "sorted_wrt (\<lambda>a b. net_value b < net_value a \<or> net_value b = net_value a \<and> bid_timestamp a \<le> bid_timestamp b) (sort_bids bids)"
proof -
  have "sorted (map (\<lambda>b. (- net_value b, bid_timestamp b)) (sort_bids bids))" by (simp add: sort_bids_def)
  then show ?thesis unfolding sorted_map
    by (rule sorted_wrt_mono_rel [rotated]) (auto simp: less_eq_prod_def)
qed

lemma filter_bids_subset: "set (filter_bids_for_order_type i bids) \<subseteq> set bids"
  by (auto simp: filter_bids_for_order_type_def split: order_type.splits)

lemma filter_bids_sorted: "sorted_wrt P bids \<Longrightarrow> sorted_wrt P (filter_bids_for_order_type i bids)"
  by (auto simp: filter_bids_for_order_type_def Let_def sorted_wrt_filter split: order_type.splits)

definition auction_bids :: "intent \<Rightarrow> solver_bid list \<Rightarrow> solver_bid list" where
  "auction_bids i bids = filter_bids_for_order_type i (sort_bids bids)"

definition sample_bid :: "uuid \<Rightarrow> string \<Rightarrow> int \<Rightarrow> int \<Rightarrow> solver_bid" where
  "sample_bid n solver out t = \<lparr>bid_id = n, bid_intent_id = 3, bid_solver_id = solver, bid_amount_out = out, bid_fee = 5, bid_timestamp = t\<rparr>"

text \<open>
  C12. The auction fills greedily and exactly: from the accepted bids, best net value first and the
  earliest first among equals, the fills take together exactly the smaller of the intent's amount and
  the sum of the positive net values; every fill is positive, no larger than the net value its bid
  quotes, carries a fresh identifier and belongs to the intent; the fills come in descending order of
  net value, and for a limit order none quotes less than the limit.
\<close>

theorem auction_fills_exact:
  assumes "0 \<le> in_amount_in i" and "in_i64 (in_amount_in i)"
  shows "let accepted = auction_bids i bids; fills = partial_fills now n (in_id i) (in_amount_in i) accepted in
    sum_list (map fi_filled_qty fills) = min (in_amount_in i) (positive_net accepted) \<and>
    (\<forall>f\<in>set fills. fi_intent_id f = in_id i \<and> 0 < fi_filled_qty f \<and> fi_filled_qty f \<le> fi_qty f \<and>
       (\<exists>b\<in>set bids. fi_solver_id f = bid_solver_id b \<and> fi_qty f = net_value b)) \<and>
    map fi_id fills = [n ..< n + length fills] \<and>
    sorted_wrt (\<ge>) (map fi_qty fills) \<and>
    (\<forall>p. in_order_type i = Limit \<and> in_limit_price i = Some p \<longrightarrow> (\<forall>f\<in>set fills. p \<le> fi_qty f))"
proof -
  let ?acc = "auction_bids i bids"
  let ?fills = "partial_fills now n (in_id i) (in_amount_in i) ?acc"
  have each: "fi_intent_id f = in_id i \<and> 0 < fi_filled_qty f \<and> fi_filled_qty f \<le> fi_qty f \<and>
       (\<exists>b\<in>set ?acc. fi_solver_id f = bid_solver_id b \<and> fi_qty f = net_value b)" if "f \<in> set ?fills" for f
    using partial_fills_each [OF that] by blast
  have sub: "set ?acc \<subseteq> set bids" using filter_bids_subset [of i "sort_bids bids"] by (simp add: auction_bids_def)
  have "sorted_wrt (\<lambda>a b. net_value b \<le> net_value a) ?acc"
    unfolding auction_bids_def
    by (intro filter_bids_sorted sorted_wrt_mono_rel [OF _ sort_bids_order]) auto
  then obtain bs where "map fi_qty ?fills = map net_value bs" "sorted_wrt (\<lambda>a b. net_value b \<le> net_value a) bs"
    using partial_fills_subseq [of now n "in_id i" "in_amount_in i" ?acc] by blast
  then have sorted: "sorted_wrt (\<ge>) (map fi_qty ?fills)" by (simp only: sorted_wrt_map)
  have limit: "p \<le> fi_qty f" if "in_order_type i = Limit" "in_limit_price i = Some p" "f \<in> set ?fills" for p f
    using each [OF that(3)] that(1,2) by (auto simp: auction_bids_def filter_bids_for_order_type_def)
  show ?thesis unfolding Let_def
    using partial_fills_sum [OF assms, of now n "in_id i" ?acc] each sub sorted limit
      partial_fills_ids [of now n "in_id i" "in_amount_in i" ?acc] by blast
qed

theorem auction_fills_exact_witness:
  "let i = sample_intent\<lparr>in_amount_in := 150\<rparr>;
       accepted = auction_bids i [sample_bid 1 ''a'' 55 7, sample_bid 2 ''b'' 105 9];
       fills = partial_fills 0 40 3 150 accepted in
   map fi_solver_id fills = [''b'', ''a''] \<and> map fi_filled_qty fills = [100, 50] \<and> sum_list (map fi_filled_qty fills) = 150"
proof -
  let ?i = "sample_intent\<lparr>in_amount_in := 150\<rparr>"
  let ?acc = "auction_bids ?i [sample_bid 1 ''a'' 55 7, sample_bid 2 ''b'' 105 9]"
  have acc: "?acc = [sample_bid 2 ''b'' 105 9, sample_bid 1 ''a'' 55 7]"
    by (simp add: auction_bids_def filter_bids_for_order_type_def sort_bids_def sample_bid_def net_value_def sample_intent_def
        Intent_new_def saturate64_def i64_max_def i64_min_def less_eq_prod_def)
  have i: "in_amount_in ?i = 150" "in_id ?i = 3" by (simp_all add: sample_intent_def Intent_new_def)
  have "sum_list (map fi_filled_qty (partial_fills 0 40 3 150 ?acc)) = min 150 (positive_net ?acc)"
    using auction_fills_exact [of ?i "[sample_bid 1 ''a'' 55 7, sample_bid 2 ''b'' 105 9]" 0 40]
    unfolding Let_def i by (simp add: i64_defs)
  moreover have "positive_net ?acc = 150" unfolding acc
    by (simp add: positive_net_def sample_bid_def net_value_def saturate64_def i64_max_def i64_min_def)
  ultimately have "sum_list (map fi_filled_qty (partial_fills 0 40 3 150 ?acc)) = 150" by simp
  moreover have "map fi_solver_id (partial_fills 0 40 3 150 ?acc) = [''b'', ''a'']"
    "map fi_filled_qty (partial_fills 0 40 3 150 ?acc) = [100, 50]" unfolding acc
    by (simp_all add: sample_bid_def net_value_def saturate64_def i64_max_def i64_min_def wrap64_def Fill_new_def Let_def)
  ultimately show ?thesis unfolding Let_def by blast
qed

lemma insert_fills_loop:
  "db_faults (w_db w) = [] \<Longrightarrow>
   for_eachA (\<lambda>fill. ignoreA (on_db (insert_fill fill))) fills w =
     (Inr () :: unit + unit, w\<lparr>w_db := (w_db w)\<lparr>db_fills := db_fills (w_db w) @ fills\<rparr>\<rparr>)"
proof (induction fills arbitrary: w)
  case Nil
  then show ?case by (simp add: returnA_def)
next
  case (Cons f fs)
  then show ?case by (simp add: storage_evals)
qed

lemma no_faults_tick: "db_faults s = [] \<Longrightarrow> tick s = s"
  by (simp add: tick_def)

lemma no_faults_next: "db_faults s = [] \<Longrightarrow> \<not> next_fault s"
  by (simp add: next_fault_def)

lemma set_intent_status_faults [simp]: "db_faults (set_intent_status i st s) = db_faults s"
  by (simp add: set_intent_status_def)

definition bids_of :: "uuid \<Rightarrow> pgdb \<Rightarrow> solver_bid list" where
  "bids_of i s = sort_key bid_timestamp (filter (\<lambda>b. bid_intent_id b = i) (db_bids s))"

text \<open>
  What closing an auction does: in a database without failing statements the intent becomes
  \<open>Failed\<close> when no bid is accepted, and otherwise \<open>Matched\<close> if the accepted bids cover its amount and
  \<open>PartiallyFilled\<close> if not, with the fills of the greedy algorithm added. It never touches a balance:
  the funds of an intent that ends as \<open>Failed\<close> stay locked.
\<close>

theorem close_auction_outcome:
  assumes "close_auction now i w = (r, w')" and "db_faults (w_db w) = []" and "find_intent i (w_db w) = Some x"
    and "0 \<le> in_amount_in x" and "in_i64 (in_amount_in x)"
  shows "let accepted = auction_bids x (bids_of i (w_db w));
             fills = (if accepted = [] then [] else partial_fills now (db_next_uuid (w_db w)) (in_id x) (in_amount_in x) accepted);
             st = (if accepted = [] then Failed else if positive_net accepted \<ge> in_amount_in x then Matched else PartiallyFilled) in
    find_intent i (w_db w') = Some (x\<lparr>in_status := st\<rparr>) \<and> db_fills (w_db w') = db_fills (w_db w) @ fills \<and>
    db_balances (w_db w') = db_balances (w_db w)"
proof -
  let ?acc = "auction_bids x (bids_of i (w_db w))"
  let ?fills = "partial_fills now (db_next_uuid (w_db w)) (in_id x) (in_amount_in x) ?acc"
  have id: "in_id x = i" using assms(3) by (auto simp: find_intent_def dest: find_Some_memD)
  have total: "wrap64 (sum_list (map fi_filled_qty ?fills)) = min (in_amount_in x) (positive_net ?acc)"
  proof -
    have "0 \<le> min (in_amount_in x) (positive_net ?acc)" "min (in_amount_in x) (positive_net ?acc) \<le> in_amount_in x"
      using assms(4) by simp_all
    then have "in_i64 (min (in_amount_in x) (positive_net ?acc))" using assms(5) unfolding i64_defs by linarith
    then show ?thesis using partial_fills_sum [OF assms(4,5)] by simp
  qed
  have acc: "filter_bids_for_order_type x (sort_bids (bids_of i (w_db w))) = ?acc" by (simp add: auction_bids_def)
  have q: "(get_intent i (w_db w) :: (unit + intent option) \<times> pgdb) = (Inr (Some x), w_db w)"
    using assms(2,3) by (simp add: storage_evals no_faults_tick)
  have b: "(sort_bids_by_price i (w_db w) :: (unit + solver_bid list) \<times> pgdb) = (Inr (sort_bids (bids_of i (w_db w))), w_db w)"
    using assms(2) by (simp add: sort_bids_by_price_def storage_evals bids_of_def)
  have w': "w_db w' = w_db (snd (close_auction now i w))" using assms(1) by simp
  note run = close_auction_def bindA_def seqA_def on_db_def q b acc generate_partial_fills_def Let_def insert_fills_loop
    ignoreA_def update_intent_def sql_update_def sql_exec_def no_faults_next no_faults_tick returnA_def publish_def
  show ?thesis
  proof (cases "?acc = []")
    case True
    have "w_db (snd (close_auction now i w)) = set_intent_status i Failed (w_db w)"
      using assms(2) id True by (simp add: run)
    then show ?thesis unfolding w' using True assms(3) find_set_intent_status [of i Failed "w_db w"]
      by (simp add: Let_def) (simp add: set_intent_status_def)
  next
    case False
    let ?st = "if in_amount_in x \<le> positive_net ?acc then Matched else PartiallyFilled"
    let ?d = "(w_db w)\<lparr>db_next_uuid := db_next_uuid (w_db w) + length ?fills, db_fills := db_fills (w_db w) @ ?fills\<rparr>"
    have c: "min (in_amount_in x) p \<ge> in_amount_in x \<longleftrightarrow> in_amount_in x \<le> p" for p by auto
    have "w_db (snd (close_auction now i w)) = set_intent_status i ?st ?d"
      using assms(2) id False total by (simp add: run c split: list.splits option.splits)
    then show ?thesis unfolding w' using False assms(3) find_set_intent_status [of i ?st ?d]
      by (simp add: Let_def) (simp add: set_intent_status_def find_intent_def)
  qed
qed

theorem close_auction_outcome_witness:
  "let x = sample_intent\<lparr>in_amount_in := 150\<rparr>;
       w = \<lparr>w_db = sample_db\<lparr>db_intents := [x], db_bids := [sample_bid 1 ''a'' 55 7]\<rparr>, w_events = [], w_bus_faults = [], w_activity = Map.empty\<rparr> in
   \<exists>r w'. close_auction 0 3 w = (r, w') \<and> find_intent 3 (w_db w') = Some (x\<lparr>in_status := PartiallyFilled\<rparr>) \<and>
     map fi_filled_qty (db_fills (w_db w')) = [50]"
proof -
  let ?x = "sample_intent\<lparr>in_amount_in := 150\<rparr>"
  let ?w = "\<lparr>w_db = sample_db\<lparr>db_intents := [?x], db_bids := [sample_bid 1 ''a'' 55 7]\<rparr>, w_events = [], w_bus_faults = [], w_activity = Map.empty\<rparr>"
  obtain r w' where run: "close_auction 0 3 ?w = (r, w')" by fastforce
  have x: "find_intent 3 (w_db ?w) = Some ?x" "in_amount_in ?x = 150" "in_id ?x = 3" "db_faults (w_db ?w) = []"
    "db_fills (w_db ?w) = []"
    by (simp_all add: find_intent_def sample_intent_def Intent_new_def sample_db_def)
  have acc: "auction_bids ?x (bids_of 3 (w_db ?w)) = [sample_bid 1 ''a'' 55 7]"
    by (simp add: auction_bids_def bids_of_def filter_bids_for_order_type_def sort_bids_def sample_bid_def sample_intent_def Intent_new_def)
  have p: "positive_net [sample_bid 1 ''a'' 55 7] = 50" "map fi_filled_qty (partial_fills 0 m 3 150 [sample_bid (Suc 0) ''a'' 55 7]) = [50]" for m
    by (simp_all add: positive_net_def sample_bid_def net_value_def saturate64_def i64_max_def i64_min_def wrap64_def Fill_new_def Let_def)
  have "find_intent 3 (w_db w') = Some (?x\<lparr>in_status := PartiallyFilled\<rparr>) \<and> map fi_filled_qty (db_fills (w_db w')) = [50]"
    using close_auction_outcome [OF run x(4) x(1)] unfolding Let_def acc x(2,3,5) p
    by (simp add: i64_defs p del: partial_fills.simps)
  then show ?thesis unfolding Let_def by (intro exI [of _ r] exI [of _ w'] conjI run) simp_all
qed

section \<open>From the execution engine to settlement\<close>

text \<open>Every execution message that is not among \<open>before\<close> names the nil account as seller.\<close>

definition nil_sellers :: "event set \<Rightarrow> world \<Rightarrow> bool" where
  "nil_sellers before w \<longleftrightarrow>
     (\<forall>e. StreamExecutionCompleted e \<in> set (w_events w) - before \<longrightarrow> ece_seller_account_id e = nil_uuid)"

lemma publish_nil_sellers [intro!]:
  "(\<And>e. ev = StreamExecutionCompleted e \<Longrightarrow> ece_seller_account_id e = nil_uuid) \<Longrightarrow> preserves (nil_sellers E) (publish err ev)"
  unfolding preserves_def nil_sellers_def by (auto simp: publish_def Let_def)

lemma on_db_nil_sellers [intro!]: "preserves (nil_sellers E) (on_db m)"
  by (auto simp: preserves_def on_db_def nil_sellers_def split: prod.splits)

lemma execute_fills_nil_sellers: "preserves (nil_sellers E) (execute_fills now txt i)"
  unfolding execute_fills_def execute_fill_def Let_def
  by (intro preserves_bindA preserves_seqA preserves_for_eachA on_db_nil_sellers preserves_ignoreA publish_nil_sellers)
    (auto split: option.splits)

text \<open>Without an account there is no balance row, and none can be created.\<close>

definition no_account :: "uuid \<Rightarrow> pgdb \<Rightarrow> bool" where
  "no_account c s \<longleftrightarrow> c \<notin> set (db_accounts s) \<and> (\<forall>b\<in>set (db_balances s). bal_account_id b \<noteq> c)"

lemma no_account_find: "no_account c s \<Longrightarrow> find_balance c a s = None"
  by (cases "find_balance c a s") (auto simp: no_account_def dest!: find_balance_SomeD)

lemma no_account_tick [simp]: "no_account c (tick s) = no_account c s"
  by (simp add: no_account_def)

lemma unlock_keeps_no_account:
  "unlock_and_debit d a n now s = (Inr (), t) \<Longrightarrow> no_account c s \<Longrightarrow> no_account c t"
  by (auto simp: unlock_and_debit_def action_simps add_to_balance_def update_balances_def no_account_def Let_def split: if_splits)

lemma credit_without_account: "no_account c s \<Longrightarrow> credit_balance c a n now s \<noteq> (Inr (), t)"
  by (auto simp: credit_balance_def find_or_create_balance_def action_simps no_account_find insert_balance_row_def new_uuid_def
      Let_def no_account_def split: if_splits)

lemma settle_fill_without_seller:
  assumes "no_account seller s" and "balances_wf s"
  shows "\<exists>e t. settle_fill env fid buyer seller a b rate s = (Inl e, t)"
proof -
  obtain r t where run: "settle_fill env fid buyer seller a b rate s = (r, t)" by fastforce
  have False if "r = Inr ()"
  proof -
    have "settle_fill env fid buyer seller a b rate s = (Inr (), t)" using run that by simp
    then obtain f sf u where tx: "settle_fill_tx env fid buyer seller a b rate (tick s) = (Inr (f, sf), u)" by (rule settle_fill_split)
    obtain tf sf' pf where fees: "fill_fees (fi_filled_qty f) rate = (tf, sf', pf)" by (metis prod_cases3)
    obtain s1 s2 where "unlock_and_debit buyer a (fi_filled_qty f) (env_now env) (tick (tick s)) = (Inr (), s1)"
      "credit_balance seller a (wrap64 (fi_filled_qty f - tf)) (env_now env) s1 = (Inr (), s2)"
      using tx fees by (rule settle_fill_tx_parts)
    then show False using unlock_keeps_no_account [of buyer a _ _ "tick (tick s)" s1 seller] credit_without_account [of seller s1] assms(1)
      by simp
  qed
  then show ?thesis using run by (cases r) auto
qed


text \<open>
  C13. What the execution engine publishes cannot be settled: every execution message it sends names
  the nil account as the seller, and as long as no account has that identifier the consumer that
  receives the message moves no balance, writes no ledger entry and marks no fill.
\<close>

theorem engine_fills_never_settle:
  assumes "execute_fills now txt i w = (r, w')" and "StreamExecutionCompleted e \<in> set (w_events w') - set (w_events w)"
    and "process_event env (Some e) s = (q, t)" and "balances_wf s" and "no_account nil_uuid s"
  shows "db_balances t = db_balances s \<and> db_ledger t = db_ledger s \<and> db_fills t = db_fills s"
proof -
  have "nil_sellers (set (w_events w)) w" by (simp add: nil_sellers_def)
  from preservesD [OF execute_fills_nil_sellers assms(1) this]
  have "ece_seller_account_id e = nil_uuid" using assms(2) by (simp add: nil_sellers_def)
  then have "\<exists>x u. settle_fill env (ece_fill_id e) (ece_buyer_account_id e) (ece_seller_account_id e) a b (ece_fee_rate e) s = (Inl x, u)" for a b
    using settle_fill_without_seller [OF assms(5,4)] by simp
  then show ?thesis using process_event_failed_books [OF assms(3,4)] by (simp add: same_books_def)
qed

theorem engine_fills_never_settle_witness:
  "let w = \<lparr>w_db = settle_db\<lparr>db_intents := [sample_intent]\<rparr>, w_events = [], w_bus_faults = [], w_activity = Map.empty\<rparr> in
   \<exists>r w' e q t. execute_fills 5 (\<lambda>_. ''id'') 3 w = (r, w') \<and> StreamExecutionCompleted e \<in> set (w_events w') \<and> ece_fill_id e = 7 \<and>
     process_event sample_env (Some e) (w_db w') = (q, t) \<and> db_balances t = db_balances (w_db w')"
proof -
  let ?w = "\<lparr>w_db = settle_db\<lparr>db_intents := [sample_intent]\<rparr>, w_events = [], w_bus_faults = [], w_activity = Map.empty\<rparr>"
  have id: "in_id sample_intent = 3" by (simp add: sample_intent_def Intent_new_def)
  have "\<exists>r w' e. execute_fills 5 (\<lambda>_. ''id'') 3 ?w = (r, w') \<and> StreamExecutionCompleted e \<in> set (w_events w') \<and> ece_fill_id e = 7 \<and>
      db_balances (w_db w') = db_balances settle_db \<and> db_next_uuid (w_db w') = 102 \<and> db_accounts (w_db w') = db_accounts settle_db"
    by (simp add: execute_fills_def execute_fill_def resolve_account_def storage_evals settle_db_def sample_db_def find_intent_def id
        sample_fill_def find_user_account_def set_intent_status_def new_uuid_def Execution_new_def)
  then obtain r w' e where run: "execute_fills 5 (\<lambda>_. ''id'') 3 ?w = (r, w')"
    and e: "StreamExecutionCompleted e \<in> set (w_events w')" "ece_fill_id e = 7" and b: "db_balances (w_db w') = db_balances settle_db"
    "db_next_uuid (w_db w') = 102" "db_accounts (w_db w') = db_accounts settle_db" by blast
  have wf: "balances_wf (w_db w')" "no_account nil_uuid (w_db w')"
    by (simp_all add: balances_wf_def no_account_def b nil_uuid_def) (simp_all add: settle_db_def balance_key_def sample_db_def)
  obtain q t where p: "process_event sample_env (Some e) (w_db w') = (q, t)" by fastforce
  have "db_balances t = db_balances (w_db w')" using engine_fills_never_settle [OF run _ p wf] e by simp
  then show ?thesis unfolding Let_def
    by (intro exI [of _ r] exI [of _ w'] exI [of _ e] exI [of _ q] exI [of _ t] conjI run e p)
qed

end
