(* ===== verification/Intents.thy ===== *)
theory Intents
  imports Auction
begin

text \<open>
  The intent service of src/services/intent_service.rs: creating, cancelling, failing and amending
  intents, with the funds they lock. Funds move inside transactions, the events are published after
  the commit. The risk engine is called as in the code; \<open>env\<close> is its environment, \<open>now_s\<close> and \<open>now\<close>
  the clock in seconds and as a time stamp.
\<close>

datatype intent_error =
    IntentInsufficientBalance | IntentInvalidAsset string | IntentNotFound | NotAmendable intent_status
  | RiskRejected risk_rejection | IntentRedisError | BalanceError string | StorageError sqlx_error

section \<open>Operations\<close>

definition intent_parse_asset :: "string \<Rightarrow> ('s, intent_error, asset) action" where
  "intent_parse_asset token =
     (case parse_asset token of None \<Rightarrow> raiseA (IntentInvalidAsset (map to_upper token)) | Some a \<Rightarrow> returnA a)"

text \<open>
  The two updates that move funds between the columns, for a signed amount, without a condition on
  the row. The driver reports how many rows there were, and the service does not look.
\<close>

definition shift_to_locked :: "uuid \<Rightarrow> asset \<Rightarrow> i64 \<Rightarrow> timestamp \<Rightarrow> (pgdb, intent_error, unit) action" where
  "shift_to_locked account_id asset amount now =
     bindA (map_errA StorageError (sql_exec (add_to_balance account_id asset (- amount) amount now (\<lambda>_. True)))) (\<lambda>_. returnA ())"

definition shift_to_available :: "uuid \<Rightarrow> asset \<Rightarrow> i64 \<Rightarrow> timestamp \<Rightarrow> (pgdb, intent_error, unit) action" where
  "shift_to_available account_id asset amount now =
     bindA (map_errA StorageError (sql_exec (add_to_balance account_id asset amount (- amount) now (\<lambda>_. True)))) (\<lambda>_. returnA ())"

text \<open>\<open>INSERT INTO intents\<close> with nine columns; the others get the defaults of the migrations.\<close>

definition created_row :: "intent \<Rightarrow> intent" where
  "created_row i = i\<lparr>in_order_type := Market, in_limit_price := None, in_stop_price := None, in_stop_side := Some ''sell'',
     in_triggered_at := None, in_source_chain := ''ethereum'', in_destination_chain := ''ethereum'', in_cross_chain := False\<rparr>"

definition create_intent_tx :: "timestamp \<Rightarrow> uuid \<Rightarrow> asset \<Rightarrow> i64 \<Rightarrow> intent \<Rightarrow> (pgdb, intent_error, unit) action" where
  "create_intent_tx now account_id asset amount intent =
     bindA (map_errA StorageError (sql_query (find_balance account_id asset))) (\<lambda>row.
     let available = (case row of Some b \<Rightarrow> bal_available_balance b | None \<Rightarrow> 0) in
     if available < amount then raiseA IntentInsufficientBalance else
     seqA (shift_to_locked account_id asset amount now)
     (map_errA StorageError (sql_exec (\<lambda>s.
        if in_id intent \<in> in_id ` set (db_intents s) then Inl UniqueViolation
        else Inr ((), s\<lparr>db_intents := db_intents s @ [created_row intent]\<rparr>)))))"

definition create_intent ::
  "i64 \<Rightarrow> timestamp \<Rightarrow> risk_env \<Rightarrow> string \<Rightarrow> uuid \<Rightarrow> string \<Rightarrow> string \<Rightarrow> u64 \<Rightarrow> u64 \<Rightarrow> i64 \<Rightarrow> (intent_error, intent) service" where
  "create_intent now_s now env user_id account_id token_in token_out amount_in min_amount_out deadline =
     bindA (map_errA RiskRejected (validate_intent env
       \<lparr>rp_user_id = user_id, rp_account_id = account_id, rp_token_in = token_in, rp_token_out = token_out,
        rp_amount_in = amount_in, rp_min_amount_out = min_amount_out\<rparr>)) (\<lambda>_.
     bindA (intent_parse_asset token_in) (\<lambda>asset.
     let amount = u64_as_i64 amount_in in
     bindA (on_db new_uuid) (\<lambda>new_id.
     let intent = Intent_new new_id now_s user_id token_in token_out amount_in min_amount_out deadline in
     seqA (on_db (in_tx StorageError (create_intent_tx now account_id asset amount intent)))
    (seqA (record_accepted_intent env user_id amount_in)
    (seqA (publish IntentRedisError (IntentCreated intent))
    (seqA (ignoreA (publish IntentRedisError (StreamIntentCreated intent)))
    (returnA intent)))))))"

definition update_status_of_intent :: "uuid \<Rightarrow> intent_status \<Rightarrow> (pgdb, 'e, intent option) action" where
  "update_status_of_intent intent_id status =
     bindA (get_intent intent_id) (\<lambda>found.
     case found of None \<Rightarrow> returnA None | Some intent \<Rightarrow>
     let intent = intent\<lparr>in_status := status\<rparr> in
     seqA (ignoreA (update_intent intent))
    (returnA (Some intent)))"

text \<open>The transaction that \<open>cancel_intent\<close> and \<open>fail_intent\<close> share.\<close>

definition release_tx :: "timestamp \<Rightarrow> uuid \<Rightarrow> uuid \<Rightarrow> asset \<Rightarrow> i64 \<Rightarrow> intent_status \<Rightarrow> (pgdb, intent_error, unit) action" where
  "release_tx now intent_id account_id asset amount status =
     seqA (shift_to_available account_id asset amount now)
     (map_errA StorageError (sql_update (set_intent_status intent_id status)))"

definition release_intent ::
  "timestamp \<Rightarrow> intent_status \<Rightarrow> (intent \<Rightarrow> event) \<Rightarrow> uuid \<Rightarrow> uuid \<Rightarrow> (intent_error, intent option) service" where
  "release_intent now status mk_event intent_id account_id =
     bindA (on_db (get_intent intent_id)) (\<lambda>found.
     case found of None \<Rightarrow> returnA None | Some intent \<Rightarrow>
     bindA (intent_parse_asset (in_token_in intent)) (\<lambda>asset.
     let amount = in_amount_in intent in
     seqA (on_db (in_tx StorageError (release_tx now intent_id account_id asset amount status)))
    (let intent = intent\<lparr>in_status := status\<rparr> in
     seqA (publish IntentRedisError (mk_event intent))
    (returnA (Some intent)))))"

definition cancel_intent :: "timestamp \<Rightarrow> uuid \<Rightarrow> uuid \<Rightarrow> (intent_error, intent option) service" where
  "cancel_intent now = release_intent now Cancelled IntentCancelled"

definition fail_intent :: "timestamp \<Rightarrow> uuid \<Rightarrow> uuid \<Rightarrow> (intent_error, intent option) service" where
  "fail_intent now = release_intent now Failed IntentFailed"

definition start_bidding :: "uuid \<Rightarrow> (intent_error, intent option) service" where
  "start_bidding intent_id =
     bindA (on_db (get_intent intent_id)) (\<lambda>found.
     case found of None \<Rightarrow> returnA None | Some intent \<Rightarrow>
     let intent = intent\<lparr>in_status := Bidding\<rparr> in
     seqA (ignoreA (on_db (update_intent intent)))
    (seqA (publish IntentRedisError (IntentBidding intent))
    (returnA (Some intent))))"

section \<open>Amendments\<close>

text \<open>The balance adjustment of an amendment by \<open>diff\<close>, which is computed in \<open>i64\<close>.\<close>

definition amend_balance :: "timestamp \<Rightarrow> uuid \<Rightarrow> asset \<Rightarrow> i64 \<Rightarrow> (pgdb, intent_error, unit) action" where
  "amend_balance now account_id asset diff =
     (if 0 < diff then
        bindA (map_errA StorageError (sql_query (find_balance account_id asset))) (\<lambda>row.
        let available = (case row of Some b \<Rightarrow> bal_available_balance b | None \<Rightarrow> 0) in
        if available < diff then raiseA IntentInsufficientBalance
        else shift_to_locked account_id asset diff now)
      else if diff < 0 then shift_to_available account_id asset (wrap64 (- diff)) now
      else returnA ())"

definition insert_amendment :: "uuid \<Rightarrow> int \<Rightarrow> string \<Rightarrow> i64 \<Rightarrow> i64 \<Rightarrow> string \<Rightarrow> (pgdb, intent_error, unit) action" where
  "insert_amendment intent_id num field old_value new_value user_id =
     map_errA StorageError (sql_update (\<lambda>s. s\<lparr>db_amendments := db_amendments s @
       [\<lparr>am_intent_id = intent_id, am_number = num, am_field_changed = field, am_old_value = old_value,
         am_new_value = new_value, am_amended_by = user_id\<rparr>]\<rparr>))"

definition amended_row :: "uuid \<Rightarrow> i64 \<Rightarrow> i64 \<Rightarrow> i64 option \<Rightarrow> pgdb \<Rightarrow> pgdb" where
  "amended_row intent_id amount min_out limit_price s =
     s\<lparr>db_intents := map (\<lambda>i. if in_id i = intent_id
         then i\<lparr>in_amount_in := amount, in_min_amount_out := min_out, in_limit_price := limit_price, in_status := Open\<rparr>
         else i) (db_intents s)\<rparr>"

definition amend_intent_tx ::
  "timestamp \<Rightarrow> uuid \<Rightarrow> uuid \<Rightarrow> u64 option \<Rightarrow> u64 option \<Rightarrow> i64 option \<Rightarrow> (pgdb, intent_error, unit) action" where
  "amend_intent_tx now intent_id account_id new_amount_in new_min_amount_out new_limit_price =
     bindA (map_errA StorageError (sql_query (find_intent intent_id))) (\<lambda>row.
     case row of None \<Rightarrow> raiseA IntentNotFound | Some intent \<Rightarrow>
     if in_status intent \<noteq> Open \<and> in_status intent \<noteq> Bidding then raiseA (NotAmendable (in_status intent)) else
     bindA (intent_parse_asset (in_token_in intent)) (\<lambda>asset.
     let old_amount = in_amount_in intent;
         new_amount = (case new_amount_in of Some a \<Rightarrow> u64_as_i64 a | None \<Rightarrow> old_amount) in
     bindA (map_errA StorageError (sql_query (\<lambda>s. int (length (filter (\<lambda>a. am_intent_id a = intent_id) (db_amendments s)))))) (\<lambda>amendment_count.
     let amendment_num = wrap32 (wrap32 amendment_count + 1);
         diff = wrap64 (new_amount - old_amount) in
     seqA (amend_balance now account_id asset diff)
    (seqA (whenA (new_amount \<noteq> old_amount)
            (insert_amendment intent_id amendment_num ''amount_in'' old_amount new_amount (in_user_id intent)))
    (let new_min_out = (case new_min_amount_out of Some a \<Rightarrow> u64_as_i64 a | None \<Rightarrow> in_min_amount_out intent) in
     seqA (whenA (new_min_out \<noteq> in_min_amount_out intent)
            (insert_amendment intent_id amendment_num ''min_amount_out'' (in_min_amount_out intent) new_min_out (in_user_id intent)))
    (let final_limit_price = (case new_limit_price of Some p \<Rightarrow> Some p | None \<Rightarrow> in_limit_price intent) in
     seqA (whenA (new_limit_price \<noteq> None \<and> new_limit_price \<noteq> in_limit_price intent)
            (insert_amendment intent_id amendment_num ''limit_price''
              (case in_limit_price intent of Some p \<Rightarrow> p | None \<Rightarrow> 0)
              (case new_limit_price of Some p \<Rightarrow> p | None \<Rightarrow> 0) (in_user_id intent)))
    (map_errA StorageError (sql_update (amended_row intent_id new_amount new_min_out final_limit_price)))))))))"

definition amend_intent ::
  "timestamp \<Rightarrow> uuid \<Rightarrow> uuid \<Rightarrow> u64 option \<Rightarrow> u64 option \<Rightarrow> i64 option \<Rightarrow> (intent_error, intent) service" where
  "amend_intent now intent_id account_id new_amount_in new_min_amount_out new_limit_price =
     seqA (on_db (in_tx StorageError (amend_intent_tx now intent_id account_id new_amount_in new_min_amount_out new_limit_price)))
    (bindA (on_db (get_intent intent_id)) (\<lambda>found.
     case found of None \<Rightarrow> raiseA IntentNotFound | Some amended \<Rightarrow>
     seqA (publish IntentRedisError (IntentAmended amended))
    (returnA amended)))"

section \<open>Effects\<close>

lemma shift_moved:
  assumes "balances_wf s"
  shows "shift_to_locked c a n now s = (Inr (), t) \<Longrightarrow>
      moved c a (if has_row c a s then - n else 0) (if has_row c a s then n else 0) s t"
    and "shift_to_available c a n now s = (Inr (), t) \<Longrightarrow>
      moved c a (if has_row c a s then n else 0) (if has_row c a s then - n else 0) s t"
  unfolding shift_to_locked_def shift_to_available_def bindA_Inr_iff map_errA_Inr_iff returnA_def
  using update_where_key [OF _ assms] by blast+

lemma shift_rows:
  assumes "balances_wf s" and "shift_to_available c a n now s = (Inr (), t)"
  shows "has_row k x t = has_row k x s"
  using assms(2) update_where_key [OF _ assms(1)]
  unfolding shift_to_available_def bindA_Inr_iff map_errA_Inr_iff returnA_def by blast

lemma no_row_available: "\<not> has_row c a s \<Longrightarrow> available c a s = 0 \<and> locked c a s = 0"
  by (auto simp: has_row_def available_def locked_def)

text \<open>The effect of a committed intent: its amount is locked, its row is there, no other table changes.\<close>

definition intent_committed :: "uuid \<Rightarrow> asset \<Rightarrow> i64 \<Rightarrow> intent \<Rightarrow> pgdb \<Rightarrow> pgdb \<Rightarrow> bool" where
  "intent_committed c a n i s t \<longleftrightarrow> n \<le> available c a s \<and> balances_wf t \<and>
     (\<forall>d x. available d x t = available d x s - (if d = c \<and> x = a then n else 0)) \<and>
     (\<forall>d x. locked d x t = locked d x s + (if d = c \<and> x = a then n else 0)) \<and>
     (\<forall>x. total_supply x t = total_supply x s) \<and>
     db_intents t = db_intents s @ [created_row i] \<and> db_ledger t = db_ledger s \<and> db_fills t = db_fills s"

lemma create_intent_tx_effect:
  assumes "create_intent_tx now c a n i s = (Inr (), t)" and wf: "balances_wf s" and "0 \<le> n"
  shows "intent_committed c a n i s t"
proof -
  obtain u where le: "n \<le> available c a s" and u: "shift_to_locked c a n now (tick s) = (Inr (), u)"
    and t: "t = tick (u\<lparr>db_intents := db_intents u @ [created_row i]\<rparr>)"
    using assms(1) by (auto simp: create_intent_tx_def action_simps Let_def available_def split: if_splits option.splits)
  have "n = 0" if "\<not> has_row c a s" using no_row_available [OF that] le \<open>0 \<le> n\<close> by simp
  then have "moved c a (- n) n s u" using shift_moved(1) [OF _ u] wf by (cases "has_row c a s") auto
  moreover have "balances_wf t \<longleftrightarrow> balances_wf u" using t by (simp add: balances_wf_def)
  ultimately show ?thesis using le t table_views_cong [of t u]
    by (auto simp: intent_committed_def moved_def same_tables_def)
qed

text \<open>Validation reads: apart from the fault schedule and the memory of the risk engine nothing changes.\<close>

definition only_faults :: "pgdb \<Rightarrow> pgdb \<Rightarrow> bool" where
  "only_faults d s \<longleftrightarrow> (\<exists>q. s = d\<lparr>db_faults := q\<rparr>)"

definition reads_only :: "world \<Rightarrow> world \<Rightarrow> bool" where
  "reads_only v w \<longleftrightarrow> only_faults (w_db v) (w_db w) \<and> w_events w = w_events v"

lemma only_faults_refl [simp]: "only_faults d d"
  unfolding only_faults_def by (rule exI [of _ "db_faults d"]) simp

lemma only_faults_query [intro!]: "preserves (only_faults d) (sql_query f)"
  by (auto simp: preserves_def sql_query_def only_faults_def tick_def)

lemma on_db_reads [intro!]: "(\<And>d. preserves (only_faults d) m) \<Longrightarrow> preserves (reads_only v) (on_db m)"
  by (auto simp: preserves_def reads_only_def on_db_def split: prod.splits) (metis snd_conv)

lemma risk_reads [intro!]:
  "preserves (only_faults d) (find_market env x y)"
  "preserves (only_faults d) (check_balance env c x n)"
  "preserves (only_faults d) (check_price_deviation env n l k)"
  unfolding find_market_def list_markets_def market_find_all_def check_balance_def get_balances_def
    balance_find_by_account_id_def check_price_deviation_def Let_def
  by (auto split: option.splits)

lemma check_user_limits_reads [intro!]: "preserves (reads_only v) (check_user_limits env c n)"
  by (auto simp: preserves_def check_user_limits_def Let_def reads_only_def)

lemma risk_parse_asset_reads [intro!]: "preserves I (risk_parse_asset t)"
  by (auto simp: risk_parse_asset_def split: option.splits)

lemma validate_reads: "preserves (reads_only v) (validate_intent env p)"
  unfolding validate_intent_def by auto

lemma validate_ok:
  assumes "validate_intent env p w = (Inr k, w')"
  shows "k \<in> set (db_markets (w_db w)) \<union> set (case re_cached_markets env of None \<Rightarrow> [] | Some ks \<Rightarrow> ks) \<and>
    mk_min_order_size k \<le> u64_as_i64 (rp_amount_in p)"
  using assms
  by (auto simp: validate_intent_def action_simps find_market_def list_markets_def market_find_all_def risk_parse_asset_def
      split: if_splits option.splits dest!: find_Some_memD)

lemma create_tx_not_redis: "create_intent_tx now c a n i s \<noteq> (Inl IntentRedisError, t)"
  by (auto simp: create_intent_tx_def shift_to_locked_def action_evals Let_def sql_query_def sql_exec_def
      split: if_splits option.splits sum.splits prod.splits)

lemma in_tx_not_redis:
  assumes "in_tx StorageError m s = (Inl IntentRedisError, t)" and "\<And>s t. m s \<noteq> (Inl IntentRedisError, t)"
  shows False
  using assms by (auto simp: in_tx_def action_evals sql_query_def split: if_splits sum.splits prod.splits)

text \<open>Committing again from a state that differs only in the fault schedule and in the counter.\<close>

lemma intent_committed_cong:
  assumes "intent_committed c a n i s' t'" and "db_balances s' = db_balances s" "db_intents s' = db_intents s" "db_ledger s' = db_ledger s"
    "db_fills s' = db_fills s"
  shows "intent_committed c a n i s t'"
  using assms table_views_cong [of s' s] by (simp add: intent_committed_def)

lemma intent_committed_tick [simp]: "intent_committed c a n i s (tick t) = intent_committed c a n i s t"
  by (simp add: intent_committed_def)

lemma create_intent_commit:
  assumes "in_tx StorageError (create_intent_tx now c a n i) s = (Inr (), t)" and "balances_wf s" and "0 \<le> n"
  shows "intent_committed c a n i s t"
proof -
  obtain u where "create_intent_tx now c a n i (tick s) = (Inr (), u)" "t = tick u" using assms(1) by (auto simp: in_tx_Inr_iff)
  then have "intent_committed c a n i (tick s) t" using create_intent_tx_effect [of now c a n i "tick s" u] assms(2,3) by simp
  then show ?thesis by (rule intent_committed_cong) simp_all
qed

lemma find_amended_row:
  "find_intent i (amended_row i n l p s) =
     map_option (\<lambda>x. x\<lparr>in_amount_in := n, in_min_amount_out := l, in_limit_price := p, in_status := Open\<rparr>) (find_intent i s)"
proof -
  let ?f = "\<lambda>x. x\<lparr>in_amount_in := n, in_min_amount_out := l, in_limit_price := p, in_status := Open\<rparr>"
  have "List.find (\<lambda>x. in_id x = i) (map (\<lambda>x. if in_id x = i then ?f x else x) xs) = map_option ?f (List.find (\<lambda>x. in_id x = i) xs)" for xs
    by (induction xs) auto
  then show ?thesis by (simp add: find_intent_def amended_row_def)
qed

lemma release_tx_effect:
  assumes "in_tx StorageError (release_tx now i c a n st) s = (Inr (), t)" and wf: "balances_wf s"
  shows "\<exists>u. moved c a (if has_row c a s then n else 0) (if has_row c a s then - n else 0) s u \<and>
    (\<forall>k x. has_row k x u = has_row k x s) \<and> t = tick (tick (set_intent_status i st u))"
proof -
  obtain u where "shift_to_available c a n now (tick s) = (Inr (), u)" "t = tick (tick (set_intent_status i st u))"
    using assms(1) by (auto simp: in_tx_Inr_iff release_tx_def action_simps)
  then show ?thesis using shift_moved(2) [of "tick s" c a n now u] shift_rows [of "tick s" c a n now u] wf by (intro exI [of _ u]) simp
qed

text \<open>What releasing the funds of an intent does, for every status it may have had.\<close>

definition released :: "uuid \<Rightarrow> asset \<Rightarrow> intent \<Rightarrow> intent_status \<Rightarrow> pgdb \<Rightarrow> pgdb \<Rightarrow> bool" where
  "released c a y st s t \<longleftrightarrow> balances_wf t \<and> find_intent (in_id y) t = Some (y\<lparr>in_status := st\<rparr>) \<and>
     available c a t = available c a s + (if has_row c a s then in_amount_in y else 0) \<and>
     locked c a t = locked c a s - (if has_row c a s then in_amount_in y else 0) \<and>
     (\<forall>x. total_supply x t = total_supply x s) \<and> (\<forall>k x. has_row k x t = has_row k x s) \<and> db_ledger t = db_ledger s"

lemma release_intent_effect:
  assumes run: "release_intent now st ev i c w = (Inr (Some x), w')" and wf: "balances_wf (w_db w)"
  shows "\<exists>y a. find_intent i (w_db w) = Some y \<and> in_id y = i \<and> parse_asset (in_token_in y) = Some a \<and> x = y\<lparr>in_status := st\<rparr> \<and>
    released c a y st (w_db w) (w_db w')"
proof -
  obtain y a d where y: "find_intent i (w_db w) = Some y" "parse_asset (in_token_in y) = Some a" "x = y\<lparr>in_status := st\<rparr>"
    and d: "in_tx StorageError (release_tx now i c a (in_amount_in y) st) (tick (w_db w)) = (Inr (), d)" "w_db w' = d"
    using run unfolding release_intent_def get_intent_def
    by (auto simp: bindA_Inr_iff seqA_Inr_iff on_db_iff query_or_iff intent_parse_asset_def returnA_def raiseA_def publish_Inr_iff Let_def
        split: option.splits if_splits)
  obtain u where u: "moved c a (if has_row c a (w_db w) then in_amount_in y else 0) (if has_row c a (w_db w) then - in_amount_in y else 0) (w_db w) u"
    "\<forall>k x. has_row k x u = has_row k x (w_db w)" "d = tick (tick (set_intent_status i st u))"
    using release_tx_effect [OF d(1)] wf by auto
  have id: "in_id y = i" using y(1) by (auto simp: find_intent_def dest: find_Some_memD)
  have views: "available c a d = available c a u" "locked c a d = locked c a u" "total_supply z d = total_supply z u" "balances_wf d = balances_wf u"
    "db_ledger d = db_ledger u" "has_row k z d = has_row k z u" for z k
    using table_views_cong [of "set_intent_status i st u" u] u(3) by (simp_all add: set_intent_status_def balances_wf_def has_row_def)
  have "find_intent i d = Some (y\<lparr>in_status := st\<rparr>)"
    using u find_set_intent_status [of i st u] y(1) by (simp add: moved_def same_tables_def find_intent_def)
  then have "released c a y st (w_db w) d" using u(1,2) views id by (auto simp: released_def moved_def same_tables_def)
  then show ?thesis using y d(2) id by blast
qed

section \<open>A small example\<close>

definition sample_market :: market where
  "sample_market = \<lparr>mk_id = 5, mk_base_asset = ETH, mk_quote_asset = USDC, mk_tick_size = 0, mk_min_order_size = 1, mk_fee_rate = f64_0_001,
     mk_chain = ''ethereum'', mk_settlement_contract = None, mk_base_token_mint = None, mk_quote_token_mint = None,
     mk_base_decimals = 18, mk_quote_decimals = 6, mk_created_at = 0\<rparr>"

definition intent_db :: pgdb where
  "intent_db = sample_db\<lparr>db_markets := [sample_market],
     db_balances := [\<lparr>bal_id = 2, bal_account_id = 10, bal_asset = USDC, bal_available_balance = 900, bal_locked_balance = 0, bal_updated_at = 0\<rparr>]\<rparr>"

definition sample_create :: "world \<Rightarrow> (intent_error + intent) \<times> world" where
  "sample_create = create_intent 0 0 (sample_risk 7) ''alice'' 10 ''USDC'' ''eth'' 600 1 99"

lemmas intent_evals = storage_evals sample_world_def sample_market_def intent_db_def sample_db_def sample_risk_def find_balance_def
  validate_intent_def risk_parse_asset_def intent_parse_asset_def find_market_def list_markets_def market_find_all_def is_solana_def
  check_balance_def get_balances_def balance_find_by_account_id_def check_price_deviation_def oracle_reference_def check_user_limits_def
  prune_old_intents_def reset_if_new_day_def activity_of_def activity_new_def record_accepted_intent_def create_intent_def create_intent_tx_def
  shift_to_locked_def shift_to_available_def add_to_balance_def update_balances_def u64_as_i64_def wrap64_def in_i64_def i64_max_def i64_min_def
  find_intent_def created_row_def Intent_new_def

lemma parse_asset_samples [simp]: "parse_asset ''USDC'' = Some USDC" "parse_asset ''eth'' = Some ETH"
  by code_simp+

lemma sample_create_runs:
  "\<exists>i w'. sample_create (sample_world intent_db) = (Inr i, w')"
  by (simp add: sample_create_def intent_evals)

section \<open>Properties\<close>

text \<open>
  C14. Creating an intent locks its funds, all or nothing: if it succeeds, exactly the amount has moved
  from the available to the locked funds of the account, which had it, every other balance and every
  total is as before, and the intent is stored and announced. If it fails, neither balances nor intents
  have changed, with one exception: when the announcement to Redis fails, the error is returned
  although the funds are locked and the intent is stored. The amount is never negative, although it
  is cast from \<open>u64\<close>, because the minimal order size is checked on the cast value.
\<close>

theorem create_intent_effect:
  assumes run: "create_intent now_s now env user c token_in token_out amt min_out deadline w = (r, w')"
    and wf: "balances_wf (w_db w)"
    and sizes: "\<And>k. k \<in> set (db_markets (w_db w)) \<union> set (case re_cached_markets env of None \<Rightarrow> [] | Some ks \<Rightarrow> ks) \<Longrightarrow> 0 \<le> mk_min_order_size k"
  shows "(\<forall>i. r = Inr i \<longrightarrow> (\<exists>a. parse_asset token_in = Some a \<and> in_amount_in i = u64_as_i64 amt \<and> 0 \<le> in_amount_in i \<and>
           intent_committed c a (in_amount_in i) i (w_db w) (w_db w') \<and> IntentCreated i \<in> set (w_events w'))) \<and>
    (\<forall>e. r = Inl e \<and> e \<noteq> IntentRedisError \<longrightarrow>
           db_balances (w_db w') = db_balances (w_db w) \<and> db_intents (w_db w') = db_intents (w_db w)) \<and>
    (r = Inl IntentRedisError \<longrightarrow> (\<exists>i a. parse_asset token_in = Some a \<and> intent_committed c a (u64_as_i64 amt) i (w_db w) (w_db w')))"
proof -
  let ?p = "\<lparr>rp_user_id = user, rp_account_id = c, rp_token_in = token_in, rp_token_out = token_out,
    rp_amount_in = amt, rp_min_amount_out = min_out\<rparr>"
  obtain q v where v: "validate_intent env ?p w = (q, v)" by fastforce
  have ro: "only_faults (w_db w) (w_db v)" using preservesD [OF validate_reads v, of w] by (simp add: reads_only_def)
  show ?thesis
  proof (cases "(\<exists>e. q = Inl e) \<or> parse_asset token_in = None")
    case True
    then have "w' = v \<and> (\<exists>e. r = Inl e \<and> e \<noteq> IntentRedisError)" using run v
      by (auto simp: create_intent_def bindA_def map_errA_def intent_parse_asset_def raiseA_def split: sum.splits)
    then show ?thesis using ro by (auto simp: only_faults_def)
  next
    case False
    then obtain k a where k: "q = Inr k" and a: "parse_asset token_in = Some a" by (cases q) auto
    let ?n = "u64_as_i64 amt"
    let ?i = "Intent_new (db_next_uuid (w_db v)) now_s user token_in token_out amt min_out deadline"
    let ?d = "(w_db v)\<lparr>db_next_uuid := Suc (db_next_uuid (w_db v))\<rparr>"
    have n: "0 \<le> ?n" using validate_ok [OF v [unfolded k]] sizes by fastforce
    have wfd: "balances_wf ?d" using wf ro by (auto simp: only_faults_def balances_wf_def less_SucI)
    obtain x d where x: "in_tx StorageError (create_intent_tx now c a ?n ?i) ?d = (x, d)" by fastforce
    show ?thesis
    proof (cases x)
      case (Inl e)
      then have "r = Inl e" "w_db w' = d" using run v x a k
        by (auto simp: create_intent_def bindA_def seqA_def map_errA_def intent_parse_asset_def returnA_def Let_def on_db_def new_uuid_def)
      moreover have "e \<noteq> IntentRedisError" using in_tx_not_redis x Inl create_tx_not_redis by metis
      moreover obtain f where "d = ?d\<lparr>db_faults := f\<rparr>" using in_tx_atomic [OF x [unfolded Inl]] by blast
      ultimately show ?thesis using ro by (auto simp: only_faults_def)
    next
      case (Inr u)
      then have "intent_committed c a ?n ?i ?d d" using create_intent_commit x wfd n by simp
      then have com: "intent_committed c a ?n ?i (w_db w) d"
        by (rule intent_committed_cong) (use ro in \<open>auto simp: only_faults_def\<close>)
      have "w_db w' = d \<and> (r = Inl IntentRedisError \<or> r = Inr ?i \<and> IntentCreated ?i \<in> set (w_events w'))" using run v x a k Inr
        by (auto simp: create_intent_def bindA_def seqA_def map_errA_def intent_parse_asset_def returnA_def Let_def on_db_def new_uuid_def
            record_accepted_intent_def publish_def ignoreA_def split: if_splits)
      then show ?thesis using com a n by (auto simp: Intent_new_def)
    qed
  qed
qed

theorem create_intent_effect_witness:
  "\<exists>i w'. sample_create (sample_world intent_db) = (Inr i, w') \<and> in_amount_in i = 600 \<and>
     available 10 USDC (w_db w') = 300 \<and> locked 10 USDC (w_db w') = 600 \<and> IntentCreated i \<in> set (w_events w')"
proof -
  let ?w = "sample_world intent_db"
  obtain i w' where run: "sample_create ?w = (Inr i, w')" using sample_create_runs by blast
  have wf: "balances_wf (w_db ?w)" by (simp add: balances_wf_def sample_world_def intent_db_def sample_db_def)
  have sizes: "0 \<le> mk_min_order_size k" if "k \<in> set (db_markets (w_db ?w)) \<union> set (case re_cached_markets (sample_risk 7) of None \<Rightarrow> [] | Some ks \<Rightarrow> ks)" for k
    using that by (simp add: sample_world_def intent_db_def sample_risk_def sample_market_def)
  have n: "u64_as_i64 600 = 600" by (simp add: u64_as_i64_def wrap64_def)
  have "available 10 USDC (w_db ?w) = 900" "locked 10 USDC (w_db ?w) = 0"
    by (simp_all add: available_def locked_def find_balance_def sample_world_def intent_db_def)
  then have "in_amount_in i = 600 \<and> available 10 USDC (w_db w') = 300 \<and> locked 10 USDC (w_db w') = 600 \<and> IntentCreated i \<in> set (w_events w')"
    using create_intent_effect [OF run [unfolded sample_create_def] wf sizes] n by (auto simp: intent_committed_def)
  then show ?thesis using run by blast
qed

text \<open>A release succeeds whenever its statements can, whatever the status of the intent and whoever owns the account.\<close>

lemma release_intent_runs:
  assumes f: "find_intent i (w_db w) = Some y" and p: "parse_asset (in_token_in y) = Some a" and row: "find_balance c a (w_db w) = Some b"
    and wf: "balances_wf (w_db w)" and nf: "db_faults (w_db w) = []" "w_bus_faults w = []"
    and fits: "in_i64 (available c a (w_db w) + in_amount_in y)" "in_i64 (locked c a (w_db w) - in_amount_in y)"
  shows "\<exists>w1. release_intent now st ev i c w = (Inr (Some (y\<lparr>in_status := st\<rparr>)), w1) \<and> db_faults (w_db w1) = [] \<and> w_bus_faults w1 = []"
proof -
  let ?s = "w_db w"
  have only: "x = b" if "x \<in> set (db_balances ?s)" "bal_account_id x = c" "bal_asset x = a" for x
    using find_balance_mem [OF wf that(1)] that row by simp
  have quiet: "\<not> next_fault u" "tick u = u" if "db_faults u = []" for u using that by (simp_all add: next_fault_def tick_def)
  have "list_all (\<lambda>x. in_i64 (bal_available_balance x + in_amount_in y) \<and> in_i64 (bal_locked_balance x + - in_amount_in y))
      (filter (\<lambda>x. bal_account_id x = c \<and> bal_asset x = a \<and> True) (db_balances ?s))"
    using only fits row by (auto simp: list_all_iff available_def locked_def)
  then have "\<exists>n d. add_to_balance c a (in_amount_in y) (- in_amount_in y) now (\<lambda>_. True) ?s = Inr (n, d) \<and> db_faults d = []"
    using nf(1) by (simp add: add_to_balance_def Let_def update_balances_def)
  then obtain n d where d: "add_to_balance c a (in_amount_in y) (- in_amount_in y) now (\<lambda>_. True) ?s = Inr (n, d)" "db_faults d = []" by blast
  let ?d = "set_intent_status i st d"
  have nd: "db_faults ?d = []" using d(2) by (simp add: set_intent_status_def)
  have "shift_to_available c a (in_amount_in y) now ?s = (Inr (), d)"
    by (simp add: shift_to_available_def bindA_def map_errA_def sql_exec_def returnA_def d quiet nf)
  then have "release_tx now i c a (in_amount_in y) st ?s = (Inr (), ?d)"
    by (simp add: release_tx_def seqA_def bindA_def map_errA_def sql_update_def sql_exec_def quiet nd d(2))
  then have tx: "in_tx StorageError (release_tx now i c a (in_amount_in y) st) ?s = (Inr (), ?d)"
    by (simp add: in_tx_Inr_iff quiet nf nd d(2))
  have "get_intent i ?s = (Inr (Some y) :: intent_error + intent option, ?s)"
    by (simp add: get_intent_def query_or_def bindA_def tryA_def sql_query_def returnA_def f quiet nf)
  then have "release_intent now st ev i c w = (Inr (Some (y\<lparr>in_status := st\<rparr>)), w\<lparr>w_db := ?d, w_events := w_events w @ [ev (y\<lparr>in_status := st\<rparr>)]\<rparr>)"
    by (simp add: release_intent_def seqA_def bindA_def on_db_def intent_parse_asset_def p tx publish_def nf(2) returnA_def Let_def)
  then show ?thesis using nd nf(2) by simp
qed

text \<open>
  C15. Cancelling has no guard: for an intent of any status and any account with a row for its token, whoever owns the
  intent and the account, a call succeeds when the database and the event bus answer and the columns stay in range, and it succeeds again for the
  intent it has just cancelled. Each call moves the amount of the intent from the locked to the available funds of the
  named account, whether it was locked for this intent, for another or not at all; nothing keeps the locked
  amount from becoming negative. The totals never change.
\<close>

theorem cancel_has_no_guard:
  assumes "find_intent i (w_db w) = Some y" and "parse_asset (in_token_in y) = Some a" and "has_row c a (w_db w)"
    and "balances_wf (w_db w)" and "db_faults (w_db w) = []" and "w_bus_faults w = []"
    and "0 \<le> in_amount_in y" and "0 \<le> available c a (w_db w)" and "available c a (w_db w) + 2 * in_amount_in y \<le> i64_max"
    and "in_i64 (locked c a (w_db w))" and "in_i64 (locked c a (w_db w) - 2 * in_amount_in y)"
  shows "\<exists>w1 w2. cancel_intent now i c w = (Inr (Some (y\<lparr>in_status := Cancelled\<rparr>)), w1) \<and>
    cancel_intent now' i c w1 = (Inr (Some (y\<lparr>in_status := Cancelled\<rparr>)), w2) \<and>
    available c a (w_db w1) = available c a (w_db w) + in_amount_in y \<and> locked c a (w_db w1) = locked c a (w_db w) - in_amount_in y \<and>
    available c a (w_db w2) = available c a (w_db w) + 2 * in_amount_in y \<and>
    locked c a (w_db w2) = locked c a (w_db w) - 2 * in_amount_in y \<and>
    (\<forall>x. total_supply x (w_db w2) = total_supply x (w_db w))"
proof -
  let ?z = "y\<lparr>in_status := Cancelled\<rparr>"
  obtain b where b: "find_balance c a (w_db w) = Some b" using assms(3) by (auto simp: has_row_def)
  obtain w1 where w1: "cancel_intent now i c w = (Inr (Some ?z), w1)" "db_faults (w_db w1) = []" "w_bus_faults w1 = []"
    using release_intent_runs [OF assms(1,2) b assms(4-6), of now Cancelled IntentCancelled] assms(7-11)
    unfolding cancel_intent_def by (auto simp: i64_defs)
  have r1: "released c a y Cancelled (w_db w) (w_db w1)" "in_id y = i"
    using release_intent_effect [OF w1(1) [unfolded cancel_intent_def] assms(4)] assms(1,2) by auto
  have v1: "available c a (w_db w1) = available c a (w_db w) + in_amount_in y" "locked c a (w_db w1) = locked c a (w_db w) - in_amount_in y"
    "balances_wf (w_db w1)" "find_intent i (w_db w1) = Some ?z" "has_row c a (w_db w1)" "\<forall>x. total_supply x (w_db w1) = total_supply x (w_db w)"
    using r1 assms(3) by (simp_all add: released_def)
  obtain b1 where b1: "find_balance c a (w_db w1) = Some b1" using v1(5) by (auto simp: has_row_def)
  obtain w2 where w2: "cancel_intent now' i c w1 = (Inr (Some ?z), w2)"
    using release_intent_runs [OF v1(4) _ b1 v1(3) w1(2,3), of now' Cancelled IntentCancelled] assms(2,7-11)
    unfolding cancel_intent_def by (auto simp: i64_defs v1(1,2))
  have r2: "released c a ?z Cancelled (w_db w1) (w_db w2)"
    using release_intent_effect [OF w2 [unfolded cancel_intent_def] v1(3)] v1(4) assms(2) by auto
  show ?thesis using w1(1) w2 v1 r2 by (intro exI [of _ w1] exI [of _ w2]) (simp add: released_def)
qed

text \<open>Bob's intent, matched to a solver, is cancelled twice in the name of an account of Alice that has nothing locked.\<close>

theorem cancel_has_no_guard_witness:
  "let y = sample_intent\<lparr>in_amount_in := 600, in_user_id := ''bob'', in_status := Matched\<rparr>; w = sample_world (intent_db\<lparr>db_intents := [y]\<rparr>) in
   \<exists>x w1 w2. cancel_intent 0 3 10 w = (Inr (Some x), w1) \<and> cancel_intent 0 3 10 w1 = (Inr (Some x), w2) \<and>
     available 10 USDC (w_db w2) = 2100 \<and> locked 10 USDC (w_db w2) = - 1200"
proof -
  let ?y = "sample_intent\<lparr>in_amount_in := 600, in_user_id := ''bob'', in_status := Matched\<rparr>"
  let ?w = "sample_world (intent_db\<lparr>db_intents := [?y]\<rparr>)"
  have f: "find_intent 3 (w_db ?w) = Some ?y" "parse_asset (in_token_in ?y) = Some USDC" "has_row 10 USDC (w_db ?w)"
    "db_faults (w_db ?w) = []" "w_bus_faults ?w = []"
    by (simp_all add: find_intent_def sample_world_def intent_db_def sample_db_def sample_intent_def Intent_new_def has_row_def find_balance_def
        intent_evals)
  have wf: "balances_wf (w_db ?w)" by (simp add: balances_wf_def sample_world_def intent_db_def sample_db_def)
  have v: "available 10 USDC (w_db ?w) = 900" "locked 10 USDC (w_db ?w) = 0"
    by (simp_all add: available_def locked_def find_balance_def sample_world_def intent_db_def)
  show ?thesis
    using cancel_has_no_guard [OF f(1-3) wf f(4,5), of 0 0] unfolding Let_def by (auto simp: v i64_defs)
qed

text \<open>The rows of an amendment are written after the balance was adjusted and touch no balance.\<close>

lemma insert_amendment_db:
  "whenA b (insert_amendment i n f x y u) s = (Inr (), t) \<Longrightarrow>
     db_balances t = db_balances s \<and> db_intents t = db_intents s \<and> db_ledger t = db_ledger s \<and> db_next_uuid t = db_next_uuid s"
  by (auto simp: insert_amendment_def action_simps split: if_splits)

lemma amend_balance_effect:
  assumes "amend_balance now c a diff s = (Inr (), t)" and wf: "balances_wf s" and "in_i64 (- diff)"
  shows "(0 < diff \<longrightarrow> diff \<le> available c a s) \<and> moved c a (if has_row c a s then - diff else 0) (if has_row c a s then diff else 0) s t"
proof -
  consider "0 < diff" | "diff < 0" | "diff = 0" by linarith
  then show ?thesis
  proof cases
    case 1
    then obtain u where "shift_to_locked c a diff now (tick s) = (Inr (), t)" "diff \<le> available c a s"
      using assms(1) by (auto simp: amend_balance_def action_simps Let_def available_def split: if_splits option.splits)
    then show ?thesis using shift_moved(1) [of "tick s"] wf by auto
  next
    case 2
    then have "shift_to_available c a (- diff) now s = (Inr (), t)" using assms(1,3) by (simp add: amend_balance_def)
    then show ?thesis using shift_moved(2) [OF wf] 2 by fastforce
  next
    case 3
    then show ?thesis using assms(1) wf by (simp add: amend_balance_def returnA_def moved_zero)
  qed
qed

lemma amend_intent_tx_effect:
  assumes run: "amend_intent_tx now i c na nm np s = (Inr (), t)" and wf: "balances_wf s"
    and y: "find_intent i s = Some y" and fits: "in_i64 (amount - in_amount_in y)" "in_i64 (in_amount_in y - amount)"
    and amount: "amount = (case na of Some n \<Rightarrow> u64_as_i64 n | None \<Rightarrow> in_amount_in y)"
  shows "in_status y \<in> {Open, Bidding} \<and> (\<exists>a. parse_asset (in_token_in y) = Some a \<and>
    amount - in_amount_in y \<le> max 0 (available c a s) \<and>
    available c a t = available c a s - (if has_row c a s then amount - in_amount_in y else 0) \<and>
    locked c a t = locked c a s + (if has_row c a s then amount - in_amount_in y else 0) \<and>
    (\<forall>x. total_supply x t = total_supply x s) \<and>
    (\<exists>l p. find_intent i t = Some (y\<lparr>in_amount_in := amount, in_min_amount_out := l, in_limit_price := p, in_status := Open\<rparr>)))"
proof -
  let ?diff = "amount - in_amount_in y"
  obtain a u1 u2 u3 u4 n l p b1 b2 b3 f1 f2 f3 x1 x2 x3 y1 y2 y3 where st: "in_status y \<in> {Open, Bidding}"
    and a: "parse_asset (in_token_in y) = Some a"
    and u1: "amend_balance now c a (wrap64 ?diff) (tick (tick s)) = (Inr (), u1)"
    and u2: "whenA b1 (insert_amendment i n f1 x1 y1 (in_user_id y)) u1 = (Inr (), u2)"
    and u3: "whenA b2 (insert_amendment i n f2 x2 y2 (in_user_id y)) u2 = (Inr (), u3)"
    and u4: "whenA b3 (insert_amendment i n f3 x3 y3 (in_user_id y)) u3 = (Inr (), u4)"
    and t: "t = tick (amended_row i amount l p u4)"
    using run y unfolding amend_intent_tx_def amount
    by (auto simp: bindA_Inr_iff seqA_Inr_iff map_errA_Inr_iff sql_query_Inr_iff intent_parse_asset_def returnA_def raiseA_def Let_def
        sql_update_def sql_exec_Inr_iff split: option.splits if_splits)
  have m: "?diff \<le> max 0 (available c a s)" "moved c a (if has_row c a s then - ?diff else 0) (if has_row c a s then ?diff else 0) s u1"
    using amend_balance_effect [OF u1] wf fits by auto
  have same: "db_balances u4 = db_balances u1" "db_intents u4 = db_intents u1"
    using insert_amendment_db [OF u2] insert_amendment_db [OF u3] insert_amendment_db [OF u4] by simp_all
  have "find_intent i u4 = Some y" using y same(2) m(2) by (simp add: find_intent_def moved_def same_tables_def)
  then have "find_intent i t = Some (y\<lparr>in_amount_in := amount, in_min_amount_out := l, in_limit_price := p, in_status := Open\<rparr>)"
    using find_amended_row [of i amount l p u4] t by (simp add: find_intent_def)
  moreover have "available c a t = available c a u1" "locked c a t = locked c a u1" "total_supply x t = total_supply x u1" for x
    using table_views_cong [of t u1] t same(1) by (simp_all add: amended_row_def)
  ultimately show ?thesis using st a m by (auto simp: moved_def)
qed

text \<open>
  An amendment moves the lock by exactly the change of the amount: only an open or bidding intent
  can be amended, it becomes open again with the new amount, and the difference goes from the available
  to the locked funds (or back) of the account that the caller names, if that has a balance, whoever
  owns the intent; totals never change. Raising needs the difference to be available. Lowering has no
  condition: a new amount from \<open>2^63\<close> on is cast to a negative number, and more is unlocked than the
  intent ever locked.
\<close>

theorem amend_moves_lock:
  assumes run: "amend_intent now i c na nm np w = (Inr x, w')" and wf: "balances_wf (w_db w)"
    and y: "find_intent i (w_db w) = Some y" and amount: "amount = (case na of Some n \<Rightarrow> u64_as_i64 n | None \<Rightarrow> in_amount_in y)"
    and fits: "in_i64 (amount - in_amount_in y)" "in_i64 (in_amount_in y - amount)"
  shows "in_status y \<in> {Open, Bidding} \<and> in_amount_in x = amount \<and> in_status x = Open \<and>
    (\<exists>a. parse_asset (in_token_in y) = Some a \<and> amount - in_amount_in y \<le> max 0 (available c a (w_db w)) \<and>
      available c a (w_db w') = available c a (w_db w) - (if has_row c a (w_db w) then amount - in_amount_in y else 0) \<and>
      locked c a (w_db w') = locked c a (w_db w) + (if has_row c a (w_db w) then amount - in_amount_in y else 0) \<and>
      (\<forall>z. total_supply z (w_db w') = total_supply z (w_db w)))"
proof -
  obtain d where d: "in_tx StorageError (amend_intent_tx now i c na nm np) (w_db w) = (Inr (), d)"
    and x: "find_intent i d = Some x" and w': "w_db w' = tick d"
    using run unfolding amend_intent_def get_intent_def
    by (auto simp: bindA_Inr_iff seqA_Inr_iff on_db_iff query_or_iff returnA_def raiseA_def publish_Inr_iff split: option.splits if_splits)
  obtain u where u: "amend_intent_tx now i c na nm np (tick (w_db w)) = (Inr (), u)" "d = tick u"
    using d by (auto simp: in_tx_Inr_iff)
  have "has_row c a (tick s) = has_row c a s" "find_intent i (tick s) = find_intent i s" for a s by (simp_all add: find_intent_def)
  then show ?thesis using amend_intent_tx_effect [OF u(1) _ _ fits] wf y amount x w' u(2) by fastforce
qed

theorem amend_moves_lock_witness:
  "let y = sample_intent\<lparr>in_amount_in := 600\<rparr>; w = sample_world (intent_db\<lparr>db_intents := [y]\<rparr>) in
   \<exists>x w'. amend_intent 0 3 10 (Some (- 100)) None None w = (Inr x, w') \<and> in_amount_in x = - 100 \<and>
     available 10 USDC (w_db w') = 1600 \<and> locked 10 USDC (w_db w') = - 700"
proof -
  let ?y = "sample_intent\<lparr>in_amount_in := 600\<rparr>"
  let ?w = "sample_world (intent_db\<lparr>db_intents := [?y]\<rparr>)"
  have "\<exists>x w'. amend_intent 0 3 10 (Some (- 100)) None None ?w = (Inr x, w')"
    by (simp add: amend_intent_def amend_intent_tx_def amend_balance_def insert_amendment_def amended_row_def intent_evals sample_intent_def wrap32_def)
  then obtain x w' where run: "amend_intent 0 3 10 (Some (- 100)) None None ?w = (Inr x, w')" by blast
  have wf: "balances_wf (w_db ?w)" "has_row 10 USDC (w_db ?w)" "find_intent 3 (w_db ?w) = Some ?y"
    by (simp_all add: balances_wf_def sample_world_def intent_db_def sample_db_def has_row_def find_balance_def find_intent_def sample_intent_def Intent_new_def)
  have "available 10 USDC (w_db ?w) = 900" "locked 10 USDC (w_db ?w) = 0" "u64_as_i64 (- 100) = - 100" "in_token_in ?y = ''USDC''"
    by (simp_all add: available_def locked_def find_balance_def sample_world_def intent_db_def u64_as_i64_def wrap64_def sample_intent_def Intent_new_def)
  then have "in_amount_in x = - 100 \<and> available 10 USDC (w_db w') = 1600 \<and> locked 10 USDC (w_db w') = - 700"
    using amend_moves_lock [OF run wf(1) wf(3), of "- 100"] wf(2) by (auto simp: i64_defs)
  then show ?thesis using run unfolding Let_def by (intro exI [of _ x] exI [of _ w']) simp
qed

end
