(* ===== verification/Intent_Workers.thy ===== *)
theory Intent_Workers
  imports Intents
begin

text \<open>
  The two background workers on intents: the expiry worker of src/workers/intent_expiry.rs, which
  ends intents past their deadline and unlocks their funds, and the monitor of stop orders of
  src/workers/stop_order_monitor.rs. One cycle of each is modelled; the loops around them only wait.
  The table of market prices is the argument \<open>price_of\<close>.
\<close>

section \<open>Expiry\<close>

definition BATCH_SIZE :: nat where "BATCH_SIZE = 100"

text \<open>Leaving the transaction early drops it, which is neither an error nor a commit.\<close>

datatype expire_stop = ExpireSkip | ExpireDb sqlx_error

text \<open>The body returns whether the events are to be published.\<close>

definition expire_intent_tx :: "timestamp \<Rightarrow> intent \<Rightarrow> (pgdb, expire_stop, bool) action" where
  "expire_intent_tx now intent =
     bindA (map_errA ExpireDb (sql_query (find_intent (in_id intent)))) (\<lambda>row.
     case row of None \<Rightarrow> raiseA ExpireSkip | Some current \<Rightarrow>
     if in_status current \<noteq> Open \<and> in_status current \<noteq> Bidding then raiseA ExpireSkip else
     seqA (map_errA ExpireDb (sql_update (set_intent_status (in_id intent) Expired)))
    (bindA (map_errA ExpireDb (sql_query (find_user_account (in_user_id intent)))) (\<lambda>account.
     case account of None \<Rightarrow> returnA True | Some account_id \<Rightarrow>
    (case parse_asset (in_token_in intent) of None \<Rightarrow> returnA False | Some asset \<Rightarrow>
     bindA (map_errA ExpireDb (sql_exec (add_to_balance account_id asset (in_amount_in intent) (- in_amount_in intent) now
              (\<lambda>b. in_amount_in intent \<le> bal_locked_balance b)))) (\<lambda>_. returnA True)))))"

definition expire_intent :: "timestamp \<Rightarrow> intent \<Rightarrow> (sqlx_error, unit) service" where
  "expire_intent now intent =
     bindA (tryA (on_db (in_tx ExpireDb (expire_intent_tx now intent)))) (\<lambda>r.
     case r of
       Inl ExpireSkip \<Rightarrow> returnA ()
     | Inl (ExpireDb e) \<Rightarrow> raiseA e
     | Inr announce \<Rightarrow> whenA announce
        (seqA (ignoreA (publish () (IntentExpired (intent\<lparr>in_status := Expired\<rparr>))))
         (ignoreA (publish () (StreamIntentSettled \<lparr>ise_intent_id = in_id intent, ise_settled_qty = 0, ise_status = Expired\<rparr>)))))"

definition expired_batch :: "i64 \<Rightarrow> pgdb \<Rightarrow> intent list" where
  "expired_batch now_s s =
     take BATCH_SIZE (sort_key in_deadline (filter (\<lambda>i. in_deadline i < now_s \<and> in_status i \<in> {Open, Bidding}) (db_intents s)))"

definition expire_batch :: "i64 \<Rightarrow> timestamp \<Rightarrow> (sqlx_error, unit) service" where
  "expire_batch now_s now =
     bindA (on_db (sql_query (expired_batch now_s))) (\<lambda>expired.
     for_eachA (\<lambda>intent. ignoreA (expire_intent now intent)) expired)"

section \<open>Stop orders\<close>

definition pending_stops :: "pgdb \<Rightarrow> intent list" where
  "pending_stops s =
     take 100 (sort_key in_created_at (filter (\<lambda>i. in_order_type i = Stop \<and> in_status i = Open \<and>
       in_stop_price i \<noteq> None \<and> in_triggered_at i = None) (db_intents s)))"

definition stop_price_row :: "(uuid \<Rightarrow> i64 option) \<Rightarrow> intent \<Rightarrow> pgdb \<Rightarrow> i64 option" where
  "stop_price_row price_of intent s =
     (case List.find (\<lambda>k. price_of (mk_id k) \<noteq> None \<and> asset_text (mk_base_asset k) = map to_upper (in_token_in intent) \<and>
         asset_text (mk_quote_asset k) = map to_upper (in_token_out intent)) (db_markets s) of
        None \<Rightarrow> None | Some k \<Rightarrow> price_of (mk_id k))"

definition stop_triggered :: "intent \<Rightarrow> i64 \<Rightarrow> bool" where
  "stop_triggered intent current_price =
     (let stop_price = (case in_stop_price intent of Some p \<Rightarrow> p | None \<Rightarrow> 0);
          side = (case in_stop_side intent of Some x \<Rightarrow> x | None \<Rightarrow> ''sell'') in
      if side = ''buy'' then stop_price \<le> current_price else current_price \<le> stop_price)"

text \<open>The update that takes a stop order only once; it does not look at the status of the row.\<close>

definition trigger_stop :: "uuid \<Rightarrow> order_type \<Rightarrow> timestamp \<Rightarrow> pgdb \<Rightarrow> sqlx_error + nat \<times> pgdb" where
  "trigger_stop i ot now s =
     (let P = (\<lambda>x. in_id x = i \<and> in_order_type x = Stop \<and> in_triggered_at x = None) in
      Inr (length (filter P (db_intents s)),
           s\<lparr>db_intents := map (\<lambda>x. if P x then x\<lparr>in_status := Open, in_order_type := ot, in_triggered_at := Some now\<rparr> else x) (db_intents s)\<rparr>))"

definition check_stop_order :: "timestamp \<Rightarrow> (uuid \<Rightarrow> i64 option) \<Rightarrow> intent \<Rightarrow> (sqlx_error, unit) service" where
  "check_stop_order now price_of intent =
     bindA (on_db (sql_query (stop_price_row price_of intent))) (\<lambda>price_row.
     case price_row of None \<Rightarrow> returnA () | Some current_price \<Rightarrow>
     if \<not> stop_triggered intent current_price then returnA () else
     let new_order_type = (if in_limit_price intent \<noteq> None then Limit else Market) in
     bindA (on_db (sql_exec (trigger_stop (in_id intent) new_order_type now))) (\<lambda>rows_affected.
     if rows_affected = 0 then returnA () else
     let triggered_intent = intent\<lparr>in_status := Open, in_order_type := new_order_type, in_triggered_at := Some now\<rparr> in
     seqA (ignoreA (publish () (StopTriggered triggered_intent)))
     (ignoreA (publish () (IntentCreated triggered_intent)))))"

definition check_stop_orders :: "timestamp \<Rightarrow> (uuid \<Rightarrow> i64 option) \<Rightarrow> (sqlx_error, unit) service" where
  "check_stop_orders now price_of =
     bindA (on_db (sql_query pending_stops)) (\<lambda>stops.
     for_eachA (check_stop_order now price_of) stops)"

section \<open>Rows and their identifiers\<close>

lemma update_by_id:
  assumes "list_all2 R xs ys" and "distinct (map in_id xs)" and "b \<in> set xs"
    and ids: "\<And>x y. R x y \<Longrightarrow> in_id y = in_id x" and step: "\<And>y. R b y \<Longrightarrow> y \<in> set ys \<Longrightarrow> P y \<Longrightarrow> R b (f y)"
  shows "list_all2 R xs (map (\<lambda>y. if in_id y = in_id b \<and> P y then f y else y) ys)"
proof -
  have eq: "x = b" if "x \<in> set xs" "in_id x = in_id b" for x using assms(2,3) that by (auto simp: distinct_map inj_on_def)
  have "R x (if in_id y = in_id b \<and> P y then f y else y)" if "x \<in> set xs" "y \<in> set ys" "R x y" for x y
    using eq [OF that(1)] ids [OF that(3)] step [OF _ that(2)] that(3) by auto
  then show ?thesis unfolding list_all2_map2 by (rule list.rel_mono_strong [OF assms(1)])
qed

lemma same_id_same_row:
  assumes "list_all2 R xs ys" and "distinct (map in_id xs)" and "\<And>x y. R x y \<Longrightarrow> in_id y = in_id x"
  shows "distinct (map in_id ys)"
proof -
  have "map in_id ys = map in_id xs" using assms(1,3) by (induction rule: list_all2_induct) auto
  then show ?thesis using assms(2) by simp
qed

lemma find_intent_unique: "distinct (map in_id (db_intents s)) \<Longrightarrow> y \<in> set (db_intents s) \<Longrightarrow> find_intent (in_id y) s = Some y"
  unfolding find_intent_def
proof (induction "db_intents s" arbitrary: s)
  case (Cons a xs)
  then show ?case using Cons.hyps(1) [of "s\<lparr>db_intents := xs\<rparr>"] by (cases "y = a") (auto simp: Cons.hyps(2) [symmetric] image_iff)
qed simp

section \<open>Expiry is safe\<close>

text \<open>How a row may change: it expires, if it was open or bidding past its deadline.\<close>

definition may_expire :: "i64 \<Rightarrow> intent \<Rightarrow> intent \<Rightarrow> bool" where
  "may_expire now_s x y \<longleftrightarrow>
     y = x \<or> in_status x \<in> {Open, Bidding} \<and> in_deadline x < now_s \<and> y = x\<lparr>in_status := Expired\<rparr>"

definition expiry_ok :: "i64 \<Rightarrow> pgdb \<Rightarrow> pgdb \<Rightarrow> bool" where
  "expiry_ok now_s d s \<longleftrightarrow> balances_wf s \<and> all_nonneg s \<and> (\<forall>x. total_supply x s = total_supply x d) \<and>
     db_ledger s = db_ledger d \<and> list_all2 (may_expire now_s) (db_intents d) (db_intents s)"

lemma may_expire_id: "may_expire now_s x y \<Longrightarrow> in_id y = in_id x"
  by (auto simp: may_expire_def)

lemma expiry_ok_cong:
  assumes "expiry_ok now_s d s" and "db_balances t = db_balances s" "db_intents t = db_intents s" "db_ledger t = db_ledger s" "db_next_uuid t = db_next_uuid s"
  shows "expiry_ok now_s d t"
  using assms table_views_cong [of t s] by (simp add: expiry_ok_def balances_wf_def)

lemma expiry_ok_tick [simp]: "expiry_ok now_s d (tick s) = expiry_ok now_s d s"
  by (simp add: expiry_ok_def)

lemma expire_status_ok:
  assumes ok: "expiry_ok now_s d s" and ids: "distinct (map in_id (db_intents d))" and b: "b \<in> set (db_intents d)" "in_deadline b < now_s"
    and cur: "find_intent (in_id b) s = Some y" "in_status y \<in> {Open, Bidding}"
  shows "expiry_ok now_s d (set_intent_status (in_id b) Expired s)"
proof -
  have rel: "list_all2 (may_expire now_s) (db_intents d) (db_intents s)" using ok by (simp add: expiry_ok_def)
  have dist: "distinct (map in_id (db_intents s))" by (rule same_id_same_row [OF rel ids may_expire_id])
  have "may_expire now_s b (z\<lparr>in_status := Expired\<rparr>)" if "may_expire now_s b z" "z \<in> set (db_intents s)" for z
  proof -
    have "z = y" using find_intent_unique [OF dist that(2)] cur(1) may_expire_id [OF that(1)] by simp
    then show ?thesis using that(1) b(2) cur(2) by (auto simp: may_expire_def)
  qed
  then have "list_all2 (may_expire now_s) (db_intents d) (map (\<lambda>z. if in_id z = in_id b \<and> True then z\<lparr>in_status := Expired\<rparr> else z) (db_intents s))"
    by (intro update_by_id [OF rel ids b(1) may_expire_id])
  then show ?thesis using ok table_views_cong [of "set_intent_status (in_id b) Expired s" s]
    by (simp add: expiry_ok_def set_intent_status_def balances_wf_def)
qed

lemma expire_unlock_ok:
  assumes "add_to_balance c a n (- n) now (\<lambda>b. n \<le> bal_locked_balance b) s = Inr (k, t)" and "0 \<le> n" and ok: "expiry_ok now_s d s"
  shows "expiry_ok now_s d t"
proof (cases "k = 0")
  case True
  then have "t = s" using add_to_missing_balance assms(1) by blast
  then show ?thesis using ok by simp
next
  case False
  have wf: "balances_wf s" and nn: "all_nonneg s" using ok by (simp_all add: expiry_ok_def)
  note e = add_to_balance_moved [OF wf assms(1) False]
  have "n \<le> locked c a s" using e by (auto simp: locked_def)
  then have "all_nonneg t" using e nn assms(2) nonneg_views [OF nn] all_nonneg_iff [of t] by (auto simp: moved_def)
  then show ?thesis using ok e by (auto simp: expiry_ok_def moved_def same_tables_def)
qed

lemmas expire_unlock_after = expire_unlock_ok [where s = "tick (tick u)" for u, simplified expiry_ok_tick]

lemma expire_intent_ok:
  assumes run: "expire_intent now b w = (r, w')" and ids: "distinct (map in_id (db_intents d))" and b: "b \<in> set (db_intents d)" "in_deadline b < now_s"
    and n: "0 \<le> in_amount_in b" and ok: "expiry_ok now_s d (w_db w)"
  shows "expiry_ok now_s d (w_db w')"
proof -
  obtain q t where t: "in_tx ExpireDb (expire_intent_tx now b) (w_db w) = (q, t)" by fastforce
  have w': "w_db w' = t" using run t
    by (auto simp: expire_intent_def bindA_def tryA_def on_db_def whenA_def seqA_def ignoreA_def returnA_def raiseA_def publish_def Let_def
        split: sum.splits expire_stop.splits if_splits)
  show ?thesis
  proof (cases q)
    case (Inl e)
    then obtain f where "t = (w_db w)\<lparr>db_faults := f\<rparr>" using in_tx_atomic [of ExpireDb _ "w_db w" e t] t by blast
    then show ?thesis unfolding w' by (intro expiry_ok_cong [OF ok]) simp_all
  next
    case (Inr x)
    then obtain u where u: "expire_intent_tx now b (tick (w_db w)) = (Inr x, u)" "t = tick u" using t by (auto simp: in_tx_Inr_iff)
    obtain y where y: "find_intent (in_id b) (w_db w) = Some y" "in_status y \<in> {Open, Bidding}"
      using u(1) by (auto simp: expire_intent_tx_def action_simps find_intent_def split: option.splits if_splits)
    have "expiry_ok now_s d (set_intent_status (in_id b) Expired (tick (tick (w_db w))))"
      using ok y by (intro expire_status_ok [OF _ ids b]) (auto simp: find_intent_def)
    then have "expiry_ok now_s d u" using u(1) y n
      by (auto simp: expire_intent_tx_def action_simps find_intent_def split: option.splits if_splits intro: expire_unlock_after)
    then show ?thesis using w' u(2) by simp
  qed
qed

text \<open>
  An expiry cycle is safe: however many intents it expires and whatever statement fails, only intents
  that were open or bidding and past their deadline change, and only their status, to \<open>Expired\<close>; no
  balance becomes negative, the totals stay what they were and the ledger is untouched. The unlocked
  amount is the one read before the transaction, the row of the balance is skipped when it has not that
  much locked.
\<close>

theorem expire_batch_safe:
  assumes "expire_batch now_s now w = (r, w')" and "balances_wf (w_db w)" and "all_nonneg (w_db w)"
    and "distinct (map in_id (db_intents (w_db w)))" and "\<forall>i\<in>set (db_intents (w_db w)). 0 \<le> in_amount_in i"
  shows "all_nonneg (w_db w') \<and> (\<forall>a. total_supply a (w_db w') = total_supply a (w_db w)) \<and> db_ledger (w_db w') = db_ledger (w_db w) \<and>
    list_all2 (may_expire now_s) (db_intents (w_db w)) (db_intents (w_db w'))"
proof -
  let ?d = "w_db w"
  have start: "expiry_ok now_s ?d ?d"
    using assms(2,3) by (auto simp: expiry_ok_def may_expire_def intro: list_all2_refl)
  have "expiry_ok now_s ?d (w_db w')"
  proof (cases "next_fault ?d")
    case True
    then show ?thesis using assms(1) start by (auto simp: expire_batch_def bindA_def on_db_def sql_query_def)
  next
    case False
    let ?v = "w\<lparr>w_db := tick ?d\<rparr>"
    have loop: "for_eachA (\<lambda>intent. ignoreA (expire_intent now intent)) (expired_batch now_s ?d) ?v = (r, w')"
      using assms(1) False by (simp add: expire_batch_def bindA_def on_db_def sql_query_def)
    have "expiry_ok now_s ?d (w_db t)"
      if "b \<in> set (expired_batch now_s ?d)" "ignoreA (expire_intent now b) s = (q, t)" "expiry_ok now_s ?d (w_db s)" for b s q t
    proof -
      have b: "b \<in> set (db_intents ?d)" "in_deadline b < now_s" using that(1) by (auto simp: expired_batch_def dest!: in_set_takeD)
      have one: "ignoreA (expire_intent now b) s = (q, t)" by (rule that(2))
      obtain q' where "expire_intent now b s = (q', t)" using one by (cases "expire_intent now b s") (auto simp: ignoreA_def)
      then show ?thesis by (rule expire_intent_ok [OF _ assms(4) b _ that(3)]) (use assms(5) b(1) in blast)
    qed
    from for_eachA_keeps [where I = "\<lambda>w. expiry_ok now_s ?d (w_db w)", OF this loop] show ?thesis using start by simp
  qed
  then show ?thesis by (simp add: expiry_ok_def)
qed

theorem expire_batch_safe_witness:
  "let w = sample_world (intent_db\<lparr>db_intents := [sample_intent\<lparr>in_amount_in := 600\<rparr>],
       db_balances := map (bal_locked_balance_update (\<lambda>_. 600)) (db_balances intent_db)\<rparr>) in
   \<exists>r w'. expire_batch 100 0 w = (r, w') \<and> map in_status (db_intents (w_db w')) = [Expired] \<and>
     available 10 USDC (w_db w') = 1500 \<and> locked 10 USDC (w_db w') = 0 \<and> all_nonneg (w_db w')"
proof -
  let ?w = "sample_world (intent_db\<lparr>db_intents := [sample_intent\<lparr>in_amount_in := 600\<rparr>],
       db_balances := map (bal_locked_balance_update (\<lambda>_. 600)) (db_balances intent_db)\<rparr>)"
  have "\<exists>r w'. expire_batch 100 0 ?w = (r, w') \<and> map in_status (db_intents (w_db w')) = [Expired] \<and>
     available 10 USDC (w_db w') = 1500 \<and> locked 10 USDC (w_db w') = 0"
    by (simp add: expire_batch_def expired_batch_def expire_intent_def expire_intent_tx_def BATCH_SIZE_def intent_evals sample_intent_def
        set_intent_status_def find_user_account_def available_def locked_def)
  then obtain r w' where run: "expire_batch 100 0 ?w = (r, w')" and res: "map in_status (db_intents (w_db w')) = [Expired]"
     "available 10 USDC (w_db w') = 1500" "locked 10 USDC (w_db w') = 0" by (elim exE conjE)
  have "balances_wf (w_db ?w)" "all_nonneg (w_db ?w)" "distinct (map in_id (db_intents (w_db ?w)))" "\<forall>i\<in>set (db_intents (w_db ?w)). 0 \<le> in_amount_in i"
    by (simp_all add: balances_wf_def all_nonneg_def sample_world_def intent_db_def sample_db_def)
  from expire_batch_safe [OF run this] have "all_nonneg (w_db w')" by simp
  then show ?thesis unfolding Let_def by (intro exI [of _ r] exI [of _ w'] conjI run res)
qed

section \<open>Stop orders trigger once\<close>

text \<open>How a row may change: a stop order whose condition some price meets becomes a live order.\<close>

definition may_trigger :: "timestamp \<Rightarrow> (uuid \<Rightarrow> i64 option) \<Rightarrow> intent \<Rightarrow> intent \<Rightarrow> bool" where
  "may_trigger now price_of x y \<longleftrightarrow>
     y = x \<or> in_order_type x = Stop \<and> in_triggered_at x = None \<and> in_status x = Open \<and>
       (\<exists>k p. price_of k = Some p \<and> stop_triggered x p) \<and>
       y = x\<lparr>in_status := Open, in_order_type := (if in_limit_price x \<noteq> None then Limit else Market), in_triggered_at := Some now\<rparr>"

lemma may_trigger_id: "may_trigger now price_of x y \<Longrightarrow> in_id y = in_id x"
  by (auto simp: may_trigger_def)

definition stops_ok :: "timestamp \<Rightarrow> (uuid \<Rightarrow> i64 option) \<Rightarrow> pgdb \<Rightarrow> world \<Rightarrow> bool" where
  "stops_ok now price_of d w \<longleftrightarrow> db_balances (w_db w) = db_balances d \<and>
     list_all2 (may_trigger now price_of) (db_intents d) (db_intents (w_db w))"

lemma stop_price_row_given: "stop_price_row price_of i s = Some p \<Longrightarrow> \<exists>k. price_of k = Some p"
  by (auto simp: stop_price_row_def split: option.splits)

lemma check_stop_order_ok:
  assumes run: "check_stop_order now price_of b w = (r, w')" and ids: "distinct (map in_id (db_intents d))"
    and b: "b \<in> set (db_intents d)" "in_order_type b = Stop" "in_triggered_at b = None" "in_status b = Open"
    and ok: "stops_ok now price_of d w"
  shows "stops_ok now price_of d w'"
proof -
  let ?ot = "if in_limit_price b \<noteq> None then Limit else Market"
  let ?f = "\<lambda>x. x\<lparr>in_status := Open, in_order_type := ?ot, in_triggered_at := Some now\<rparr>"
  let ?rows = "map (\<lambda>x. if in_id x = in_id b \<and> (in_order_type x = Stop \<and> in_triggered_at x = None) then ?f x else x) (db_intents (w_db w))"
  have rel: "list_all2 (may_trigger now price_of) (db_intents d) (db_intents (w_db w))" using ok by (simp add: stops_ok_def)
  have "(db_intents (w_db w') = db_intents (w_db w) \<or> (\<exists>k p. price_of k = Some p \<and> stop_triggered b p) \<and> db_intents (w_db w') = ?rows) \<and>
      db_balances (w_db w') = db_balances (w_db w)"
    using run
    by (auto simp: check_stop_order_def bindA_def on_db_def sql_query_def sql_exec_def trigger_stop_def returnA_def seqA_def ignoreA_def
        publish_def Let_def dest!: stop_price_row_given split: option.splits if_splits)
  moreover have "list_all2 (may_trigger now price_of) (db_intents d) ?rows" if "price_of k = Some p" "stop_triggered b p" for k p
  proof (rule update_by_id [OF rel ids b(1) may_trigger_id])
    show "may_trigger now price_of b (?f y)" if "may_trigger now price_of b y" "in_order_type y = Stop \<and> in_triggered_at y = None" for y
      using that b \<open>price_of k = Some p\<close> \<open>stop_triggered b p\<close> by (auto simp: may_trigger_def split: if_splits)
  qed
  ultimately show ?thesis using ok by (auto simp: stops_ok_def)
qed

lemma trigger_stop_again:
  assumes "trigger_stop i ot now s = Inr (n, t)"
  shows "trigger_stop i ot now t = Inr (0, t)"
proof -
  let ?g = "\<lambda>x. if in_id x = i \<and> in_order_type x = Stop \<and> in_triggered_at x = None
      then x\<lparr>in_status := Open, in_order_type := ot, in_triggered_at := Some now\<rparr> else x"
  have t: "db_intents t = map ?g (db_intents s)" using assms by (auto simp: trigger_stop_def Let_def)
  have once: "\<not> (in_id (?g z) = i \<and> in_order_type (?g z) = Stop \<and> in_triggered_at (?g z) = None)" for z by simp
  have none: "\<not> (in_id x = i \<and> in_order_type x = Stop \<and> in_triggered_at x = None)" if "x \<in> set (db_intents t)" for x
    using that unfolding t set_map by (elim imageE) (use once in \<open>simp only: simp_thms\<close>)
  have "map (\<lambda>x. if in_id x = i \<and> in_order_type x = Stop \<and> in_triggered_at x = None
      then x\<lparr>in_status := Open, in_order_type := ot, in_triggered_at := Some now\<rparr> else x) (db_intents t) = db_intents t"
    by (intro map_idI if_not_P none)
  moreover have "filter (\<lambda>x. in_id x = i \<and> in_order_type x = Stop \<and> in_triggered_at x = None) (db_intents t) = []"
    using none by (simp only: filter_empty_conv) blast
  ultimately show ?thesis unfolding trigger_stop_def Let_def by (simp only:) simp
qed

text \<open>
  A stop order is triggered once, and only by a price that meets its condition: a cycle of the
  monitor changes only rows that are open, untriggered stop orders for which some current price is
  at or beyond the stop price on the right side; such a row becomes a limit order if it has a limit
  price and a market order otherwise, with the time stamp set. A second attempt on the same order,
  by another instance, affects no row. No balance changes.
\<close>

theorem stop_triggers_once:
  assumes "check_stop_orders now price_of w = (r, w')" and "distinct (map in_id (db_intents (w_db w)))"
  shows "list_all2 (may_trigger now price_of) (db_intents (w_db w)) (db_intents (w_db w')) \<and>
    db_balances (w_db w') = db_balances (w_db w) \<and>
    (\<forall>i ot n t n' t'. trigger_stop i ot now (w_db w') = Inr (n, t) \<and> trigger_stop i ot now t = Inr (n', t') \<longrightarrow> n' = 0 \<and> t' = t)"
proof -
  let ?d = "w_db w"
  have start: "stops_ok now price_of ?d w" by (auto simp: stops_ok_def may_trigger_def intro: list_all2_refl)
  have "stops_ok now price_of ?d w'"
  proof (cases "next_fault ?d")
    case True
    then show ?thesis using assms(1) start by (auto simp: check_stop_orders_def bindA_def on_db_def sql_query_def stops_ok_def)
  next
    case False
    let ?v = "w\<lparr>w_db := tick ?d\<rparr>"
    have loop: "for_eachA (check_stop_order now price_of) (pending_stops ?d) ?v = (r, w')"
      using assms(1) False by (simp add: check_stop_orders_def bindA_def on_db_def sql_query_def)
    have "stops_ok now price_of ?d t"
      if "b \<in> set (pending_stops ?d)" "check_stop_order now price_of b s = (q, t)" "stops_ok now price_of ?d s" for b s q t
      by (rule check_stop_order_ok [OF that(2) assms(2) _ _ _ _ that(3)]) (use that(1) in \<open>auto simp: pending_stops_def dest!: in_set_takeD\<close>)
    from for_eachA_keeps [where I = "stops_ok now price_of ?d", OF this loop] show ?thesis using start by (simp add: stops_ok_def)
  qed
  moreover have "n' = 0 \<and> t' = t" if "trigger_stop i ot now s = Inr (n, t)" "trigger_stop i ot now t = Inr (n', t')" for i ot n t n' t' s
    using trigger_stop_again [OF that(1)] that(2) by simp
  ultimately show ?thesis by (auto simp: stops_ok_def)
qed

theorem stop_triggers_once_witness:
  "let x = with_stop_loss 50 sample_intent\<lparr>in_token_in := ''eth'', in_token_out := ''usdc''\<rparr>;
       w = sample_world (intent_db\<lparr>db_intents := [x]\<rparr>) in
   \<exists>r w'. check_stop_orders 8 (\<lambda>k. Some 49) w = (r, w') \<and>
     db_intents (w_db w') = [x\<lparr>in_order_type := Market, in_triggered_at := Some 8\<rparr>] \<and>
     list_all2 (may_trigger 8 (\<lambda>k. Some 49)) (db_intents (w_db w)) (db_intents (w_db w'))"
proof -
  let ?x = "with_stop_loss 50 sample_intent\<lparr>in_token_in := ''eth'', in_token_out := ''usdc''\<rparr>"
  let ?w = "sample_world (intent_db\<lparr>db_intents := [?x]\<rparr>)"
  have up: "map to_upper ''eth'' = ''ETH''" "map to_upper ''usdc'' = ''USDC''" by code_simp+
  have "\<exists>r w'. check_stop_orders 8 (\<lambda>k. Some 49) ?w = (r, w') \<and> db_intents (w_db w') = [?x\<lparr>in_order_type := Market, in_triggered_at := Some 8\<rparr>]"
    by (simp add: check_stop_orders_def pending_stops_def check_stop_order_def stop_price_row_def stop_triggered_def trigger_stop_def
        intent_evals sample_intent_def with_stop_loss_def asset_text_def up [simplified])
  then obtain r w' where run: "check_stop_orders 8 (\<lambda>k. Some 49) ?w = (r, w')"
    and res: "db_intents (w_db w') = [?x\<lparr>in_order_type := Market, in_triggered_at := Some 8\<rparr>]" by (elim exE conjE)
  have "distinct (map in_id (db_intents (w_db ?w)))" by (simp add: sample_world_def)
  from stop_triggers_once [OF run this] have "list_all2 (may_trigger 8 (\<lambda>k. Some 49)) (db_intents (w_db ?w)) (db_intents (w_db w'))" by simp
  then show ?thesis unfolding Let_def by (intro exI [of _ r] exI [of _ w'] conjI run res)
qed

end
