(* ===== verification/Twap.thy ===== *)
theory Twap
  imports Intent_Workers
begin

text \<open>
  Time-weighted orders (src/twap): the service that splits an order into slices, cancels it and records
  the fate of its slices (service.rs), the scheduler that turns a due slice into an intent
  through the intent service (scheduler.rs), and the listener for settled intents (listener.rs). The
  clock, the addition of a duration to a time (which panics out of range) and the seconds of a time
  are fields of the environment, with the environment of the risk engine.
\<close>

record twap_env =
  te_now :: timestamp
  te_now_s :: i64
  te_add_seconds :: "timestamp \<Rightarrow> int \<Rightarrow> timestamp option"
  te_unix_seconds :: "timestamp \<Rightarrow> i64"
  te_risk :: risk_env

datatype twap_error =
    TwapInvalidParams string | TwapNotFound | TwapAlreadyCancelled | TwapDbError sqlx_error | TwapIntentError string | TwapPanic

record create_twap_request =
  ct_user_id :: string
  ct_account_id :: uuid
  ct_token_in :: string
  ct_token_out :: string
  ct_total_qty :: i64
  ct_min_price :: i64
  ct_duration_secs :: i64
  ct_interval_secs :: i64

section \<open>Creating an order\<close>

definition insert_twap :: "twap_intent \<Rightarrow> unit dbm" where
  "insert_twap t =
     sql_exec (\<lambda>s. if tw_id t \<in> tw_id ` set (db_twaps s) then Inl UniqueViolation
                   else Inr ((), s\<lparr>db_twaps := db_twaps s @ [t\<lparr>tw_finished_at := None\<rparr>]\<rparr>))"

text \<open>The database draws the key of a slice and its time of creation.\<close>

definition insert_child :: "timestamp \<Rightarrow> uuid \<Rightarrow> uuid \<Rightarrow> int \<Rightarrow> i64 \<Rightarrow> timestamp \<Rightarrow> (pgdb, twap_error, unit) action" where
  "insert_child now twap_id intent_id slice_index qty scheduled_at =
     bindA new_uuid (\<lambda>i.
     map_errA TwapDbError (sql_exec (\<lambda>s.
       if twap_id \<notin> tw_id ` set (db_twaps s) then Inl ForeignKeyViolation
       else if i \<in> tc_id ` set (db_twap_children s) then Inl UniqueViolation
       else Inr ((), s\<lparr>db_twap_children := db_twap_children s @
         [\<lparr>tc_id = i, tc_twap_id = twap_id, tc_intent_id = intent_id, tc_slice_index = slice_index, tc_qty = qty,
           tc_status = ChildPending, tc_scheduled_at = scheduled_at, tc_created_at = now\<rparr>]\<rparr>))))"

definition slice_qty :: "i64 \<Rightarrow> i64 \<Rightarrow> int \<Rightarrow> int \<Rightarrow> i64" where
  "slice_qty qty_per_slice remainder slices_total i =
     (if i = wrap32 (slices_total - 1) then wrap64 (qty_per_slice + remainder) else qty_per_slice)"

definition schedule_slice :: "twap_env \<Rightarrow> uuid \<Rightarrow> i64 \<Rightarrow> i64 \<Rightarrow> i64 \<Rightarrow> int \<Rightarrow> int \<Rightarrow> (pgdb, twap_error, unit) action" where
  "schedule_slice env twap_id interval_secs qty_per_slice remainder slices_total i =
     (case te_add_seconds env (te_now env) (wrap64 (interval_secs * i)) of
        None \<Rightarrow> raiseA TwapPanic
      | Some scheduled_at \<Rightarrow>
          insert_child (te_now env) twap_id 0 i (slice_qty qty_per_slice remainder slices_total i) scheduled_at)"

definition create_twap :: "twap_env \<Rightarrow> create_twap_request \<Rightarrow> (pgdb, twap_error, twap_intent) action" where
  "create_twap env req =
     (if ct_interval_secs req \<le> 0 \<or> ct_duration_secs req \<le> 0
      then raiseA (TwapInvalidParams ''duration and interval must be positive'')
      else if ct_total_qty req \<le> 0 then raiseA (TwapInvalidParams ''total_qty must be positive'')
      else if ct_interval_secs req > ct_duration_secs req then raiseA (TwapInvalidParams ''interval cannot exceed duration'')
      else
        let slices_total = wrap32 (rust_div (ct_duration_secs req) (ct_interval_secs req)) in
        if slices_total = 0 then raiseA TwapPanic
        else
          let qty_per_slice = rust_div (ct_total_qty req) slices_total;
              remainder = wrap64 (ct_total_qty req - wrap64 (qty_per_slice * slices_total))
          in bindA new_uuid (\<lambda>i.
             let twap = \<lparr>tw_id = i, tw_user_id = ct_user_id req, tw_account_id = ct_account_id req, tw_token_in = ct_token_in req,
                   tw_token_out = ct_token_out req, tw_total_qty = ct_total_qty req, tw_filled_qty = 0, tw_min_price = ct_min_price req,
                   tw_duration_secs = ct_duration_secs req, tw_interval_secs = ct_interval_secs req, tw_slices_total = slices_total,
                   tw_slices_completed = 0, tw_status = TwapActive, tw_created_at = te_now env, tw_finished_at = None\<rparr>
             in seqA (map_errA TwapDbError (insert_twap twap))
                (seqA (for_eachA (schedule_slice env i (ct_interval_secs req) qty_per_slice remainder slices_total) [0..slices_total - 1])
                (returnA twap))))"

section \<open>Progress\<close>

definition find_twap :: "uuid \<Rightarrow> pgdb \<Rightarrow> twap_intent option" where
  "find_twap twap_id s = List.find (\<lambda>t. tw_id t = twap_id) (db_twaps s)"

definition get_twap :: "uuid \<Rightarrow> (pgdb, twap_error, twap_intent option) action" where
  "get_twap twap_id = map_errA TwapDbError (sql_query (find_twap twap_id))"

definition get_twap_or_fail :: "uuid \<Rightarrow> (pgdb, twap_error, twap_intent) action" where
  "get_twap_or_fail twap_id =
     bindA (get_twap twap_id) (\<lambda>found. case found of None \<Rightarrow> raiseA TwapNotFound | Some t \<Rightarrow> returnA t)"

definition update_twap :: "uuid \<Rightarrow> (twap_intent \<Rightarrow> bool) \<Rightarrow> (twap_intent \<Rightarrow> twap_intent) \<Rightarrow> pgdb \<Rightarrow> pgdb" where
  "update_twap twap_id P f s = s\<lparr>db_twaps := map (\<lambda>t. if tw_id t = twap_id \<and> P t then f t else t) (db_twaps s)\<rparr>"

definition update_child :: "uuid \<Rightarrow> (twap_child \<Rightarrow> bool) \<Rightarrow> (twap_child \<Rightarrow> twap_child) \<Rightarrow> (pgdb, twap_error, nat) action" where
  "update_child child_id P f =
     map_errA TwapDbError (sql_exec (\<lambda>s.
       Inr (length (filter (\<lambda>c. tc_id c = child_id \<and> P c) (db_twap_children s)),
            s\<lparr>db_twap_children := map (\<lambda>c. if tc_id c = child_id \<and> P c then f c else c) (db_twap_children s)\<rparr>)))"

text \<open>Adding to the counters of an order; the database rejects a value out of range.\<close>

definition add_progress :: "uuid \<Rightarrow> i64 \<Rightarrow> (pgdb, twap_error, unit) action" where
  "add_progress twap_id filled_qty =
     map_errA TwapDbError (sql_exec (\<lambda>s.
       if list_all (\<lambda>t. tw_id t = twap_id \<longrightarrow> in_i64 (tw_filled_qty t + filled_qty) \<and> tw_slices_completed t + 1 < 2 ^ 31) (db_twaps s)
       then Inr ((), update_twap twap_id (\<lambda>_. True) (\<lambda>t. t\<lparr>tw_filled_qty := tw_filled_qty t + filled_qty,
              tw_slices_completed := tw_slices_completed t + 1\<rparr>) s)
       else Inl NumericOutOfRange))"

definition finish_twap :: "twap_env \<Rightarrow> uuid \<Rightarrow> twap_status \<Rightarrow> (pgdb, twap_error, unit) action" where
  "finish_twap env twap_id status =
     map_errA TwapDbError (sql_update (update_twap twap_id (\<lambda>t. tw_status t = TwapActive)
       (\<lambda>t. t\<lparr>tw_status := status, tw_finished_at := Some (te_now env)\<rparr>)))"

definition record_child_completed :: "twap_env \<Rightarrow> uuid \<Rightarrow> uuid \<Rightarrow> i64 \<Rightarrow> (pgdb, twap_error, unit) action" where
  "record_child_completed env twap_id child_id filled_qty =
     bindA (update_child child_id (\<lambda>c. tc_status c \<noteq> ChildCompleted) (\<lambda>c. c\<lparr>tc_status := ChildCompleted\<rparr>)) (\<lambda>rows_affected.
     if rows_affected = 0 then returnA ()
     else
       seqA (add_progress twap_id filled_qty)
       (bindA (get_twap_or_fail twap_id) (\<lambda>twap.
        whenA (tw_filled_qty twap \<ge> tw_total_qty twap \<or> tw_slices_completed twap \<ge> tw_slices_total twap)
          (finish_twap env twap_id TwapCompleted))))"

definition record_child_expired :: "twap_env \<Rightarrow> uuid \<Rightarrow> uuid \<Rightarrow> (pgdb, twap_error, unit) action" where
  "record_child_expired env twap_id child_id =
     bindA (update_child child_id (\<lambda>c. tc_status c \<noteq> ChildCompleted \<and> tc_status c \<noteq> ChildExpired)
       (\<lambda>c. c\<lparr>tc_status := ChildExpired\<rparr>)) (\<lambda>rows_affected.
     if rows_affected = 0 then returnA ()
     else
       seqA (add_progress twap_id 0)
       (bindA (get_twap_or_fail twap_id) (\<lambda>twap.
        whenA (tw_slices_completed twap \<ge> tw_slices_total twap \<and> tw_filled_qty twap < tw_total_qty twap)
          (finish_twap env twap_id TwapFailed))))"

definition record_child_failed :: "uuid \<Rightarrow> (pgdb, twap_error, unit) action" where
  "record_child_failed child_id =
     bindA (update_child child_id (\<lambda>c. tc_status c \<noteq> ChildFailed) (\<lambda>c. c\<lparr>tc_status := ChildFailed\<rparr>)) (\<lambda>_. returnA ())"

record twap_progress =
  tp_twap_id :: uuid
  tp_status :: twap_status
  tp_total_qty :: i64
  tp_filled_qty :: i64
  tp_slices_total :: int
  tp_slices_completed :: int
  tp_remaining_qty :: i64
  tp_pct_complete :: f64

text \<open>\<open>f64::round\<close>: to the nearest integer, halves away from zero.\<close>

fun f64_round_int :: "f64 \<Rightarrow> f64" where
  "f64_round_int (Fin m e) =
     (if e \<ge> 0 then Fin m e
      else f64_of_int (sgn m * ((2 * \<bar>m\<bar> + 2 ^ nat (- e)) div 2 ^ (nat (- e) + 1))))"
| "f64_round_int x = x"

definition pct_complete :: "i64 \<Rightarrow> i64 \<Rightarrow> f64" where
  "pct_complete filled_qty total_qty =
     (let pct = (if total_qty > 0 then f64_mult (f64_div (f64_of_int filled_qty) (f64_of_int total_qty)) (f64_of_int 100) else Fin 0 0)
      in f64_div (f64_round_int (f64_mult pct (f64_of_int 100))) (f64_of_int 100))"

definition get_progress :: "uuid \<Rightarrow> (pgdb, twap_error, twap_progress) action" where
  "get_progress twap_id =
     bindA (get_twap_or_fail twap_id) (\<lambda>twap.
     returnA \<lparr>tp_twap_id = tw_id twap, tp_status = tw_status twap, tp_total_qty = tw_total_qty twap, tp_filled_qty = tw_filled_qty twap,
       tp_slices_total = tw_slices_total twap, tp_slices_completed = tw_slices_completed twap,
       tp_remaining_qty = wrap64 (tw_total_qty twap - tw_filled_qty twap), tp_pct_complete = pct_complete (tw_filled_qty twap) (tw_total_qty twap)\<rparr>)"

section \<open>Cancelling an order\<close>

definition open_child :: "uuid \<Rightarrow> twap_child \<Rightarrow> bool" where
  "open_child twap_id c = (tc_twap_id c = twap_id \<and> (tc_status c = ChildPending \<or> tc_status c = ChildSubmitted))"

definition cancel_child :: "twap_env \<Rightarrow> uuid \<Rightarrow> twap_child \<Rightarrow> (twap_error, unit) service" where
  "cancel_child env account_id child =
     (if tc_intent_id child \<noteq> 0 then ignoreA (cancel_intent (te_now env) (tc_intent_id child) account_id) else returnA ())"

definition cancel_twap :: "twap_env \<Rightarrow> uuid \<Rightarrow> uuid \<Rightarrow> (twap_error, twap_intent) service" where
  "cancel_twap env twap_id account_id =
     bindA (on_db (get_twap_or_fail twap_id)) (\<lambda>twap.
     if tw_status twap \<noteq> TwapActive then raiseA TwapAlreadyCancelled
     else
       bindA (on_db (map_errA TwapDbError (sql_query (\<lambda>s. filter (open_child twap_id) (db_twap_children s))))) (\<lambda>pending.
       seqA (for_eachA (cancel_child env account_id) pending)
       (seqA (on_db (map_errA TwapDbError (sql_update (\<lambda>s. s\<lparr>db_twap_children :=
          map (\<lambda>c. if open_child twap_id c then c\<lparr>tc_status := ChildCancelled\<rparr> else c) (db_twap_children s)\<rparr>))))
       (seqA (on_db (map_errA TwapDbError (sql_update (update_twap twap_id (\<lambda>_. True)
          (\<lambda>t. t\<lparr>tw_status := TwapCancelled, tw_finished_at := Some (te_now env)\<rparr>)))))
       (returnA (twap\<lparr>tw_status := TwapCancelled, tw_finished_at := Some (te_now env)\<rparr>))))))"

text \<open>The HTTP handler: the account is the nil identifier.\<close>

definition cancel_twap_handler :: "twap_env \<Rightarrow> uuid \<Rightarrow> (twap_error, twap_intent) service" where
  "cancel_twap_handler env twap_id = cancel_twap env twap_id 0"

section \<open>The scheduler\<close>

definition due_slices :: "timestamp \<Rightarrow> pgdb \<Rightarrow> twap_child list" where
  "due_slices now s =
     take 20 (sort_key tc_scheduled_at (concat (map (\<lambda>c.
       if tc_status c = ChildPending \<and> tc_scheduled_at c \<le> now
       then map (\<lambda>_. c) (filter (\<lambda>t. tw_id t = tc_twap_id c \<and> tw_status t = TwapActive) (db_twaps s)) else []) (db_twap_children s))))"

definition set_child :: "uuid \<Rightarrow> (twap_child \<Rightarrow> twap_child) \<Rightarrow> unit dbm" where
  "set_child child_id f =
     sql_update (\<lambda>s. s\<lparr>db_twap_children := map (\<lambda>c. if tc_id c = child_id then f c else c) (db_twap_children s)\<rparr>)"

definition submit_slice :: "twap_env \<Rightarrow> twap_child \<Rightarrow> (sqlx_error, unit) service" where
  "submit_slice env child =
     bindA (on_db (sql_query (find_twap (tc_twap_id child)))) (\<lambda>parent.
     case parent of
       None \<Rightarrow> returnA ()
     | Some parent \<Rightarrow>
         seqA (on_db (set_child (tc_id child) (\<lambda>c. c\<lparr>tc_status := ChildSubmitted\<rparr>)))
         (let deadline = wrap64 (te_unix_seconds env (tc_scheduled_at child) + tw_interval_secs parent) in
          bindA (tryA (create_intent (te_now_s env) (te_now env) (te_risk env) (tw_user_id parent) (tw_account_id parent)
            (tw_token_in parent) (tw_token_out parent) (word_of_int (tc_qty child)) (word_of_int (tw_min_price parent)) deadline)) (\<lambda>result.
          case result of
            Inr intent \<Rightarrow> on_db (set_child (tc_id child) (\<lambda>c. c\<lparr>tc_intent_id := in_id intent\<rparr>))
          | Inl e \<Rightarrow> ignoreA (on_db (record_child_failed (tc_id child))))))"

definition process_due_slices :: "twap_env \<Rightarrow> (sqlx_error, unit) service" where
  "process_due_slices env =
     bindA (on_db (sql_query (due_slices (te_now env)))) (\<lambda>due.
     if due = [] then returnA () else for_eachA (submit_slice env) due)"

section \<open>The listener\<close>

text \<open>\<open>payload\<close> is the decoded event, if the text decodes.\<close>

definition process_intent_settled :: "twap_env \<Rightarrow> intent_settled_event option \<Rightarrow> (pgdb, unit, unit) action" where
  "process_intent_settled env payload =
     (case payload of
        None \<Rightarrow> returnA ()
      | Some event \<Rightarrow>
          bindA (tryA (sql_query (\<lambda>s. List.find (\<lambda>c. tc_intent_id c = ise_intent_id event) (db_twap_children s)))) (\<lambda>r.
          case r of
            Inr (Some child) \<Rightarrow>
              (case ise_status event of
                 Completed \<Rightarrow> ignoreA (record_child_completed env (tc_twap_id child) (tc_id child) (ise_settled_qty event))
               | Expired \<Rightarrow> ignoreA (record_child_expired env (tc_twap_id child) (tc_id child))
               | _ \<Rightarrow> returnA ())
          | _ \<Rightarrow> returnA ()))"

section \<open>The schedule\<close>

lemma rust_div_pos: "0 < a \<Longrightarrow> 0 < b \<Longrightarrow> rust_div a b = a div b"
  by (simp add: rust_div_def)

lemma wrap32_id: "- (2 ^ 31) \<le> x \<Longrightarrow> x < 2 ^ 31 \<Longrightarrow> wrap32 x = x"
  by (simp add: wrap32_def mod_pos_pos_trivial)

definition slice_row :: "twap_env \<Rightarrow> uuid \<Rightarrow> i64 \<Rightarrow> (int \<Rightarrow> i64) \<Rightarrow> int \<Rightarrow> twap_child \<Rightarrow> bool" where
  "slice_row env twap_id interval_secs qty i c \<longleftrightarrow>
     tc_twap_id c = twap_id \<and> tc_intent_id c = 0 \<and> tc_slice_index c = i \<and> tc_qty c = qty i \<and> tc_status c = ChildPending \<and>
     te_add_seconds env (te_now env) (wrap64 (interval_secs * i)) = Some (tc_scheduled_at c)"

text \<open>Tables a schedule does not touch.\<close>

definition but_twaps :: "pgdb \<Rightarrow> pgdb" where
  "but_twaps s = s\<lparr>db_twaps := [], db_twap_children := [], db_next_uuid := 0, db_faults := []\<rparr>"

lemma but_twaps_simps [simp]:
  "but_twaps (tick s) = but_twaps s" "but_twaps (s\<lparr>db_twaps := x\<rparr>) = but_twaps s" "but_twaps (s\<lparr>db_twap_children := y\<rparr>) = but_twaps s"
  "but_twaps (s\<lparr>db_next_uuid := n\<rparr>) = but_twaps s"
  by (simp_all add: but_twaps_def tick_def)

lemma schedule_slice_ok:
  assumes "schedule_slice env twap_id interval q r n i s = (Inr (), t)"
  shows "\<exists>c. db_twap_children t = db_twap_children s @ [c] \<and> slice_row env twap_id interval (slice_qty q r n) i c \<and>
    db_twaps t = db_twaps s \<and> but_twaps t = but_twaps s"
  using assms
  by (auto simp: schedule_slice_def insert_child_def action_simps slice_row_def split: option.splits if_splits)

lemma schedule_ok:
  assumes "for_eachA (schedule_slice env twap_id interval q r n) is s = (Inr (), t)"
  shows "\<exists>cs. db_twap_children t = db_twap_children s @ cs \<and> list_all2 (slice_row env twap_id interval (slice_qty q r n)) is cs \<and>
    db_twaps t = db_twaps s \<and> but_twaps t = but_twaps s"
  using assms
proof (induction "is" arbitrary: s)
  case Nil
  then show ?case by (simp add: returnA_def)
next
  case (Cons i "is")
  obtain u where u: "schedule_slice env twap_id interval q r n i s = (Inr (), u)"
    "for_eachA (schedule_slice env twap_id interval q r n) is u = (Inr (), t)"
    using Cons.prems by (auto simp: action_simps)
  obtain c where c: "db_twap_children u = db_twap_children s @ [c]" "slice_row env twap_id interval (slice_qty q r n) i c"
    "db_twaps u = db_twaps s" "but_twaps u = but_twaps s" using schedule_slice_ok [OF u(1)] by blast
  obtain cs where cs: "db_twap_children t = db_twap_children u @ cs" "list_all2 (slice_row env twap_id interval (slice_qty q r n)) is cs"
    "db_twaps t = db_twaps u" "but_twaps t = but_twaps u" using Cons.IH [OF u(2)] by blast
  show ?case using c cs by (intro exI [of _ "c # cs"]) simp
qed

lemma sum_list_replicate_last:
  assumes "0 < n"
  shows "sum_list (map (\<lambda>i. if i = n - 1 then q + r else q) [0..n - 1]) = n * q + (r :: int)"
proof -
  obtain k where k: "n = int k + 1" using assms by (metis nonneg_int_cases add.commute diff_ge_0_iff_ge int_one_le_iff_zero_less le_add_diff_inverse)
  have "sum_list (map (\<lambda>i. if i = m then q + r else q) [0..int k - 1]) = int k * q" if "int k \<le> m" for m
    using that by (induction k) (auto simp: upto_rec2 algebra_simps)
  from this [of "int k"] show ?thesis by (simp add: k upto_rec2 algebra_simps)
qed

lemma slice_arith:
  assumes "0 < q" "in_i64 q" "0 < n"
  shows "q = q div n * n + q mod n" "0 \<le> q mod n" "0 \<le> q div n" "wrap64 (q div n * n) = q div n * n"
    "wrap64 (q - q div n * n) = q mod n" "wrap64 (q div n + q mod n) = q div n + q mod n"
proof -
  have small: "wrap64 x = x" if "0 \<le> x" "x \<le> q" for x using that assms(2) by (intro wrap64_id) (simp add: in_i64_iff)
  show q: "q = q div n * n + q mod n" "0 \<le> q mod n" "0 \<le> q div n" using assms by (simp_all add: pos_imp_zdiv_nonneg_iff)
  have "q div n * 1 \<le> q div n * n" by (rule mult_left_mono) (use q(3) assms in simp_all)
  then have "q div n + q mod n \<le> q" "q div n * n \<le> q" "q mod n \<le> q" "q - q div n * n = q mod n" using q by linarith+
  moreover have "0 \<le> q div n * n" using q(3) assms by simp
  ultimately show "wrap64 (q div n * n) = q div n * n" "wrap64 (q - q div n * n) = q mod n"
    "wrap64 (q div n + q mod n) = q div n + q mod n" using q(2,3) by (simp_all add: small)
qed

lemma slice_time:
  assumes "0 < i" "in_i64 d" "int k < d div i"
  shows "wrap64 (i * int k) = i * int k"
proof (rule wrap64_id)
  have "i * int k \<le> i * (d div i)" by (rule mult_left_mono) (use assms in simp_all)
  moreover have "i * (d div i) \<le> d" using assms(1) mult_div_mod_eq [of i d] pos_mod_sign [of i d] by linarith
  moreover have "0 \<le> i * int k" using assms(1) by simp
  ultimately show "in_i64 (i * int k)" using assms(2) by (simp add: in_i64_iff)
qed

lemma create_twap_ok:
  assumes run: "create_twap env req s = (Inr twap, t)" and n: "n = ct_duration_secs req div ct_interval_secs req" "0 < n" "wrap32 n = n"
    and w: "wrap64 (ct_total_qty req div n * n) = ct_total_qty req div n * n"
      "wrap64 (ct_total_qty req - ct_total_qty req div n * n) = ct_total_qty req mod n"
      "wrap64 (ct_total_qty req div n + ct_total_qty req mod n) = ct_total_qty req div n + ct_total_qty req mod n"
  shows "\<exists>u. db_twaps u = db_twaps s @ [twap] \<and> db_twap_children u = db_twap_children s \<and> but_twaps u = but_twaps s \<and>
    for_eachA (schedule_slice env (tw_id twap) (ct_interval_secs req) (ct_total_qty req div n) (ct_total_qty req mod n) n) [0..n - 1] u
      = (Inr (), t) \<and> tw_slices_total twap = n"
proof -
  have pos: "0 < ct_interval_secs req" "0 < ct_duration_secs req" "0 < ct_total_qty req"
    using run by (auto simp: create_twap_def raiseA_def split: if_splits)
  define u where "u = tick (s\<lparr>db_next_uuid := Suc (db_next_uuid s), db_twaps := db_twaps s @ [twap]\<rparr>)"
  have "for_eachA (schedule_slice env (tw_id twap) (ct_interval_secs req) (ct_total_qty req div n) (ct_total_qty req mod n) n) [0..n - 1] u
      = (Inr (), t) \<and> tw_slices_total twap = n"
    using run pos n(2,3) unfolding u_def
    by (auto simp: create_twap_def rust_div_pos n(1) [symmetric] w insert_twap_def action_simps Let_def split: if_splits)
  then show ?thesis by (intro exI [of _ u]) (simp add: u_def)
qed

text \<open>
  C31. Splitting an order: for a range of slices that fits 32 bits, a created order has one slice for
  every interval of its duration, all pending, scheduled interval by interval from now on. Every slice but the
  last gets the same quantity, the last one also gets the remainder, so the quantities add up to exactly
  the total; none is negative. Nothing but the tables of the orders changes.
\<close>

theorem twap_schedule_exact:
  assumes run: "create_twap env req s = (Inr twap, t)" and sizes: "in_i64 (ct_total_qty req)" "in_i64 (ct_duration_secs req)"
    and count: "ct_duration_secs req div ct_interval_secs req < 2 ^ 31"
  shows "\<exists>cs. db_twaps t = db_twaps s @ [twap] \<and> db_twap_children t = db_twap_children s @ cs \<and> but_twaps t = but_twaps s \<and>
      int (length cs) = ct_duration_secs req div ct_interval_secs req \<and> tw_slices_total twap = int (length cs) \<and>
      sum_list (map tc_qty cs) = ct_total_qty req \<and>
      (\<forall>k < length cs. tc_slice_index (cs ! k) = int k \<and> tc_status (cs ! k) = ChildPending \<and> tc_twap_id (cs ! k) = tw_id twap \<and>
         te_add_seconds env (te_now env) (ct_interval_secs req * int k) = Some (tc_scheduled_at (cs ! k)) \<and>
         tc_qty (cs ! k) = ct_total_qty req div int (length cs) + (if Suc k = length cs then ct_total_qty req mod int (length cs) else 0) \<and>
         0 \<le> tc_qty (cs ! k))"
proof -
  let ?d = "ct_duration_secs req" and ?i = "ct_interval_secs req" and ?q = "ct_total_qty req"
  define n where "n = ?d div ?i"
  have pos: "0 < ?i" "0 < ?d" "0 < ?q" "?i \<le> ?d" using run by (auto simp: create_twap_def raiseA_def split: if_splits)
  have "0 < n" "n < 2 ^ 31" using pos count by (simp_all add: n_def pos_imp_zdiv_pos_iff)
  then have n: "0 < n" "wrap32 n = n" "wrap32 (n - 1) = n - 1" by (simp_all add: wrap32_id)
  note q = slice_arith [OF pos(3) sizes(1) n(1)] and w = slice_arith(4-6) [OF pos(3) sizes(1) n(1)]
  have sq: "slice_qty (?q div n) (?q mod n) n = (\<lambda>i. if i = n - 1 then ?q div n + ?q mod n else ?q div n)"
    by (rule ext) (simp add: slice_qty_def n(3) w(3))
  obtain u where parts: "db_twaps u = db_twaps s @ [twap]" "db_twap_children u = db_twap_children s" "but_twaps u = but_twaps s"
    "for_eachA (schedule_slice env (tw_id twap) ?i (?q div n) (?q mod n) n) [0..n - 1] u = (Inr (), t)" "tw_slices_total twap = n"
    using create_twap_ok [OF run n_def n(1,2) w] by blast
  obtain cs where cs: "db_twap_children t = db_twap_children u @ cs"
    "list_all2 (slice_row env (tw_id twap) ?i (slice_qty (?q div n) (?q mod n) n)) [0..n - 1] cs"
    "db_twaps t = db_twaps u" "but_twaps t = but_twaps u" using schedule_ok [OF parts(4)] by blast
  have len: "int (length cs) = n" using list_all2_lengthD [OF cs(2)] n(1) by simp
  have row: "slice_row env (tw_id twap) ?i (slice_qty (?q div n) (?q mod n) n) (int k) (cs ! k)" if "k < length cs" for k
    using list_all2_nthD2 [OF cs(2) that] that len by simp
  have "map tc_qty cs = map (slice_qty (?q div n) (?q mod n) n) [0..n - 1]"
    using cs(2) by (induction rule: list_all2_induct) (auto simp: slice_row_def)
  then have total: "sum_list (map tc_qty cs) = ?q" using sum_list_replicate_last [OF n(1)] q(1) by (simp add: sq mult.commute)
  have time: "wrap64 (?i * int k) = ?i * int k" if "k < length cs" for k
    using slice_time [OF pos(1) sizes(2), of k] that len by (simp add: n_def)
  have each: "tc_slice_index (cs ! k) = int k \<and> tc_status (cs ! k) = ChildPending \<and> tc_twap_id (cs ! k) = tw_id twap \<and>
      te_add_seconds env (te_now env) (?i * int k) = Some (tc_scheduled_at (cs ! k)) \<and>
      tc_qty (cs ! k) = ?q div int (length cs) + (if Suc k = length cs then ?q mod int (length cs) else 0) \<and> 0 \<le> tc_qty (cs ! k)"
    if "k < length cs" for k
  proof -
    have last: "int k = n - 1 \<longleftrightarrow> Suc k = length cs" using len by auto
    show ?thesis using row [OF that] time [OF that] q(2,3) len by (auto simp: slice_row_def sq last)
  qed
  have "db_twaps t = db_twaps s @ [twap]" "db_twap_children t = db_twap_children s @ cs" "but_twaps t = but_twaps s"
    "tw_slices_total twap = int (length cs)" "int (length cs) = ?d div ?i"
    using parts cs len by (simp_all add: n_def)
  then show ?thesis using total each by (intro exI [of _ cs]) blast
qed

section \<open>Cancelling releases nothing\<close>

lemma add_to_balance_no_row:
  assumes "\<forall>b\<in>set (db_balances s). bal_account_id b \<noteq> c"
  shows "add_to_balance c a d1 d2 now P s = Inr (0, s)"
proof -
  have "filter (\<lambda>b. bal_account_id b = c \<and> bal_asset b = a \<and> P b) (db_balances s) = []" using assms by (auto simp: filter_empty_conv)
  moreover have "map (\<lambda>b. if bal_account_id b = c \<and> bal_asset b = a \<and> P b then f b else b) (db_balances s) = db_balances s" for f
    using assms by (intro map_idI) auto
  ultimately show ?thesis by (simp add: add_to_balance_def Let_def update_balances_def)
qed

definition balances_are :: "balance list \<Rightarrow> pgdb \<Rightarrow> bool" where
  "balances_are bs s \<longleftrightarrow> db_balances s = bs"

lemma balances_are_simps [simp]:
  "balances_are bs (tick s) = balances_are bs s" "balances_are bs (s\<lparr>db_faults := f\<rparr>) = balances_are bs s"
  by (simp_all add: balances_are_def)

lemma release_tx_no_row:
  assumes "\<forall>b\<in>set bs. bal_account_id b \<noteq> c"
  shows "preserves (balances_are bs) (release_tx now i c a n st)"
proof -
  have "preserves (balances_are bs) (shift_to_available c a n now)"
    using assms by (auto simp: preserves_def shift_to_available_def bindA_def map_errA_def sql_exec_def balances_are_def add_to_balance_no_row returnA_def)
  moreover have "preserves (balances_are bs) (sql_update (set_intent_status i st))"
    by (rule preserves_sql_update) (simp_all add: balances_are_def set_intent_status_def)
  ultimately show ?thesis unfolding release_tx_def by blast
qed

lemma cancel_intent_no_row:
  assumes "\<forall>b\<in>set bs. bal_account_id b \<noteq> c"
  shows "preserves (\<lambda>w. balances_are bs (w_db w)) (cancel_intent now i c)"
proof -
  have q: "preserves (balances_are bs) (get_intent i)"
    by (auto simp: preserves_def get_intent_def query_or_def bindA_def tryA_def sql_query_def returnA_def split: sum.splits)
  show ?thesis
    unfolding cancel_intent_def release_intent_def intent_parse_asset_def Let_def
    by (intro preserves_bindA preserves_seqA preserves_on_db preserves_in_tx preserves_publish q release_tx_no_row [OF assms] |
        auto split: option.splits intro!: preserves_bindA preserves_seqA preserves_on_db preserves_in_tx preserves_publish release_tx_no_row [OF assms])+
qed

text \<open>
  Cancelling an order through its HTTP handler releases no funds: the handler names the nil
  account, which owns no balance. Whatever the outcome, all balances stay as they are, so the funds that
  the submitted slices have locked stay locked although their intents are cancelled.
\<close>

theorem cancel_twap_releases_nothing:
  assumes "cancel_twap_handler env twap_id w = (r, w')" and "\<forall>b\<in>set (db_balances (w_db w)). bal_account_id b \<noteq> 0"
  shows "db_balances (w_db w') = db_balances (w_db w)"
proof -
  have child: "preserves (\<lambda>v. balances_are (db_balances (w_db w)) (w_db v)) (cancel_child env 0 c)" for c
    unfolding cancel_child_def using cancel_intent_no_row [OF assms(2)] by auto
  have q: "preserves (balances_are bs) (map_errA g (sql_query f))" for bs g f
    by (intro preserves_map_errA preserves_sql_query) simp
  have u: "preserves (balances_are bs) (map_errA g (sql_update (update_twap i P f)))"
    "preserves (balances_are bs) (map_errA g (sql_update (\<lambda>s. s\<lparr>db_twap_children := h s\<rparr>)))" for bs g i P f h
    by (intro preserves_map_errA preserves_sql_update; simp add: balances_are_def update_twap_def)+
  have t: "preserves (balances_are bs) (get_twap_or_fail twap_id)" for bs
    unfolding get_twap_or_fail_def get_twap_def by (intro preserves_bindA q) (auto split: option.splits)
  have "preserves (\<lambda>v. balances_are (db_balances (w_db w)) (w_db v)) (cancel_twap env twap_id 0)"
    unfolding cancel_twap_def
    by (rule preserves_bindA, rule preserves_on_db, rule t)
      (auto intro!: preserves_bindA preserves_seqA preserves_for_eachA preserves_on_db preserves_pure q u child)
  from preservesD [OF this, of w r w'] assms(1) show ?thesis by (simp add: cancel_twap_handler_def balances_are_def)
qed

section \<open>Redelivered events\<close>

lemma update_child_none:
  assumes "\<And>c. c \<in> set (db_twap_children s) \<Longrightarrow> tc_id c = i \<Longrightarrow> \<not> P c" and "update_child i P f s = (r, t)"
  shows "db_twap_children t = db_twap_children s \<and> db_twaps t = db_twaps s \<and> (\<forall>n. r = Inr n \<longrightarrow> n = 0)"
proof -
  have "filter (\<lambda>c. tc_id c = i \<and> P c) (db_twap_children s) = []" using assms(1) by (auto simp: filter_empty_conv)
  moreover have "map (\<lambda>c. if tc_id c = i \<and> P c then f c else c) (db_twap_children s) = db_twap_children s"
    using assms(1) by (intro map_idI) auto
  ultimately show ?thesis using assms(2) by (auto simp: update_child_def map_errA_def sql_exec_def split: if_splits)
qed

text \<open>
  Events may be delivered again: once the slice of an intent is marked completed, a further event for
  that intent, whatever it says, changes neither the slices nor the orders, so a fill is counted
  at most once.
\<close>

theorem completed_slice_counted_once:
  assumes run: "process_intent_settled env (Some event) s = (r, t)" and keys: "distinct (map tc_id (db_twap_children s))"
    and child: "List.find (\<lambda>c. tc_intent_id c = ise_intent_id event) (db_twap_children s) = Some c" and fin: "tc_status c = ChildCompleted"
  shows "db_twap_children t = db_twap_children s \<and> db_twaps t = db_twaps s"
proof (cases "next_fault s")
  case True
  then show ?thesis using run by (auto simp: process_intent_settled_def bindA_def tryA_def sql_query_def returnA_def)
next
  case False
  have mem: "c \<in> set (db_twap_children (tick s))" using find_Some_memD [OF child] by simp
  have uniq: "d = c" if "d \<in> set (db_twap_children (tick s))" "tc_id d = tc_id c" for d
    using keys mem that by (auto simp: distinct_map dest: inj_onD)
  have comp: "db_twap_children v = db_twap_children s \<and> db_twaps v = db_twaps s"
    if "record_child_completed env x (tc_id c) n (tick s) = (q, v)" for x n q v
  proof -
    obtain p u where u: "update_child (tc_id c) (\<lambda>c. tc_status c \<noteq> ChildCompleted) (\<lambda>c. c\<lparr>tc_status := ChildCompleted\<rparr>) (tick s) = (p, u)" by fastforce
    from update_child_none [OF _ u] uniq fin have "db_twap_children u = db_twap_children s" "db_twaps u = db_twaps s" "\<forall>n. p = Inr n \<longrightarrow> n = 0"
      by auto
    then show ?thesis using that u by (cases p) (auto simp: record_child_completed_def bindA_def returnA_def)
  qed
  have expd: "db_twap_children v = db_twap_children s \<and> db_twaps v = db_twaps s"
    if "record_child_expired env x (tc_id c) (tick s) = (q, v)" for x q v
  proof -
    obtain p u where u: "update_child (tc_id c) (\<lambda>c. tc_status c \<noteq> ChildCompleted \<and> tc_status c \<noteq> ChildExpired)
        (\<lambda>c. c\<lparr>tc_status := ChildExpired\<rparr>) (tick s) = (p, u)" by fastforce
    from update_child_none [OF _ u] uniq fin have "db_twap_children u = db_twap_children s" "db_twaps u = db_twaps s" "\<forall>n. p = Inr n \<longrightarrow> n = 0"
      by auto
    then show ?thesis using that u by (cases p) (auto simp: record_child_expired_def bindA_def returnA_def)
  qed
  show ?thesis
    using run False child comp [OF prod.collapse [symmetric]] expd [OF prod.collapse [symmetric]]
    by (auto simp: process_intent_settled_def bindA_def tryA_def sql_query_def returnA_def ignoreA_def split: intent_status.splits)
qed

section \<open>Examples\<close>

definition sample_twap_env :: twap_env where
  "sample_twap_env = \<lparr>te_now = 5, te_now_s = 5, te_add_seconds = (\<lambda>t d. Some (t + d)), te_unix_seconds = (\<lambda>t. t), te_risk = sample_risk 5\<rparr>"

definition sample_twap_request :: create_twap_request where
  "sample_twap_request = \<lparr>ct_user_id = ''alice'', ct_account_id = 10, ct_token_in = ''USDC'', ct_token_out = ''ETH'', ct_total_qty = 100,
     ct_min_price = 1, ct_duration_secs = 30, ct_interval_secs = 10\<rparr>"

lemmas twap_evals = create_twap_def schedule_slice_def insert_child_def insert_twap_def slice_qty_def rust_div_def wrap32_def wrap64_def
  sample_twap_env_def sample_twap_request_def sample_db_def storage_evals

lemma sample_twap_created:
  "\<exists>twap t. create_twap sample_twap_env sample_twap_request sample_db = (Inr twap, t)"
  by (simp add: twap_evals upto_rec1)

theorem twap_schedule_exact_witness:
  "\<exists>twap t. create_twap sample_twap_env sample_twap_request sample_db = (Inr twap, t) \<and> length (db_twap_children t) = 3 \<and>
     sum_list (map tc_qty (db_twap_children t)) = 100 \<and> tc_qty (db_twap_children t ! 2) = 34"
proof -
  obtain twap t where run: "create_twap sample_twap_env sample_twap_request sample_db = (Inr twap, t)" using sample_twap_created by blast
  have r: "ct_interval_secs sample_twap_request = 10" "ct_total_qty sample_twap_request = 100"
    "ct_duration_secs sample_twap_request = 30" "db_twap_children sample_db = []"
    by (simp_all add: sample_twap_request_def sample_db_def)
  have len: "length (db_twap_children t) = 3" and "sum_list (map tc_qty (db_twap_children t)) = 100"
    and "\<forall>k < length (db_twap_children t). tc_qty (db_twap_children t ! k)
       = 100 div int (length (db_twap_children t)) + (if Suc k = length (db_twap_children t) then 100 mod int (length (db_twap_children t)) else 0)"
    using twap_schedule_exact [OF run] unfolding r by (simp_all add: in_i64_iff)
  then show ?thesis using run by (simp add: len)
qed

definition cancel_world :: world where
  "cancel_world = \<lparr>w_db = sample_db\<lparr>
     db_balances := [\<lparr>bal_id = 1, bal_account_id = 10, bal_asset = USDC, bal_available_balance = 0, bal_locked_balance = 33, bal_updated_at = 0\<rparr>],
     db_intents := [Intent_new 7 0 ''alice'' ''USDC'' ''ETH'' 33 1 100],
     db_twaps := [\<lparr>tw_id = 3, tw_user_id = ''alice'', tw_account_id = 10, tw_token_in = ''USDC'', tw_token_out = ''ETH'', tw_total_qty = 33,
        tw_filled_qty = 0, tw_min_price = 1, tw_duration_secs = 10, tw_interval_secs = 10, tw_slices_total = 1, tw_slices_completed = 0,
        tw_status = TwapActive, tw_created_at = 0, tw_finished_at = None\<rparr>],
     db_twap_children := [\<lparr>tc_id = 4, tc_twap_id = 3, tc_intent_id = 7, tc_slice_index = 0, tc_qty = 33, tc_status = ChildSubmitted,
        tc_scheduled_at = 0, tc_created_at = 0\<rparr>]\<rparr>, w_events = [], w_bus_faults = [], w_activity = Map.empty\<rparr>"

lemma cancel_world_run:
  "\<exists>x w'. cancel_twap_handler sample_twap_env 3 cancel_world = (Inr x, w') \<and> map in_status (db_intents (w_db w')) = [Cancelled]"
  by (simp add: cancel_twap_handler_def cancel_twap_def get_twap_or_fail_def get_twap_def find_twap_def open_child_def cancel_child_def cancel_intent_def
      release_intent_def release_tx_def shift_to_available_def intent_parse_asset_def parse_asset_def to_upper_def add_to_balance_def update_balances_def
      set_intent_status_def update_twap_def find_intent_def Intent_new_def cancel_world_def sample_twap_env_def sample_db_def u64_as_i64_def wrap64_def
      storage_evals)

theorem cancel_twap_releases_nothing_witness:
  "\<exists>x w'. cancel_twap_handler sample_twap_env 3 cancel_world = (Inr x, w') \<and> map in_status (db_intents (w_db w')) = [Cancelled] \<and>
     map bal_locked_balance (db_balances (w_db w')) = [33]"
proof -
  obtain x w' where run: "cancel_twap_handler sample_twap_env 3 cancel_world = (Inr x, w')" "map in_status (db_intents (w_db w')) = [Cancelled]"
    using cancel_world_run by (elim exE conjE) (rule that)
  have "db_balances (w_db w') = db_balances (w_db cancel_world)"
    using cancel_twap_releases_nothing [OF run(1)] by (simp add: cancel_world_def)
  then show ?thesis using run by (intro exI [of _ x] exI [of _ w']) (simp add: cancel_world_def)
qed

theorem completed_slice_counted_once_witness:
  "let s = (w_db cancel_world)\<lparr>db_twap_children := map (\<lambda>c. c\<lparr>tc_status := ChildCompleted\<rparr>) (db_twap_children (w_db cancel_world))\<rparr> in
   db_twaps (snd (process_intent_settled sample_twap_env (Some \<lparr>ise_intent_id = 7, ise_settled_qty = 33, ise_status = Completed\<rparr>) s)) = db_twaps s"
  unfolding Let_def
  by (rule completed_slice_counted_once [OF prod.collapse [symmetric], THEN conjunct2]) (simp add: cancel_world_def)+

end
