(* ===== verification/Codec.thy ===== *)
theory Codec
  imports Prelude
begin

text \<open>
  The interface of the wire formats: an encoder and a decoder that reads one value from the front of a
  byte string and returns what is left. The one law is that decoding undoes encoding whatever follows;
  sequences, and that two different values never start the same way, follow from it.
\<close>

primrec dec_times :: "(bytes \<Rightarrow> ('a \<times> bytes) option) \<Rightarrow> nat \<Rightarrow> bytes \<Rightarrow> ('a list \<times> bytes) option" where
  "dec_times dec 0 bs = Some ([], bs)"
| "dec_times dec (Suc n) bs =
     (case dec bs of None \<Rightarrow> None | Some (x, bs') \<Rightarrow> map_option (apfst (Cons x)) (dec_times dec n bs'))"

locale prefix_codec =
  fixes enc :: "'a \<Rightarrow> bytes" and dec :: "bytes \<Rightarrow> ('a \<times> bytes) option" and ok :: "'a \<Rightarrow> bool"
  assumes dec_enc: "ok x \<Longrightarrow> dec (enc x @ rest) = Some (x, rest)"
begin

lemma enc_prefix_free: "ok x \<Longrightarrow> ok y \<Longrightarrow> enc x @ r = enc y @ s \<Longrightarrow> x = y \<and> r = s"
  by (metis dec_enc option.inject prod.inject)

lemma dec_times_enc: "list_all ok xs \<Longrightarrow> dec_times dec (length xs) (concat (map enc xs) @ rest) = Some (xs, rest)"
  by (induction xs) (simp_all add: dec_enc)

end

text \<open>Byte strings of a fixed length.\<close>

definition dec_fixed :: "nat \<Rightarrow> bytes \<Rightarrow> (bytes \<times> bytes) option" where
  "dec_fixed n bs = (if n \<le> length bs then Some (take n bs, drop n bs) else None)"

interpretation fixed: prefix_codec "\<lambda>bs. bs" "dec_fixed n" "\<lambda>bs. length bs = n" for n
  by unfold_locales (simp add: dec_fixed_def)

text \<open>A counted sequence: the number of elements in the format of \<open>encn\<close>, then the elements.\<close>

definition dec_seq :: "(bytes \<Rightarrow> (nat \<times> bytes) option) \<Rightarrow> (bytes \<Rightarrow> ('a \<times> bytes) option) \<Rightarrow> bytes \<Rightarrow> ('a list \<times> bytes) option" where
  "dec_seq decn dec bs = (case decn bs of None \<Rightarrow> None | Some (n, bs') \<Rightarrow> dec_times dec n bs')"

locale counted_codec = len: prefix_codec encn decn okn + elem: prefix_codec enc dec ok
  for encn :: "nat \<Rightarrow> bytes" and decn okn and enc :: "'a \<Rightarrow> bytes" and dec ok
begin

lemma dec_seq_enc:
  "okn (length xs) \<Longrightarrow> list_all ok xs \<Longrightarrow> dec_seq decn dec (encn (length xs) @ concat (map enc xs) @ rest) = Some (xs, rest)"
  by (simp add: dec_seq_def len.dec_enc elem.dec_times_enc)

end

sublocale counted_codec \<subseteq> sequence: prefix_codec "\<lambda>xs. encn (length xs) @ concat (map enc xs)" "dec_seq decn dec"
    "\<lambda>xs. okn (length xs) \<and> list_all ok xs"
  by unfold_locales (simp add: dec_seq_enc)

end
