(* ===== verification/Rust_Text.thy ===== *)
theory Rust_Text
  imports Codec
begin

text \<open>
  What the sources use of the text functions of the Rust library: decimal numbers printed and parsed,
  prefixes, substrings, splitting at a separator, lower case, and the byte value of a character; and the
  tree of JSON values. A string is a list of characters of one byte.
\<close>

section \<open>Decimal numbers\<close>

definition digit :: "nat \<Rightarrow> char" where
  "digit n = char_of (48 + n)"

definition is_digit :: "char \<Rightarrow> bool" where
  "is_digit c \<longleftrightarrow> 48 \<le> (of_char c :: nat) \<and> (of_char c :: nat) \<le> 57"

fun show_nat :: "nat \<Rightarrow> string" where
  "show_nat n = (if n < 10 then [digit n] else show_nat (n div 10) @ [digit (n mod 10)])"

declare show_nat.simps [simp del]

definition digits_value :: "string \<Rightarrow> nat" where
  "digits_value s = foldl (\<lambda>v c. 10 * v + (of_char c - 48)) 0 s"

text \<open>\<open>str::parse\<close> at an unsigned type of \<open>bits\<close> bits: an optional plus sign, at least one digit, no overflow.\<close>

definition parse_uint :: "nat \<Rightarrow> string \<Rightarrow> nat option" where
  "parse_uint bits s =
     (let ds = (case s of c # cs \<Rightarrow> if c = CHR ''+'' then cs else s | [] \<Rightarrow> []) in
      if ds \<noteq> [] \<and> list_all is_digit ds \<and> digits_value ds < 2 ^ bits then Some (digits_value ds) else None)"

lemma of_char_digit [simp]: "n < 10 \<Longrightarrow> (of_char (digit n) :: nat) = 48 + n"
  by (simp add: digit_def)

lemma is_digit_digit [simp]: "n < 10 \<Longrightarrow> is_digit (digit n)"
  by (simp add: is_digit_def)

lemma show_nat_digits: "list_all is_digit (show_nat n)"
  by (induction n rule: show_nat.induct) (simp add: show_nat.simps)

lemma show_nat_nonempty [simp]: "show_nat n \<noteq> []"
  by (subst show_nat.simps) simp

lemma digits_value_show_nat [simp]: "digits_value (show_nat n) = n"
proof (induction n rule: show_nat.induct)
  case (1 n)
  show ?case
  proof (cases "n < 10")
    case True
    then show ?thesis by (simp add: show_nat.simps digits_value_def)
  next
    case False
    then have "digits_value (show_nat (n div 10)) = n div 10" using 1 by simp
    then show ?thesis using False by (subst show_nat.simps) (simp add: digits_value_def)
  qed
qed

lemma digit_not_plus: "is_digit c \<Longrightarrow> c \<noteq> CHR ''+''"
  by (auto simp: is_digit_def)

lemma digit_not_slash: "is_digit c \<Longrightarrow> c \<noteq> CHR ''/''"
  by (auto simp: is_digit_def)

theorem parse_uint_show_nat: "n < 2 ^ bits \<Longrightarrow> parse_uint bits (show_nat n) = Some n"
  using show_nat_digits [of n] show_nat_nonempty [of n] digits_value_show_nat [of n]
  by (cases "show_nat n") (auto simp: parse_uint_def dest: digit_not_plus)

lemma slash_free_show_nat: "CHR ''/'' \<notin> set (show_nat n)"
  using show_nat_digits [of n] digit_not_slash by (auto simp: list_all_iff)

section \<open>Searching and splitting\<close>

definition contains :: "string \<Rightarrow> string \<Rightarrow> bool" where
  "contains text pat = (\<exists>i\<in>set [0..<Suc (length text)]. take (length pat) (drop i text) = pat)"

definition starts_with :: "string \<Rightarrow> string \<Rightarrow> bool" where
  "starts_with text pat = (take (length pat) text = pat)"

text \<open>\<open>s.strip_prefix("0x").unwrap_or(s)\<close>\<close>

definition strip_0x :: "string \<Rightarrow> string" where
  "strip_0x s = (if starts_with s ''0x'' then drop 2 s else s)"

definition to_lower :: "char \<Rightarrow> char" where
  "to_lower c = (let n = of_char c :: nat in if 65 \<le> n \<and> n \<le> 90 then char_of (n + 32) else c)"

text \<open>\<open>s.splitn(n, sep)\<close>: at most \<open>n\<close> parts, the last one with everything that is left.\<close>

fun splitn :: "nat \<Rightarrow> char \<Rightarrow> string \<Rightarrow> string list" where
  "splitn 0 sep s = []"
| "splitn (Suc 0) sep s = [s]"
| "splitn (Suc (Suc n)) sep s =
     (if sep \<in> set s
      then takeWhile (\<lambda>c. c \<noteq> sep) s # splitn (Suc n) sep (tl (dropWhile (\<lambda>c. c \<noteq> sep) s))
      else [s])"

lemma splitn_part:
  assumes "sep \<notin> set a"
  shows "splitn (Suc (Suc n)) sep (a @ sep # s) = a # splitn (Suc n) sep s"
proof -
  have "takeWhile (\<lambda>c. c \<noteq> sep) (a @ sep # s) = a" "dropWhile (\<lambda>c. c \<noteq> sep) (a @ sep # s) = sep # s"
    using assms by (induction a) auto
  then show ?thesis by simp
qed

text \<open>\<open>s.trim_end_matches(c)\<close>\<close>

definition trim_end :: "char \<Rightarrow> string \<Rightarrow> string" where
  "trim_end c s = rev (dropWhile (\<lambda>d. d = c) (rev s))"

lemma trim_end_append:
  assumes "s = [] \<or> last s \<noteq> c"
  shows "trim_end c (s @ replicate n c) = s"
proof -
  have "dropWhile (\<lambda>d. d = c) (replicate n c @ rev s) = rev s"
    using assms by (induction n) (auto simp: dropWhile_eq_self_iff hd_rev)
  then show ?thesis by (simp add: trim_end_def)
qed

section \<open>Hexadecimal numbers\<close>

definition hex_digit :: "nat \<Rightarrow> char" where
  "hex_digit n = (if n < 10 then char_of (48 + n) else char_of (87 + n))"

text \<open>\<open>format!("{:0n x}")\<close> of a number below \<open>16 ^ n\<close>.\<close>

fun hex_padded :: "nat \<Rightarrow> nat \<Rightarrow> string" where
  "hex_padded 0 v = []"
| "hex_padded (Suc n) v = hex_padded n (v div 16) @ [hex_digit (v mod 16)]"

lemma length_hex_padded [simp]: "length (hex_padded n v) = n"
  by (induction n arbitrary: v) auto

lemma hex_digit_inj: "m < 16 \<Longrightarrow> n < 16 \<Longrightarrow> hex_digit m = hex_digit n \<Longrightarrow> m = n"
  by (auto simp: hex_digit_def split: if_splits)

lemma hex_padded_inj: "v < 16 ^ n \<Longrightarrow> w < 16 ^ n \<Longrightarrow> hex_padded n v = hex_padded n w \<Longrightarrow> v = w"
proof (induction n arbitrary: v w)
  case (Suc n)
  have "v div 16 = w div 16"
    using Suc.prems by (intro Suc.IH) (auto simp: less_mult_imp_div_less mult.commute)
  moreover have "v mod 16 = w mod 16" using Suc.prems(3) hex_digit_inj [of "v mod 16" "w mod 16"] by simp
  ultimately show ?case by (metis div_mult_mod_eq)
qed simp

lemma hex_digit_no_slash: "n < 16 \<Longrightarrow> hex_digit n \<noteq> CHR ''/''"
  by (auto simp: hex_digit_def char_of_eq_iff take_bit_eq_mod)

lemma hex_padded_no_slash: "CHR ''/'' \<notin> set (hex_padded n v)"
  using hex_digit_no_slash by (induction n arbitrary: v) (auto dest: sym)

text \<open>\<open>format!("{:x}")\<close>\<close>

fun show_hex :: "nat \<Rightarrow> string" where
  "show_hex n = (if n < 16 then [hex_digit n] else show_hex (n div 16) @ [hex_digit (n mod 16)])"

declare show_hex.simps [simp del]

text \<open>\<open>s.trim_start_matches("0x")\<close> removes the prefix as often as it is there.\<close>

fun trim_start_0x :: "string \<Rightarrow> string" where
  "trim_start_0x (c # d # s) = (if c = CHR ''0'' \<and> d = CHR ''x'' then trim_start_0x s else c # d # s)"
| "trim_start_0x s = s"

definition hex_value :: "char \<Rightarrow> nat option" where
  "hex_value c =
     (let n = of_char c in
      if 48 \<le> n \<and> n \<le> 57 then Some (n - 48)
      else if 97 \<le> n \<and> n \<le> 102 then Some (n - 87)
      else if 65 \<le> n \<and> n \<le> 70 then Some (n - 55) else None)"

text \<open>
  \<open>from_str_radix(s, 16)\<close>: the digits are added one by one, the first one that is none or that exceeds
  the limit of the type ends with an error (its text). A sign is one character before at least one digit;
  an unsigned type takes a minus for a digit.
\<close>

fun hex_digits :: "nat \<Rightarrow> string \<Rightarrow> nat \<Rightarrow> string \<Rightarrow> string + nat" where
  "hex_digits limit overflow v [] = Inr v"
| "hex_digits limit overflow v (c # cs) =
     (case hex_value c of
        None \<Rightarrow> Inl ''invalid digit found in string''
      | Some d \<Rightarrow> if limit < v * 16 + d then Inl overflow else hex_digits limit overflow (v * 16 + d) cs)"

definition parse_hex_u64 :: "string \<Rightarrow> string + u64" where
  "parse_hex_u64 s =
     (let ds = (case s of c # d # cs \<Rightarrow> if c = CHR ''+'' then d # cs else s | _ \<Rightarrow> s) in
      if ds = [] then Inl ''cannot parse integer from empty string''
      else map_sum id word_of_nat (hex_digits (2 ^ 64 - 1) ''number too large to fit in target type'' 0 ds))"

definition parse_hex_i64 :: "string \<Rightarrow> string + i64" where
  "parse_hex_i64 s =
     (case s of
        [] \<Rightarrow> Inl ''cannot parse integer from empty string''
      | c # cs \<Rightarrow>
          if c = CHR ''-'' \<and> cs \<noteq> []
          then map_sum id (\<lambda>n. - int n) (hex_digits (2 ^ 63) ''number too small to fit in target type'' 0 cs)
          else let ds = (if c = CHR ''+'' \<and> cs \<noteq> [] then cs else s) in
               map_sum id int (hex_digits (2 ^ 63 - 1) ''number too large to fit in target type'' 0 ds))"

lemma parse_hex_i64_range: "parse_hex_i64 s = Inr v \<Longrightarrow> in_i64 v"
proof -
  have d: "v \<le> limit \<Longrightarrow> hex_digits limit e v cs = Inr n \<Longrightarrow> n \<le> limit" for limit e v cs n
    by (induction cs arbitrary: v) (auto simp: not_less split: option.splits if_splits)
  have m: "map_sum id f r = Inr x \<longleftrightarrow> (\<exists>n. r = Inr n \<and> x = f n)" for f :: "nat \<Rightarrow> int" and r :: "string + nat" and x
    by (cases r) auto
  assume "parse_hex_i64 s = Inr v"
  then consider n e cs where "v = - int n" "hex_digits (2 ^ 63) e 0 cs = Inr n"
    | n e cs where "v = int n" "hex_digits (2 ^ 63 - 1) e 0 cs = Inr n"
    by (auto simp: parse_hex_i64_def Let_def m simp del: hex_digits.simps split: list.splits if_splits)
  then show ?thesis
  proof cases
    case 1
    then have "n \<le> 2 ^ 63" using d [of 0] by blast
    then show ?thesis using 1 by (simp add: in_i64_iff)
  next
    case 2
    then have "n \<le> 2 ^ 63 - 1" using d [of 0] by blast
    then show ?thesis using 2 by (simp add: in_i64_iff)
  qed
qed

section \<open>JSON values\<close>

text \<open>JSON as the tree that serde builds; the numbers of the modelled messages are integers.\<close>

datatype json = JNull | JBool bool | JNum int | JStr string | JArr "json list" | JObj "(string \<times> json) list"

fun json_get :: "string \<Rightarrow> json \<Rightarrow> json option" where
  "json_get key (JObj fs) = map_of fs key"
| "json_get key _ = None"

fun as_array :: "json \<Rightarrow> json list option" where
  "as_array (JArr xs) = Some xs"
| "as_array _ = None"

fun json_str :: "json \<Rightarrow> string option" where
  "json_str (JStr s) = Some s"
| "json_str _ = None"

fun json_u64 :: "json \<Rightarrow> u64 option" where
  "json_u64 (JNum n) = (if 0 \<le> n \<and> n < 2 ^ 64 then Some (word_of_int n) else None)"
| "json_u64 _ = None"

fun json_i64 :: "json \<Rightarrow> i64 option" where
  "json_i64 (JNum n) = (if in_i64 n then Some n else None)"
| "json_i64 _ = None"

definition json_path :: "string list \<Rightarrow> json \<Rightarrow> json option" where
  "json_path keys v = foldl (\<lambda>v k. Option.bind v (json_get k)) (Some v) keys"

definition str_or :: "string \<Rightarrow> json option \<Rightarrow> string" where
  "str_or d v = (case Option.bind v json_str of Some s \<Rightarrow> s | None \<Rightarrow> d)"

definition show_int :: "int \<Rightarrow> string" where
  "show_int i = (if i < 0 then CHR ''-'' # show_nat (nat (- i)) else show_nat (nat i))"

text \<open>\<open>str::parse\<close> at \<open>i64\<close>: an optional sign, at least one digit, no overflow.\<close>

definition parse_i64 :: "string \<Rightarrow> i64 option" where
  "parse_i64 s =
     (let neg = (s \<noteq> [] \<and> hd s = CHR ''-'');
          ds = (if s \<noteq> [] \<and> (hd s = CHR ''-'' \<or> hd s = CHR ''+'') then tl s else s);
          v = (if neg then - int (digits_value ds) else int (digits_value ds))
      in if ds \<noteq> [] \<and> list_all is_digit ds \<and> in_i64 v then Some v else None)"

lemma parse_i64_show_int [simp]: "in_i64 n \<Longrightarrow> parse_i64 (show_int n) = Some n"
proof -
  assume n: "in_i64 n"
  have "hd (show_nat m) \<noteq> CHR ''-''" "hd (show_nat m) \<noteq> CHR ''+''" for m
    using show_nat_digits [of m] by (cases "show_nat m"; auto simp: is_digit_def)+
  then show ?thesis using n show_nat_digits by (simp add: parse_i64_def show_int_def Let_def)
qed

end
