(* ===== verification/Bridge.thy ===== *)
theory Bridge
  imports Database
begin

text \<open>
  The bridges between chains (src/cross_chain/bridge.rs, bridge_registry.rs) and the state the
  cross-chain workers run on. A bridge is a trait object: a record of its functions. What a bridge answers
  depends on the chains behind it, so every function of a bridge takes the calls made so far, and all
  statements are about arbitrary such functions. The workers' state is the database and the calls.
\<close>

section \<open>Calls and answers\<close>

record lock_receipt =
  lr_tx_hash :: string
  lr_message_id :: string
  lr_estimated_finality_secs :: u64

datatype bridge_status = BridgePending | InTransit string | BridgeCompleted string | BridgeFailed string

record bridge_transfer_params =
  bp_source_chain :: string
  bp_dest_chain :: string
  bp_token :: string
  bp_amount :: u64
  bp_sender :: string
  bp_recipient :: string

datatype bridge_error =
    UnsupportedRoute string | LockFailed string | VerificationFailed string | ReleaseFailed string
  | NetworkError string | OtherError string

definition bridge_error_text :: "bridge_error \<Rightarrow> string" where
  "bridge_error_text e =
     (case e of
        UnsupportedRoute r \<Rightarrow> ''Unsupported route: '' @ r
      | LockFailed m \<Rightarrow> ''Lock failed: '' @ m
      | VerificationFailed m \<Rightarrow> ''Verification failed: '' @ m
      | ReleaseFailed m \<Rightarrow> ''Release failed: '' @ m
      | NetworkError m \<Rightarrow> ''Network error: '' @ m
      | OtherError m \<Rightarrow> ''Bridge error: '' @ m)"

datatype bridge_call =
    LockCall bridge_transfer_params | VerifyCall string | ReleaseCall bridge_transfer_params string

record bridge_adapter =
  br_name :: string
  br_supports_route :: "string \<Rightarrow> string \<Rightarrow> bool"
  br_lock_funds :: "bridge_call list \<Rightarrow> bridge_transfer_params \<Rightarrow> bridge_error + lock_receipt"
  br_verify_lock :: "bridge_call list \<Rightarrow> string \<Rightarrow> bridge_error + bridge_status"
  br_release_funds :: "bridge_call list \<Rightarrow> bridge_transfer_params \<Rightarrow> string \<Rightarrow> bridge_error + string"

section \<open>The registry\<close>

type_synonym bridge_registry = "bridge_adapter list"

definition register :: "bridge_adapter \<Rightarrow> bridge_registry \<Rightarrow> bridge_registry" where
  "register b reg = reg @ [b]"

definition find_bridge :: "bridge_registry \<Rightarrow> string \<Rightarrow> string \<Rightarrow> bridge_error + bridge_adapter" where
  "find_bridge reg source_chain dest_chain =
     ok_or (List.find (\<lambda>b. br_supports_route b source_chain dest_chain) reg)
       (UnsupportedRoute (source_chain @ '' -> '' @ dest_chain))"

definition list_bridges :: "bridge_registry \<Rightarrow> string list" where
  "list_bridges reg = map br_name reg"

section \<open>The workers' state\<close>

record chain_world =
  cw_db :: pgdb
  cw_calls :: "bridge_call list"

type_synonym ('e, 'a) chain_action = "(chain_world, 'e, 'a) action"

definition chain_db :: "(pgdb, 'e, 'a) action \<Rightarrow> ('e, 'a) chain_action" where
  "chain_db m w = (case m (cw_db w) of (r, s) \<Rightarrow> (r, w\<lparr>cw_db := s\<rparr>))"

definition lock_funds :: "bridge_adapter \<Rightarrow> bridge_transfer_params \<Rightarrow> ('e, bridge_error + lock_receipt) chain_action" where
  "lock_funds b p w = (Inr (br_lock_funds b (cw_calls w) p), w\<lparr>cw_calls := cw_calls w @ [LockCall p]\<rparr>)"

definition verify_lock :: "bridge_adapter \<Rightarrow> string \<Rightarrow> ('e, bridge_error + bridge_status) chain_action" where
  "verify_lock b tx w = (Inr (br_verify_lock b (cw_calls w) tx), w\<lparr>cw_calls := cw_calls w @ [VerifyCall tx]\<rparr>)"

definition release_funds :: "bridge_adapter \<Rightarrow> bridge_transfer_params \<Rightarrow> string \<Rightarrow> ('e, bridge_error + string) chain_action" where
  "release_funds b p msg w = (Inr (br_release_funds b (cw_calls w) p msg), w\<lparr>cw_calls := cw_calls w @ [ReleaseCall p msg]\<rparr>)"

text \<open>The start of every phase: the rows of a query, or none when the query fails.\<close>

definition for_rows :: "(pgdb, 'f, 'a list) action \<Rightarrow> ('a \<Rightarrow> ('e, unit) chain_action) \<Rightarrow> ('e, unit) chain_action" where
  "for_rows q body =
     bindA (tryA (chain_db q)) (\<lambda>r. case r of Inl _ \<Rightarrow> returnA () | Inr rows \<Rightarrow> for_eachA body rows)"

section \<open>Rules\<close>

lemma find_bridge_first:
  "find_bridge reg src dst = Inr b \<Longrightarrow> b \<in> set reg \<and> br_supports_route b src dst"
  by (auto simp: find_bridge_def dest: find_Some_memD)

lemma preserves_chain_db [intro]: "preserves I m \<Longrightarrow> preserves (\<lambda>w. I (cw_db w)) (chain_db m)"
  by (auto simp: preserves_def chain_db_def split: prod.splits)

lemma preserves_bridge_calls [intro!]:
  "preserves (\<lambda>w. I (cw_db w)) (lock_funds b p)"
  "preserves (\<lambda>w. I (cw_db w)) (verify_lock b tx)"
  "preserves (\<lambda>w. I (cw_db w)) (release_funds b p msg)"
  by (simp_all add: preserves_def lock_funds_def verify_lock_def release_funds_def)

lemma preserves_for_rows [intro]:
  assumes "preserves (\<lambda>w. I (cw_db w)) (chain_db q)" and "\<And>x. preserves (\<lambda>w. I (cw_db w)) (body x)"
  shows "preserves (\<lambda>w. I (cw_db w)) (for_rows q body)"
  unfolding for_rows_def using assms by (auto split: sum.splits)

lemmas bridge_evals = db_evals chain_db_def lock_funds_def verify_lock_def release_funds_def for_rows_def find_bridge_def

lemma tick_no_faults: "db_faults s = [] \<Longrightarrow> tick s = s" "db_faults s = [] \<Longrightarrow> \<not> next_fault s"
  by (simp_all add: tick_def next_fault_def)

lemma for_rows_answer:
  assumes "q (cw_db w) = (Inr rows, cw_db w)"
  shows "for_rows q body w = for_eachA body rows w"
  using assms by (simp add: for_rows_def bindA_def tryA_def chain_db_def)

text \<open>A bridge that carries out every call.\<close>

definition willing :: "bridge_adapter \<Rightarrow> bool" where
  "willing b \<longleftrightarrow> (\<forall>calls p. \<exists>receipt. br_lock_funds b calls p = Inr receipt) \<and>
     (\<forall>calls tx. \<exists>dest_tx. br_verify_lock b calls tx = Inr (BridgeCompleted dest_tx)) \<and>
     (\<forall>calls p msg. \<exists>tx. br_release_funds b calls p msg = Inr tx)"

section \<open>Tables whose rows evolve\<close>

text \<open>
  Rows change only along \<open>R\<close>, none is deleted, and new rows satisfy \<open>N\<close>. For a preorder \<open>R\<close> that
  keeps \<open>N\<close> this composes over any sequence of statements.
\<close>

definition rows_evolve :: "('a \<Rightarrow> 'a \<Rightarrow> bool) \<Rightarrow> ('a \<Rightarrow> bool) \<Rightarrow> 'a list \<Rightarrow> 'a list \<Rightarrow> bool" where
  "rows_evolve R N xs ys \<longleftrightarrow> (\<exists>zs new. ys = zs @ new \<and> list_all2 R xs zs \<and> list_all N new)"

locale row_order =
  fixes R :: "'a \<Rightarrow> 'a \<Rightarrow> bool" and N :: "'a \<Rightarrow> bool"
  assumes R_refl: "R x x"
    and R_trans: "R x y \<Longrightarrow> R y z \<Longrightarrow> R x z"
    and R_keeps: "R x y \<Longrightarrow> N x \<Longrightarrow> N y"
begin

lemma evolve_refl: "rows_evolve R N xs xs"
  unfolding rows_evolve_def using R_refl by (intro exI [of _ xs] exI [of _ "[]"]) (auto intro!: list.rel_refl)

lemma evolve_trans:
  assumes "rows_evolve R N xs ys" and "rows_evolve R N ys zs"
  shows "rows_evolve R N xs zs"
proof -
  obtain y1 y2 where y: "ys = y1 @ y2" "list_all2 R xs y1" "list_all N y2" using assms(1) unfolding rows_evolve_def by blast
  obtain z1 z2 where z: "zs = z1 @ z2" "list_all2 R ys z1" "list_all N z2" using assms(2) unfolding rows_evolve_def by blast
  from z(2) y(1) obtain u v where u: "z1 = u @ v" "list_all2 R y1 u" "list_all2 R y2 v"
    by (auto simp: list_all2_append1)
  have "list_all2 R xs u" using list_all2_trans [of R R R, OF _ y(2) u(2)] R_trans by blast
  moreover have "list_all N v" using u(3) y(3) by (induction rule: list_all2_induct) (auto intro: R_keeps)
  ultimately show ?thesis unfolding rows_evolve_def using u(1) z(1,3) by (intro exI [of _ u] exI [of _ "v @ z2"]) auto
qed

lemma evolve_update:
  assumes "\<And>x. x \<in> set ys \<Longrightarrow> P x \<Longrightarrow> R x (f x)"
  shows "rows_evolve R N ys (map (\<lambda>x. if P x then f x else x) ys)"
  unfolding rows_evolve_def using assms R_refl
  by (intro exI [of _ "map (\<lambda>x. if P x then f x else x) ys"] exI [of _ "[]"]) (auto simp: list_all2_map2 intro!: list.rel_refl_strong)

lemma evolve_insert: "N y \<Longrightarrow> rows_evolve R N ys (ys @ [y])"
  unfolding rows_evolve_def using R_refl by (intro exI [of _ ys] exI [of _ "[y]"]) (auto intro!: list.rel_refl)

lemma evolve_old:
  assumes "rows_evolve R N xs ys" and "x \<in> set xs"
  shows "\<exists>y\<in>set ys. R x y"
  using assms unfolding rows_evolve_def by (fastforce simp: list_all2_conv_all_nth set_conv_nth [of xs])

lemma evolve_all: "rows_evolve R N xs ys \<Longrightarrow> list_all N xs \<Longrightarrow> list_all N ys"
  unfolding rows_evolve_def by (auto simp: list_all2_conv_all_nth list_all_length nth_append) (metis R_keeps)

end

end
