(* ===== verification/Vaa.thy ===== *)
theory Vaa
  imports Rust_Text Bridge
begin

text \<open>
  Signed messages of the guardian network: Base64 as the mock guardian encodes it (base64_encode of
  src/cross_chain/mock_guardian.rs) and the Wormhole adapter decodes it (base64_decode of
  src/cross_chain/wormhole.rs), the binary format of a VAA as the one builds it and the other parses
  it, and the quorum check. Indexing a slice out of range is a panic and an outcome of its own.
\<close>

section \<open>Base64\<close>

definition BASE64_TABLE :: string where
  "BASE64_TABLE = ''ABCDEFGHIJKLMNOPQRSTUVWXYZabcdefghijklmnopqrstuvwxyz0123456789+/''"

definition table_char :: "u32 \<Rightarrow> char" where
  "table_char w = BASE64_TABLE ! unat (w AND 63)"

definition triple :: "u8 \<Rightarrow> u8 \<Rightarrow> u8 \<Rightarrow> u32" where
  "triple b0 b1 b2 = (push_bit 16 (ucast b0) OR push_bit 8 (ucast b1)) OR ucast b2"

fun base64_encode :: "bytes \<Rightarrow> string" where
  "base64_encode [] = []"
| "base64_encode [b0] =
     (let t = triple b0 0 0 in [table_char (drop_bit 18 t), table_char (drop_bit 12 t), CHR ''='', CHR ''=''])"
| "base64_encode [b0, b1] =
     (let t = triple b0 b1 0 in [table_char (drop_bit 18 t), table_char (drop_bit 12 t), table_char (drop_bit 6 t), CHR ''=''])"
| "base64_encode (b0 # b1 # b2 # bs) =
     (let t = triple b0 b1 b2 in
      [table_char (drop_bit 18 t), table_char (drop_bit 12 t), table_char (drop_bit 6 t), table_char t] @ base64_encode bs)"

definition table_position :: "char \<Rightarrow> nat option" where
  "table_position c = List.find (\<lambda>i. BASE64_TABLE ! i = c) [0..<64]"

text \<open>The loop of the decoder: \<open>buf\<close> holds \<open>bits\<close> bits that have not been written.\<close>

fun decode_bits :: "string \<Rightarrow> u32 \<Rightarrow> nat \<Rightarrow> bridge_error + bytes" where
  "decode_bits [] buf bits = Inr []"
| "decode_bits (c # cs) buf bits =
     (case table_position c of
        None \<Rightarrow> Inl (VerificationFailed ''Invalid base64'')
      | Some val \<Rightarrow>
          let buf = push_bit 6 buf OR word_of_nat val; bits = bits + 6 in
          if 8 \<le> bits
          then let bits = bits - 8 in
               bindR (decode_bits cs (buf AND (push_bit bits 1 - 1)) bits) (\<lambda>out. Inr (ucast (drop_bit bits buf) # out))
          else decode_bits cs buf bits)"

definition base64_decode :: "string \<Rightarrow> bridge_error + bytes" where
  "base64_decode input = decode_bits (trim_end (CHR ''='') input) 0 0"

lemma and_63: "(w :: u32) AND 63 = take_bit 6 w"
  by (simp add: take_bit_eq_mask mask_eq_exp_minus_1)

lemma table_position_char: "table_position (table_char w) = Some (unat (w AND 63))"
proof -
  have "unat (w AND 63) \<le> unat (63 :: u32)" using word_and_le1 [of w 63] by (simp add: word_le_nat_alt)
  moreover have "\<forall>i\<in>set [0..<64]. table_position (BASE64_TABLE ! i) = Some i"
    by code_simp
  ultimately show ?thesis by (simp add: table_char_def)
qed

lemma table_char_not_pad: "table_char w \<noteq> CHR ''=''"
proof -
  have "table_position (CHR ''='') = None" by code_simp
  then show ?thesis using table_position_char [of w] by auto
qed

text \<open>What the decoder writes for the four characters of a group.\<close>

lemma byte_eqI:
  fixes a b :: u8
  assumes "bit a 0 = bit b 0" "bit a 1 = bit b 1" "bit a 2 = bit b 2" "bit a 3 = bit b 3"
    "bit a 4 = bit b 4" "bit a 5 = bit b 5" "bit a 6 = bit b 6" "bit a 7 = bit b 7"
  shows "a = b"
proof (rule bit_word_eqI)
  fix n assume "n < LENGTH(8)"
  then have "n = 0 \<or> n = 1 \<or> n = 2 \<or> n = 3 \<or> n = 4 \<or> n = 5 \<or> n = 6 \<or> n = 7" by simp arith
  then show "bit a n = bit b n" using assms by blast
qed

lemma bit_byte_beyond: "8 \<le> n \<Longrightarrow> \<not> bit (b :: u8) n"
  using bit_imp_le_length [of b n] by auto

lemmas group_bits = bit_simps triple_def bit_byte_beyond

lemma group_byte0:
  "ucast (drop_bit 4 (push_bit 6 (take_bit 6 (drop_bit 18 (triple b0 b1 b2))) OR take_bit 6 (drop_bit 12 (triple b0 b1 b2)))) = b0"
  by (rule byte_eqI) (simp_all add: group_bits)

lemma group_byte1:
  "ucast (drop_bit 2 (push_bit 6 (take_bit 4 (push_bit 6 (take_bit 6 (drop_bit 18 (triple b0 b1 b2))) OR take_bit 6 (drop_bit 12 (triple b0 b1 b2))))
     OR take_bit 6 (drop_bit 6 (triple b0 b1 b2)))) = b1"
  by (rule byte_eqI) (simp_all add: group_bits)

lemma group_byte2:
  "ucast (push_bit 6 (take_bit 2 (push_bit 6 (take_bit 4 (push_bit 6 (take_bit 6 (drop_bit 18 (triple b0 b1 b2))) OR take_bit 6 (drop_bit 12 (triple b0 b1 b2))))
     OR take_bit 6 (drop_bit 6 (triple b0 b1 b2)))) OR take_bit 6 (triple b0 b1 b2)) = b2"
  by (rule byte_eqI) (simp_all add: group_bits)

lemma low_bits: "(w :: u32) AND (push_bit n 1 - 1) = take_bit n w"
  by (simp add: take_bit_eq_mask mask_eq_exp_minus_1 push_bit_eq_mult)

lemma decode_char:
  "decode_bits (table_char w # cs) buf bits =
     (let buf = push_bit 6 buf OR take_bit 6 w; bits = bits + 6 in
      if 8 \<le> bits
      then bindR (decode_bits cs (take_bit (bits - 8) buf) (bits - 8)) (\<lambda>out. Inr (ucast (drop_bit (bits - 8) buf) # out))
      else decode_bits cs buf bits)"
  by (simp add: table_position_char and_63 low_bits Let_def del: take_bit_or drop_bit_or push_bit_or push_bit_of_1)

declare decode_bits.simps(2) [simp del]

lemma decode_base64_encode:
  "\<exists>body n. base64_encode bs = body @ replicate n (CHR ''='') \<and> (body = [] \<or> last body \<noteq> CHR ''='') \<and> decode_bits body 0 0 = Inr bs"
proof (induction bs rule: base64_encode.induct)
  case 1
  show ?case by (intro exI [of _ "[]"] exI [of _ 0]) simp
next
  case (2 b0)
  let ?t = "triple b0 0 0"
  show ?case
    by (intro exI [of _ "[table_char (drop_bit 18 ?t), table_char (drop_bit 12 ?t)]"] exI [of _ 2])
       (simp add: decode_char table_char_not_pad group_byte0 Let_def numeral_2_eq_2 del: take_bit_or drop_bit_or push_bit_or)
next
  case (3 b0 b1)
  let ?t = "triple b0 b1 0"
  show ?case
    by (intro exI [of _ "[table_char (drop_bit 18 ?t), table_char (drop_bit 12 ?t), table_char (drop_bit 6 ?t)]"] exI [of _ 1])
       (simp add: decode_char table_char_not_pad group_byte0 group_byte1 Let_def del: take_bit_or drop_bit_or push_bit_or)
next
  case (4 b0 b1 b2 bs)
  let ?t = "triple b0 b1 b2"
  obtain body n where b: "base64_encode bs = body @ replicate n (CHR ''='')" "body = [] \<or> last body \<noteq> CHR ''=''" "decode_bits body 0 0 = Inr bs"
    using 4 by auto
  show ?case
    by (intro exI [of _ "[table_char (drop_bit 18 ?t), table_char (drop_bit 12 ?t), table_char (drop_bit 6 ?t), table_char ?t] @ body"] exI [of _ n])
       (use b in \<open>auto simp add: decode_char table_char_not_pad group_byte0 group_byte1 group_byte2 Let_def simp del: take_bit_or drop_bit_or push_bit_or\<close>)
qed

lemma base64_roundtrip: "base64_decode (base64_encode bs) = Inr bs"
  using decode_base64_encode [of bs] trim_end_append by (metis base64_decode_def)

section \<open>The binary format\<close>

definition build_signature :: "nat \<Rightarrow> bytes" where
  "build_signature i = word_of_nat i # replicate 65 0"

definition build_vaa :: "u8 \<Rightarrow> u16 \<Rightarrow> bytes \<Rightarrow> u64 \<Rightarrow> bytes \<Rightarrow> bytes" where
  "build_vaa num_signatures emitter_chain emitter_address sequence payload =
     [1] @ [0, 0, 0, 0] @ [num_signatures]
     @ concat (map build_signature [0..<unat num_signatures])
     @ be_bytes 4 0 @ be_bytes 4 0 @ be_bytes 2 (unat emitter_chain) @ emitter_address
     @ be_bytes 8 (unat sequence) @ [1] @ payload"

definition build_vaa_simple :: "u8 \<Rightarrow> u16 \<Rightarrow> u64 \<Rightarrow> bytes \<Rightarrow> bytes" where
  "build_vaa_simple num_signatures emitter_chain sequence payload =
     build_vaa num_signatures emitter_chain (replicate 32 0) sequence payload"

record vaa =
  va_bytes :: bytes
  va_version :: u8
  va_num_signatures :: nat
  va_emitter_chain :: u16
  va_emitter_address :: string
  va_sequence :: u64
  va_payload :: bytes

text \<open>The hexadecimal encoder of the hex library is an argument.\<close>

definition parse_vaa :: "(bytes \<Rightarrow> string) \<Rightarrow> bytes \<Rightarrow> bridge_error + vaa" where
  "parse_vaa hex_encode bytes =
     (if length bytes < 57 then Inl (VerificationFailed ''VAA too short'')
      else let version = bytes ! 0 in
      if version \<noteq> 1 then Inl (VerificationFailed (''Unsupported VAA version: '' @ show_nat (unat version)))
      else let num_signatures = unat (bytes ! 5); body_offset = 6 + num_signatures * 66 in
      if length bytes < body_offset + 51 then Inl (VerificationFailed ''VAA body too short'')
      else let body = drop body_offset bytes in
      Inr \<lparr>va_bytes = bytes, va_version = version, va_num_signatures = num_signatures,
           va_emitter_chain = word_of_nat (of_be_bytes [body ! 8, body ! 9]),
           va_emitter_address = hex_encode (take 32 (drop 10 body)),
           va_sequence = word_of_nat (of_be_bytes (take 8 (drop 42 body))),
           va_payload = drop 51 body\<rparr>)"

section \<open>The quorum\<close>

definition GUARDIAN_QUORUM :: nat where "GUARDIAN_QUORUM = 13"

text \<open>The loop over the signatures from number \<open>i\<close> on, \<open>n\<close> of them; \<open>None\<close> is a panic.\<close>

fun check_guardians :: "bytes \<Rightarrow> nat \<Rightarrow> nat \<Rightarrow> bool list \<Rightarrow> (bridge_error + unit) option" where
  "check_guardians bytes i 0 seen = Some (Inr ())"
| "check_guardians bytes i (Suc n) seen =
     (if length bytes \<le> 6 + i * 66 then None
      else let idx = unat (bytes ! (6 + i * 66)) in
      if 19 \<le> idx then Some (Inl (VerificationFailed (''Guardian index out of range: '' @ show_nat idx)))
      else if seen ! idx then Some (Inl (VerificationFailed (''Duplicate guardian index: '' @ show_nat idx)))
      else check_guardians bytes (Suc i) n (seen[idx := True]))"

definition verify_vaa :: "vaa \<Rightarrow> (bridge_error + unit) option" where
  "verify_vaa v =
     (if va_num_signatures v < GUARDIAN_QUORUM
      then Some (Inl (VerificationFailed (''Insufficient signatures: '' @ show_nat (va_num_signatures v) @ '' < '' @ show_nat GUARDIAN_QUORUM @ '' quorum'')))
      else check_guardians (va_bytes v) 0 (va_num_signatures v) (replicate 19 False))"

text \<open>The guardians named by the signatures of a message, and what a quorum of them is.\<close>

definition guardians :: "vaa \<Rightarrow> nat list" where
  "guardians v = map (\<lambda>i. unat (va_bytes v ! (6 + i * 66))) [0..<va_num_signatures v]"

definition has_quorum :: "vaa \<Rightarrow> bool" where
  "has_quorum v \<longleftrightarrow> 13 \<le> length (guardians v) \<and> distinct (guardians v) \<and> set (guardians v) \<subseteq> {0..<19}"

lemma check_guardians_iff:
  assumes "length seen = 19" and "\<And>j. j < n \<Longrightarrow> 6 + (i + j) * 66 < length bytes"
  shows "\<exists>r. check_guardians bytes i n seen = Some r \<and>
    (r = Inr () \<longleftrightarrow> (let gs = map (\<lambda>j. unat (bytes ! (6 + j * 66))) [i..<i + n] in
       distinct gs \<and> (\<forall>g\<in>set gs. g < 19 \<and> \<not> seen ! g)))"
  using assms
proof (induction n arbitrary: i seen)
  case 0
  then show ?case by simp
next
  case (Suc n)
  let ?idx = "unat (bytes ! (6 + i * 66))"
  have here: "6 + i * 66 < length bytes" using Suc.prems(2) [of 0] by simp
  have up: "[i..<i + Suc n] = i # [Suc i..<Suc i + n]" by (simp add: upt_conv_Cons)
  show ?case
  proof (cases "19 \<le> ?idx \<or> seen ! ?idx")
    case True
    then show ?thesis using here unfolding up by (auto simp: Let_def)
  next
    case False
    define gs where "gs = map (\<lambda>j. unat (bytes ! (6 + j * 66))) [Suc i..<Suc i + n]"
    obtain r where r: "check_guardians bytes (Suc i) n (seen[?idx := True]) = Some r"
      "r = Inr () \<longleftrightarrow> distinct gs \<and> (\<forall>g\<in>set gs. g < 19 \<and> \<not> seen[?idx := True] ! g)"
      using Suc.IH [of "seen[?idx := True]" "Suc i"] Suc.prems(1) Suc.prems(2) [of "Suc j" for j] unfolding gs_def Let_def by auto
    have "\<not> seen[?idx := True] ! g \<longleftrightarrow> g \<noteq> ?idx \<and> \<not> seen ! g" if "g < 19" for g
      using that False Suc.prems(1) by (simp add: nth_list_update)
    then have "r = Inr () \<longleftrightarrow> distinct (?idx # gs) \<and> (\<forall>g\<in>set (?idx # gs). g < 19 \<and> \<not> seen ! g)"
      using r(2) False by auto
    moreover have "check_guardians bytes i (Suc n) seen = Some r" using False here r(1) by (simp add: Let_def)
    moreover have "map (\<lambda>j. unat (bytes ! (6 + j * 66))) [i..<i + Suc n] = ?idx # gs" unfolding up gs_def by simp
    ultimately show ?thesis by (simp only: Let_def) blast
  qed
qed

lemma parse_vaa_length:
  "parse_vaa hex bs = Inr v \<Longrightarrow> va_bytes v = bs \<and> 6 + va_num_signatures v * 66 + 51 \<le> length bs"
  by (auto simp: parse_vaa_def Let_def split: if_splits)

lemma verify_vaa_iff:
  assumes "parse_vaa hex bs = Inr v"
  shows "\<exists>r. verify_vaa v = Some r \<and> (r = Inr () \<longleftrightarrow> has_quorum v)"
proof (cases "va_num_signatures v < 13")
  case True
  then show ?thesis by (simp add: verify_vaa_def GUARDIAN_QUORUM_def has_quorum_def guardians_def)
next
  case False
  have idx: "6 + (0 + j) * 66 < length (va_bytes v)" if "j < va_num_signatures v" for j
    using parse_vaa_length [OF assms] that by simp
  have "\<exists>r. check_guardians (va_bytes v) 0 (va_num_signatures v) (replicate 19 False) = Some r \<and>
      (r = Inr () \<longleftrightarrow> distinct (guardians v) \<and> (\<forall>g\<in>set (guardians v). g < 19 \<and> \<not> replicate 19 False ! g))"
    using check_guardians_iff [of "replicate 19 False" "va_num_signatures v" 0 "va_bytes v", OF _ idx] unfolding guardians_def Let_def by simp
  moreover have "(\<forall>g\<in>set (guardians v). g < 19 \<and> \<not> replicate 19 False ! g) \<longleftrightarrow> set (guardians v) \<subseteq> {0..<19}"
    by (auto simp: subset_iff)
  moreover have "length (guardians v) = va_num_signatures v" by (simp add: guardians_def)
  ultimately show ?thesis using False by (auto simp: verify_vaa_def GUARDIAN_QUORUM_def has_quorum_def)
qed

lemma has_quorum_card: "has_quorum v \<Longrightarrow> card (set (guardians v)) \<in> {13..19}"
  using card_mono [of "{0..<19::nat}" "set (guardians v)"] by (simp add: has_quorum_def distinct_card)

text \<open>
  C22. The check of a parsed message is exactly the quorum rule: it never indexes out of range, and it
  passes if and only if the message carries at least 13 signatures, of different guardians, all with an
  index below 19; so a message that passes names between 13 and 19 guardians.
\<close>

theorem quorum_check_exact:
  assumes "parse_vaa hex bs = Inr v"
  shows "\<exists>r. verify_vaa v = Some r \<and> (r = Inr () \<longleftrightarrow> has_quorum v) \<and> (r = Inr () \<longrightarrow> card (set (guardians v)) \<in> {13..19})"
  using verify_vaa_iff [OF assms] has_quorum_card by blast

lemma length_build_signature [simp]: "length (build_signature i) = 66"
  by (simp add: build_signature_def)

lemma build_signature_index [simp]: "build_signature i ! 0 = word_of_nat i"
  by (simp add: build_signature_def)

lemma length_signatures [simp]: "length (concat (map build_signature [0..<n])) = n * 66"
  by (induction n) simp_all

lemma nth_signatures: "i < n \<Longrightarrow> concat (map build_signature [0..<n]) ! (i * 66) = word_of_nat i"
proof (induction n)
  case (Suc n)
  show ?case using Suc by (cases "i = n") (simp_all add: nth_append)
qed simp

lemma build_vaa_parts:
  assumes "length emitter = 32"
  obtains body where "build_vaa n c emitter sq payload = [1, 0, 0, 0, 0, n] @ concat (map build_signature [0..<unat n]) @ body"
    and "body = replicate 8 0 @ be_bytes 2 (unat c) @ emitter @ be_bytes 8 (unat sq) @ [1] @ payload"
proof -
  have "replicate 4 0 @ replicate 4 (0 :: u8) @ xs = replicate 8 0 @ xs" for xs
    by (simp add: append_assoc [symmetric] replicate_add [symmetric] del: append_assoc)
  then show ?thesis using that by (simp add: build_vaa_def)
qed

lemma be_bytes_2: "[be_bytes 2 v ! 0, be_bytes 2 v ! 1] = be_bytes 2 v"
  by (rule nth_equalityI) (auto simp: less_Suc_eq nth_Cons')

lemma parse_built_vaa:
  assumes "length emitter = 32"
  shows "\<exists>v. parse_vaa hex (build_vaa n c emitter sq payload) = Inr v \<and> va_num_signatures v = unat n \<and> va_emitter_chain v = c \<and>
    va_emitter_address v = hex emitter \<and> va_sequence v = sq \<and> va_payload v = payload \<and>
    (verify_vaa v = Some (Inr ()) \<longleftrightarrow> 13 \<le> unat n \<and> unat n \<le> 19)"
proof -
  obtain body where bv: "build_vaa n c emitter sq payload = [1, 0, 0, 0, 0, n] @ concat (map build_signature [0..<unat n]) @ body"
    and body: "body = replicate 8 0 @ be_bytes 2 (unat c) @ emitter @ be_bytes 8 (unat sq) @ [1] @ payload"
    using build_vaa_parts [OF assms] by blast
  let ?bs = "build_vaa n c emitter sq payload"
  have lb: "length body = 51 + length payload" using assms by (simp add: body)
  have len: "length ?bs = 6 + unat n * 66 + 51 + length payload" using lb by (simp add: bv)
  have hd: "?bs ! 0 = 1" "?bs ! 5 = n" by (simp_all add: bv)
  have "drop (length ([1, 0, 0, 0, 0, n] @ concat (map build_signature [0..<unat n]))) ?bs = body"
    unfolding bv append_assoc [symmetric] by (rule append_eq_conv_conj [THEN iffD1, THEN conjunct2, symmetric, OF refl])
  then have rest: "drop (6 + unat n * 66) ?bs = body" by (simp add: eval_nat_numeral)
  have chain: "of_be_bytes [body ! 8, body ! 9] = unat c"
  proof -
    have "[body ! 8, body ! 9] = be_bytes 2 (unat c)"
      using be_bytes_2 [of "unat c"] by (simp add: body nth_append)
    then show ?thesis using unsigned_less [of c, where 'a = nat] by (simp add: of_be_bytes_be_bytes)
  qed
  have seq: "of_be_bytes (take 8 (drop 42 body)) = unat sq"
    using assms unsigned_less [of sq, where 'a = nat] by (simp add: body of_be_bytes_be_bytes)
  define v where "v = \<lparr>va_bytes = ?bs, va_version = 1, va_num_signatures = unat n, va_emitter_chain = c, va_emitter_address = hex emitter,
     va_sequence = sq, va_payload = payload\<rparr>"
  have parse: "parse_vaa hex ?bs = Inr v"
    using assms len hd rest chain seq by (simp add: parse_vaa_def v_def body)
  have gs: "guardians v = [0..<unat n]"
  proof -
    have "unat (?bs ! (6 + i * 66)) = i" if "i < unat n" for i
    proof -
      have "?bs ! (6 + i * 66) = word_of_nat i" using nth_signatures [OF that] that by (simp add: bv nth_append)
      then show ?thesis using that unsigned_less [of n, where 'a = nat] by (simp add: unat_of_nat)
    qed
    then have "map (\<lambda>i. unat (?bs ! (6 + i * 66))) [0..<unat n] = [0..<unat n]" by (intro map_idI) simp
    then show ?thesis by (simp add: guardians_def v_def)
  qed
  have "has_quorum v \<longleftrightarrow> 13 \<le> unat n \<and> unat n \<le> 19"
    unfolding has_quorum_def gs by auto
  then show ?thesis using verify_vaa_iff [OF parse] parse by (auto simp: v_def)
qed

text \<open>
  A message built by the mock guardian is what the adapter reads: it parses to the same chain,
  emitter, sequence number and payload, and it passes the quorum check if and only if it was built with 13 to
  19 signatures. (The signatures are all zero: the check counts them, it does not verify them.)
\<close>

theorem build_vaa_roundtrip:
  assumes "length emitter = 32"
  shows "\<exists>v. parse_vaa hex (build_vaa n c emitter sq payload) = Inr v \<and> va_num_signatures v = unat n \<and> va_emitter_chain v = c \<and>
    va_emitter_address v = hex emitter \<and> va_sequence v = sq \<and> va_payload v = payload \<and>
    (verify_vaa v = Some (Inr ()) \<longleftrightarrow> 13 \<le> unat n \<and> unat n \<le> 19)"
  using parse_built_vaa [OF assms] .

definition sample_hex :: "bytes \<Rightarrow> string" where
  "sample_hex bs = concat (map (\<lambda>b. hex_padded 2 (unat b)) bs)"

theorem build_vaa_roundtrip_witness:
  "\<exists>v. parse_vaa sample_hex (build_vaa 13 2 (replicate 32 7) 42 [1, 2]) = Inr v \<and> va_sequence v = 42 \<and> va_payload v = [1, 2] \<and>
     verify_vaa v = Some (Inr ())"
  using build_vaa_roundtrip [of "replicate 32 7" sample_hex 13 2 42 "[1, 2]"] by auto

theorem quorum_check_exact_witness:
  "\<exists>v. parse_vaa sample_hex (build_vaa 12 2 (replicate 32 7) 42 []) = Inr v \<and> verify_vaa v \<noteq> Some (Inr ())"
proof -
  let ?bs = "build_vaa 12 2 (replicate 32 7) 42 []"
  have "length ?bs = 849" "?bs ! 0 = 1" "?bs ! 5 = 12"
    by (simp_all add: build_vaa_def)
  then obtain v where v: "parse_vaa sample_hex ?bs = Inr v" "va_num_signatures v = 12" by (simp add: parse_vaa_def)
  then have "\<not> has_quorum v" by (simp add: has_quorum_def guardians_def)
  then show ?thesis using quorum_check_exact [OF v(1)] v(1) by auto
qed

end
