(* ===== verification/Erc20_Abi.thy ===== *)
theory Erc20_Abi
  imports Rust_Text
begin

text \<open>
  The ABI encoding of contract calls (src/wallet/erc20_abi.rs): a selector of four bytes, then the
  arguments as words of 32 bytes. \<open>abi_word\<close> reads a word the way a contract does; every
  encoder of the program, here and in the bridge adapters, is compared with it.
\<close>

section \<open>Words\<close>

definition abi_word :: "bytes \<Rightarrow> nat \<Rightarrow> nat" where
  "abi_word calldata i = of_be_bytes (take 32 (drop (4 + 32 * i) calldata))"

lemma concat_words:
  assumes "\<forall>w\<in>set ws. length w = 32" and "i < length ws"
  shows "take 32 (drop (32 * i) (concat ws)) = ws ! i" and "length (concat ws) = 32 * length ws"
proof -
  show "length (concat ws) = 32 * length ws" using assms(1) by (induction ws) auto
  show "take 32 (drop (32 * i) (concat ws)) = ws ! i"
    using assms
  proof (induction ws arbitrary: i)
    case (Cons w ws)
    then show ?case by (cases i) simp_all
  qed simp
qed

lemma abi_word_concat:
  assumes "length sel = 4" and "\<forall>w\<in>set ws. length w = 32" and "i < length ws"
  shows "abi_word (sel @ concat ws) i = of_be_bytes (ws ! i)"
  using concat_words(1) [OF assms(2,3)] assms(1) by (simp add: abi_word_def)

lemma abi_words_concat:
  assumes "length sel = 4" and "\<forall>w\<in>set ws. length w = 32"
  shows "map (abi_word (sel @ concat ws)) [0..<length ws] = map of_be_bytes ws"
  using abi_word_concat [OF assms] by (intro nth_equalityI) auto

lemma of_be_bytes_pad: "of_be_bytes (replicate n 0 @ bs) = of_be_bytes bs"
  by (induction n) (simp_all add: of_be_bytes_Cons)

lemma of_be_bytes_zeros [simp]: "of_be_bytes (replicate n 0) = 0"
  using of_be_bytes_pad [of n "[]"] by (simp add: of_be_bytes_def)

lemma of_be_bytes_word:
  fixes x :: "'a::len word"
  assumes "2 ^ LENGTH('a) \<le> (256 :: nat) ^ n"
  shows "of_be_bytes (be_bytes n (unat x)) = unat x"
  using unsigned_less [of x, where 'a = nat] assms by (intro of_be_bytes_be_bytes) (erule less_le_trans)

text \<open>A dynamic argument as a contract reads it: word \<open>i\<close> is its offset; there its length, then its bytes.\<close>

definition abi_bytes :: "bytes \<Rightarrow> nat \<Rightarrow> bytes option" where
  "abi_bytes calldata i =
     (let pos = 4 + abi_word calldata i in
      if length calldata < pos + 32 then None
      else let len = of_be_bytes (take 32 (drop pos calldata)) in
      if length calldata < pos + 32 + len then None else Some (take len (drop (pos + 32) calldata)))"

text \<open>At most 32 bytes, padded on the left to a word.\<close>

definition left_pad :: "bytes \<Rightarrow> bytes" where
  "left_pad bs = replicate (32 - min (length bs) 32) 0 @ take (min (length bs) 32) bs"

lemma length_left_pad [simp]: "length (left_pad bs) = 32"
  by (simp add: left_pad_def)

section \<open>ERC-20\<close>

definition TRANSFER_SELECTOR :: bytes where "TRANSFER_SELECTOR = [0xa9, 0x05, 0x9c, 0xbb]"
definition APPROVE_SELECTOR :: bytes where "APPROVE_SELECTOR = [0x09, 0x5e, 0xa7, 0xb3]"
definition TRANSFER_FROM_SELECTOR :: bytes where "TRANSFER_FROM_SELECTOR = [0x23, 0xb8, 0x72, 0xdd]"
definition BALANCE_OF_SELECTOR :: bytes where "BALANCE_OF_SELECTOR = [0x70, 0xa0, 0x82, 0x31]"
definition ALLOWANCE_SELECTOR :: bytes where "ALLOWANCE_SELECTOR = [0xdd, 0x62, 0xed, 0x3e]"

lemmas selector_defs = TRANSFER_SELECTOR_def APPROVE_SELECTOR_def TRANSFER_FROM_SELECTOR_def BALANCE_OF_SELECTOR_def

text \<open>Keccak-256 is an argument.\<close>

definition function_selector :: "(bytes \<Rightarrow> bytes) \<Rightarrow> bytes \<Rightarrow> bytes" where
  "function_selector keccak signature = take 4 (keccak signature)"

definition abi_address :: "bytes \<Rightarrow> bytes" where
  "abi_address addr = replicate 12 0 @ addr"

definition encode_uint256 :: "u128 \<Rightarrow> bytes" where
  "encode_uint256 value = replicate 16 0 @ be_bytes 16 (unat value)"

text \<open>The error of the hex decoder is its text.\<close>

definition parse_address :: "(string \<Rightarrow> string + bytes) \<Rightarrow> string \<Rightarrow> string + bytes" where
  "parse_address hex_decode addr =
     (let clean = strip_0x addr in
      if length clean \<noteq> 40 then Inl (''Address must be 40 hex chars, got '' @ show_nat (length clean))
      else case hex_decode clean of Inl e \<Rightarrow> Inl (''Invalid hex: '' @ e) | Inr bs \<Rightarrow> Inr bs)"

definition encode_transfer :: "bytes \<Rightarrow> u128 \<Rightarrow> bytes" where
  "encode_transfer to amount = TRANSFER_SELECTOR @ abi_address to @ encode_uint256 amount"

definition encode_approve :: "bytes \<Rightarrow> u128 \<Rightarrow> bytes" where
  "encode_approve spender amount = APPROVE_SELECTOR @ abi_address spender @ encode_uint256 amount"

definition encode_transfer_from :: "bytes \<Rightarrow> bytes \<Rightarrow> u128 \<Rightarrow> bytes" where
  "encode_transfer_from from to amount = TRANSFER_FROM_SELECTOR @ abi_address from @ abi_address to @ encode_uint256 amount"

definition encode_balance_of :: "bytes \<Rightarrow> bytes" where
  "encode_balance_of account = BALANCE_OF_SELECTOR @ abi_address account"

lemma erc20_words:
  "length a = 20 \<Longrightarrow> length (abi_address a) = 32" "length (encode_uint256 v) = 32"
  "of_be_bytes (abi_address a) = of_be_bytes a" "of_be_bytes (encode_uint256 v) = unat v"
  by (simp_all add: abi_address_def encode_uint256_def of_be_bytes_pad of_be_bytes_word)

text \<open>
  A contract that decodes the calldata of a transfer, an approval, a transfer on behalf of an owner, or
  a balance query reads the addresses and the amount it was built from, and nothing is left over.
\<close>

theorem erc20_calldata_decodes:
  assumes "length from = 20" and "length to = 20"
  shows "map (abi_word (encode_transfer to amount)) [0..<2] = [of_be_bytes to, unat amount] \<and> length (encode_transfer to amount) = 4 + 32 * 2 \<and>
    map (abi_word (encode_approve to amount)) [0..<2] = [of_be_bytes to, unat amount] \<and> length (encode_approve to amount) = 4 + 32 * 2 \<and>
    map (abi_word (encode_transfer_from from to amount)) [0..<3] = [of_be_bytes from, of_be_bytes to, unat amount] \<and>
      length (encode_transfer_from from to amount) = 4 + 32 * 3 \<and>
    map (abi_word (encode_balance_of to)) [0..<1] = [of_be_bytes to] \<and> length (encode_balance_of to) = 4 + 32 * 1"
  using assms abi_words_concat [of TRANSFER_SELECTOR "[abi_address to, encode_uint256 amount]"]
    abi_words_concat [of APPROVE_SELECTOR "[abi_address to, encode_uint256 amount]"]
    abi_words_concat [of TRANSFER_FROM_SELECTOR "[abi_address from, abi_address to, encode_uint256 amount]"]
    abi_words_concat [of BALANCE_OF_SELECTOR "[abi_address to]"]
  by (simp add: encode_transfer_def encode_approve_def encode_transfer_from_def encode_balance_of_def erc20_words selector_defs
      numeral_2_eq_2 numeral_3_eq_3)

theorem erc20_calldata_decodes_witness:
  "map (abi_word (encode_transfer (replicate 20 1) 7)) [0..<2] = [of_be_bytes (replicate 20 1), 7]"
  using erc20_calldata_decodes [of "replicate 20 1" "replicate 20 1" 7] by simp

end
