(* ===== verification/Circuit_Breaker.thy ===== *)
theory Circuit_Breaker
  imports Prelude
begin

text \<open>
  The circuit breaker of src/circuit_breaker.rs. A call takes the lock twice: once to be admitted or
  rejected, and once to record the result of the operation; between the two other calls may do
  the same. So the breaker is a state machine with the steps \<open>admit\<close>, \<open>record_success\<close>,
  \<open>record_failure\<close> and \<open>reset\<close>, and \<open>call\<close> is one admission followed by one recording. Instants and
  durations are in nanoseconds. The abstract specification is the machine in the documentation of the
  file, which counts failures with a natural number.
\<close>

datatype cb_state = Closed | CbOpen | HalfOpen

definition as_str :: "cb_state \<Rightarrow> string" where
  "as_str st = (case st of Closed \<Rightarrow> ''closed'' | CbOpen \<Rightarrow> ''open'' | HalfOpen \<Rightarrow> ''half_open'')"

record cb_config =
  cf_failure_threshold :: "32 word"
  cf_reset_timeout :: int
  cf_name :: string

definition CircuitBreakerConfig_new :: "string \<Rightarrow> 32 word \<Rightarrow> u64 \<Rightarrow> cb_config" where
  "CircuitBreakerConfig_new nm threshold secs =
     \<lparr>cf_failure_threshold = threshold, cf_reset_timeout = uint secs * 10 ^ 9, cf_name = nm\<rparr>"

definition ethereum_rpc :: cb_config where "ethereum_rpc = CircuitBreakerConfig_new ''ethereum_rpc'' 5 30"
definition solana_rpc :: cb_config where "solana_rpc = CircuitBreakerConfig_new ''solana_rpc'' 5 20"
definition wormhole_guardian :: cb_config where "wormhole_guardian = CircuitBreakerConfig_new ''wormhole_guardian'' 3 60"
definition layerzero_api :: cb_config where "layerzero_api = CircuitBreakerConfig_new ''layerzero_api'' 3 60"
definition price_oracle :: "string \<Rightarrow> cb_config" where
  "price_oracle source = CircuitBreakerConfig_new (''price_'' @ source) 3 15"

record breaker =
  cb_state :: cb_state
  cb_failure_count :: "32 word"
  cb_last_failure :: "int option"
  cb_last_success :: "int option"
  cb_opened_at :: "int option"
  cb_total_rejections :: u64
  cb_total_successes :: u64
  cb_total_failures :: u64

definition CircuitBreaker_new :: breaker where
  "CircuitBreaker_new = \<lparr>cb_state = Closed, cb_failure_count = 0, cb_last_failure = None, cb_last_success = None,
     cb_opened_at = None, cb_total_rejections = 0, cb_total_successes = 0, cb_total_failures = 0\<rparr>"

datatype 'e circuit_error = CircuitOpen string int | CircuitInner 'e

section \<open>Operations\<close>

definition admit :: "cb_config \<Rightarrow> int \<Rightarrow> (breaker, 'e circuit_error, unit) action" where
  "admit cf now b =
     (case (cb_state b, cb_opened_at b) of
        (CbOpen, Some opened) \<Rightarrow>
          if cf_reset_timeout cf \<le> now - opened then (Inr (), b\<lparr>cb_state := HalfOpen\<rparr>)
          else (Inl (CircuitOpen (cf_name cf) ((cf_reset_timeout cf - (now - opened)) div 10 ^ 9)),
                b\<lparr>cb_total_rejections := cb_total_rejections b + 1\<rparr>)
      | _ \<Rightarrow> (Inr (), b))"

definition record_success :: "int \<Rightarrow> breaker \<Rightarrow> breaker" where
  "record_success now b =
     (let b = b\<lparr>cb_last_success := Some now, cb_total_successes := cb_total_successes b + 1\<rparr> in
      case cb_state b of
        HalfOpen \<Rightarrow> b\<lparr>cb_state := Closed, cb_failure_count := 0, cb_opened_at := None\<rparr>
      | Closed \<Rightarrow> b\<lparr>cb_failure_count := 0\<rparr>
      | CbOpen \<Rightarrow> b)"

definition record_failure :: "cb_config \<Rightarrow> int \<Rightarrow> breaker \<Rightarrow> breaker" where
  "record_failure cf now b =
     (let b = b\<lparr>cb_last_failure := Some now, cb_failure_count := cb_failure_count b + 1, cb_total_failures := cb_total_failures b + 1\<rparr> in
      case cb_state b of
        Closed \<Rightarrow> if cf_failure_threshold cf \<le> cb_failure_count b then b\<lparr>cb_state := CbOpen, cb_opened_at := Some now\<rparr> else b
      | HalfOpen \<Rightarrow> b\<lparr>cb_state := CbOpen, cb_opened_at := Some now\<rparr>
      | CbOpen \<Rightarrow> b)"

definition reset :: "breaker \<Rightarrow> breaker" where
  "reset b = b\<lparr>cb_state := Closed, cb_failure_count := 0, cb_opened_at := None\<rparr>"

text \<open>A call without interference: \<open>now'\<close> is the time when the operation has answered.\<close>

definition call :: "cb_config \<Rightarrow> int \<Rightarrow> int \<Rightarrow> 'e + 'a \<Rightarrow> (breaker, 'e circuit_error, 'a) action" where
  "call cf now now' answer =
     seqA (admit cf now)
     (\<lambda>b. case answer of
        Inr x \<Rightarrow> (Inr x, record_success now' b)
      | Inl e \<Rightarrow> (Inl (CircuitInner e), record_failure cf now' b))"

text \<open>
  A call as its users make it: the breaker is part of the caller's state \<open>'s\<close>, the operation is an action
  on that state, made only when it is admitted, and \<open>now\<close> reads the clock.
\<close>

definition breaker_call :: "('s \<Rightarrow> int) \<Rightarrow> cb_config \<Rightarrow> ('s \<Rightarrow> breaker) \<Rightarrow> (breaker \<Rightarrow> 's \<Rightarrow> 's) \<Rightarrow> ('s, 'e, 'a) action \<Rightarrow> ('s, 'e circuit_error, 'a) action" where
  "breaker_call now cf get put request w =
     (case admit cf (now w) (get w) of
        (Inl e, b) \<Rightarrow> (Inl e, put b w)
      | (Inr _, b) \<Rightarrow>
          (case request (put b w) of
             (Inr x, w') \<Rightarrow> (Inr x, put (record_success (now w') (get w')) w')
           | (Inl e, w') \<Rightarrow> (Inl (CircuitInner e), put (record_failure cf (now w') (get w')) w')))"

definition update_gauge :: "breaker \<Rightarrow> int" where
  "update_gauge b = (case cb_state b of Closed \<Rightarrow> 0 | HalfOpen \<Rightarrow> 1 | CbOpen \<Rightarrow> 2)"

lemma breaker_call_Inr: "breaker_call now cf get put m w = (Inr v, w') \<Longrightarrow> \<exists>u u'. m u = (Inr v, u')"
  by (auto simp: breaker_call_def split: prod.splits sum.splits)

lemma closed_breaker_call:
  assumes "cb_state (get w) = Closed" and "put (get w) w = w"
  shows "breaker_call now cf get put m w =
    (case m w of
       (Inr x, w') \<Rightarrow> (Inr x, put (record_success (now w') (get w')) w')
     | (Inl e, w') \<Rightarrow> (Inl (CircuitInner e), put (record_failure cf (now w') (get w')) w'))"
  using assms by (simp add: breaker_call_def admit_def)

section \<open>The machine, with any interleaving of calls\<close>

text \<open>
  What can happen to a breaker at an instant: a call asks to be admitted, the operation of an admitted call
  succeeds or fails, or the breaker is reset by hand. The answer says whether a call was let through.
\<close>

datatype cb_event = CallAsks | CallSucceeds | CallFails | ManualReset

fun cb_run :: "cb_config \<Rightarrow> int \<times> cb_event \<Rightarrow> breaker \<Rightarrow> bool option \<times> breaker" where
  "cb_run cf (t, CallAsks) b = (case admit cf t b of (r :: unit circuit_error + unit, b') \<Rightarrow> (Some (r = Inr ()), b'))"
| "cb_run cf (t, CallSucceeds) b = (None, record_success t b)"
| "cb_run cf (t, CallFails) b = (None, record_failure cf t b)"
| "cb_run cf (t, ManualReset) b = (None, reset b)"

fun cb_runs :: "cb_config \<Rightarrow> (int \<times> cb_event) list \<Rightarrow> breaker \<Rightarrow> bool option list \<times> breaker" where
  "cb_runs cf [] b = ([], b)"
| "cb_runs cf (ev # evs) b = (let (r, b') = cb_run cf ev b; (rs, b'') = cb_runs cf evs b' in (r # rs, b''))"

text \<open>A breaker that is not closed knows when it was opened, and one that is closed has not reached the threshold.\<close>

definition breaker_ok :: "cb_config \<Rightarrow> breaker \<Rightarrow> bool" where
  "breaker_ok cf b \<longleftrightarrow> (cb_state b = Closed \<longleftrightarrow> cb_opened_at b = None) \<and>
     (cb_state b = Closed \<longrightarrow> cb_failure_count b < cf_failure_threshold cf \<or> cb_failure_count b = 0)"

section \<open>Properties\<close>

text \<open>
  The documented machine: closed, with the number of failures since the last success; open since an
  instant; or half open. A failure that reaches the threshold opens it, a call after the time-out is the probe, the success of
  a probe closes it and its failure opens it again. In one point the code departs from the documentation, which speaks
  of one probe: while it is half open, every call is let through.
\<close>

datatype diagram = DClosed nat | DOpen int | DHalfOpen

fun diagram_step :: "cb_config \<Rightarrow> int \<times> cb_event \<Rightarrow> diagram \<Rightarrow> bool option \<times> diagram" where
  "diagram_step cf (t, CallAsks) (DClosed n) = (Some True, DClosed n)"
| "diagram_step cf (t, CallAsks) DHalfOpen = (Some True, DHalfOpen)"
| "diagram_step cf (t, CallAsks) (DOpen opened) =
     (if cf_reset_timeout cf \<le> t - opened then (Some True, DHalfOpen) else (Some False, DOpen opened))"
| "diagram_step cf (t, CallSucceeds) (DClosed n) = (None, DClosed 0)"
| "diagram_step cf (t, CallSucceeds) DHalfOpen = (None, DClosed 0)"
| "diagram_step cf (t, CallSucceeds) (DOpen opened) = (None, DOpen opened)"
| "diagram_step cf (t, CallFails) (DClosed n) =
     (None, if unat (cf_failure_threshold cf) \<le> Suc n then DOpen t else DClosed (Suc n))"
| "diagram_step cf (t, CallFails) DHalfOpen = (None, DOpen t)"
| "diagram_step cf (t, CallFails) (DOpen opened) = (None, DOpen opened)"
| "diagram_step cf (t, ManualReset) d = (None, DClosed 0)"

fun diagram_steps :: "cb_config \<Rightarrow> (int \<times> cb_event) list \<Rightarrow> diagram \<Rightarrow> bool option list \<times> diagram" where
  "diagram_steps cf [] d = ([], d)"
| "diagram_steps cf (ev # evs) d = (let (r, d') = diagram_step cf ev d; (rs, d'') = diagram_steps cf evs d' in (r # rs, d''))"

definition diagram_of :: "breaker \<Rightarrow> diagram" where
  "diagram_of b =
     (case cb_state b of
        Closed \<Rightarrow> DClosed (unat (cb_failure_count b))
      | CbOpen \<Rightarrow> DOpen (case cb_opened_at b of Some t \<Rightarrow> t | None \<Rightarrow> 0)
      | HalfOpen \<Rightarrow> DHalfOpen)"

text \<open>Below the threshold the counter of 32 bits does not wrap.\<close>

lemma count_below_threshold:
  fixes n k :: "32 word"
  assumes "n < k \<or> n = 0"
  shows "unat (n + 1) = Suc (unat n)"
proof -
  have "unat n < 2 ^ 32 - 1"
  proof (cases "n = 0")
    case False
    then have "unat n < unat k" using assms by (simp add: word_less_nat_alt)
    moreover have "unat k < 2 ^ 32" using unsigned_less [of k] by simp
    ultimately show ?thesis by simp
  qed simp
  then show ?thesis by (simp add: unat_word_ariths)
qed

lemma cb_run_simulates:
  assumes ok: "breaker_ok cf b" and "cb_run cf ev b = (r, b')"
  shows "breaker_ok cf b'" "diagram_step cf ev (diagram_of b) = (r, diagram_of b')"
proof -
  obtain t e where ev: "ev = (t, e)" by fastforce
  have "breaker_ok cf b' \<and> diagram_step cf ev (diagram_of b) = (r, diagram_of b')"
  proof (cases e)
    case CallAsks
    then show ?thesis using assms ev
      by (cases "cb_state b"; cases "cb_opened_at b") (auto simp: breaker_ok_def admit_def diagram_of_def split: if_splits)
  next
    case CallSucceeds
    then show ?thesis using assms ev
      by (cases "cb_state b") (auto simp: breaker_ok_def record_success_def diagram_of_def Let_def)
  next
    case CallFails
    have "cf_failure_threshold cf \<le> cb_failure_count b + 1 \<longleftrightarrow> unat (cf_failure_threshold cf) \<le> Suc (unat (cb_failure_count b))"
      if "cb_state b = Closed"
      using count_below_threshold [of "cb_failure_count b" "cf_failure_threshold cf"] ok that by (auto simp: breaker_ok_def word_le_nat_alt)
    moreover have "unat (cb_failure_count b + 1) = Suc (unat (cb_failure_count b))" if "cb_state b = Closed"
      using count_below_threshold [of "cb_failure_count b" "cf_failure_threshold cf"] ok that by (auto simp: breaker_ok_def)
    ultimately show ?thesis using CallFails assms ev
      by (cases "cb_state b") (auto simp: breaker_ok_def record_failure_def diagram_of_def Let_def)
  next
    case ManualReset
    then show ?thesis using assms ev by (auto simp: breaker_ok_def reset_def diagram_of_def)
  qed
  then show "breaker_ok cf b'" "diagram_step cf ev (diagram_of b) = (r, diagram_of b')" by blast+
qed

lemma cb_runs_simulates:
  "breaker_ok cf b \<Longrightarrow> cb_runs cf evs b = (rs, b') \<Longrightarrow> diagram_steps cf evs (diagram_of b) = (rs, diagram_of b')"
proof (induction evs arbitrary: b rs)
  case (Cons ev evs)
  obtain r c where c: "cb_run cf ev b = (r, c)" by fastforce
  then show ?case using Cons cb_run_simulates [OF Cons.prems(1) c] by (auto split: prod.splits)
qed simp

text \<open>
  C24. The breaker refines the documented machine: for every sequence of calls that ask, succeed and fail and of manual resets,
  at any instants and in any interleaving, it lets through exactly the calls that the machine lets through, and
  ends in the state of the machine: a failure opens it exactly when it is the threshold-th in a row, it stays open for the
  time-out, and after that the success of a call closes it and a failure opens it again. The counter of 32 bits never wraps. (After the
  time-out the machine lets every call through until one of them ends, as the code does; the comment at the top of the file
  speaks of one probe.)
\<close>

theorem breaker_refines_diagram:
  "diagram_steps cf evs (DClosed 0) = (fst (cb_runs cf evs CircuitBreaker_new), diagram_of (snd (cb_runs cf evs CircuitBreaker_new)))"
  using cb_runs_simulates [of cf CircuitBreaker_new evs] by (simp add: breaker_ok_def diagram_of_def CircuitBreaker_new_def)

text \<open>The breaker after \<open>n\<close> calls that were all answered with an error, at the given times.\<close>

fun failing_calls :: "cb_config \<Rightarrow> int list \<Rightarrow> breaker \<Rightarrow> breaker" where
  "failing_calls cf [] b = b"
| "failing_calls cf (t # ts) b = failing_calls cf ts (snd (call cf t t (Inl () :: unit + unit) b))"

lemma failing_calls_closed:
  assumes "cb_state b = Closed" and "cb_failure_count b = word_of_nat k" and "k + length ts < unat (cf_failure_threshold cf)"
  shows "cb_state (failing_calls cf ts b) = Closed \<and> cb_failure_count (failing_calls cf ts b) = word_of_nat (k + length ts)"
  using assms
proof (induction ts arbitrary: b k)
  case Nil
  then show ?case by simp
next
  case (Cons t ts)
  let ?b = "snd (call cf t t (Inl () :: unit + unit) b)"
  have "Suc k < unat (cf_failure_threshold cf)" using Cons.prems(3) by simp
  moreover have "unat (cf_failure_threshold cf) < 2 ^ 32" using unsigned_less [of "cf_failure_threshold cf"] by simp
  ultimately have lt: "\<not> cf_failure_threshold cf \<le> word_of_nat (Suc k)"
    by (simp only: not_le word_less_nat_alt unat_of_nat) simp
  have "cb_state ?b = Closed" "cb_failure_count ?b = word_of_nat (Suc k)"
    using Cons.prems lt by (simp_all add: call_def seqA_def bindA_def admit_def record_failure_def Let_def add.commute)
  from Cons.IH [OF this] show ?case using Cons.prems(3) by simp
qed

lemma failing_calls_append: "failing_calls cf (ts @ us) b = failing_calls cf us (failing_calls cf ts b)"
  by (induction ts arbitrary: b) auto

lemmas call_evals = call_def seqA_def bindA_def admit_def record_success_def record_failure_def Let_def

text \<open>
  It trips and it recovers: from a closed breaker without failures, \<open>threshold\<close> failing calls in
  a row open it, with the last of them; until the time-out has elapsed every call is rejected without
  reaching the service; from then on the next call is let through, and if it succeeds the breaker is
  closed again with its count at zero, while one that fails opens it for another time-out.
\<close>

theorem breaker_trips_and_recovers:
  fixes x :: 'a and e :: 'e
  assumes "cb_state b = Closed" and "cb_failure_count b = 0" and "Suc (length ts) = unat (cf_failure_threshold cf)"
    and c_def: "c = failing_calls cf (ts @ [t]) b"
  shows "cb_state c = CbOpen \<and> cb_opened_at c = Some t \<and>
    (now < t + cf_reset_timeout cf \<longrightarrow> (\<exists>secs. call cf now now' (answer :: 'e + 'a) c =
       (Inl (CircuitOpen (cf_name cf) secs), c\<lparr>cb_total_rejections := cb_total_rejections c + 1\<rparr>))) \<and>
    (t + cf_reset_timeout cf \<le> now \<longrightarrow>
       fst (call cf now now' (Inr x :: 'e + 'a) c) = Inr x \<and> cb_state (snd (call cf now now' (Inr x :: 'e + 'a) c)) = Closed \<and>
       cb_failure_count (snd (call cf now now' (Inr x :: 'e + 'a) c)) = 0 \<and>
       cb_state (snd (call cf now now' (Inl e :: 'e + 'a) c)) = CbOpen \<and> cb_opened_at (snd (call cf now now' (Inl e :: 'e + 'a) c)) = Some now')"
proof -
  let ?p = "failing_calls cf ts b"
  have p: "cb_state ?p = Closed" "cb_failure_count ?p = word_of_nat (length ts)"
    using failing_calls_closed [of b 0 ts cf] assms by simp_all
  have "cf_failure_threshold cf = word_of_nat (Suc (length ts))" unfolding assms(3) by simp
  then have c: "cb_state c = CbOpen" "cb_opened_at c = Some t"
    using p by (simp_all add: c_def failing_calls_append call_evals add.commute)
  then show ?thesis by (auto simp: call_evals)
qed

theorem breaker_trips_and_recovers_witness:
  "let c = failing_calls wormhole_guardian [1, 2, 3] CircuitBreaker_new in
   cb_state c = CbOpen \<and> cb_state (snd (call wormhole_guardian (3 + 60 * 10 ^ 9) (4 + 60 * 10 ^ 9) (Inr 7 :: unit + nat) c)) = Closed"
proof -
  have "Suc (length [1, 2 :: int]) = unat (cf_failure_threshold wormhole_guardian)"
    by (simp add: wormhole_guardian_def CircuitBreakerConfig_new_def)
  moreover have "3 + cf_reset_timeout wormhole_guardian \<le> 3 + 60 * 10 ^ 9" by (simp add: wormhole_guardian_def CircuitBreakerConfig_new_def)
  ultimately show ?thesis
    using breaker_trips_and_recovers [of CircuitBreaker_new "[1, 2]" wormhole_guardian _ 3 "3 + 60 * 10 ^ 9" "4 + 60 * 10 ^ 9" "Inl ()" "7 :: nat" "()", OF _ _ _ refl]
    by (simp add: CircuitBreaker_new_def Let_def del: failing_calls.simps)
qed

text \<open>The documentation speaks of one probe; a half-open breaker lets every call through.\<close>

lemma half_open_admits_all: "cb_state b = HalfOpen \<Longrightarrow> admit cf now b = (Inr (), b)"
  by (simp add: admit_def)

end
