(* ===== verification/Evm_Rpc.thy ===== *)
theory Evm_Rpc
  imports Vaa Erc20_Abi Circuit_Breaker
begin

text \<open>
  What the two bridge adapters have in common (src/cross_chain/wormhole.rs and layerzero.rs, each with
  its own copy): JSON-RPC calls to a chain under the circuit breaker of that chain, HTTP requests
  to an API under a breaker of its own, waiting for a receipt, and the delay between attempts. The state
  is the adapter with the log of everything it has sent and of its pauses. What comes back, the
  clock and the random numbers are functions of that log, so that all statements hold whatever the network
  answers. Decoding a body and the hex library are fields of the environment.
\<close>

section \<open>The network\<close>

datatype net_event = Post string json | HttpGet string | Pause u64

record json_rpc_response =
  rr_result :: "json option"
  rr_error :: "(int \<times> string) option"

text \<open>A request fails when it is sent, or when the body of the answer is read or decoded.\<close>

datatype transport_error = SendError string | BodyError string

record net_env =
  ne_post :: "net_event list \<Rightarrow> string \<Rightarrow> json \<Rightarrow> transport_error + json_rpc_response"
  ne_get :: "net_event list \<Rightarrow> string \<Rightarrow> transport_error + (nat \<times> string)"
  ne_now :: "net_event list \<Rightarrow> int"
  ne_random :: "net_event list \<Rightarrow> u64"
  ne_show_json :: "json \<Rightarrow> string"
  ne_hex_encode :: "bytes \<Rightarrow> string"
  ne_hex_decode :: "string \<Rightarrow> bytes option"

record net =
  nt_api_url :: string
  nt_api_breaker :: "cb_config \<times> breaker"
  nt_chain_rpcs :: "string \<Rightarrow> string option"
  nt_chain_breakers :: "string \<Rightarrow> (cb_config \<times> breaker) option"
  nt_log :: "net_event list"

type_synonym 'a net_action = "(net, bridge_error, 'a) action"

abbreviation net_now :: "net_env \<Rightarrow> net \<Rightarrow> int" where
  "net_now env w \<equiv> ne_now env (nt_log w)"

definition sleep_ms :: "u64 \<Rightarrow> (net, 'e, unit) action" where
  "sleep_ms ms = modifyA (\<lambda>w. w\<lparr>nt_log := nt_log w @ [Pause ms]\<rparr>)"

definition set_api_breaker :: "breaker \<Rightarrow> net \<Rightarrow> net" where
  "set_api_breaker b w = w\<lparr>nt_api_breaker := (fst (nt_api_breaker w), b)\<rparr>"

definition set_chain_breaker :: "string \<Rightarrow> cb_config \<Rightarrow> breaker \<Rightarrow> net \<Rightarrow> net" where
  "set_chain_breaker chain cf b w = w\<lparr>nt_chain_breakers := (nt_chain_breakers w)(chain \<mapsto> (cf, b))\<rparr>"

section \<open>JSON-RPC\<close>

definition rpc_body :: "string \<Rightarrow> json \<Rightarrow> json" where
  "rpc_body meth params = JObj [(''jsonrpc'', JStr ''2.0''), (''id'', JNum 1), (''method'', JStr meth), (''params'', params)]"

definition post_rpc :: "net_env \<Rightarrow> string \<Rightarrow> json \<Rightarrow> json net_action" where
  "post_rpc env url body w =
     ((case ne_post env (nt_log w) url body of
         Inl (SendError e) \<Rightarrow> Inl (NetworkError e)
       | Inl (BodyError e) \<Rightarrow> Inl (NetworkError (''parse: '' @ e))
       | Inr resp \<Rightarrow>
           (case rr_error resp of
              Some (code, message) \<Rightarrow> Inl (NetworkError (''RPC error '' @ show_int code @ '': '' @ message))
            | None \<Rightarrow> ok_or (rr_result resp) (NetworkError ''null result''))),
      w\<lparr>nt_log := nt_log w @ [Post url body]\<rparr>)"

definition open_as_network_error :: "bridge_error circuit_error \<Rightarrow> bridge_error" where
  "open_as_network_error e =
     (case e of CircuitOpen name _ \<Rightarrow> NetworkError (''circuit open: '' @ name) | CircuitInner e \<Rightarrow> e)"

definition evm_rpc_call :: "net_env \<Rightarrow> string \<Rightarrow> string \<Rightarrow> json \<Rightarrow> json net_action" where
  "evm_rpc_call env chain meth params w =
     (case nt_chain_rpcs w chain of
        None \<Rightarrow> (Inl (NetworkError (''No RPC for chain: '' @ chain)), w)
      | Some url \<Rightarrow>
          let do_call = post_rpc env url (rpc_body meth params) in
          case nt_chain_breakers w chain of
            Some (cf, b) \<Rightarrow>
              map_errA open_as_network_error
                (breaker_call (net_now env) cf (\<lambda>w. case nt_chain_breakers w chain of Some (_, b) \<Rightarrow> b | None \<Rightarrow> b) (set_chain_breaker chain cf) do_call) w
          | None \<Rightarrow> do_call w)"

definition evm_get_receipt :: "net_env \<Rightarrow> string \<Rightarrow> string \<Rightarrow> json option net_action" where
  "evm_get_receipt env chain tx_hash =
     bindA (evm_rpc_call env chain ''eth_getTransactionReceipt'' (JArr [JStr tx_hash])) (\<lambda>result.
     returnA (if result = JNull then None else Some result))"

section \<open>Waiting\<close>

definition backoff_delay :: "u64 \<Rightarrow> nat \<Rightarrow> u64 \<Rightarrow> u64 \<Rightarrow> u64" where
  "backoff_delay random attempt initial_ms max_ms =
     (let base = initial_ms * push_bit (min attempt 6) 1;
          jitter = random mod (base div 4 + 1)
      in min (base + jitter) max_ms)"

definition pause :: "net_env \<Rightarrow> nat \<Rightarrow> u64 \<Rightarrow> u64 \<Rightarrow> (net, 'e, unit) action" where
  "pause env attempt initial_ms max_ms =
     bindA (getsA nt_log) (\<lambda>log. sleep_ms (backoff_delay (ne_random env log) attempt initial_ms max_ms))"

fun await_receipt :: "net_env \<Rightarrow> string \<Rightarrow> string \<Rightarrow> nat \<Rightarrow> nat \<Rightarrow> json net_action" where
  "await_receipt env chain tx_hash attempt 0 =
     raiseA (LockFailed (''Receipt not found after 20 attempts for '' @ tx_hash))"
| "await_receipt env chain tx_hash attempt (Suc n) =
     bindA (evm_get_receipt env chain tx_hash) (\<lambda>r.
     case r of
       Some receipt \<Rightarrow>
         if str_or ''0x0'' (json_get ''status'' receipt) = ''0x0'' then raiseA (LockFailed ''Source tx reverted'')
         else returnA receipt
     | None \<Rightarrow> seqA (pause env attempt 2000 15000) (await_receipt env chain tx_hash (Suc attempt) n))"

definition wait_for_receipt :: "net_env \<Rightarrow> string \<Rightarrow> string \<Rightarrow> json net_action" where
  "wait_for_receipt env chain tx_hash = await_receipt env chain tx_hash 0 20"

text \<open>An HTTP GET of the API, under its breaker: status and body.\<close>

definition get_api :: "net_env \<Rightarrow> string \<Rightarrow> string \<Rightarrow> (nat \<times> string) net_action" where
  "get_api env prefix url w =
     ((case ne_get env (nt_log w) url of
         Inl (SendError e) \<Rightarrow> Inl (NetworkError e)
       | Inl (BodyError e) \<Rightarrow> Inl (NetworkError (prefix @ e))
       | Inr pair \<Rightarrow> Inr pair),
      w\<lparr>nt_log := nt_log w @ [HttpGet url]\<rparr>)"

definition api_call :: "net_env \<Rightarrow> string \<Rightarrow> string \<Rightarrow> (net, bridge_error circuit_error, nat \<times> string) action" where
  "api_call env prefix url w =
     breaker_call (net_now env) (fst (nt_api_breaker w)) (\<lambda>w. snd (nt_api_breaker w)) set_api_breaker (get_api env prefix url) w"

definition http_ok :: "nat \<Rightarrow> bool" where
  "http_ok status \<longleftrightarrow> 200 \<le> status \<and> status < 300"

definition is_tx_hash :: "string \<Rightarrow> bool" where
  "is_tx_hash s \<longleftrightarrow> starts_with s ''0x'' \<and> 66 \<le> length s"

section \<open>What an action returns\<close>

definition returns :: "('a \<Rightarrow> bool) \<Rightarrow> ('s, 'e, 'a) action \<Rightarrow> bool" where
  "returns R m \<longleftrightarrow> (\<forall>s x t. m s = (Inr x, t) \<longrightarrow> R x)"

lemma returnsD: "returns R m \<Longrightarrow> m s = (Inr x, t) \<Longrightarrow> R x"
  by (auto simp: returns_def)

lemma returns_raiseA [simp]: "returns R (raiseA e)" and returns_returnA [simp]: "returns R (returnA x) \<longleftrightarrow> R x"
  by (simp_all add: returns_def raiseA_def returnA_def)

lemma returns_bindA: "(\<And>x. returns R (f x)) \<Longrightarrow> returns R (bindA m f)"
  by (auto simp: returns_def bindA_Inr_iff)

lemma returns_seqA: "returns R n \<Longrightarrow> returns R (seqA m n)"
  by (simp add: seqA_def returns_bindA)

section \<open>Rules for the log\<close>

text \<open>
  \<open>emits P Q k m\<close>: whatever the network answers, \<open>m\<close> only appends to the log, every event it appends
  satisfies \<open>P\<close>, which may speak of the configured endpoints, at most \<open>k\<close> of them satisfy \<open>Q\<close>, and the endpoints stay as they are.
\<close>

definition emits :: "((string \<Rightarrow> string option) \<Rightarrow> net_event \<Rightarrow> bool) \<Rightarrow> (net_event \<Rightarrow> bool) \<Rightarrow> nat \<Rightarrow> (net, 'e, 'a) action \<Rightarrow> bool" where
  "emits P Q k m \<longleftrightarrow> (\<forall>w. \<exists>evs. nt_log (snd (m w)) = nt_log w @ evs \<and> list_all (P (nt_chain_rpcs w)) evs \<and> length (filter Q evs) \<le> k \<and>
     nt_chain_rpcs (snd (m w)) = nt_chain_rpcs w \<and> nt_api_url (snd (m w)) = nt_api_url w)"

lemma emitsD:
  assumes "emits P Q k m" and "m w = (r, w')"
  obtains evs where "nt_log w' = nt_log w @ evs" "list_all (P (nt_chain_rpcs w)) evs" "length (filter Q evs) \<le> k"
    "nt_chain_rpcs w' = nt_chain_rpcs w" "nt_api_url w' = nt_api_url w"
  using assms unfolding emits_def by (metis snd_conv)

lemma emits_weaken: "emits P Q k m \<Longrightarrow> k \<le> l \<Longrightarrow> emits P Q l m"
  unfolding emits_def by (meson order_trans)

lemma emits_silent:
  assumes "\<And>w. nt_log (snd (m w)) = nt_log w \<and> nt_chain_rpcs (snd (m w)) = nt_chain_rpcs w \<and> nt_api_url (snd (m w)) = nt_api_url w"
  shows "emits P Q k m"
  unfolding emits_def using assms by (intro allI exI [of _ "[]"]) simp

lemma emits_returnA [simp]: "emits P Q k (returnA x)" and emits_raiseA [simp]: "emits P Q k (raiseA e)"
  by (rule emits_silent; simp add: returnA_def raiseA_def)+

lemma emits_bind_value:
  assumes "emits P Q k m" and "\<And>x w w'. m w = (Inr x, w') \<Longrightarrow> emits P Q l (f x)"
  shows "emits P Q (k + l) (bindA m f)"
  unfolding emits_def
proof
  fix w
  obtain r u where m: "m w = (r, u)" by fastforce
  obtain as where a: "nt_log u = nt_log w @ as" "list_all (P (nt_chain_rpcs w)) as" "length (filter Q as) \<le> k"
    "nt_chain_rpcs u = nt_chain_rpcs w" "nt_api_url u = nt_api_url w"
    using emitsD [OF assms(1) m] by blast
  show "\<exists>evs. nt_log (snd (bindA m f w)) = nt_log w @ evs \<and> list_all (P (nt_chain_rpcs w)) evs \<and> length (filter Q evs) \<le> k + l \<and>
     nt_chain_rpcs (snd (bindA m f w)) = nt_chain_rpcs w \<and> nt_api_url (snd (bindA m f w)) = nt_api_url w"
  proof (cases r)
    case (Inl e)
    then show ?thesis using a m by (intro exI [of _ as]) (auto simp: bindA_def)
  next
    case (Inr x)
    obtain q v where f: "f x u = (q, v)" by fastforce
    obtain bs where "nt_log v = nt_log u @ bs" "list_all (P (nt_chain_rpcs u)) bs" "length (filter Q bs) \<le> l"
      "nt_chain_rpcs v = nt_chain_rpcs u" "nt_api_url v = nt_api_url u"
      using emitsD [OF assms(2) f] m Inr by blast
    then show ?thesis using a m f Inr by (intro exI [of _ "as @ bs"]) (auto simp: bindA_def)
  qed
qed

lemma emits_bindA: "emits P Q k m \<Longrightarrow> (\<And>x. emits P Q l (f x)) \<Longrightarrow> emits P Q (k + l) (bindA m f)"
  by (rule emits_bind_value)

lemma emits_seqA: "emits P Q k m \<Longrightarrow> emits P Q l n \<Longrightarrow> emits P Q (k + l) (seqA m n)"
  unfolding seqA_def by (rule emits_bindA)

lemma emits_bind0: "emits P Q 0 m \<Longrightarrow> (\<And>x. emits P Q l (f x)) \<Longrightarrow> emits P Q l (bindA m f)"
  using emits_bindA [of P Q 0 m l f] by simp

lemma emits_seq0: "emits P Q 0 m \<Longrightarrow> emits P Q l n \<Longrightarrow> emits P Q l (seqA m n)"
  using emits_seqA [of P Q 0 m l n] by simp

lemma emits_map_errA: "emits P Q k m \<Longrightarrow> emits P Q k (map_errA g m)"
  unfolding emits_def map_errA_def by (auto split: prod.splits sum.splits) (metis snd_conv)+

lemma emits_tryA: "emits P Q k m \<Longrightarrow> emits P Q k (tryA m)"
  unfolding emits_def tryA_def by (auto split: prod.splits) (metis snd_conv)

lemma emits_sleep: "(\<And>R. P R (Pause ms)) \<Longrightarrow> \<not> Q (Pause ms) \<Longrightarrow> emits P Q k (sleep_ms ms)"
  unfolding emits_def by (intro allI exI [of _ "[Pause ms]"]) (simp add: sleep_ms_def modifyA_def)

lemma emits_pause: "(\<And>R ms. P R (Pause ms)) \<Longrightarrow> (\<And>ms. \<not> Q (Pause ms)) \<Longrightarrow> emits P Q k (pause env attempt i m)"
  unfolding pause_def by (intro emits_bind0 [OF emits_silent] emits_sleep) (simp_all add: getsA_def)

lemma emits_breaker_call:
  fixes m :: "(net, 'e, 'a) action"
  assumes "emits P Q k m"
    and put: "\<And>b w. nt_log (put b w) = nt_log w \<and> nt_chain_rpcs (put b w) = nt_chain_rpcs w \<and> nt_api_url (put b w) = nt_api_url w"
  shows "emits P Q k (breaker_call (net_now env) cf get put m)"
  unfolding emits_def
proof
  fix w
  obtain r b where a: "admit cf (ne_now env (nt_log w)) (get w) = (r :: 'e circuit_error + unit, b)" by fastforce
  obtain q v where m: "m (put b w) = (q, v)" by fastforce
  obtain evs where evs: "nt_log v = nt_log (put b w) @ evs" "list_all (P (nt_chain_rpcs (put b w))) evs" "length (filter Q evs) \<le> k"
    "nt_chain_rpcs v = nt_chain_rpcs (put b w)" "nt_api_url v = nt_api_url (put b w)"
    using emitsD [OF assms(1) m] by blast
  let ?w = "snd (breaker_call (net_now env) cf get put m w)"
  show "\<exists>evs. nt_log ?w = nt_log w @ evs \<and> list_all (P (nt_chain_rpcs w)) evs \<and> length (filter Q evs) \<le> k \<and>
     nt_chain_rpcs ?w = nt_chain_rpcs w \<and> nt_api_url ?w = nt_api_url w"
  proof (cases r)
    case (Inl e)
    then show ?thesis using a put by (intro exI [of _ "[]"]) (simp add: breaker_call_def)
  next
    case (Inr u)
    then show ?thesis using a m evs put by (intro exI [of _ evs]) (cases q, simp_all add: breaker_call_def)
  qed
qed

lemma emits_post_rpc: "(\<And>R. P R (Post url body)) \<Longrightarrow> (Q (Post url body) \<longrightarrow> 1 \<le> k) \<Longrightarrow> emits P Q k (post_rpc env url body)"
  unfolding emits_def by (intro allI exI [of _ "[Post url body]"]) (simp add: post_rpc_def)

lemma emits_api_call:
  assumes "\<And>R url. P R (HttpGet url)" and "Q (HttpGet url) \<longrightarrow> 1 \<le> k"
  shows "emits P Q k (api_call env prefix url)"
proof -
  have g: "emits P Q k (get_api env prefix url)"
    unfolding emits_def using assms by (intro allI exI [of _ "[HttpGet url]"]) (simp add: get_api_def)
  have "emits P Q k (breaker_call (net_now env) cf (\<lambda>w. snd (nt_api_breaker w)) set_api_breaker (get_api env prefix url))" for cf
    by (rule emits_breaker_call [OF g]) (simp add: set_api_breaker_def)
  then show ?thesis unfolding emits_def api_call_def by blast
qed

lemma evm_rpc_call_cases:
  obtains (unknown) "nt_chain_rpcs w chain = None" "evm_rpc_call env chain meth params w = (Inl (NetworkError (''No RPC for chain: '' @ chain)), w)"
  | (direct) url where "nt_chain_rpcs w chain = Some url"
      "evm_rpc_call env chain meth params w = post_rpc env url (rpc_body meth params) w"
  | (guarded) url cf get where "nt_chain_rpcs w chain = Some url"
      "evm_rpc_call env chain meth params w =
        map_errA open_as_network_error (breaker_call (net_now env) cf get (set_chain_breaker chain cf) (post_rpc env url (rpc_body meth params))) w"
proof (cases "nt_chain_rpcs w chain")
  case None
  then show ?thesis using that(1) by (simp add: evm_rpc_call_def)
next
  case (Some url)
  then show ?thesis using that(2,3) by (cases "nt_chain_breakers w chain") (auto simp: evm_rpc_call_def Let_def)
qed

text \<open>A call to a chain goes to the endpoint that is configured for it.\<close>

lemma emits_evm_rpc_call:
  assumes "\<And>R url. R chain = Some url \<Longrightarrow> P R (Post url (rpc_body meth params))"
    and "\<And>url. Q (Post url (rpc_body meth params)) \<longrightarrow> 1 \<le> k"
  shows "emits P Q k (evm_rpc_call env chain meth params)"
  unfolding emits_def
proof
  fix w :: net
  let ?call = "\<lambda>url. post_rpc env url (rpc_body meth params)"
  let ?P = "\<lambda>url R ev. R chain = Some url \<longrightarrow> P R ev"
  have post: "emits (?P url) Q k (?call url)" for url using assms by (intro emits_post_rpc) auto
  have guard: "emits (?P url) Q k (map_errA open_as_network_error (breaker_call (net_now env) cf get (set_chain_breaker chain cf) (?call url)))" for url cf get
    using post by (intro emits_map_errA emits_breaker_call) (auto simp: set_chain_breaker_def)
  let ?goal = "\<lambda>w' :: net. \<exists>evs. nt_log w' = nt_log w @ evs \<and> list_all (P (nt_chain_rpcs w)) evs \<and> length (filter Q evs) \<le> k \<and>
     nt_chain_rpcs w' = nt_chain_rpcs w \<and> nt_api_url w' = nt_api_url w"
  have there: "?goal (snd (m w))" if "emits (?P url) Q k m" "nt_chain_rpcs w chain = Some url" for m :: "json net_action" and url
    using spec [OF that(1) [unfolded emits_def], of w] that(2) by simp
  show "?goal (snd (evm_rpc_call env chain meth params w))"
  proof (cases rule: evm_rpc_call_cases [of w chain env meth params])
    case unknown
    then show ?thesis by simp
  next
    case (direct url)
    then show ?thesis using there [OF post] by simp
  next
    case (guarded url cf get)
    then show ?thesis using there [OF guard] by simp
  qed
qed

lemma api_call_answer:
  assumes "api_call env prefix url w = (Inr pair, w')"
  shows "\<exists>l. ne_get env l url = Inr pair"
proof -
  obtain u u' where "get_api env prefix url u = (Inr pair, u')"
    using breaker_call_Inr [OF assms [unfolded api_call_def]] by blast
  then show ?thesis by (auto simp: get_api_def split: sum.splits transport_error.splits)
qed

section \<open>Receipts\<close>

text \<open>
  The decoder turns a JSON null in an optional field into an absent value (serde's rule for
  \<open>Option\<close>), so a result is never the value null.
\<close>

definition null_is_none :: "net_env \<Rightarrow> bool" where
  "null_is_none env \<longleftrightarrow> (\<forall>log url body resp. ne_post env log url body = Inr resp \<longrightarrow> rr_result resp \<noteq> Some JNull)"

lemma post_rpc_not_null: "null_is_none env \<Longrightarrow> post_rpc env url body w = (Inr v, w') \<Longrightarrow> v \<noteq> JNull"
  by (auto simp: post_rpc_def null_is_none_def split: sum.splits transport_error.splits option.splits)

lemma evm_rpc_call_not_null:
  assumes "null_is_none env" and "evm_rpc_call env chain meth params w = (Inr v, w')"
  shows "v \<noteq> JNull"
  using assms(2)
  by (cases rule: evm_rpc_call_cases [of w chain env meth params])
     (auto simp: map_errA_Inr_iff dest: post_rpc_not_null [OF assms(1)] breaker_call_Inr)

lemma wait_for_receipt_once:
  assumes "null_is_none env"
  shows "wait_for_receipt env chain tx_hash w =
    bindA (evm_rpc_call env chain ''eth_getTransactionReceipt'' (JArr [JStr tx_hash])) (\<lambda>receipt.
      if str_or ''0x0'' (json_get ''status'' receipt) = ''0x0'' then raiseA (LockFailed ''Source tx reverted'') else returnA receipt) w"
proof -
  obtain r u where c: "evm_rpc_call env chain ''eth_getTransactionReceipt'' (JArr [JStr tx_hash]) w = (r, u)" by fastforce
  have "v \<noteq> JNull" if "r = Inr v" for v using evm_rpc_call_not_null [OF assms] c that by blast
  then show ?thesis using c
    by (cases r) (auto simp: wait_for_receipt_def numeral_eq_Suc evm_get_receipt_def bindA_def returnA_def)
qed

section \<open>The delay between attempts\<close>

lemma backoff_delay_le: "backoff_delay random attempt initial_ms max_ms \<le> max_ms"
  by (simp add: backoff_delay_def Let_def)

end
