(* ===== verification/Wormhole.thy ===== *)
theory Wormhole
  imports Evm_Rpc
begin

text \<open>
  The Wormhole adapter (src/cross_chain/wormhole.rs): locking through the Token Bridge of the source
  chain, polling the guardians for the signed message, and redeeming it on the destination chain.
\<close>

section \<open>Constants and tables\<close>

definition TOKEN_BRIDGE_ETHEREUM :: string where "TOKEN_BRIDGE_ETHEREUM = ''0x3ee18B2214AFF97000D974cf647E7C347E8fa585''"
definition TOKEN_BRIDGE_SOLANA :: string where "TOKEN_BRIDGE_SOLANA = ''wormDTUJ6AWPNvk59vGQbDvGJmqbDTdgWgAqcLBCgUb''"
definition TOKEN_BRIDGE_POLYGON :: string where "TOKEN_BRIDGE_POLYGON = ''0x5a58505a96D1dbf8dF91cB21B54419FC36e93fdE''"
definition TOKEN_BRIDGE_ARBITRUM :: string where "TOKEN_BRIDGE_ARBITRUM = ''0x0b2402144Bb366A632D14B83F244D2e0e21bD39c''"
definition TOKEN_BRIDGE_BASE :: string where "TOKEN_BRIDGE_BASE = ''0x8d2de8d2f73F1F4cAB472AC9A881C9b123C79627''"

definition TRANSFER_TOKENS_SELECTOR :: bytes where "TRANSFER_TOKENS_SELECTOR = [0x01, 0x93, 0x09, 0x55]"
definition COMPLETE_TRANSFER_SELECTOR :: bytes where "COMPLETE_TRANSFER_SELECTOR = [0xc6, 0x87, 0x85, 0x19]"

definition LOG_MESSAGE_PUBLISHED_TOPIC :: string where
  "LOG_MESSAGE_PUBLISHED_TOPIC = ''0x6eb224fb001ed210e379b335e35efe88672a8ce935d981a6896b27ffdf52a3b2''"

definition VAA_POLL_MAX_RETRIES :: nat where "VAA_POLL_MAX_RETRIES = 30"
definition VAA_POLL_INITIAL_DELAY_MS :: u64 where "VAA_POLL_INITIAL_DELAY_MS = 2000"
definition VAA_POLL_MAX_DELAY_MS :: u64 where "VAA_POLL_MAX_DELAY_MS = 30000"
definition DEST_SUBMIT_MAX_RETRIES :: nat where "DEST_SUBMIT_MAX_RETRIES = 5"
definition DEST_SUBMIT_INITIAL_DELAY_MS :: u64 where "DEST_SUBMIT_INITIAL_DELAY_MS = 1000"

definition chain_id :: "string \<Rightarrow> u16 option" where
  "chain_id chain =
     (if chain = ''ethereum'' then Some 2 else if chain = ''solana'' then Some 1 else if chain = ''polygon'' then Some 5
      else if chain = ''arbitrum'' then Some 23 else if chain = ''base'' then Some 30 else None)"

definition token_bridge :: "string \<Rightarrow> string option" where
  "token_bridge chain =
     (if chain = ''ethereum'' then Some TOKEN_BRIDGE_ETHEREUM else if chain = ''solana'' then Some TOKEN_BRIDGE_SOLANA
      else if chain = ''polygon'' then Some TOKEN_BRIDGE_POLYGON else if chain = ''arbitrum'' then Some TOKEN_BRIDGE_ARBITRUM
      else if chain = ''base'' then Some TOKEN_BRIDGE_BASE else None)"

definition WormholeBridge_new :: "string \<Rightarrow> net" where
  "WormholeBridge_new guardian_rpc =
     \<lparr>nt_api_url = guardian_rpc, nt_api_breaker = (wormhole_guardian, CircuitBreaker_new), nt_chain_rpcs = Map.empty,
      nt_chain_breakers = Map.empty, nt_log = []\<rparr>"

definition with_chain_rpc :: "string \<Rightarrow> string \<Rightarrow> net \<Rightarrow> net" where
  "with_chain_rpc chain rpc_url w =
     w\<lparr>nt_chain_breakers := (nt_chain_breakers w)(chain \<mapsto> (CircuitBreakerConfig_new (''wormhole_'' @ chain @ ''_rpc'') 5 30, CircuitBreaker_new)),
       nt_chain_rpcs := (nt_chain_rpcs w)(chain \<mapsto> rpc_url)\<rparr>"

definition evm_send_raw_tx :: "net_env \<Rightarrow> string \<Rightarrow> string \<Rightarrow> string net_action" where
  "evm_send_raw_tx env chain signed_tx_hex =
     bindA (evm_rpc_call env chain ''eth_sendRawTransaction'' (JArr [JStr signed_tx_hex])) (\<lambda>result.
     case json_str result of
       Some tx_hash \<Rightarrow> returnA tx_hash
     | None \<Rightarrow> raiseA (NetworkError ''tx hash not a string''))"

section \<open>Message identifiers\<close>

definition message_id :: "u16 \<Rightarrow> string \<Rightarrow> u64 \<Rightarrow> string" where
  "message_id chain emitter sequence = show_nat (unat chain) @ ''/'' @ emitter @ ''/'' @ show_nat (unat sequence)"

definition parse_message_id :: "string \<Rightarrow> (u16 \<times> string \<times> u64) option" where
  "parse_message_id mid =
     (case splitn 3 (CHR ''/'') mid of
        [p0, p1, p2] \<Rightarrow>
          (case (parse_uint 16 p0, parse_uint 64 p2) of
             (Some chain, Some seq) \<Rightarrow> Some (word_of_nat chain, p1, word_of_nat seq)
           | _ \<Rightarrow> None)
      | _ \<Rightarrow> None)"

section \<open>Locking\<close>

text \<open>The random nonce is an argument.\<close>

definition encode_transfer_tokens :: "(string \<Rightarrow> bytes option) \<Rightarrow> u32 \<Rightarrow> string \<Rightarrow> u64 \<Rightarrow> u16 \<Rightarrow> string \<Rightarrow> bytes" where
  "encode_transfer_tokens hex_decode nonce token amount dest_chain_id recipient =
     (let token_bytes = (case hex_decode (strip_0x token) of Some bs \<Rightarrow> bs | None \<Rightarrow> []);
          recip_bytes = (case hex_decode (strip_0x recipient) of Some bs \<Rightarrow> bs | None \<Rightarrow> []);
          pad = 32 - min (length recip_bytes) 32
      in TRANSFER_TOKENS_SELECTOR
         @ replicate 12 0 @ token_bytes
         @ replicate 24 0 @ be_bytes 8 (unat amount)
         @ replicate 30 0 @ be_bytes 2 (unat dest_chain_id)
         @ replicate pad 0 @ take (min (length recip_bytes) 32) recip_bytes
         @ replicate 32 0
         @ replicate 28 0 @ be_bytes 4 (unat nonce))"

record wormhole_message =
  wm_emitter_chain :: u16
  wm_emitter_address :: string
  wm_sequence :: u64

text \<open>One log: left out (\<open>None\<close>), or the end of the search with its result.\<close>

definition parse_lock_log :: "(string \<Rightarrow> bytes option) \<Rightarrow> u16 \<Rightarrow> json \<Rightarrow> wormhole_message option option" where
  "parse_lock_log hex_decode source_chain_id entry =
     (case Option.bind (json_get ''topics'' entry) as_array of
        None \<Rightarrow> Some None
      | Some topics \<Rightarrow>
          if topics = [] then None
          else if str_or [] (Some (topics ! 0)) \<noteq> LOG_MESSAGE_PUBLISHED_TOPIC then None
          else if length topics \<le> 1 then Some None
          else
            let emitter_clean = strip_0x (str_or [] (Some (topics ! 1))) in
            case json_get ''data'' entry of
              None \<Rightarrow> Some None
            | Some data \<Rightarrow>
                let data_bytes = (case hex_decode (strip_0x (str_or [] (Some data))) of Some bs \<Rightarrow> bs | None \<Rightarrow> []) in
                if length data_bytes < 32 then None
                else Some (Some \<lparr>wm_emitter_chain = source_chain_id, wm_emitter_address = emitter_clean,
                       wm_sequence = word_of_nat (of_be_bytes (take 8 (drop 24 data_bytes)))\<rparr>))"

fun search_logs :: "(json \<Rightarrow> 'a option option) \<Rightarrow> json list \<Rightarrow> 'a option" where
  "search_logs f [] = None"
| "search_logs f (entry # logs) = (case f entry of Some r \<Rightarrow> r | None \<Rightarrow> search_logs f logs)"

definition parse_lock_logs :: "(string \<Rightarrow> bytes option) \<Rightarrow> json \<Rightarrow> u16 \<Rightarrow> wormhole_message option" where
  "parse_lock_logs hex_decode receipt source_chain_id =
     (case Option.bind (json_get ''logs'' receipt) as_array of
        None \<Rightarrow> None
      | Some logs \<Rightarrow> search_logs (parse_lock_log hex_decode source_chain_id) logs)"

record bridge_time =
  bt_min_secs :: u64
  bt_typical_secs :: u64
  bt_max_secs :: u64

definition get_bridge_time :: "string \<Rightarrow> string \<Rightarrow> bridge_time" where
  "get_bridge_time source dest =
     (let source_finality = (if source = ''solana'' then 15 else if source = ''ethereum'' then 960 else if source = ''polygon'' then 256
        else if source = ''arbitrum'' then 10 else if source = ''base'' then 10 else 120)
      in \<lparr>bt_min_secs = source_finality + 10, bt_typical_secs = source_finality + 60, bt_max_secs = source_finality + 600\<rparr>)"

definition hex_data :: "net_env \<Rightarrow> bytes \<Rightarrow> json" where
  "hex_data env calldata = JStr (''0x'' @ ne_hex_encode env calldata)"

definition supports_route :: "string \<Rightarrow> string \<Rightarrow> bool" where
  "supports_route source dest \<longleftrightarrow> chain_id source \<noteq> None \<and> chain_id dest \<noteq> None \<and> source \<noteq> dest"

definition wormhole_lock :: "net_env \<Rightarrow> bridge_transfer_params \<Rightarrow> lock_receipt net_action" where
  "wormhole_lock env params =
     bindA (liftR (ok_or (chain_id (bp_source_chain params)) (UnsupportedRoute (bp_source_chain params)))) (\<lambda>source_id.
     bindA (liftR (ok_or (chain_id (bp_dest_chain params)) (UnsupportedRoute (bp_dest_chain params)))) (\<lambda>dest_id.
     bindA (liftR (ok_or (token_bridge (bp_source_chain params)) (UnsupportedRoute (bp_source_chain params)))) (\<lambda>bridge.
     bindA (getsA (\<lambda>w. encode_transfer_tokens (ne_hex_decode env) (ucast (ne_random env (nt_log w))) (bp_token params) (bp_amount params) dest_id
        (bp_recipient params))) (\<lambda>calldata.
     bindA (tryA (evm_rpc_call env (bp_source_chain params) ''eth_sendTransaction''
        (JArr [JObj [(''from'', JStr (bp_sender params)), (''to'', JStr bridge), (''data'', hex_data env calldata)]]))) (\<lambda>r.
     case r of
       Inl e \<Rightarrow> raiseA (LockFailed (bridge_error_text e))
     | Inr val \<Rightarrow>
         let tx_hash = str_or [] (Some val) in
         if \<not> is_tx_hash tx_hash then raiseA (LockFailed (''Invalid tx hash from source chain: '' @ tx_hash))
         else
           bindA (wait_for_receipt env (bp_source_chain params) tx_hash) (\<lambda>receipt.
           bindA (liftR (ok_or (parse_lock_logs (ne_hex_decode env) receipt source_id)
              (LockFailed ''No Wormhole LogMessagePublished in tx logs''))) (\<lambda>msg.
           returnA \<lparr>lr_tx_hash = tx_hash, lr_message_id = message_id (wm_emitter_chain msg) (wm_emitter_address msg) (wm_sequence msg),
             lr_estimated_finality_secs = bt_typical_secs (get_bridge_time (bp_source_chain params) (bp_dest_chain params))\<rparr>)))))))"

section \<open>The guardians\<close>

text \<open>The answer of the guardians: \<open>data\<close>, and in it \<open>vaaBytes\<close>; decoding the body is an argument.\<close>

record guardian_response =
  gr_data :: "string option option"
  gr_message :: "string option"
  gr_code :: "int option"

type_synonym guardian_decoder = "string \<Rightarrow> string + guardian_response"

definition read_vaa :: "net_env \<Rightarrow> string \<Rightarrow> bridge_error + vaa" where
  "read_vaa env vaa_b64 = bindR (base64_decode vaa_b64) (parse_vaa (ne_hex_encode env))"

definition vaa_url :: "net \<Rightarrow> u16 \<Rightarrow> string \<Rightarrow> u64 \<Rightarrow> string" where
  "vaa_url w chain emitter sequence =
     nt_api_url w @ ''/v1/signed_vaa'' @ ''/'' @ show_nat (unat chain) @ ''/'' @ emitter @ ''/'' @ show_nat (unat sequence)"

fun poll_vaa :: "net_env \<Rightarrow> guardian_decoder \<Rightarrow> string \<Rightarrow> nat \<Rightarrow> nat \<Rightarrow> string \<Rightarrow> vaa net_action" where
  "poll_vaa env decode url attempt 0 last_error =
     raiseA (VerificationFailed (''VAA not available after '' @ show_nat VAA_POLL_MAX_RETRIES @ '' attempts: '' @ last_error))"
| "poll_vaa env decode url attempt (Suc n) last_error =
     bindA (tryA (api_call env ''read body: '' url)) (\<lambda>r.
     let wait = (\<lambda>last_error. seqA (pause env attempt VAA_POLL_INITIAL_DELAY_MS VAA_POLL_MAX_DELAY_MS)
                   (poll_vaa env decode url (Suc attempt) n last_error)) in
     case r of
       Inl (CircuitOpen breaker remaining_secs) \<Rightarrow>
         seqA (sleep_ms (min (word_of_int remaining_secs * 1000) VAA_POLL_MAX_DELAY_MS))
              (poll_vaa env decode url (Suc attempt) n (''guardian circuit open ('' @ breaker @ '')''))
     | Inl (CircuitInner e) \<Rightarrow> wait (bridge_error_text e)
     | Inr (status, body) \<Rightarrow>
         if http_ok status then
           (case decode body of
              Inl e \<Rightarrow> poll_vaa env decode url (Suc attempt) n (''parse: '' @ e)
            | Inr resp \<Rightarrow>
                (case gr_data resp of
                   Some (Some vaa_b64) \<Rightarrow> liftR (read_vaa env vaa_b64)
                 | _ \<Rightarrow> wait last_error))
         else if status = 404 then wait last_error
         else wait (''HTTP '' @ show_nat status))"

definition fetch_vaa :: "net_env \<Rightarrow> guardian_decoder \<Rightarrow> u16 \<Rightarrow> string \<Rightarrow> u64 \<Rightarrow> vaa net_action" where
  "fetch_vaa env decode chain emitter sequence =
     bindA (getsA (\<lambda>w. vaa_url w chain emitter sequence)) (\<lambda>url.
     poll_vaa env decode url 0 VAA_POLL_MAX_RETRIES ''VAA not available'')"

definition fetch_vaa_by_tx :: "net_env \<Rightarrow> guardian_decoder \<Rightarrow> string \<Rightarrow> vaa option net_action" where
  "fetch_vaa_by_tx env decode tx_hash =
     bindA (getsA (\<lambda>w. nt_api_url w @ ''/v1/signed_vaa_by_tx'' @ ''/'' @ tx_hash)) (\<lambda>url.
     bindA (tryA (api_call env ''read body: '' url)) (\<lambda>r.
     case r of
       Inl (CircuitOpen _ _) \<Rightarrow> returnA None
     | Inl (CircuitInner e) \<Rightarrow> raiseA (NetworkError (bridge_error_text e))
     | Inr (status, body) \<Rightarrow>
         if \<not> http_ok status then returnA None
         else
           (case decode body of
              Inl e \<Rightarrow> raiseA (VerificationFailed (''parse: '' @ e))
            | Inr resp \<Rightarrow>
                (case gr_data resp of
                   Some (Some vaa_b64) \<Rightarrow> bindA (liftR (read_vaa env vaa_b64)) (\<lambda>v. returnA (Some v))
                 | _ \<Rightarrow> returnA None))))"

text \<open>The check inside an action. Its panic, which a parsed message never causes, is shown as an error of its own.\<close>

definition checked_vaa :: "vaa \<Rightarrow> bridge_error + unit" where
  "checked_vaa v = (case verify_vaa v of Some r \<Rightarrow> r | None \<Rightarrow> Inl (OtherError ''panic''))"

definition wormhole_verify :: "net_env \<Rightarrow> guardian_decoder \<Rightarrow> string \<Rightarrow> bridge_status net_action" where
  "wormhole_verify env decode tx_hash =
     bindA (tryA (fetch_vaa_by_tx env decode tx_hash)) (\<lambda>r.
     case r of
       Inr (Some v) \<Rightarrow>
         seqA (liftR (checked_vaa v))
         (returnA (InTransit (message_id (va_emitter_chain v) (va_emitter_address v) (va_sequence v))))
     | Inr None \<Rightarrow> returnA BridgePending
     | Inl e \<Rightarrow> returnA BridgePending)"

section \<open>Redeeming\<close>

definition encode_complete_transfer :: "bytes \<Rightarrow> bytes" where
  "encode_complete_transfer vaa_bytes =
     COMPLETE_TRANSFER_SELECTOR
     @ replicate 31 0 @ [0x20]
     @ replicate 24 0 @ be_bytes 8 (length vaa_bytes)
     @ vaa_bytes @ replicate ((32 - length vaa_bytes mod 32) mod 32) 0"

definition submit_retriable :: "string \<Rightarrow> bool" where
  "submit_retriable last_error =
     (let lower = map to_lower last_error in
      contains lower ''nonce'' \<or> contains lower ''underpriced'' \<or> contains lower ''pool''
      \<or> contains lower ''timeout'' \<or> contains lower ''connection'')"

definition submit_pause :: "nat \<Rightarrow> unit net_action" where
  "submit_pause attempt = sleep_ms (DEST_SUBMIT_INITIAL_DELAY_MS * push_bit (min attempt 4) 1)"

fun submit_attempts :: "net_env \<Rightarrow> string \<Rightarrow> string \<Rightarrow> json \<Rightarrow> nat \<Rightarrow> nat \<Rightarrow> string \<Rightarrow> string net_action" where
  "submit_attempts env dest_chain dest_bridge calldata_hex attempt 0 last_error =
     raiseA (ReleaseFailed (''Destination submission failed after '' @ show_nat DEST_SUBMIT_MAX_RETRIES @ '' attempts: '' @ last_error))"
| "submit_attempts env dest_chain dest_bridge calldata_hex attempt (Suc n) last_error =
     (let again = (\<lambda>last_error. seqA (submit_pause attempt) (submit_attempts env dest_chain dest_bridge calldata_hex (Suc attempt) n last_error)) in
      bindA (tryA (evm_rpc_call env dest_chain ''eth_call''
        (JArr [JObj [(''to'', JStr dest_bridge), (''data'', calldata_hex)], JStr ''latest'']))) (\<lambda>call_result.
      case call_result of
        Inl e \<Rightarrow>
          let err_str = bridge_error_text e in
          if contains err_str ''already completed'' \<or> contains err_str ''transfer already completed''
          then raiseA (ReleaseFailed ''VAA already redeemed'')
          else again err_str
      | Inr _ \<Rightarrow>
          bindA (tryA (evm_rpc_call env dest_chain ''eth_sendTransaction''
            (JArr [JObj [(''to'', JStr dest_bridge), (''data'', calldata_hex)]]))) (\<lambda>sent.
          case sent of
            Inr tx_val \<Rightarrow>
              let tx_hash = str_or [] (Some tx_val) in
              if is_tx_hash tx_hash then returnA tx_hash else again (''unexpected tx result: '' @ ne_show_json env tx_val)
          | Inl e \<Rightarrow>
              let last_error = bridge_error_text e in
              if \<not> submit_retriable last_error then raiseA (ReleaseFailed last_error) else again last_error)))"

definition submit_vaa_to_destination :: "net_env \<Rightarrow> string \<Rightarrow> vaa \<Rightarrow> string net_action" where
  "submit_vaa_to_destination env dest_chain v =
     bindA (liftR (ok_or (token_bridge dest_chain) (UnsupportedRoute dest_chain))) (\<lambda>dest_bridge.
     submit_attempts env dest_chain dest_bridge (hex_data env (encode_complete_transfer (va_bytes v))) 0 DEST_SUBMIT_MAX_RETRIES [])"

definition wormhole_release :: "net_env \<Rightarrow> guardian_decoder \<Rightarrow> bridge_transfer_params \<Rightarrow> string \<Rightarrow> string net_action" where
  "wormhole_release env decode params mid =
     bindA (liftR (ok_or (parse_message_id mid) (ReleaseFailed ''Invalid message ID''))) (\<lambda>(chain, emitter, sequence).
     bindA (fetch_vaa env decode chain emitter sequence) (\<lambda>v.
     seqA (liftR (checked_vaa v))
     (submit_vaa_to_destination env (bp_dest_chain params) v)))"

section \<open>Fees\<close>

record bridge_fee_estimate =
  bf_source_fee :: u64
  bf_dest_fee :: u64
  bf_protocol_fee :: u64
  bf_total_description :: string

definition estimate_bridge_fee :: "bridge_transfer_params \<Rightarrow> bridge_error + bridge_fee_estimate" where
  "estimate_bridge_fee params =
     (let (source_fee, desc) =
        (if bp_source_chain params = ''solana'' then (5000, ''~$0.01 (Solana gas)'')
         else if bp_source_chain params = ''ethereum'' then (200000000000000, ''~$0.50 (Ethereum gas)'')
         else if bp_source_chain params = ''polygon'' then (50000000000000, ''~$0.02 (Polygon gas)'')
         else if bp_source_chain params = ''arbitrum'' then (100000000000000, ''~$0.05 (Arbitrum gas)'')
         else if bp_source_chain params = ''base'' then (50000000000000, ''~$0.02 (Base gas)'')
         else (0, ''Unknown chain''))
      in Inr \<lparr>bf_source_fee = source_fee, bf_dest_fee = 0, bf_protocol_fee = 0, bf_total_description = desc @ '' + relayer''\<rparr>)"

section \<open>Identifiers\<close>

text \<open>
  The identifier of a message determines it: parsing the identifier a lock returned gives back the chain, the
  emitter and the sequence number, for every emitter address without a slash.
\<close>

theorem wormhole_message_id_roundtrip:
  assumes "CHR ''/'' \<notin> set emitter"
  shows "parse_message_id (message_id chain emitter sequence) = Some (chain, emitter, sequence)"
proof -
  have "splitn 3 (CHR ''/'') (message_id chain emitter sequence) = [show_nat (unat chain), emitter, show_nat (unat sequence)]"
    using assms splitn_part [OF slash_free_show_nat, of 1] splitn_part [OF assms, of 0]
    by (simp add: message_id_def numeral_3_eq_3)
  moreover have "unat chain < 2 ^ 16" "unat sequence < 2 ^ 64"
    using unsigned_less [of chain, where 'a = nat] unsigned_less [of sequence, where 'a = nat] by simp_all
  ultimately show ?thesis by (simp add: parse_message_id_def parse_uint_show_nat)
qed

section \<open>What a release sends\<close>

definition sends_tx :: "net_event \<Rightarrow> bool" where
  "sends_tx ev = (case ev of Post url body \<Rightarrow> json_get ''method'' body = Some (JStr ''eth_sendTransaction'') | _ \<Rightarrow> False)"

lemma sends_tx_simps [simp]:
  "sends_tx (Post url (rpc_body meth params)) \<longleftrightarrow> meth = ''eth_sendTransaction''"
  "\<not> sends_tx (HttpGet url)" "\<not> sends_tx (Pause ms)"
  by (simp_all add: sends_tx_def rpc_body_def)

lemma emits_liftR [simp]: "emits P Q k (liftR r)"
  by (rule emits_silent) (simp add: liftR_def)

lemma emits_getsA [simp]: "emits P Q k (getsA f)"
  by (rule emits_silent) (simp add: getsA_def)

lemma returns_liftR [simp]: "returns R (liftR r) \<longleftrightarrow> (\<forall>x. r = Inr x \<longrightarrow> R x)"
  by (auto simp: returns_def liftR_def)

text \<open>The bytes are a signed message in a successful answer of the guardians to a request.\<close>

definition guardians_sent :: "net_env \<Rightarrow> guardian_decoder \<Rightarrow> string \<Rightarrow> bytes \<Rightarrow> bool" where
  "guardians_sent env decode url bs \<longleftrightarrow>
     (\<exists>l status body resp b64. ne_get env l url = Inr (status, body) \<and> http_ok status \<and> decode body = Inr resp \<and>
        gr_data resp = Some (Some b64) \<and> base64_decode b64 = Inr bs)"

lemma poll_vaa_parsed:
  "poll_vaa env decode url attempt n e w = (Inr v, w') \<Longrightarrow>
     \<exists>bs. guardians_sent env decode url bs \<and> parse_vaa (ne_hex_encode env) bs = Inr v"
proof (induction n arbitrary: attempt e w)
  case 0
  then show ?case by (simp add: raiseA_def)
next
  case (Suc n)
  obtain r u where r: "api_call env ''read body: '' url w = (r, u)" by fastforce
  let ?again = "\<exists>attempt e u. poll_vaa env decode url attempt n e u = (Inr v, w')"
  have "?again \<or> (\<exists>status body resp b64. r = Inr (status, body) \<and> http_ok status \<and> decode body = Inr resp \<and>
      gr_data resp = Some (Some b64) \<and> read_vaa env b64 = Inr v)"
    using Suc.prems r
    by (auto simp: bindA_def tryA_def seqA_def Let_def liftR_def split: sum.splits circuit_error.splits prod.splits if_splits option.splits)
  then show ?case
  proof
    assume ?again
    then show ?thesis using Suc.IH by blast
  next
    assume "\<exists>status body resp b64. r = Inr (status, body) \<and> http_ok status \<and> decode body = Inr resp \<and>
      gr_data resp = Some (Some b64) \<and> read_vaa env b64 = Inr v"
    then show ?thesis using r api_call_answer [of env "''read body: ''" url w] by (fastforce simp: guardians_sent_def read_vaa_def bindR_Inr_iff)
  qed
qed

lemma emits_poll_vaa:
  assumes "\<And>R url. P R (HttpGet url)" "\<And>R ms. P R (Pause ms)" "\<And>url. \<not> Q (HttpGet url)" "\<And>ms. \<not> Q (Pause ms)"
  shows "emits P Q k (poll_vaa env decode url attempt n e)"
proof (induction n arbitrary: attempt e)
  case 0
  then show ?case by simp
next
  case (Suc n)
  then show ?case
    using assms
    by (auto simp: Let_def intro!: emits_bind0 emits_seq0 emits_tryA emits_api_call emits_pause emits_sleep
        split: sum.splits circuit_error.splits prod.splits if_splits option.splits)
qed

lemma emits_submit_attempts:
  assumes "\<And>R url. R chain = Some url \<Longrightarrow> P R (Post url (rpc_body ''eth_call'' (JArr [JObj [(''to'', JStr bridge), (''data'', data)], JStr ''latest''])))"
    and "\<And>R url. R chain = Some url \<Longrightarrow> P R (Post url (rpc_body ''eth_sendTransaction'' (JArr [JObj [(''to'', JStr bridge), (''data'', data)]])))"
    and "\<And>R ms. P R (Pause ms)"
  shows "emits P sends_tx n (submit_attempts env chain bridge data attempt n e)"
proof (induction n arbitrary: attempt e)
  case 0
  then show ?case by simp
next
  case (Suc n)
  have again: "emits P sends_tx n (seqA (submit_pause attempt) (submit_attempts env chain bridge data (Suc attempt) n e))" for e
    unfolding submit_pause_def using assms by (intro emits_seq0 emits_sleep Suc.IH) auto
  have send: "emits P sends_tx (1 + n) (bindA (tryA (evm_rpc_call env chain ''eth_sendTransaction''
            (JArr [JObj [(''to'', JStr bridge), (''data'', data)]]))) (\<lambda>sent.
          case sent of
            Inr tx_val \<Rightarrow>
              let tx_hash = str_or [] (Some tx_val) in
              if is_tx_hash tx_hash then returnA tx_hash
              else seqA (submit_pause attempt) (submit_attempts env chain bridge data (Suc attempt) n (''unexpected tx result: '' @ ne_show_json env tx_val))
          | Inl e \<Rightarrow>
              let last_error = bridge_error_text e in
              if \<not> submit_retriable last_error then raiseA (ReleaseFailed last_error)
              else seqA (submit_pause attempt) (submit_attempts env chain bridge data (Suc attempt) n last_error)))"
    using assms(2) again by (intro emits_bindA emits_tryA emits_evm_rpc_call) (auto simp: Let_def split: sum.splits)
  show ?case
    unfolding submit_attempts.simps Let_def using assms(1) send emits_weaken [OF again, of "Suc n"]
    by (intro emits_bind0 emits_tryA emits_evm_rpc_call) (auto simp: Let_def split: sum.splits)
qed

text \<open>
  A transaction that redeems the message of an identifier: it goes to the endpoint of the destination chain and calls the
  Token Bridge there with the bytes that the guardians sent for the identifier, which have a quorum.
\<close>

definition redeems_quorum :: "net_env \<Rightarrow> guardian_decoder \<Rightarrow> net \<Rightarrow> string \<Rightarrow> string \<Rightarrow> net_event \<Rightarrow> bool" where
  "redeems_quorum env decode w dest_chain mid ev \<longleftrightarrow>
     (\<exists>chain emitter sequence url bs v bridge.
       parse_message_id mid = Some (chain, emitter, sequence) \<and>
       guardians_sent env decode (vaa_url w chain emitter sequence) bs \<and>
       parse_vaa (ne_hex_encode env) bs = Inr v \<and> has_quorum v \<and>
       token_bridge dest_chain = Some bridge \<and> nt_chain_rpcs w dest_chain = Some url \<and>
       ev = Post url (rpc_body ''eth_sendTransaction'' (JArr [JObj [(''to'', JStr bridge), (''data'', hex_data env (encode_complete_transfer bs))]])))"

lemma emits_submit_vaa:
  assumes p: "parse_vaa (ne_hex_encode env) bs = Inr v"
    and P: "\<And>R url bridge. has_quorum v \<Longrightarrow> token_bridge dest = Some bridge \<Longrightarrow> R dest = Some url \<Longrightarrow>
      P R (Post url (rpc_body ''eth_sendTransaction'' (JArr [JObj [(''to'', JStr bridge), (''data'', hex_data env (encode_complete_transfer bs))]])))"
    and other: "\<And>R ev. \<not> sends_tx ev \<Longrightarrow> P R ev"
  shows "emits P sends_tx 5 (seqA (liftR (checked_vaa v)) (submit_vaa_to_destination env dest v))"
  unfolding seqA_def
proof (rule emits_bind_value [where k = 0, simplified])
  fix x :: unit and t t' :: net
  assume "liftR (checked_vaa v) t = (Inr x, t')"
  then have "has_quorum v" using verify_vaa_iff [OF p] by (auto simp: liftR_def checked_vaa_def)
  moreover have "va_bytes v = bs" using parse_vaa_length [OF p] by simp
  ultimately have "emits P sends_tx 5 (submit_attempts env dest bridge (hex_data env (encode_complete_transfer (va_bytes v))) 0 5 [])"
    if "token_bridge dest = Some bridge" for bridge
    using that P other by (intro emits_submit_attempts) auto
  then show "emits P sends_tx 5 (submit_vaa_to_destination env dest v)"
    unfolding submit_vaa_to_destination_def DEST_SUBMIT_MAX_RETRIES_def
    by (intro emits_bind_value [where k = 0, simplified]) (auto simp: liftR_def)
qed simp

text \<open>
  C23. Whatever the guardians and the chain answer, a release sends at most five transactions; each of them goes to the endpoint
  that is configured for the destination chain and calls the Token Bridge of that chain with the bytes that the guardians
  sent for the requested identifier, which a quorum of guardians has signed by the adapter's check.
\<close>

theorem release_sends_quorum_only:
  assumes "wormhole_release env decode params mid w = (r, w')"
  shows "\<exists>evs. nt_log w' = nt_log w @ evs \<and> length (filter sends_tx evs) \<le> 5 \<and>
    (\<forall>ev\<in>set evs. sends_tx ev \<longrightarrow> redeems_quorum env decode w (bp_dest_chain params) mid ev)"
proof (cases "parse_message_id mid")
  case None
  then show ?thesis using assms by (auto simp: wormhole_release_def bindA_def liftR_def)
next
  case (Some id)
  obtain c e s where id: "parse_message_id mid = Some (c, e, s)" using Some by (cases id) auto
  let ?P = "\<lambda>R ev. sends_tx ev \<longrightarrow> R = nt_chain_rpcs w \<longrightarrow> redeems_quorum env decode w (bp_dest_chain params) mid ev"
  have release: "wormhole_release env decode params mid w =
      bindA (fetch_vaa env decode c e s) (\<lambda>v. seqA (liftR (checked_vaa v)) (submit_vaa_to_destination env (bp_dest_chain params) v)) w"
    by (simp add: wormhole_release_def bindA_def liftR_def id)
  have fetch: "emits ?P sends_tx 0 (fetch_vaa env decode c e s)"
    unfolding fetch_vaa_def by (intro emits_bind0 emits_poll_vaa) auto
  obtain q u where q: "fetch_vaa env decode c e s w = (q, u)" by fastforce
  obtain as where as_: "nt_log u = nt_log w @ as" "list_all (?P (nt_chain_rpcs w)) as" "length (filter sends_tx as) \<le> 0" "nt_chain_rpcs u = nt_chain_rpcs w"
    using emitsD [OF fetch q] by blast
  show ?thesis
  proof (cases q)
    case (Inl er)
    then show ?thesis using release assms q as_ by (intro exI [of _ as]) (auto simp: bindA_def list_all_iff)
  next
    case (Inr v)
    have "poll_vaa env decode (vaa_url w c e s) 0 VAA_POLL_MAX_RETRIES ''VAA not available'' w = (Inr v, u)"
      using q Inr by (simp add: fetch_vaa_def bindA_def getsA_def)
    then obtain bs where bs: "guardians_sent env decode (vaa_url w c e s) bs" "parse_vaa (ne_hex_encode env) bs = Inr v"
      using poll_vaa_parsed by blast
    have submit: "emits ?P sends_tx 5 (seqA (liftR (checked_vaa v)) (submit_vaa_to_destination env (bp_dest_chain params) v))"
      by (rule emits_submit_vaa [OF bs(2)]) (use id bs in \<open>auto simp: redeems_quorum_def\<close>)
    have "seqA (liftR (checked_vaa v)) (submit_vaa_to_destination env (bp_dest_chain params) v) u = (r, w')"
      using release assms q Inr by (simp add: bindA_def)
    from emitsD [OF submit this] obtain cs where "nt_log w' = nt_log u @ cs" "list_all (?P (nt_chain_rpcs u)) cs" "length (filter sends_tx cs) \<le> 5" by blast
    then show ?thesis using as_ by (intro exI [of _ "as @ cs"]) (auto simp: list_all_iff)
  qed
qed

section \<open>What a lock sends\<close>

definition pauses :: "net_event \<Rightarrow> bool" where
  "pauses ev = (case ev of Pause _ \<Rightarrow> True | _ \<Rightarrow> False)"

lemma pauses_simps [simp]: "\<not> pauses (Post url body)" "\<not> pauses (HttpGet url)" "pauses (Pause ms)"
  by (simp_all add: pauses_def)

lemma emits_wait_for_receipt:
  assumes "null_is_none env"
  shows "emits (\<lambda>_ ev. \<not> pauses ev) (\<lambda>_. True) 1 (wait_for_receipt env chain tx)"
proof -
  have once: "wait_for_receipt env chain tx = bindA (evm_rpc_call env chain ''eth_getTransactionReceipt'' (JArr [JStr tx])) (\<lambda>receipt.
      if str_or ''0x0'' (json_get ''status'' receipt) = ''0x0'' then raiseA (LockFailed ''Source tx reverted'') else returnA receipt)"
    using wait_for_receipt_once [OF assms] by (rule ext)
  show ?thesis
    unfolding once by (rule emits_bindA [where l = 0, simplified]) (auto intro!: emits_evm_rpc_call)
qed

text \<open>A call to a chain whose breaker is closed: the answer of the node, and the breaker records it.\<close>

lemma closed_rpc_call:
  assumes "nt_chain_rpcs w chain = Some url" and "nt_chain_breakers w chain = Some (cf, b)" and "cb_state b = Closed"
    and "post_rpc env url (rpc_body meth params) w = (r, w\<lparr>nt_log := l\<rparr>)"
  shows "evm_rpc_call env chain meth params w = (r, set_chain_breaker chain cf
    (case r of Inr _ \<Rightarrow> record_success (ne_now env l) b | Inl _ \<Rightarrow> record_failure cf (ne_now env l) b) (w\<lparr>nt_log := l\<rparr>))"
proof -
  have same: "set_chain_breaker chain cf b w = w" using assms(2) by (simp add: set_chain_breaker_def fun_upd_idem)
  show ?thesis using assms same
    by (cases r) (simp_all add: evm_rpc_call_def map_errA_def closed_breaker_call open_as_network_error_def)
qed

lemma record_success_closed: "cb_state b = Closed \<Longrightarrow> cb_state (record_success t b) = Closed"
  by (simp add: record_success_def)

lemma emits_wormhole_lock:
  assumes "null_is_none env"
  shows "emits (\<lambda>_ ev. \<not> pauses ev) (\<lambda>_. True) 2 (wormhole_lock env params)"
proof -
  let ?P = "\<lambda>_ ev. \<not> pauses ev"
  have wait: "emits ?P (\<lambda>_. True) (1 + 0) (bindA (wait_for_receipt env chain tx) f)" if "\<And>x. emits ?P (\<lambda>_. True) 0 (f x)" for chain tx f
    by (rule emits_bindA [OF emits_wait_for_receipt [OF assms] that])
  have "emits ?P (\<lambda>_. True) (0 + (0 + (0 + (0 + (1 + 1))))) (wormhole_lock env params)"
    unfolding wormhole_lock_def
    by (intro emits_bindA emits_liftR emits_getsA emits_tryA emits_evm_rpc_call)
       (auto simp: Let_def split: sum.splits intro!: wait [simplified] emits_bind0)
  then show ?thesis by (rule emits_weaken) simp
qed

text \<open>A node that accepts transactions and has none of them in a block yet.\<close>

definition pending_node :: "net_env \<Rightarrow> string \<Rightarrow> string \<Rightarrow> bool" where
  "pending_node env url tx \<longleftrightarrow> (\<forall>l body. ne_post env l url body =
     Inr \<lparr>rr_result = (if json_get ''method'' body = Some (JStr ''eth_sendTransaction'') then Some (JStr tx) else None), rr_error = None\<rparr>)"

lemma pending_lock_fails:
  assumes null: "null_is_none env" and node: "pending_node env url tx" "is_tx_hash tx"
    and route: "supports_route (bp_source_chain params) (bp_dest_chain params)" "nt_chain_rpcs w (bp_source_chain params) = Some url"
    and closed: "nt_chain_breakers w (bp_source_chain params) = Some (cf, b)" "cb_state b = Closed"
  obtains w' send where "wormhole_lock env params w = (Inl (NetworkError ''null result''), w')" "sends_tx send"
    "nt_log w' = nt_log w @ [send, Post url (rpc_body ''eth_getTransactionReceipt'' (JArr [JStr tx]))]"
proof -
  obtain sid did tb where ids: "chain_id (bp_source_chain params) = Some sid" "chain_id (bp_dest_chain params) = Some did"
      "token_bridge (bp_source_chain params) = Some tb"
    using route by (auto simp: supports_route_def chain_id_def token_bridge_def split: if_splits)
  let ?chain = "bp_source_chain params"
  let ?rec = "rpc_body ''eth_getTransactionReceipt'' (JArr [JStr tx])"
  let ?send = "rpc_body ''eth_sendTransaction'' (JArr [JObj [(''from'', JStr (bp_sender params)), (''to'', JStr tb),
     (''data'', hex_data env (encode_transfer_tokens (ne_hex_decode env) (ucast (ne_random env (nt_log w))) (bp_token params) (bp_amount params) did
        (bp_recipient params)))]])"
  define l1 where "l1 = nt_log w @ [Post url ?send]"
  define w1 where "w1 = set_chain_breaker ?chain cf (record_success (ne_now env l1) b) (w\<lparr>nt_log := l1\<rparr>)"
  have "post_rpc env url ?send w = (Inr (JStr tx), w\<lparr>nt_log := l1\<rparr>)"
    using node by (simp add: post_rpc_def l1_def pending_node_def) (simp add: rpc_body_def)
  then have send: "evm_rpc_call env ?chain ''eth_sendTransaction'' (JArr [JObj [(''from'', JStr (bp_sender params)), (''to'', JStr tb),
     (''data'', hex_data env (encode_transfer_tokens (ne_hex_decode env) (ucast (ne_random env (nt_log w))) (bp_token params) (bp_amount params) did
        (bp_recipient params)))]]) w = (Inr (JStr tx), w1)"
    using closed_rpc_call [of w ?chain url cf b env] route closed by (simp add: w1_def)
  have w1: "nt_chain_rpcs w1 ?chain = Some url" "nt_chain_breakers w1 ?chain = Some (cf, record_success (ne_now env l1) b)" "nt_log w1 = l1"
    "cb_state (record_success (ne_now env l1) b) = Closed"
    using route closed by (simp_all add: w1_def set_chain_breaker_def record_success_closed)
  have "post_rpc env url ?rec w1 = (Inl (NetworkError ''null result''), w1\<lparr>nt_log := l1 @ [Post url ?rec]\<rparr>)"
    using node w1(3) by (simp add: post_rpc_def pending_node_def) (simp add: rpc_body_def)
  from closed_rpc_call [OF w1(1,2,4) this]
  obtain w2 where rec: "evm_rpc_call env ?chain ''eth_getTransactionReceipt'' (JArr [JStr tx]) w1 = (Inl (NetworkError ''null result''), w2)"
    "nt_log w2 = l1 @ [Post url ?rec]"
    by (auto simp: set_chain_breaker_def)
  have "wait_for_receipt env ?chain tx w1 = (Inl (NetworkError ''null result''), w2)"
    by (simp add: wait_for_receipt_once [OF null] bindA_def rec)
  then have "wormhole_lock env params w = (Inl (NetworkError ''null result''), w2)"
    using ids send node by (simp add: wormhole_lock_def bindA_def liftR_def getsA_def tryA_def str_or_def)
  then show ?thesis using that [of w2 "Post url ?send"] rec(2) by (simp add: l1_def)
qed

text \<open>
  A lock never waits for its transaction: since the decoder reads a null result as an absent one, a
  lock makes at most two requests, the receipt is asked for at most once and there is no pause, although
  the code means to poll 20 times. When the node has accepted the transaction and it is not yet in a block, the
  lock is reported as failed.
\<close>

theorem lock_never_waits:
  assumes "null_is_none env" and "wormhole_lock env params w = (r, w')"
  shows "\<exists>evs. nt_log w' = nt_log w @ evs \<and> length evs \<le> 2 \<and> list_all (\<lambda>ev. \<not> pauses ev) evs"
  using emitsD [OF emits_wormhole_lock [OF assms(1)] assms(2)] by (metis filter_True)

section \<open>Calldata\<close>

lemma transfer_tokens_parts:
  assumes "hex_decode (strip_0x token) = Some tb" and "hex_decode (strip_0x recipient) = Some rb" and "length rb \<le> 32"
  shows "encode_transfer_tokens hex_decode nonce token amount dest recipient =
    TRANSFER_TOKENS_SELECTOR @ concat [replicate 12 0 @ tb, replicate 24 0 @ be_bytes 8 (unat amount), replicate 30 0 @ be_bytes 2 (unat dest),
      replicate (32 - length rb) 0 @ rb, replicate 32 0, replicate 28 0 @ be_bytes 4 (unat nonce)]"
  using assms by (simp add: encode_transfer_tokens_def Let_def min_absorb1)

lemma whole_words: "(64 + (n + (32 - n mod 32) mod 32)) mod 32 = (0 :: nat)"
proof (cases "n mod 32 = 0")
  case False
  then have "(32 - n mod 32) mod 32 = 32 - n mod 32" by simp
  moreover have "n + (32 - n mod 32) = 32 * (n div 32) + 32"
    using mod_less_divisor [of 32 n] mult_div_mod_eq [of 32 n] by linarith
  ultimately show ?thesis by simp
qed (simp add: mod_add_eq [of 64 32 n, symmetric])

lemma complete_transfer_decodes:
  assumes "length vaa_bytes < 2 ^ 64"
  shows "abi_bytes (encode_complete_transfer vaa_bytes) 0 = Some vaa_bytes"
proof -
  let ?pad = "replicate ((32 - length vaa_bytes mod 32) mod 32) 0"
  have e: "encode_complete_transfer vaa_bytes = COMPLETE_TRANSFER_SELECTOR @ (replicate 31 0 @ [0x20])
      @ (replicate 24 0 @ be_bytes 8 (length vaa_bytes)) @ vaa_bytes @ ?pad" by (simp add: encode_complete_transfer_def)
  have off: "abi_word (encode_complete_transfer vaa_bytes) 0 = 32"
    by (simp add: e abi_word_def COMPLETE_TRANSFER_SELECTOR_def of_be_bytes_pad) (simp add: of_be_bytes_def)
  have len: "of_be_bytes (take 32 (drop 36 (encode_complete_transfer vaa_bytes))) = length vaa_bytes"
    using assms by (simp add: e COMPLETE_TRANSFER_SELECTOR_def of_be_bytes_pad of_be_bytes_be_bytes)
  have "take (length vaa_bytes) (drop 68 (encode_complete_transfer vaa_bytes)) = vaa_bytes"
    by (simp add: e COMPLETE_TRANSFER_SELECTOR_def)
  then show ?thesis using off len by (simp add: abi_bytes_def e COMPLETE_TRANSFER_SELECTOR_def)
qed

text \<open>
  The calldata the adapter builds is what the Token Bridge decodes: for a token given by an address of 20 bytes
  and a recipient of at most 32 bytes, the six words of \<open>transferTokens\<close> are the token, the amount, the
  destination chain, the recipient, no fee and the nonce; for a token of any other length the words are
  shifted and the length is not that of six words. The argument of \<open>completeTransfer\<close> decodes to the
  signed message, padded to a whole number of words.
\<close>

theorem wormhole_calldata_decodes:
  assumes "hex_decode (strip_0x token) = Some tb" and "hex_decode (strip_0x recipient) = Some rb" and "length rb \<le> 32"
    and "length vaa_bytes < 2 ^ 64"
  shows "length (encode_transfer_tokens hex_decode nonce token amount dest recipient) = 4 + 32 * 6 + length tb - 20 \<and>
    (length tb = 20 \<longrightarrow> map (abi_word (encode_transfer_tokens hex_decode nonce token amount dest recipient)) [0..<6] =
       [of_be_bytes tb, unat amount, unat dest, of_be_bytes rb, 0, unat nonce]) \<and>
    abi_bytes (encode_complete_transfer vaa_bytes) 0 = Some vaa_bytes \<and> (length (encode_complete_transfer vaa_bytes) - 4) mod 32 = 0"
proof -
  note parts = transfer_tokens_parts [where hex_decode = hex_decode, OF assms(1,2,3)]
  let ?ws = "[replicate 12 0 @ tb, replicate 24 0 @ be_bytes 8 (unat amount), replicate 30 0 @ be_bytes 2 (unat dest),
      replicate (32 - length rb) 0 @ rb, replicate 32 0, replicate 28 0 @ be_bytes 4 (unat nonce)]"
  have "length (encode_transfer_tokens hex_decode nonce token amount dest recipient) = 4 + 32 * 6 + length tb - 20"
    using assms(3) by (simp add: parts TRANSFER_TOKENS_SELECTOR_def)
  moreover have "map (abi_word (encode_transfer_tokens hex_decode nonce token amount dest recipient)) [0..<6] =
       [of_be_bytes tb, unat amount, unat dest, of_be_bytes rb, 0, unat nonce]" if "length tb = 20"
  proof -
    have "map (abi_word (TRANSFER_TOKENS_SELECTOR @ concat ?ws)) [0..<length ?ws] = map of_be_bytes ?ws"
      using that assms(3) by (intro abi_words_concat) (auto simp: TRANSFER_TOKENS_SELECTOR_def)
    moreover have "map of_be_bytes ?ws = [of_be_bytes tb, unat amount, unat dest, of_be_bytes rb, 0, unat nonce]"
      by (simp add: of_be_bytes_pad of_be_bytes_word)
    moreover have "length ?ws = 6" by simp
    ultimately show ?thesis by (simp only: parts)
  qed
  moreover have "abi_bytes (encode_complete_transfer vaa_bytes) 0 = Some vaa_bytes"
    using assms(4) by (rule complete_transfer_decodes)
  moreover have "(length (encode_complete_transfer vaa_bytes) - 4) mod 32 = 0"
    using whole_words [of "length vaa_bytes"] by (simp add: encode_complete_transfer_def COMPLETE_TRANSFER_SELECTOR_def)
  ultimately show ?thesis by blast
qed

section \<open>Witnesses\<close>

text \<open>A hex decoder for the examples: two digits per byte.\<close>

definition nibble :: "char \<Rightarrow> nat" where
  "nibble c = (let n = of_char c in if n \<le> 57 then n - 48 else n - 87)"

fun sample_unhex :: "string \<Rightarrow> bytes option" where
  "sample_unhex [] = Some []"
| "sample_unhex [c] = None"
| "sample_unhex (c # d # cs) = map_option (Cons (word_of_nat (16 * nibble c + nibble d))) (sample_unhex cs)"

definition sample_tx :: string where
  "sample_tx = ''0x'' @ replicate 64 (CHR ''a'')"

definition sample_net_env :: net_env where
  "sample_net_env =
     \<lparr>ne_post = (\<lambda>l url body. Inr \<lparr>rr_result = (if json_get ''method'' body = Some (JStr ''eth_sendTransaction'') then Some (JStr sample_tx) else None), rr_error = None\<rparr>),
      ne_get = (\<lambda>l url. Inl (SendError ''offline'')), ne_now = (\<lambda>l. 0), ne_random = (\<lambda>l. 0), ne_show_json = (\<lambda>j. []),
      ne_hex_encode = sample_hex, ne_hex_decode = sample_unhex\<rparr>"

definition sample_params :: bridge_transfer_params where
  "sample_params = \<lparr>bp_source_chain = ''ethereum'', bp_dest_chain = ''polygon'', bp_token = replicate 40 (CHR ''1''), bp_amount = 5,
     bp_sender = ''alice'', bp_recipient = replicate 40 (CHR ''2'')\<rparr>"

definition sample_wormhole :: net where
  "sample_wormhole = with_chain_rpc ''ethereum'' ''http://eth'' (WormholeBridge_new ''http://guardian'')"

theorem wormhole_message_id_roundtrip_witness:
  "parse_message_id (message_id 2 ''ab'' 7) = Some (2, ''ab'', 7)"
  using wormhole_message_id_roundtrip [of "''ab''" 2 7] by simp

theorem lock_never_waits_witness:
  "\<exists>w' evs. wormhole_lock sample_net_env sample_params sample_wormhole = (Inl (NetworkError ''null result''), w') \<and>
     nt_log w' = evs \<and> length evs = 2 \<and> sends_tx (evs ! 0) \<and> list_all (\<lambda>ev. \<not> pauses ev) evs"
proof -
  have null: "null_is_none sample_net_env" by (simp add: null_is_none_def sample_net_env_def)
  have "pending_node sample_net_env ''http://eth'' sample_tx" by (simp add: pending_node_def sample_net_env_def)
  moreover have "is_tx_hash sample_tx" by (simp add: is_tx_hash_def sample_tx_def starts_with_def)
  ultimately obtain w' send where w': "wormhole_lock sample_net_env sample_params sample_wormhole = (Inl (NetworkError ''null result''), w')" "sends_tx send"
    "nt_log w' = nt_log sample_wormhole @ [send, Post ''http://eth'' (rpc_body ''eth_getTransactionReceipt'' (JArr [JStr sample_tx]))]"
    by (rule pending_lock_fails [OF null, where params = sample_params and w = sample_wormhole and b = CircuitBreaker_new])
       (auto simp: supports_route_def chain_id_def sample_params_def sample_wormhole_def with_chain_rpc_def, simp add: CircuitBreaker_new_def)
  have "nt_log sample_wormhole = []" by (simp add: sample_wormhole_def with_chain_rpc_def WormholeBridge_new_def)
  then show ?thesis using w' lock_never_waits [OF null w'(1)] by auto
qed

theorem wormhole_calldata_decodes_witness:
  "map (abi_word (encode_transfer_tokens sample_unhex 9 (replicate 40 (CHR ''1'')) 5 2 (replicate 40 (CHR ''2'')))) [0..<6]
     = [of_be_bytes (replicate 20 0x11), 5, 2, of_be_bytes (replicate 20 0x22), 0, 9]"
proof -
  have hex: "sample_unhex (strip_0x (replicate 40 (CHR ''1''))) = Some (replicate 20 0x11)"
    "sample_unhex (strip_0x (replicate 40 (CHR ''2''))) = Some (replicate 20 0x22)"
    by (simp_all add: strip_0x_def starts_with_def numeral_eq_Suc nibble_def)
  show ?thesis using wormhole_calldata_decodes [OF hex, of "[]" 9 5 2] by simp
qed

text \<open>Guardians that have signed message 42 with a quorum, and a node that accepts every call.\<close>

definition signed_message :: bytes where
  "signed_message = build_vaa 13 2 (replicate 32 7) 42 [1, 2]"

definition release_env :: net_env where
  "release_env = sample_net_env\<lparr>ne_post := (\<lambda>l url body. Inr \<lparr>rr_result = Some (JStr sample_tx), rr_error = None\<rparr>),
     ne_get := (\<lambda>l url. Inr (200, base64_encode signed_message))\<rparr>"

definition release_decode :: guardian_decoder where
  "release_decode body = Inr \<lparr>gr_data = Some (Some body), gr_message = None, gr_code = None\<rparr>"

definition release_net :: net where
  "release_net = with_chain_rpc ''polygon'' ''http://polygon'' sample_wormhole"

lemma closed_api_call:
  assumes "cb_state (snd (nt_api_breaker w)) = Closed" and "ne_get env (nt_log w) url = Inr pair"
  obtains w' where "api_call env prefix url w = (Inr pair, w')" "nt_log w' = nt_log w @ [HttpGet url]"
    "cb_state (snd (nt_api_breaker w')) = Closed" "nt_api_url w' = nt_api_url w"
    "nt_chain_rpcs w' = nt_chain_rpcs w" "nt_chain_breakers w' = nt_chain_breakers w"
proof -
  have "set_api_breaker (snd (nt_api_breaker w)) w = w" by (simp add: set_api_breaker_def)
  then have "api_call env prefix url w = (Inr pair, set_api_breaker (record_success (ne_now env (nt_log w @ [HttpGet url])) (snd (nt_api_breaker w)))
      (w\<lparr>nt_log := nt_log w @ [HttpGet url]\<rparr>))"
    using assms by (simp add: api_call_def closed_breaker_call get_api_def)
  then show ?thesis using that assms(1) by (simp add: set_api_breaker_def record_success_closed)
qed

lemma accepted_rpc_call:
  assumes "nt_chain_rpcs w chain = Some url" and "nt_chain_breakers w chain = Some (cf, b)" and "cb_state b = Closed"
  obtains w' b' where "evm_rpc_call release_env chain meth params w = (Inr (JStr sample_tx), w')"
    "nt_log w' = nt_log w @ [Post url (rpc_body meth params)]" "nt_chain_rpcs w' = nt_chain_rpcs w"
    "nt_chain_breakers w' chain = Some (cf, b')" "cb_state b' = Closed"
proof -
  have "post_rpc release_env url (rpc_body meth params) w = (Inr (JStr sample_tx), w\<lparr>nt_log := nt_log w @ [Post url (rpc_body meth params)]\<rparr>)"
    by (simp add: post_rpc_def release_env_def)
  from closed_rpc_call [OF assms this] show ?thesis
    by (rule that [where b' = "record_success (ne_now release_env (nt_log w @ [Post url (rpc_body meth params)])) b"])
       (use assms in \<open>simp_all add: set_chain_breaker_def record_success_closed\<close>)
qed

lemma submits_at_once:
  assumes "nt_chain_rpcs w chain = Some url" and "nt_chain_breakers w chain = Some (cf, b)" and "cb_state b = Closed"
  obtains w' where "submit_attempts release_env chain bridge data attempt (Suc n) e w = (Inr sample_tx, w')"
    "nt_log w' = nt_log w @ [Post url (rpc_body ''eth_call'' (JArr [JObj [(''to'', JStr bridge), (''data'', data)], JStr ''latest''])),
       Post url (rpc_body ''eth_sendTransaction'' (JArr [JObj [(''to'', JStr bridge), (''data'', data)]]))]"
proof -
  obtain w1 b1 where w1: "evm_rpc_call release_env chain ''eth_call'' (JArr [JObj [(''to'', JStr bridge), (''data'', data)], JStr ''latest'']) w = (Inr (JStr sample_tx), w1)"
    "nt_log w1 = nt_log w @ [Post url (rpc_body ''eth_call'' (JArr [JObj [(''to'', JStr bridge), (''data'', data)], JStr ''latest'']))]"
    "nt_chain_rpcs w1 = nt_chain_rpcs w" "nt_chain_breakers w1 chain = Some (cf, b1)" "cb_state b1 = Closed"
    using accepted_rpc_call [OF assms] by blast
  obtain w2 b2 where w2: "evm_rpc_call release_env chain ''eth_sendTransaction'' (JArr [JObj [(''to'', JStr bridge), (''data'', data)]]) w1 = (Inr (JStr sample_tx), w2)"
    "nt_log w2 = nt_log w1 @ [Post url (rpc_body ''eth_sendTransaction'' (JArr [JObj [(''to'', JStr bridge), (''data'', data)]]))]"
    using accepted_rpc_call [of w1 chain url cf b1] w1(3-5) assms(1) by metis
  have "is_tx_hash sample_tx" by (simp add: is_tx_hash_def sample_tx_def starts_with_def)
  then show ?thesis using that [of w2] w1 w2 by (simp add: bindA_def tryA_def str_or_def returnA_def)
qed

theorem release_sends_quorum_only_witness:
  "\<exists>w'. wormhole_release release_env release_decode sample_params (message_id 2 ''ab'' 42) release_net = (Inr sample_tx, w') \<and>
     length (nt_log w') = 3 \<and> sends_tx (nt_log w' ! 2) \<and> redeems_quorum release_env release_decode release_net ''polygon'' (message_id 2 ''ab'' 42) (nt_log w' ! 2)"
proof -
  obtain v where v: "parse_vaa sample_hex signed_message = Inr v" "verify_vaa v = Some (Inr ())"
    using parse_built_vaa [of "replicate 32 7" sample_hex 13 2 42 "[1, 2]"] by (auto simp: signed_message_def)
  obtain w1 where w1: "api_call release_env ''read body: '' (vaa_url release_net 2 ''ab'' 42) release_net = (Inr (200, base64_encode signed_message), w1)"
      "nt_log w1 = [HttpGet (vaa_url release_net 2 ''ab'' 42)]" "nt_chain_rpcs w1 = nt_chain_rpcs release_net" "nt_chain_breakers w1 = nt_chain_breakers release_net"
    by (rule closed_api_call [of release_net release_env])
       (simp_all add: release_net_def sample_wormhole_def with_chain_rpc_def WormholeBridge_new_def release_env_def CircuitBreaker_new_def)
  have chain: "nt_chain_rpcs w1 ''polygon'' = Some ''http://polygon''"
      "nt_chain_breakers w1 ''polygon'' = Some (CircuitBreakerConfig_new ''wormhole_polygon_rpc'' 5 30, CircuitBreaker_new)"
    by (simp_all add: w1 release_net_def with_chain_rpc_def)
  obtain bridge where bridge: "token_bridge ''polygon'' = Some bridge" by (simp add: token_bridge_def)
  let ?data = "hex_data release_env (encode_complete_transfer (va_bytes v))"
  obtain w2 where w2: "submit_attempts release_env ''polygon'' bridge ?data 0 (Suc 4) [] w1 = (Inr sample_tx, w2)"
      "nt_log w2 = nt_log w1 @ [Post ''http://polygon'' (rpc_body ''eth_call'' (JArr [JObj [(''to'', JStr bridge), (''data'', ?data)], JStr ''latest''])),
       Post ''http://polygon'' (rpc_body ''eth_sendTransaction'' (JArr [JObj [(''to'', JStr bridge), (''data'', ?data)]]))]"
    by (rule submits_at_once [OF chain, of bridge ?data 0 4 "[]"]) (simp add: CircuitBreaker_new_def)
  have "parse_message_id (message_id 2 ''ab'' 42) = Some (2, ''ab'', 42)" by (rule wormhole_message_id_roundtrip) simp
  moreover have "fetch_vaa release_env release_decode 2 ''ab'' 42 release_net = (Inr v, w1)"
  proof -
    have "read_vaa release_env (base64_encode signed_message) = Inr v"
      using v(1) by (simp add: read_vaa_def base64_roundtrip release_env_def sample_net_env_def)
    then have "poll_vaa release_env release_decode (vaa_url release_net 2 ''ab'' 42) 0 (Suc 29) ''VAA not available'' release_net = (Inr v, w1)"
      unfolding poll_vaa.simps using w1(1) by (simp add: bindA_def tryA_def http_ok_def release_decode_def liftR_def)
    then show ?thesis by (simp add: fetch_vaa_def bindA_def getsA_def VAA_POLL_MAX_RETRIES_def)
  qed
  ultimately have run: "wormhole_release release_env release_decode sample_params (message_id 2 ''ab'' 42) release_net = (Inr sample_tx, w2)"
    using v bridge w2(1)
    by (simp add: wormhole_release_def bindA_def liftR_def seqA_def checked_vaa_def sample_params_def submit_vaa_to_destination_def DEST_SUBMIT_MAX_RETRIES_def)
  have "nt_log release_net = []" by (simp add: release_net_def sample_wormhole_def with_chain_rpc_def WormholeBridge_new_def)
  moreover have "sends_tx (nt_log w2 ! 2)" by (simp add: w1 w2) 
  ultimately show ?thesis
    using run w1(2) w2(2) release_sends_quorum_only [OF run] by (auto simp: sample_params_def)
qed

end
