(* ===== verification/Layerzero.thy ===== *)
theory Layerzero
  imports Wormhole
begin

text \<open>
  The LayerZero adapter (src/cross_chain/layerzero.rs): sending through the OFT contract of the source chain,
  following the message with the Scan API, and retrying a failed delivery at the endpoint. Its JSON-RPC
  functions are copies of those of the Wormhole adapter; they appear here under their own names.
\<close>

section \<open>Constants and tables\<close>

definition OFT_ETHEREUM :: string where "OFT_ETHEREUM = ''0x1a44076050125825900e736c501f859c50fE728c''"
definition OFT_POLYGON :: string where "OFT_POLYGON = ''0x1a44076050125825900e736c501f859c50fE728c''"
definition OFT_ARBITRUM :: string where "OFT_ARBITRUM = ''0x1a44076050125825900e736c501f859c50fE728c''"
definition OFT_BASE :: string where "OFT_BASE = ''0x1a44076050125825900e736c501f859c50fE728c''"
definition LZ_ENDPOINT_V2 :: string where "LZ_ENDPOINT_V2 = ''0x1a44076050125825900e736c501f859c50fE728c''"
definition OFT_SEND_SELECTOR :: bytes where "OFT_SEND_SELECTOR = [0xc7, 0xc7, 0xf5, 0xb3]"
definition ENDPOINT_RETRY_SELECTOR :: bytes where "ENDPOINT_RETRY_SELECTOR = [0x52, 0xae, 0x28, 0x59]"
definition PACKET_SENT_TOPIC :: string where
  "PACKET_SENT_TOPIC = ''0xac8e4bc3e8da15fbfbb110aa771c47ec31ea2bdc3c9b6217e5ae42440db52e8c''"
definition MSG_POLL_MAX_RETRIES :: nat where "MSG_POLL_MAX_RETRIES = 30"
definition MSG_POLL_INITIAL_DELAY_MS :: u64 where "MSG_POLL_INITIAL_DELAY_MS = 2000"
definition MSG_POLL_MAX_DELAY_MS :: u64 where "MSG_POLL_MAX_DELAY_MS = 30000"
definition DEST_RETRY_MAX_ATTEMPTS :: nat where "DEST_RETRY_MAX_ATTEMPTS = 5"
definition DEST_RETRY_INITIAL_DELAY_MS :: u64 where "DEST_RETRY_INITIAL_DELAY_MS = 1000"

record lz_message =
  lm_guid :: string
  lm_src_eid :: u32
  lm_dst_eid :: u32
  lm_nonce :: u64

datatype scan_status = Inflight | Delivered | ScanFailed | Blocked | Confirming

record scan_message =
  sm_status :: "scan_status option"
  sm_dst_tx_hash :: "string option"
  sm_src_eid :: "u32 option"
  sm_dst_eid :: "u32 option"
  sm_guid :: "string option"

text \<open>The \<open>data\<close> of an answer of the Scan API; decoding the body is an argument.\<close>

type_synonym scan_decoder = "string \<Rightarrow> string + scan_message list option"

definition LayerZeroBridge_new :: "string \<Rightarrow> net" where
  "LayerZeroBridge_new scan_api =
     \<lparr>nt_api_url = trim_end (CHR ''/'') scan_api, nt_api_breaker = (layerzero_api, CircuitBreaker_new), nt_chain_rpcs = Map.empty,
      nt_chain_breakers = Map.empty, nt_log = []\<rparr>"

definition lz_with_chain_rpc :: "string \<Rightarrow> string \<Rightarrow> net \<Rightarrow> net" where
  "lz_with_chain_rpc chain rpc_url w =
     w\<lparr>nt_chain_breakers := (nt_chain_breakers w)(chain \<mapsto> (CircuitBreakerConfig_new (''layerzero_'' @ chain @ ''_rpc'') 5 30, CircuitBreaker_new)),
       nt_chain_rpcs := (nt_chain_rpcs w)(chain \<mapsto> rpc_url)\<rparr>"

definition endpoint_id :: "string \<Rightarrow> u32 option" where
  "endpoint_id chain =
     (if chain = ''ethereum'' then Some 30101 else if chain = ''polygon'' then Some 30109
      else if chain = ''arbitrum'' then Some 30110 else if chain = ''base'' then Some 30184 else None)"

definition oft_address :: "string \<Rightarrow> string option" where
  "oft_address chain =
     (if chain = ''ethereum'' then Some OFT_ETHEREUM else if chain = ''polygon'' then Some OFT_POLYGON
      else if chain = ''arbitrum'' then Some OFT_ARBITRUM else if chain = ''base'' then Some OFT_BASE else None)"

definition lz_message_id :: "u32 \<Rightarrow> u32 \<Rightarrow> string \<Rightarrow> string" where
  "lz_message_id src_eid dst_eid guid = ''lz/'' @ show_nat (unat src_eid) @ ''/'' @ show_nat (unat dst_eid) @ ''/'' @ guid"

definition lz_parse_message_id :: "string \<Rightarrow> (u32 \<times> u32 \<times> string) option" where
  "lz_parse_message_id mid =
     (case splitn 4 (CHR ''/'') mid of
        [p0, p1, p2, p3] \<Rightarrow>
          if p0 \<noteq> ''lz'' then None
          else (case (parse_uint 32 p1, parse_uint 32 p2) of
                  (Some src, Some dst) \<Rightarrow> Some (word_of_nat src, word_of_nat dst, p3)
                | _ \<Rightarrow> None)
      | _ \<Rightarrow> None)"

section \<open>JSON-RPC\<close>

definition lz_evm_rpc_call :: "net_env \<Rightarrow> string \<Rightarrow> string \<Rightarrow> json \<Rightarrow> json net_action" where
  "lz_evm_rpc_call = evm_rpc_call"

definition lz_evm_get_receipt :: "net_env \<Rightarrow> string \<Rightarrow> string \<Rightarrow> json option net_action" where
  "lz_evm_get_receipt env chain tx_hash =
     bindA (lz_evm_rpc_call env chain ''eth_getTransactionReceipt'' (JArr [JStr tx_hash])) (\<lambda>result.
     returnA (if result = JNull then None else Some result))"

definition lz_backoff_delay :: "u64 \<Rightarrow> nat \<Rightarrow> u64 \<Rightarrow> u64 \<Rightarrow> u64" where
  "lz_backoff_delay random attempt initial_ms max_ms =
     (let base = initial_ms * push_bit (min attempt 6) 1;
          jitter = random mod (base div 4 + 1)
      in min (base + jitter) max_ms)"

definition lz_pause :: "net_env \<Rightarrow> nat \<Rightarrow> u64 \<Rightarrow> u64 \<Rightarrow> (net, 'e, unit) action" where
  "lz_pause env attempt initial_ms max_ms =
     bindA (getsA nt_log) (\<lambda>log. sleep_ms (lz_backoff_delay (ne_random env log) attempt initial_ms max_ms))"

fun lz_await_receipt :: "net_env \<Rightarrow> string \<Rightarrow> string \<Rightarrow> nat \<Rightarrow> nat \<Rightarrow> json net_action" where
  "lz_await_receipt env chain tx_hash attempt 0 =
     raiseA (LockFailed (''Receipt not found after 20 attempts for '' @ tx_hash))"
| "lz_await_receipt env chain tx_hash attempt (Suc n) =
     bindA (lz_evm_get_receipt env chain tx_hash) (\<lambda>r.
     case r of
       Some receipt \<Rightarrow>
         if str_or ''0x0'' (json_get ''status'' receipt) = ''0x0'' then raiseA (LockFailed ''Source tx reverted'')
         else returnA receipt
     | None \<Rightarrow> seqA (lz_pause env attempt 2000 15000) (lz_await_receipt env chain tx_hash (Suc attempt) n))"

definition lz_wait_for_receipt :: "net_env \<Rightarrow> string \<Rightarrow> string \<Rightarrow> json net_action" where
  "lz_wait_for_receipt env chain tx_hash = lz_await_receipt env chain tx_hash 0 20"

section \<open>Sending\<close>

definition encode_oft_send :: "(string \<Rightarrow> bytes option) \<Rightarrow> u32 \<Rightarrow> string \<Rightarrow> u64 \<Rightarrow> bytes" where
  "encode_oft_send hex_decode dst_eid recipient amount =
     (let recip_bytes = (case hex_decode (strip_0x recipient) of Some bs \<Rightarrow> bs | None \<Rightarrow> []);
          min_amount = amount * 99 div 100;
          options_offset = 7 * 32;
          compose_offset = options_offset + 64;
          oft_offset = compose_offset + 32
      in OFT_SEND_SELECTOR
         @ (replicate 31 0 @ [0x20])
         @ (replicate 28 0 @ be_bytes 4 (unat dst_eid))
         @ left_pad recip_bytes
         @ (replicate 24 0 @ be_bytes 8 (unat amount))
         @ (replicate 24 0 @ be_bytes 8 (unat min_amount))
         @ (replicate 24 0 @ be_bytes 8 options_offset)
         @ (replicate 24 0 @ be_bytes 8 compose_offset)
         @ (replicate 24 0 @ be_bytes 8 oft_offset)
         @ replicate 32 0 @ replicate 32 0 @ replicate 32 0)"

definition parse_packet_log :: "net_env \<Rightarrow> json \<Rightarrow> lz_message option option" where
  "parse_packet_log env entry =
     (case Option.bind (json_get ''topics'' entry) as_array of
        None \<Rightarrow> Some None
      | Some topics \<Rightarrow>
          if topics = [] then None
          else if str_or [] (Some (topics ! 0)) \<noteq> PACKET_SENT_TOPIC then None
          else
            case json_get ''data'' entry of
              None \<Rightarrow> Some None
            | Some data \<Rightarrow>
                let data = (case ne_hex_decode env (strip_0x (str_or [] (Some data))) of Some bs \<Rightarrow> bs | None \<Rightarrow> []) in
                if length data < 96 then None
                else let packet = drop 64 data in
                if length packet < 81 then None
                else
                  let nonce = of_be_bytes (take 8 (drop 1 packet));
                      src_eid = of_be_bytes (take 4 (drop 9 packet));
                      dst_eid = of_be_bytes (take 4 (drop 45 packet))
                  in Some (Some \<lparr>lm_guid = hex_padded 16 nonce @ hex_padded 8 src_eid @ hex_padded 8 dst_eid
                             @ ne_hex_encode env (take 32 (drop 13 packet)),
                       lm_src_eid = word_of_nat src_eid, lm_dst_eid = word_of_nat dst_eid, lm_nonce = word_of_nat nonce\<rparr>))"

definition parse_packet_sent :: "net_env \<Rightarrow> json \<Rightarrow> lz_message option" where
  "parse_packet_sent env receipt =
     (case Option.bind (json_get ''logs'' receipt) as_array of
        None \<Rightarrow> None
      | Some logs \<Rightarrow> search_logs (parse_packet_log env) logs)"

definition lz_get_bridge_time :: "string \<Rightarrow> string \<Rightarrow> bridge_time" where
  "lz_get_bridge_time source dest =
     (let source_finality = (if source = ''ethereum'' then 780 else if source = ''polygon'' then 128
        else if source = ''arbitrum'' then 10 else if source = ''base'' then 10 else 60)
      in \<lparr>bt_min_secs = source_finality + 5, bt_typical_secs = source_finality + 30, bt_max_secs = source_finality + 300\<rparr>)"

definition lz_supports_route :: "string \<Rightarrow> string \<Rightarrow> bool" where
  "lz_supports_route source dest \<longleftrightarrow> endpoint_id source \<noteq> None \<and> endpoint_id dest \<noteq> None \<and> source \<noteq> dest"

definition layerzero_lock :: "net_env \<Rightarrow> bridge_transfer_params \<Rightarrow> lock_receipt net_action" where
  "layerzero_lock env params =
     bindA (liftR (ok_or (endpoint_id (bp_source_chain params)) (UnsupportedRoute (bp_source_chain params)))) (\<lambda>src_eid.
     bindA (liftR (ok_or (endpoint_id (bp_dest_chain params)) (UnsupportedRoute (bp_dest_chain params)))) (\<lambda>dst_eid.
     bindA (liftR (ok_or (oft_address (bp_source_chain params)) (UnsupportedRoute (bp_source_chain params)))) (\<lambda>oft_addr.
     bindA (tryA (lz_evm_rpc_call env (bp_source_chain params) ''eth_sendTransaction''
        (JArr [JObj [(''from'', JStr (bp_sender params)), (''to'', JStr oft_addr),
           (''data'', hex_data env (encode_oft_send (ne_hex_decode env) dst_eid (bp_recipient params) (bp_amount params)))]]))) (\<lambda>r.
     case r of
       Inl e \<Rightarrow> raiseA (LockFailed (bridge_error_text e))
     | Inr val \<Rightarrow>
         let tx_hash = str_or [] (Some val) in
         if \<not> is_tx_hash tx_hash then raiseA (LockFailed (''Invalid tx hash: '' @ tx_hash))
         else
           bindA (lz_wait_for_receipt env (bp_source_chain params) tx_hash) (\<lambda>receipt.
           bindA (getsA nt_log) (\<lambda>log.
           let lz_msg = (case parse_packet_sent env receipt of
                 Some msg \<Rightarrow> msg
               | None \<Rightarrow> \<lparr>lm_guid = hex_padded 16 (unat (ne_random env log)), lm_src_eid = src_eid, lm_dst_eid = dst_eid, lm_nonce = 0\<rparr>)
           in returnA \<lparr>lr_tx_hash = tx_hash, lr_message_id = lz_message_id (lm_src_eid lz_msg) (lm_dst_eid lz_msg) (lm_guid lz_msg),
                lr_estimated_finality_secs = bt_typical_secs (lz_get_bridge_time (bp_source_chain params) (bp_dest_chain params))\<rparr>))))))"

section \<open>The Scan API\<close>

definition query_scan_by_tx :: "net_env \<Rightarrow> scan_decoder \<Rightarrow> string \<Rightarrow> scan_message option net_action" where
  "query_scan_by_tx env decode tx_hash =
     bindA (getsA (\<lambda>w. nt_api_url w @ ''/v1/messages/tx'' @ ''/'' @ tx_hash)) (\<lambda>url.
     bindA (tryA (api_call env ''read body: '' url)) (\<lambda>r.
     case r of
       Inl (CircuitOpen breaker _) \<Rightarrow> raiseA (NetworkError (''scan circuit open: '' @ breaker))
     | Inl (CircuitInner e) \<Rightarrow> raiseA e
     | Inr (status, body) \<Rightarrow>
         if status = 404 then returnA None
         else if \<not> http_ok status then raiseA (NetworkError (''Scan API HTTP '' @ show_nat status))
         else
           (case decode body of
              Inl e \<Rightarrow> raiseA (NetworkError (''scan parse: '' @ e))
            | Inr (Some (msg # _)) \<Rightarrow> returnA (Some msg)
            | Inr _ \<Rightarrow> returnA None)))"

fun poll_delivery :: "net_env \<Rightarrow> scan_decoder \<Rightarrow> string \<Rightarrow> nat \<Rightarrow> nat \<Rightarrow> string \<Rightarrow> scan_message net_action" where
  "poll_delivery env decode tx_hash attempt 0 last_status =
     raiseA (VerificationFailed (''Message not delivered after '' @ show_nat MSG_POLL_MAX_RETRIES @ '' attempts (last: '' @ last_status @ '')''))"
| "poll_delivery env decode tx_hash attempt (Suc n) last_status =
     bindA (tryA (query_scan_by_tx env decode tx_hash)) (\<lambda>r.
     let wait = (\<lambda>last_status. seqA (lz_pause env attempt MSG_POLL_INITIAL_DELAY_MS MSG_POLL_MAX_DELAY_MS)
                   (poll_delivery env decode tx_hash (Suc attempt) n last_status)) in
     case r of
       Inr (Some msg) \<Rightarrow>
         (case sm_status msg of
            Some Delivered \<Rightarrow> returnA msg
          | Some ScanFailed \<Rightarrow> returnA msg
          | Some Blocked \<Rightarrow> wait ''BLOCKED''
          | Some Inflight \<Rightarrow> wait ''INFLIGHT''
          | Some Confirming \<Rightarrow> wait ''INFLIGHT''
          | None \<Rightarrow> wait ''unknown'')
     | Inr None \<Rightarrow> wait ''not_indexed''
     | Inl e \<Rightarrow> wait (bridge_error_text e))"

definition poll_message_delivery :: "net_env \<Rightarrow> scan_decoder \<Rightarrow> string \<Rightarrow> scan_message net_action" where
  "poll_message_delivery env decode tx_hash = poll_delivery env decode tx_hash 0 MSG_POLL_MAX_RETRIES ''unknown''"

definition or_none :: "'a \<Rightarrow> 'a option \<Rightarrow> 'a" where
  "or_none d x = (case x of Some y \<Rightarrow> y | None \<Rightarrow> d)"

definition layerzero_verify :: "net_env \<Rightarrow> scan_decoder \<Rightarrow> string \<Rightarrow> bridge_status net_action" where
  "layerzero_verify env decode tx_hash =
     bindA (tryA (query_scan_by_tx env decode tx_hash)) (\<lambda>r.
     case r of
       Inr (Some msg) \<Rightarrow>
         returnA (case sm_status msg of
            Some Delivered \<Rightarrow> BridgeCompleted (or_none [] (sm_dst_tx_hash msg))
          | Some ScanFailed \<Rightarrow> BridgeFailed ''LayerZero message failed (lzReceive reverted)''
          | Some Blocked \<Rightarrow> InTransit (''blocked_'' @ tx_hash)
          | Some _ \<Rightarrow> InTransit (lz_message_id (or_none 0 (sm_src_eid msg)) (or_none 0 (sm_dst_eid msg)) (or_none [] (sm_guid msg)))
          | None \<Rightarrow> BridgePending)
     | Inr None \<Rightarrow> returnA BridgePending
     | Inl e \<Rightarrow> returnA BridgePending)"

section \<open>Retrying and releasing\<close>

definition encode_retry :: "(string \<Rightarrow> bytes option) \<Rightarrow> string \<Rightarrow> u32 \<Rightarrow> u64 \<Rightarrow> bytes" where
  "encode_retry hex_decode oft_addr src_eid nonce =
     ENDPOINT_RETRY_SELECTOR
     @ left_pad (case hex_decode (strip_0x oft_addr) of Some bs \<Rightarrow> bs | None \<Rightarrow> [])
     @ (replicate 31 0 @ [0x40])
     @ (replicate 28 0 @ be_bytes 4 (unat src_eid))
     @ replicate 32 0
     @ (replicate 24 0 @ be_bytes 8 (unat nonce))
     @ replicate 32 0"

definition retry_retriable :: "string \<Rightarrow> bool" where
  "retry_retriable last_error =
     (let lower = map to_lower last_error in
      contains lower ''nonce'' \<or> contains lower ''underpriced'' \<or> contains lower ''timeout'' \<or> contains lower ''connection'')"

fun retry_attempts :: "net_env \<Rightarrow> string \<Rightarrow> json \<Rightarrow> nat \<Rightarrow> nat \<Rightarrow> string \<Rightarrow> string net_action" where
  "retry_attempts env dest_chain calldata_hex attempt 0 last_error =
     raiseA (ReleaseFailed (''Retry failed after '' @ show_nat DEST_RETRY_MAX_ATTEMPTS @ '' attempts: '' @ last_error))"
| "retry_attempts env dest_chain calldata_hex attempt (Suc n) last_error =
     (let again = (\<lambda>last_error. seqA (sleep_ms (DEST_RETRY_INITIAL_DELAY_MS * push_bit (min attempt 4) 1))
                     (retry_attempts env dest_chain calldata_hex (Suc attempt) n last_error)) in
      bindA (tryA (lz_evm_rpc_call env dest_chain ''eth_sendTransaction''
        (JArr [JObj [(''to'', JStr LZ_ENDPOINT_V2), (''data'', calldata_hex)]]))) (\<lambda>r.
      case r of
        Inr val \<Rightarrow>
          let tx_hash = str_or [] (Some val) in
          if is_tx_hash tx_hash then returnA tx_hash else again (''unexpected result: '' @ ne_show_json env val)
      | Inl e \<Rightarrow>
          let last_error = bridge_error_text e in
          if \<not> retry_retriable last_error then raiseA (ReleaseFailed last_error) else again last_error))"

definition retry_failed_message :: "net_env \<Rightarrow> string \<Rightarrow> string \<Rightarrow> u32 \<Rightarrow> string \<Rightarrow> u64 \<Rightarrow> string net_action" where
  "retry_failed_message env dest_chain oft_addr src_eid sender nonce =
     retry_attempts env dest_chain (hex_data env (encode_retry (ne_hex_decode env) oft_addr src_eid nonce)) 0 DEST_RETRY_MAX_ATTEMPTS []"

fun poll_release :: "net_env \<Rightarrow> scan_decoder \<Rightarrow> bridge_transfer_params \<Rightarrow> u32 \<Rightarrow> string \<Rightarrow> nat \<Rightarrow> nat \<Rightarrow> string \<Rightarrow> string net_action" where
  "poll_release env decode params src_eid scan_url attempt 0 last_error =
     raiseA (ReleaseFailed (''Delivery not confirmed after '' @ show_nat MSG_POLL_MAX_RETRIES @ '' poll attempts: '' @ last_error))"
| "poll_release env decode params src_eid scan_url attempt (Suc n) last_error =
     bindA (tryA (api_call env ''read: '' scan_url)) (\<lambda>r.
     let wait = (\<lambda>last_error. seqA (lz_pause env attempt MSG_POLL_INITIAL_DELAY_MS MSG_POLL_MAX_DELAY_MS)
                   (poll_release env decode params src_eid scan_url (Suc attempt) n last_error)) in
     case r of
       Inl (CircuitOpen breaker remaining_secs) \<Rightarrow>
         seqA (sleep_ms (min (word_of_int remaining_secs * 1000) MSG_POLL_MAX_DELAY_MS))
              (poll_release env decode params src_eid scan_url (Suc attempt) n last_error)
     | Inl (CircuitInner e) \<Rightarrow> wait (bridge_error_text e)
     | Inr (status, body) \<Rightarrow>
         (case (http_ok status, decode body) of
            (True, Inr (Some (msg # _))) \<Rightarrow>
              (case sm_status msg of
                 Some Delivered \<Rightarrow> returnA (or_none [] (sm_dst_tx_hash msg))
               | Some ScanFailed \<Rightarrow>
                   retry_failed_message env (bp_dest_chain params) (or_none OFT_ETHEREUM (oft_address (bp_dest_chain params)))
                     src_eid (bp_sender params) 0
               | _ \<Rightarrow> wait last_error)
          | _ \<Rightarrow> wait last_error))"

definition layerzero_release :: "net_env \<Rightarrow> scan_decoder \<Rightarrow> bridge_transfer_params \<Rightarrow> string \<Rightarrow> string net_action" where
  "layerzero_release env decode params mid =
     bindA (liftR (ok_or (lz_parse_message_id mid) (ReleaseFailed ''Invalid message ID''))) (\<lambda>(src_eid, dst_eid, guid).
     bindA (getsA (\<lambda>w. nt_api_url w @ ''/v1/messages'' @ ''/'' @ guid)) (\<lambda>scan_url.
     poll_release env decode params src_eid scan_url 0 MSG_POLL_MAX_RETRIES []))"

definition lz_estimate_bridge_fee :: "bridge_transfer_params \<Rightarrow> bridge_error + bridge_fee_estimate" where
  "lz_estimate_bridge_fee params =
     (let (source_fee, desc) =
        (if bp_source_chain params = ''ethereum'' then (300000000000000, ''~$0.80 (DVN + executor, ETH)'')
         else if bp_source_chain params = ''polygon'' then (50000000000000, ''~$0.02 (DVN + executor, Polygon)'')
         else if bp_source_chain params = ''arbitrum'' then (80000000000000, ''~$0.05 (DVN + executor, Arbitrum)'')
         else if bp_source_chain params = ''base'' then (50000000000000, ''~$0.02 (DVN + executor, Base)'')
         else (100000000000000, ''~$0.10 (DVN + executor)''))
      in Inr \<lparr>bf_source_fee = source_fee, bf_dest_fee = 0, bf_protocol_fee = 0, bf_total_description = desc @ '' + relayer''\<rparr>)"

section \<open>Properties\<close>

lemma lz_message_id_roundtrip: "lz_parse_message_id (lz_message_id src dst guid) = Some (src, dst, guid)"
proof -
  have "splitn 4 (CHR ''/'') (lz_message_id src dst guid) = [''lz'', show_nat (unat src), show_nat (unat dst), guid]"
    using splitn_part [of "CHR ''/''" "''lz''" 2 "show_nat (unat src) @ CHR ''/'' # show_nat (unat dst) @ CHR ''/'' # guid"]
      splitn_part [OF slash_free_show_nat, of 1] splitn_part [OF slash_free_show_nat, of 0]
    by (simp add: lz_message_id_def eval_nat_numeral del: splitn.simps(3))
  moreover have "unat x < 2 ^ 32" for x :: u32 using unsigned_less [of x, where 'a = nat] by simp
  ultimately show ?thesis by (simp add: lz_parse_message_id_def parse_uint_show_nat)
qed

text \<open>A dynamic field of a structure that is the only argument of a call, as a contract reads it.\<close>

definition abi_field_bytes :: "bytes \<Rightarrow> nat \<Rightarrow> bytes option" where
  "abi_field_bytes calldata i =
     (let start = 4 + abi_word calldata 0;
          pos = start + of_be_bytes (take 32 (drop (start + 32 * i) calldata))
      in if length calldata < pos + 32 then None
      else let len = of_be_bytes (take 32 (drop pos calldata)) in
      if length calldata < pos + 32 + len then None else Some (take len (drop (pos + 32) calldata)))"

lemma oft_send_parts:
  "encode_oft_send hex_decode dst_eid recipient amount =
    OFT_SEND_SELECTOR @ concat [replicate 31 0 @ [0x20], replicate 28 0 @ be_bytes 4 (unat dst_eid),
      left_pad (case hex_decode (strip_0x recipient) of Some bs \<Rightarrow> bs | None \<Rightarrow> []),
      replicate 24 0 @ be_bytes 8 (unat amount), replicate 24 0 @ be_bytes 8 (unat (amount * 99 div 100)),
      replicate 24 0 @ be_bytes 8 224, replicate 24 0 @ be_bytes 8 288, replicate 24 0 @ be_bytes 8 320,
      replicate 32 0, replicate 32 0, replicate 32 0]"
  by (simp add: encode_oft_send_def Let_def)

lemma oft_send_words:
  fixes amount :: u64
  shows "map (abi_word (encode_oft_send hex_decode dst_eid recipient amount)) [0..<11] =
    [32, unat dst_eid, of_be_bytes (left_pad (case hex_decode (strip_0x recipient) of Some bs \<Rightarrow> bs | None \<Rightarrow> [])), unat amount,
     unat (amount * 99 div 100), 224, 288, 320, 0, 0, 0]"
    and "length (encode_oft_send hex_decode dst_eid recipient amount) = 356"
proof -
  let ?ws = "[replicate 31 0 @ [0x20], replicate 28 0 @ be_bytes 4 (unat dst_eid),
      left_pad (case hex_decode (strip_0x recipient) of Some bs \<Rightarrow> bs | None \<Rightarrow> []),
      replicate 24 0 @ be_bytes 8 (unat amount), replicate 24 0 @ be_bytes 8 (unat (amount * 99 div 100)),
      replicate 24 0 @ be_bytes 8 224, replicate 24 0 @ be_bytes 8 288, replicate 24 0 @ be_bytes 8 320,
      replicate 32 0, replicate 32 0, replicate 32 (0 :: u8)]"
  have "map (abi_word (OFT_SEND_SELECTOR @ concat ?ws)) [0..<length ?ws] = map of_be_bytes ?ws"
    by (intro abi_words_concat) (auto simp: OFT_SEND_SELECTOR_def)
  moreover have "length ?ws = 11" by simp
  moreover have "of_be_bytes [0x20] = 32" by (simp add: of_be_bytes_def)
  ultimately show "map (abi_word (encode_oft_send hex_decode dst_eid recipient amount)) [0..<11] =
    [32, unat dst_eid, of_be_bytes (left_pad (case hex_decode (strip_0x recipient) of Some bs \<Rightarrow> bs | None \<Rightarrow> [])), unat amount,
     unat (amount * 99 div 100), 224, 288, 320, 0, 0, 0]"
    by (simp only: oft_send_parts) (simp add: of_be_bytes_pad of_be_bytes_word of_be_bytes_be_bytes)
  show "length (encode_oft_send hex_decode dst_eid recipient amount) = 356"
    by (simp add: oft_send_parts OFT_SEND_SELECTOR_def)
qed

text \<open>
  No contract can decode the calldata that locks funds through LayerZero: the offset of the last
  dynamic field of the structure is the end of the calldata, so that its length would be read past the end, whatever
  the recipient and the amount. The minimal amount in it is 99 per cent of the amount only while the product fits
  into 64 bits; above that it wraps and the slippage limit is lost.
\<close>

theorem oft_send_undecodable:
  "abi_field_bytes (encode_oft_send hex_decode dst_eid recipient amount) 6 = None \<and>
   abi_word (encode_oft_send hex_decode dst_eid recipient amount) 4 = (99 * unat amount mod 2 ^ 64) div 100"
proof -
  let ?data = "encode_oft_send hex_decode dst_eid recipient amount"
  have nth: "abi_word ?data i = map (abi_word ?data) [0..<11] ! i" if "i < 11" for i using that by simp
  have "abi_word ?data 0 = 32" "abi_word ?data 7 = 320" "abi_word ?data 4 = unat (amount * 99 div 100)"
    by (subst nth, simp, simp add: oft_send_words(1) del: upt_rec_numeral)+
  then show ?thesis
    using oft_send_words(2) [of hex_decode dst_eid recipient amount]
    by (simp add: abi_field_bytes_def abi_word_def unat_div unat_word_ariths mult.commute)
qed

end
