(* ===== verification/Cross_Chain.thy ===== *)
theory Cross_Chain
  imports Bridge F64
begin

text \<open>
  Settlement across two chains: a settlement is a source leg, where funds are locked, and a destination leg, where
  they are released (src/cross_chain/model.rs, service.rs), driven over the bridges by a worker
  (worker.rs). The clock is an argument; the registry of chain adapters is the list of its chain names.
\<close>

section \<open>Settlements\<close>

record cross_chain_settlement =
  cs_intent_id :: uuid
  cs_fill_id :: uuid
  cs_source_leg :: cross_chain_leg
  cs_destination_leg :: cross_chain_leg
  cs_fully_confirmed :: bool
  cs_timed_out :: bool

definition from_legs :: "timestamp \<Rightarrow> cross_chain_leg list \<Rightarrow> cross_chain_settlement option" where
  "from_legs now legs =
     (case List.find (\<lambda>l. lg_leg_index l = 0) legs of None \<Rightarrow> None | Some source \<Rightarrow>
     (case List.find (\<lambda>l. lg_leg_index l = 1) legs of None \<Rightarrow> None | Some dest \<Rightarrow>
      let fully_confirmed = (lg_status source = LegConfirmed \<and> lg_status dest = LegConfirmed);
          timed_out = (\<not> fully_confirmed \<and> (lg_timeout_at source < now \<or> lg_timeout_at dest < now))
      in Some \<lparr>cs_intent_id = lg_intent_id source, cs_fill_id = lg_fill_id source, cs_source_leg = source,
               cs_destination_leg = dest, cs_fully_confirmed = fully_confirmed, cs_timed_out = timed_out\<rparr>))"

section \<open>The service\<close>

definition DEFAULT_TIMEOUT_SECS :: int where "DEFAULT_TIMEOUT_SECS = 600"

text \<open>The literal 1.5.\<close>

definition CROSS_CHAIN_COLLATERAL_MULTIPLIER :: f64 where "CROSS_CHAIN_COLLATERAL_MULTIPLIER = Fin 3 (- 1)"

datatype cross_chain_error = LegNotFound | LegInvalidState string | ChainError string | LegTimeout | LegDbError sqlx_error

definition insert_leg :: "cross_chain_leg \<Rightarrow> (pgdb, cross_chain_error, unit) action" where
  "insert_leg leg =
     map_errA LegDbError (sql_exec (\<lambda>s.
       if lg_intent_id leg \<notin> in_id ` set (db_intents s) then Inl ForeignKeyViolation
       else if lg_id leg \<in> lg_id ` set (db_legs s) \<or>
               (lg_fill_id leg, lg_leg_index leg) \<in> (\<lambda>l. (lg_fill_id l, lg_leg_index l)) ` set (db_legs s) then Inl UniqueViolation
       else Inr ((), s\<lparr>db_legs := db_legs s @ [leg]\<rparr>)))"

definition new_leg ::
  "timestamp \<Rightarrow> uuid \<Rightarrow> uuid \<Rightarrow> uuid \<Rightarrow> int \<Rightarrow> string \<Rightarrow> string \<Rightarrow> string \<Rightarrow> string option \<Rightarrow> i64 \<Rightarrow> cross_chain_leg" where
  "new_leg now i intent_id fill_id index chain from_addr to_addr mint amount =
     \<lparr>lg_id = i, lg_intent_id = intent_id, lg_fill_id = fill_id, lg_leg_index = index, lg_chain = chain,
      lg_from_address = from_addr, lg_to_address = to_addr, lg_token_mint = mint, lg_amount = amount, lg_tx_hash = None,
      lg_status = LegPending, lg_error = None, lg_timeout_at = now + DEFAULT_TIMEOUT_SECS, lg_created_at = now,
      lg_confirmed_at = None\<rparr>"

definition create_settlement ::
  "timestamp \<Rightarrow> uuid \<Rightarrow> uuid \<Rightarrow> string \<Rightarrow> string \<Rightarrow> string \<Rightarrow> string \<Rightarrow> string \<Rightarrow> string \<Rightarrow> string option \<Rightarrow> string option \<Rightarrow> i64 \<Rightarrow>
   (pgdb, cross_chain_error, cross_chain_leg \<times> cross_chain_leg) action" where
  "create_settlement now intent_id fill_id source_chain dest_chain source_from source_to dest_from dest_to source_mint dest_mint amount =
     bindA new_uuid (\<lambda>source_id.
     bindA new_uuid (\<lambda>dest_id.
     let source_leg = new_leg now source_id intent_id fill_id 0 source_chain source_from source_to source_mint amount;
         dest_leg = new_leg now dest_id intent_id fill_id 1 dest_chain dest_from dest_to dest_mint amount
     in seqA (insert_leg source_leg) (seqA (insert_leg dest_leg) (returnA (source_leg, dest_leg)))))"

definition update_legs :: "uuid \<Rightarrow> (cross_chain_leg \<Rightarrow> cross_chain_leg) \<Rightarrow> pgdb \<Rightarrow> pgdb" where
  "update_legs leg_id f s = s\<lparr>db_legs := map (\<lambda>l. if lg_id l = leg_id then f l else l) (db_legs s)\<rparr>"

definition coalesce :: "'a option \<Rightarrow> 'a option \<Rightarrow> 'a option" where
  "coalesce a b = (case a of None \<Rightarrow> b | Some x \<Rightarrow> Some x)"

definition update_leg_status ::
  "uuid \<Rightarrow> leg_status \<Rightarrow> string option \<Rightarrow> string option \<Rightarrow> (pgdb, cross_chain_error, unit) action" where
  "update_leg_status leg_id status tx_hash err =
     bindA (map_errA LegDbError (sql_exec (\<lambda>s.
       Inr (length (filter (\<lambda>l. lg_id l = leg_id) (db_legs s)),
            update_legs leg_id (\<lambda>l. l\<lparr>lg_status := status, lg_tx_hash := coalesce tx_hash (lg_tx_hash l),
              lg_error := coalesce err (lg_error l)\<rparr>) s)))) (\<lambda>rows_affected.
     ensureA (rows_affected \<noteq> 0) LegNotFound)"

definition execute_source_leg :: "uuid \<Rightarrow> string \<Rightarrow> (pgdb, cross_chain_error, unit) action" where
  "execute_source_leg leg_id tx_hash = update_leg_status leg_id LegEscrowed (Some tx_hash) None"

definition mark_executing :: "uuid \<Rightarrow> string \<Rightarrow> (pgdb, cross_chain_error, unit) action" where
  "mark_executing leg_id tx_hash = update_leg_status leg_id LegExecuting (Some tx_hash) None"

definition confirm_leg :: "timestamp \<Rightarrow> uuid \<Rightarrow> (pgdb, cross_chain_error, unit) action" where
  "confirm_leg now leg_id =
     seqA (update_leg_status leg_id LegConfirmed None None)
     (map_errA LegDbError (sql_update (update_legs leg_id (\<lambda>l. l\<lparr>lg_confirmed_at := Some now\<rparr>))))"

definition fail_leg :: "uuid \<Rightarrow> string \<Rightarrow> (pgdb, cross_chain_error, unit) action" where
  "fail_leg leg_id err = update_leg_status leg_id LegFailed None (Some err)"

definition refund_leg :: "uuid \<Rightarrow> (pgdb, cross_chain_error, unit) action" where
  "refund_leg leg_id = update_leg_status leg_id LegRefunded None (Some ''Timeout refund'')"

definition get_settlement :: "timestamp \<Rightarrow> uuid \<Rightarrow> (pgdb, cross_chain_error, cross_chain_settlement option) action" where
  "get_settlement now fill_id =
     bindA (map_errA LegDbError (sql_query (\<lambda>s. sort_key lg_leg_index (filter (\<lambda>l. lg_fill_id l = fill_id) (db_legs s))))) (\<lambda>legs.
     returnA (from_legs now legs))"

definition leg_query :: "(cross_chain_leg list \<Rightarrow> cross_chain_leg list) \<Rightarrow> (pgdb, cross_chain_error, cross_chain_leg list) action" where
  "leg_query f = map_errA LegDbError (sql_query (\<lambda>s. take 50 (f (db_legs s))))"

definition find_pending_source_legs :: "(pgdb, cross_chain_error, cross_chain_leg list) action" where
  "find_pending_source_legs =
     leg_query (\<lambda>legs. sort_key lg_created_at (filter (\<lambda>l. lg_leg_index l = 0 \<and> lg_status l = LegPending) legs))"

definition find_escrowed_source_legs :: "(pgdb, cross_chain_error, cross_chain_leg list) action" where
  "find_escrowed_source_legs =
     leg_query (\<lambda>legs. sort_key lg_created_at (filter (\<lambda>l. lg_leg_index l = 0 \<and> lg_status l = LegEscrowed) legs))"

definition find_timed_out_legs :: "timestamp \<Rightarrow> (pgdb, cross_chain_error, cross_chain_leg list) action" where
  "find_timed_out_legs now =
     leg_query (\<lambda>legs. sort_key lg_timeout_at
       (filter (\<lambda>l. lg_timeout_at l < now \<and> lg_status l \<noteq> LegConfirmed \<and> lg_status l \<noteq> LegRefunded) legs))"

text \<open>A join: a destination leg appears once for every source leg of its fill that is escrowed or confirmed.\<close>

definition find_ready_destination_legs :: "(pgdb, cross_chain_error, cross_chain_leg list) action" where
  "find_ready_destination_legs =
     leg_query (\<lambda>legs. sort_key lg_created_at (concat (map (\<lambda>dest.
       if lg_leg_index dest = 1 \<and> lg_status dest = LegPending
       then map (\<lambda>_. dest) (filter (\<lambda>src. lg_fill_id src = lg_fill_id dest \<and> lg_leg_index src = 0 \<and>
              (lg_status src = LegEscrowed \<or> lg_status src = LegConfirmed)) legs)
       else []) legs)))"

definition required_collateral :: "i64 \<Rightarrow> i64" where
  "required_collateral amount = f64_to_i64 (f64_mult (f64_of_int amount) CROSS_CHAIN_COLLATERAL_MULTIPLIER)"

definition chain_supported :: "string list \<Rightarrow> string \<Rightarrow> string + unit" where
  "chain_supported registered chain =
     (if chain \<in> set registered then Inr () else Inl (''Unsupported: No adapter for chain: '' @ chain))"

definition pending_settlements :: "string \<Rightarrow> pgdb \<Rightarrow> nat" where
  "pending_settlements solver_id s =
     length (concat (map (\<lambda>l.
       if (lg_status l = LegPending \<or> lg_status l = LegEscrowed \<or> lg_status l = LegExecuting) \<and> lg_leg_index l = 0
       then filter (\<lambda>f. fi_id f = lg_fill_id l \<and> fi_solver_id f = solver_id) (db_fills s)
       else []) (db_legs s)))"

definition validate_solver_for_cross_chain ::
  "string list \<Rightarrow> string \<Rightarrow> string \<Rightarrow> string \<Rightarrow> (pgdb, cross_chain_error, unit) action" where
  "validate_solver_for_cross_chain registered solver_id source_chain dest_chain =
     (case chain_supported registered source_chain of
        Inl e \<Rightarrow> raiseA (ChainError (''Source chain unsupported: '' @ e))
      | Inr _ \<Rightarrow>
     (case chain_supported registered dest_chain of
        Inl e \<Rightarrow> raiseA (ChainError (''Destination chain unsupported: '' @ e))
      | Inr _ \<Rightarrow>
          bindA (map_errA LegDbError (sql_query (pending_settlements solver_id))) (\<lambda>pending_count.
          ensureA (\<not> pending_count \<ge> 10) (LegInvalidState ''Solver has too many pending cross-chain settlements''))))"

section \<open>The worker\<close>

definition or_empty :: "string option \<Rightarrow> string" where
  "or_empty x = (case x of None \<Rightarrow> '''' | Some t \<Rightarrow> t)"

text \<open>The settlement of a leg, when the query succeeds and both legs exist; otherwise the leg is skipped.\<close>

definition with_settlement ::
  "timestamp \<Rightarrow> uuid \<Rightarrow> (cross_chain_settlement \<Rightarrow> ('e, unit) chain_action) \<Rightarrow> ('e, unit) chain_action" where
  "with_settlement now fill_id body =
     bindA (tryA (chain_db (get_settlement now fill_id))) (\<lambda>r.
     case r of Inr (Some st) \<Rightarrow> body st | _ \<Rightarrow> returnA ())"

definition lock_params :: "cross_chain_leg \<Rightarrow> cross_chain_leg \<Rightarrow> bridge_transfer_params" where
  "lock_params leg dest =
     \<lparr>bp_source_chain = lg_chain leg, bp_dest_chain = lg_chain dest, bp_token = or_empty (lg_token_mint leg),
      bp_amount = word_of_int (lg_amount leg), bp_sender = lg_from_address leg, bp_recipient = lg_to_address dest\<rparr>"

definition release_params :: "cross_chain_leg \<Rightarrow> cross_chain_leg \<Rightarrow> bridge_transfer_params" where
  "release_params source leg =
     \<lparr>bp_source_chain = lg_chain source, bp_dest_chain = lg_chain leg, bp_token = or_empty (lg_token_mint leg),
      bp_amount = word_of_int (lg_amount leg), bp_sender = lg_from_address source, bp_recipient = lg_to_address leg\<rparr>"

definition lock_leg :: "timestamp \<Rightarrow> bridge_registry \<Rightarrow> cross_chain_leg \<Rightarrow> (cross_chain_error, unit) chain_action" where
  "lock_leg now bridges leg =
     with_settlement now (lg_fill_id leg) (\<lambda>settlement.
     let dest = cs_destination_leg settlement in
     case find_bridge bridges (lg_chain leg) (lg_chain dest) of
       Inl e \<Rightarrow> returnA ()
     | Inr bridge \<Rightarrow>
         bindA (lock_funds bridge (lock_params leg dest)) (\<lambda>r.
         case r of
           Inr receipt \<Rightarrow> ignoreA (chain_db (execute_source_leg (lg_id leg) (lr_tx_hash receipt)))
         | Inl e \<Rightarrow> ignoreA (chain_db (fail_leg (lg_id leg) (bridge_error_text e)))))"

definition lock_pending_sources :: "timestamp \<Rightarrow> bridge_registry \<Rightarrow> (cross_chain_error, unit) chain_action" where
  "lock_pending_sources now bridges = for_rows find_pending_source_legs (lock_leg now bridges)"

definition verify_leg :: "timestamp \<Rightarrow> bridge_registry \<Rightarrow> cross_chain_leg \<Rightarrow> (cross_chain_error, unit) chain_action" where
  "verify_leg now bridges leg =
     (case lg_tx_hash leg of
        None \<Rightarrow> returnA ()
      | Some tx_hash \<Rightarrow>
          with_settlement now (lg_fill_id leg) (\<lambda>settlement.
          case find_bridge bridges (lg_chain leg) (lg_chain (cs_destination_leg settlement)) of
            Inl e \<Rightarrow> returnA ()
          | Inr bridge \<Rightarrow>
              bindA (verify_lock bridge tx_hash) (\<lambda>r.
              case r of
                Inr (BridgeCompleted _) \<Rightarrow> ignoreA (chain_db (confirm_leg now (lg_id leg)))
              | Inr (InTransit _) \<Rightarrow> ignoreA (chain_db (confirm_leg now (lg_id leg)))
              | Inr (BridgeFailed reason) \<Rightarrow> ignoreA (chain_db (fail_leg (lg_id leg) reason))
              | _ \<Rightarrow> returnA ())))"

definition verify_escrowed :: "timestamp \<Rightarrow> bridge_registry \<Rightarrow> (cross_chain_error, unit) chain_action" where
  "verify_escrowed now bridges = for_rows find_escrowed_source_legs (verify_leg now bridges)"

definition release_leg :: "timestamp \<Rightarrow> bridge_registry \<Rightarrow> cross_chain_leg \<Rightarrow> (cross_chain_error, unit) chain_action" where
  "release_leg now bridges leg =
     with_settlement now (lg_fill_id leg) (\<lambda>settlement.
     let source = cs_source_leg settlement in
     case find_bridge bridges (lg_chain source) (lg_chain leg) of
       Inl e \<Rightarrow> returnA ()
     | Inr bridge \<Rightarrow>
         bindA (release_funds bridge (release_params source leg) (''msg_'' @ or_empty (lg_tx_hash source))) (\<lambda>r.
         case r of
           Inr dest_tx \<Rightarrow> ignoreA (chain_db (mark_executing (lg_id leg) dest_tx))
         | Inl e \<Rightarrow> ignoreA (chain_db (fail_leg (lg_id leg) (bridge_error_text e)))))"

definition release_destinations :: "timestamp \<Rightarrow> bridge_registry \<Rightarrow> (cross_chain_error, unit) chain_action" where
  "release_destinations now bridges = for_rows find_ready_destination_legs (release_leg now bridges)"

definition timeout_leg :: "timestamp \<Rightarrow> cross_chain_leg \<Rightarrow> (cross_chain_error, unit) chain_action" where
  "timeout_leg now leg =
     bindA (tryA (chain_db (refund_leg (lg_id leg)))) (\<lambda>r.
     case r of
       Inl _ \<Rightarrow> returnA ()
     | Inr _ \<Rightarrow>
         if lg_leg_index leg = 0 \<and> lg_status leg = LegEscrowed then
           with_settlement now (lg_fill_id leg) (\<lambda>st.
           if lg_status (cs_destination_leg st) = LegPending \<or> lg_status (cs_destination_leg st) = LegExecuting
           then ignoreA (chain_db (refund_leg (lg_id (cs_destination_leg st)))) else returnA ())
         else returnA ())"

definition process_timeouts :: "timestamp \<Rightarrow> (cross_chain_error, unit) chain_action" where
  "process_timeouts now = for_rows (find_timed_out_legs now) (timeout_leg now)"

definition finalizable :: "pgdb \<Rightarrow> (uuid \<times> uuid) list" where
  "finalizable s =
     take 50 (remdups (map (\<lambda>l. (lg_fill_id l, lg_intent_id l))
       (filter (\<lambda>l. lg_leg_index l = 0 \<and> lg_status l = LegConfirmed \<and>
          list_ex (\<lambda>l2. lg_fill_id l2 = lg_fill_id l \<and> lg_leg_index l2 = 1 \<and> lg_status l2 = LegConfirmed) (db_legs s) \<and>
          list_ex (\<lambda>i. in_id i = lg_intent_id l \<and> in_status i \<noteq> Completed) (db_intents s)) (db_legs s))))"

definition complete_intent :: "uuid \<Rightarrow> (pgdb, cross_chain_error, unit) action" where
  "complete_intent intent_id =
     map_errA LegDbError (sql_update (\<lambda>s. s\<lparr>db_intents :=
       map (\<lambda>i. if in_id i = intent_id \<and> in_status i \<noteq> Completed then i\<lparr>in_status := Completed\<rparr> else i) (db_intents s)\<rparr>))"

definition finalize_completed :: "(cross_chain_error, unit) chain_action" where
  "finalize_completed =
     for_rows (map_errA LegDbError (sql_query finalizable)) (\<lambda>(fill_id, intent_id). ignoreA (chain_db (complete_intent intent_id)))"

text \<open>One round of the loop; the gauge at its end only counts legs.\<close>

definition cross_chain_cycle :: "timestamp \<Rightarrow> bridge_registry \<Rightarrow> (cross_chain_error, unit) chain_action" where
  "cross_chain_cycle now bridges =
     seqA (lock_pending_sources now bridges)
     (seqA (verify_escrowed now bridges)
     (seqA (release_destinations now bridges)
     (seqA (process_timeouts now)
     (seqA finalize_completed
     (seqA (ignoreA (chain_db (find_timed_out_legs now)))
     (ignoreA (chain_db find_ready_destination_legs)))))))"

section \<open>What the worker keeps\<close>

text \<open>
  The intents are \<open>ints\<close>, no destination leg is confirmed, and the legs with a key in \<open>L\<close> are source
  legs (the ones a phase has just read).
\<close>

definition legs_inv :: "intent list \<Rightarrow> uuid set \<Rightarrow> pgdb \<Rightarrow> bool" where
  "legs_inv ints L s \<longleftrightarrow>
     db_intents s = ints \<and> (\<forall>l\<in>set (db_legs s). lg_leg_index l = 1 \<longrightarrow> lg_status l \<noteq> LegConfirmed) \<and>
     (\<forall>l\<in>set (db_legs s). lg_id l \<in> L \<longrightarrow> lg_leg_index l = 0) \<and> distinct (map lg_id (db_legs s))"

lemma legs_inv_tick [simp]: "legs_inv ints L (tick s) = legs_inv ints L s"
  by (simp add: legs_inv_def)

lemma legs_inv_update:
  assumes "legs_inv ints L s" and "\<And>l. lg_id (f l) = lg_id l \<and> lg_leg_index (f l) = lg_leg_index l"
    and "\<And>l. l \<in> set (db_legs s) \<Longrightarrow> lg_id l = i \<Longrightarrow> lg_status (f l) = LegConfirmed \<Longrightarrow> i \<in> L \<or> lg_status l = LegConfirmed"
  shows "legs_inv ints L (update_legs i f s)"
proof -
  have "map lg_id (map (\<lambda>l. if lg_id l = i then f l else l) (db_legs s)) = map lg_id (db_legs s)" using assms(2) by simp
  then show ?thesis using assms unfolding legs_inv_def update_legs_def by (fastforce simp del: map_map)
qed

lemma preserves_update_leg_status:
  assumes "st = LegConfirmed \<Longrightarrow> i \<in> L"
  shows "preserves (legs_inv ints L) (update_leg_status i st tx err)"
proof (unfold preserves_def, intro allI impI)
  fix s assume "legs_inv ints L s"
  moreover from this have "legs_inv ints L (update_legs i (\<lambda>l. l\<lparr>lg_status := st, lg_tx_hash := coalesce tx (lg_tx_hash l),
      lg_error := coalesce err (lg_error l)\<rparr>) s)" using assms by (intro legs_inv_update) auto
  ultimately show "legs_inv ints L (snd (update_leg_status i st tx err s))"
    by (simp add: update_leg_status_def bindA_def map_errA_def sql_exec_def ensureA_def)
qed

lemma preserves_confirm_leg: "i \<in> L \<Longrightarrow> preserves (legs_inv ints L) (confirm_leg now i)"
  unfolding confirm_leg_def
proof (intro preserves_seqA preserves_map_errA preserves_update_leg_status)
  show "preserves (legs_inv ints L) (sql_update (update_legs i (\<lambda>l. l\<lparr>lg_confirmed_at := Some now\<rparr>)))"
    by (auto simp: preserves_def sql_update_def sql_exec_def intro!: legs_inv_update)
qed

lemma preserves_leg_updates:
  "preserves (legs_inv ints L) (execute_source_leg i tx)" "preserves (legs_inv ints L) (mark_executing i tx)"
  "preserves (legs_inv ints L) (fail_leg i err)" "preserves (legs_inv ints L) (refund_leg i)"
  unfolding execute_source_leg_def mark_executing_def fail_leg_def refund_leg_def
  by (rule preserves_update_leg_status; simp)+

lemma preserves_leg_query: "preserves (legs_inv ints L) (map_errA g (sql_query f))"
  by (intro preserves_map_errA preserves_sql_query) simp

lemma preserves_get_settlement: "preserves (legs_inv ints L) (get_settlement now fill)"
  unfolding get_settlement_def by (intro preserves_bindA preserves_leg_query preserves_pure)

lemma preserves_finders:
  "preserves (legs_inv ints L) find_pending_source_legs" "preserves (legs_inv ints L) find_escrowed_source_legs"
  "preserves (legs_inv ints L) (find_timed_out_legs now)" "preserves (legs_inv ints L) find_ready_destination_legs"
  unfolding find_pending_source_legs_def find_escrowed_source_legs_def find_timed_out_legs_def find_ready_destination_legs_def leg_query_def
  by (rule preserves_leg_query)+

lemma preserves_with_settlement:
  assumes "\<And>st. preserves (\<lambda>w. legs_inv ints L (cw_db w)) (body st)"
  shows "preserves (\<lambda>w. legs_inv ints L (cw_db w)) (with_settlement now fill body)"
  unfolding with_settlement_def using assms
  by (intro preserves_bindA preserves_tryA preserves_chain_db preserves_get_settlement) (auto split: sum.splits option.splits)

lemma preserves_leg_bodies:
  "preserves (\<lambda>w. legs_inv ints L (cw_db w)) (lock_leg now bridges leg)"
  "preserves (\<lambda>w. legs_inv ints L (cw_db w)) (release_leg now bridges leg)"
  "lg_id leg \<in> L \<Longrightarrow> preserves (\<lambda>w. legs_inv ints L (cw_db w)) (verify_leg now bridges leg)"
  "preserves (\<lambda>w. legs_inv ints L (cw_db w)) (timeout_leg now leg)"
  unfolding lock_leg_def release_leg_def verify_leg_def timeout_leg_def Let_def
  by (auto split: sum.splits option.splits bridge_status.splits
      intro!: preserves_with_settlement preserves_bindA preserves_tryA preserves_ignoreA preserves_pure preserves_bridge_calls preserves_chain_db
        preserves_leg_updates preserves_confirm_leg)

text \<open>The legs that the verification reads are source legs, and remain so.\<close>

lemma preserves_verify_escrowed: "preserves (\<lambda>w. legs_inv ints {} (cw_db w)) (verify_escrowed now bridges)"
proof (unfold preserves_def, intro allI impI)
  fix w :: chain_world assume inv: "legs_inv ints {} (cw_db w)"
  show "legs_inv ints {} (cw_db (snd (verify_escrowed now bridges w)))"
  proof (cases "next_fault (cw_db w)")
    case True
    then show ?thesis using inv
      by (simp add: verify_escrowed_def for_rows_def find_escrowed_source_legs_def leg_query_def bindA_def tryA_def chain_db_def
          map_errA_def sql_query_def returnA_def)
  next
    case False
    let ?legs = "take 50 (sort_key lg_created_at (filter (\<lambda>l. lg_leg_index l = 0 \<and> lg_status l = LegEscrowed) (db_legs (cw_db w))))"
    let ?w = "w\<lparr>cw_db := tick (cw_db w)\<rparr>"
    have sub: "l \<in> set (db_legs (cw_db w)) \<and> lg_leg_index l = 0" if "l \<in> set ?legs" for l
      using in_set_takeD [OF that] by simp
    have start: "legs_inv ints (lg_id ` set ?legs) (tick (cw_db w))"
    proof -
      have "lg_leg_index l = 0" if "l \<in> set (db_legs (cw_db w))" "lg_id l \<in> lg_id ` set ?legs" for l
      proof -
        note mem = that
        obtain l' where l': "l' \<in> set ?legs" "lg_id l' = lg_id l" using mem(2) by auto
        have "inj_on lg_id (set (db_legs (cw_db w)))" using inv unfolding legs_inv_def distinct_map by blast
        then have "l' = l" using l' mem(1) sub [OF l'(1)] by (blast dest: inj_onD)
        then show ?thesis using sub [OF l'(1)] by simp
      qed
      then show ?thesis using inv unfolding legs_inv_def tick_fields by blast
    qed
    have body: "preserves (\<lambda>w. legs_inv ints (lg_id ` set ?legs) (cw_db w)) (verify_leg now bridges x)" if "x \<in> set ?legs" for x
      using that by (intro preserves_leg_bodies) simp
    obtain r u where u: "for_eachA (verify_leg now bridges) ?legs ?w = (r, u)" by fastforce
    have "legs_inv ints (lg_id ` set ?legs) (cw_db u)"
    proof (rule for_eachA_keeps [OF _ u, where I = "\<lambda>w. legs_inv ints (lg_id ` set ?legs) (cw_db w)"])
      show "legs_inv ints (lg_id ` set ?legs) (cw_db t)"
        if "x \<in> set ?legs" "verify_leg now bridges x v = (q, t)" "legs_inv ints (lg_id ` set ?legs) (cw_db v)" for x v q t
        using preservesD [OF body [OF that(1)] that(2,3)] .
      have "cw_db ?w = tick (cw_db w)" by simp
      then show "legs_inv ints (lg_id ` set ?legs) (cw_db ?w)" using start by (simp only:)
    qed
    moreover have "verify_escrowed now bridges w = for_eachA (verify_leg now bridges) ?legs ?w"
      using False by (simp add: verify_escrowed_def for_rows_def find_escrowed_source_legs_def leg_query_def bindA_def tryA_def chain_db_def
          map_errA_def sql_query_def)
    ultimately show ?thesis using u by (auto simp only: legs_inv_def snd_conv)
  qed
qed

lemma finalizable_none: "legs_inv ints L s \<Longrightarrow> finalizable s = []"
  by (auto simp: finalizable_def legs_inv_def list_ex_iff filter_empty_conv)

lemma preserves_finalize: "preserves (\<lambda>w. legs_inv ints L (cw_db w)) finalize_completed"
  by (auto simp: preserves_def finalize_completed_def for_rows_def bindA_def tryA_def chain_db_def map_errA_def sql_query_def
      finalizable_none returnA_def)

lemma preserves_cross_chain_cycle: "preserves (\<lambda>w. legs_inv ints {} (cw_db w)) (cross_chain_cycle now bridges)"
  unfolding cross_chain_cycle_def lock_pending_sources_def release_destinations_def process_timeouts_def
  by (intro preserves_seqA preserves_verify_escrowed preserves_finalize preserves_for_rows preserves_ignoreA preserves_chain_db preserves_finders
      preserves_leg_bodies)

section \<open>Properties\<close>

text \<open>The callers of the service: new settlements, and rounds of the worker with arbitrary bridges.\<close>

inductive leg_call :: "pgdb \<Rightarrow> pgdb \<Rightarrow> bool" where
  call_settlement: "leg_call s (snd (create_settlement now intent_id fill_id c1 c2 a1 a2 b1 b2 m1 m2 amount s))"
| call_round: "cw_db w = s \<Longrightarrow> leg_call s (cw_db (snd (cross_chain_cycle now bridges w)))"

lemma preserves_insert_leg: "lg_status leg = LegPending \<Longrightarrow> preserves (legs_inv ints {}) (insert_leg leg)"
  by (auto simp: preserves_def insert_leg_def map_errA_def sql_exec_def legs_inv_def)

lemma preserves_new_uuid: "preserves (legs_inv ints {}) new_uuid"
  by (simp add: preserves_def new_uuid_def legs_inv_def)

lemma preserves_create_settlement:
  "preserves (legs_inv ints {}) (create_settlement now intent_id fill_id c1 c2 a1 a2 b1 b2 m1 m2 amount)"
  unfolding create_settlement_def Let_def
  by (intro preserves_bindA preserves_seqA preserves_new_uuid preserves_insert_leg preserves_pure) (simp_all add: new_leg_def)

lemma leg_call_inv: "leg_call s t \<Longrightarrow> legs_inv ints {} s \<Longrightarrow> legs_inv ints {} t"
proof (induction rule: leg_call.induct)
  case call_settlement
  then show ?case using preserves_create_settlement unfolding preserves_def by blast
next
  case (call_round w s now bridges)
  then show ?case using preserves_cross_chain_cycle [of ints now bridges] unfolding preserves_def by blast
qed

interpretation leg_machine: transition_system "\<lambda>s. db_legs s = [] \<and> db_intents s = ints" leg_call "legs_inv ints {}" for ints
  by unfold_locales (simp add: legs_inv_def, rule leg_call_inv)

text \<open>
  C20. The worker never completes a settlement: nothing in the program confirms a destination leg. Whatever
  the bridges answer, after any number of new settlements and rounds no destination leg is
  confirmed, no settlement is fully confirmed, the final phase finds nothing to do, and no
  intent has changed its status.
\<close>

theorem destination_never_confirmed:
  assumes "db_legs s = []" and "leg_call\<^sup>*\<^sup>* s t"
  shows "(\<forall>l\<in>set (db_legs t). lg_leg_index l = 1 \<longrightarrow> lg_status l \<noteq> LegConfirmed) \<and> finalizable t = [] \<and> db_intents t = db_intents s"
proof -
  have "legs_inv (db_intents s) {} t" using leg_machine.reachable_invar [of s "db_intents s" t] assms by simp
  then show ?thesis using finalizable_none by (auto simp: legs_inv_def)
qed

section \<open>Two rounds for one settlement\<close>

text \<open>The legs of one settlement, alone in the table.\<close>

definition leg_pair :: "pgdb \<Rightarrow> cross_chain_leg \<Rightarrow> cross_chain_leg \<Rightarrow> bool" where
  "leg_pair s src dst \<longleftrightarrow> db_legs s = [src, dst] \<and> db_faults s = [] \<and> lg_leg_index src = 0 \<and> lg_leg_index dst = 1 \<and>
     lg_fill_id dst = lg_fill_id src \<and> lg_id dst \<noteq> lg_id src"

lemma leg_pairD:
  assumes "leg_pair s src dst"
  shows "db_legs s = [src, dst]" "db_faults s = []" "lg_leg_index src = 0" "lg_leg_index dst = 1" "lg_fill_id dst = lg_fill_id src"
    "lg_id dst \<noteq> lg_id src" "lg_id src \<noteq> lg_id dst"
  using assms by (auto simp: leg_pair_def)

lemma leg_queries_pair:
  assumes "leg_pair s src dst"
  shows "find_pending_source_legs s = (Inr (if lg_status src = LegPending then [src] else []), s)"
    "find_escrowed_source_legs s = (Inr (if lg_status src = LegEscrowed then [src] else []), s)"
    "lg_status src = LegConfirmed \<Longrightarrow> find_timed_out_legs now s = (Inr (if lg_timeout_at dst < now \<and> lg_status dst \<noteq> LegConfirmed \<and> lg_status dst \<noteq> LegRefunded then [dst] else []), s)"
    "find_ready_destination_legs s = (Inr (if lg_status dst = LegPending \<and> (lg_status src = LegEscrowed \<or> lg_status src = LegConfirmed) then [dst] else []), s)"
    "get_settlement now (lg_fill_id src) s = (Inr (from_legs now [src, dst]), s)"
    "from_legs now [src, dst] = Some \<lparr>cs_intent_id = lg_intent_id src, cs_fill_id = lg_fill_id src, cs_source_leg = src, cs_destination_leg = dst,
       cs_fully_confirmed = (lg_status src = LegConfirmed \<and> lg_status dst = LegConfirmed),
       cs_timed_out = (\<not> (lg_status src = LegConfirmed \<and> lg_status dst = LegConfirmed) \<and> (lg_timeout_at src < now \<or> lg_timeout_at dst < now))\<rparr>"
    "lg_status dst \<noteq> LegConfirmed \<Longrightarrow> finalizable s = []"
proof -
  note d = leg_pairD [OF assms]
  note evals = leg_query_def map_errA_def sql_query_def bindA_def returnA_def d tick_no_faults [OF d(2)]
  show "find_pending_source_legs s = (Inr (if lg_status src = LegPending then [src] else []), s)"
    by (simp add: find_pending_source_legs_def evals)
  show "find_escrowed_source_legs s = (Inr (if lg_status src = LegEscrowed then [src] else []), s)"
    by (simp add: find_escrowed_source_legs_def evals)
  show "lg_status src = LegConfirmed \<Longrightarrow> find_timed_out_legs now s = (Inr (if lg_timeout_at dst < now \<and> lg_status dst \<noteq> LegConfirmed \<and> lg_status dst \<noteq> LegRefunded then [dst] else []), s)"
    by (simp add: find_timed_out_legs_def evals)
  show "find_ready_destination_legs s = (Inr (if lg_status dst = LegPending \<and> (lg_status src = LegEscrowed \<or> lg_status src = LegConfirmed) then [dst] else []), s)"
    by (simp add: find_ready_destination_legs_def evals)
  show "get_settlement now (lg_fill_id src) s = (Inr (from_legs now [src, dst]), s)"
    by (simp add: get_settlement_def evals)
  show "from_legs now [src, dst] = Some \<lparr>cs_intent_id = lg_intent_id src, cs_fill_id = lg_fill_id src, cs_source_leg = src, cs_destination_leg = dst,
       cs_fully_confirmed = (lg_status src = LegConfirmed \<and> lg_status dst = LegConfirmed),
       cs_timed_out = (\<not> (lg_status src = LegConfirmed \<and> lg_status dst = LegConfirmed) \<and> (lg_timeout_at src < now \<or> lg_timeout_at dst < now))\<rparr>"
    by (simp add: from_legs_def Let_def d)
  show "lg_status dst \<noteq> LegConfirmed \<Longrightarrow> finalizable s = []" by (simp add: finalizable_def d)
qed

lemma update_leg_pair:
  assumes "leg_pair s src dst"
  shows "update_leg_status (lg_id src) st tx err s =
      (Inr (), s\<lparr>db_legs := [src\<lparr>lg_status := st, lg_tx_hash := coalesce tx (lg_tx_hash src), lg_error := coalesce err (lg_error src)\<rparr>, dst]\<rparr>)"
    and "update_leg_status (lg_id dst) st tx err s =
      (Inr (), s\<lparr>db_legs := [src, dst\<lparr>lg_status := st, lg_tx_hash := coalesce tx (lg_tx_hash dst), lg_error := coalesce err (lg_error dst)\<rparr>]\<rparr>)"
  using leg_pairD [OF assms]
  by (simp_all add: update_leg_status_def update_legs_def bindA_def map_errA_def sql_exec_def ensureA_def tick_no_faults)

lemma confirm_leg_pair:
  assumes "leg_pair s src dst"
  shows "confirm_leg now (lg_id src) s = (Inr (), s\<lparr>db_legs := [src\<lparr>lg_status := LegConfirmed, lg_confirmed_at := Some now\<rparr>, dst]\<rparr>)"
  using leg_pairD [OF assms]
  by (simp add: confirm_leg_def update_leg_pair [OF assms] seqA_def bindA_def coalesce_def map_errA_def sql_update_def sql_exec_def update_legs_def
      tick_no_faults)

lemmas leg_phase_evals = for_rows_answer leg_queries_pair update_leg_pair bindA_def seqA_def returnA_def ignoreA_def chain_db_def
  with_settlement_def tryA_def Let_def coalesce_def

lemma lock_round:
  assumes "leg_pair (cw_db w) src dst" and "lg_status src = LegPending" and "find_bridge bridges (lg_chain src) (lg_chain dst) = Inr b"
    and "br_lock_funds b (cw_calls w) (lock_params src dst) = Inr receipt"
  shows "lock_pending_sources now bridges w = (Inr (), w\<lparr>cw_calls := cw_calls w @ [LockCall (lock_params src dst)],
     cw_db := (cw_db w)\<lparr>db_legs := [src\<lparr>lg_status := LegEscrowed, lg_tx_hash := Some (lr_tx_hash receipt)\<rparr>, dst]\<rparr>\<rparr>)"
  using assms by (simp add: lock_pending_sources_def lock_leg_def lock_funds_def execute_source_leg_def leg_phase_evals)

lemma verify_round:
  assumes "leg_pair (cw_db w) src dst" and "lg_status src = LegEscrowed" and "lg_tx_hash src = Some tx"
    and "find_bridge bridges (lg_chain src) (lg_chain dst) = Inr b" and "br_verify_lock b (cw_calls w) tx = Inr (BridgeCompleted dest_tx)"
  shows "verify_escrowed now bridges w = (Inr (), w\<lparr>cw_calls := cw_calls w @ [VerifyCall tx],
     cw_db := (cw_db w)\<lparr>db_legs := [src\<lparr>lg_status := LegConfirmed, lg_confirmed_at := Some now\<rparr>, dst]\<rparr>\<rparr>)"
  using assms by (simp add: verify_escrowed_def verify_leg_def verify_lock_def confirm_leg_pair leg_phase_evals)

lemma release_round:
  assumes "leg_pair (cw_db w) src dst" and "lg_status src = LegConfirmed" and "lg_status dst = LegPending"
    and "find_bridge bridges (lg_chain src) (lg_chain dst) = Inr b"
    and "br_release_funds b (cw_calls w) (release_params src dst) (''msg_'' @ or_empty (lg_tx_hash src)) = Inr dest_tx"
  shows "release_destinations now bridges w = (Inr (), w\<lparr>cw_calls := cw_calls w @ [ReleaseCall (release_params src dst) (''msg_'' @ or_empty (lg_tx_hash src))],
     cw_db := (cw_db w)\<lparr>db_legs := [src, dst\<lparr>lg_status := LegExecuting, lg_tx_hash := Some dest_tx\<rparr>]\<rparr>\<rparr>)"
  using assms leg_pairD(5) [OF assms(1)]
  by (simp add: release_destinations_def release_leg_def release_funds_def mark_executing_def leg_phase_evals)

lemma timeout_round:
  assumes "leg_pair (cw_db w) src dst" and "lg_status src = LegConfirmed" and "lg_status dst = LegExecuting"
  shows "process_timeouts now w = (Inr (), if lg_timeout_at dst < now
     then w\<lparr>cw_db := (cw_db w)\<lparr>db_legs := [src, dst\<lparr>lg_status := LegRefunded, lg_error := Some ''Timeout refund''\<rparr>]\<rparr>\<rparr> else w)"
  using assms leg_pairD(4) [OF assms(1)] by (simp add: process_timeouts_def timeout_leg_def refund_leg_def leg_phase_evals)

text \<open>The last three phases only read.\<close>

lemma last_round:
  assumes "leg_pair (cw_db w) src dst" and "lg_status src = LegConfirmed" and "lg_status dst \<noteq> LegConfirmed"
  shows "finalize_completed w = (Inr (), w)" "snd (find_timed_out_legs now (cw_db w)) = cw_db w"
    "snd (find_ready_destination_legs (cw_db w)) = cw_db w"
proof -
  have "map_errA LegDbError (sql_query finalizable) (cw_db w) = (Inr [], cw_db w)"
    using leg_queries_pair(7) [OF assms(1,3)] tick_no_faults [OF leg_pairD(2) [OF assms(1)]] by (simp add: map_errA_def sql_query_def)
  then show "finalize_completed w = (Inr (), w)" by (simp add: finalize_completed_def for_rows_answer returnA_def)
qed (simp_all add: leg_queries_pair [OF assms(1)] assms(2))

lemma idle_round:
  assumes "leg_pair (cw_db w) src dst" and "lg_status src = LegConfirmed" and "lg_status dst = LegExecuting"
  shows "lock_pending_sources now bridges w = (Inr (), w)" "verify_escrowed now bridges w = (Inr (), w)"
    "release_destinations now bridges w = (Inr (), w)"
  using assms by (simp_all add: lock_pending_sources_def verify_escrowed_def release_destinations_def leg_phase_evals)

text \<open>
  One settlement over a bridge that carries out every call. The first round locks the source funds, confirms
  the source leg and releases the destination funds, once each, for the amounts and addresses of the legs.
  A round after the time-out marks the released destination leg as refunded, without any call
  of a bridge, and the source leg stays confirmed.
\<close>

theorem settlement_released_then_refunded:
  assumes pair: "leg_pair (cw_db w) src dst" and new: "lg_status src = LegPending" "lg_status dst = LegPending"
    and route: "find_bridge bridges (lg_chain src) (lg_chain dst) = Inr b" "willing b"
    and time: "now \<le> lg_timeout_at dst" "lg_timeout_at dst < later"
  shows "\<exists>w1 w2 tx dtx. cross_chain_cycle now bridges w = (Inr (), w1) \<and> cross_chain_cycle later bridges w1 = (Inr (), w2) \<and>
      db_legs (cw_db w1) = [src\<lparr>lg_status := LegConfirmed, lg_tx_hash := Some tx, lg_confirmed_at := Some now\<rparr>,
        dst\<lparr>lg_status := LegExecuting, lg_tx_hash := Some dtx\<rparr>] \<and>
      cw_calls w1 = cw_calls w @ [LockCall \<lparr>bp_source_chain = lg_chain src, bp_dest_chain = lg_chain dst, bp_token = or_empty (lg_token_mint src),
          bp_amount = word_of_int (lg_amount src), bp_sender = lg_from_address src, bp_recipient = lg_to_address dst\<rparr>,
        VerifyCall tx, ReleaseCall \<lparr>bp_source_chain = lg_chain src, bp_dest_chain = lg_chain dst, bp_token = or_empty (lg_token_mint dst),
          bp_amount = word_of_int (lg_amount dst), bp_sender = lg_from_address src, bp_recipient = lg_to_address dst\<rparr> (''msg_'' @ tx)] \<and>
      cw_calls w2 = cw_calls w1 \<and> map lg_status (db_legs (cw_db w2)) = [LegConfirmed, LegRefunded]"
proof -
  note d = leg_pairD [OF pair]
  obtain receipt where a1: "br_lock_funds b (cw_calls w) (lock_params src dst) = Inr receipt" using route(2) unfolding willing_def by blast
  define tx where "tx = lr_tx_hash receipt"
  define s1 where "s1 = src\<lparr>lg_status := LegEscrowed, lg_tx_hash := Some tx\<rparr>"
  define v1 where "v1 = w\<lparr>cw_calls := cw_calls w @ [LockCall (lock_params src dst)], cw_db := (cw_db w)\<lparr>db_legs := [s1, dst]\<rparr>\<rparr>"
  have p1: "lock_pending_sources now bridges w = (Inr (), v1)" unfolding v1_def s1_def tx_def by (rule lock_round [OF pair new(1) route(1) a1])
  have q1: "leg_pair (cw_db v1) s1 dst" using d by (simp add: leg_pair_def v1_def s1_def)
  obtain vtx where a2: "br_verify_lock b (cw_calls v1) tx = Inr (BridgeCompleted vtx)" using route(2) unfolding willing_def by blast
  define s2 where "s2 = s1\<lparr>lg_status := LegConfirmed, lg_confirmed_at := Some now\<rparr>"
  define v2 where "v2 = v1\<lparr>cw_calls := cw_calls v1 @ [VerifyCall tx], cw_db := (cw_db v1)\<lparr>db_legs := [s2, dst]\<rparr>\<rparr>"
  have p2: "verify_escrowed now bridges v1 = (Inr (), v2)"
    unfolding v2_def s2_def by (rule verify_round [OF q1 _ _ _ a2]) (use route in \<open>simp_all add: s1_def\<close>)
  have q2: "leg_pair (cw_db v2) s2 dst" using d by (simp add: leg_pair_def v2_def v1_def s2_def s1_def)
  have same: "release_params s2 dst = release_params src dst" "or_empty (lg_tx_hash s2) = tx" "lg_status s2 = LegConfirmed"
    by (simp_all add: release_params_def s2_def s1_def or_empty_def)
  obtain dtx where a3: "br_release_funds b (cw_calls v2) (release_params s2 dst) (''msg_'' @ or_empty (lg_tx_hash s2)) = Inr dtx"
    using route(2) unfolding willing_def by blast
  define d3 where "d3 = dst\<lparr>lg_status := LegExecuting, lg_tx_hash := Some dtx\<rparr>"
  define v3 where "v3 = v2\<lparr>cw_calls := cw_calls v2 @ [ReleaseCall (release_params s2 dst) (''msg_'' @ or_empty (lg_tx_hash s2))],
     cw_db := (cw_db v2)\<lparr>db_legs := [s2, d3]\<rparr>\<rparr>"
  have p3: "release_destinations now bridges v2 = (Inr (), v3)"
    unfolding v3_def d3_def by (rule release_round [OF q2 _ new(2) _ a3]) (use route in \<open>simp_all add: s2_def s1_def\<close>)
  have q3: "leg_pair (cw_db v3) s2 d3" "lg_status d3 = LegExecuting" using d by (simp_all add: leg_pair_def v3_def v2_def v1_def s2_def s1_def d3_def)
  have t3: "lg_timeout_at d3 = lg_timeout_at dst" by (simp add: d3_def)
  define v4 where "v4 = v3\<lparr>cw_db := (cw_db v3)\<lparr>db_legs := [s2, d3\<lparr>lg_status := LegRefunded, lg_error := Some ''Timeout refund''\<rparr>]\<rparr>\<rparr>"
  have q4: "leg_pair (cw_db v4) s2 (d3\<lparr>lg_status := LegRefunded, lg_error := Some ''Timeout refund''\<rparr>)"
    using leg_pairD [OF q3(1)] by (simp add: leg_pair_def v4_def)
  have first: "cross_chain_cycle now bridges w = (Inr (), v3)"
    using time by (simp add: cross_chain_cycle_def seqA_def bindA_def p1 p2 p3 timeout_round [OF q3(1) same(3) q3(2)] t3
        last_round [OF q3(1) same(3)] q3(2) ignoreA_def chain_db_def leg_queries_pair [OF q3(1)] same(3))
  have second: "cross_chain_cycle later bridges v3 = (Inr (), v4)"
    using time by (simp add: cross_chain_cycle_def seqA_def bindA_def idle_round [OF q3(1) same(3) q3(2)] timeout_round [OF q3(1) same(3) q3(2)] t3
        v4_def [symmetric] last_round [OF q4 same(3)] ignoreA_def chain_db_def leg_queries_pair [OF q4] same(3))
  have "db_legs (cw_db v3) = [src\<lparr>lg_status := LegConfirmed, lg_tx_hash := Some tx, lg_confirmed_at := Some now\<rparr>,
      dst\<lparr>lg_status := LegExecuting, lg_tx_hash := Some dtx\<rparr>]" by (simp add: v3_def s2_def s1_def d3_def)
  moreover have "cw_calls v3 = cw_calls w @ [LockCall \<lparr>bp_source_chain = lg_chain src, bp_dest_chain = lg_chain dst, bp_token = or_empty (lg_token_mint src),
          bp_amount = word_of_int (lg_amount src), bp_sender = lg_from_address src, bp_recipient = lg_to_address dst\<rparr>,
        VerifyCall tx, ReleaseCall \<lparr>bp_source_chain = lg_chain src, bp_dest_chain = lg_chain dst, bp_token = or_empty (lg_token_mint dst),
          bp_amount = word_of_int (lg_amount dst), bp_sender = lg_from_address src, bp_recipient = lg_to_address dst\<rparr> (''msg_'' @ tx)]"
    unfolding lock_params_def [symmetric] release_params_def [symmetric] by (simp add: v3_def v2_def v1_def same)
  moreover have "cw_calls v4 = cw_calls v3" "map lg_status (db_legs (cw_db v4)) = [LegConfirmed, LegRefunded]" by (simp_all add: v4_def same(3))
  ultimately show ?thesis using first second by (intro exI [of _ v3] exI [of _ v4] exI [of _ tx] exI [of _ dtx] conjI)
qed

definition route_bridge :: bridge_adapter where
  "route_bridge = \<lparr>br_name = ''bridge'', br_supports_route = (\<lambda>_ _. True),
     br_lock_funds = (\<lambda>_ _. Inr \<lparr>lr_tx_hash = ''0x1'', lr_message_id = ''m'', lr_estimated_finality_secs = 60\<rparr>),
     br_verify_lock = (\<lambda>_ _. Inr (BridgeCompleted ''0x2'')), br_release_funds = (\<lambda>_ _ _. Inr ''0x3'')\<rparr>"

definition settlement_db :: pgdb where
  "settlement_db = snd (create_settlement 5 7 3 ''ethereum'' ''solana'' ''user'' ''escrow'' ''pool'' ''user'' None None 100
     (empty_db\<lparr>db_intents := [Intent_new 7 0 ''user'' ''ETH'' ''SOL'' 100 90 0]\<rparr>))"

definition sample_source_leg :: cross_chain_leg where
  "sample_source_leg = new_leg 5 100 7 3 0 ''ethereum'' ''user'' ''escrow'' None 100"

definition sample_dest_leg :: cross_chain_leg where
  "sample_dest_leg = new_leg 5 101 7 3 1 ''solana'' ''pool'' ''user'' None 100"

lemma settlement_db_pair: "leg_pair settlement_db sample_source_leg sample_dest_leg"
  by (simp add: leg_pair_def settlement_db_def create_settlement_def insert_leg_def new_leg_def sample_source_leg_def sample_dest_leg_def
      empty_db_def Intent_new_def db_evals)

theorem settlement_released_then_refunded_witness:
  "\<exists>w1 w2. cross_chain_cycle 10 [route_bridge] \<lparr>cw_db = settlement_db, cw_calls = []\<rparr> = (Inr (), w1) \<and>
     cross_chain_cycle 700 [route_bridge] w1 = (Inr (), w2) \<and> map lg_status (db_legs (cw_db w2)) = [LegConfirmed, LegRefunded]"
proof -
  have "willing route_bridge" by (simp add: willing_def route_bridge_def)
  then show ?thesis
    using settlement_released_then_refunded [of "\<lparr>cw_db = settlement_db, cw_calls = []\<rparr>" sample_source_leg sample_dest_leg
        "[route_bridge]" route_bridge 10 700] settlement_db_pair
    by (auto simp: sample_source_leg_def sample_dest_leg_def new_leg_def find_bridge_def route_bridge_def DEFAULT_TIMEOUT_SECS_def)
qed

theorem destination_never_confirmed_witness:
  "finalizable settlement_db = [] \<and> length (db_legs settlement_db) = 2"
proof -
  have "leg_call\<^sup>*\<^sup>* (empty_db\<lparr>db_intents := [Intent_new 7 0 ''user'' ''ETH'' ''SOL'' 100 90 0]\<rparr>) settlement_db"
    unfolding settlement_db_def by (intro r_into_rtranclp call_settlement)
  then show ?thesis using destination_never_confirmed leg_pairD(1) [OF settlement_db_pair] by (force simp: empty_db_def)
qed

end
