(* ===== verification/Htlc_Swap.thy ===== *)
theory Htlc_Swap
  imports Bridge "HOL-Library.Product_Lexorder"
begin

text \<open>
  Atomic swaps with hash time locks: the records of the swaps (src/cross_chain/htlc/model.rs), the
  service that moves a swap along its life cycle (service.rs) and the worker that drives it over
  the bridges (worker.rs). SHA-256, the hexadecimal encoding and the addition of a duration to a time (which
  panics out of range) come from libraries: they are fields of the environment, with the clock.
\<close>

record htlc_env =
  he_sha256 :: "bytes \<Rightarrow> bytes"
  he_hex :: "bytes \<Rightarrow> string"
  he_unhex :: "string \<Rightarrow> string + bytes"
  he_add_seconds :: "timestamp \<Rightarrow> int \<Rightarrow> timestamp option"
  he_now :: timestamp

section \<open>Secrets\<close>

definition hash_secret :: "htlc_env \<Rightarrow> bytes \<Rightarrow> bytes" where
  "hash_secret env secret = he_sha256 env secret"

definition verify_secret :: "htlc_env \<Rightarrow> bytes \<Rightarrow> bytes \<Rightarrow> bool" where
  "verify_secret env secret expected_hash = (hash_secret env secret = expected_hash)"

section \<open>The service\<close>

definition DEFAULT_TIMELOCK_SECS :: int where "DEFAULT_TIMELOCK_SECS = 1800"

datatype htlc_error =
    SwapNotFound | SwapInvalidState string | SecretMismatch | SwapTimelockExpired | SwapDbError sqlx_error | ClockPanic

record create_htlc_params =
  ch_fill_id :: uuid
  ch_intent_id :: uuid
  ch_solver_id :: string
  ch_source_chain :: string
  ch_source_sender :: string
  ch_source_receiver :: string
  ch_source_token :: "string option"
  ch_source_amount :: i64
  ch_dest_chain :: string
  ch_dest_sender :: string
  ch_dest_receiver :: string
  ch_dest_token :: "string option"
  ch_dest_amount :: i64
  ch_timelock_secs :: i64

text \<open>The row: the columns the statement does not name are null.\<close>

definition new_swap :: "htlc_env \<Rightarrow> create_htlc_params \<Rightarrow> bytes \<Rightarrow> timestamp \<Rightarrow> uuid \<Rightarrow> htlc_swap" where
  "new_swap env p secret_hash timelock i =
     \<lparr>hs_id = i, hs_fill_id = ch_fill_id p, hs_intent_id = ch_intent_id p, hs_secret_hash = secret_hash, hs_secret = None,
      hs_source_chain = ch_source_chain p, hs_source_sender = ch_source_sender p, hs_source_receiver = ch_source_receiver p,
      hs_source_token = ch_source_token p, hs_source_amount = ch_source_amount p, hs_source_lock_tx = None,
      hs_source_unlock_tx = None, hs_source_timelock = timelock, hs_dest_chain = ch_dest_chain p,
      hs_dest_sender = ch_dest_sender p, hs_dest_receiver = ch_dest_receiver p, hs_dest_token = ch_dest_token p,
      hs_dest_amount = ch_dest_amount p, hs_dest_lock_tx = None, hs_dest_claim_tx = None, hs_status = SwapCreated,
      hs_solver_id = ch_solver_id p, hs_error = None, hs_created_at = he_now env, hs_locked_at = None,
      hs_claimed_at = None, hs_completed_at = None\<rparr>"

definition insert_swap :: "htlc_swap \<Rightarrow> unit dbm" where
  "insert_swap r =
     sql_exec (\<lambda>s.
       if hs_intent_id r \<notin> in_id ` set (db_intents s) then Inl ForeignKeyViolation
       else if hs_id r \<in> hs_id ` set (db_swaps s) \<or> hs_fill_id r \<in> hs_fill_id ` set (db_swaps s) then Inl UniqueViolation
       else Inr ((), s\<lparr>db_swaps := db_swaps s @ [r]\<rparr>))"

text \<open>\<open>secret\<close> is the random secret the call draws.\<close>

definition create_swap :: "htlc_env \<Rightarrow> bytes \<Rightarrow> create_htlc_params \<Rightarrow> (pgdb, htlc_error, htlc_swap \<times> bytes) action" where
  "create_swap env secret p =
     (let timelock_secs = (if ch_timelock_secs p > 0 then ch_timelock_secs p else DEFAULT_TIMELOCK_SECS) in
      case he_add_seconds env (he_now env) timelock_secs of
        None \<Rightarrow> raiseA ClockPanic
      | Some timelock \<Rightarrow>
          bindA new_uuid (\<lambda>i.
          let swap = new_swap env p (hash_secret env secret) timelock i in
          seqA (map_errA SwapDbError (insert_swap swap))
          (returnA (swap, secret))))"

definition get_swap :: "uuid \<Rightarrow> (pgdb, htlc_error, htlc_swap) action" where
  "get_swap swap_id =
     bindA (map_errA SwapDbError (sql_query (\<lambda>s. List.find (\<lambda>r. hs_id r = swap_id) (db_swaps s)))) (\<lambda>found.
     case found of None \<Rightarrow> raiseA SwapNotFound | Some r \<Rightarrow> returnA r)"

definition get_swap_by_fill :: "uuid \<Rightarrow> (pgdb, htlc_error, htlc_swap option) action" where
  "get_swap_by_fill fill_id =
     map_errA SwapDbError (sql_query (\<lambda>s. List.find (\<lambda>r. hs_fill_id r = fill_id) (db_swaps s)))"

text \<open>An \<open>UPDATE htlc_swaps\<close> of one swap under a condition on its row; it returns the number of rows.\<close>

definition update_swap :: "uuid \<Rightarrow> (htlc_swap \<Rightarrow> bool) \<Rightarrow> (htlc_swap \<Rightarrow> htlc_swap) \<Rightarrow> (pgdb, htlc_error, nat) action" where
  "update_swap swap_id P f =
     map_errA SwapDbError (sql_exec (\<lambda>s.
       Inr (length (filter (\<lambda>r. hs_id r = swap_id \<and> P r) (db_swaps s)),
            s\<lparr>db_swaps := map (\<lambda>r. if hs_id r = swap_id \<and> P r then f r else r) (db_swaps s)\<rparr>)))"

definition guarded_update ::
  "uuid \<Rightarrow> (htlc_swap \<Rightarrow> bool) \<Rightarrow> (htlc_swap \<Rightarrow> htlc_swap) \<Rightarrow> string \<Rightarrow> (pgdb, htlc_error, unit) action" where
  "guarded_update swap_id P f msg =
     bindA (update_swap swap_id P f) (\<lambda>rows_affected. ensureA (rows_affected \<noteq> 0) (SwapInvalidState msg))"

definition store_secret :: "htlc_env \<Rightarrow> uuid \<Rightarrow> bytes \<Rightarrow> (pgdb, htlc_error, unit) action" where
  "store_secret env swap_id secret =
     bindA (get_swap swap_id) (\<lambda>swap.
     seqA (ensureA (length (hs_secret_hash swap) = 32) (SwapInvalidState ''Stored hash has wrong length''))
     (seqA (ensureA (verify_secret env secret (hs_secret_hash swap)) SecretMismatch)
     (bindA (update_swap swap_id (\<lambda>r. hs_status r = SwapCreated) (\<lambda>r. r\<lparr>hs_secret := Some secret\<rparr>)) (\<lambda>_.
      returnA ()))))"

definition record_source_lock :: "htlc_env \<Rightarrow> uuid \<Rightarrow> string \<Rightarrow> (pgdb, htlc_error, unit) action" where
  "record_source_lock env swap_id lock_tx =
     guarded_update swap_id (\<lambda>r. hs_status r = SwapCreated)
       (\<lambda>r. r\<lparr>hs_status := SourceLocked, hs_source_lock_tx := Some lock_tx, hs_locked_at := Some (he_now env)\<rparr>)
       ''Expected status: created''"

definition record_dest_lock :: "uuid \<Rightarrow> string \<Rightarrow> (pgdb, htlc_error, unit) action" where
  "record_dest_lock swap_id dest_lock_tx =
     guarded_update swap_id (\<lambda>r. hs_status r = SourceLocked) (\<lambda>r. r\<lparr>hs_dest_lock_tx := Some dest_lock_tx\<rparr>)
       ''Expected status: source_locked''"

definition record_dest_claim :: "htlc_env \<Rightarrow> uuid \<Rightarrow> bytes \<Rightarrow> string \<Rightarrow> (pgdb, htlc_error, unit) action" where
  "record_dest_claim env swap_id secret claim_tx =
     bindA (get_swap swap_id) (\<lambda>swap.
     seqA (ensureA (length (hs_secret_hash swap) = 32) (SwapInvalidState ''Stored hash has wrong length''))
     (seqA (ensureA (verify_secret env secret (hs_secret_hash swap)) SecretMismatch)
     (guarded_update swap_id (\<lambda>r. hs_status r = SourceLocked)
        (\<lambda>r. r\<lparr>hs_status := DestClaimed, hs_secret := Some secret, hs_dest_claim_tx := Some claim_tx,
               hs_claimed_at := Some (he_now env)\<rparr>)
        ''Expected status: source_locked'')))"

definition record_dest_claim_with_stored_secret :: "htlc_env \<Rightarrow> uuid \<Rightarrow> string \<Rightarrow> (pgdb, htlc_error, unit) action" where
  "record_dest_claim_with_stored_secret env swap_id claim_tx =
     bindA (get_swap swap_id) (\<lambda>swap.
     case hs_secret swap of
       None \<Rightarrow> raiseA (SwapInvalidState ''Secret not stored - call store_secret first'')
     | Some secret \<Rightarrow>
         seqA (ensureA (length secret = 32) (SwapInvalidState ''Stored secret has wrong length''))
         (seqA (ensureA (length (hs_secret_hash swap) = 32) (SwapInvalidState ''Stored hash has wrong length''))
         (seqA (ensureA (verify_secret env secret (hs_secret_hash swap)) SecretMismatch)
         (guarded_update swap_id (\<lambda>r. hs_status r = SourceLocked)
            (\<lambda>r. r\<lparr>hs_status := DestClaimed, hs_dest_claim_tx := Some claim_tx, hs_claimed_at := Some (he_now env)\<rparr>)
            ''Expected status: source_locked''))))"

definition record_dest_claim_unchecked :: "htlc_env \<Rightarrow> uuid \<Rightarrow> string \<Rightarrow> (pgdb, htlc_error, unit) action" where
  "record_dest_claim_unchecked env swap_id claim_tx =
     guarded_update swap_id (\<lambda>r. hs_status r = SourceLocked)
       (\<lambda>r. r\<lparr>hs_status := DestClaimed, hs_dest_claim_tx := Some claim_tx, hs_claimed_at := Some (he_now env)\<rparr>)
       ''Expected status: source_locked''"

definition complete_swap :: "htlc_env \<Rightarrow> uuid \<Rightarrow> string \<Rightarrow> (pgdb, htlc_error, unit) action" where
  "complete_swap env swap_id unlock_tx =
     guarded_update swap_id (\<lambda>r. hs_status r = DestClaimed)
       (\<lambda>r. r\<lparr>hs_status := SourceUnlocked, hs_source_unlock_tx := Some unlock_tx, hs_completed_at := Some (he_now env)\<rparr>)
       ''Expected status: dest_claimed''"

definition refund_swap :: "htlc_env \<Rightarrow> uuid \<Rightarrow> (pgdb, htlc_error, unit) action" where
  "refund_swap env swap_id =
     bindA (get_swap swap_id) (\<lambda>swap.
     seqA (ensureA (\<not> he_now env < hs_source_timelock swap) (SwapInvalidState ''Timelock has not expired yet''))
     (seqA (ensureA (\<not> (hs_status swap = DestClaimed \<or> hs_status swap = SourceUnlocked))
              (SwapInvalidState ''Cannot refund: secret already revealed''))
     (guarded_update swap_id (\<lambda>r. hs_status r = SwapCreated \<or> hs_status r = SourceLocked)
        (\<lambda>r. r\<lparr>hs_status := SwapRefunded, hs_completed_at := Some (he_now env)\<rparr>)
        ''Not in refundable state'')))"

definition fail_swap :: "htlc_env \<Rightarrow> uuid \<Rightarrow> string \<Rightarrow> (pgdb, htlc_error, unit) action" where
  "fail_swap env swap_id error_msg =
     bindA (update_swap swap_id (\<lambda>r. hs_status r \<noteq> SourceUnlocked \<and> hs_status r \<noteq> SwapRefunded)
       (\<lambda>r. r\<lparr>hs_status := SwapFailed, hs_error := Some error_msg, hs_completed_at := Some (he_now env)\<rparr>)) (\<lambda>_.
     returnA ())"

text \<open>The secret in the data of an event; \<open>show_len\<close> is the decimal form of a length.\<close>

definition extract_secret_from_logs :: "htlc_env \<Rightarrow> (nat \<Rightarrow> string) \<Rightarrow> string \<Rightarrow> htlc_error + bytes" where
  "extract_secret_from_logs env show_len log_data =
     (let hex_str = (if take 2 log_data = ''0x'' then drop 2 log_data else log_data) in
      case he_unhex env hex_str of
        Inl e \<Rightarrow> Inl (SwapInvalidState (''Invalid hex in claim log: '' @ e))
      | Inr data \<Rightarrow>
          if length data < 32
          then Inl (SwapInvalidState (''Claim log data too short: '' @ show_len (length data) @ '' bytes, need >= 32''))
          else Inr (take 32 data))"

section \<open>Queries of the worker\<close>

text \<open>The order of a nullable column: nulls last.\<close>

definition nulls_last :: "timestamp option \<Rightarrow> bool \<times> timestamp" where
  "nulls_last t = (case t of None \<Rightarrow> (True, 0) | Some x \<Rightarrow> (False, x))"

definition find_pending_locks :: "htlc_env \<Rightarrow> (pgdb, htlc_error, htlc_swap list) action" where
  "find_pending_locks env =
     map_errA SwapDbError (sql_query (\<lambda>s. take 50 (sort_key hs_created_at
       (filter (\<lambda>r. hs_status r = SwapCreated \<and> hs_source_timelock r > he_now env) (db_swaps s)))))"

definition find_awaiting_dest_lock :: "(pgdb, htlc_error, htlc_swap list) action" where
  "find_awaiting_dest_lock =
     map_errA SwapDbError (sql_query (\<lambda>s. take 50 (sort_key (\<lambda>r. nulls_last (hs_locked_at r))
       (filter (\<lambda>r. hs_status r = SourceLocked \<and> hs_dest_lock_tx r = None) (db_swaps s)))))"

definition find_claimable :: "(pgdb, htlc_error, htlc_swap list) action" where
  "find_claimable =
     map_errA SwapDbError (sql_query (\<lambda>s. take 50 (sort_key (\<lambda>r. nulls_last (hs_locked_at r))
       (filter (\<lambda>r. hs_status r = SourceLocked \<and> hs_dest_lock_tx r \<noteq> None) (db_swaps s)))))"

definition find_pending_unlocks :: "(pgdb, htlc_error, htlc_swap list) action" where
  "find_pending_unlocks =
     map_errA SwapDbError (sql_query (\<lambda>s. take 50 (sort_key (\<lambda>r. nulls_last (hs_claimed_at r))
       (filter (\<lambda>r. hs_status r = DestClaimed \<and> hs_secret r \<noteq> None) (db_swaps s)))))"

definition find_expired :: "htlc_env \<Rightarrow> (pgdb, htlc_error, htlc_swap list) action" where
  "find_expired env =
     map_errA SwapDbError (sql_query (\<lambda>s. take 50 (sort_key hs_source_timelock
       (filter (\<lambda>r. hs_source_timelock r < he_now env \<and> (hs_status r = SwapCreated \<or> hs_status r = SourceLocked)) (db_swaps s)))))"

section \<open>The worker\<close>

definition source_params :: "htlc_swap \<Rightarrow> bridge_transfer_params" where
  "source_params swap =
     \<lparr>bp_source_chain = hs_source_chain swap, bp_dest_chain = hs_dest_chain swap,
      bp_token = (case hs_source_token swap of None \<Rightarrow> '''' | Some t \<Rightarrow> t),
      bp_amount = word_of_int (hs_source_amount swap), bp_sender = hs_source_sender swap,
      bp_recipient = hs_source_receiver swap\<rparr>"

definition dest_params :: "htlc_swap \<Rightarrow> bridge_transfer_params" where
  "dest_params swap =
     \<lparr>bp_source_chain = hs_source_chain swap, bp_dest_chain = hs_dest_chain swap,
      bp_token = (case hs_dest_token swap of None \<Rightarrow> '''' | Some t \<Rightarrow> t),
      bp_amount = word_of_int (hs_dest_amount swap), bp_sender = hs_dest_sender swap,
      bp_recipient = hs_dest_receiver swap\<rparr>"

definition lock_source :: "htlc_env \<Rightarrow> bridge_registry \<Rightarrow> htlc_swap \<Rightarrow> (htlc_error, unit) chain_action" where
  "lock_source env bridges swap =
     (case find_bridge bridges (hs_source_chain swap) (hs_dest_chain swap) of
        Inl e \<Rightarrow> ignoreA (chain_db (fail_swap env (hs_id swap) (bridge_error_text e)))
      | Inr bridge \<Rightarrow>
          bindA (lock_funds bridge (source_params swap)) (\<lambda>r.
          case r of
            Inr receipt \<Rightarrow> ignoreA (chain_db (record_source_lock env (hs_id swap) (lr_tx_hash receipt)))
          | Inl e \<Rightarrow> ignoreA (chain_db (fail_swap env (hs_id swap) (''Source lock failed: '' @ bridge_error_text e)))))"

definition phase_lock_source :: "htlc_env \<Rightarrow> bridge_registry \<Rightarrow> (htlc_error, unit) chain_action" where
  "phase_lock_source env bridges = for_rows (find_pending_locks env) (lock_source env bridges)"

definition monitor_dest_lock :: "htlc_env \<Rightarrow> bridge_registry \<Rightarrow> htlc_swap \<Rightarrow> (htlc_error, unit) chain_action" where
  "monitor_dest_lock env bridges swap =
     (case hs_source_lock_tx swap of
        None \<Rightarrow> returnA ()
      | Some source_tx \<Rightarrow>
          (case find_bridge bridges (hs_source_chain swap) (hs_dest_chain swap) of
             Inl e \<Rightarrow> returnA ()
           | Inr bridge \<Rightarrow>
               bindA (verify_lock bridge source_tx) (\<lambda>r.
               case r of
                 Inr (BridgeCompleted dest_tx) \<Rightarrow> ignoreA (chain_db (record_dest_lock (hs_id swap) dest_tx))
               | Inr (BridgeFailed reason) \<Rightarrow> ignoreA (chain_db (fail_swap env (hs_id swap) (''Bridge failed: '' @ reason)))
               | _ \<Rightarrow> returnA ())))"

definition phase_monitor_dest_lock :: "htlc_env \<Rightarrow> bridge_registry \<Rightarrow> (htlc_error, unit) chain_action" where
  "phase_monitor_dest_lock env bridges = for_rows find_awaiting_dest_lock (monitor_dest_lock env bridges)"

definition claim_destination :: "htlc_env \<Rightarrow> bridge_registry \<Rightarrow> htlc_swap \<Rightarrow> (htlc_error, unit) chain_action" where
  "claim_destination env bridges swap =
     (case hs_secret swap of
        None \<Rightarrow> returnA ()
      | Some secret \<Rightarrow>
          if length secret \<noteq> 32 then ignoreA (chain_db (fail_swap env (hs_id swap) ''Stored secret has wrong length''))
          else if length (hs_secret_hash swap) \<noteq> 32 then ignoreA (chain_db (fail_swap env (hs_id swap) ''Secret hash wrong length''))
          else if \<not> verify_secret env secret (hs_secret_hash swap)
          then ignoreA (chain_db (fail_swap env (hs_id swap) ''Stored secret does not match hash''))
          else
            (case find_bridge bridges (hs_source_chain swap) (hs_dest_chain swap) of
               Inl e \<Rightarrow> returnA ()
             | Inr bridge \<Rightarrow>
                 bindA (release_funds bridge (dest_params swap) (''htlc_secret_'' @ he_hex env secret)) (\<lambda>r.
                 case r of
                   Inr claim_tx \<Rightarrow> ignoreA (chain_db (record_dest_claim env (hs_id swap) secret claim_tx))
                 | Inl e \<Rightarrow> returnA ())))"

definition phase_claim_destination :: "htlc_env \<Rightarrow> bridge_registry \<Rightarrow> (htlc_error, unit) chain_action" where
  "phase_claim_destination env bridges = for_rows find_claimable (claim_destination env bridges)"

definition unlock_source :: "htlc_env \<Rightarrow> bridge_registry \<Rightarrow> htlc_swap \<Rightarrow> (htlc_error, unit) chain_action" where
  "unlock_source env bridges swap =
     (case hs_secret swap of
        None \<Rightarrow> returnA ()
      | Some secret \<Rightarrow>
          if length secret \<noteq> 32 then returnA ()
          else if length (hs_secret_hash swap) \<noteq> 32 then returnA ()
          else if \<not> verify_secret env secret (hs_secret_hash swap)
          then ignoreA (chain_db (fail_swap env (hs_id swap) ''Secret/hash mismatch at unlock''))
          else
            (case find_bridge bridges (hs_source_chain swap) (hs_dest_chain swap) of
               Inl e \<Rightarrow> returnA ()
             | Inr bridge \<Rightarrow>
                 bindA (release_funds bridge (source_params swap) (''htlc_unlock_'' @ he_hex env secret)) (\<lambda>r.
                 case r of
                   Inr unlock_tx \<Rightarrow> ignoreA (chain_db (complete_swap env (hs_id swap) unlock_tx))
                 | Inl e \<Rightarrow> returnA ())))"

definition phase_unlock_source :: "htlc_env \<Rightarrow> bridge_registry \<Rightarrow> (htlc_error, unit) chain_action" where
  "phase_unlock_source env bridges = for_rows find_pending_unlocks (unlock_source env bridges)"

definition phase_refund_expired :: "htlc_env \<Rightarrow> (htlc_error, unit) chain_action" where
  "phase_refund_expired env = for_rows (find_expired env) (\<lambda>swap. ignoreA (chain_db (refund_swap env (hs_id swap))))"

text \<open>One round of the loop.\<close>

definition htlc_cycle :: "htlc_env \<Rightarrow> bridge_registry \<Rightarrow> (htlc_error, unit) chain_action" where
  "htlc_cycle env bridges =
     seqA (phase_lock_source env bridges)
     (seqA (phase_monitor_dest_lock env bridges)
     (seqA (phase_claim_destination env bridges)
     (seqA (phase_unlock_source env bridges)
     (phase_refund_expired env))))"

section \<open>The life cycle of a swap\<close>

text \<open>The terms of the deal never change.\<close>

definition same_deal :: "htlc_swap \<Rightarrow> htlc_swap \<Rightarrow> bool" where
  "same_deal r r' \<longleftrightarrow>
     hs_id r' = hs_id r \<and> hs_fill_id r' = hs_fill_id r \<and> hs_intent_id r' = hs_intent_id r \<and>
     hs_secret_hash r' = hs_secret_hash r \<and> hs_source_timelock r' = hs_source_timelock r \<and>
     source_params r' = source_params r \<and> dest_params r' = dest_params r \<and>
     hs_solver_id r' = hs_solver_id r \<and> hs_created_at r' = hs_created_at r"

text \<open>The states a swap can get to from a state.\<close>

fun successors :: "htlc_status \<Rightarrow> htlc_status set" where
  "successors SwapCreated = {SourceLocked, DestClaimed, SourceUnlocked, SwapRefunded, SwapFailed}"
| "successors SourceLocked = {DestClaimed, SourceUnlocked, SwapRefunded, SwapFailed}"
| "successors DestClaimed = {SourceUnlocked, SwapFailed}"
| "successors SourceUnlocked = {}"
| "successors SwapRefunded = {}"
| "successors SwapExpired = {SwapFailed}"
| "successors SwapFailed = {}"

text \<open>What the columns of a swap say about each other; \<open>chk\<close> says that no claim was recorded without its secret.\<close>

definition swap_ok :: "(bytes \<Rightarrow> bytes) \<Rightarrow> bool \<Rightarrow> htlc_swap \<Rightarrow> bool" where
  "swap_ok sha chk r \<longleftrightarrow>
     (\<forall>secret. hs_secret r = Some secret \<longrightarrow> length secret = 32 \<and> sha secret = hs_secret_hash r) \<and>
     (hs_status r \<in> {DestClaimed, SourceUnlocked} \<longrightarrow>
        (chk \<longrightarrow> hs_secret r \<noteq> None) \<and> hs_source_lock_tx r \<noteq> None \<and> hs_dest_claim_tx r \<noteq> None \<and> hs_claimed_at r \<noteq> None) \<and>
     (hs_source_unlock_tx r \<noteq> None \<longleftrightarrow> hs_status r = SourceUnlocked) \<and>
     (hs_status r = SwapRefunded \<longrightarrow> hs_dest_claim_tx r = None \<and> (\<exists>t. hs_completed_at r = Some t \<and> hs_source_timelock r \<le> t)) \<and>
     (hs_status r = SwapCreated \<longrightarrow> hs_source_lock_tx r = None \<and> hs_dest_lock_tx r = None \<and> hs_dest_claim_tx r = None) \<and>
     (hs_status r = SourceLocked \<longrightarrow> hs_source_lock_tx r \<noteq> None \<and> hs_dest_claim_tx r = None)"

definition swap_moves :: "(bytes \<Rightarrow> bytes) \<Rightarrow> bool \<Rightarrow> htlc_swap \<Rightarrow> htlc_swap \<Rightarrow> bool" where
  "swap_moves sha chk r r' \<longleftrightarrow>
     same_deal r r' \<and> hs_status r' \<in> insert (hs_status r) (successors (hs_status r)) \<and>
     (hs_status r = SourceUnlocked \<or> hs_status r = SwapRefunded \<longrightarrow> r' = r) \<and>
     (swap_ok sha chk r \<longrightarrow> swap_ok sha chk r')"

lemma successors_trans: "b \<in> insert a (successors a) \<Longrightarrow> c \<in> insert b (successors b) \<Longrightarrow> c \<in> insert a (successors a)"
  by (cases a; cases b) auto

interpretation swaps: row_order "swap_moves sha chk" "swap_ok sha chk" for sha chk
proof
  show "swap_moves sha chk x x" for x by (simp add: swap_moves_def same_deal_def)
  show "swap_moves sha chk x z" if "swap_moves sha chk x y" "swap_moves sha chk y z" for x y z
    using that successors_trans [of "hs_status y" "hs_status x" "hs_status z"] by (auto simp: swap_moves_def same_deal_def)
  show "swap_moves sha chk x y \<Longrightarrow> swap_ok sha chk x \<Longrightarrow> swap_ok sha chk y" for x y by (simp add: swap_moves_def)
qed

text \<open>The state \<open>t\<close> has come from \<open>s\<close>: only swaps changed, along their life cycle, and the keys are distinct.\<close>

definition but_swaps :: "pgdb \<Rightarrow> pgdb" where
  "but_swaps s = s\<lparr>db_swaps := [], db_next_uuid := 0, db_faults := []\<rparr>"

definition swaps_evolve :: "(bytes \<Rightarrow> bytes) \<Rightarrow> bool \<Rightarrow> pgdb \<Rightarrow> pgdb \<Rightarrow> bool" where
  "swaps_evolve sha chk s t \<longleftrightarrow>
     but_swaps t = but_swaps s \<and> distinct (map hs_id (db_swaps t)) \<and> rows_evolve (swap_moves sha chk) (swap_ok sha chk) (db_swaps s) (db_swaps t)"

lemma but_swaps_simps [simp]:
  "but_swaps (tick s) = but_swaps s" "but_swaps (s\<lparr>db_swaps := rows\<rparr>) = but_swaps s"
  "but_swaps (s\<lparr>db_next_uuid := n\<rparr>) = but_swaps s"
  by (simp_all add: but_swaps_def tick_def)

lemma swaps_evolve_refl: "distinct (map hs_id (db_swaps s)) \<Longrightarrow> swaps_evolve sha chk s s"
  by (simp add: swaps_evolve_def swaps.evolve_refl)

lemma swaps_evolve_tick [simp]: "swaps_evolve sha chk s (tick t) = swaps_evolve sha chk s t"
  by (simp add: swaps_evolve_def)

text \<open>One change of the table after another.\<close>

lemma swaps_evolve_step:
  assumes "swaps_evolve sha chk s t" and "rows_evolve (swap_moves sha chk) (swap_ok sha chk) (db_swaps t) rows"
    and "distinct (map hs_id rows)"
  shows "swaps_evolve sha chk s (t\<lparr>db_next_uuid := n, db_swaps := rows\<rparr>)"
  using assms swaps.evolve_trans [of sha chk "db_swaps s" "db_swaps t" rows] by (simp add: swaps_evolve_def)

lemma update_swap_evolves:
  assumes "swaps_evolve sha chk s t" and "update_swap i P f t = (r, u)"
    and "\<And>x. x \<in> set (db_swaps t) \<Longrightarrow> hs_id x = i \<Longrightarrow> P x \<Longrightarrow> swap_moves sha chk x (f x)"
  shows "swaps_evolve sha chk s u"
proof -
  let ?rows = "map (\<lambda>r. if hs_id r = i \<and> P r then f r else r) (db_swaps t)"
  have "map hs_id ?rows = map hs_id (db_swaps t)"
    using assms(3) by (auto simp: swap_moves_def same_deal_def)
  then have "distinct (map hs_id ?rows)" using assms(1) by (simp only: swaps_evolve_def)
  moreover have "rows_evolve (swap_moves sha chk) (swap_ok sha chk) (db_swaps t) ?rows"
    using assms(3) by (intro swaps.evolve_update) auto
  ultimately have "swaps_evolve sha chk s (t\<lparr>db_next_uuid := db_next_uuid t, db_swaps := ?rows\<rparr>)"
    using swaps_evolve_step [OF assms(1)] by blast
  then have *: "swaps_evolve sha chk s (t\<lparr>db_swaps := ?rows\<rparr>)" by simp
  show ?thesis
    using assms(1,2) * by (cases "next_fault t") (auto simp: update_swap_def map_errA_def sql_exec_def)
qed

lemma preserves_update_swap:
  assumes "\<And>x. P x \<Longrightarrow> swap_moves sha chk x (f x)"
  shows "preserves (swaps_evolve sha chk s) (update_swap i P f)"
proof (unfold preserves_def, intro allI impI)
  fix t assume "swaps_evolve sha chk s t"
  then show "swaps_evolve sha chk s (snd (update_swap i P f t))"
    using update_swap_evolves [of sha chk s t i P f "fst (update_swap i P f t)" "snd (update_swap i P f t)"] assms by simp
qed

lemma preserves_guarded_update:
  "(\<And>x. P x \<Longrightarrow> swap_moves sha chk x (f x)) \<Longrightarrow> preserves (swaps_evolve sha chk s) (guarded_update i P f msg)"
  unfolding guarded_update_def using preserves_update_swap by blast

text \<open>What \<open>get_swap\<close> returned is still known when the update runs: it is the only row with its key.\<close>

lemma preserves_with_swap:
  assumes "\<And>t x. swaps_evolve sha chk s t \<Longrightarrow> x \<in> set (db_swaps t) \<Longrightarrow> hs_id x = i \<Longrightarrow>
      (\<And>y. y \<in> set (db_swaps t) \<Longrightarrow> hs_id y = i \<Longrightarrow> y = x) \<Longrightarrow> swaps_evolve sha chk s (snd (m x t))"
  shows "preserves (swaps_evolve sha chk s) (bindA (get_swap i) m)"
proof (unfold preserves_def, intro allI impI)
  fix t assume ev: "swaps_evolve sha chk s t"
  show "swaps_evolve sha chk s (snd (bindA (get_swap i) m t))"
  proof (cases "next_fault t \<or> List.find (\<lambda>r. hs_id r = i) (db_swaps t) = None")
    case True
    then show ?thesis using ev by (auto simp: bindA_def get_swap_def map_errA_def sql_query_def raiseA_def)
  next
    case False
    then obtain x where x: "List.find (\<lambda>r. hs_id r = i) (db_swaps t) = Some x" by blast
    have mem: "x \<in> set (db_swaps t)" "hs_id x = i" using x by (auto dest: find_Some_memD)
    have uniq: "y = x" if "y \<in> set (db_swaps t)" "hs_id y = i" for y
      using ev that mem inj_onD [of hs_id "set (db_swaps t)" y x] by (simp add: swaps_evolve_def distinct_map)
    have "swaps_evolve sha chk s (snd (m x (tick t)))"
    proof (rule assms)
      show "swaps_evolve sha chk s (tick t)" using ev by simp
      show "x \<in> set (db_swaps (tick t))" using mem by simp
      show "hs_id x = i" by (rule mem)
      show "y = x" if "y \<in> set (db_swaps (tick t))" "hs_id y = i" for y by (rule uniq) (use that in simp_all)
    qed
    then show ?thesis using False x by (simp add: bindA_def get_swap_def map_errA_def sql_query_def returnA_def)
  qed
qed

section \<open>Every operation keeps to the life cycle\<close>

lemmas swap_row_defs = swap_moves_def same_deal_def swap_ok_def source_params_def dest_params_def

lemma preserves_create_swap: "preserves (swaps_evolve (he_sha256 env) chk s) (create_swap env secret p)"
proof (unfold preserves_def, intro allI impI)
  fix t assume ev: "swaps_evolve (he_sha256 env) chk s t"
  have ok: "swap_ok (he_sha256 env) chk (new_swap env p h tl i)" for h tl i
    by (simp add: swap_ok_def new_swap_def)
  show "swaps_evolve (he_sha256 env) chk s (snd (create_swap env secret p t))"
  proof (cases "he_add_seconds env (he_now env) (if ch_timelock_secs p > 0 then ch_timelock_secs p else DEFAULT_TIMELOCK_SECS)")
    case None
    then show ?thesis using ev by (simp add: create_swap_def raiseA_def)
  next
    case (Some tl)
    let ?r = "new_swap env p (hash_secret env secret) tl (db_next_uuid t)"
    have "swaps_evolve (he_sha256 env) chk s (t\<lparr>db_next_uuid := Suc (db_next_uuid t), db_swaps := db_swaps t @ [?r]\<rparr>)"
      if "hs_id ?r \<notin> hs_id ` set (db_swaps t)"
      using ev that ok by (intro swaps_evolve_step swaps.evolve_insert) (auto simp: swaps_evolve_def)
    moreover have "swaps_evolve (he_sha256 env) chk s (t\<lparr>db_next_uuid := Suc (db_next_uuid t)\<rparr>)"
      using ev by (simp add: swaps_evolve_def)
    ultimately show ?thesis using Some
      by (auto simp: create_swap_def insert_swap_def Let_def bindA_def seqA_def new_uuid_def map_errA_def sql_exec_def returnA_def)
  qed
qed

lemma after_check:
  "(b \<Longrightarrow> swaps_evolve sha chk s (snd (m t))) \<Longrightarrow> swaps_evolve sha chk s t \<Longrightarrow> swaps_evolve sha chk s (snd (seqA (ensureA b e) m t))"
  by (simp add: seqA_def bindA_def ensureA_def)

lemma after_update:
  assumes "swaps_evolve sha chk s t"
    and "\<And>x. x \<in> set (db_swaps t) \<Longrightarrow> hs_id x = i \<Longrightarrow> P x \<Longrightarrow> swap_moves sha chk x (f x)"
  shows "swaps_evolve sha chk s (snd (update_swap i P f t))" "swaps_evolve sha chk s (snd (guarded_update i P f msg t))"
    "swaps_evolve sha chk s (snd (bindA (update_swap i P f) (\<lambda>_. returnA ()) t))"
proof -
  obtain r u where u: "update_swap i P f t = (r, u)" by fastforce
  have "swaps_evolve sha chk s u" using update_swap_evolves [OF assms(1) u assms(2)] by blast
  then show "swaps_evolve sha chk s (snd (update_swap i P f t))" "swaps_evolve sha chk s (snd (guarded_update i P f msg t))"
    "swaps_evolve sha chk s (snd (bindA (update_swap i P f) (\<lambda>_. returnA ()) t))"
    using u by (auto simp: guarded_update_def bindA_def ensureA_def returnA_def split: sum.splits)
qed

lemma preserves_store_secret:
  assumes "length secret = 32"
  shows "preserves (swaps_evolve (he_sha256 env) chk s) (store_secret env i secret)"
  unfolding store_secret_def
proof (rule preserves_with_swap, intro after_check after_update)
  fix t x y
  assume "\<And>y. y \<in> set (db_swaps t) \<Longrightarrow> hs_id y = i \<Longrightarrow> y = x" "y \<in> set (db_swaps t)" "hs_id y = i"
  then have "y = x" by blast
  then show "swap_moves (he_sha256 env) chk y (y\<lparr>hs_secret := Some secret\<rparr>)"
    if "verify_secret env secret (hs_secret_hash x)" "hs_status y = SwapCreated"
    using that assms by (auto simp: swap_row_defs verify_secret_def hash_secret_def)
qed

lemma preserves_record_dest_claim:
  assumes "length secret = 32"
  shows "preserves (swaps_evolve (he_sha256 env) chk s) (record_dest_claim env i secret claim_tx)"
  unfolding record_dest_claim_def
proof (rule preserves_with_swap, intro after_check after_update)
  fix t x y
  assume "\<And>y. y \<in> set (db_swaps t) \<Longrightarrow> hs_id y = i \<Longrightarrow> y = x" "y \<in> set (db_swaps t)" "hs_id y = i"
  then have "y = x" by blast
  then show "swap_moves (he_sha256 env) chk y
      (y\<lparr>hs_status := DestClaimed, hs_secret := Some secret, hs_dest_claim_tx := Some claim_tx, hs_claimed_at := Some (he_now env)\<rparr>)"
    if "verify_secret env secret (hs_secret_hash x)" "hs_status y = SourceLocked"
    using that assms by (auto simp: swap_row_defs verify_secret_def hash_secret_def)
qed

lemma preserves_record_dest_claim_with_stored_secret:
  "preserves (swaps_evolve (he_sha256 env) chk s) (record_dest_claim_with_stored_secret env i claim_tx)"
  unfolding record_dest_claim_with_stored_secret_def
proof (rule preserves_with_swap)
  fix t x
  assume t: "swaps_evolve (he_sha256 env) chk s t" and uniq: "\<And>y. y \<in> set (db_swaps t) \<Longrightarrow> hs_id y = i \<Longrightarrow> y = x"
  have "swap_moves (he_sha256 env) chk y
      (y\<lparr>hs_status := DestClaimed, hs_dest_claim_tx := Some claim_tx, hs_claimed_at := Some (he_now env)\<rparr>)"
    if "hs_secret x = Some secret" "y \<in> set (db_swaps t)" "hs_id y = i" "hs_status y = SourceLocked" for secret y
    using that uniq [OF that(2,3)] by (auto simp: swap_row_defs)
  then show "swaps_evolve (he_sha256 env) chk s (snd ((case hs_secret x of
       None \<Rightarrow> raiseA (SwapInvalidState ''Secret not stored - call store_secret first'')
     | Some secret \<Rightarrow>
         seqA (ensureA (length secret = 32) (SwapInvalidState ''Stored secret has wrong length''))
         (seqA (ensureA (length (hs_secret_hash x) = 32) (SwapInvalidState ''Stored hash has wrong length''))
         (seqA (ensureA (verify_secret env secret (hs_secret_hash x)) SecretMismatch)
         (guarded_update i (\<lambda>r. hs_status r = SourceLocked)
            (\<lambda>r. r\<lparr>hs_status := DestClaimed, hs_dest_claim_tx := Some claim_tx, hs_claimed_at := Some (he_now env)\<rparr>)
            ''Expected status: source_locked'')))) t))"
    using t by (cases "hs_secret x") (auto simp: raiseA_def intro!: after_check after_update)
qed

lemma preserves_refund_swap: "preserves (swaps_evolve (he_sha256 env) chk s) (refund_swap env i)"
  unfolding refund_swap_def
proof (rule preserves_with_swap, intro after_check after_update)
  fix t x y
  assume "\<And>y. y \<in> set (db_swaps t) \<Longrightarrow> hs_id y = i \<Longrightarrow> y = x" "y \<in> set (db_swaps t)" "hs_id y = i"
  then have "y = x" by blast
  then show "swap_moves (he_sha256 env) chk y (y\<lparr>hs_status := SwapRefunded, hs_completed_at := Some (he_now env)\<rparr>)"
    if "\<not> he_now env < hs_source_timelock x" "hs_status y = SwapCreated \<or> hs_status y = SourceLocked"
    using that by (auto simp: swap_row_defs)
qed

lemma preserves_swap_updates:
  "preserves (swaps_evolve (he_sha256 env) chk s) (record_source_lock env i tx)"
  "preserves (swaps_evolve (he_sha256 env) chk s) (record_dest_lock i tx)"
  "preserves (swaps_evolve (he_sha256 env) chk s) (complete_swap env i tx)"
  unfolding record_source_lock_def record_dest_lock_def complete_swap_def
  by (intro preserves_guarded_update; auto simp: swap_row_defs)+

lemma preserves_record_dest_claim_unchecked:
  "\<not> chk \<Longrightarrow> preserves (swaps_evolve (he_sha256 env) chk s) (record_dest_claim_unchecked env i tx)"
  unfolding record_dest_claim_unchecked_def by (intro preserves_guarded_update; auto simp: swap_row_defs)

lemma preserves_fail_swap: "preserves (swaps_evolve (he_sha256 env) chk s) (fail_swap env i msg)"
  unfolding fail_swap_def
proof (rule preserves_bindA)
  show "preserves (swaps_evolve (he_sha256 env) chk s) (update_swap i (\<lambda>r. hs_status r \<noteq> SourceUnlocked \<and> hs_status r \<noteq> SwapRefunded)
      (\<lambda>r. r\<lparr>hs_status := SwapFailed, hs_error := Some msg, hs_completed_at := Some (he_now env)\<rparr>))"
  proof (rule preserves_update_swap)
    fix r :: htlc_swap
    assume open_swap: "hs_status r \<noteq> SourceUnlocked \<and> hs_status r \<noteq> SwapRefunded"
    then have "SwapFailed \<in> insert (hs_status r) (successors (hs_status r))" by (cases "hs_status r") simp_all
    then show "swap_moves (he_sha256 env) chk r (r\<lparr>hs_status := SwapFailed, hs_error := Some msg, hs_completed_at := Some (he_now env)\<rparr>)"
      using open_swap by (simp add: swap_row_defs)
  qed
qed (rule preserves_pure)

lemma preserves_swap_query: "preserves (swaps_evolve sha chk s) (map_errA g (sql_query f))"
  by (intro preserves_map_errA preserves_sql_query) simp

lemma preserves_swap_queries:
  "preserves (swaps_evolve sha chk s) (find_pending_locks env)" "preserves (swaps_evolve sha chk s) find_awaiting_dest_lock"
  "preserves (swaps_evolve sha chk s) find_claimable" "preserves (swaps_evolve sha chk s) find_pending_unlocks"
  "preserves (swaps_evolve sha chk s) (find_expired env)" "preserves (swaps_evolve sha chk s) (get_swap_by_fill f)"
  unfolding get_swap_by_fill_def find_pending_locks_def find_awaiting_dest_lock_def find_claimable_def
    find_pending_unlocks_def find_expired_def
  by (rule preserves_swap_query)+

lemmas preserves_swap_service = preserves_create_swap preserves_store_secret preserves_record_dest_claim
  preserves_record_dest_claim_with_stored_secret preserves_record_dest_claim_unchecked preserves_refund_swap preserves_swap_updates preserves_fail_swap preserves_swap_queries

text \<open>The worker changes swaps only through the service.\<close>

lemmas preserves_worker_intros = preserves_bindA preserves_ignoreA preserves_pure preserves_bridge_calls preserves_chain_db
  preserves_for_rows preserves_seqA

lemma preserves_htlc_worker:
  "preserves (\<lambda>w. swaps_evolve (he_sha256 env) chk s (cw_db w)) (lock_source env bridges swap)"
  "preserves (\<lambda>w. swaps_evolve (he_sha256 env) chk s (cw_db w)) (monitor_dest_lock env bridges swap)"
  "preserves (\<lambda>w. swaps_evolve (he_sha256 env) chk s (cw_db w)) (claim_destination env bridges swap)"
  "preserves (\<lambda>w. swaps_evolve (he_sha256 env) chk s (cw_db w)) (unlock_source env bridges swap)"
  unfolding lock_source_def monitor_dest_lock_def claim_destination_def unlock_source_def
  by (auto split: sum.splits option.splits bridge_status.splits
      intro!: preserves_bindA preserves_ignoreA preserves_pure preserves_bridge_calls preserves_chain_db preserves_swap_service)

lemma preserves_htlc_cycle: "preserves (\<lambda>w. swaps_evolve (he_sha256 env) chk s (cw_db w)) (htlc_cycle env bridges)"
  unfolding htlc_cycle_def phase_lock_source_def phase_monitor_dest_lock_def phase_claim_destination_def
    phase_unlock_source_def phase_refund_expired_def
  by (intro preserves_worker_intros preserves_htlc_worker preserves_swap_service)

section \<open>Properties\<close>

text \<open>
  The calls that change swaps, in any order and by any caller: the service, with secrets of 32 bytes as its
  types demand, and whole rounds of the worker with arbitrary bridges. The call that records a claim without a secret,
  which nothing in the program uses, is left out when \<open>chk\<close> is true.
\<close>

inductive swap_call :: "(bytes \<Rightarrow> bytes) \<Rightarrow> bool \<Rightarrow> pgdb \<Rightarrow> pgdb \<Rightarrow> bool" for sha chk where
  call_create: "he_sha256 env = sha \<Longrightarrow> swap_call sha chk s (snd (create_swap env secret p s))"
| call_store: "he_sha256 env = sha \<Longrightarrow> length secret = 32 \<Longrightarrow> swap_call sha chk s (snd (store_secret env i secret s))"
| call_source_lock: "he_sha256 env = sha \<Longrightarrow> swap_call sha chk s (snd (record_source_lock env i tx s))"
| call_dest_lock: "swap_call sha chk s (snd (record_dest_lock i tx s))"
| call_dest_claim: "he_sha256 env = sha \<Longrightarrow> length secret = 32 \<Longrightarrow> swap_call sha chk s (snd (record_dest_claim env i secret tx s))"
| call_dest_claim_stored: "he_sha256 env = sha \<Longrightarrow> swap_call sha chk s (snd (record_dest_claim_with_stored_secret env i tx s))"
| call_dest_claim_unchecked: "he_sha256 env = sha \<Longrightarrow> \<not> chk \<Longrightarrow> swap_call sha chk s (snd (record_dest_claim_unchecked env i tx s))"
| call_complete: "he_sha256 env = sha \<Longrightarrow> swap_call sha chk s (snd (complete_swap env i tx s))"
| call_refund: "he_sha256 env = sha \<Longrightarrow> swap_call sha chk s (snd (refund_swap env i s))"
| call_fail: "he_sha256 env = sha \<Longrightarrow> swap_call sha chk s (snd (fail_swap env i msg s))"
| call_cycle: "he_sha256 env = sha \<Longrightarrow> cw_db w = s \<Longrightarrow> swap_call sha chk s (cw_db (snd (htlc_cycle env bridges w)))"

lemma swap_call_evolves: "swap_call sha chk t u \<Longrightarrow> swaps_evolve sha chk s t \<Longrightarrow> swaps_evolve sha chk s u"
proof (induction rule: swap_call.induct)
  case (call_dest_lock t i tx)
  then show ?case using preserves_swap_updates(2) [of "undefined\<lparr>he_sha256 := sha\<rparr>" chk s i tx] by (simp add: preserves_def)
next
  case (call_cycle env w t bridges)
  then show ?case using preserves_htlc_cycle [of env chk s bridges] by (auto simp: preserves_def)
qed (use preserves_swap_service in \<open>auto simp: preserves_def\<close>)

interpretation swap_machine: transition_system "\<lambda>t. t = s \<and> distinct (map hs_id (db_swaps s))" "swap_call sha chk" "swaps_evolve sha chk s" for s sha chk
  by unfold_locales (auto intro: swaps_evolve_refl swap_call_evolves)

text \<open>
  C17. Starting without swaps, after any calls of the service and rounds of the worker, with any
  bridges and any failing statements, the record of a swap is consistent: a stored secret has 32 bytes and hashes to the lock of its swap; a swap whose
  destination is recorded as claimed or whose source as unlocked has a source lock and a
  claim transaction, and the stored secret unless claims without a secret were recorded; a swap is unlocked exactly when it has an
  unlock transaction; a refunded swap has no recorded claim and was refunded after its time lock. So no record
  has both sides paid. (A claim whose record fails is not in the record: see the lemmas on a lost claim below.)
\<close>

theorem swaps_stay_sound:
  assumes "db_swaps s = []" and "(swap_call sha chk)\<^sup>*\<^sup>* s t" and "r \<in> set (db_swaps t)"
  shows "(\<forall>secret. hs_secret r = Some secret \<longrightarrow> length secret = 32 \<and> sha secret = hs_secret_hash r) \<and>
     (hs_status r \<in> {DestClaimed, SourceUnlocked} \<longrightarrow>
        (chk \<longrightarrow> hs_secret r \<noteq> None) \<and> hs_source_lock_tx r \<noteq> None \<and> hs_dest_claim_tx r \<noteq> None) \<and>
     (hs_source_unlock_tx r \<noteq> None \<longleftrightarrow> hs_status r = SourceUnlocked) \<and>
     (hs_status r = SwapRefunded \<longrightarrow> hs_dest_claim_tx r = None \<and> (\<exists>t. hs_completed_at r = Some t \<and> hs_source_timelock r \<le> t))"
proof -
  have "swaps_evolve sha chk s t" using swap_machine.reachable_invar [of s s sha chk t] assms by simp
  then have "list_all (swap_ok sha chk) (db_swaps t)"
    using swaps.evolve_all [of sha chk "db_swaps s" "db_swaps t"] assms(1) by (simp add: swaps_evolve_def)
  then have "swap_ok sha chk r" using assms(3) by (simp add: list_all_iff)
  then show ?thesis by (simp add: swap_ok_def)
qed

text \<open>
  C18. The service and the worker implement the life cycle: whatever is called, a swap is never deleted,
  the terms of its deal never change, its status only moves forward, and an unlocked or refunded
  swap never changes again. No other table is touched.
\<close>

theorem swap_follows_life_cycle:
  assumes "distinct (map hs_id (db_swaps s))" and "(swap_call sha chk)\<^sup>*\<^sup>* s t" and "r \<in> set (db_swaps s)"
  shows "\<exists>r'\<in>set (db_swaps t). same_deal r r' \<and> hs_status r' \<in> insert (hs_status r) (successors (hs_status r)) \<and>
      (hs_status r \<in> {SourceUnlocked, SwapRefunded} \<longrightarrow> r' = r) \<and> but_swaps t = but_swaps s"
proof -
  have ev: "swaps_evolve sha chk s t" using swap_machine.reachable_invar [of s s sha chk t] assms by simp
  then obtain r' where "r' \<in> set (db_swaps t)" "swap_moves sha chk r r'"
    using swaps.evolve_old [of sha chk "db_swaps s" "db_swaps t" r] assms(3) by (auto simp: swaps_evolve_def)
  then show ?thesis using ev by (intro bexI [of _ r']) (auto simp: swap_moves_def swaps_evolve_def)
qed

lemma find_in_singleton:
  assumes "db_swaps s = [r]" and "db_faults s = []"
  shows "find_pending_locks env s = (Inr (if hs_status r = SwapCreated \<and> hs_source_timelock r > he_now env then [r] else []), s)"
    "find_awaiting_dest_lock s = (Inr (if hs_status r = SourceLocked \<and> hs_dest_lock_tx r = None then [r] else []), s)"
    "find_claimable s = (Inr (if hs_status r = SourceLocked \<and> hs_dest_lock_tx r \<noteq> None then [r] else []), s)"
    "find_pending_unlocks s = (Inr (if hs_status r = DestClaimed \<and> hs_secret r \<noteq> None then [r] else []), s)"
    "find_expired env s = (Inr (if hs_source_timelock r < he_now env \<and> (hs_status r = SwapCreated \<or> hs_status r = SourceLocked) then [r] else []), s)"
    "get_swap (hs_id r) s = (Inr r, s)"
  using assms tick_no_faults [OF assms(2)]
  by (simp_all add: find_pending_locks_def find_awaiting_dest_lock_def find_claimable_def find_pending_unlocks_def
      find_expired_def get_swap_def map_errA_def sql_query_def bindA_def returnA_def)

lemma update_in_singleton:
  assumes "db_swaps s = [r]" and "db_faults s = []" and "P r"
  shows "guarded_update (hs_id r) P f msg s = (Inr (), s\<lparr>db_swaps := [f r]\<rparr>)"
  using assms tick_no_faults [of "s\<lparr>db_swaps := [f r]\<rparr>"]
  by (simp add: guarded_update_def update_swap_def map_errA_def sql_exec_def bindA_def ensureA_def tick_no_faults)

lemmas swap_phase_evals = for_rows_answer find_in_singleton bindA_def seqA_def returnA_def ignoreA_def chain_db_def
  update_in_singleton

text \<open>What each phase does for the only swap of the table when nothing fails.\<close>

lemma lock_phase:
  assumes "db_swaps (cw_db w) = [r]" and "db_faults (cw_db w) = []" and "hs_status r = SwapCreated"
    and "he_now env < hs_source_timelock r" and "find_bridge bridges (hs_source_chain r) (hs_dest_chain r) = Inr b"
    and "br_lock_funds b (cw_calls w) (source_params r) = Inr receipt"
  shows "phase_lock_source env bridges w = (Inr (), w\<lparr>cw_calls := cw_calls w @ [LockCall (source_params r)],
      cw_db := (cw_db w)\<lparr>db_swaps := [r\<lparr>hs_status := SourceLocked, hs_source_lock_tx := Some (lr_tx_hash receipt),
        hs_locked_at := Some (he_now env)\<rparr>]\<rparr>\<rparr>)"
  using assms by (simp add: phase_lock_source_def swap_phase_evals lock_source_def lock_funds_def record_source_lock_def)

lemma monitor_phase:
  assumes "db_swaps (cw_db w) = [r]" and "db_faults (cw_db w) = []" and "hs_status r = SourceLocked" and "hs_dest_lock_tx r = None"
    and "hs_source_lock_tx r = Some tx" and "find_bridge bridges (hs_source_chain r) (hs_dest_chain r) = Inr b"
    and "br_verify_lock b (cw_calls w) tx = Inr (BridgeCompleted dest_tx)"
  shows "phase_monitor_dest_lock env bridges w = (Inr (), w\<lparr>cw_calls := cw_calls w @ [VerifyCall tx],
      cw_db := (cw_db w)\<lparr>db_swaps := [r\<lparr>hs_dest_lock_tx := Some dest_tx\<rparr>]\<rparr>\<rparr>)"
  using assms by (simp add: phase_monitor_dest_lock_def swap_phase_evals monitor_dest_lock_def verify_lock_def record_dest_lock_def)

lemma claim_phase:
  assumes "db_swaps (cw_db w) = [r]" and "db_faults (cw_db w) = []" and "hs_status r = SourceLocked" and "hs_dest_lock_tx r \<noteq> None"
    and "hs_secret r = Some secret" and "length secret = 32" and "length (hs_secret_hash r) = 32"
    and "he_sha256 env secret = hs_secret_hash r" and "find_bridge bridges (hs_source_chain r) (hs_dest_chain r) = Inr b"
    and "br_release_funds b (cw_calls w) (dest_params r) (''htlc_secret_'' @ he_hex env secret) = Inr claim_tx"
  shows "phase_claim_destination env bridges w = (Inr (),
      w\<lparr>cw_calls := cw_calls w @ [ReleaseCall (dest_params r) (''htlc_secret_'' @ he_hex env secret)],
      cw_db := (cw_db w)\<lparr>db_swaps := [r\<lparr>hs_status := DestClaimed, hs_secret := Some secret, hs_dest_claim_tx := Some claim_tx,
        hs_claimed_at := Some (he_now env)\<rparr>]\<rparr>\<rparr>)"
  using assms
  by (simp add: phase_claim_destination_def swap_phase_evals claim_destination_def release_funds_def record_dest_claim_def
      verify_secret_def hash_secret_def ensureA_def)

lemma unlock_phase:
  assumes "db_swaps (cw_db w) = [r]" and "db_faults (cw_db w) = []" and "hs_status r = DestClaimed"
    and "hs_secret r = Some secret" and "length secret = 32" and "length (hs_secret_hash r) = 32"
    and "he_sha256 env secret = hs_secret_hash r" and "find_bridge bridges (hs_source_chain r) (hs_dest_chain r) = Inr b"
    and "br_release_funds b (cw_calls w) (source_params r) (''htlc_unlock_'' @ he_hex env secret) = Inr unlock_tx"
  shows "phase_unlock_source env bridges w = (Inr (),
      w\<lparr>cw_calls := cw_calls w @ [ReleaseCall (source_params r) (''htlc_unlock_'' @ he_hex env secret)],
      cw_db := (cw_db w)\<lparr>db_swaps := [r\<lparr>hs_status := SourceUnlocked, hs_source_unlock_tx := Some unlock_tx,
        hs_completed_at := Some (he_now env)\<rparr>]\<rparr>\<rparr>)"
  using assms
  by (simp add: phase_unlock_source_def swap_phase_evals unlock_source_def release_funds_def complete_swap_def
      verify_secret_def hash_secret_def)

lemma refund_phase_idle:
  assumes "db_swaps (cw_db w) = [r]" and "db_faults (cw_db w) = []" and "hs_status r \<noteq> SwapCreated" and "hs_status r \<noteq> SourceLocked"
  shows "phase_refund_expired env w = (Inr (), w)"
  using assms by (simp add: phase_refund_expired_def swap_phase_evals)

text \<open>
  Progress: one round of the worker takes a new swap with its stored secret all the way. When the
  bridge for its route carries out every call and no statement fails, the source is locked, the
  destination is claimed with the secret, the source is unlocked with the secret, in this order and once each,
  for the amounts and addresses of the deal, and the swap ends unlocked.
\<close>

theorem htlc_cycle_completes_swap:
  assumes one: "db_swaps (cw_db w) = [r]" and nf: "db_faults (cw_db w) = []" and new: "hs_status r = SwapCreated" "hs_dest_lock_tx r = None"
    and time: "he_now env < hs_source_timelock r"
    and secret: "hs_secret r = Some secret" "length secret = 32" "length (hs_secret_hash r) = 32" "he_sha256 env secret = hs_secret_hash r"
    and route: "find_bridge bridges (hs_source_chain r) (hs_dest_chain r) = Inr b" "willing b"
  shows "\<exists>w' r' tx. htlc_cycle env bridges w = (Inr (), w') \<and> db_swaps (cw_db w') = [r'] \<and> hs_status r' = SourceUnlocked \<and> same_deal r r' \<and>
    cw_calls w' = cw_calls w @ [LockCall \<lparr>bp_source_chain = hs_source_chain r, bp_dest_chain = hs_dest_chain r,
        bp_token = (case hs_source_token r of None \<Rightarrow> [] | Some t \<Rightarrow> t), bp_amount = word_of_int (hs_source_amount r),
        bp_sender = hs_source_sender r, bp_recipient = hs_source_receiver r\<rparr>, VerifyCall tx,
      ReleaseCall \<lparr>bp_source_chain = hs_source_chain r, bp_dest_chain = hs_dest_chain r,
        bp_token = (case hs_dest_token r of None \<Rightarrow> [] | Some t \<Rightarrow> t), bp_amount = word_of_int (hs_dest_amount r),
        bp_sender = hs_dest_sender r, bp_recipient = hs_dest_receiver r\<rparr> (''htlc_secret_'' @ he_hex env secret),
      ReleaseCall \<lparr>bp_source_chain = hs_source_chain r, bp_dest_chain = hs_dest_chain r,
        bp_token = (case hs_source_token r of None \<Rightarrow> [] | Some t \<Rightarrow> t), bp_amount = word_of_int (hs_source_amount r),
        bp_sender = hs_source_sender r, bp_recipient = hs_source_receiver r\<rparr> (''htlc_unlock_'' @ he_hex env secret)]"
proof -
  obtain receipt where a1: "br_lock_funds b (cw_calls w) (source_params r) = Inr receipt" using route(2) unfolding willing_def by blast
  define r1 where "r1 = r\<lparr>hs_status := SourceLocked, hs_source_lock_tx := Some (lr_tx_hash receipt), hs_locked_at := Some (he_now env)\<rparr>"
  define w1 where "w1 = w\<lparr>cw_calls := cw_calls w @ [LockCall (source_params r)], cw_db := (cw_db w)\<lparr>db_swaps := [r1]\<rparr>\<rparr>"
  have p1: "phase_lock_source env bridges w = (Inr (), w1)"
    unfolding w1_def r1_def by (rule lock_phase [OF one nf new(1) time route(1) a1])
  obtain dtx where a2: "br_verify_lock b (cw_calls w1) (lr_tx_hash receipt) = Inr (BridgeCompleted dtx)" using route(2) unfolding willing_def by blast
  define r2 where "r2 = r1\<lparr>hs_dest_lock_tx := Some dtx\<rparr>"
  define w2 where "w2 = w1\<lparr>cw_calls := cw_calls w1 @ [VerifyCall (lr_tx_hash receipt)], cw_db := (cw_db w1)\<lparr>db_swaps := [r2]\<rparr>\<rparr>"
  have p2: "phase_monitor_dest_lock env bridges w1 = (Inr (), w2)"
    unfolding w2_def r2_def by (rule monitor_phase [OF _ _ _ _ _ _ a2]) (use nf new route in \<open>simp_all add: w1_def r1_def\<close>)
  have d: "dest_params r2 = dest_params r" "source_params r2 = source_params r" by (simp_all add: r2_def r1_def dest_params_def source_params_def)
  obtain ctx where a3: "br_release_funds b (cw_calls w2) (dest_params r2) (''htlc_secret_'' @ he_hex env secret) = Inr ctx"
    using route(2) unfolding willing_def by blast
  define r3 where "r3 = r2\<lparr>hs_status := DestClaimed, hs_secret := Some secret, hs_dest_claim_tx := Some ctx, hs_claimed_at := Some (he_now env)\<rparr>"
  define w3 where "w3 = w2\<lparr>cw_calls := cw_calls w2 @ [ReleaseCall (dest_params r2) (''htlc_secret_'' @ he_hex env secret)],
    cw_db := (cw_db w2)\<lparr>db_swaps := [r3]\<rparr>\<rparr>"
  have p3: "phase_claim_destination env bridges w2 = (Inr (), w3)"
    unfolding w3_def r3_def by (rule claim_phase [OF _ _ _ _ _ _ _ _ _ a3]) (use nf secret route in \<open>simp_all add: w2_def w1_def r2_def r1_def\<close>)
  have e: "source_params r3 = source_params r" by (simp add: r3_def d source_params_def r2_def r1_def)
  obtain utx where a4: "br_release_funds b (cw_calls w3) (source_params r3) (''htlc_unlock_'' @ he_hex env secret) = Inr utx"
    using route(2) unfolding willing_def by blast
  define r4 where "r4 = r3\<lparr>hs_status := SourceUnlocked, hs_source_unlock_tx := Some utx, hs_completed_at := Some (he_now env)\<rparr>"
  define w4 where "w4 = w3\<lparr>cw_calls := cw_calls w3 @ [ReleaseCall (source_params r3) (''htlc_unlock_'' @ he_hex env secret)],
    cw_db := (cw_db w3)\<lparr>db_swaps := [r4]\<rparr>\<rparr>"
  have p4: "phase_unlock_source env bridges w3 = (Inr (), w4)"
    unfolding w4_def r4_def by (rule unlock_phase [OF _ _ _ _ _ _ _ _ a4]) (use nf secret route in \<open>simp_all add: w3_def w2_def w1_def r3_def r2_def r1_def\<close>)
  have p5: "phase_refund_expired env w4 = (Inr (), w4)"
    by (rule refund_phase_idle [of _ r4]) (use nf in \<open>simp_all add: w4_def w3_def w2_def w1_def r4_def\<close>)
  have "htlc_cycle env bridges w = (Inr (), w4)" by (simp add: htlc_cycle_def seqA_def bindA_def p1 p2 p3 p4 p5)
  moreover have "same_deal r r4" by (simp add: same_deal_def r4_def r3_def r2_def r1_def source_params_def dest_params_def)
  moreover have "db_swaps (cw_db w4) = [r4]" "hs_status r4 = SourceUnlocked" by (simp_all add: w4_def r4_def)
  moreover have "cw_calls w4 = cw_calls w @ [LockCall (source_params r), VerifyCall (lr_tx_hash receipt),
      ReleaseCall (dest_params r) (''htlc_secret_'' @ he_hex env secret), ReleaseCall (source_params r) (''htlc_unlock_'' @ he_hex env secret)]"
    by (simp add: w4_def w3_def w2_def w1_def d e)
  ultimately show ?thesis unfolding source_params_def [symmetric] dest_params_def [symmetric] by blast
qed

definition sample_htlc_env :: "timestamp \<Rightarrow> htlc_env" where
  "sample_htlc_env now = \<lparr>he_sha256 = rev, he_hex = (\<lambda>_. ''00''), he_unhex = (\<lambda>_. Inl ''bad''),
     he_add_seconds = (\<lambda>t d. Some (t + d)), he_now = now\<rparr>"

definition sample_swap_params :: create_htlc_params where
  "sample_swap_params = \<lparr>ch_fill_id = 3, ch_intent_id = 7, ch_solver_id = ''solver'', ch_source_chain = ''ethereum'',
     ch_source_sender = ''user'', ch_source_receiver = ''solver'', ch_source_token = None, ch_source_amount = 100,
     ch_dest_chain = ''solana'', ch_dest_sender = ''solver'', ch_dest_receiver = ''user'', ch_dest_token = None,
     ch_dest_amount = 90, ch_timelock_secs = 0\<rparr>"

definition sample_swap :: htlc_swap where
  "sample_swap = (new_swap (sample_htlc_env 10) sample_swap_params (replicate 32 5) 1810 1)\<lparr>hs_secret := Some (replicate 32 5)\<rparr>"

text \<open>A bridge that releases funds only once.\<close>

definition sample_bridge :: bridge_adapter where
  "sample_bridge = \<lparr>br_name = ''bridge'', br_supports_route = (\<lambda>_ _. True),
     br_lock_funds = (\<lambda>_ _. Inr \<lparr>lr_tx_hash = ''0x1'', lr_message_id = ''m'', lr_estimated_finality_secs = 60\<rparr>),
     br_verify_lock = (\<lambda>_ _. Inr (BridgeCompleted ''0x2'')),
     br_release_funds = (\<lambda>calls p msg. if list_ex (\<lambda>c. case c of ReleaseCall q _ \<Rightarrow> q = p | _ \<Rightarrow> False) calls
        then Inl (ReleaseFailed ''already released'') else Inr ''0x3'')\<rparr>"

definition willing_bridge :: bridge_adapter where
  "willing_bridge = sample_bridge\<lparr>br_release_funds := (\<lambda>_ _ _. Inr ''0x3'')\<rparr>"

definition swap_world :: "htlc_swap list \<Rightarrow> bool list \<Rightarrow> chain_world" where
  "swap_world rows faults = \<lparr>cw_db = empty_db\<lparr>db_swaps := rows, db_faults := faults\<rparr>, cw_calls = []\<rparr>"

lemmas sample_swap_defs = sample_htlc_env_def sample_swap_params_def sample_swap_def new_swap_def swap_world_def empty_db_def

theorem htlc_cycle_completes_swap_witness:
  "\<exists>w' r'. htlc_cycle (sample_htlc_env 20) [willing_bridge] (swap_world [sample_swap] []) = (Inr (), w') \<and>
     db_swaps (cw_db w') = [r'] \<and> hs_status r' = SourceUnlocked \<and> length (cw_calls w') = 4"
proof -
  have "willing willing_bridge" by (simp add: willing_def willing_bridge_def sample_bridge_def)
  then show ?thesis
    using htlc_cycle_completes_swap [of "swap_world [sample_swap] []" sample_swap "sample_htlc_env 20" "replicate 32 5" "[willing_bridge]" willing_bridge]
    by (auto simp: sample_swap_defs find_bridge_def willing_bridge_def sample_bridge_def)
qed

text \<open>
  A claim whose record is lost: the destination is released with the secret, the statement that records
  it fails, later rounds cannot release again, and after the time lock the same swap is refunded.
\<close>

definition locked_swap :: htlc_swap where
  "locked_swap = sample_swap\<lparr>hs_status := SourceLocked, hs_source_lock_tx := Some ''0x1'', hs_locked_at := Some 11, hs_dest_lock_tx := Some ''0x2''\<rparr>"

lemma lost_claim_first_round:
  "htlc_cycle (sample_htlc_env 20) [sample_bridge] (swap_world [locked_swap] [False, False, False, False, True]) =
   (Inr (), (swap_world [locked_swap] [])\<lparr>cw_calls := [ReleaseCall (dest_params locked_swap) ''htlc_secret_00'']\<rparr>)"
  by (simp add: htlc_cycle_def phase_lock_source_def phase_monitor_dest_lock_def phase_claim_destination_def phase_unlock_source_def
      phase_refund_expired_def find_pending_locks_def find_awaiting_dest_lock_def find_claimable_def find_pending_unlocks_def find_expired_def
      claim_destination_def record_dest_claim_def guarded_update_def update_swap_def get_swap_def verify_secret_def hash_secret_def
      locked_swap_def sample_swap_defs bridge_evals sample_bridge_def)

lemma lost_claim_second_round:
  "\<exists>w. htlc_cycle (sample_htlc_env 2000) [sample_bridge] ((swap_world [locked_swap] [])\<lparr>cw_calls := [ReleaseCall (dest_params locked_swap) ''htlc_secret_00'']\<rparr>) =
     (Inr (), w) \<and> map hs_status (db_swaps (cw_db w)) = [SwapRefunded]"
  by (simp add: htlc_cycle_def phase_lock_source_def phase_monitor_dest_lock_def phase_claim_destination_def phase_unlock_source_def
      phase_refund_expired_def find_pending_locks_def find_awaiting_dest_lock_def find_claimable_def find_pending_unlocks_def find_expired_def
      claim_destination_def refund_swap_def guarded_update_def update_swap_def get_swap_def verify_secret_def hash_secret_def
      locked_swap_def sample_swap_defs bridge_evals sample_bridge_def)

definition intent_db :: pgdb where
  "intent_db = empty_db\<lparr>db_intents := [Intent_new 7 0 ''user'' ''ETH'' ''SOL'' 100 90 0]\<rparr>"

definition secret_db :: pgdb where
  "secret_db = snd (store_secret (sample_htlc_env 11) 100 (replicate 32 5) (snd (create_swap (sample_htlc_env 10) (replicate 32 5) sample_swap_params intent_db)))"

lemma secret_db_reached: "(swap_call rev True)\<^sup>*\<^sup>* intent_db secret_db"
proof -
  have "swap_call rev True intent_db (snd (create_swap (sample_htlc_env 10) (replicate 32 5) sample_swap_params intent_db))"
    by (rule call_create) (simp add: sample_htlc_env_def)
  moreover have "swap_call rev True (snd (create_swap (sample_htlc_env 10) (replicate 32 5) sample_swap_params intent_db)) secret_db"
    unfolding secret_db_def by (rule call_store) (simp_all add: sample_htlc_env_def)
  ultimately show ?thesis by auto
qed

lemma secret_db_row: "db_swaps secret_db = [sample_swap\<lparr>hs_id := 100\<rparr>]"
  by (simp add: secret_db_def store_secret_def create_swap_def insert_swap_def get_swap_def update_swap_def intent_db_def Intent_new_def
      sample_swap_defs DEFAULT_TIMELOCK_SECS_def verify_secret_def hash_secret_def db_evals)

lemma secret_db_faults: "db_faults secret_db = []"
  by (simp add: secret_db_def store_secret_def create_swap_def insert_swap_def get_swap_def update_swap_def intent_db_def Intent_new_def
      sample_swap_defs DEFAULT_TIMELOCK_SECS_def verify_secret_def hash_secret_def db_evals)

theorem swaps_stay_sound_witness:
  "\<exists>r. db_swaps secret_db = [r] \<and> hs_secret r = Some (replicate 32 5) \<and> rev (replicate 32 (5 :: u8)) = hs_secret_hash r"
  using swaps_stay_sound [OF _ secret_db_reached, of "sample_swap\<lparr>hs_id := 100\<rparr>"] secret_db_row
  by (simp add: intent_db_def sample_swap_defs)

theorem swap_follows_life_cycle_witness:
  "\<exists>r'\<in>set (db_swaps (snd (fail_swap (sample_htlc_env 30) 100 ''x'' secret_db))). same_deal (sample_swap\<lparr>hs_id := 100\<rparr>) r' \<and>
     hs_status r' = SwapFailed"
proof -
  have "(swap_call rev True)\<^sup>*\<^sup>* secret_db (snd (fail_swap (sample_htlc_env 30) 100 ''x'' secret_db))"
    by (intro r_into_rtranclp call_fail) (simp add: sample_htlc_env_def)
  then obtain r' where r': "r' \<in> set (db_swaps (snd (fail_swap (sample_htlc_env 30) 100 ''x'' secret_db)))" "same_deal (sample_swap\<lparr>hs_id := 100\<rparr>) r'"
    using swap_follows_life_cycle [of secret_db rev True "snd (fail_swap (sample_htlc_env 30) 100 ''x'' secret_db)" "sample_swap\<lparr>hs_id := 100\<rparr>"]
      secret_db_row by auto
  have "hs_status x = SwapFailed" if "x \<in> set (db_swaps (snd (fail_swap (sample_htlc_env 30) 100 ''x'' secret_db)))" for x
    using that secret_db_row secret_db_faults
    by (simp add: fail_swap_def update_swap_def bindA_def map_errA_def sql_exec_def next_fault_def returnA_def tick_def sample_swap_def new_swap_def)
  then show ?thesis using r' by blast
qed

end
