(* ===== verification/Bridges.thy ===== *)
theory Bridges
  imports Layerzero Cross_Chain Htlc_Swap
begin

text \<open>
  The bridges of the running system: the two adapters as trait objects, the registry that main.rs builds
  from them, and what the two cross-chain workers achieve with it. An adapter is stateful (its
  log and its breakers), so its functions first replay the calls made so far. The workers are
  composed with any registry that rejects the message identifiers they use; the registry of main.rs is one.
\<close>

section \<open>The adapters as trait objects\<close>

definition wormhole_step :: "net_env \<Rightarrow> guardian_decoder \<Rightarrow> bridge_call \<Rightarrow> net \<Rightarrow> net" where
  "wormhole_step env decode c w =
     (case c of
        LockCall p \<Rightarrow> snd (wormhole_lock env p w)
      | VerifyCall tx \<Rightarrow> snd (wormhole_verify env decode tx w)
      | ReleaseCall p mid \<Rightarrow> snd (wormhole_release env decode p mid w))"

definition wormhole_adapter :: "net_env \<Rightarrow> guardian_decoder \<Rightarrow> net \<Rightarrow> bridge_adapter" where
  "wormhole_adapter env decode w0 =
     (let now = (\<lambda>calls. fold (wormhole_step env decode) calls w0) in
      \<lparr>br_name = ''wormhole'', br_supports_route = supports_route,
       br_lock_funds = (\<lambda>calls p. fst (wormhole_lock env p (now calls))),
       br_verify_lock = (\<lambda>calls tx. fst (wormhole_verify env decode tx (now calls))),
       br_release_funds = (\<lambda>calls p mid. fst (wormhole_release env decode p mid (now calls)))\<rparr>)"

definition layerzero_step :: "net_env \<Rightarrow> scan_decoder \<Rightarrow> bridge_call \<Rightarrow> net \<Rightarrow> net" where
  "layerzero_step env decode c w =
     (case c of
        LockCall p \<Rightarrow> snd (layerzero_lock env p w)
      | VerifyCall tx \<Rightarrow> snd (layerzero_verify env decode tx w)
      | ReleaseCall p mid \<Rightarrow> snd (layerzero_release env decode p mid w))"

definition layerzero_adapter :: "net_env \<Rightarrow> scan_decoder \<Rightarrow> net \<Rightarrow> bridge_adapter" where
  "layerzero_adapter env decode w0 =
     (let now = (\<lambda>calls. fold (layerzero_step env decode) calls w0) in
      \<lparr>br_name = ''layerzero'', br_supports_route = lz_supports_route,
       br_lock_funds = (\<lambda>calls p. fst (layerzero_lock env p (now calls))),
       br_verify_lock = (\<lambda>calls tx. fst (layerzero_verify env decode tx (now calls))),
       br_release_funds = (\<lambda>calls p mid. fst (layerzero_release env decode p mid (now calls)))\<rparr>)"

text \<open>The registry of main.rs; \<open>var\<close> looks up an environment variable.\<close>

definition main_bridges :: "net_env \<Rightarrow> guardian_decoder \<Rightarrow> scan_decoder \<Rightarrow> (string \<Rightarrow> string option) \<Rightarrow> bridge_registry" where
  "main_bridges env guardian scan var =
     (let eth = or_none ''https://eth.llamarpc.com'' (var ''ETH_RPC_URL'');
          polygon = or_none ''https://polygon.llamarpc.com'' (var ''POLYGON_RPC_URL'');
          arbitrum = or_none ''https://arbitrum.llamarpc.com'' (var ''ARBITRUM_RPC_URL'');
          base = or_none ''https://base.llamarpc.com'' (var ''BASE_RPC_URL'');
          wormhole = with_chain_rpc ''base'' base (with_chain_rpc ''arbitrum'' arbitrum (with_chain_rpc ''polygon'' polygon
            (with_chain_rpc ''ethereum'' eth (WormholeBridge_new ''https://wormhole-v2-mainnet-api.certus.one''))));
          layerzero = lz_with_chain_rpc ''base'' base (lz_with_chain_rpc ''arbitrum'' arbitrum (lz_with_chain_rpc ''polygon'' polygon
            (lz_with_chain_rpc ''ethereum'' eth (LayerZeroBridge_new ''https://scan.layerzero.com/api''))))
      in register (layerzero_adapter env scan layerzero) (register (wormhole_adapter env guardian wormhole) []))"

section \<open>Identifiers that no adapter accepts\<close>

definition worker_message :: "string \<Rightarrow> bool" where
  "worker_message mid \<longleftrightarrow> starts_with mid ''msg_'' \<or> starts_with mid ''htlc_secret_'' \<or> starts_with mid ''htlc_unlock_''"

lemma worker_messages [simp]:
  "worker_message (''msg_'' @ x)" "worker_message (''htlc_secret_'' @ x)" "worker_message (''htlc_unlock_'' @ x)"
  by (simp_all add: worker_message_def starts_with_def)

lemma worker_message_hd: "worker_message mid \<Longrightarrow> \<exists>c cs. mid = c # cs \<and> (c = CHR ''m'' \<or> c = CHR ''h'')"
  by (cases mid) (auto simp: worker_message_def starts_with_def)

lemma worker_message_rejected:
  assumes "worker_message mid"
  shows "parse_message_id mid = None" and "lz_parse_message_id mid = None"
proof -
  obtain c cs where c: "mid = c # cs" "c = CHR ''m'' \<or> c = CHR ''h''" using worker_message_hd [OF assms] by blast
  have part: "splitn (Suc (Suc n)) (CHR ''/'') mid = [mid] \<or> (\<exists>p ps. splitn (Suc (Suc n)) (CHR ''/'') mid = (c # p) # ps)" for n
    using c by auto
  have "parse_uint bits (c # p) = None" for bits p using c(2) by (auto simp: parse_uint_def is_digit_def)
  then show "parse_message_id mid = None" using part [of 1] c
    by (auto simp: parse_message_id_def numeral_3_eq_3 split: list.splits)
  show "lz_parse_message_id mid = None" using part [of 2] c
    by (auto simp: lz_parse_message_id_def eval_nat_numeral split: list.splits)
qed

section \<open>Workers with bridges that reject their messages\<close>

text \<open>Nothing has been released: no leg is executing, and no swap is claimed or unlocked.\<close>

definition unreleased :: "pgdb \<Rightarrow> bool" where
  "unreleased s \<longleftrightarrow> (\<forall>l\<in>set (db_legs s). lg_status l \<noteq> LegExecuting) \<and>
     (\<forall>r\<in>set (db_swaps s). hs_status r \<noteq> DestClaimed \<and> hs_status r \<noteq> SourceUnlocked)"

lemma unreleased_tick [simp]: "unreleased (tick s) = unreleased s"
  by (simp add: unreleased_def)

lemma preserves_unreleased_query: "preserves unreleased (map_errA g (sql_query f))"
  by (intro preserves_map_errA preserves_sql_query) simp

lemma preserves_unreleased_leg:
  assumes "st \<noteq> LegExecuting"
  shows "preserves unreleased (update_leg_status i st tx err)"
  using assms unfolding preserves_def unreleased_def update_leg_status_def update_legs_def
  by (auto simp: bindA_def map_errA_def sql_exec_def ensureA_def)

lemma preserves_unreleased_legs:
  "preserves unreleased (execute_source_leg i tx)" "preserves unreleased (fail_leg i err)"
  "preserves unreleased (refund_leg i)" "preserves unreleased (confirm_leg now i)"
proof -
  have "preserves unreleased (sql_update (update_legs i (\<lambda>l. l\<lparr>lg_confirmed_at := Some now\<rparr>)))"
    by (auto simp: preserves_def unreleased_def sql_update_def sql_exec_def update_legs_def)
  then show "preserves unreleased (confirm_leg now i)"
    unfolding confirm_leg_def by (intro preserves_seqA preserves_map_errA preserves_unreleased_leg) simp_all
qed (simp_all add: execute_source_leg_def fail_leg_def refund_leg_def preserves_unreleased_leg)

lemma preserves_unreleased_swap:
  assumes "\<And>r. P r \<Longrightarrow> hs_status r \<noteq> DestClaimed \<Longrightarrow> hs_status r \<noteq> SourceUnlocked \<Longrightarrow> hs_status (f r) \<noteq> DestClaimed \<and> hs_status (f r) \<noteq> SourceUnlocked"
  shows "preserves unreleased (update_swap i P f)"
  using assms unfolding preserves_def unreleased_def update_swap_def
  by (auto simp: map_errA_def sql_exec_def)

lemma preserves_unreleased_swaps:
  "preserves unreleased (record_source_lock env i tx)" "preserves unreleased (record_dest_lock i tx)"
  "preserves unreleased (fail_swap env i msg)" "preserves unreleased (refund_swap env i)"
  unfolding record_source_lock_def record_dest_lock_def fail_swap_def refund_swap_def get_swap_def guarded_update_def
  by (auto intro!: preserves_unreleased_swap preserves_unreleased_query split: option.splits)

lemma preserves_unreleased_settlement:
  assumes "\<And>st. preserves (\<lambda>w. unreleased (cw_db w)) (body st)"
  shows "preserves (\<lambda>w. unreleased (cw_db w)) (with_settlement now fill body)"
  unfolding with_settlement_def get_settlement_def using assms
  by (intro preserves_bindA preserves_tryA preserves_chain_db preserves_unreleased_query preserves_pure) (auto split: sum.splits option.splits)

text \<open>A registry whose bridges reject every message identifier that the workers make up.\<close>

locale deaf_registry =
  fixes bridges :: bridge_registry
  assumes rejects: "b \<in> set bridges \<Longrightarrow> worker_message mid \<Longrightarrow> \<exists>e. br_release_funds b calls p mid = Inl e"
begin

lemma preserves_release:
  assumes "find_bridge bridges src dst = Inr b" and "worker_message mid" and "\<And>e. preserves (\<lambda>w. I (cw_db w)) (f (Inl e))"
  shows "preserves (\<lambda>w. I (cw_db w)) (bindA (release_funds b p mid) f)"
proof (unfold preserves_def, intro allI impI)
  fix w :: chain_world assume I: "I (cw_db w)"
  obtain e where "br_release_funds b (cw_calls w) p mid = Inl e"
    using rejects [OF conjunct1 [OF find_bridge_first [OF assms(1)]] assms(2)] by blast
  then have "bindA (release_funds b p mid) f w = f (Inl e) (w\<lparr>cw_calls := cw_calls w @ [ReleaseCall p mid]\<rparr>)"
    by (simp add: bindA_def release_funds_def)
  then show "I (cw_db (snd (bindA (release_funds b p mid) f w)))"
    using assms(3) [of e] I by (simp add: preserves_def)
qed

lemma cross_chain_bodies:
  "preserves (\<lambda>w. unreleased (cw_db w)) (lock_leg now bridges leg)"
  "preserves (\<lambda>w. unreleased (cw_db w)) (verify_leg now bridges leg)"
  "preserves (\<lambda>w. unreleased (cw_db w)) (timeout_leg now leg)"
  unfolding lock_leg_def verify_leg_def timeout_leg_def Let_def
  by (auto split: sum.splits option.splits bridge_status.splits
      intro!: preserves_unreleased_settlement preserves_bindA preserves_tryA preserves_ignoreA preserves_pure
        preserves_bridge_calls preserves_chain_db preserves_unreleased_legs)

lemma release_leg_unreleased: "preserves (\<lambda>w. unreleased (cw_db w)) (release_leg now bridges leg)"
  unfolding release_leg_def Let_def
  by (auto split: sum.splits intro!: preserves_unreleased_settlement preserves_release preserves_chain_db preserves_unreleased_legs
      del: preserves_bindA simp: worker_message_def starts_with_def)

lemma cross_chain_cycle_unreleased: "preserves (\<lambda>w. unreleased (cw_db w)) (cross_chain_cycle now bridges)"
proof -
  have q: "preserves unreleased (leg_query f)" for f unfolding leg_query_def by (rule preserves_unreleased_query)
  have "preserves unreleased (complete_intent i)" for i
    unfolding complete_intent_def
    by (auto simp: preserves_def unreleased_def sql_update_def sql_exec_def map_errA_def)
  then have fin: "preserves (\<lambda>w. unreleased (cw_db w)) finalize_completed"
    unfolding finalize_completed_def
    by (intro preserves_for_rows preserves_chain_db preserves_unreleased_query)
       (auto split: prod.splits intro!: preserves_ignoreA preserves_chain_db)
  show ?thesis
    unfolding cross_chain_cycle_def lock_pending_sources_def verify_escrowed_def release_destinations_def process_timeouts_def
      find_pending_source_legs_def find_escrowed_source_legs_def find_timed_out_legs_def find_ready_destination_legs_def
    by (intro preserves_seqA preserves_for_rows preserves_ignoreA preserves_chain_db q fin cross_chain_bodies release_leg_unreleased)
qed

lemma htlc_bodies:
  "preserves (\<lambda>w. unreleased (cw_db w)) (lock_source env bridges swap)"
  "preserves (\<lambda>w. unreleased (cw_db w)) (monitor_dest_lock env bridges swap)"
  unfolding lock_source_def monitor_dest_lock_def
  by (auto split: sum.splits option.splits bridge_status.splits
      intro!: preserves_bindA preserves_ignoreA preserves_pure preserves_bridge_calls preserves_chain_db preserves_unreleased_swaps)

lemma htlc_release_bodies:
  "preserves (\<lambda>w. unreleased (cw_db w)) (claim_destination env bridges swap)"
  "preserves (\<lambda>w. unreleased (cw_db w)) (unlock_source env bridges swap)"
  unfolding claim_destination_def unlock_source_def
  by (auto split: sum.splits option.splits intro!: preserves_release preserves_chain_db preserves_unreleased_swaps
      del: preserves_bindA simp: worker_message_def starts_with_def)

lemma htlc_cycle_unreleased: "preserves (\<lambda>w. unreleased (cw_db w)) (htlc_cycle env bridges)"
  unfolding htlc_cycle_def phase_lock_source_def phase_monitor_dest_lock_def phase_claim_destination_def
    phase_unlock_source_def phase_refund_expired_def find_pending_locks_def find_awaiting_dest_lock_def find_claimable_def
    find_pending_unlocks_def find_expired_def
  by (intro preserves_seqA preserves_for_rows preserves_ignoreA preserves_chain_db preserves_unreleased_query htlc_bodies htlc_release_bodies
      preserves_unreleased_swaps)

end

interpretation main: deaf_registry "main_bridges env guardian scan var" for env guardian scan var
proof
  fix b mid calls p
  assume "b \<in> set (main_bridges env guardian scan var)" "worker_message mid"
  then show "\<exists>e. br_release_funds b calls p mid = Inl e"
    using worker_message_rejected
    by (auto simp: main_bridges_def register_def wormhole_adapter_def layerzero_adapter_def wormhole_release_def layerzero_release_def
        bindA_def liftR_def Let_def)
qed

section \<open>Properties\<close>

text \<open>The running system: new settlements, new swaps and stored secrets, and rounds of both workers with the bridges of main.rs.\<close>

inductive system_call :: "net_env \<Rightarrow> guardian_decoder \<Rightarrow> scan_decoder \<Rightarrow> (string \<Rightarrow> string option) \<Rightarrow> pgdb \<Rightarrow> pgdb \<Rightarrow> bool"
  for env guardian scan var where
  sys_settlement: "system_call env guardian scan var s (snd (create_settlement now intent_id fill_id c1 c2 a1 a2 b1 b2 m1 m2 amount s))"
| sys_swap: "system_call env guardian scan var s (snd (create_swap henv secret p s))"
| sys_secret: "system_call env guardian scan var s (snd (store_secret henv i secret s))"
| sys_cross_chain: "cw_db w = s \<Longrightarrow> system_call env guardian scan var s (cw_db (snd (cross_chain_cycle now (main_bridges env guardian scan var) w)))"
| sys_htlc: "cw_db w = s \<Longrightarrow> system_call env guardian scan var s (cw_db (snd (htlc_cycle henv (main_bridges env guardian scan var) w)))"

lemma preserves_unreleased_new:
  "preserves unreleased (create_settlement now intent_id fill_id c1 c2 a1 a2 b1 b2 m1 m2 amount)"
  "preserves unreleased (create_swap henv secret p)" "preserves unreleased (store_secret henv i secret)"
proof -
  have new: "preserves unreleased new_uuid" by (simp add: preserves_def new_uuid_def unreleased_def)
  have leg: "preserves unreleased (insert_leg l)" if "lg_status l = LegPending" for l
    using that by (auto simp: preserves_def insert_leg_def map_errA_def sql_exec_def unreleased_def)
  have swap: "preserves unreleased (insert_swap r)" if "hs_status r = SwapCreated" for r
    using that by (auto simp: preserves_def insert_swap_def sql_exec_def unreleased_def)
  show "preserves unreleased (create_settlement now intent_id fill_id c1 c2 a1 a2 b1 b2 m1 m2 amount)"
    unfolding create_settlement_def Let_def
    by (intro preserves_bindA preserves_seqA new leg preserves_pure) (simp_all add: new_leg_def)
  show "preserves unreleased (create_swap henv secret p)"
    unfolding create_swap_def Let_def using new swap by (auto split: option.splits simp: new_swap_def)
  show "preserves unreleased (store_secret henv i secret)"
    unfolding store_secret_def get_swap_def
    by (auto intro!: preserves_unreleased_query preserves_unreleased_swap split: option.splits)
qed

lemma system_call_unreleased: "system_call env guardian scan var s t \<Longrightarrow> unreleased s \<Longrightarrow> unreleased t"
proof (induction rule: system_call.induct)
  case (sys_cross_chain w s now)
  then show ?case using main.cross_chain_cycle_unreleased unfolding preserves_def by blast
next
  case (sys_htlc w s henv)
  then show ?case using main.htlc_cycle_unreleased unfolding preserves_def by blast
qed (use preserves_unreleased_new in \<open>auto simp: preserves_def\<close>)

interpretation system: transition_system "\<lambda>s. db_legs s = [] \<and> db_swaps s = []" "system_call env guardian scan var" unreleased for env guardian scan var
  by unfold_locales (simp add: unreleased_def, rule system_call_unreleased)

text \<open>
  C21. Cross-chain settlement and the HTLC swaps never pay out in the system that main.rs puts together: the
  workers pass message identifiers of their own making to the bridges, and both adapters reject every one of
  them. Whatever the chains, the guardians and the Scan API answer, after any number of settlements, swaps and
  rounds of the workers no destination leg is executing and no swap is claimed or unlocked,
  while source funds are locked.
\<close>

theorem main_bridges_never_release:
  assumes "db_legs s = []" and "db_swaps s = []" and "(system_call env guardian scan var)\<^sup>*\<^sup>* s t"
  shows "(\<forall>l\<in>set (db_legs t). lg_status l \<noteq> LegExecuting) \<and>
    (\<forall>r\<in>set (db_swaps t). hs_status r \<noteq> DestClaimed \<and> hs_status r \<noteq> SourceUnlocked) \<and>
    (\<forall>b\<in>set (main_bridges env guardian scan var). \<forall>calls p tx. \<exists>e. br_release_funds b calls p (''msg_'' @ tx) = Inl e)"
proof -
  have "unreleased t" using system.reachable_invar [of s, OF _ assms(3)] assms(1,2) by simp
  then show ?thesis using main.rejects [of _ env guardian scan var] worker_messages(1) unfolding unreleased_def by blast
qed

lemma lz_route_supported: "lz_supports_route source dest \<Longrightarrow> supports_route source dest"
  unfolding lz_supports_route_def supports_route_def endpoint_id_def chain_id_def by (auto split: if_splits)

text \<open>
  In the registry of main.rs the LayerZero adapter is never used: the Wormhole adapter comes first
  and supports every route that LayerZero supports.
\<close>

theorem layerzero_shadowed:
  "find_bridge (main_bridges env guardian scan var) source dest = Inr b \<Longrightarrow> br_name b = ''wormhole''"
  using lz_route_supported [of source dest]
  by (auto simp: find_bridge_def main_bridges_def register_def wormhole_adapter_def layerzero_adapter_def Let_def split: if_splits)

theorem layerzero_shadowed_witness:
  "\<exists>b. find_bridge (main_bridges sample_net_env (\<lambda>_. Inl []) (\<lambda>_. Inl []) (\<lambda>_. None)) ''ethereum'' ''polygon'' = Inr b \<and> br_name b = ''wormhole''"
proof -
  obtain b where b: "find_bridge (main_bridges sample_net_env (\<lambda>_. Inl []) (\<lambda>_. Inl []) (\<lambda>_. None)) ''ethereum'' ''polygon'' = Inr b"
    by (simp add: find_bridge_def main_bridges_def register_def wormhole_adapter_def Let_def supports_route_def chain_id_def)
  then show ?thesis using layerzero_shadowed [OF b] by blast
qed

theorem main_bridges_never_release_witness:
  "length (db_legs settlement_db) = 2 \<and> list_all (\<lambda>l. lg_status l \<noteq> LegExecuting) (db_legs settlement_db)"
proof -
  have "(system_call sample_net_env (\<lambda>_. Inl []) (\<lambda>_. Inl []) (\<lambda>_. None))\<^sup>*\<^sup>* (empty_db\<lparr>db_intents := [Intent_new 7 0 ''user'' ''ETH'' ''SOL'' 100 90 0]\<rparr>) settlement_db"
    unfolding settlement_db_def by (intro r_into_rtranclp sys_settlement)
  then have "\<forall>l\<in>set (db_legs settlement_db). lg_status l \<noteq> LegExecuting"
    using main_bridges_never_release [of "empty_db\<lparr>db_intents := [Intent_new 7 0 ''user'' ''ETH'' ''SOL'' 100 90 0]\<rparr>"]
    by (simp add: empty_db_def)
  then show ?thesis using leg_pairD(1) [OF settlement_db_pair] by (simp add: list_all_iff)
qed

end
