(* ===== verification/Mock_Guardian.thy ===== *)
theory Mock_Guardian
  imports Wormhole "HOL-Library.Countable"
begin

text \<open>
  The mock of the guardian network (src/cross_chain/mock_guardian.rs): its state, the failures it injects
  and its two HTTP handlers. A handler takes the path parameters and the state and returns the HTTP status, the
  answer and the new state; delays and the time of a request are left out. At the end the
  adapter runs against it.
\<close>

datatype failure_mode =
    ServerError u32 | Unavailable u32 | MalformedResponse u32 | InsufficientQuorum u8 | DuplicateGuardians | Timeout nat

type_synonym vaa_key = "u16 \<times> string \<times> u64"

record server_state =
  ms_vaas :: "vaa_key \<Rightarrow> bytes option"
  ms_vaas_by_tx :: "string \<Rightarrow> bytes option"
  ms_num_guardians :: u8
  ms_response_delay :: nat
  ms_failure :: "failure_mode option"
  ms_requests :: "string list"
  ms_request_count :: u64
  ms_auto_generate :: bool
  ms_pending_count :: u32
  ms_key_hits :: "string \<Rightarrow> u32 option"

definition ServerState_new :: "u8 \<Rightarrow> nat \<Rightarrow> server_state" where
  "ServerState_new num_guardians response_delay =
     \<lparr>ms_vaas = Map.empty, ms_vaas_by_tx = Map.empty, ms_num_guardians = num_guardians, ms_response_delay = response_delay,
      ms_failure = None, ms_requests = [], ms_request_count = 0, ms_auto_generate = True, ms_pending_count = 0, ms_key_hits = Map.empty\<rparr>"

section \<open>The builder and the test interface\<close>

record guardian_builder =
  gb_num_guardians :: u8
  gb_response_delay_ms :: u64
  gb_auto_generate :: bool
  gb_pending_count :: u32

definition builder :: guardian_builder where
  "builder = \<lparr>gb_num_guardians = 13, gb_response_delay_ms = 0, gb_auto_generate = True, gb_pending_count = 0\<rparr>"

definition num_guardians :: "u8 \<Rightarrow> guardian_builder \<Rightarrow> guardian_builder" where
  "num_guardians n b = b\<lparr>gb_num_guardians := n\<rparr>"

definition response_delay_ms :: "u64 \<Rightarrow> guardian_builder \<Rightarrow> guardian_builder" where
  "response_delay_ms ms b = b\<lparr>gb_response_delay_ms := ms\<rparr>"

definition pending_count :: "u32 \<Rightarrow> guardian_builder \<Rightarrow> guardian_builder" where
  "pending_count n b = b\<lparr>gb_pending_count := n\<rparr>"

definition auto_generate :: "bool \<Rightarrow> guardian_builder \<Rightarrow> guardian_builder" where
  "auto_generate enable b = b\<lparr>gb_auto_generate := enable\<rparr>"

definition build :: "guardian_builder \<Rightarrow> server_state" where
  "build b = (ServerState_new (gb_num_guardians b) (unat (gb_response_delay_ms b)))
     \<lparr>ms_auto_generate := gb_auto_generate b, ms_pending_count := gb_pending_count b\<rparr>"

definition emitter_word :: "(string \<Rightarrow> bytes option) \<Rightarrow> string \<Rightarrow> bytes" where
  "emitter_word hex_decode emitter_hex = left_pad (case hex_decode emitter_hex of Some bs \<Rightarrow> bs | None \<Rightarrow> [])"

definition register_vaa :: "(string \<Rightarrow> bytes option) \<Rightarrow> u16 \<Rightarrow> string \<Rightarrow> u64 \<Rightarrow> bytes \<Rightarrow> server_state \<Rightarrow> server_state" where
  "register_vaa hex_decode chain emitter sequence payload st =
     (let emitter_hex = strip_0x emitter in
      st\<lparr>ms_vaas := (ms_vaas st)((chain, emitter_hex, sequence) \<mapsto>
        build_vaa (ms_num_guardians st) chain (emitter_word hex_decode emitter_hex) sequence payload)\<rparr>)"

definition register_vaa_by_tx :: "(string \<Rightarrow> bytes option) \<Rightarrow> string \<Rightarrow> u16 \<Rightarrow> string \<Rightarrow> u64 \<Rightarrow> bytes \<Rightarrow> server_state \<Rightarrow> server_state" where
  "register_vaa_by_tx hex_decode tx_hash chain emitter sequence payload st =
     st\<lparr>ms_vaas_by_tx := (ms_vaas_by_tx st)(tx_hash \<mapsto>
       build_vaa (ms_num_guardians st) chain (emitter_word hex_decode (strip_0x emitter)) sequence payload)\<rparr>"

definition inject_failure :: "failure_mode \<Rightarrow> server_state \<Rightarrow> server_state" where
  "inject_failure mode st = st\<lparr>ms_failure := Some mode\<rparr>"

definition clear_failure :: "server_state \<Rightarrow> server_state" where
  "clear_failure st = st\<lparr>ms_failure := None\<rparr>"

definition set_pending_count :: "u32 \<Rightarrow> server_state \<Rightarrow> server_state" where
  "set_pending_count n st = st\<lparr>ms_pending_count := n\<rparr>"

section \<open>The handlers\<close>

definition guardian_error :: "nat \<Rightarrow> string \<Rightarrow> nat \<times> guardian_response" where
  "guardian_error status message = (status, \<lparr>gr_data = None, gr_message = Some message, gr_code = Some (int status)\<rparr>)"

definition guardian_vaa :: "string option \<Rightarrow> string option \<Rightarrow> nat \<times> guardian_response" where
  "guardian_vaa vaa_bytes message = (200, \<lparr>gr_data = Some vaa_bytes, gr_message = message, gr_code = None\<rparr>)"

definition record_request :: "string \<Rightarrow> server_state \<Rightarrow> server_state" where
  "record_request path st = st\<lparr>ms_requests := ms_requests st @ [path], ms_request_count := ms_request_count st + 1\<rparr>"

text \<open>A failure with a counter is used up by one.\<close>

definition use_up :: "(u32 \<Rightarrow> failure_mode) \<Rightarrow> u32 \<Rightarrow> server_state \<Rightarrow> server_state" where
  "use_up mode remaining st = st\<lparr>ms_failure := (if remaining > 1 then Some (mode (remaining - 1)) else None)\<rparr>"

definition count_hit :: "string \<Rightarrow> server_state \<Rightarrow> u32 \<times> server_state" where
  "count_hit key st =
     (let hits = (case ms_key_hits st key of Some h \<Rightarrow> h | None \<Rightarrow> 0) + 1
      in (hits, st\<lparr>ms_key_hits := (ms_key_hits st)(key \<mapsto> hits)\<rparr>))"

definition generate_vaa :: "(string \<Rightarrow> bytes option) \<Rightarrow> u16 \<Rightarrow> string \<Rightarrow> u64 \<Rightarrow> server_state \<Rightarrow> bytes \<times> server_state" where
  "generate_vaa hex_decode chain emitter_clean sequence st =
     (let num_sigs = (case ms_failure st of Some (InsufficientQuorum n) \<Rightarrow> n | _ \<Rightarrow> ms_num_guardians st);
          vaa = build_vaa num_sigs chain (emitter_word hex_decode emitter_clean) sequence (map (of_char :: char \<Rightarrow> u8) ''auto'')
      in case ms_failure st of
           Some DuplicateGuardians \<Rightarrow> (if length vaa > 6 + 66 then vaa[6 + 66 := vaa ! 6] else vaa, st\<lparr>ms_failure := None\<rparr>)
         | Some (InsufficientQuorum _) \<Rightarrow> (vaa, st\<lparr>ms_failure := None\<rparr>)
         | _ \<Rightarrow> (vaa, st))"

definition serve_vaa :: "(string \<Rightarrow> bytes option) \<Rightarrow> string \<Rightarrow> string \<Rightarrow> string \<Rightarrow> server_state \<Rightarrow> (nat \<times> guardian_response) \<times> server_state" where
  "serve_vaa hex_decode chain_id_str emitter sequence_str st =
     (case parse_uint 16 chain_id_str of
        None \<Rightarrow> (guardian_error 400 ''invalid chain_id'', st)
      | Some chain \<Rightarrow>
     (case parse_uint 64 sequence_str of
        None \<Rightarrow> (guardian_error 400 ''invalid sequence'', st)
      | Some sequence \<Rightarrow>
          let emitter_clean = strip_0x emitter;
              (hits, st) = count_hit (show_nat chain @ ''/'' @ emitter_clean @ ''/'' @ show_nat sequence) st
          in if hits \<le> ms_pending_count st then (guardian_vaa None (Some ''not yet signed''), st)
          else
            (case ms_vaas st (word_of_nat chain, emitter_clean, word_of_nat sequence) of
               Some vaa \<Rightarrow> (guardian_vaa (Some (base64_encode vaa)) None, st)
             | None \<Rightarrow>
                 if ms_auto_generate st
                 then let (vaa, st) = generate_vaa hex_decode (word_of_nat chain) emitter_clean (word_of_nat sequence) st
                      in (guardian_vaa (Some (base64_encode vaa)) None, st)
                 else (guardian_error 404 ''VAA not found'', st))))"

definition handle_signed_vaa :: "(string \<Rightarrow> bytes option) \<Rightarrow> string \<Rightarrow> string \<Rightarrow> string \<Rightarrow> server_state \<Rightarrow> (nat \<times> guardian_response) \<times> server_state" where
  "handle_signed_vaa hex_decode chain_id_str emitter sequence_str st =
     (let st = record_request (''/v1/signed_vaa/'' @ chain_id_str @ ''/'' @ emitter @ ''/'' @ sequence_str) st in
      case ms_failure st of
        Some (ServerError remaining) \<Rightarrow> (guardian_error 500 ''internal error'', use_up ServerError remaining st)
      | Some (Unavailable remaining) \<Rightarrow> (guardian_error 503 ''service unavailable'', use_up Unavailable remaining st)
      | Some (MalformedResponse remaining) \<Rightarrow> (guardian_vaa (Some ''!!!not-base64!!!'') None, use_up MalformedResponse remaining st)
      | Some (Timeout delay) \<Rightarrow> (guardian_error 504 ''timeout'', st)
      | _ \<Rightarrow> serve_vaa hex_decode chain_id_str emitter sequence_str st)"

definition handle_signed_vaa_by_tx :: "string \<Rightarrow> server_state \<Rightarrow> (nat \<times> guardian_response) \<times> server_state" where
  "handle_signed_vaa_by_tx tx_hash st =
     (let st = record_request (''/v1/signed_vaa_by_tx/'' @ tx_hash) st in
      case ms_failure st of
        Some (ServerError remaining) \<Rightarrow> (guardian_error 500 ''internal error'', use_up ServerError remaining st)
      | Some (Unavailable remaining) \<Rightarrow> (guardian_error 503 ''service unavailable'', use_up Unavailable remaining st)
      | _ \<Rightarrow>
          (case ms_vaas_by_tx st tx_hash of
             Some vaa \<Rightarrow> (guardian_vaa (Some (base64_encode vaa)) None, st)
           | None \<Rightarrow> (guardian_error 404 ''VAA not found'', st)))"

section \<open>The adapter against the mock\<close>

text \<open>The state after \<open>k\<close> requests for one message, and the answer to the next.\<close>

definition after_requests :: "(string \<Rightarrow> bytes option) \<Rightarrow> u16 \<Rightarrow> string \<Rightarrow> u64 \<Rightarrow> nat \<Rightarrow> server_state \<Rightarrow> server_state" where
  "after_requests hex_decode chain emitter sequence k st =
     ((\<lambda>st. snd (handle_signed_vaa hex_decode (show_nat (unat chain)) emitter (show_nat (unat sequence)) st)) ^^ k) st"

definition mock_answer :: "(string \<Rightarrow> bytes option) \<Rightarrow> u16 \<Rightarrow> string \<Rightarrow> u64 \<Rightarrow> nat \<Rightarrow> server_state \<Rightarrow> nat \<times> guardian_response" where
  "mock_answer hex_decode chain emitter sequence k st =
     fst (handle_signed_vaa hex_decode (show_nat (unat chain)) emitter (show_nat (unat sequence)) (after_requests hex_decode chain emitter sequence k st))"

text \<open>
  The network is the mock: the answer to a GET of the message is what the mock says after as many requests
  as the log has; \<open>to_json\<close> and \<open>decode\<close> are the two directions of the JSON library.
\<close>

definition served_by_mock :: "net_env \<Rightarrow> (guardian_response \<Rightarrow> string) \<Rightarrow> guardian_decoder \<Rightarrow> string \<Rightarrow> u16 \<Rightarrow> string \<Rightarrow> u64 \<Rightarrow> server_state \<Rightarrow> bool" where
  "served_by_mock env to_json decode url chain emitter sequence st \<longleftrightarrow>
     (\<forall>r. decode (to_json r) = Inr r) \<and>
     (\<forall>l. ne_get env l url =
        (let (status, resp) = mock_answer (ne_hex_decode env) chain emitter sequence (length (filter ((=) (HttpGet url)) l)) st
         in Inr (status, to_json resp)))"

text \<open>No failure is injected, messages are generated, and this one has been asked for \<open>k\<close> times.\<close>

definition hit_key :: "u16 \<Rightarrow> string \<Rightarrow> u64 \<Rightarrow> string" where
  "hit_key chain emitter sequence = show_nat (unat chain) @ ''/'' @ strip_0x emitter @ ''/'' @ show_nat (unat sequence)"

definition healthy :: "u16 \<Rightarrow> string \<Rightarrow> u64 \<Rightarrow> nat \<Rightarrow> server_state \<Rightarrow> bool" where
  "healthy chain emitter sequence k st \<longleftrightarrow> ms_failure st = None \<and> ms_auto_generate st \<and> ms_vaas st (chain, strip_0x emitter, sequence) = None \<and>
     (case ms_key_hits st (hit_key chain emitter sequence) of Some h \<Rightarrow> h | None \<Rightarrow> 0) = word_of_nat k"

definition auto_vaa :: "(string \<Rightarrow> bytes option) \<Rightarrow> u16 \<Rightarrow> string \<Rightarrow> u64 \<Rightarrow> server_state \<Rightarrow> bytes" where
  "auto_vaa unhex chain emitter sequence st =
     build_vaa (ms_num_guardians st) chain (emitter_word unhex (strip_0x emitter)) sequence (map of_char ''auto'')"

lemma handle_healthy:
  assumes "healthy chain emitter sequence k st"
  shows "handle_signed_vaa unhex (show_nat (unat chain)) emitter (show_nat (unat sequence)) st =
    (if word_of_nat k + 1 \<le> ms_pending_count st then guardian_vaa None (Some ''not yet signed'')
     else guardian_vaa (Some (base64_encode (auto_vaa unhex chain emitter sequence st))) None,
     (record_request (''/v1/signed_vaa/'' @ show_nat (unat chain) @ ''/'' @ emitter @ ''/'' @ show_nat (unat sequence)) st)
       \<lparr>ms_key_hits := (ms_key_hits st)(hit_key chain emitter sequence \<mapsto> word_of_nat k + 1)\<rparr>)"
proof -
  have "unat chain < 2 ^ 16" "unat sequence < 2 ^ 64"
    using unsigned_less [of chain, where 'a = nat] unsigned_less [of sequence, where 'a = nat] by simp_all
  then have "parse_uint 16 (show_nat (unat chain)) = Some (unat chain)" "parse_uint 64 (show_nat (unat sequence)) = Some (unat sequence)"
    by (simp_all add: parse_uint_show_nat)
  then show ?thesis
    using assms unfolding healthy_def hit_key_def auto_vaa_def
    by (simp add: handle_signed_vaa_def serve_vaa_def record_request_def count_hit_def generate_vaa_def Let_def)
qed

lemma after_requests_healthy:
  assumes "healthy chain emitter sequence 0 st"
  shows "healthy chain emitter sequence k (after_requests unhex chain emitter sequence k st) \<and>
    ms_num_guardians (after_requests unhex chain emitter sequence k st) = ms_num_guardians st \<and>
    ms_pending_count (after_requests unhex chain emitter sequence k st) = ms_pending_count st"
proof (induction k)
  case 0
  then show ?case using assms by (simp add: after_requests_def)
next
  case (Suc k)
  let ?st = "after_requests unhex chain emitter sequence k st"
  have "after_requests unhex chain emitter sequence (Suc k) st =
      snd (handle_signed_vaa unhex (show_nat (unat chain)) emitter (show_nat (unat sequence)) ?st)"
    by (simp add: after_requests_def)
  then show ?case using Suc handle_healthy [of chain emitter sequence k ?st unhex] by (simp add: healthy_def record_request_def add.commute)
qed

lemma mock_answer_healthy:
  assumes "healthy chain emitter sequence 0 st" and "Suc k < 2 ^ 32"
  shows "mock_answer unhex chain emitter sequence k st =
    (if k < unat (ms_pending_count st) then guardian_vaa None (Some ''not yet signed'')
     else guardian_vaa (Some (base64_encode (auto_vaa unhex chain emitter sequence st))) None)"
proof -
  have "unat (word_of_nat (Suc k) :: u32) = Suc k" using assms(2) by (simp add: unat_of_nat del: of_nat_Suc)
  then have "(word_of_nat k + 1 \<le> ms_pending_count st) \<longleftrightarrow> k < unat (ms_pending_count st)"
    by (simp add: word_le_nat_alt Suc_le_eq add.commute)
  then show ?thesis
    using after_requests_healthy [OF assms(1), of k unhex] handle_healthy [of chain emitter sequence k "after_requests unhex chain emitter sequence k st" unhex]
    by (simp add: mock_answer_def auto_vaa_def)
qed

text \<open>A GET while the breaker of the API is closed: the answer, and the breaker stays closed.\<close>

lemma pause_log: "pause env attempt i m w = (Inr (), w\<lparr>nt_log := nt_log w @ [Pause (backoff_delay (ne_random env (nt_log w)) attempt i m)]\<rparr>)"
  by (simp add: pause_def bindA_def getsA_def sleep_ms_def modifyA_def)

lemma poll_mock:
  assumes mock: "served_by_mock env to_json decode url chain emitter sequence st" "healthy chain emitter sequence 0 st"
    and parsed: "parse_vaa (ne_hex_encode env) (auto_vaa (ne_hex_decode env) chain emitter sequence st) = Inr v"
    and k: "k = length (filter ((=) (HttpGet url)) (nt_log w))" "k \<le> unat (ms_pending_count st)" "Suc (unat (ms_pending_count st)) < 2 ^ 32"
    and fuel: "unat (ms_pending_count st) < k + n" and closed: "cb_state (snd (nt_api_breaker w)) = Closed"
  shows "\<exists>w'. poll_vaa env decode url attempt n e w = (Inr v, w') \<and>
    length (filter ((=) (HttpGet url)) (nt_log w')) = Suc (unat (ms_pending_count st))"
  using k fuel closed
proof (induction n arbitrary: k attempt e w)
  case 0
  then show ?case by simp
next
  case (Suc n)
  let ?p = "unat (ms_pending_count st)"
  obtain status resp where ans: "mock_answer (ne_hex_decode env) chain emitter sequence k st = (status, resp)" by fastforce
  have get: "ne_get env (nt_log w) url = Inr (status, to_json resp)" and dec: "decode (to_json resp) = Inr resp"
    using mock(1) ans Suc.prems(1) by (auto simp: served_by_mock_def)
  obtain w1 where w1: "api_call env ''read body: '' url w = (Inr (status, to_json resp), w1)" "nt_log w1 = nt_log w @ [HttpGet url]"
    "cb_state (snd (nt_api_breaker w1)) = Closed" by (rule closed_api_call [OF Suc.prems(5) get])
  have ok: "mock_answer (ne_hex_decode env) chain emitter sequence k st = (if k < ?p then guardian_vaa None (Some ''not yet signed'')
     else guardian_vaa (Some (base64_encode (auto_vaa (ne_hex_decode env) chain emitter sequence st))) None)"
    using mock_answer_healthy [OF mock(2)] Suc.prems(2,3) by simp
  show ?case
  proof (cases "k < ?p")
    case True
    define w2 where "w2 = w1\<lparr>nt_log := nt_log w1 @ [Pause (backoff_delay (ne_random env (nt_log w1)) attempt VAA_POLL_INITIAL_DELAY_MS VAA_POLL_MAX_DELAY_MS)]\<rparr>"
    have "status = 200" "gr_data resp = Some None" using True ok ans by (simp_all add: guardian_vaa_def)
    then have "poll_vaa env decode url attempt (Suc n) e w = poll_vaa env decode url (Suc attempt) n e w2"
      using w1(1) dec by (simp add: bindA_def tryA_def seqA_def pause_log w2_def http_ok_def)
    moreover have "\<exists>w'. poll_vaa env decode url (Suc attempt) n e w2 = (Inr v, w') \<and> length (filter ((=) (HttpGet url)) (nt_log w')) = Suc ?p"
      by (rule Suc.IH [of "Suc k"]) (use True Suc.prems w1 in \<open>simp_all add: w2_def\<close>)
    ultimately show ?thesis by simp
  next
    case False
    then have k: "k = ?p" using Suc.prems(2) by simp
    have "status = 200" "gr_data resp = Some (Some (base64_encode (auto_vaa (ne_hex_decode env) chain emitter sequence st)))"
      using False ok ans by (simp_all add: guardian_vaa_def)
    then have "poll_vaa env decode url attempt (Suc n) e w = (Inr v, w1)"
      using w1(1) dec parsed by (simp add: bindA_def tryA_def http_ok_def liftR_def read_vaa_def base64_roundtrip)
    then show ?thesis using w1(2) Suc.prems(1) k by simp
  qed
qed

text \<open>
  The adapter obtains a message from a healthy guardian network: when the guardians answer ``not yet
  signed'' fewer than 30 times, fetching the message returns it after exactly one request more, with the
  chain and the sequence number asked for, and with 13 to 19 guardians it passes the quorum check. The guardian
  network is the mock with its Base64 and binary encodings, the adapter decodes them.
\<close>

theorem adapter_fetches_from_mock:
  assumes "served_by_mock env to_json decode (vaa_url w chain emitter sequence) chain emitter sequence st" and "healthy chain emitter sequence 0 st"
    and "HttpGet (vaa_url w chain emitter sequence) \<notin> set (nt_log w)" and "cb_state (snd (nt_api_breaker w)) = Closed"
    and "unat (ms_pending_count st) < 30"
  shows "\<exists>v w'. fetch_vaa env decode chain emitter sequence w = (Inr v, w') \<and>
    va_emitter_chain v = chain \<and> va_sequence v = sequence \<and>
    va_emitter_address v = ne_hex_encode env (emitter_word (ne_hex_decode env) (strip_0x emitter)) \<and>
    (verify_vaa v = Some (Inr ()) \<longleftrightarrow> 13 \<le> unat (ms_num_guardians st) \<and> unat (ms_num_guardians st) \<le> 19) \<and>
    length (filter ((=) (HttpGet (vaa_url w chain emitter sequence))) (nt_log w')) = unat (ms_pending_count st) + 1"
proof -
  let ?url = "vaa_url w chain emitter sequence"
  obtain v where v: "parse_vaa (ne_hex_encode env) (auto_vaa (ne_hex_decode env) chain emitter sequence st) = Inr v"
      "va_emitter_chain v = chain" "va_sequence v = sequence" "va_emitter_address v = ne_hex_encode env (emitter_word (ne_hex_decode env) (strip_0x emitter))"
      "verify_vaa v = Some (Inr ()) \<longleftrightarrow> 13 \<le> unat (ms_num_guardians st) \<and> unat (ms_num_guardians st) \<le> 19"
    using parse_built_vaa [of "emitter_word (ne_hex_decode env) (strip_0x emitter)"] unfolding auto_vaa_def by (force simp: emitter_word_def)
  have "filter ((=) (HttpGet ?url)) (nt_log w) = []" using assms(3) by (auto simp: filter_empty_conv)
  then obtain w' where "poll_vaa env decode ?url 0 30 ''VAA not available'' w = (Inr v, w')"
      "length (filter ((=) (HttpGet ?url)) (nt_log w')) = Suc (unat (ms_pending_count st))"
    using poll_mock [OF assms(1,2) v(1), of 0 w 30] assms(4,5) by auto
  then show ?thesis using v(2-) by (auto simp: fetch_vaa_def bindA_def getsA_def VAA_POLL_MAX_RETRIES_def)
qed

text \<open>A network for the example: answers are numbered, and the text of an answer is its number.\<close>

definition number_json :: "guardian_response \<Rightarrow> string" where
  "number_json r = show_nat (to_nat (gr_data r, gr_message r, gr_code r))"

definition decode_number :: guardian_decoder where
  "decode_number body = (case from_nat (digits_value body) of (d, m, c) \<Rightarrow> Inr \<lparr>gr_data = d, gr_message = m, gr_code = c\<rparr>)"

definition mock_env :: "string \<Rightarrow> u16 \<Rightarrow> string \<Rightarrow> u64 \<Rightarrow> server_state \<Rightarrow> net_env" where
  "mock_env url chain emitter sequence st = sample_net_env\<lparr>ne_get := (\<lambda>l u.
     let (status, resp) = mock_answer sample_unhex chain emitter sequence (length (filter ((=) (HttpGet url)) l)) st in Inr (status, number_json resp))\<rparr>"

theorem adapter_fetches_from_mock_witness:
  "let w = WormholeBridge_new ''http://guardian'' in
   \<exists>v w'. fetch_vaa (mock_env (vaa_url w 2 ''ab'' 7) 2 ''ab'' 7 (build (pending_count 4 builder))) decode_number 2 ''ab'' 7 w = (Inr v, w') \<and>
     va_sequence v = 7 \<and> verify_vaa v = Some (Inr ()) \<and> length (filter ((=) (HttpGet (vaa_url w 2 ''ab'' 7))) (nt_log w')) = 5"
proof -
  let ?w = "WormholeBridge_new ''http://guardian''" and ?st = "build (pending_count 4 builder)"
  let ?env = "mock_env (vaa_url ?w 2 ''ab'' 7) 2 ''ab'' 7 ?st"
  have "served_by_mock ?env number_json decode_number (vaa_url ?w 2 ''ab'' 7) 2 ''ab'' 7 ?st"
    by (auto simp: served_by_mock_def mock_env_def number_json_def decode_number_def sample_net_env_def split: prod.splits)
  moreover have "healthy 2 ''ab'' 7 0 ?st" "unat (ms_pending_count ?st) = 4" "unat (ms_num_guardians ?st) = 13"
    by (simp_all add: healthy_def build_def builder_def pending_count_def ServerState_new_def)
  moreover have "nt_log ?w = []" "cb_state (snd (nt_api_breaker ?w)) = Closed"
    by (simp_all add: WormholeBridge_new_def CircuitBreaker_new_def)
  ultimately show ?thesis
    using adapter_fetches_from_mock [of ?env number_json decode_number ?w 2 "''ab''" 7 ?st] unfolding Let_def by auto
qed

end
