(* ===== verification/Rlp.thy ===== *)
theory Rlp
  imports Prelude
begin

text \<open>
  RLP, the serialisation of Ethereum transactions (src/wallet/rlp.rs), with the payloads that are
  signed. The reference is the decoder of the specification that the file implements (Yellow
  Paper, appendix B): it reads a sequence of items from a byte string. The encoders are shown to
  be inverse to it, so what is signed determines the transaction.
\<close>

section \<open>Encoding\<close>

definition to_be_bytes_trimmed :: "u64 \<Rightarrow> u8 list" where
  "to_be_bytes_trimmed val = dropWhile (\<lambda>b. b = 0) (be_bytes 8 (unat val))"

definition encode_bytes :: "u8 list \<Rightarrow> u8 list" where
  "encode_bytes data =
     (if length data = 1 \<and> data ! 0 \<le> 0x7f then [data ! 0]
      else if length data \<le> 55 then (0x80 + word_of_nat (length data)) # data
      else let len_bytes = to_be_bytes_trimmed (word_of_nat (length data)) in
           (0xb7 + word_of_nat (length len_bytes)) # len_bytes @ data)"

definition wrap_list :: "u8 list \<Rightarrow> u8 list" where
  "wrap_list payload =
     (if length payload \<le> 55 then (0xc0 + word_of_nat (length payload)) # payload
      else let len_bytes = to_be_bytes_trimmed (word_of_nat (length payload)) in
           (0xf7 + word_of_nat (length len_bytes)) # len_bytes @ payload)"

definition encode_list :: "u8 list list \<Rightarrow> u8 list" where
  "encode_list items = wrap_list (concat items)"

definition encode_u64 :: "u64 \<Rightarrow> u8 list" where
  "encode_u64 val = (if val = 0 then encode_bytes [] else encode_bytes (to_be_bytes_trimmed val))"

definition encode_u128 :: "u128 \<Rightarrow> u8 list" where
  "encode_u128 val =
     (if val = 0 then encode_bytes [] else encode_bytes (dropWhile (\<lambda>b. b = 0) (be_bytes 16 (unat val))))"

definition encode_u256 :: "u8 list \<Rightarrow> u8 list" where
  "encode_u256 val =
     (let start = length (takeWhile (\<lambda>b. b = 0) val) in
      if start = 32 then encode_bytes [] else encode_bytes (drop start val))"

definition encode_empty :: "u8 list" where "encode_empty = [0x80]"

definition encode_address :: "u8 list \<Rightarrow> u8 list" where "encode_address addr = encode_bytes addr"

section \<open>Transactions\<close>

record legacy_tx_fields =
  lt_nonce :: u64
  lt_gas_price :: u64
  lt_gas_limit :: u64
  lt_to :: "u8 list"
  lt_value :: u128
  lt_data :: "u8 list"
  lt_chain_id :: u64

definition encode_legacy_unsigned :: "legacy_tx_fields \<Rightarrow> u8 list" where
  "encode_legacy_unsigned tx = encode_list
     [encode_u64 (lt_nonce tx), encode_u64 (lt_gas_price tx), encode_u64 (lt_gas_limit tx), encode_address (lt_to tx),
      encode_u128 (lt_value tx), encode_bytes (lt_data tx), encode_u64 (lt_chain_id tx), encode_empty, encode_empty]"

definition encode_legacy_signed :: "legacy_tx_fields \<Rightarrow> u64 \<Rightarrow> u8 list \<Rightarrow> u8 list \<Rightarrow> u8 list" where
  "encode_legacy_signed tx v r s = encode_list
     [encode_u64 (lt_nonce tx), encode_u64 (lt_gas_price tx), encode_u64 (lt_gas_limit tx), encode_address (lt_to tx),
      encode_u128 (lt_value tx), encode_bytes (lt_data tx), encode_u64 v, encode_u256 r, encode_u256 s]"

record eip1559_tx_fields =
  et_chain_id :: u64
  et_nonce :: u64
  et_max_priority_fee_per_gas :: u64
  et_max_fee_per_gas :: u64
  et_gas_limit :: u64
  et_to :: "u8 list"
  et_value :: u128
  et_data :: "u8 list"

definition encode_eip1559_unsigned :: "eip1559_tx_fields \<Rightarrow> u8 list" where
  "encode_eip1559_unsigned tx = 0x02 # encode_list
     [encode_u64 (et_chain_id tx), encode_u64 (et_nonce tx), encode_u64 (et_max_priority_fee_per_gas tx),
      encode_u64 (et_max_fee_per_gas tx), encode_u64 (et_gas_limit tx), encode_address (et_to tx),
      encode_u128 (et_value tx), encode_bytes (et_data tx), encode_list []]"

definition encode_eip1559_signed :: "eip1559_tx_fields \<Rightarrow> u64 \<Rightarrow> u8 list \<Rightarrow> u8 list \<Rightarrow> u8 list" where
  "encode_eip1559_signed tx y_parity r s = 0x02 # encode_list
     [encode_u64 (et_chain_id tx), encode_u64 (et_nonce tx), encode_u64 (et_max_priority_fee_per_gas tx),
      encode_u64 (et_max_fee_per_gas tx), encode_u64 (et_gas_limit tx), encode_address (et_to tx),
      encode_u128 (et_value tx), encode_bytes (et_data tx), encode_list [],
      encode_u64 y_parity, encode_u256 r, encode_u256 s]"

section \<open>The reference decoder\<close>

datatype rlp = RStr "u8 list" | RLst "rlp list"

text \<open>
  The head of an item: whether it is a list, its payload and the bytes behind it. Lengths are read
  as written; a payload that is not there in full is refused.
\<close>

definition split_payload :: "nat \<Rightarrow> u8 list \<Rightarrow> (u8 list \<times> u8 list) option" where
  "split_payload n bs = (if n \<le> length bs then Some (take n bs, drop n bs) else None)"

definition split_long :: "nat \<Rightarrow> u8 list \<Rightarrow> (u8 list \<times> u8 list) option" where
  "split_long k bs = (if k \<le> length bs then split_payload (of_be_bytes (take k bs)) (drop k bs) else None)"

fun rlp_head :: "u8 list \<Rightarrow> (bool \<times> u8 list \<times> u8 list) option" where
  "rlp_head [] = None"
| "rlp_head (b # bs) =
     (let n = unat b in
      if n < 0x80 then Some (False, [b], bs)
      else if n < 0xb8 then map_option (Pair False) (split_payload (n - 0x80) bs)
      else if n < 0xc0 then map_option (Pair False) (split_long (n - 0xb7) bs)
      else if n < 0xf8 then map_option (Pair True) (split_payload (n - 0xc0) bs)
      else map_option (Pair True) (split_long (n - 0xf7) bs))"

lemma split_shorter:
  "split_payload n bs = Some (p, r) \<Longrightarrow> length p \<le> length bs \<and> length r \<le> length bs"
  "split_long k bs = Some (p, r) \<Longrightarrow> length p \<le> length bs \<and> length r \<le> length bs"
  by (auto simp: split_payload_def split_long_def split: if_splits)

lemma rlp_head_shorter: "rlp_head (b # bs) = Some (l, p, r) \<Longrightarrow> (l \<longrightarrow> length p \<le> length bs) \<and> length r \<le> length bs"
  by (auto simp: Let_def dest: split_shorter split: if_splits)

function rlp_items :: "u8 list \<Rightarrow> rlp list option" where
  "rlp_items [] = Some []"
| "rlp_items (b # bs) =
     (case rlp_head (b # bs) of
        None \<Rightarrow> None
      | Some (l, p, r) \<Rightarrow>
          (case (if l then map_option RLst (rlp_items p) else Some (RStr p)) of
             None \<Rightarrow> None
           | Some x \<Rightarrow> map_option (Cons x) (rlp_items r)))"
  by pat_completeness auto

termination
  by (relation "measure length") (auto dest: rlp_head_shorter simp del: rlp_head.simps simp: less_Suc_eq_le)

section \<open>Encoders and decoder are inverse\<close>

lemma unat_prefix: "numeral w + k < 256 \<Longrightarrow> unat (numeral w + word_of_nat k :: u8) = numeral w + k"
proof -
  assume "numeral w + k < 256"
  moreover have "(numeral w + word_of_nat k :: u8) = word_of_nat (numeral w + k)" by simp
  ultimately show ?thesis by (simp only: unat_of_nat) simp
qed

lemma trimmed_value: "of_be_bytes (to_be_bytes_trimmed v) = unat v"
proof -
  have "unat v < 256 ^ 8" using unsigned_less [of v, where 'a = nat] by simp
  then show ?thesis by (simp add: to_be_bytes_trimmed_def of_be_bytes_drop_zeros of_be_bytes_be_bytes)
qed

lemma trimmed_length: "length (to_be_bytes_trimmed v) \<le> 8"
  using length_dropWhile_le [of _ "be_bytes 8 (unat v)"] by (simp add: to_be_bytes_trimmed_def)

lemma trimmed_length_pos: "v \<noteq> 0 \<Longrightarrow> 0 < length (to_be_bytes_trimmed v)"
  using trimmed_value [of v] by (cases "to_be_bytes_trimmed v") (auto simp: of_be_bytes_def unat_eq_0)

text \<open>A long length prefix is read back, for strings and lists alike.\<close>

lemma split_long_prefix:
  assumes "length data < 2 ^ 64"
  shows "split_long (length (to_be_bytes_trimmed (word_of_nat (length data)))) (to_be_bytes_trimmed (word_of_nat (length data)) @ data @ rest) =
    Some (data, rest)"
proof -
  have "of_be_bytes (to_be_bytes_trimmed (word_of_nat (length data))) = length data"
    using assms by (simp add: trimmed_value unat_of_nat)
  then show ?thesis by (simp add: split_long_def split_payload_def)
qed

lemma split_payload_append [simp]: "split_payload (length p) (p @ r) = Some (p, r)"
  by (simp add: split_payload_def)

lemma long_prefix_bounds:
  assumes "55 < n" and "n < 2 ^ 64"
  shows "0 < length (to_be_bytes_trimmed (word_of_nat n)) \<and> length (to_be_bytes_trimmed (word_of_nat n)) \<le> 8"
proof -
  have "(word_of_nat n :: u64) \<noteq> 0" using assms by (simp add: word_of_nat_eq_0_iff nat_dvd_not_less)
  then show ?thesis using trimmed_length_pos trimmed_length by blast
qed

lemma rlp_head_bytes:
  assumes "length data < 2 ^ 64"
  shows "rlp_head (encode_bytes data @ rest) = Some (False, data, rest)"
proof (cases "length data = 1 \<and> data ! 0 \<le> 0x7f")
  case True
  then obtain b where "data = [b]" "b \<le> 0x7f" by (auto simp: length_Suc_conv)
  moreover from this have "unat b < 128" by (simp add: word_le_nat_alt)
  ultimately show ?thesis by (simp add: encode_bytes_def)
next
  case single: False
  show ?thesis
  proof (cases "length data \<le> 55")
    case True
    then have "unat (0x80 + word_of_nat (length data) :: u8) = 128 + length data" by (intro unat_prefix) simp
    then show ?thesis unfolding encode_bytes_def if_not_P [OF single] using True by (simp add: Let_def)
  next
    case False
    let ?k = "length (to_be_bytes_trimmed (word_of_nat (length data)))"
    have k: "0 < ?k" "?k \<le> 8" using long_prefix_bounds False assms by auto
    then have "unat (0xb7 + word_of_nat ?k :: u8) = 183 + ?k" by (intro unat_prefix) simp
    then show ?thesis unfolding encode_bytes_def if_not_P [OF single] using False k split_long_prefix [OF assms, of rest] by (simp add: Let_def)
  qed
qed

lemma rlp_head_list:
  assumes "length p < 2 ^ 64"
  shows "rlp_head (wrap_list p @ rest) = Some (True, p, rest)"
proof (cases "length p \<le> 55")
  case True
  then have "unat (0xc0 + word_of_nat (length p) :: u8) = 192 + length p" by (intro unat_prefix) simp
  then show ?thesis using True by (simp add: wrap_list_def Let_def)
next
  case False
  let ?k = "length (to_be_bytes_trimmed (word_of_nat (length p)))"
  have k: "0 < ?k" "?k \<le> 8" using long_prefix_bounds False assms by auto
  then have "unat (0xf7 + word_of_nat ?k :: u8) = 247 + ?k" by (intro unat_prefix) simp
  then show ?thesis using False k split_long_prefix [OF assms, of rest] by (simp add: wrap_list_def Let_def)
qed

text \<open>The serialisation of a tree by the encoders, and the sizes they can handle.\<close>

fun rlp_enc :: "rlp \<Rightarrow> u8 list" where
  "rlp_enc (RStr bs) = encode_bytes bs"
| "rlp_enc (RLst xs) = encode_list (map rlp_enc xs)"

fun rlp_fits :: "rlp \<Rightarrow> bool" where
  "rlp_fits (RStr bs) \<longleftrightarrow> length bs < 2 ^ 64"
| "rlp_fits (RLst xs) \<longleftrightarrow> list_all rlp_fits xs \<and> length (concat (map rlp_enc xs)) < 2 ^ 64"

lemma rlp_items_step:
  assumes "rlp_head bs = Some (l, p, r)"
  shows "rlp_items bs = (case (if l then map_option RLst (rlp_items p) else Some (RStr p)) of
     None \<Rightarrow> None | Some x \<Rightarrow> map_option (Cons x) (rlp_items r))"
  using assms by (cases bs) (auto simp del: rlp_head.simps(2))

lemma rlp_items_enc: "rlp_fits x \<Longrightarrow> rlp_items (rlp_enc x @ rest) = map_option (Cons x) (rlp_items rest)"
proof (induction x arbitrary: rest)
  case (RStr bs)
  then show ?case using rlp_items_step [OF rlp_head_bytes] by simp
next
  case (RLst xs)
  have "rlp_items (concat (map rlp_enc ys)) = Some ys" if "set ys \<subseteq> set xs" for ys
    using that RLst by (induction ys) (auto simp: list_all_iff)
  then have "rlp_items (concat (map rlp_enc xs)) = Some xs" by blast
  then show ?case using rlp_items_step [OF rlp_head_list, of "concat (map rlp_enc xs)" rest] RLst.prems
    by (simp add: encode_list_def del: length_concat)
qed

section \<open>Integers\<close>

lemma encode_u64_bytes: "encode_u64 v = encode_bytes (to_be_bytes_trimmed v)"
proof -
  have "to_be_bytes_trimmed 0 = []" by (simp add: to_be_bytes_trimmed_def be_bytes_zero)
  then show ?thesis by (simp add: encode_u64_def)
qed

definition u128_bytes :: "u128 \<Rightarrow> u8 list" where
  "u128_bytes v = dropWhile (\<lambda>b. b = 0) (be_bytes 16 (unat v))"

lemma u128_bytes_value: "of_be_bytes (u128_bytes v) = unat v"
proof -
  have "unat v < 256 ^ 16" using unsigned_less [of v, where 'a = nat] by simp
  then show ?thesis by (simp add: u128_bytes_def of_be_bytes_drop_zeros of_be_bytes_be_bytes)
qed

lemma u128_bytes_length: "length (u128_bytes v) \<le> 16"
  using length_dropWhile_le [of _ "be_bytes 16 (unat v)"] by (simp add: u128_bytes_def)

lemma encode_u128_bytes: "encode_u128 v = encode_bytes (u128_bytes v)"
proof -
  have "u128_bytes 0 = []" by (simp add: u128_bytes_def be_bytes_zero)
  then show ?thesis by (cases "v = 0") (simp_all only: encode_u128_def u128_bytes_def if_True if_False simp_thms)
qed

lemma trimmed_inj [simp]: "to_be_bytes_trimmed v = to_be_bytes_trimmed w \<longleftrightarrow> v = w"
  by (metis trimmed_value unsigned_word_eqI)

lemma u128_bytes_inj [simp]: "u128_bytes v = u128_bytes w \<longleftrightarrow> v = w"
  by (metis u128_bytes_value unsigned_word_eqI)

text \<open>The bytes of a 256-bit number without its leading zeros.\<close>

lemma encode_u256_bytes:
  assumes "length v = 32"
  shows "encode_u256 v = encode_bytes (dropWhile (\<lambda>b. b = 0) v)"
proof -
  have drop: "drop (length (takeWhile (\<lambda>b. b = 0) v)) v = dropWhile (\<lambda>b. b = 0) v" by (simp add: dropWhile_eq_drop)
  show ?thesis
  proof (cases "length (takeWhile (\<lambda>b. b = 0) v) = 32")
    case True
    then have "dropWhile (\<lambda>b. b = 0) v = []" using drop assms by (metis drop_all order_refl)
    then show ?thesis using True by (simp only: encode_u256_def Let_def if_True simp_thms)
  next
    case False
    then show ?thesis using drop by (simp add: encode_u256_def Let_def)
  qed
qed

lemma encode_bytes_length: "length (encode_bytes d) \<le> length d + 9"
  using trimmed_length [of "word_of_nat (length d)"] by (simp add: encode_bytes_def Let_def)

section \<open>Signing payloads\<close>

definition legacy_items :: "legacy_tx_fields \<Rightarrow> u8 list list" where
  "legacy_items tx = [to_be_bytes_trimmed (lt_nonce tx), to_be_bytes_trimmed (lt_gas_price tx), to_be_bytes_trimmed (lt_gas_limit tx),
     lt_to tx, u128_bytes (lt_value tx), lt_data tx, to_be_bytes_trimmed (lt_chain_id tx), [], []]"

definition eip1559_items :: "eip1559_tx_fields \<Rightarrow> u8 list list" where
  "eip1559_items tx = [to_be_bytes_trimmed (et_chain_id tx), to_be_bytes_trimmed (et_nonce tx),
     to_be_bytes_trimmed (et_max_priority_fee_per_gas tx), to_be_bytes_trimmed (et_max_fee_per_gas tx),
     to_be_bytes_trimmed (et_gas_limit tx), et_to tx, u128_bytes (et_value tx), et_data tx]"

text \<open>The sizes of the types of the code: an address has 20 bytes, the data fit into the address space.\<close>

definition legacy_ok :: "legacy_tx_fields \<Rightarrow> bool" where
  "legacy_ok tx \<longleftrightarrow> length (lt_to tx) = 20 \<and> length (lt_data tx) < 2 ^ 63"

definition eip1559_ok :: "eip1559_tx_fields \<Rightarrow> bool" where
  "eip1559_ok tx \<longleftrightarrow> length (et_to tx) = 20 \<and> length (et_data tx) < 2 ^ 63"

lemma encode_empty_bytes: "encode_empty = encode_bytes []"
  by (simp add: encode_empty_def encode_bytes_def)

lemma encs_length: "length (concat (map encode_bytes xs)) \<le> sum_list (map length xs) + 9 * length xs"
proof (induction xs)
  case (Cons x xs)
  then show ?case using encode_bytes_length [of x] by simp
qed simp

lemma rlp_items_list:
  assumes "rlp_fits (RLst xs)"
  shows "rlp_items (encode_list (map rlp_enc xs)) = Some [RLst xs]"
  using rlp_items_enc [OF assms, of "[]"] by simp

lemma map_RStr_fits: "sum_list (map length xs) + 9 * length xs < 2 ^ 64 \<Longrightarrow> rlp_fits (RLst (map RStr xs)) "
proof -
  assume *: "sum_list (map length xs) + 9 * length xs < 2 ^ 64"
  have "length x < 2 ^ 64" if "x \<in> set xs" for x
    using member_le_sum_list [of "length x" "map length xs"] that * by fastforce
  moreover have "length (concat (map encode_bytes xs)) < 2 ^ 64" using encs_length [of xs] * by linarith
  ultimately show ?thesis by (simp add: list_all_iff o_def del: length_concat)
qed

lemma legacy_decodes:
  assumes "legacy_ok tx"
  shows "rlp_items (encode_legacy_unsigned tx) = Some [RLst (map RStr (legacy_items tx))]"
proof -
  have "sum_list (map length (legacy_items tx)) + 9 * length (legacy_items tx) < 2 ^ 64"
    using assms trimmed_length [of "lt_nonce tx"] trimmed_length [of "lt_gas_price tx"] trimmed_length [of "lt_gas_limit tx"]
      trimmed_length [of "lt_chain_id tx"] u128_bytes_length [of "lt_value tx"]
    by (simp add: legacy_items_def legacy_ok_def)
  from rlp_items_list [OF map_RStr_fits [OF this]] show ?thesis
    by (simp add: encode_legacy_unsigned_def legacy_items_def encode_u64_bytes encode_u128_bytes encode_address_def encode_empty_bytes)
qed

lemma eip1559_decodes:
  assumes "eip1559_ok tx"
  shows "\<exists>bs. encode_eip1559_unsigned tx = 0x02 # bs \<and> rlp_items bs = Some [RLst (map RStr (eip1559_items tx) @ [RLst []])]"
proof -
  let ?xs = "map RStr (eip1559_items tx) @ [RLst []]"
  have "sum_list (map length (eip1559_items tx)) + 9 * length (eip1559_items tx) < 2 ^ 64 - 1"
    using assms trimmed_length [of "et_nonce tx"] trimmed_length [of "et_chain_id tx"] trimmed_length [of "et_gas_limit tx"]
      trimmed_length [of "et_max_fee_per_gas tx"] trimmed_length [of "et_max_priority_fee_per_gas tx"] u128_bytes_length [of "et_value tx"]
    by (simp add: eip1559_items_def eip1559_ok_def)
  then have size: "sum_list (map length (eip1559_items tx)) + 9 * length (eip1559_items tx) < 2 ^ 64"
    and "length (concat (map encode_bytes (eip1559_items tx))) + 1 < 2 ^ 64" using encs_length [of "eip1559_items tx"] by linarith+
  moreover have "encode_list [] = [0xc0]" by (simp add: encode_list_def wrap_list_def)
  ultimately have "rlp_fits (RLst ?xs)" using map_RStr_fits [OF size] by (simp add: o_def del: length_concat)
  from rlp_items_list [OF this] show ?thesis
    by (simp add: encode_eip1559_unsigned_def eip1559_items_def encode_u64_bytes encode_u128_bytes encode_address_def)
qed

section \<open>Properties\<close>

text \<open>
  What is signed determines the transaction: the signing payloads decode, by the rules of the
  specification, to exactly the fields of the transaction as minimal big-endian integers and byte
  strings. So two legacy transactions with the same payload are equal, the same holds for EIP-1559
  transactions, and a legacy payload is never an EIP-1559 payload.
\<close>

theorem signing_payload_determines_transaction:
  assumes "legacy_ok tx" and "eip1559_ok etx"
  shows "rlp_items (encode_legacy_unsigned tx) = Some [RLst (map RStr (legacy_items tx))] \<and>
    (\<forall>tx'. legacy_ok tx' \<longrightarrow> encode_legacy_unsigned tx' = encode_legacy_unsigned tx \<longrightarrow> tx' = tx) \<and>
    (\<forall>etx'. eip1559_ok etx' \<longrightarrow> encode_eip1559_unsigned etx' = encode_eip1559_unsigned etx \<longrightarrow> etx' = etx) \<and>
    encode_legacy_unsigned tx \<noteq> encode_eip1559_unsigned etx"
proof (intro conjI allI impI)
  show dec: "rlp_items (encode_legacy_unsigned tx) = Some [RLst (map RStr (legacy_items tx))]" by (rule legacy_decodes [OF assms(1)])
  show "tx' = tx" if "legacy_ok tx'" "encode_legacy_unsigned tx' = encode_legacy_unsigned tx" for tx'
    using legacy_decodes [OF that(1)] dec that(2) by (simp add: legacy_items_def)
  show "etx' = etx" if "eip1559_ok etx'" "encode_eip1559_unsigned etx' = encode_eip1559_unsigned etx" for etx'
    using eip1559_decodes [OF that(1)] eip1559_decodes [OF assms(2)] that(2) by (auto simp: eip1559_items_def)
  show "encode_legacy_unsigned tx \<noteq> encode_eip1559_unsigned etx"
  proof
    assume "encode_legacy_unsigned tx = encode_eip1559_unsigned etx"
    then obtain bs where "rlp_items (0x02 # bs) = Some [RLst (map RStr (legacy_items tx))]"
      using dec eip1559_decodes [OF assms(2)] by auto
    then show False by (auto simp: legacy_items_def split: option.splits)
  qed
qed

definition sample_legacy :: legacy_tx_fields where
  "sample_legacy = \<lparr>lt_nonce = 9, lt_gas_price = 20000000000, lt_gas_limit = 21000, lt_to = replicate 20 0x35,
     lt_value = 1000000000000000000, lt_data = [], lt_chain_id = 1\<rparr>"

definition sample_eip1559 :: eip1559_tx_fields where
  "sample_eip1559 = \<lparr>et_chain_id = 1, et_nonce = 9, et_max_priority_fee_per_gas = 2, et_max_fee_per_gas = 30, et_gas_limit = 21000,
     et_to = replicate 20 0x35, et_value = 5, et_data = [1, 2]\<rparr>"

theorem signing_payload_determines_transaction_witness:
  "rlp_items (encode_legacy_unsigned sample_legacy) = Some [RLst (map RStr (legacy_items sample_legacy))] \<and>
   encode_legacy_unsigned sample_legacy \<noteq> encode_eip1559_unsigned sample_eip1559"
proof -
  have ok: "legacy_ok sample_legacy" "eip1559_ok sample_eip1559"
    by (simp_all add: legacy_ok_def eip1559_ok_def sample_legacy_def sample_eip1559_def)
  then show ?thesis using signing_payload_determines_transaction [OF ok] by blast
qed

end
