(* ===== verification/Base58.thy ===== *)
theory Base58
  imports Prelude
begin

text \<open>
  Base58, the text form of Solana addresses, hashes and transactions (src/wallet/solana_signing.rs).
  Both directions multiply a number, kept as a list of digits with the lowest first, by one radix and
  add a digit, carrying in the other radix. The digits and carries are \<open>u8\<close> and \<open>u32\<close> in the code;
  they are natural numbers here, and \<open>carry_bounded\<close> shows that they stay far below \<open>2^32\<close>. Strings are
  lists of their bytes.
\<close>

section \<open>Code\<close>

definition B58_ALPHABET :: string where
  "B58_ALPHABET = ''123456789ABCDEFGHJKLMNPQRSTUVWXYZabcdefghijkmnopqrstuvwxyz''"

text \<open>The loop over the digits: \<open>m\<close> is the factor, \<open>b\<close> the radix; it returns the digits and the last carry.\<close>

fun mul_digits :: "nat \<Rightarrow> nat \<Rightarrow> nat list \<Rightarrow> nat \<Rightarrow> nat list \<times> nat" where
  "mul_digits b m [] carry = ([], carry)"
| "mul_digits b m (d # ds) carry =
     (let carry = carry + d * m;
          (ds', carry') = mul_digits b m ds (carry div b)
      in (carry mod b # ds', carry'))"

text \<open>The loop \<open>while carry > 0\<close>.\<close>

function flush :: "nat \<Rightarrow> nat \<Rightarrow> nat list" where
  "flush b carry = (if 0 < carry \<and> 1 < b then carry mod b # flush b (carry div b) else [])"
  by auto

termination
  by (relation "measure snd") auto

declare flush.simps [simp del]

definition push_digit :: "nat \<Rightarrow> nat \<Rightarrow> nat list \<Rightarrow> nat \<Rightarrow> nat list" where
  "push_digit b m ds carry = (case mul_digits b m ds carry of (ds', carry') \<Rightarrow> ds' @ flush b carry')"

definition bs58_encode :: "u8 list \<Rightarrow> string" where
  "bs58_encode data =
     (if data = [] then ''''
      else let zeros = length (takeWhile (\<lambda>b. b = 0) data);
               digits = foldl (\<lambda>ds byte. push_digit 58 256 ds (unat byte)) [] data
           in replicate zeros (CHR ''1'') @ map (\<lambda>d. B58_ALPHABET ! d) (rev digits))"

fun position :: "'a \<Rightarrow> 'a list \<Rightarrow> nat option" where
  "position x [] = None"
| "position x (y # ys) = (if y = x then Some 0 else map_option Suc (position x ys))"

fun decode_chars :: "string \<Rightarrow> nat list \<Rightarrow> char + nat list" where
  "decode_chars [] bytes = Inr bytes"
| "decode_chars (ch # chs) bytes =
     (case position ch B58_ALPHABET of
        None \<Rightarrow> Inl ch
      | Some val \<Rightarrow> decode_chars chs (push_digit 256 58 bytes val))"

text \<open>The error carries the character that is not in the alphabet.\<close>

definition bs58_decode :: "string \<Rightarrow> char + u8 list" where
  "bs58_decode input =
     (if input = '''' then Inr []
      else case decode_chars input [] of
        Inl ch \<Rightarrow> Inl ch
      | Inr bytes \<Rightarrow> Inr (replicate (length (takeWhile (\<lambda>c. c = CHR ''1'') input)) 0 @ map word_of_nat (rev bytes)))"

text \<open>A step of the inner loop: the intermediate value is at most \<open>58 * 256\<close>, and the carry stays below the factor.\<close>

lemma carry_bounded:
  fixes carry m d b :: nat
  assumes "carry \<le> m" and "d < b"
  shows "carry + d * m \<le> b * m \<and> (carry + d * m) div b \<le> m"
proof -
  have "carry + d * m \<le> Suc d * m" using assms(1) by simp
  also have "\<dots> \<le> b * m" using assms(2) by (intro mult_le_mono1) simp
  finally have "carry + d * m \<le> b * m" .
  then show ?thesis using assms(2) div_le_mono [of "carry + d * m" "b * m" b] by simp
qed

section \<open>Numbers as digits\<close>

fun digits_value :: "nat \<Rightarrow> nat list \<Rightarrow> nat" where
  "digits_value b [] = 0"
| "digits_value b (d # ds) = d + b * digits_value b ds"

text \<open>The digits are below the radix and the highest one is not zero.\<close>

definition canonical :: "nat \<Rightarrow> nat list \<Rightarrow> bool" where
  "canonical b ds \<longleftrightarrow> (\<forall>d\<in>set ds. d < b) \<and> (ds \<noteq> [] \<longrightarrow> last ds \<noteq> 0)"

lemma mul_digits_value:
  "mul_digits b m ds c = (ds', c') \<Longrightarrow> digits_value b ds' + b ^ length ds * c' = m * digits_value b ds + c \<and> length ds' = length ds"
proof (induction ds arbitrary: c ds' c')
  case (Cons d ds)
  define q r where qr: "q = (c + d * m) div b" "r = (c + d * m) mod b"
  obtain es e where e: "mul_digits b m ds q = (es, e)" by fastforce
  then have r: "ds' = r # es" "c' = e" using Cons.prems by (auto simp: Let_def qr)
  have IH: "digits_value b es + b ^ length ds * e = m * digits_value b ds + q" and len: "length es = length ds"
    using Cons.IH [OF e] by simp_all
  have "b * (digits_value b es + b ^ length ds * e) = b * (m * digits_value b ds + q)" using IH by simp
  moreover have "r + b * q = c + d * m" by (simp add: qr)
  ultimately show ?case using r len by (simp add: algebra_simps)
qed simp

lemma flush_value: "1 < b \<Longrightarrow> digits_value b (flush b c) = c"
proof (induction b c rule: flush.induct)
  case (1 b c)
  then show ?case by (subst flush.simps) auto
qed

lemma flush_canonical: "1 < b \<Longrightarrow> canonical b (flush b c)"
proof (induction b c rule: flush.induct)
  case (1 b c)
  show ?case
  proof (cases "c = 0")
    case True
    then show ?thesis by (simp add: flush.simps canonical_def)
  next
    case False
    then have IH: "canonical b (flush b (c div b))" using 1 by simp
    have "c mod b \<noteq> 0" if "flush b (c div b) = []"
      using that False 1(2) flush_value [of b "c div b"] by (auto simp: mod_eq_0_iff_dvd elim: dvdE)
    then show ?thesis using IH False 1(2) by (subst flush.simps) (auto simp: canonical_def)
  qed
qed

lemma digits_value_append: "digits_value b (xs @ ys) = digits_value b xs + b ^ length xs * digits_value b ys"
  by (induction xs) (auto simp: algebra_simps)

lemma push_digit_value: "1 < b \<Longrightarrow> digits_value b (push_digit b m ds c) = m * digits_value b ds + c"
  using mul_digits_value [of b m ds c] flush_value [of b]
  by (auto simp: push_digit_def digits_value_append split: prod.splits)


lemma mul_digits_range: "0 < b \<Longrightarrow> mul_digits b m ds c = (ds', c') \<Longrightarrow> \<forall>d\<in>set ds'. d < b"
  by (induction ds arbitrary: c ds' c') (auto simp: Let_def split: prod.splits)

text \<open>The lists have as many digits as the number needs: canonical lists are unique.\<close>

lemma digits_value_bound: "\<forall>d\<in>set ds. d < b \<Longrightarrow> digits_value b ds < b ^ length ds"
proof (induction ds)
  case (Cons d ds)
  then have "d < b" "Suc (digits_value b ds) \<le> b ^ length ds" by auto
  then have "d + b * digits_value b ds < b + b * digits_value b ds" "b * Suc (digits_value b ds) \<le> b * b ^ length ds"
    by (simp, meson mult_le_mono2)
  then show ?case by simp
qed simp

lemma canonical_Cons: "canonical b (d # ds) \<longleftrightarrow> d < b \<and> canonical b ds \<and> (ds = [] \<longrightarrow> d \<noteq> 0)"
  by (auto simp: canonical_def)

lemma canonical_zero: "canonical b ds \<Longrightarrow> 0 < b \<Longrightarrow> digits_value b ds = 0 \<Longrightarrow> ds = []"
  by (induction ds) (auto simp: canonical_Cons)

lemma canonical_unique: "canonical b xs \<Longrightarrow> canonical b ys \<Longrightarrow> digits_value b xs = digits_value b ys \<Longrightarrow> xs = ys"
proof (induction xs arbitrary: ys)
  case Nil
  then show ?case using canonical_zero [of b ys] by (cases ys) (auto simp: canonical_Cons)
next
  case (Cons x xs)
  have b: "0 < b" "x < b" using Cons.prems(1) by (auto simp: canonical_Cons)
  obtain y zs where ys: "ys = y # zs"
    using Cons.prems canonical_zero [OF Cons.prems(1) b(1)] by (cases ys) auto
  have eq: "x + b * digits_value b xs = y + b * digits_value b zs" and "y < b" using Cons.prems ys by (auto simp: canonical_Cons)
  have "(x + b * digits_value b xs) mod b = x" "(y + b * digits_value b zs) mod b = y" using b(2) \<open>y < b\<close> by simp_all
  then have "x = y" using eq by simp
  moreover have "digits_value b xs = digits_value b zs" using eq \<open>x = y\<close> b(1) by simp
  ultimately show ?case using Cons ys by (auto simp: canonical_Cons)
qed

lemma push_digit_canonical:
  assumes "1 < b" "0 < m" "canonical b ds"
  shows "canonical b (push_digit b m ds c)"
proof -
  obtain es e where e: "mul_digits b m ds c = (es, e)" by fastforce
  note v = mul_digits_value [OF e]
  have range: "\<forall>d\<in>set es. d < b" using mul_digits_range [OF _ e] assms(1) by simp
  show ?thesis
  proof (cases "flush b e = []")
    case True
    then have "e = 0" using flush_value [OF assms(1), of e] by simp
    have "last es \<noteq> 0" if ne: "es \<noteq> []"
    proof
      assume "last es = 0"
      then obtain fs where fs: "es = fs @ [0]" using ne by (metis append_butlast_last_id)
      have lt: "digits_value b es < b ^ length fs" using digits_value_bound [of fs b] range fs by (simp add: digits_value_append)
      have ds: "ds \<noteq> []" "length ds = Suc (length fs)" using v fs by auto
      obtain gs g where g: "ds = gs @ [g]" "g \<noteq> 0" using ds(1) assms(3) by (metis append_butlast_last_id canonical_def)
      have "b ^ length gs \<le> b ^ length gs * g" using g(2) by (cases g) simp_all
      moreover have "b ^ length gs * g \<le> digits_value b ds" using g(1) by (simp add: digits_value_append)
      ultimately have "b ^ length gs \<le> digits_value b ds" by linarith
      then have le: "b ^ length fs \<le> m * digits_value b ds" using ds(2) g assms(2)
        by (metis Suc_inject le_trans length_append_singleton mult_le_mono1 nat_mult_1 Suc_leI One_nat_def)
      show False using v \<open>e = 0\<close> lt le by simp
    qed
    then show ?thesis using True e range by (simp add: push_digit_def canonical_def)
  next
    case False
    then show ?thesis using e range flush_canonical [OF assms(1), of e] by (auto simp: push_digit_def canonical_def)
  qed
qed

section \<open>Round trip\<close>

lemma fold_push_value:
  assumes "1 < b" and "0 < m" and "canonical b ds"
  shows "canonical b (foldl (\<lambda>ds x. push_digit b m ds (f x)) ds xs)"
    "digits_value b (foldl (\<lambda>ds x. push_digit b m ds (f x)) ds xs) = foldl (\<lambda>v x. m * v + f x) (digits_value b ds) xs"
  using assms by (induction xs arbitrary: ds) (auto simp: push_digit_canonical push_digit_value)

text \<open>The number that a list of digits with the highest first stands for.\<close>

lemma foldl_digits: "foldl (\<lambda>v x. m * v + x) v ds = m ^ length ds * v + digits_value m (rev ds)"
proof (induction ds rule: rev_induct)
  case (snoc x xs)
  then show ?case by (simp add: algebra_simps)
qed simp

lemma position_alphabet: "d < 58 \<Longrightarrow> position (B58_ALPHABET ! d) B58_ALPHABET = Some d"
proof -
  have "\<forall>d\<in>set [0..<58]. position (B58_ALPHABET ! d) B58_ALPHABET = Some d" by code_simp
  then show "d < 58 \<Longrightarrow> position (B58_ALPHABET ! d) B58_ALPHABET = Some d" by simp
qed

lemma alphabet_one: "d < 58 \<Longrightarrow> B58_ALPHABET ! d = CHR ''1'' \<longleftrightarrow> d = 0"
proof -
  have "\<forall>d\<in>set [0..<58]. B58_ALPHABET ! d = CHR ''1'' \<longleftrightarrow> d = 0" by code_simp
  then show "d < 58 \<Longrightarrow> B58_ALPHABET ! d = CHR ''1'' \<longleftrightarrow> d = 0" by simp
qed

lemma decode_chars_digits:
  "\<forall>d\<in>set ds. d < 58 \<Longrightarrow>
   decode_chars (map (\<lambda>d. B58_ALPHABET ! d) ds) bytes = Inr (foldl (\<lambda>bs d. push_digit 256 58 bs d) bytes ds)"
  by (induction ds arbitrary: bytes) (auto simp: position_alphabet)

lemma decode_chars_append:
  "decode_chars (xs @ ys) bytes = (case decode_chars xs bytes of Inl ch \<Rightarrow> Inl ch | Inr bs \<Rightarrow> decode_chars ys bs)"
  by (induction xs arbitrary: bytes) (auto split: option.splits)

lemma push_zero: "push_digit b m [] 0 = []"
  by (simp add: push_digit_def flush.simps)

lemma decode_chars_ones: "decode_chars (replicate n (CHR ''1'')) [] = Inr []"
proof -
  have "position (CHR ''1'') B58_ALPHABET = Some 0" by code_simp
  then show ?thesis by (induction n) (auto simp: push_zero)
qed

text \<open>The bytes without leading zeros are canonical digits to the radix 256.\<close>

lemma bytes_canonical: "canonical 256 (rev (map unat (dropWhile (\<lambda>b. b = 0) (data :: u8 list))))"
proof -
  have "unat b < 256" for b :: u8 using unsigned_less [of b, where 'a = nat] by simp
  moreover have "hd (dropWhile (\<lambda>b. b = 0) data) \<noteq> 0" if "dropWhile (\<lambda>b. b = 0) data \<noteq> []" using hd_dropWhile [OF that] .
  ultimately show ?thesis by (auto simp: canonical_def last_rev hd_map unat_eq_0 simp del: dropWhile_eq_Nil_conv)
qed

lemma foldl_skip_zeros: "foldl (\<lambda>v x. 256 * v + unat x) 0 data = foldl (\<lambda>v x. 256 * v + unat x) 0 (dropWhile (\<lambda>b. b = (0 :: u8)) data)"
  by (induction data) auto

text \<open>
  Base58 is lossless: decoding what \<open>bs58_encode\<close> has printed returns the same bytes, for every
  byte string, with its leading zeros.
\<close>

theorem bs58_roundtrip: "bs58_decode (bs58_encode data) = Inr data"
proof (cases "data = []")
  case True
  then show ?thesis by (simp add: bs58_encode_def bs58_decode_def)
next
  case False
  let ?z = "length (takeWhile (\<lambda>b. b = 0) data)"
  let ?D = "dropWhile (\<lambda>b. b = 0) data"
  let ?digits = "foldl (\<lambda>ds byte. push_digit 58 256 ds (unat byte)) [] data"
  let ?bytes = "foldl (\<lambda>bs d. push_digit 256 58 bs d) [] (rev ?digits)"
  have can: "canonical 58 ?digits" and val: "digits_value 58 ?digits = foldl (\<lambda>v x. 256 * v + unat x) 0 data"
    using fold_push_value [of 58 256 "[]" unat data] by (simp_all add: canonical_def)
  have range: "\<forall>d\<in>set (rev ?digits). d < 58" using can by (simp add: canonical_def)
  have enc: "bs58_encode data = replicate ?z (CHR ''1'') @ map (\<lambda>d. B58_ALPHABET ! d) (rev ?digits)"
    using False by (simp add: bs58_encode_def Let_def)
  have chars: "decode_chars (bs58_encode data) [] = Inr ?bytes"
    unfolding enc by (simp add: decode_chars_append decode_chars_ones decode_chars_digits [OF range])
  have ones: "length (takeWhile (\<lambda>c. c = CHR ''1'') (bs58_encode data)) = ?z"
  proof -
    have "takeWhile (\<lambda>c. c = CHR ''1'') (map (\<lambda>d. B58_ALPHABET ! d) (rev ?digits)) = []"
    proof (cases "rev ?digits")
      case (Cons x xs)
      then have "?digits = rev xs @ [x]" by (simp add: rev_swap [symmetric])
      then have "x \<noteq> 0" "x < 58" using can by (auto simp: canonical_def)
      then show ?thesis using Cons alphabet_one by simp
    qed simp
    then show ?thesis unfolding enc by (subst takeWhile_append2) simp_all
  qed
  have "canonical 256 ?bytes" and "digits_value 256 ?bytes = foldl (\<lambda>v x. 58 * v + x) 0 (rev ?digits)"
    using fold_push_value [of 256 58 "[]" "\<lambda>x. x" "rev ?digits"] by (simp_all add: canonical_def)
  moreover have "foldl (\<lambda>v x. 58 * v + x) 0 (rev ?digits) = digits_value 256 (rev (map unat ?D))"
  proof -
    have "foldl (\<lambda>v x. 58 * v + x) 0 (rev ?digits) = digits_value 58 ?digits" using foldl_digits [of 58 0 "rev ?digits"] by simp
    also have "\<dots> = foldl (\<lambda>v x. 256 * v + x) 0 (map unat ?D)" unfolding val foldl_skip_zeros [of data] by (simp add: foldl_map)
    also have "\<dots> = digits_value 256 (rev (map unat ?D))" using foldl_digits [of 256 0 "map unat ?D"] by simp
    finally show ?thesis .
  qed
  ultimately have "?bytes = rev (map unat ?D)" using canonical_unique bytes_canonical by metis
  then have bytes: "map word_of_nat (rev ?bytes) = ?D" by (simp add: o_def)
  show ?thesis
  proof (cases "bs58_encode data = []")
    case True
    then have "?z = 0" "rev ?digits = []" using enc by auto
    then have "?D = []" using bytes by (simp only: foldl.simps list.map rev.simps)
    then show ?thesis using \<open>?z = 0\<close> takeWhile_dropWhile_zeros [of data] False by (simp only: replicate_0 append_Nil) simp
  next
    case False
    then have "bs58_decode (bs58_encode data) = Inr (replicate ?z 0 @ ?D)" using chars ones bytes by (simp add: bs58_decode_def)
    then show ?thesis by (simp only: takeWhile_dropWhile_zeros)
  qed
qed

end
