(* ===== verification/Solana_Tx.thy ===== *)
theory Solana_Tx
  imports Rust_Text "HOL-Library.Product_Lexorder"
begin

unbundle bit_operations_syntax

text \<open>
  Solana transactions (src/wallet/solana_tx.rs): the instructions the wallet builds, the message that
  is signed, and its wire format. SHA-256 and the Ed25519 signature are arguments, an RPC answer is
  an argument of the loop that sends a transaction. The reference is a decoder of the wire format; the
  serialised message is shown to decode to exactly the instructions it was made from.
\<close>

section \<open>Instructions\<close>

definition SPL_TOKEN_PROGRAM :: bytes where
  "SPL_TOKEN_PROGRAM = [6, 221, 246, 225, 215, 101, 161, 147, 217, 203, 225, 70, 206, 235, 121, 172,
     28, 180, 133, 237, 95, 91, 55, 145, 58, 140, 245, 133, 126, 255, 0, 169]"

definition ASSOCIATED_TOKEN_PROGRAM :: bytes where
  "ASSOCIATED_TOKEN_PROGRAM = [140, 151, 37, 143, 78, 36, 137, 241, 187, 61, 16, 41, 20, 142, 13, 131,
     11, 90, 19, 153, 218, 255, 16, 132, 4, 142, 123, 216, 219, 233, 248, 89]"

definition SYSTEM_PROGRAM :: bytes where "SYSTEM_PROGRAM = replicate 32 0"

record account_meta =
  ac_pubkey :: bytes
  ac_is_signer :: bool
  ac_is_writable :: bool

record instruction =
  ix_program_id :: bytes
  ix_accounts :: "account_meta list"
  ix_data :: bytes

definition meta :: "bytes \<Rightarrow> bool \<Rightarrow> bool \<Rightarrow> account_meta" where
  "meta key signer writable = \<lparr>ac_pubkey = key, ac_is_signer = signer, ac_is_writable = writable\<rparr>"

definition spl_transfer_instruction :: "bytes \<Rightarrow> bytes \<Rightarrow> bytes \<Rightarrow> u64 \<Rightarrow> instruction" where
  "spl_transfer_instruction source destination authority amount =
     \<lparr>ix_program_id = SPL_TOKEN_PROGRAM,
      ix_accounts = [meta source False True, meta destination False True, meta authority True False],
      ix_data = 3 # le_bytes 8 (unat amount)\<rparr>"

definition is_likely_on_curve :: "bytes \<Rightarrow> bool" where
  "is_likely_on_curve bs = (bs = replicate 32 0)"

text \<open>The loop over the bumps from 255 down to 0, with the hash of seeds, bump, program and marker.\<close>

fun try_bumps :: "(bytes \<Rightarrow> bytes) \<Rightarrow> bytes list \<Rightarrow> bytes \<Rightarrow> u8 list \<Rightarrow> bytes \<times> u8" where
  "try_bumps sha256 seeds program_id [] = (replicate 32 0, 0)"
| "try_bumps sha256 seeds program_id (bump # bumps) =
     (let hash = sha256 (concat seeds @ [bump] @ program_id @ map (\<lambda>c. word_of_nat (of_char c)) ''ProgramDerivedAddress'') in
      if \<not> is_likely_on_curve hash then (hash, bump) else try_bumps sha256 seeds program_id bumps)"

definition find_program_address :: "(bytes \<Rightarrow> bytes) \<Rightarrow> bytes list \<Rightarrow> bytes \<Rightarrow> bytes \<times> u8" where
  "find_program_address sha256 seeds program_id = try_bumps sha256 seeds program_id (map word_of_nat (rev [0..<256]))"

definition derive_ata :: "(bytes \<Rightarrow> bytes) \<Rightarrow> bytes \<Rightarrow> bytes \<Rightarrow> bytes" where
  "derive_ata sha256 owner mint = fst (find_program_address sha256 [owner, SPL_TOKEN_PROGRAM, mint] ASSOCIATED_TOKEN_PROGRAM)"

definition build_create_ata_instruction :: "(bytes \<Rightarrow> bytes) \<Rightarrow> bytes \<Rightarrow> bytes \<Rightarrow> bytes \<Rightarrow> instruction" where
  "build_create_ata_instruction sha256 payer owner mint =
     \<lparr>ix_program_id = ASSOCIATED_TOKEN_PROGRAM,
      ix_accounts = [meta payer True True, meta (derive_ata sha256 owner mint) False True, meta owner False False,
        meta mint False False, meta SYSTEM_PROGRAM False False, meta SPL_TOKEN_PROGRAM False False],
      ix_data = [1]\<rparr>"

definition spl_transfer_with_ata ::
  "(bytes \<Rightarrow> bytes) \<Rightarrow> bytes \<Rightarrow> bytes \<Rightarrow> bytes \<Rightarrow> bytes \<Rightarrow> u64 \<Rightarrow> bytes \<Rightarrow> instruction list" where
  "spl_transfer_with_ata sha256 source_ata dest_owner mint authority amount payer =
     [build_create_ata_instruction sha256 payer dest_owner mint,
      spl_transfer_instruction source_ata (derive_ata sha256 dest_owner mint) authority amount]"

definition anchor_discriminator :: "(bytes \<Rightarrow> bytes) \<Rightarrow> string \<Rightarrow> bytes" where
  "anchor_discriminator sha256 name = take 8 (sha256 (map (\<lambda>c. word_of_nat (of_char c)) name))"

definition settle_instruction ::
  "(bytes \<Rightarrow> bytes) \<Rightarrow> bytes \<Rightarrow> bytes \<Rightarrow> bytes \<Rightarrow> bytes \<Rightarrow> bytes \<Rightarrow> bytes \<Rightarrow> bytes \<Rightarrow> u64 \<Rightarrow> bytes \<Rightarrow> instruction" where
  "settle_instruction sha256 program_id config authority mint buyer_account seller_account fee_account amount fill_id =
     \<lparr>ix_program_id = program_id,
      ix_accounts = [meta config False True, meta authority True False, meta mint False False,
        meta buyer_account False True, meta seller_account False True, meta fee_account False True],
      ix_data = anchor_discriminator sha256 ''global:settle'' @ le_bytes 8 (unat amount) @ fill_id\<rparr>"

section \<open>Messages\<close>

record transaction_message =
  tm_recent_blockhash :: bytes
  tm_instructions :: "instruction list"
  tm_fee_payer :: bytes

definition TransactionMessage_new :: "bytes \<Rightarrow> bytes \<Rightarrow> instruction list \<Rightarrow> transaction_message" where
  "TransactionMessage_new fee_payer recent_blockhash instructions =
     \<lparr>tm_recent_blockhash = recent_blockhash, tm_instructions = instructions, tm_fee_payer = fee_payer\<rparr>"

text \<open>What \<open>encode_compact_u16\<close> appends to the buffer.\<close>

definition encode_compact_u16 :: "u16 \<Rightarrow> bytes" where
  "encode_compact_u16 val =
     (if val < 0x80 then [ucast val]
      else if val < 0x4000 then [ucast ((val AND 0x7f) OR 0x80), ucast (drop_bit 7 val)]
      else [ucast ((val AND 0x7f) OR 0x80), ucast ((drop_bit 7 val AND 0x7f) OR 0x80), ucast (drop_bit 14 val)])"

text \<open>An account of the table: its flags (bit 1 signer, bit 0 writable) and its key.\<close>

type_synonym flagged_key = "u8 \<times> bytes"

definition meta_flags :: "account_meta \<Rightarrow> u8" where
  "meta_flags acc = (push_bit 1 (of_bool (ac_is_signer acc)) OR of_bool (ac_is_writable acc))"

definition signer_bit :: "flagged_key \<Rightarrow> nat" where "signer_bit a = unat (drop_bit 1 (fst a) AND 1)"

definition writable_bit :: "flagged_key \<Rightarrow> nat" where "writable_bit a = unat (fst a AND 1)"

text \<open>The set of keys already seen is the set of keys in the table.\<close>

definition add_account :: "flagged_key list \<Rightarrow> flagged_key \<Rightarrow> flagged_key list" where
  "add_account accounts a = (if snd a \<in> snd ` set accounts then accounts else accounts @ [a])"

definition add_instruction :: "flagged_key list \<Rightarrow> instruction \<Rightarrow> flagged_key list" where
  "add_instruction accounts ix =
     add_account (foldl (\<lambda>acs acc. add_account acs (meta_flags acc, ac_pubkey acc)) accounts (ix_accounts ix)) (0, ix_program_id ix)"

definition collect_accounts :: "transaction_message \<Rightarrow> flagged_key list" where
  "collect_accounts m = foldl add_instruction [(3, tm_fee_payer m)] (tm_instructions m)"

definition move_to_front :: "bytes \<Rightarrow> flagged_key list \<Rightarrow> flagged_key list" where
  "move_to_front key accounts =
     (case List.find (\<lambda>i. snd (accounts ! i) = key) [0..<length accounts] of
        None \<Rightarrow> accounts
      | Some pos \<Rightarrow>
          if pos = 0 then accounts else accounts ! pos # take pos accounts @ drop (Suc pos) accounts)"

definition account_table :: "transaction_message \<Rightarrow> flagged_key list" where
  "account_table m =
     move_to_front (tm_fee_payer m)
       (sort_key (\<lambda>a. (1 - signer_bit a, 1 - writable_bit a)) (collect_accounts m))"

definition index_of :: "bytes list \<Rightarrow> bytes \<Rightarrow> u8" where
  "index_of keys key =
     word_of_nat (case List.find (\<lambda>i. keys ! i = key) [0..<length keys] of None \<Rightarrow> 0 | Some i \<Rightarrow> i)"

definition serialise_instruction :: "bytes list \<Rightarrow> instruction \<Rightarrow> bytes" where
  "serialise_instruction keys ix =
     index_of keys (ix_program_id ix) #
     encode_compact_u16 (word_of_nat (length (ix_accounts ix))) @ map (\<lambda>acc. index_of keys (ac_pubkey acc)) (ix_accounts ix) @
     encode_compact_u16 (word_of_nat (length (ix_data ix))) @ ix_data ix"

definition serialise :: "transaction_message \<Rightarrow> bytes" where
  "serialise m =
     (let accounts = account_table m;
          num_signers = length (filter (\<lambda>a. signer_bit a = 1) accounts);
          num_readonly_signed = length (filter (\<lambda>a. signer_bit a = 1 \<and> writable_bit a = 0) accounts);
          num_readonly_unsigned = length (filter (\<lambda>a. signer_bit a = 0 \<and> writable_bit a = 0) accounts);
          account_keys = map snd accounts
      in [word_of_nat num_signers, word_of_nat num_readonly_signed, word_of_nat num_readonly_unsigned] @
         encode_compact_u16 (word_of_nat (length account_keys)) @ concat account_keys @
         tm_recent_blockhash m @
         encode_compact_u16 (word_of_nat (length (tm_instructions m))) @
         concat (map (serialise_instruction account_keys) (tm_instructions m)))"

section \<open>Signing and sending\<close>

record signed_transaction =
  st_signatures :: "bytes list"
  st_message :: bytes

text \<open>\<open>sign_with\<close> is the Ed25519 signature of a message with a seed.\<close>

fun sign_all :: "(bytes \<Rightarrow> bytes \<Rightarrow> string + bytes) \<Rightarrow> bytes \<Rightarrow> bytes list \<Rightarrow> string + bytes list" where
  "sign_all sign_with msg [] = Inr []"
| "sign_all sign_with msg (seed # seeds) =
     (case sign_with seed msg of
        Inl e \<Rightarrow> Inl e
      | Inr sig \<Rightarrow>
          if length sig \<noteq> 64 then Inl ''Signature not 64 bytes''
          else case sign_all sign_with msg seeds of Inl e \<Rightarrow> Inl e | Inr sigs \<Rightarrow> Inr (sig # sigs))"

definition sign :: "(bytes \<Rightarrow> bytes \<Rightarrow> string + bytes) \<Rightarrow> transaction_message \<Rightarrow> bytes list \<Rightarrow> string + signed_transaction" where
  "sign sign_with m signers =
     (case sign_all sign_with (serialise m) signers of
        Inl e \<Rightarrow> Inl e
      | Inr sigs \<Rightarrow> Inr \<lparr>st_signatures = sigs, st_message = serialise m\<rparr>)"

definition to_bytes :: "signed_transaction \<Rightarrow> bytes" where
  "to_bytes t = encode_compact_u16 (word_of_nat (length (st_signatures t))) @ concat (st_signatures t) @ st_message t"

text \<open>What comes back from one attempt: no answer, an answer that is not JSON, an error message, a signature, or neither.\<close>

datatype rpc_answer = NoAnswer string | NotJson string | RpcError string | RpcResult string | NoResult

definition retriable :: "string \<Rightarrow> bool" where
  "retriable msg = (contains msg ''BlockhashNotFound'' \<or> contains msg ''Node is behind'')"

text \<open>The attempts from number \<open>attempt\<close> on, \<open>n\<close> of them; \<open>rpc\<close> is the answer to each attempt.\<close>

fun send_attempts :: "(nat \<Rightarrow> rpc_answer) \<Rightarrow> nat \<Rightarrow> nat \<Rightarrow> nat \<Rightarrow> string + string" where
  "send_attempts rpc max_retries attempt 0 = Inl ''Max retries exceeded''"
| "send_attempts rpc max_retries attempt (Suc n) =
     (case rpc attempt of
        NotJson e \<Rightarrow> Inl e
      | RpcError msg \<Rightarrow>
          if retriable msg \<and> attempt < max_retries then send_attempts rpc max_retries (Suc attempt) n
          else Inl (''RPC error: '' @ msg)
      | RpcResult sig \<Rightarrow> Inr sig
      | NoResult \<Rightarrow> Inl ''Missing result in response''
      | NoAnswer e \<Rightarrow> if attempt < max_retries then send_attempts rpc max_retries (Suc attempt) n else Inl e)"

definition send_transaction_with_retry :: "(nat \<Rightarrow> rpc_answer) \<Rightarrow> u32 \<Rightarrow> string + string" where
  "send_transaction_with_retry rpc max_retries = send_attempts rpc (unat max_retries) 0 (Suc (unat max_retries))"

section \<open>The reference decoder\<close>

definition dec_compact :: "bytes \<Rightarrow> (nat \<times> bytes) option" where
  "dec_compact bs =
     (case bs of [] \<Rightarrow> None | b0 # r0 \<Rightarrow>
      if unat b0 < 128 then Some (unat b0, r0)
      else case r0 of [] \<Rightarrow> None | b1 # r1 \<Rightarrow>
      if unat b1 < 128 then Some (unat b0 - 128 + 128 * unat b1, r1)
      else case r1 of [] \<Rightarrow> None | b2 # r2 \<Rightarrow> Some (unat b0 - 128 + 128 * (unat b1 - 128) + 16384 * unat b2, r2))"

definition dec_byte :: "bytes \<Rightarrow> (u8 \<times> bytes) option" where
  "dec_byte bs = (case bs of [] \<Rightarrow> None | b # r \<Rightarrow> Some (b, r))"

text \<open>An instruction on the wire: the index of the program, the indices of the accounts, the data.\<close>

type_synonym compiled = "u8 \<times> u8 list \<times> bytes"

definition dec_instruction :: "bytes \<Rightarrow> (compiled \<times> bytes) option" where
  "dec_instruction bs =
     (case dec_byte bs of None \<Rightarrow> None | Some (p, r) \<Rightarrow>
     (case dec_seq dec_compact dec_byte r of None \<Rightarrow> None | Some (ids, r1) \<Rightarrow>
     (case dec_seq dec_compact dec_byte r1 of None \<Rightarrow> None | Some (data, r2) \<Rightarrow> Some ((p, ids, data), r2))))"

record decoded_message =
  dm_header :: "u8 list"
  dm_keys :: "bytes list"
  dm_blockhash :: bytes
  dm_instructions :: "compiled list"

definition dec_message :: "bytes \<Rightarrow> decoded_message option" where
  "dec_message bs =
     (case dec_fixed 3 bs of None \<Rightarrow> None | Some (hdr, r) \<Rightarrow>
     (case dec_seq dec_compact (dec_fixed 32) r of None \<Rightarrow> None | Some (keys, r1) \<Rightarrow>
     (case dec_fixed 32 r1 of None \<Rightarrow> None | Some (hash, r2) \<Rightarrow>
     (case dec_seq dec_compact dec_instruction r2 of
        Some (ixs, []) \<Rightarrow> Some \<lparr>dm_header = hdr, dm_keys = keys, dm_blockhash = hash, dm_instructions = ixs\<rparr>
      | _ \<Rightarrow> None))))"

text \<open>What a compiled instruction means, given the keys of the message.\<close>

definition resolve :: "bytes list \<Rightarrow> compiled \<Rightarrow> bytes \<times> bytes list \<times> bytes" where
  "resolve keys = (\<lambda>(p, ids, data). (keys ! unat p, map (\<lambda>i. keys ! unat i) ids, data))"

section \<open>The formats are decodable\<close>

lemma low7_marked: "unat (ucast ((val AND 0x7f) OR 0x80 :: u16) :: u8) = unat val mod 128 + 128"
proof -
  have a: "(val AND 0x7f) = take_bit 7 val" by (simp add: take_bit_eq_mask mask_eq_decr_exp)
  have "take_bit 7 val AND 2 ^ 7 = 0" by (rule bit_word_eqI) (simp only: bit_simps, auto)
  then have "(val AND 0x7f) OR 0x80 = take_bit 7 val + 0x80" unfolding a by (simp add: disjunctive_add_eq_or)
  moreover have "unat (take_bit 7 val) = unat val mod 128" by (simp add: take_bit_eq_mod unat_mod_distrib)
  moreover have "unat val mod 128 < 128" by simp
  ultimately show ?thesis by (simp add: unsigned_ucast_eq unat_word_ariths take_bit_eq_mod)
qed

lemma unat_drop: "unat (drop_bit k (val :: u16)) = unat val div 2 ^ k"
proof -
  have "take_bit 16 (unat val) = unat val" using unsigned_less [of val, where 'a = nat] by (simp add: take_bit_nat_eq_self)
  then show ?thesis by (simp add: unsigned_drop_bit_eq flip: drop_bit_eq_div)
qed

lemma unat_ucast_drop: "unat (ucast (drop_bit k val :: u16) :: u8) = unat val div 2 ^ k mod 256"
  by (simp only: unsigned_ucast_eq unat_drop take_bit_eq_mod) simp

lemma dec_compact_enc: "dec_compact (encode_compact_u16 val @ rest) = Some (unat val, rest)"
proof -
  have big: "unat val < 65536" using unsigned_less [of val, where 'a = nat] by simp
  have shifted: "unat (drop_bit 7 val) = unat val div 128" using unat_drop [of 7 val] by simp
  consider "unat val < 128" | "128 \<le> unat val" "unat val < 16384" | "16384 \<le> unat val" by linarith
  then show ?thesis
  proof cases
    case 1
    then show ?thesis by (simp add: encode_compact_u16_def dec_compact_def word_less_nat_alt unsigned_ucast_eq take_bit_eq_mod)
  next
    case 2
    then have "unat val div 2 ^ 7 mod 256 = unat val div 128" "unat val div 128 < 128" by auto
    then show ?thesis using 2 unat_ucast_drop [of 7 val] low7_marked [of val]
      by (simp add: encode_compact_u16_def dec_compact_def word_less_nat_alt)
  next
    case 3
    have "unat val div 2 ^ 14 mod 256 = unat val div 16384" using big by auto
    moreover have "unat val mod 128 + 128 * (unat val div 128 mod 128) + 16384 * (unat val div 16384) = unat val"
    proof -
      define q where "q = unat val div 128"
      have "unat val div 16384 = q div 128" using div_mult2_eq [of "unat val" 128 128] by (simp add: q_def)
      moreover have "unat val mod 128 + 128 * q = unat val" by (simp add: q_def)
      moreover have "q mod 128 + 128 * (q div 128) = q" by simp
      ultimately show ?thesis unfolding q_def [symmetric] by linarith
    qed
    ultimately show ?thesis using 3 unat_ucast_drop [of 14 val] low7_marked [of val] low7_marked [of "drop_bit 7 val"] shifted
      by (simp add: encode_compact_u16_def dec_compact_def word_less_nat_alt)
  qed
qed

abbreviation enc_len :: "nat \<Rightarrow> bytes" where
  "enc_len n \<equiv> encode_compact_u16 (word_of_nat n)"

interpretation compact: prefix_codec enc_len dec_compact "\<lambda>n. n < 2 ^ 16"
  by unfold_locales (simp add: dec_compact_enc unat_of_nat)

interpretation byte_seq: counted_codec enc_len dec_compact "\<lambda>n. n < 2 ^ 16" "\<lambda>b. [b]" dec_byte "\<lambda>_. True"
  by unfold_locales (simp add: dec_byte_def)

interpretation key_seq: counted_codec enc_len dec_compact "\<lambda>n. n < 2 ^ 16" "\<lambda>k. k" "dec_fixed 32" "\<lambda>k. length k = 32"
  by unfold_locales

lemma dec_bytes_enc:
  "length xs < 2 ^ 16 \<Longrightarrow> dec_seq dec_compact dec_byte (enc_len (length xs) @ xs @ rest) = Some (xs, rest)"
  using byte_seq.dec_seq_enc [of xs rest] by (simp add: list_all_iff concat_map_singleton)

definition enc_compiled :: "compiled \<Rightarrow> bytes" where
  "enc_compiled = (\<lambda>(p, ids, data). p # enc_len (length ids) @ ids @ enc_len (length data) @ data)"

interpretation instr_seq: counted_codec enc_len dec_compact "\<lambda>n. n < 2 ^ 16" enc_compiled dec_instruction
    "\<lambda>(p, ids, data). length ids < 2 ^ 16 \<and> length data < 2 ^ 16"
  by unfold_locales (auto simp: enc_compiled_def dec_instruction_def dec_byte_def dec_bytes_enc)

section \<open>The account table\<close>

text \<open>All mentions of keys in the order of the message.\<close>

definition mentions :: "transaction_message \<Rightarrow> flagged_key list" where
  "mentions m = (3, tm_fee_payer m) #
     concat (map (\<lambda>ix. map (\<lambda>acc. (meta_flags acc, ac_pubkey acc)) (ix_accounts ix) @ [(0, ix_program_id ix)]) (tm_instructions m))"

definition flags_of :: "flagged_key list \<Rightarrow> bytes \<rightharpoonup> u8" where
  "flags_of xs = map_of (map prod.swap xs)"

lemma flags_of_Cons: "flags_of (a # xs) = (flags_of xs)(snd a \<mapsto> fst a)"
  by (cases a) (simp add: flags_of_def)

lemma flags_of_append: "flags_of (xs @ ys) = flags_of ys ++ flags_of xs"
  by (simp add: flags_of_def map_add_def fun_eq_iff split: option.splits)

lemma flags_of_None: "flags_of xs k = None \<longleftrightarrow> k \<notin> snd ` set xs"
  by (force simp: flags_of_def map_of_eq_None_iff)

lemma fold_add_account:
  "flags_of (foldl add_account xs ys) = flags_of (xs @ ys) \<and> (distinct (map snd xs) \<longrightarrow> distinct (map snd (foldl add_account xs ys))) \<and>
   (\<exists>zs. foldl add_account xs ys = xs @ zs)"
proof (induction ys arbitrary: xs)
  case Nil
  then show ?case by simp
next
  case (Cons y ys)
  let ?xs = "add_account xs y"
  have "flags_of (?xs @ ys) = flags_of (xs @ y # ys)"
  proof (cases "snd y \<in> snd ` set xs")
    case True
    then have "flags_of xs (snd y) \<noteq> None" by (simp add: flags_of_None)
    then show ?thesis using True by (auto simp: add_account_def flags_of_append flags_of_Cons map_add_def fun_eq_iff split: option.splits)
  next
    case False
    then show ?thesis by (simp add: add_account_def)
  qed
  moreover have "distinct (map snd xs) \<longrightarrow> distinct (map snd ?xs)" by (auto simp: add_account_def)
  moreover have "\<exists>zs. ?xs = xs @ zs" by (auto simp: add_account_def)
  ultimately show ?case using Cons.IH [of ?xs] by (metis append.assoc foldl_Cons)
qed

lemma collect_accounts_fold: "collect_accounts m = foldl add_account [hd (mentions m)] (tl (mentions m))"
proof -
  have "foldl add_instruction xs ixs =
      foldl add_account xs (concat (map (\<lambda>ix. map (\<lambda>acc. (meta_flags acc, ac_pubkey acc)) (ix_accounts ix) @ [(0, ix_program_id ix)]) ixs))" for xs ixs
    by (induction ixs arbitrary: xs) (simp_all add: add_instruction_def foldl_map)
  then show ?thesis by (simp add: collect_accounts_def mentions_def)
qed

lemma signer_writable_payer: "signer_bit (3, k) = 1" "writable_bit (3, k) = 1"
  by (simp_all add: signer_bit_def writable_bit_def)

text \<open>The fee payer sorts first, so moving it to the front changes nothing.\<close>

lemma account_table_eq:
  "\<exists>rest. collect_accounts m = (3, tm_fee_payer m) # rest \<and>
     account_table m = (3, tm_fee_payer m) # sort_key (\<lambda>a. (1 - signer_bit a, 1 - writable_bit a)) rest"
proof -
  let ?f = "\<lambda>a. (1 - signer_bit a, 1 - writable_bit a)"
  obtain zs where zs: "collect_accounts m = (3, tm_fee_payer m) # zs"
    using fold_add_account [of "[hd (mentions m)]" "tl (mentions m)"] by (auto simp: collect_accounts_fold mentions_def)
  have "insort_key ?f x ys = x # ys" if "?f x = (0, 0)" for x ys
    using that by (cases ys) (auto simp: less_eq_prod_def)
  then have "sort_key ?f (collect_accounts m) = (3, tm_fee_payer m) # sort_key ?f zs"
    by (simp add: zs signer_writable_payer)
  moreover have "List.find P [0..<Suc n] = Some 0" if "P 0" for P n using that by (simp add: upt_conv_Cons del: upt_Suc)
  ultimately show ?thesis by (simp add: zs account_table_def move_to_front_def del: upt_Suc)
qed

lemma account_table_perm: "mset (account_table m) = mset (collect_accounts m)"
  using account_table_eq [of m] by auto

lemma collect_accounts_distinct: "distinct (map snd (collect_accounts m))"
  using fold_add_account [of "[hd (mentions m)]" "tl (mentions m)"] by (simp add: collect_accounts_fold)

lemma account_table_distinct: "distinct (map snd (account_table m))"
proof -
  have "mset (map snd (account_table m)) = mset (map snd (collect_accounts m))" by (simp add: account_table_perm)
  then show ?thesis using collect_accounts_distinct mset_eq_imp_distinct_iff by blast
qed

lemma account_table_flags: "flags_of (account_table m) = flags_of (mentions m)"
proof -
  have "flags_of (account_table m) = flags_of (collect_accounts m)"
    using account_table_distinct [of m] collect_accounts_distinct [of m] mset_eq_setD [OF account_table_perm [of m]]
    by (simp add: flags_of_def map_of_inject_set o_def)
  moreover have "flags_of (collect_accounts m) = flags_of (mentions m)"
    using fold_add_account [of "[hd (mentions m)]" "tl (mentions m)"] by (simp add: collect_accounts_fold mentions_def)
  ultimately show ?thesis by simp
qed

lemma account_table_sorted: "sorted (map (\<lambda>a. (1 - signer_bit a, 1 - writable_bit a)) (account_table m))"
proof -
  obtain rest where "account_table m = (3, tm_fee_payer m) # sort_key (\<lambda>a. (1 - signer_bit a, 1 - writable_bit a)) rest"
    using account_table_eq by blast
  then show ?thesis by (simp add: signer_writable_payer less_eq_prod_def)
qed

lemma index_of_found:
  assumes "k \<in> set keys" and "length keys \<le> 256"
  shows "keys ! unat (index_of keys k) = k"
proof -
  obtain j where j: "j < length keys" "keys ! j = k" using assms(1) by (auto simp: in_set_conv_nth)
  then have "List.find (\<lambda>i. keys ! i = k) [0..<length keys] \<noteq> None" by (auto simp: find_None_iff)
  then obtain i where i: "List.find (\<lambda>i. keys ! i = k) [0..<length keys] = Some i" by blast
  then have "i < length keys" "keys ! i = k" by (auto simp: find_Some_iff)
  moreover from this(1) have "unat (index_of keys k) = i" using i assms(2) by (simp add: index_of_def unat_of_nat)
  ultimately show ?thesis by simp
qed

section \<open>Properties\<close>

text \<open>The bounds of the format: 32-byte keys, at most 256 accounts, lengths below 65536.\<close>

definition message_ok :: "transaction_message \<Rightarrow> bool" where
  "message_ok m \<longleftrightarrow> length (tm_recent_blockhash m) = 32 \<and> (\<forall>a\<in>set (mentions m). length (snd a) = 32) \<and>
     length (account_table m) \<le> 256 \<and> length (tm_instructions m) < 2 ^ 16 \<and>
     (\<forall>ix\<in>set (tm_instructions m). length (ix_accounts ix) < 2 ^ 16 \<and> length (ix_data ix) < 2 ^ 16)"

definition compile :: "bytes list \<Rightarrow> instruction \<Rightarrow> compiled" where
  "compile keys ix = (index_of keys (ix_program_id ix), map (\<lambda>acc. index_of keys (ac_pubkey acc)) (ix_accounts ix), ix_data ix)"

lemma serialise_instruction_compiled: "serialise_instruction keys ix = enc_compiled (compile keys ix)"
  by (simp add: serialise_instruction_def compile_def enc_compiled_def)

lemma table_keys: "set (map snd (account_table m)) = snd ` set (mentions m)"
proof -
  have "k \<in> snd ` set (account_table m) \<longleftrightarrow> k \<in> snd ` set (mentions m)" for k
    using flags_of_None [of "account_table m" k] flags_of_None [of "mentions m" k] account_table_flags [of m] by metis
  then show ?thesis by auto
qed

lemma mentions_mem:
  assumes "ix \<in> set (tm_instructions m)"
  shows "ix_program_id ix \<in> snd ` set (mentions m)"
    and "acc \<in> set (ix_accounts ix) \<Longrightarrow> ac_pubkey acc \<in> snd ` set (mentions m)"
proof -
  have "(0, ix_program_id ix) \<in> set (mentions m)" using assms by (auto simp: mentions_def)
  then show "ix_program_id ix \<in> snd ` set (mentions m)" by (rule rev_image_eqI) simp
next
  assume "acc \<in> set (ix_accounts ix)"
  then have "(meta_flags acc, ac_pubkey acc) \<in> set (mentions m)" using assms by (auto simp: mentions_def)
  then show "ac_pubkey acc \<in> snd ` set (mentions m)" by (rule rev_image_eqI) simp
qed

lemma resolve_compile:
  assumes "message_ok m" and "ix \<in> set (tm_instructions m)"
  shows "resolve (map snd (account_table m)) (compile (map snd (account_table m)) ix) =
    (ix_program_id ix, map ac_pubkey (ix_accounts ix), ix_data ix)"
proof -
  let ?keys = "map snd (account_table m)"
  have len: "length ?keys \<le> 256" using assms(1) by (simp add: message_ok_def)
  have "ix_program_id ix \<in> set ?keys" "\<And>acc. acc \<in> set (ix_accounts ix) \<Longrightarrow> ac_pubkey acc \<in> set ?keys"
    unfolding table_keys using assms(2) by (simp_all add: mentions_mem)
  then have "?keys ! unat (index_of ?keys (ix_program_id ix)) = ix_program_id ix"
    "\<And>acc. acc \<in> set (ix_accounts ix) \<Longrightarrow> ?keys ! unat (index_of ?keys (ac_pubkey acc)) = ac_pubkey acc"
    using index_of_found [OF _ len] by blast+
  then show ?thesis by (simp add: resolve_def compile_def del: nth_map)
qed

lemma serialise_decodes:
  assumes "message_ok m"
  shows "\<exists>hdr. dec_message (serialise m) = Some \<lparr>dm_header = hdr, dm_keys = map snd (account_table m), dm_blockhash = tm_recent_blockhash m,
    dm_instructions = map (compile (map snd (account_table m))) (tm_instructions m)\<rparr>"
proof -
  let ?keys = "map snd (account_table m)"
  have keys: "list_all (\<lambda>k. length k = 32) ?keys" "length ?keys < 2 ^ 16"
    using assms table_keys [of m] by (auto simp: message_ok_def list_all_iff)
  have ixs: "length (map (compile ?keys) (tm_instructions m)) < 2 ^ 16"
    "list_all (\<lambda>(p, ids, data). length ids < 2 ^ 16 \<and> length data < 2 ^ 16) (map (compile ?keys) (tm_instructions m))"
    using assms by (auto simp: message_ok_def list_all_iff compile_def)
  have "map (serialise_instruction ?keys) (tm_instructions m) = map enc_compiled (map (compile ?keys) (tm_instructions m))"
    by (simp add: serialise_instruction_compiled)
  moreover have "\<exists>h. length h = 3 \<and> serialise m = h @ enc_len (length ?keys) @ concat ?keys @ tm_recent_blockhash m @
      enc_len (length (tm_instructions m)) @ concat (map (serialise_instruction ?keys) (tm_instructions m))"
    by (simp add: serialise_def Let_def)
  then obtain h where h: "length h = 3" "serialise m = h @ enc_len (length ?keys) @ concat ?keys @ tm_recent_blockhash m @
      enc_len (length (tm_instructions m)) @ concat (map (serialise_instruction ?keys) (tm_instructions m))" by blast
  ultimately have s: "serialise m = h @ (enc_len (length ?keys) @ concat (map (\<lambda>k. k) ?keys) @ tm_recent_blockhash m @
      enc_len (length (map (compile ?keys) (tm_instructions m))) @ concat (map enc_compiled (map (compile ?keys) (tm_instructions m))) @ [])"
    by (simp only: length_map append_Nil2 list.map_ident)
  have hash: "length (tm_recent_blockhash m) = 32" using assms by (simp add: message_ok_def)
  show ?thesis unfolding s dec_message_def
    by (simp only: fixed.dec_enc [OF h(1)] key_seq.dec_seq_enc [OF keys(2,1)] fixed.dec_enc [OF hash] instr_seq.dec_seq_enc [OF ixs]
        option.case prod.case list.case) simp
qed

text \<open>
  C25. The signed message says what was asked for: within the bounds of the format, a serialised message
  decodes, by the rules of the wire format, to the block hash and to instructions whose indices
  resolve to exactly the program, the accounts and the data of the original instructions, in order.
  The account table has no duplicates, starts with the fee payer and lists signers before
  non-signers and writable before read-only ones. The flags of an account are those of its
  first mention: a later mention as signer or as writable is lost.
\<close>

theorem serialise_roundtrip:
  assumes "message_ok m"
  shows "\<exists>d. dec_message (serialise m) = Some d \<and> dm_blockhash d = tm_recent_blockhash m \<and>
      map (resolve (dm_keys d)) (dm_instructions d) =
        map (\<lambda>ix. (ix_program_id ix, map ac_pubkey (ix_accounts ix), ix_data ix)) (tm_instructions m) \<and>
      dm_keys d = map snd (account_table m) \<and> distinct (dm_keys d) \<and> hd (dm_keys d) = tm_fee_payer m \<and>
      sorted (map (\<lambda>a. (1 - signer_bit a, 1 - writable_bit a)) (account_table m)) \<and>
      flags_of (account_table m) = flags_of (mentions m)"
proof -
  have "hd (map snd (account_table m)) = tm_fee_payer m" using account_table_eq [of m] by auto
  moreover have "map (resolve (map snd (account_table m))) (map (compile (map snd (account_table m))) (tm_instructions m)) =
      map (\<lambda>ix. (ix_program_id ix, map ac_pubkey (ix_accounts ix), ix_data ix)) (tm_instructions m)"
    using resolve_compile [OF assms] by (simp only: map_map o_def) (simp cong: map_cong)
  ultimately show ?thesis
    using serialise_decodes [OF assms] account_table_distinct [of m] account_table_sorted [of m] account_table_flags [of m] by auto
qed

definition sample_message :: transaction_message where
  "sample_message = TransactionMessage_new (replicate 32 1) (replicate 32 9)
     [spl_transfer_instruction (replicate 32 2) (replicate 32 3) (replicate 32 1) 500]"

lemma account_table_length: "length (account_table m) \<le> length (mentions m)"
proof -
  have "length (account_table m) = card (set (map snd (account_table m)))"
    using distinct_card [OF account_table_distinct [of m]] by simp
  also have "\<dots> \<le> length (mentions m)"
    unfolding table_keys by (rule order_trans [OF card_image_le card_length]) simp
  finally show ?thesis .
qed

lemma sample_message_ok: "message_ok sample_message"
  using account_table_length [of sample_message]
  by (simp add: message_ok_def sample_message_def TransactionMessage_new_def spl_transfer_instruction_def meta_def mentions_def
      SPL_TOKEN_PROGRAM_def)

lemma serialise_roundtrip_witness:
  "\<exists>d. dec_message (serialise sample_message) = Some d \<and>
     map (resolve (dm_keys d)) (dm_instructions d) =
       [(SPL_TOKEN_PROGRAM, [replicate 32 2, replicate 32 3, replicate 32 1], 3 # le_bytes 8 500)] \<and>
     hd (dm_keys d) = replicate 32 1"
  using serialise_roundtrip [OF sample_message_ok]
  by (auto simp: sample_message_def TransactionMessage_new_def spl_transfer_instruction_def meta_def)

text \<open>An attempt is repeated only after no answer or after one of the two transient errors.\<close>

definition transient :: "rpc_answer \<Rightarrow> bool" where
  "transient a = (case a of NoAnswer _ \<Rightarrow> True | RpcError msg \<Rightarrow> retriable msg | _ \<Rightarrow> False)"

definition final_answer :: "rpc_answer \<Rightarrow> string + string" where
  "final_answer a =
     (case a of NoAnswer e \<Rightarrow> Inl e | NotJson e \<Rightarrow> Inl e | RpcError msg \<Rightarrow> Inl (''RPC error: '' @ msg)
      | RpcResult sig \<Rightarrow> Inr sig | NoResult \<Rightarrow> Inl ''Missing result in response'')"

lemma send_attempts_outcome:
  assumes "attempt + n = Suc max_retries" and "attempt \<le> max_retries"
  shows "\<exists>k\<ge>attempt. k \<le> max_retries \<and> (\<forall>i. attempt \<le> i \<and> i < k \<longrightarrow> transient (rpc i)) \<and>
    (transient (rpc k) \<longrightarrow> k = max_retries) \<and> send_attempts rpc max_retries attempt n = final_answer (rpc k)"
  using assms
proof (induction n arbitrary: attempt)
  case (Suc n)
  show ?case
  proof (cases "transient (rpc attempt) \<and> attempt < max_retries")
    case True
    then have step: "send_attempts rpc max_retries attempt (Suc n) = send_attempts rpc max_retries (Suc attempt) n"
      by (auto simp: transient_def split: rpc_answer.splits)
    obtain k where k: "k \<ge> Suc attempt" "k \<le> max_retries" "\<forall>i. Suc attempt \<le> i \<and> i < k \<longrightarrow> transient (rpc i)"
      "transient (rpc k) \<longrightarrow> k = max_retries" "send_attempts rpc max_retries (Suc attempt) n = final_answer (rpc k)"
      using Suc.IH [of "Suc attempt"] Suc.prems True by auto
    then have "\<forall>i. attempt \<le> i \<and> i < k \<longrightarrow> transient (rpc i)" using True by (metis Suc_leI le_neq_implies_less)
    then show ?thesis using k step by (intro exI [of _ k]) simp
  next
    case False
    then have "send_attempts rpc max_retries attempt (Suc n) = final_answer (rpc attempt)"
      by (auto simp: transient_def final_answer_def split: rpc_answer.splits)
    then show ?thesis using False Suc.prems by (intro exI [of _ attempt]) auto
  qed
qed simp

text \<open>
  Sending ends after at most \<open>max_retries + 1\<close> attempts, whatever the node answers. The outcome is
  that of the first attempt whose answer is not transient, or of the last attempt; an attempt is
  repeated only after a transient answer, so a transaction the node accepted is never sent again, and
  the error after the loop is never returned.
\<close>

theorem send_transaction_terminates:
  "\<exists>k \<le> unat max_retries. (\<forall>i < k. transient (rpc i)) \<and> (transient (rpc k) \<longrightarrow> k = unat max_retries) \<and>
     send_transaction_with_retry rpc max_retries = final_answer (rpc k)"
  using send_attempts_outcome [of 0 "Suc (unat max_retries)" "unat max_retries" rpc]
  by (auto simp: send_transaction_with_retry_def)

definition flaky_node :: "nat \<Rightarrow> rpc_answer" where
  "flaky_node i = (if i < 2 then NoAnswer ''timeout'' else RpcResult ''sig'')"

theorem send_transaction_terminates_witness: "send_transaction_with_retry flaky_node 3 = Inr ''sig''"
  using send_transaction_terminates [of 3 flaky_node]
proof (elim exE conjE)
  fix k
  assume k: "k \<le> unat (3 :: u32)" "\<forall>i<k. transient (flaky_node i)" "transient (flaky_node k) \<longrightarrow> k = unat (3 :: u32)"
    "send_transaction_with_retry flaky_node 3 = final_answer (flaky_node k)"
  have "\<not> transient (flaky_node 2)" by (simp add: flaky_node_def transient_def)
  then have "k = 2" using k(2,3) by (cases "k < 2") (auto simp: flaky_node_def transient_def not_less le_less)
  then show ?thesis using k(4) by (simp add: flaky_node_def final_answer_def)
qed

end
