(* ===== verification/Eth_Sign.thy ===== *)
theory Eth_Sign
  imports Rlp Erc20_Abi
begin

text \<open>
  Signing of Ethereum transactions (src/wallet/eth_sign.rs). Keccak-256 and the curve are libraries: the
  hash is an argument, and the record \<open>secp\<close> has the operations of the curve that the file calls, with
  keys of any type. What the file relies on is \<open>secp_law\<close>. The reference is a reader of raw transactions
  by the rules of EIP-155, EIP-2718 and EIP-1559: a node that reads a signed transaction sees the
  fields that were signed and the address of the key.
\<close>

section \<open>The curve\<close>

text \<open>
  \<open>SigningKey::from_bytes\<close>, \<open>SigningKey::to_bytes\<close>, \<open>VerifyingKey::from\<close>, \<open>sign_prehash_recoverable\<close> (the 64 bytes of the signature and the
  recovery byte), \<open>Signature::from_slice\<close> (an error, or nothing), \<open>RecoveryId::from_byte\<close>,
  \<open>recover_from_prehash\<close>, and the uncompressed point of a public key.
\<close>

record ('k, 'v) secp =
  sc_signing_key :: "bytes \<Rightarrow> string + 'k"
  sc_key_bytes :: "'k \<Rightarrow> bytes"
  sc_verifying_key :: "'k \<Rightarrow> 'v"
  sc_sign :: "'k \<Rightarrow> bytes \<Rightarrow> string + (bytes \<times> u8)"
  sc_signature_error :: "bytes \<Rightarrow> string option"
  sc_recovery_id :: "u8 \<Rightarrow> bool"
  sc_recover :: "bytes \<Rightarrow> bytes \<Rightarrow> u8 \<Rightarrow> string + 'v"
  sc_point :: "'v \<Rightarrow> bytes"

text \<open>
  The bytes of a key are read back. A signature has 64 bytes and a parity bit, is accepted, and recovers to the key
  that made it.
\<close>

definition secp_law :: "('k, 'v) secp \<Rightarrow> bool" where
  "secp_law sc \<longleftrightarrow> (\<forall>k. sc_signing_key sc (sc_key_bytes sc k) = Inr k) \<and> (\<forall>k h sig recid. sc_sign sc k h = Inr (sig, recid) \<longrightarrow>
     length sig = 64 \<and> unat recid < 2 \<and> sc_signature_error sc sig = None \<and> sc_recovery_id sc recid \<and>
     sc_recover sc h sig recid = Inr (sc_verifying_key sc k))"

definition sign_hash :: "('k, 'v) secp \<Rightarrow> bytes \<Rightarrow> bytes \<Rightarrow> string + (bytes \<times> bytes \<times> u8)" where
  "sign_hash sc hash private_key =
     (case sc_signing_key sc private_key of
        Inl e \<Rightarrow> Inl (''invalid key: '' @ e)
      | Inr signing_key \<Rightarrow>
          (case sc_sign sc signing_key hash of
             Inl e \<Rightarrow> Inl (''signing failed: '' @ e)
           | Inr (sig_bytes, recid) \<Rightarrow> Inr (take 32 sig_bytes, drop 32 sig_bytes, recid)))"

definition pubkey_to_address :: "(bytes \<Rightarrow> bytes) \<Rightarrow> ('k, 'v) secp \<Rightarrow> 'v \<Rightarrow> bytes" where
  "pubkey_to_address keccak sc vk = drop 12 (keccak (drop 1 (sc_point sc vk)))"

definition ecrecover :: "(bytes \<Rightarrow> bytes) \<Rightarrow> ('k, 'v) secp \<Rightarrow> bytes \<Rightarrow> u8 \<Rightarrow> bytes \<Rightarrow> bytes \<Rightarrow> string + bytes" where
  "ecrecover keccak sc hash recovery_id r s =
     (case sc_signature_error sc (r @ s) of
        Some e \<Rightarrow> Inl (''invalid signature: '' @ e)
      | None \<Rightarrow>
          if \<not> sc_recovery_id sc recovery_id then Inl ''invalid recovery id''
          else case sc_recover sc hash (r @ s) recovery_id of
            Inl e \<Rightarrow> Inl (''ecrecover failed: '' @ e)
          | Inr vk \<Rightarrow> Inr (pubkey_to_address keccak sc vk))"

definition private_key_to_address :: "(bytes \<Rightarrow> bytes) \<Rightarrow> ('k, 'v) secp \<Rightarrow> bytes \<Rightarrow> string + bytes" where
  "private_key_to_address keccak sc private_key =
     (case sc_signing_key sc private_key of
        Inl e \<Rightarrow> Inl (''invalid key: '' @ e)
      | Inr signing_key \<Rightarrow> Inr (pubkey_to_address keccak sc (sc_verifying_key sc signing_key)))"

section \<open>Transactions\<close>

definition eip155_v :: "u64 \<Rightarrow> u8 \<Rightarrow> u64" where
  "eip155_v chain_id recovery_id = chain_id * 2 + 35 + ucast recovery_id"

definition sign_legacy_tx :: "(bytes \<Rightarrow> bytes) \<Rightarrow> ('k, 'v) secp \<Rightarrow> legacy_tx_fields \<Rightarrow> bytes \<Rightarrow> string + bytes" where
  "sign_legacy_tx keccak sc tx private_key =
     bindR (sign_hash sc (keccak (encode_legacy_unsigned tx)) private_key) (\<lambda>(r, s, recovery_id).
     Inr (encode_legacy_signed tx (eip155_v (lt_chain_id tx) recovery_id) r s))"

definition sign_eip1559_tx :: "(bytes \<Rightarrow> bytes) \<Rightarrow> ('k, 'v) secp \<Rightarrow> eip1559_tx_fields \<Rightarrow> bytes \<Rightarrow> string + bytes" where
  "sign_eip1559_tx keccak sc tx private_key =
     bindR (sign_hash sc (keccak (encode_eip1559_unsigned tx)) private_key) (\<lambda>(r, s, recovery_id).
     Inr (encode_eip1559_signed tx (ucast recovery_id) r s))"

definition verify_legacy_tx :: "(bytes \<Rightarrow> bytes) \<Rightarrow> ('k, 'v) secp \<Rightarrow> legacy_tx_fields \<Rightarrow> u64 \<Rightarrow> bytes \<Rightarrow> bytes \<Rightarrow> bytes \<Rightarrow> string + bool" where
  "verify_legacy_tx keccak sc tx v r s expected_address =
     bindR (ecrecover keccak sc (keccak (encode_legacy_unsigned tx)) (ucast (v - lt_chain_id tx * 2 - 35)) r s) (\<lambda>recovered.
     Inr (recovered = expected_address))"

definition verify_eip1559_tx :: "(bytes \<Rightarrow> bytes) \<Rightarrow> ('k, 'v) secp \<Rightarrow> eip1559_tx_fields \<Rightarrow> u8 \<Rightarrow> bytes \<Rightarrow> bytes \<Rightarrow> bytes \<Rightarrow> string + bool" where
  "verify_eip1559_tx keccak sc tx y_parity r s expected_address =
     bindR (ecrecover keccak sc (keccak (encode_eip1559_unsigned tx)) y_parity r s) (\<lambda>recovered.
     Inr (recovered = expected_address))"

datatype eth_unsigned_tx_data = LegacyTx legacy_tx_fields | Eip1559Tx eip1559_tx_fields

section \<open>How a node reads a transaction\<close>

text \<open>The transaction a node executes: its sender, chain and nonce, the account called, value and call data.\<close>

record tx_view =
  tv_sender :: bytes
  tv_chain_id :: nat
  tv_nonce :: nat
  tv_gas_limit :: nat
  tv_to :: bytes
  tv_value :: nat
  tv_data :: bytes

definition read_signed :: "(bytes \<Rightarrow> bytes) \<Rightarrow> ('k, 'v) secp \<Rightarrow> bytes \<Rightarrow> nat \<Rightarrow> bytes \<Rightarrow> bytes \<Rightarrow> bytes option" where
  "read_signed keccak sc payload parity r s =
     (if 1 < parity then None
      else case ecrecover keccak sc (keccak payload) (word_of_nat parity) (left_pad r) (left_pad s) of
        Inl _ \<Rightarrow> None | Inr a \<Rightarrow> Some a)"

definition read_legacy :: "(bytes \<Rightarrow> bytes) \<Rightarrow> ('k, 'v) secp \<Rightarrow> rlp list \<Rightarrow> tx_view option" where
  "read_legacy keccak sc items =
     (case items of
        [RLst [RStr nonce, RStr price, RStr gas, RStr to, RStr val, RStr data, RStr v, RStr r, RStr s]] \<Rightarrow>
          if of_be_bytes v < 35 then None
          else let chain = (of_be_bytes v - 35) div 2;
                   payload = rlp_enc (RLst (map RStr [nonce, price, gas, to, val, data, to_be_bytes_trimmed (word_of_nat chain), [], []]))
               in map_option (\<lambda>sender. \<lparr>tv_sender = sender, tv_chain_id = chain, tv_nonce = of_be_bytes nonce, tv_gas_limit = of_be_bytes gas,
                    tv_to = to, tv_value = of_be_bytes val, tv_data = data\<rparr>)
                    (read_signed keccak sc payload ((of_be_bytes v - 35) mod 2) r s)
      | _ \<Rightarrow> None)"

definition read_eip1559 :: "(bytes \<Rightarrow> bytes) \<Rightarrow> ('k, 'v) secp \<Rightarrow> rlp list \<Rightarrow> tx_view option" where
  "read_eip1559 keccak sc items =
     (case items of
        [RLst [RStr chain, RStr nonce, RStr tip, RStr fee, RStr gas, RStr to, RStr val, RStr data, RLst access, RStr y, RStr r, RStr s]] \<Rightarrow>
          let payload = 0x02 # rlp_enc (RLst (map RStr [chain, nonce, tip, fee, gas, to, val, data] @ [RLst access]))
          in map_option (\<lambda>sender. \<lparr>tv_sender = sender, tv_chain_id = of_be_bytes chain, tv_nonce = of_be_bytes nonce,
               tv_gas_limit = of_be_bytes gas, tv_to = to, tv_value = of_be_bytes val, tv_data = data\<rparr>)
               (read_signed keccak sc payload (of_be_bytes y) r s)
      | _ \<Rightarrow> None)"

fun node_reads :: "(bytes \<Rightarrow> bytes) \<Rightarrow> ('k, 'v) secp \<Rightarrow> bytes \<Rightarrow> tx_view option" where
  "node_reads keccak sc [] = None"
| "node_reads keccak sc (b # bs) =
     (if b = 0x02 then Option.bind (rlp_items bs) (read_eip1559 keccak sc)
      else Option.bind (rlp_items (b # bs)) (read_legacy keccak sc))"

section \<open>Signed encodings decode\<close>

lemma left_pad_trimmed:
  assumes "length r = 32"
  shows "left_pad (dropWhile (\<lambda>b. b = 0) r) = r"
proof -
  have "takeWhile (\<lambda>b. b = 0) r = replicate (length (takeWhile (\<lambda>b. b = 0) r)) 0"
    by (intro replicate_length_same [symmetric]) (auto dest: set_takeWhileD)
  moreover have "32 - length (dropWhile (\<lambda>b. b = 0) r) = length (takeWhile (\<lambda>b. b = 0) r)"
    using assms length_append [of "takeWhile (\<lambda>b. b = 0) r" "dropWhile (\<lambda>b. b = 0) r"] by simp
  moreover have "length (dropWhile (\<lambda>b. b = 0) r) \<le> 32" using length_dropWhile_le [of _ r] assms by simp
  ultimately show ?thesis using takeWhile_dropWhile_id [of "\<lambda>b. b = 0" r] by (simp add: left_pad_def)
qed

lemma legacy_signed_decodes:
  assumes "legacy_ok tx" "length r = 32" "length s = 32"
  shows "rlp_items (encode_legacy_signed tx v r s) =
    Some [RLst (map RStr (take 6 (legacy_items tx) @ [to_be_bytes_trimmed v, dropWhile (\<lambda>b. b = 0) r, dropWhile (\<lambda>b. b = 0) s]))]"
proof -
  let ?xs = "take 6 (legacy_items tx) @ [to_be_bytes_trimmed v, dropWhile (\<lambda>b. b = 0) r, dropWhile (\<lambda>b. b = 0) s]"
  have "sum_list (map length ?xs) + 9 * length ?xs < 2 ^ 64"
    using assms trimmed_length [of "lt_nonce tx"] trimmed_length [of "lt_gas_price tx"] trimmed_length [of "lt_gas_limit tx"]
      trimmed_length [of v] u128_bytes_length [of "lt_value tx"] length_dropWhile_le [of "\<lambda>b. b = 0" r] length_dropWhile_le [of "\<lambda>b. b = 0" s]
    by (simp add: legacy_items_def legacy_ok_def)
  from rlp_items_list [OF map_RStr_fits [OF this]] show ?thesis
    using assms by (simp add: encode_legacy_signed_def legacy_items_def encode_u64_bytes encode_u128_bytes encode_u256_bytes encode_address_def)
qed

lemma eip1559_signed_decodes:
  assumes "eip1559_ok tx" "length r = 32" "length s = 32"
  shows "\<exists>bs. encode_eip1559_signed tx y r s = 0x02 # bs \<and> rlp_items bs =
    Some [RLst (map RStr (eip1559_items tx) @ RLst [] # map RStr [to_be_bytes_trimmed y, dropWhile (\<lambda>b. b = 0) r, dropWhile (\<lambda>b. b = 0) s])]"
proof -
  let ?sig = "[to_be_bytes_trimmed y, dropWhile (\<lambda>b. b = 0) r, dropWhile (\<lambda>b. b = 0) s]"
  let ?all = "eip1559_items tx @ ?sig"
  have "sum_list (map length ?all) + 9 * length ?all < 2 ^ 64 - 1"
    using assms trimmed_length [of "et_nonce tx"] trimmed_length [of "et_chain_id tx"] trimmed_length [of "et_gas_limit tx"]
      trimmed_length [of "et_max_fee_per_gas tx"] trimmed_length [of "et_max_priority_fee_per_gas tx"] u128_bytes_length [of "et_value tx"]
      trimmed_length [of y] length_dropWhile_le [of "\<lambda>b. b = 0" r] length_dropWhile_le [of "\<lambda>b. b = 0" s]
    by (simp add: eip1559_items_def eip1559_ok_def)
  then have size: "sum_list (map length ?all) + 9 * length ?all < 2 ^ 64"
    and len: "length (concat (map encode_bytes ?all)) + 1 < 2 ^ 64" using encs_length [of ?all] by linarith+
  have "encode_list [] = [0xc0]" by (simp add: encode_list_def wrap_list_def)
  then have "rlp_fits (RLst (map RStr (eip1559_items tx) @ RLst [] # map RStr ?sig))"
    using map_RStr_fits [OF size] len by (simp add: o_def del: length_concat)
  from rlp_items_list [OF this] show ?thesis
    using assms by (simp add: encode_eip1559_signed_def eip1559_items_def encode_u64_bytes encode_u128_bytes encode_u256_bytes encode_address_def)
qed

section \<open>A node reads what was signed\<close>

lemma unat_ucast_wider:
  fixes x :: "'a::len word"
  assumes "LENGTH('a) \<le> LENGTH('b::len)"
  shows "unat (ucast x :: 'b word) = unat x"
proof -
  have "unat x < 2 ^ LENGTH('b)"
    by (rule less_le_trans [OF unsigned_less power_increasing [OF assms]]) simp
  then show ?thesis by (simp only: unsigned_ucast_eq take_bit_nat_eq_self)
qed

lemma sign_hash_recovers:
  assumes "secp_law sc" and "sign_hash sc h key = Inr (r, s, recid)"
  shows "length r = 32" "length s = 32" "unat recid < 2"
    "ecrecover keccak sc h recid r s = private_key_to_address keccak sc key"
proof -
  obtain k sig where k: "sc_signing_key sc key = Inr k" "sc_sign sc k h = Inr (sig, recid)" "r = take 32 sig" "s = drop 32 sig"
    using assms(2) by (auto simp: sign_hash_def split: sum.splits)
  then have law: "length sig = 64 \<and> unat recid < 2 \<and> sc_signature_error sc sig = None \<and> sc_recovery_id sc recid \<and>
     sc_recover sc h sig recid = Inr (sc_verifying_key sc k)" using assms(1) unfolding secp_law_def by blast
  then show "length r = 32" "length s = 32" "unat recid < 2" using k by simp_all
  show "ecrecover keccak sc h recid r s = private_key_to_address keccak sc key"
    using law k by (simp add: ecrecover_def private_key_to_address_def)
qed

lemma eip155_v_value:
  assumes "unat chain < 2 ^ 62" and "unat (recid :: u8) < 2"
  shows "unat (eip155_v chain recid) = 2 * unat chain + 35 + unat recid"
proof -
  have r: "unat (ucast recid :: u64) = unat recid" by (simp add: unat_ucast_wider)
  have c: "unat (chain * 2) = unat chain * 2" using assms(1) by (subst unat_mult_lem [THEN iffD1]) simp_all
  have c35: "unat (chain * 2 + 35) = unat chain * 2 + 35" using assms(1) c by (subst unat_add_lem [THEN iffD1]) simp_all
  have "unat (chain * 2 + 35 + ucast recid) = unat chain * 2 + 35 + unat recid" using assms c35 r by (subst unat_add_lem [THEN iffD1]) simp_all
  then show ?thesis by (simp add: eip155_v_def)
qed

lemma eip155_v_reads:
  assumes "unat chain < 2 ^ 62" and "unat (recid :: u8) < 2"
  shows "unat (eip155_v chain recid) - 35 = 2 * unat chain + unat recid" "35 \<le> unat (eip155_v chain recid)"
    "word_of_nat ((2 * unat chain + unat recid) div 2) = chain" "(word_of_nat ((2 * unat chain + unat recid) mod 2) :: u8) = recid"
  using assms by (simp_all add: eip155_v_value)

lemma legacy_payload:
  "rlp_enc (RLst (map RStr (take 6 (legacy_items tx) @ [to_be_bytes_trimmed (lt_chain_id tx), [], []]))) = encode_legacy_unsigned tx"
  by (simp add: legacy_items_def encode_legacy_unsigned_def encode_u64_bytes encode_u128_bytes encode_address_def encode_empty_bytes)

lemma eip1559_payload:
  "0x02 # rlp_enc (RLst (map RStr (eip1559_items tx) @ [RLst []])) = encode_eip1559_unsigned tx"
  by (simp add: eip1559_items_def encode_eip1559_unsigned_def encode_u64_bytes encode_u128_bytes encode_address_def)

lemma read_signed_sender:
  assumes "secp_law sc" and "sign_hash sc (keccak payload) key = Inr (r, s, recid)" and "private_key_to_address keccak sc key = Inr a"
  shows "read_signed keccak sc payload (unat recid) (dropWhile (\<lambda>b. b = 0) r) (dropWhile (\<lambda>b. b = 0) s) = Some a"
  using sign_hash_recovers [OF assms(1,2)] assms(3) by (simp add: read_signed_def left_pad_trimmed)

lemma not_typed: "rlp_items raw = Some [RLst xs] \<Longrightarrow> \<exists>b bs. raw = b # bs \<and> b \<noteq> 0x02"
  by (cases raw) (auto split: option.splits)

lemma legacy_reads_back:
  assumes law: "secp_law sc" and key: "private_key_to_address keccak sc key = Inr a" and ok: "legacy_ok tx"
    and chain: "unat (lt_chain_id tx) < 2 ^ 62" and raw: "sign_legacy_tx keccak sc tx key = Inr raw"
  shows "node_reads keccak sc raw = Some \<lparr>tv_sender = a, tv_chain_id = unat (lt_chain_id tx), tv_nonce = unat (lt_nonce tx),
    tv_gas_limit = unat (lt_gas_limit tx), tv_to = lt_to tx, tv_value = unat (lt_value tx), tv_data = lt_data tx\<rparr>"
proof -
  obtain r s recid where sign: "sign_hash sc (keccak (encode_legacy_unsigned tx)) key = Inr (r, s, recid)"
    and raw: "raw = encode_legacy_signed tx (eip155_v (lt_chain_id tx) recid) r s"
    using raw by (auto simp: sign_legacy_tx_def bindR_Inr_iff)
  note facts = sign_hash_recovers [OF law sign]
  note v = eip155_v_reads [OF chain facts(3)]
  note items = legacy_signed_decodes [OF ok facts(1,2), of "eip155_v (lt_chain_id tx) recid", folded raw]
  obtain b bs where raw': "raw = b # bs" "b \<noteq> 0x02" using not_typed [OF items] by blast
  have div: "(2 * unat (lt_chain_id tx) + unat recid) div 2 = unat (lt_chain_id tx)" "(2 * unat (lt_chain_id tx) + unat recid) mod 2 = unat recid"
    using facts(3) by auto
  have "node_reads keccak sc raw = Option.bind (rlp_items raw) (read_legacy keccak sc)" using raw' by simp
  also have "\<dots> = read_legacy keccak sc [RLst (map RStr (take 6 (legacy_items tx) @
      [to_be_bytes_trimmed (eip155_v (lt_chain_id tx) recid), dropWhile (\<lambda>b. b = 0) r, dropWhile (\<lambda>b. b = 0) s]))]"
    by (simp add: items)
  finally show ?thesis
    using legacy_payload [of tx] read_signed_sender [OF law sign key] facts(3) v(2)
    by (simp add: legacy_items_def read_legacy_def Let_def v(1) div trimmed_value u128_bytes_value)
qed

lemma eip1559_reads_back:
  assumes law: "secp_law sc" and key: "private_key_to_address keccak sc key = Inr a" and ok: "eip1559_ok tx"
    and raw: "sign_eip1559_tx keccak sc tx key = Inr raw"
  shows "node_reads keccak sc raw = Some \<lparr>tv_sender = a, tv_chain_id = unat (et_chain_id tx), tv_nonce = unat (et_nonce tx),
    tv_gas_limit = unat (et_gas_limit tx), tv_to = et_to tx, tv_value = unat (et_value tx), tv_data = et_data tx\<rparr>"
proof -
  obtain r s recid where sign: "sign_hash sc (keccak (encode_eip1559_unsigned tx)) key = Inr (r, s, recid)"
    and raw: "raw = encode_eip1559_signed tx (ucast recid) r s"
    using raw by (auto simp: sign_eip1559_tx_def bindR_Inr_iff)
  note facts = sign_hash_recovers [OF law sign]
  obtain bs where bs: "raw = 0x02 # bs" "rlp_items bs = Some [RLst (map RStr (eip1559_items tx) @
      RLst [] # map RStr [to_be_bytes_trimmed (ucast recid), dropWhile (\<lambda>b. b = 0) r, dropWhile (\<lambda>b. b = 0) s])]"
    using eip1559_signed_decodes [OF ok facts(1,2)] raw by blast
  have y: "unat (ucast recid :: u64) = unat recid" by (simp add: unat_ucast_wider)
  show ?thesis
    using eip1559_payload [of tx] read_signed_sender [OF law sign key]
    by (simp add: bs eip1559_items_def read_eip1559_def Let_def y trimmed_value u128_bytes_value)
qed

section \<open>Verification\<close>

lemma eip155_parity: "ucast (eip155_v chain recid - chain * 2 - 35) = recid"
proof -
  have "ucast (ucast recid :: u64) = recid" by (rule bit_word_eqI) (simp add: bit_ucast_iff)
  then show ?thesis by (simp add: eip155_v_def)
qed

text \<open>
  Signing and verifying agree: for every chain identifier, also those for which the value v wraps
  at 64 bits, the signature made with a key is accepted for the address of that key and for no other
  address, for legacy and for EIP-1559 transactions.
\<close>

theorem signatures_verify:
  assumes "secp_law sc" and "private_key_to_address keccak sc key = Inr a"
  shows "(\<forall>tx r s recid b. sign_hash sc (keccak (encode_legacy_unsigned tx)) key = Inr (r, s, recid) \<longrightarrow>
       verify_legacy_tx keccak sc tx (eip155_v (lt_chain_id tx) recid) r s b = Inr (b = a)) \<and>
    (\<forall>tx r s recid b. sign_hash sc (keccak (encode_eip1559_unsigned tx)) key = Inr (r, s, recid) \<longrightarrow>
       verify_eip1559_tx keccak sc tx recid r s b = Inr (b = a))"
  using sign_hash_recovers(4) [OF assms(1)] assms(2)
  by (auto simp: verify_legacy_tx_def verify_eip1559_tx_def eip155_parity)

section \<open>A sample curve\<close>

text \<open>A toy scheme that obeys the law: the signature carries the key, and the point is its own bytes.\<close>

definition sample_secp :: "(bytes, bytes) secp" where
  "sample_secp = \<lparr>sc_signing_key = Inr, sc_key_bytes = (\<lambda>k. k), sc_verifying_key = (\<lambda>k. k),
     sc_sign = (\<lambda>k h. if length k = 32 then Inr (k @ replicate 32 0, 1) else Inl ''length''), sc_signature_error = (\<lambda>sig. None),
     sc_recovery_id = (\<lambda>i. i < 4), sc_recover = (\<lambda>h sig i. Inr (take 32 sig)), sc_point = (\<lambda>v. 0x04 # v)\<rparr>"

lemma sample_secp_law: "secp_law sample_secp"
  by (auto simp: secp_law_def sample_secp_def split: if_splits)

definition sample_keccak :: "bytes \<Rightarrow> bytes" where
  "sample_keccak bs = take 32 (bs @ replicate 32 0)"

theorem signatures_verify_witness:
  "verify_legacy_tx sample_keccak sample_secp sample_legacy 38 (replicate 32 7) (replicate 32 0) (replicate 20 7) = Inr True"
proof -
  have key: "private_key_to_address sample_keccak sample_secp (replicate 32 7) = Inr (replicate 20 7)"
    by (simp add: private_key_to_address_def sample_secp_def pubkey_to_address_def sample_keccak_def)
  have sign: "sign_hash sample_secp (sample_keccak (encode_legacy_unsigned sample_legacy)) (replicate 32 7) = Inr (replicate 32 7, replicate 32 0, 1)"
    by (simp add: sign_hash_def sample_secp_def)
  have "eip155_v (lt_chain_id sample_legacy) 1 = 38" by (simp add: eip155_v_def sample_legacy_def)
  then show ?thesis using signatures_verify [OF sample_secp_law key, THEN conjunct1, rule_format, OF sign, of "replicate 20 7"] by simp
qed

end
