(* ===== verification/Chain.thy ===== *)
theory Chain
  imports Rust_Text
begin

text \<open>
  The interface of the wallet to the chains (src/wallet/chain.rs) and the registry of the adapters
  (src/wallet/registry.rs). An adapter is a trait object: a record of its functions, as actions on the
  state \<open>'n\<close> of the network clients.
\<close>

datatype tx_state = TxPending | TxConfirmed u64 u32 | TxFailed string

record fee_estimate =
  fe_base_fee :: u64
  fe_priority_fee :: u64
  fe_total :: u64
  fe_unit :: string

record settlement_data =
  sd_from :: string
  sd_to :: string
  sd_amount :: u64
  sd_token :: string
  sd_chain :: string

record unsigned_tx =
  ut_chain :: string
  ut_data :: bytes

record signed_tx =
  sx_chain :: string
  sx_data :: bytes

datatype chain_error = ChainRpc string | ChainSigning string | ChainUnsupported string | ChainOther string

definition chain_error_text :: "chain_error \<Rightarrow> string" where
  "chain_error_text e = (case e of ChainRpc e \<Rightarrow> ''RPC: '' @ e | ChainSigning e \<Rightarrow> ''Signing: '' @ e
     | ChainUnsupported e \<Rightarrow> ''Unsupported: '' @ e | ChainOther e \<Rightarrow> e)"

record 'n chain_adapter =
  ca_chain_name :: string
  ca_required_confirmations :: u32
  ca_drop_timeout_secs :: i64
  ca_send_transaction :: "signed_tx \<Rightarrow> ('n, chain_error, string) action"
  ca_get_transaction_status :: "string \<Rightarrow> ('n, chain_error, tx_state) action"
  ca_estimate_fees :: "settlement_data \<Rightarrow> ('n, chain_error, fee_estimate) action"
  ca_get_balance :: "string \<Rightarrow> string \<Rightarrow> ('n, chain_error, u64) action"
  ca_build_settlement_tx :: "settlement_data \<Rightarrow> ('n, chain_error, unsigned_tx) action"
  ca_sign_transaction :: "unsigned_tx \<Rightarrow> bytes \<Rightarrow> chain_error + signed_tx"

definition DEFAULT_DROP_TIMEOUT :: i64 where "DEFAULT_DROP_TIMEOUT = 600"

section \<open>The registry\<close>

type_synonym 'n chain_registry = "string \<rightharpoonup> 'n chain_adapter"

definition ChainRegistry_new :: "'n chain_registry" where
  "ChainRegistry_new = Map.empty"

definition register_chain :: "'n chain_adapter \<Rightarrow> 'n chain_registry \<Rightarrow> 'n chain_registry" where
  "register_chain a reg = reg(ca_chain_name a \<mapsto> a)"

definition get_chain :: "'n chain_registry \<Rightarrow> string \<Rightarrow> chain_error + 'n chain_adapter" where
  "get_chain reg chain = ok_or (reg chain) (ChainUnsupported (''No adapter for chain: '' @ chain))"

end
