(* ===== verification/Ethereum.thy ===== *)
theory Ethereum
  imports Evm_Rpc Eth_Sign Chain
begin

text \<open>
  The Ethereum side of the wallet: the JSON-RPC client under its circuit breaker (src/wallet/rpc.rs) and
  the chain adapter (src/wallet/ethereum.rs) that estimates gas, builds, signs and sends token transfers and
  follows their confirmation. As in the bridge adapters, what the node answers is a function of the log of what
  was sent. The percentiles of a fee history are integers in every call. Texts are lower-cased in ASCII.
\<close>

section \<open>The RPC client\<close>

datatype rpc_error = RpcNetwork string | RpcJson int string | RpcParse string

definition rpc_error_text :: "rpc_error \<Rightarrow> string" where
  "rpc_error_text e = (case e of
     RpcNetwork e \<Rightarrow> ''RPC network error: '' @ e
   | RpcJson code message \<Rightarrow> ''RPC error '' @ show_int code @ '': '' @ message
   | RpcParse e \<Rightarrow> ''RPC parse error: '' @ e)"

record rpc_client =
  rc_endpoint :: string
  rc_chain_id :: u64
  rc_config :: cb_config
  rc_breaker :: breaker
  rc_log :: "net_event list"

type_synonym 'a rpc_action = "(rpc_client, rpc_error, 'a) action"

record tx_receipt =
  re_tx_hash :: string
  re_block_number :: i64
  re_gas_used :: i64
  re_status :: bool

definition RpcClient_new :: "string \<Rightarrow> u64 \<Rightarrow> rpc_client" where
  "RpcClient_new endpoint chain_id =
     (let breaker_name = (if chain_id = 1 \<or> chain_id = 11155111 then ''ethereum_rpc'' else ''evm_rpc'') in
      \<lparr>rc_endpoint = endpoint, rc_chain_id = chain_id, rc_config = CircuitBreakerConfig_new breaker_name 5 30,
       rc_breaker = CircuitBreaker_new, rc_log = []\<rparr>)"

definition json_rpc_request :: "string \<Rightarrow> json \<Rightarrow> json" where
  "json_rpc_request meth params =
     JObj [(''jsonrpc'', JStr ''2.0''), (''method'', JStr meth), (''params'', params), (''id'', JNum 1)]"

definition client_post :: "net_env \<Rightarrow> json \<Rightarrow> json rpc_action" where
  "client_post env body c =
     ((case ne_post env (rc_log c) (rc_endpoint c) body of
         Inl (SendError e) \<Rightarrow> Inl (RpcNetwork e)
       | Inl (BodyError e) \<Rightarrow> Inl (RpcParse e)
       | Inr resp \<Rightarrow>
           (case rr_error resp of
              Some (code, message) \<Rightarrow> Inl (RpcJson code message)
            | None \<Rightarrow> ok_or (rr_result resp) (RpcParse ''Missing result field''))),
      c\<lparr>rc_log := rc_log c @ [Post (rc_endpoint c) body]\<rparr>)"

definition open_as_rpc_error :: "rpc_error circuit_error \<Rightarrow> rpc_error" where
  "open_as_rpc_error e = (case e of
     CircuitOpen breaker remaining \<Rightarrow> RpcNetwork (''Circuit breaker '' @ CHR 0x27 # breaker @ CHR 0x27 # '' open (resets in '' @ show_int remaining @ ''s)'')
   | CircuitInner e \<Rightarrow> e)"

definition rpc_call :: "net_env \<Rightarrow> string \<Rightarrow> json \<Rightarrow> json rpc_action" where
  "rpc_call env meth params c =
     map_errA open_as_rpc_error
       (breaker_call (\<lambda>c. ne_now env (rc_log c)) (rc_config c) rc_breaker (\<lambda>b c. c\<lparr>rc_breaker := b\<rparr>)
          (client_post env (json_rpc_request meth params))) c"

definition send_raw_transaction :: "net_env \<Rightarrow> string \<Rightarrow> string rpc_action" where
  "send_raw_transaction env signed_tx_hex =
     bindA (rpc_call env ''eth_sendRawTransaction'' (JArr [JStr signed_tx_hex])) (\<lambda>resp.
     liftR (ok_or (json_str resp) (RpcParse ''Expected tx hash string'')))"

definition hex_or_zero :: "json option \<Rightarrow> i64" where
  "hex_or_zero v = (case parse_hex_i64 (trim_start_0x (str_or ''0x0'' v)) of Inr n \<Rightarrow> n | Inl _ \<Rightarrow> 0)"

definition get_transaction_receipt :: "net_env \<Rightarrow> string \<Rightarrow> tx_receipt option rpc_action" where
  "get_transaction_receipt env tx_hash =
     bindA (rpc_call env ''eth_getTransactionReceipt'' (JArr [JStr tx_hash])) (\<lambda>resp.
     returnA (if resp = JNull then None
       else Some \<lparr>re_tx_hash = tx_hash, re_block_number = hex_or_zero (json_get ''blockNumber'' resp),
         re_gas_used = hex_or_zero (json_get ''gasUsed'' resp), re_status = (str_or ''0x0'' (json_get ''status'' resp) = ''0x1'')\<rparr>))"

text \<open>A hexadecimal string as a number of the type of \<open>parse\<close>, or a parse error.\<close>

definition read_hex :: "(string \<Rightarrow> string + 'a) \<Rightarrow> string \<Rightarrow> json \<Rightarrow> rpc_error + 'a" where
  "read_hex parse expected resp =
     (case json_str resp of
        None \<Rightarrow> Inl (RpcParse expected)
      | Some h \<Rightarrow> map_sum RpcParse id (parse (trim_start_0x h)))"

definition get_block_number :: "net_env \<Rightarrow> i64 rpc_action" where
  "get_block_number env =
     bindA (rpc_call env ''eth_blockNumber'' (JArr [])) (\<lambda>resp. liftR (read_hex parse_hex_i64 ''Expected hex block number'' resp))"

definition get_nonce :: "net_env \<Rightarrow> string \<Rightarrow> u64 rpc_action" where
  "get_nonce env address =
     bindA (rpc_call env ''eth_getTransactionCount'' (JArr [JStr address, JStr ''latest''])) (\<lambda>resp.
     liftR (read_hex parse_hex_u64 ''Expected hex nonce'' resp))"

definition eth_call :: "net_env \<Rightarrow> string \<Rightarrow> string \<Rightarrow> string rpc_action" where
  "eth_call env to data =
     bindA (rpc_call env ''eth_call'' (JArr [JObj [(''to'', JStr to), (''data'', JStr data)], JStr ''latest''])) (\<lambda>resp.
     liftR (ok_or (json_str resp) (RpcParse ''Expected hex string from eth_call'')))"

definition gas_price :: "net_env \<Rightarrow> i64 rpc_action" where
  "gas_price env =
     bindA (rpc_call env ''eth_gasPrice'' (JArr [])) (\<lambda>resp. liftR (read_hex parse_hex_i64 ''Expected hex gas price'' resp))"

definition get_base_fee :: "net_env \<Rightarrow> u64 option rpc_action" where
  "get_base_fee env =
     bindA (rpc_call env ''eth_getBlockByNumber'' (JArr [JStr ''latest'', JBool False])) (\<lambda>resp.
     case Option.bind (json_get ''baseFeePerGas'' resp) json_str of
       None \<Rightarrow> returnA None
     | Some h \<Rightarrow> liftR (map_sum RpcParse Some (parse_hex_u64 (trim_start_0x h))))"

definition max_priority_fee :: "net_env \<Rightarrow> u64 option rpc_action" where
  "max_priority_fee env =
     bindA (tryA (rpc_call env ''eth_maxPriorityFeePerGas'' (JArr []))) (\<lambda>r.
     case r of
       Inr resp \<Rightarrow> liftR (map_sum id Some (read_hex parse_hex_u64 ''Expected hex priority fee'' resp))
     | Inl e \<Rightarrow>
         (case e of
            RpcJson code _ \<Rightarrow> if code = -32601 \<or> code = -32602 then returnA None else raiseA e
          | _ \<Rightarrow> raiseA e))"

definition estimate_gas :: "net_env \<Rightarrow> string \<Rightarrow> string \<Rightarrow> string \<Rightarrow> u64 rpc_action" where
  "estimate_gas env from_addr to data =
     bindA (rpc_call env ''eth_estimateGas'' (JArr [JObj [(''from'', JStr from_addr), (''to'', JStr to), (''data'', JStr data)]])) (\<lambda>resp.
     liftR (read_hex parse_hex_u64 ''Expected hex gas estimate'' resp))"

definition block_tip :: "json \<Rightarrow> u64 list" where
  "block_tip block_rewards =
     (case as_array block_rewards of
        Some (v # _) \<Rightarrow>
          (case json_str v of
             Some h \<Rightarrow> [case parse_hex_u64 (trim_start_0x h) of Inr n \<Rightarrow> n | Inl _ \<Rightarrow> 0]
           | None \<Rightarrow> [])
      | _ \<Rightarrow> [])"

definition fee_history :: "net_env \<Rightarrow> u64 \<Rightarrow> int list \<Rightarrow> u64 list rpc_action" where
  "fee_history env block_count percentiles =
     bindA (rpc_call env ''eth_feeHistory'' (JArr [JStr (''0x'' @ show_hex (unat block_count)), JStr ''latest'', JArr (map JNum percentiles)])) (\<lambda>resp.
     returnA (concat (map block_tip (case Option.bind (json_get ''reward'' resp) as_array of Some rs \<Rightarrow> rs | None \<Rightarrow> []))))"

section \<open>Gas\<close>

definition ERC20_TRANSFER_GAS :: u64 where "ERC20_TRANSFER_GAS = 65000"
definition GAS_ESTIMATE_BUFFER_PCT :: u64 where "GAS_ESTIMATE_BUFFER_PCT = 120"
definition DEFAULT_PRIORITY_FEE :: u64 where "DEFAULT_PRIORITY_FEE = 1500000000"
definition MIN_PRIORITY_FEE :: u64 where "MIN_PRIORITY_FEE = 100000000"
definition MAX_PRIORITY_FEE :: u64 where "MAX_PRIORITY_FEE = 50000000000"
definition BASE_FEE_MULTIPLIER :: u64 where "BASE_FEE_MULTIPLIER = 2"
definition MAX_SEND_RETRIES :: nat where "MAX_SEND_RETRIES = 3"
definition RETRY_BASE_DELAY_MS :: u64 where "RETRY_BASE_DELAY_MS = 500"

record gas_params =
  gp_eip1559 :: bool
  gp_base_fee :: u64
  gp_max_priority_fee :: u64
  gp_max_fee_per_gas :: u64
  gp_gas_limit :: u64

definition clamp_fee :: "u64 \<Rightarrow> u64" where
  "clamp_fee fee = max MIN_PRIORITY_FEE (min MAX_PRIORITY_FEE fee)"

definition median_tip :: "u64 list \<Rightarrow> u64" where
  "median_tip tips = sort tips ! (length tips div 2)"

type_synonym 'a adapter_action = "(rpc_client, chain_error, 'a) action"

definition estimate_priority_fee :: "net_env \<Rightarrow> u64 adapter_action" where
  "estimate_priority_fee env =
     bindA (tryA (max_priority_fee env)) (\<lambda>r.
     case r of
       Inr (Some fee) \<Rightarrow> returnA (clamp_fee fee)
     | _ \<Rightarrow>
         bindA (tryA (fee_history env 5 [50])) (\<lambda>r.
         case r of
           Inr tips \<Rightarrow>
             if tips \<noteq> [] \<and> 0 < median_tip tips then returnA (clamp_fee (median_tip tips)) else returnA DEFAULT_PRIORITY_FEE
         | Inl _ \<Rightarrow> returnA DEFAULT_PRIORITY_FEE))"

definition as_chain_error :: "rpc_error \<Rightarrow> chain_error" where
  "as_chain_error e = ChainRpc (rpc_error_text e)"

definition buffered_gas :: "u64 \<Rightarrow> u64" where
  "buffered_gas estimated = max (estimated * GAS_ESTIMATE_BUFFER_PCT div 100) ERC20_TRANSFER_GAS"

definition estimate_gas_params :: "net_env \<Rightarrow> string \<Rightarrow> string \<Rightarrow> bytes \<Rightarrow> gas_params adapter_action" where
  "estimate_gas_params env from_addr to_contract calldata =
     bindA (tryA (estimate_gas env from_addr to_contract (''0x'' @ ne_hex_encode env calldata))) (\<lambda>r.
     let gas_limit = buffered_gas (case r of Inr gas \<Rightarrow> gas | Inl (_ :: rpc_error) \<Rightarrow> ERC20_TRANSFER_GAS) in
     bindA (map_errA as_chain_error (get_base_fee env)) (\<lambda>base_fee.
     case base_fee of
       Some base \<Rightarrow>
         bindA (estimate_priority_fee env) (\<lambda>priority.
         returnA \<lparr>gp_eip1559 = True, gp_base_fee = base, gp_max_priority_fee = priority,
           gp_max_fee_per_gas = base * BASE_FEE_MULTIPLIER + priority, gp_gas_limit = gas_limit\<rparr>)
     | None \<Rightarrow>
         bindA (map_errA as_chain_error (gas_price env)) (\<lambda>price.
         returnA \<lparr>gp_eip1559 = False, gp_base_fee = 0, gp_max_priority_fee = 0,
           gp_max_fee_per_gas = word_of_int price, gp_gas_limit = gas_limit\<rparr>)))"

section \<open>Sending\<close>

definition classify_send_error :: "int \<Rightarrow> string \<Rightarrow> bool \<times> string" where
  "classify_send_error code msg =
     (if contains msg ''nonce too low'' \<or> contains msg ''nonce is too low'' then (True, ''nonce_retry'')
      else if contains msg ''replacement transaction underpriced'' \<or> contains msg ''underpriced'' \<or> contains msg ''gas price too low''
      then (True, ''underpriced'')
      else if contains msg ''already known'' \<or> contains msg ''already imported'' then (False, ''already_known'')
      else if contains msg ''txpool is full'' \<or> contains msg ''transaction pool'' then (True, ''pool_full'')
      else if contains msg ''insufficient funds'' \<or> contains msg ''insufficient balance'' then (False, ''insufficient_funds'')
      else if -32099 \<le> code \<and> code \<le> -32000 \<and> \<not> contains msg ''revert'' then (True, ''server_error'')
      else (False, ''failed''))"

definition client_sleep :: "u64 \<Rightarrow> (rpc_client, 'e, unit) action" where
  "client_sleep ms = modifyA (\<lambda>c. c\<lparr>rc_log := rc_log c @ [Pause ms]\<rparr>)"

definition retry_delay :: "nat \<Rightarrow> u64" where
  "retry_delay attempt = RETRY_BASE_DELAY_MS * push_bit attempt 1"

fun eth_send_attempts :: "net_env \<Rightarrow> string \<Rightarrow> nat \<Rightarrow> nat \<Rightarrow> string adapter_action" where
  "eth_send_attempts env raw_hex attempt 0 = raiseA (ChainRpc ''Max retries exceeded'')"
| "eth_send_attempts env raw_hex attempt (Suc n) =
     bindA (tryA (send_raw_transaction env raw_hex)) (\<lambda>r.
     case r of
       Inr tx_hash \<Rightarrow> returnA tx_hash
     | Inl (RpcJson code message) \<Rightarrow>
         (case classify_send_error code (map to_lower message) of
            (retriable, category) \<Rightarrow>
              if retriable \<and> attempt < MAX_SEND_RETRIES
              then seqA (client_sleep (retry_delay attempt)) (eth_send_attempts env raw_hex (Suc attempt) n)
              else raiseA (ChainRpc (category @ '': '' @ message)))
     | Inl (RpcNetwork e) \<Rightarrow>
         if attempt < MAX_SEND_RETRIES
         then seqA (client_sleep (retry_delay attempt)) (eth_send_attempts env raw_hex (Suc attempt) n)
         else raiseA (ChainRpc (rpc_error_text (RpcNetwork e)))
     | Inl e \<Rightarrow> raiseA (ChainRpc (rpc_error_text e)))"

section \<open>The adapter\<close>

text \<open>The libraries of the adapter: the network, the hex decoder, Keccak-256, the curve, and the JSON form of a transaction.\<close>

record ('k, 'v) eth_env =
  ee_net :: net_env
  ee_hex_decode :: "string \<Rightarrow> string + bytes"
  ee_keccak :: "bytes \<Rightarrow> bytes"
  ee_secp :: "('k, 'v) secp"
  ee_to_json :: "eth_unsigned_tx_data \<Rightarrow> string + bytes"
  ee_from_json :: "bytes \<Rightarrow> string + eth_unsigned_tx_data"

definition encode_type2_tx :: "u64 \<Rightarrow> u64 \<Rightarrow> gas_params \<Rightarrow> bytes \<Rightarrow> bytes \<Rightarrow> bytes" where
  "encode_type2_tx chain_id nonce gas to_contract calldata =
     encode_eip1559_unsigned \<lparr>et_chain_id = chain_id, et_nonce = nonce, et_max_priority_fee_per_gas = gp_max_priority_fee gas,
       et_max_fee_per_gas = gp_max_fee_per_gas gas, et_gas_limit = gp_gas_limit gas, et_to = to_contract, et_value = 0, et_data = calldata\<rparr>"

definition encode_legacy_tx :: "u64 \<Rightarrow> u64 \<Rightarrow> u64 \<Rightarrow> u64 \<Rightarrow> bytes \<Rightarrow> bytes \<Rightarrow> bytes" where
  "encode_legacy_tx chain_id nonce price gas_limit to_contract calldata =
     encode_legacy_unsigned \<lparr>lt_nonce = nonce, lt_gas_price = price, lt_gas_limit = gas_limit, lt_to = to_contract, lt_value = 0,
       lt_data = calldata, lt_chain_id = chain_id\<rparr>"

definition eth_send_transaction :: "('k, 'v) eth_env \<Rightarrow> signed_tx \<Rightarrow> string adapter_action" where
  "eth_send_transaction env tx =
     eth_send_attempts (ee_net env) (''0x'' @ ne_hex_encode (ee_net env) (sx_data tx)) 0 (Suc MAX_SEND_RETRIES)"

definition eth_get_transaction_status :: "('k, 'v) eth_env \<Rightarrow> string \<Rightarrow> tx_state adapter_action" where
  "eth_get_transaction_status env tx_hash =
     bindA (map_errA as_chain_error (get_transaction_receipt (ee_net env) tx_hash)) (\<lambda>receipt.
     case receipt of
       None \<Rightarrow> returnA TxPending
     | Some r \<Rightarrow>
         if \<not> re_status r then returnA (TxFailed ''Transaction reverted'')
         else bindA (map_errA as_chain_error (get_block_number (ee_net env))) (\<lambda>current_block.
           returnA (TxConfirmed (word_of_int (re_block_number r)) (word_of_int (max (wrap64 (current_block - re_block_number r)) 0)))))"

definition transfer_calldata :: "('k, 'v) eth_env \<Rightarrow> string \<Rightarrow> settlement_data \<Rightarrow> chain_error + bytes" where
  "transfer_calldata env what data =
     (case parse_address (ee_hex_decode env) (sd_to data) of
        Inl e \<Rightarrow> Inl (ChainRpc (what @ e))
      | Inr to_addr \<Rightarrow> Inr (encode_transfer to_addr (ucast (sd_amount data))))"

definition eth_estimate_fees :: "('k, 'v) eth_env \<Rightarrow> settlement_data \<Rightarrow> fee_estimate adapter_action" where
  "eth_estimate_fees env data =
     bindA (liftR (transfer_calldata env ''Bad address: '' data)) (\<lambda>calldata.
     bindA (estimate_gas_params (ee_net env) (sd_from data) (sd_token data) calldata) (\<lambda>gas.
     returnA \<lparr>fe_base_fee = gp_base_fee gas, fe_priority_fee = gp_max_priority_fee gas,
       fe_total = gp_max_fee_per_gas gas * gp_gas_limit gas,
       fe_unit = (if gp_eip1559 gas then ''wei (EIP-1559)'' else ''wei (legacy)'')\<rparr>))"

definition eth_get_balance :: "('k, 'v) eth_env \<Rightarrow> string \<Rightarrow> string \<Rightarrow> u64 adapter_action" where
  "eth_get_balance env address token =
     (case parse_address (ee_hex_decode env) address of
        Inl e \<Rightarrow> raiseA (ChainRpc (''Bad address: '' @ e))
      | Inr account \<Rightarrow>
          bindA (map_errA as_chain_error (eth_call (ee_net env) token (''0x'' @ ne_hex_encode (ee_net env) (encode_balance_of account)))) (\<lambda>result.
          let bytes = (case ee_hex_decode env (strip_0x result) of Inr bs \<Rightarrow> bs | Inl _ \<Rightarrow> []) in
          returnA (if 32 \<le> length bytes then word_of_nat (of_be_bytes (take 8 (drop 24 bytes))) else 0)))"

definition settlement_tx_data :: "u64 \<Rightarrow> u64 \<Rightarrow> gas_params \<Rightarrow> bytes \<Rightarrow> bytes \<Rightarrow> eth_unsigned_tx_data" where
  "settlement_tx_data chain_id nonce gas token_contract calldata =
     (if gp_eip1559 gas
      then Eip1559Tx \<lparr>et_chain_id = chain_id, et_nonce = nonce, et_max_priority_fee_per_gas = gp_max_priority_fee gas,
        et_max_fee_per_gas = gp_max_fee_per_gas gas, et_gas_limit = gp_gas_limit gas, et_to = token_contract, et_value = 0, et_data = calldata\<rparr>
      else LegacyTx \<lparr>lt_nonce = nonce, lt_gas_price = gp_max_fee_per_gas gas, lt_gas_limit = gp_gas_limit gas, lt_to = token_contract,
        lt_value = 0, lt_data = calldata, lt_chain_id = chain_id\<rparr>)"

definition eth_build_settlement_tx :: "('k, 'v) eth_env \<Rightarrow> settlement_data \<Rightarrow> unsigned_tx adapter_action" where
  "eth_build_settlement_tx env data =
     bindA (liftR (transfer_calldata env ''Bad recipient: '' data)) (\<lambda>calldata.
     bindA (liftR (map_sum (\<lambda>e. ChainRpc (''Bad token: '' @ e)) id (parse_address (ee_hex_decode env) (sd_token data)))) (\<lambda>token_contract.
     bindA (map_errA as_chain_error (get_nonce (ee_net env) (sd_from data))) (\<lambda>nonce.
     bindA (estimate_gas_params (ee_net env) (sd_from data) (sd_token data) calldata) (\<lambda>gas.
     bindA (getsA rc_chain_id) (\<lambda>chain_id.
     bindA (liftR (map_sum (\<lambda>e. ChainSigning (''serialize tx: '' @ e)) id
       (ee_to_json env (settlement_tx_data chain_id nonce gas token_contract calldata)))) (\<lambda>bytes.
     returnA \<lparr>ut_chain = ''ethereum'', ut_data = bytes\<rparr>))))))"

definition eth_sign_transaction :: "('k, 'v) eth_env \<Rightarrow> unsigned_tx \<Rightarrow> bytes \<Rightarrow> chain_error + signed_tx" where
  "eth_sign_transaction env tx private_key =
     (case ee_from_json env (ut_data tx) of
        Inl e \<Rightarrow> Inl (ChainSigning (''deserialize tx: '' @ e))
      | Inr tx_data \<Rightarrow>
          map_sum ChainSigning (\<lambda>bytes. \<lparr>sx_chain = ''ethereum'', sx_data = bytes\<rparr>)
            (case tx_data of
               LegacyTx t \<Rightarrow> sign_legacy_tx (ee_keccak env) (ee_secp env) t private_key
             | Eip1559Tx t \<Rightarrow> sign_eip1559_tx (ee_keccak env) (ee_secp env) t private_key))"

definition ethereum_adapter :: "('k, 'v) eth_env \<Rightarrow> rpc_client chain_adapter" where
  "ethereum_adapter env =
     \<lparr>ca_chain_name = ''ethereum'', ca_required_confirmations = 12, ca_drop_timeout_secs = DEFAULT_DROP_TIMEOUT,
      ca_send_transaction = eth_send_transaction env, ca_get_transaction_status = eth_get_transaction_status env,
      ca_estimate_fees = eth_estimate_fees env, ca_get_balance = eth_get_balance env,
      ca_build_settlement_tx = eth_build_settlement_tx env, ca_sign_transaction = eth_sign_transaction env\<rparr>"

section \<open>What the client keeps\<close>

definition same_client :: "rpc_client \<Rightarrow> rpc_client \<Rightarrow> bool" where
  "same_client c d \<longleftrightarrow> rc_chain_id d = rc_chain_id c \<and> rc_endpoint d = rc_endpoint c \<and> rc_config d = rc_config c"

lemma rpc_call_same: "preserves (same_client c) (rpc_call env meth params)"
  by (auto simp: preserves_def same_client_def rpc_call_def map_errA_def breaker_call_def client_post_def split: prod.splits sum.splits)

lemma estimate_gas_params_same: "preserves (same_client c) (estimate_gas_params env f t d)"
proof -
  have "preserves (same_client c) (max_priority_fee env)"
    unfolding max_priority_fee_def by (intro preserves_bindA preserves_tryA rpc_call_same) (auto split: sum.splits rpc_error.splits)
  moreover have "preserves (same_client c) (fee_history env n ps)" for n ps
    unfolding fee_history_def by (intro preserves_bindA rpc_call_same) auto
  ultimately have "preserves (same_client c) (estimate_priority_fee env)"
    unfolding estimate_priority_fee_def by (intro preserves_bindA preserves_tryA) (auto split: sum.splits option.splits)
  moreover have "preserves (same_client c) (estimate_gas env f t d)" "preserves (same_client c) (get_base_fee env)" "preserves (same_client c) (gas_price env)" for d
    unfolding estimate_gas_def get_base_fee_def gas_price_def
    by (intro preserves_bindA rpc_call_same preserves_liftR; auto split: option.splits)+
  ultimately show ?thesis unfolding estimate_gas_params_def Let_def
    by (intro preserves_bindA preserves_tryA preserves_map_errA) (auto split: option.splits)
qed

section \<open>Fees\<close>

lemma returns_bind: "returns P m \<Longrightarrow> (\<And>x. P x \<Longrightarrow> returns R (f x)) \<Longrightarrow> returns R (bindA m f)"
  unfolding returns_def bindA_Inr_iff by blast

definition sane_tip :: "u64 \<Rightarrow> bool" where
  "sane_tip fee \<longleftrightarrow> MIN_PRIORITY_FEE \<le> fee \<and> fee \<le> MAX_PRIORITY_FEE"

lemma priority_fee_sane: "returns sane_tip (estimate_priority_fee env)"
proof -
  have "sane_tip (clamp_fee fee)" "sane_tip DEFAULT_PRIORITY_FEE" for fee
    by (simp_all add: sane_tip_def clamp_fee_def MIN_PRIORITY_FEE_def MAX_PRIORITY_FEE_def DEFAULT_PRIORITY_FEE_def)
  then show ?thesis unfolding estimate_priority_fee_def
    by (intro returns_bindA) (auto split: sum.splits option.splits intro!: returns_bindA)
qed

lemma gas_params_sane:
  "returns (\<lambda>g. ERC20_TRANSFER_GAS \<le> gp_gas_limit g \<and>
     (gp_eip1559 g \<longrightarrow> sane_tip (gp_max_priority_fee g) \<and> gp_max_fee_per_gas g = gp_base_fee g * 2 + gp_max_priority_fee g)) (estimate_gas_params env f t d)"
  unfolding estimate_gas_params_def Let_def
  by (intro returns_bindA) (auto split: option.splits intro!: returns_bindA returns_bind [OF priority_fee_sane] simp: buffered_gas_def BASE_FEE_MULTIPLIER_def)

section \<open>A built and signed settlement is a transfer\<close>

text \<open>What the adapter relies on: the decoder of hexadecimal strings, and JSON texts that are read back.\<close>

definition eth_libraries :: "('k, 'v) eth_env \<Rightarrow> bool" where
  "eth_libraries env \<longleftrightarrow> secp_law (ee_secp env) \<and> (\<forall>s bs. ee_hex_decode env s = Inr bs \<longrightarrow> length s = 2 * length bs) \<and>
     (\<forall>d bs. ee_to_json env d = Inr bs \<longrightarrow> ee_from_json env bs = Inr d)"

lemma parse_address_length:
  assumes "eth_libraries env" and "parse_address (ee_hex_decode env) s = Inr a"
  shows "length a = 20"
proof -
  have "length (strip_0x s) = 40" "ee_hex_decode env (strip_0x s) = Inr a"
    using assms(2) by (auto simp: parse_address_def Let_def split: if_splits sum.splits)
  then show ?thesis using assms(1) unfolding eth_libraries_def by fastforce
qed

lemma map_sum_Inr: "map_sum f g r = Inr y \<longleftrightarrow> (\<exists>x. r = Inr x \<and> y = g x)"
  by (cases r) auto

lemma build_settlement_parts:
  assumes "eth_build_settlement_tx env data c = (Inr u, c')"
  obtains to token nonce gas where "parse_address (ee_hex_decode env) (sd_to data) = Inr to"
    "parse_address (ee_hex_decode env) (sd_token data) = Inr token" "ERC20_TRANSFER_GAS \<le> gp_gas_limit gas"
    "ee_to_json env (settlement_tx_data (rc_chain_id c) nonce gas token (encode_transfer to (ucast (sd_amount data)))) = Inr (ut_data u)"
proof -
  obtain to token nonce gas c1 c2 where p: "parse_address (ee_hex_decode env) (sd_to data) = Inr to"
    "parse_address (ee_hex_decode env) (sd_token data) = Inr token"
    "get_nonce (ee_net env) (sd_from data) c = (Inr nonce, c1)"
    "estimate_gas_params (ee_net env) (sd_from data) (sd_token data) (encode_transfer to (ucast (sd_amount data))) c1 = (Inr gas, c2)"
    "ee_to_json env (settlement_tx_data (rc_chain_id c2) nonce gas token (encode_transfer to (ucast (sd_amount data)))) = Inr (ut_data u)"
    using assms by (auto simp: eth_build_settlement_tx_def transfer_calldata_def action_simps map_sum_Inr split: sum.splits)
  have "preserves (same_client c) (get_nonce (ee_net env) (sd_from data))"
    unfolding get_nonce_def by (intro preserves_bindA rpc_call_same preserves_liftR)
  then have "same_client c c1" using p(3) by (auto dest: preservesD simp: same_client_def)
  then have "rc_chain_id c2 = rc_chain_id c" using preservesD [OF estimate_gas_params_same p(4)] by (simp add: same_client_def)
  moreover have "ERC20_TRANSFER_GAS \<le> gp_gas_limit gas" using returnsD [OF gas_params_sane p(4)] by simp
  ultimately show thesis using that p by simp
qed

lemma signed_settlement_reads:
  assumes law: "secp_law (ee_secp env)" and key: "private_key_to_address (ee_keccak env) (ee_secp env) key = Inr a"
    and len: "length token = 20" "length calldata = 68" and chain: "unat chain_id < 2 ^ 62"
    and json: "ee_from_json env (ut_data u) = Inr (settlement_tx_data chain_id nonce gas token calldata)"
    and sign: "eth_sign_transaction env u key = Inr stx"
  shows "node_reads (ee_keccak env) (ee_secp env) (sx_data stx) = Some \<lparr>tv_sender = a, tv_chain_id = unat chain_id, tv_nonce = unat nonce,
    tv_gas_limit = unat (gp_gas_limit gas), tv_to = token, tv_value = 0, tv_data = calldata\<rparr>"
proof (cases "gp_eip1559 gas")
  case True
  then obtain tx where tx: "settlement_tx_data chain_id nonce gas token calldata = Eip1559Tx tx" "eip1559_ok tx"
    "et_chain_id tx = chain_id" "et_nonce tx = nonce" "et_gas_limit tx = gp_gas_limit gas" "et_to tx = token" "et_value tx = 0" "et_data tx = calldata"
    using len by (simp add: settlement_tx_data_def eip1559_ok_def)
  then have "sign_eip1559_tx (ee_keccak env) (ee_secp env) tx key = Inr (sx_data stx)"
    using json sign by (auto simp: eth_sign_transaction_def map_sum_Inr)
  from eip1559_reads_back [OF law key tx(2) this] show ?thesis by (simp add: tx)
next
  case False
  then obtain tx where tx: "settlement_tx_data chain_id nonce gas token calldata = LegacyTx tx" "legacy_ok tx"
    "lt_chain_id tx = chain_id" "lt_nonce tx = nonce" "lt_gas_limit tx = gp_gas_limit gas" "lt_to tx = token" "lt_value tx = 0" "lt_data tx = calldata"
    using len by (simp add: settlement_tx_data_def legacy_ok_def)
  then have "sign_legacy_tx (ee_keccak env) (ee_secp env) tx key = Inr (sx_data stx)"
    using json sign by (auto simp: eth_sign_transaction_def map_sum_Inr)
  from legacy_reads_back [OF law key tx(2) _ this] show ?thesis using chain by (simp add: tx)
qed

text \<open>
  C27. From a settlement to the chain: when the adapter builds and signs a settlement, a node that reads the
  raw bytes sees a transaction of the key's address on the configured chain that sends no ether and calls
  the token contract; the contract decodes the call as a transfer of exactly the amount to the
  recipient; and at least 65000 gas is allowed. For both transaction types, whatever the node answered while
  the transaction was built.
\<close>

theorem built_settlement_is_transfer:
  assumes libs: "eth_libraries env" and key: "private_key_to_address (ee_keccak env) (ee_secp env) key = Inr a"
    and build: "eth_build_settlement_tx env data c = (Inr u, c')" and sign: "eth_sign_transaction env u key = Inr stx"
    and chain: "unat (rc_chain_id c) < 2 ^ 62"
  shows "\<exists>to token view. parse_address (ee_hex_decode env) (sd_to data) = Inr to \<and> parse_address (ee_hex_decode env) (sd_token data) = Inr token \<and>
    node_reads (ee_keccak env) (ee_secp env) (sx_data stx) = Some view \<and>
    tv_sender view = a \<and> tv_chain_id view = unat (rc_chain_id c) \<and> tv_to view = token \<and> tv_value view = 0 \<and> 65000 \<le> tv_gas_limit view \<and>
    take 4 (tv_data view) = TRANSFER_SELECTOR \<and> map (abi_word (tv_data view)) [0..<2] = [of_be_bytes to, unat (sd_amount data)]"
proof -
  obtain to token nonce gas where p: "parse_address (ee_hex_decode env) (sd_to data) = Inr to"
    "parse_address (ee_hex_decode env) (sd_token data) = Inr token" "ERC20_TRANSFER_GAS \<le> gp_gas_limit gas"
    "ee_to_json env (settlement_tx_data (rc_chain_id c) nonce gas token (encode_transfer to (ucast (sd_amount data)))) = Inr (ut_data u)"
    using build by (rule build_settlement_parts)
  let ?data = "encode_transfer to (ucast (sd_amount data))"
  have len: "length to = 20" "length token = 20" using parse_address_length [OF libs] p(1,2) by blast+
  note words = erc20_calldata_decodes [OF len(1) len(1), of "ucast (sd_amount data)"]
  have amount: "unat (ucast (sd_amount data) :: u128) = unat (sd_amount data)" by (simp add: unat_ucast_wider)
  have law: "secp_law (ee_secp env)" using libs by (simp add: eth_libraries_def)
  have gas: "65000 \<le> unat (gp_gas_limit gas)" using p(3) by (simp add: ERC20_TRANSFER_GAS_def word_le_nat_alt)
  have json: "ee_from_json env (ut_data u) = Inr (settlement_tx_data (rc_chain_id c) nonce gas token ?data)"
    using libs p(4) unfolding eth_libraries_def by blast
  have data: "length ?data = 68" "take 4 ?data = TRANSFER_SELECTOR" "map (abi_word ?data) [0..<2] = [of_be_bytes to, unat (sd_amount data)]"
    using words amount by (simp_all add: encode_transfer_def TRANSFER_SELECTOR_def)
  show ?thesis using signed_settlement_reads [OF law key len(2) data(1) chain json sign] p(1,2) gas data(2,3) by simp
qed

section \<open>A receipt that is not there\<close>

lemma client_post_not_null: "null_is_none env \<Longrightarrow> client_post env body c = (Inr v, c') \<Longrightarrow> v \<noteq> JNull"
  by (auto simp: client_post_def null_is_none_def split: sum.splits transport_error.splits option.splits)

lemma rpc_call_not_null: "null_is_none env \<Longrightarrow> rpc_call env meth params c = (Inr v, c') \<Longrightarrow> v \<noteq> JNull"
  by (auto simp: rpc_call_def map_errA_Inr_iff dest!: breaker_call_Inr client_post_not_null)

lemma eth_never_pending:
  assumes "null_is_none (ee_net env)"
  shows "returns (\<lambda>st. st \<noteq> TxPending) (eth_get_transaction_status env tx_hash)"
proof -
  have "returns (\<lambda>r. r \<noteq> None) (map_errA as_chain_error (get_transaction_receipt (ee_net env) tx_hash))"
    by (auto simp: returns_def get_transaction_receipt_def map_errA_Inr_iff bindA_Inr_iff returnA_iff dest: rpc_call_not_null [OF assms])
  then show ?thesis unfolding eth_get_transaction_status_def
    by (rule returns_bind) (auto split: option.splits intro!: returns_bindA)
qed

section \<open>Sending ends\<close>

fun sends :: "net_event \<Rightarrow> bool" where
  "sends (Post _ _) = True"
| "sends _ = False"

fun pause_ms :: "net_event \<Rightarrow> nat" where
  "pause_ms (Pause ms) = unat ms"
| "pause_ms _ = 0"

lemma rpc_call_log:
  "\<exists>evs. rc_log (snd (rpc_call env meth params c)) = rc_log c @ evs \<and> rc_endpoint (snd (rpc_call env meth params c)) = rc_endpoint c \<and>
     (evs = [] \<or> evs = [Post (rc_endpoint c) (json_rpc_request meth params)])"
  by (auto simp: rpc_call_def map_errA_def breaker_call_def client_post_def split: prod.splits sum.splits)

lemma send_raw_log:
  assumes "send_raw_transaction env raw c = (r, c')"
  obtains evs where "rc_log c' = rc_log c @ evs" "rc_endpoint c' = rc_endpoint c"
    "evs = [] \<or> evs = [Post (rc_endpoint c) (json_rpc_request ''eth_sendRawTransaction'' (JArr [JStr raw]))]"
proof -
  have "c' = snd (rpc_call env ''eth_sendRawTransaction'' (JArr [JStr raw]) c)"
    using assms by (auto simp: send_raw_transaction_def bindA_def liftR_def split: prod.splits sum.splits)
  then show thesis using that rpc_call_log [of env "''eth_sendRawTransaction''" "JArr [JStr raw]" c] by blast
qed

text \<open>
  \<open>emits_send k ms evs\<close>: at most \<open>k\<close> of the events are requests, all of them with the same body, and the
  pauses add up to at most \<open>ms\<close> milliseconds.
\<close>

definition same_posts :: "string \<Rightarrow> json \<Rightarrow> net_event list \<Rightarrow> bool" where
  "same_posts url body evs \<longleftrightarrow> list_all (\<lambda>ev. sends ev \<longrightarrow> ev = Post url body) evs"

lemma send_attempts_log:
  assumes "eth_send_attempts env raw attempt n c = (r, c')" and "attempt + n \<le> Suc MAX_SEND_RETRIES"
  shows "\<exists>evs. rc_log c' = rc_log c @ evs \<and> same_posts (rc_endpoint c) (json_rpc_request ''eth_sendRawTransaction'' (JArr [JStr raw])) evs \<and>
    length (filter sends evs) \<le> n \<and> sum_list (map pause_ms evs) \<le> (\<Sum>i\<in>{attempt..<MAX_SEND_RETRIES}. 500 * 2 ^ i)"
  using assms
proof (induction n arbitrary: attempt c)
  case 0
  then show ?case by (intro exI [of _ "[]"]) (simp add: raiseA_def same_posts_def)
next
  case (Suc n)
  obtain q u where q: "send_raw_transaction env raw c = (q, u)" by fastforce
  obtain ps where ps: "rc_log u = rc_log c @ ps" "rc_endpoint u = rc_endpoint c"
    "ps = [] \<or> ps = [Post (rc_endpoint c) (json_rpc_request ''eth_sendRawTransaction'' (JArr [JStr raw]))]"
    using send_raw_log [OF q] by blast
  then have posts: "same_posts (rc_endpoint c) (json_rpc_request ''eth_sendRawTransaction'' (JArr [JStr raw])) ps" "length (filter sends ps) \<le> 1"
    "sum_list (map pause_ms ps) = 0" by (auto simp: same_posts_def)
  show ?case
  proof (cases "c' = u")
    case True
    then show ?thesis using ps posts by (intro exI [of _ ps]) auto
  next
    case False
    let ?v = "u\<lparr>rc_log := rc_log u @ [Pause (retry_delay attempt)]\<rparr>"
    have retry: "attempt < MAX_SEND_RETRIES" "eth_send_attempts env raw (Suc attempt) n ?v = (r, c')"
      using Suc.prems(1) q False
      by (auto simp: action_evals client_sleep_def split: sum.splits rpc_error.splits prod.splits if_splits)
    obtain evs where evs: "rc_log c' = rc_log ?v @ evs" "same_posts (rc_endpoint ?v) (json_rpc_request ''eth_sendRawTransaction'' (JArr [JStr raw])) evs"
      "length (filter sends evs) \<le> n" "sum_list (map pause_ms evs) \<le> (\<Sum>i\<in>{Suc attempt..<MAX_SEND_RETRIES}. 500 * 2 ^ i)"
      using Suc.IH [OF retry(2)] Suc.prems(2) by auto
    have "attempt = 0 \<or> attempt = 1 \<or> attempt = 2" using retry(1) by (auto simp: MAX_SEND_RETRIES_def)
    then have "unat (retry_delay attempt) = 500 * 2 ^ attempt" by (auto simp: retry_delay_def RETRY_BASE_DELAY_MS_def push_bit_eq_mult)
    moreover have "(\<Sum>i\<in>{attempt..<MAX_SEND_RETRIES}. 500 * 2 ^ i) = 500 * 2 ^ attempt + (\<Sum>i\<in>{Suc attempt..<MAX_SEND_RETRIES}. 500 * 2 ^ i :: nat)"
      using retry(1) by (simp add: sum.atLeast_Suc_lessThan)
    ultimately show ?thesis using evs ps posts
      by (intro exI [of _ "ps @ Pause (retry_delay attempt) # evs"]) (auto simp: same_posts_def)
  qed
qed

lemma already_known_fails:
  assumes lost: "send_raw_transaction env raw c = (Inl (RpcNetwork e), u)"
    and known: "send_raw_transaction env raw (u\<lparr>rc_log := rc_log u @ [Pause 500]\<rparr>) = (Inl (RpcJson code ''already known''), w)"
  shows "eth_send_attempts env raw 0 (Suc MAX_SEND_RETRIES) c = (Inl (ChainRpc ''already_known: already known''), w)"
proof -
  have cls: "classify_send_error code (map to_lower ''already known'') = (False, ''already_known'')" by code_simp
  have delay: "retry_delay 0 = 500" by (simp add: retry_delay_def RETRY_BASE_DELAY_MS_def)
  have "eth_send_attempts env raw (Suc 0) (Suc (Suc (Suc 0))) (u\<lparr>rc_log := rc_log u @ [Pause 500]\<rparr>) =
    (Inl (ChainRpc ''already_known: already known''), w)"
    using known cls by (subst eth_send_attempts.simps(2)) (simp add: action_evals)
  then show ?thesis unfolding MAX_SEND_RETRIES_def numeral_3_eq_3
    using lost delay by (subst eth_send_attempts.simps(2)) (simp add: action_evals client_sleep_def MAX_SEND_RETRIES_def del: eth_send_attempts.simps)
qed

text \<open>
  C28. Sending always ends and never sends anything else: whatever the node answers, at most four requests
  are made, each with the same signed bytes, and the pauses between them add up to at most 3.5 seconds. When
  a lost answer is followed by the answer "already known" (the node has the transaction), the adapter reports a
  failure, although the transaction is in the pool of the node.
\<close>

theorem eth_sending_ends:
  assumes "eth_send_transaction env tx c = (r, c')"
  shows "(\<exists>evs. rc_log c' = rc_log c @ evs \<and>
      same_posts (rc_endpoint c) (json_rpc_request ''eth_sendRawTransaction'' (JArr [JStr (''0x'' @ ne_hex_encode (ee_net env) (sx_data tx))])) evs \<and>
      length (filter sends evs) \<le> 4 \<and> sum_list (map pause_ms evs) \<le> 3500) \<and>
    (\<forall>u code e. send_raw_transaction (ee_net env) (''0x'' @ ne_hex_encode (ee_net env) (sx_data tx)) c = (Inl (RpcNetwork e), u) \<longrightarrow>
      fst (send_raw_transaction (ee_net env) (''0x'' @ ne_hex_encode (ee_net env) (sx_data tx)) (u\<lparr>rc_log := rc_log u @ [Pause 500]\<rparr>)) =
        Inl (RpcJson code ''already known'') \<longrightarrow> r = Inl (ChainRpc ''already_known: already known''))"
proof (intro conjI allI impI)
  have "(\<Sum>i\<in>{0..<MAX_SEND_RETRIES}. 500 * 2 ^ i) = (3500 :: nat)" by (simp add: MAX_SEND_RETRIES_def numeral_3_eq_3)
  then show "\<exists>evs. rc_log c' = rc_log c @ evs \<and>
      same_posts (rc_endpoint c) (json_rpc_request ''eth_sendRawTransaction'' (JArr [JStr (''0x'' @ ne_hex_encode (ee_net env) (sx_data tx))])) evs \<and>
      length (filter sends evs) \<le> 4 \<and> sum_list (map pause_ms evs) \<le> 3500"
    using send_attempts_log [OF assms [unfolded eth_send_transaction_def]] by (simp add: MAX_SEND_RETRIES_def)
next
  fix u :: rpc_client and code e
  let ?raw = "''0x'' @ ne_hex_encode (ee_net env) (sx_data tx)"
  assume lost: "send_raw_transaction (ee_net env) ?raw c = (Inl (RpcNetwork e), u)"
    and "fst (send_raw_transaction (ee_net env) ?raw (u\<lparr>rc_log := rc_log u @ [Pause 500]\<rparr>)) = Inl (RpcJson code ''already known'')"
  then obtain w where known: "send_raw_transaction (ee_net env) ?raw (u\<lparr>rc_log := rc_log u @ [Pause 500]\<rparr>) = (Inl (RpcJson code ''already known''), w)"
    by (metis prod.collapse)
  show "r = Inl (ChainRpc ''already_known: already known'')"
    using already_known_fails [OF lost known] assms unfolding eth_send_transaction_def by simp
qed

section \<open>A sample node\<close>

text \<open>The node answers every question with 9, so it is a chain without a base fee.\<close>

definition nine_node :: net_env where
  "nine_node = \<lparr>ne_post = (\<lambda>log url body. Inr \<lparr>rr_result = Some (JStr ''0x9''), rr_error = None\<rparr>), ne_get = (\<lambda>log url. Inl (SendError [])),
     ne_now = (\<lambda>log. 0), ne_random = (\<lambda>log. 0), ne_show_json = (\<lambda>v. []), ne_hex_encode = (\<lambda>bs. ''ab''), ne_hex_decode = (\<lambda>s. None)\<rparr>"

definition nine_tx :: eth_unsigned_tx_data where
  "nine_tx = LegacyTx \<lparr>lt_nonce = 9, lt_gas_price = 9, lt_gas_limit = 65000, lt_to = replicate 20 0x35, lt_value = 0,
     lt_data = encode_transfer (replicate 20 0x35) 700, lt_chain_id = 5\<rparr>"

definition nine_env :: "(bytes, bytes) eth_env" where
  "nine_env = \<lparr>ee_net = nine_node, ee_hex_decode = (\<lambda>s. if even (length s) then Inr (replicate (length s div 2) 0x35) else Inl ''odd''),
     ee_keccak = sample_keccak, ee_secp = sample_secp, ee_to_json = (\<lambda>d. if d = nine_tx then Inr [1] else Inl ''other''), ee_from_json = (\<lambda>bs. Inr nine_tx)\<rparr>"

definition nine_data :: settlement_data where
  "nine_data = \<lparr>sd_from = ''0x01'', sd_to = replicate 40 (CHR ''a''), sd_amount = 700, sd_token = replicate 40 (CHR ''b''), sd_chain = ''ethereum''\<rparr>"

lemma nine_libraries: "eth_libraries nine_env"
  by (auto simp: eth_libraries_def nine_env_def sample_secp_law elim!: evenE split: if_splits)

definition nine_gives :: "(rpc_client, 'e, 'a) action \<Rightarrow> 'a \<Rightarrow> bool" where
  "nine_gives m x \<longleftrightarrow> (\<forall>c. cb_state (rc_breaker c) = Closed \<and> rc_chain_id c = 5 \<longrightarrow>
     (\<exists>c'. m c = (Inr x, c') \<and> cb_state (rc_breaker c') = Closed \<and> rc_chain_id c' = 5))"

lemma nine_call: "nine_gives (rpc_call nine_node meth params) (JStr ''0x9'')"
  unfolding nine_gives_def
  by (auto simp: rpc_call_def map_errA_def closed_breaker_call client_post_def nine_node_def record_success_def Let_def)

lemma nine_bind: "nine_gives m x \<Longrightarrow> nine_gives (f x) y \<Longrightarrow> nine_gives (bindA m f) y"
  unfolding nine_gives_def by (fastforce simp: bindA_def)

lemma nine_pure: "nine_gives (returnA x) x" "nine_gives (liftR (Inr x)) x"
  by (auto simp: nine_gives_def returnA_def liftR_def)

lemma nine_wrapped: "nine_gives m x \<Longrightarrow> nine_gives (tryA m) (Inr x)" "nine_gives m x \<Longrightarrow> nine_gives (map_errA g m) x"
  unfolding nine_gives_def by (fastforce simp: tryA_def map_errA_def)+

lemma nine_chain: "nine_gives (getsA rc_chain_id) 5"
  by (auto simp: nine_gives_def getsA_def)

lemma read_nine: "read_hex parse_hex_u64 e (JStr ''0x9'') = Inr 9" "read_hex parse_hex_i64 e (JStr ''0x9'') = Inr 9"
  by (simp_all add: read_hex_def parse_hex_u64_def parse_hex_i64_def hex_value_def Let_def)

lemma nine_answers:
  "nine_gives (get_nonce nine_node a) 9" "nine_gives (gas_price nine_node) 9" "nine_gives (estimate_gas nine_node f t d) 9" "nine_gives (get_base_fee nine_node) None"
  unfolding get_nonce_def gas_price_def estimate_gas_def get_base_fee_def
  by (rule nine_bind [OF nine_call], simp add: read_nine nine_pure)+

lemma nine_gas: "nine_gives (estimate_gas_params nine_node f t d)
  \<lparr>gp_eip1559 = False, gp_base_fee = 0, gp_max_priority_fee = 0, gp_max_fee_per_gas = 9, gp_gas_limit = 65000\<rparr>"
proof -
  have "buffered_gas 9 = 65000" by (simp add: buffered_gas_def GAS_ESTIMATE_BUFFER_PCT_def ERC20_TRANSFER_GAS_def)
  then show ?thesis unfolding estimate_gas_params_def
    by (intro nine_bind [OF nine_wrapped(1) [OF nine_answers(3)]])
       (simp, intro nine_bind [OF nine_wrapped(2) [OF nine_answers(4)]],
        simp, intro nine_bind [OF nine_wrapped(2) [OF nine_answers(2)]], simp add: nine_pure)
qed

lemma nine_settlement: "nine_gives (eth_build_settlement_tx nine_env nine_data) \<lparr>ut_chain = ''ethereum'', ut_data = [1]\<rparr>"
proof -
  have addr: "parse_address (ee_hex_decode nine_env) (replicate 40 ch) = Inr (replicate 20 0x35)" if "ch \<noteq> CHR ''0''" for ch
    using that by (simp add: parse_address_def strip_0x_def starts_with_def nine_env_def)
  have call: "transfer_calldata nine_env w nine_data = Inr (encode_transfer (replicate 20 0x35) 700)" for w
    unfolding transfer_calldata_def by (simp add: nine_data_def addr)
  have token: "parse_address (ee_hex_decode nine_env) (sd_token nine_data) = Inr (replicate 20 0x35)" by (simp add: nine_data_def addr)
  have net: "ee_net nine_env = nine_node" "ee_to_json nine_env nine_tx = Inr [1]" by (simp_all add: nine_env_def)
  have tx: "settlement_tx_data 5 9 \<lparr>gp_eip1559 = False, gp_base_fee = 0, gp_max_priority_fee = 0, gp_max_fee_per_gas = 9, gp_gas_limit = 65000\<rparr>
      (replicate 20 0x35) (encode_transfer (replicate 20 0x35) 700) = nine_tx" by (simp add: settlement_tx_data_def nine_tx_def)
  show ?thesis unfolding eth_build_settlement_tx_def call token net(1) map_sum.simps id_apply
    by (rule nine_bind [OF nine_pure(2)], rule nine_bind [OF nine_pure(2)], rule nine_bind [OF nine_wrapped(2) [OF nine_answers(1)]],
        rule nine_bind [OF nine_gas], rule nine_bind [OF nine_chain], unfold tx net(2) map_sum.simps id_apply,
        rule nine_bind [OF nine_pure(2)], rule nine_pure(1))
qed

theorem built_settlement_is_transfer_witness:
  "\<exists>c stx view. eth_build_settlement_tx nine_env nine_data (RpcClient_new ''http://node'' 5) = (Inr \<lparr>ut_chain = ''ethereum'', ut_data = [1]\<rparr>, c) \<and>
     eth_sign_transaction nine_env \<lparr>ut_chain = ''ethereum'', ut_data = [1]\<rparr> (replicate 32 7) = Inr stx \<and>
     node_reads sample_keccak sample_secp (sx_data stx) = Some view \<and> tv_sender view = replicate 20 7 \<and>
     map (abi_word (tv_data view)) [0..<2] = [of_be_bytes (replicate 20 0x35), 700]"
proof -
  let ?c = "RpcClient_new ''http://node'' 5" and ?u = "\<lparr>ut_chain = ''ethereum'', ut_data = [1]\<rparr>"
  have c: "cb_state (rc_breaker ?c) = Closed" "rc_chain_id ?c = 5" by (simp_all add: RpcClient_new_def CircuitBreaker_new_def)
  obtain c' where build: "eth_build_settlement_tx nine_env nine_data ?c = (Inr ?u, c')" using nine_settlement c unfolding nine_gives_def by blast
  obtain stx where sign: "eth_sign_transaction nine_env ?u (replicate 32 7) = Inr stx"
    by (simp add: eth_sign_transaction_def nine_env_def nine_tx_def sign_legacy_tx_def sign_hash_def sample_secp_def)
  have key: "private_key_to_address (ee_keccak nine_env) (ee_secp nine_env) (replicate 32 7) = Inr (replicate 20 7)"
    by (simp add: nine_env_def private_key_to_address_def sample_secp_def pubkey_to_address_def sample_keccak_def)
  have to: "parse_address (ee_hex_decode nine_env) (sd_to nine_data) = Inr (replicate 20 0x35)"
    by (simp add: nine_data_def parse_address_def strip_0x_def starts_with_def nine_env_def)
  have "unat (rc_chain_id ?c) < 2 ^ 62" by (simp add: c)
  then obtain view where "node_reads (ee_keccak nine_env) (ee_secp nine_env) (sx_data stx) = Some view" "tv_sender view = replicate 20 7"
    "map (abi_word (tv_data view)) [0..<2] = [of_be_bytes (replicate 20 0x35), unat (sd_amount nine_data)]"
    using built_settlement_is_transfer [OF nine_libraries key build sign] to by auto
  then have "node_reads sample_keccak sample_secp (sx_data stx) = Some view" "tv_sender view = replicate 20 7"
     "map (abi_word (tv_data view)) [0..<2] = [of_be_bytes (replicate 20 0x35), 700]" by (simp_all add: nine_env_def nine_data_def del: upt.simps)
  then show ?thesis using build sign by - (rule exI [of _ c'], rule exI [of _ stx], rule exI [of _ view], intro conjI, assumption+)
qed

text \<open>A node whose first answer is lost, and which then has the transaction.\<close>

definition known_node :: net_env where
  "known_node = nine_node\<lparr>ne_post := (\<lambda>log url body. if log = [] then Inl (SendError ''timeout'')
     else Inr \<lparr>rr_result = None, rr_error = Some (-32000, ''already known'')\<rparr>)\<rparr>"

theorem eth_sending_ends_witness:
  "fst (eth_send_transaction (nine_env\<lparr>ee_net := known_node\<rparr>) \<lparr>sx_chain = ''ethereum'', sx_data = [1]\<rparr> (RpcClient_new ''http://node'' 5)) =
     Inl (ChainRpc ''already_known: already known'')"
proof -
  let ?env = "nine_env\<lparr>ee_net := known_node\<rparr>" and ?tx = "\<lparr>sx_chain = ''ethereum'', sx_data = [1]\<rparr>" and ?c = "RpcClient_new ''http://node'' 5"
  define raw where "raw = ''0x'' @ ne_hex_encode known_node [1]"
  obtain r c' where run: "eth_send_transaction ?env ?tx ?c = (r, c')" by fastforce
  obtain e u where "send_raw_transaction known_node raw ?c = (Inl (RpcNetwork e), u)" "rc_breaker u = record_failure (rc_config ?c) 0 CircuitBreaker_new"
    "rc_config u = rc_config ?c" "rc_log u \<noteq> []"
    by (simp add: send_raw_transaction_def rpc_call_def known_node_def nine_node_def action_evals breaker_call_def admit_def client_post_def
        RpcClient_new_def CircuitBreaker_new_def Let_def open_as_rpc_error_def)
  moreover have "cb_state (record_failure (rc_config ?c) 0 CircuitBreaker_new) = Closed"
    by (simp add: record_failure_def RpcClient_new_def CircuitBreaker_new_def CircuitBreakerConfig_new_def Let_def word_le_nat_alt)
  ultimately have u: "send_raw_transaction known_node raw ?c = (Inl (RpcNetwork e), u)" "cb_state (rc_breaker u) = Closed" "rc_log u \<noteq> []" by simp_all
  have "fst (send_raw_transaction known_node raw (u\<lparr>rc_log := rc_log u @ [Pause 500]\<rparr>)) = Inl (RpcJson (-32000) ''already known'')"
    using u(2,3) by (simp add: send_raw_transaction_def rpc_call_def known_node_def action_evals closed_breaker_call client_post_def open_as_rpc_error_def)
  then have "r = Inl (ChainRpc ''already_known: already known'')"
    using eth_sending_ends [OF run] u(1) unfolding raw_def by (simp add: nine_env_def)
  then show ?thesis using run by simp
qed

end
