(* ===== verification/Solana.thy ===== *)
theory Solana
  imports Evm_Rpc Solana_Tx Base58 Chain
begin

text \<open>
  The Solana adapter of the wallet (src/wallet/solana.rs), with the block hash request of
  src/wallet/solana_tx.rs and the signature of src/wallet/solana_signing.rs. The answers of the validator are JSON
  values, functions of the log of what was sent; SHA-256, Ed25519 and the text of a JSON value are
  fields of the environment. The message it builds is compared with the decoder of \<open>Solana_Tx\<close>.
\<close>

record sol_client =
  so_endpoint :: string
  so_log :: "net_event list"

record sol_env =
  se_post :: "net_event list \<Rightarrow> string \<Rightarrow> json \<Rightarrow> transport_error + json"
  se_show_json :: "json \<Rightarrow> string"
  se_sha256 :: "bytes \<Rightarrow> bytes"
  se_ed25519 :: "bytes \<Rightarrow> bytes \<Rightarrow> bytes"

type_synonym 'a sol_action = "(sol_client, chain_error, 'a) action"

definition SolanaAdapter_new :: "string \<Rightarrow> sol_client" where
  "SolanaAdapter_new endpoint = \<lparr>so_endpoint = endpoint, so_log = []\<rparr>"

definition sol_request :: "string \<Rightarrow> json list \<Rightarrow> json" where
  "sol_request meth params = JObj [(''jsonrpc'', JStr ''2.0''), (''id'', JNum 1), (''method'', JStr meth), (''params'', JArr params)]"

definition sol_post :: "sol_env \<Rightarrow> json \<Rightarrow> (sol_client, transport_error, json) action" where
  "sol_post env body c = (se_post env (so_log c) (so_endpoint c) body, c\<lparr>so_log := so_log c @ [Post (so_endpoint c) body]\<rparr>)"

definition sol_sleep :: "u64 \<Rightarrow> (sol_client, 'e, unit) action" where
  "sol_sleep ms = modifyA (\<lambda>c. c\<lparr>so_log := so_log c @ [Pause ms]\<rparr>)"

definition transport_text :: "transport_error \<Rightarrow> string" where
  "transport_text e = (case e of SendError e \<Rightarrow> e | BodyError e \<Rightarrow> e)"

definition sol_rpc_call :: "sol_env \<Rightarrow> string \<Rightarrow> json list \<Rightarrow> json sol_action" where
  "sol_rpc_call env meth params =
     bindA (map_errA (\<lambda>e. ChainRpc (transport_text e)) (sol_post env (sol_request meth params))) (\<lambda>json.
     case json_get ''error'' json of
       Some err \<Rightarrow> raiseA (ChainRpc (se_show_json env err))
     | None \<Rightarrow> liftR (ok_or (json_get ''result'' json) (ChainRpc ''Missing result'')))"

section \<open>Sending\<close>

definition send_body :: "string \<Rightarrow> json" where
  "send_body encoded = sol_request ''sendTransaction'' [JStr encoded, JObj [(''encoding'', JStr ''base58''), (''skipPreflight'', JBool False),
     (''preflightCommitment'', JStr ''confirmed'')]]"

fun sol_send_attempts :: "sol_env \<Rightarrow> json \<Rightarrow> string \<Rightarrow> nat \<Rightarrow> nat \<Rightarrow> string sol_action" where
  "sol_send_attempts env body last_err attempt 0 = raiseA (ChainRpc (''Max retries exceeded: '' @ last_err))"
| "sol_send_attempts env body last_err attempt (Suc n) =
     bindA (tryA (sol_post env body)) (\<lambda>r.
     case r of
       Inr json \<Rightarrow>
         (case json_get ''error'' json of
            Some err \<Rightarrow>
              let msg = str_or ''Unknown'' (json_get ''message'' err) in
              if contains msg ''BlockhashNotFound'' \<and> attempt < 2
              then seqA (sol_sleep (500 * (word_of_nat attempt + 1))) (sol_send_attempts env body msg (Suc attempt) n)
              else raiseA (ChainRpc msg)
          | None \<Rightarrow> liftR (ok_or (Option.bind (json_get ''result'' json) json_str) (ChainRpc ''Missing result'')))
     | Inl (BodyError e) \<Rightarrow> raiseA (ChainRpc e)
     | Inl (SendError e) \<Rightarrow>
         if attempt < 2 then seqA (sol_sleep (500 * (word_of_nat attempt + 1))) (sol_send_attempts env body e (Suc attempt) n)
         else raiseA (ChainRpc e))"

definition sol_send_transaction :: "sol_env \<Rightarrow> signed_tx \<Rightarrow> string sol_action" where
  "sol_send_transaction env tx = sol_send_attempts env (send_body (bs58_encode (sx_data tx))) [] 0 3"

section \<open>Status, fees and balances\<close>

definition confirmed_status :: "json \<Rightarrow> tx_state" where
  "confirmed_status status =
     (let slot = (case Option.bind (json_get ''slot'' status) json_u64 of Some n \<Rightarrow> n | None \<Rightarrow> 0);
          confirmations = (case Option.bind (json_get ''confirmations'' status) json_u64 of Some n \<Rightarrow> ucast n | None \<Rightarrow> 0);
          finalized = (Option.bind (json_get ''confirmationStatus'' status) json_str = Some ''finalized'')
      in TxConfirmed slot (if finalized then 32 else confirmations))"

definition read_status :: "sol_env \<Rightarrow> json list \<Rightarrow> tx_state" where
  "read_status env statuses =
     (case statuses of
        JObj (f # fs) # _ \<Rightarrow>
          (case json_get ''err'' (JObj (f # fs)) of
             Some err \<Rightarrow> if err \<noteq> JNull then TxFailed (se_show_json env err) else confirmed_status (JObj (f # fs))
           | None \<Rightarrow> confirmed_status (JObj (f # fs)))
      | _ \<Rightarrow> TxPending)"

definition sol_get_transaction_status :: "sol_env \<Rightarrow> string \<Rightarrow> tx_state sol_action" where
  "sol_get_transaction_status env tx_hash =
     bindA (sol_rpc_call env ''getSignatureStatuses'' [JArr [JStr tx_hash], JObj [(''searchTransactionHistory'', JBool True)]]) (\<lambda>result.
     bindA (liftR (ok_or (Option.bind (json_get ''value'' result) as_array) (ChainRpc ''Invalid status response''))) (\<lambda>statuses.
     returnA (read_status env statuses)))"

definition average_fee :: "json \<Rightarrow> u64" where
  "average_fee val =
     (let fees = List.map_filter (\<lambda>v. Option.bind (json_get ''prioritizationFee'' v) json_u64) (case as_array val of Some arr \<Rightarrow> arr | None \<Rightarrow> [])
      in if fees = [] then 0 else sum_list fees div word_of_nat (length fees))"

definition sol_estimate_fees :: "sol_env \<Rightarrow> settlement_data \<Rightarrow> fee_estimate sol_action" where
  "sol_estimate_fees env data =
     bindA (tryA (sol_rpc_call env ''getRecentPrioritizationFees'' [])) (\<lambda>result.
     let priority_fee = (case result of Inr val \<Rightarrow> average_fee val | Inl (_ :: chain_error) \<Rightarrow> 0) in
     returnA \<lparr>fe_base_fee = 5000, fe_priority_fee = priority_fee, fe_total = 5000 + priority_fee, fe_unit = ''lamports''\<rparr>)"

definition token_amount :: "json list \<Rightarrow> u64" where
  "token_amount accounts =
     (case accounts of
        [] \<Rightarrow> 0
      | a # _ \<Rightarrow>
          (case Option.bind (json_path [''account'', ''data'', ''parsed'', ''info'', ''tokenAmount'', ''amount''] a) json_str of
             None \<Rightarrow> 0
           | Some s \<Rightarrow> (case parse_uint 64 s of Some n \<Rightarrow> word_of_nat n | None \<Rightarrow> 0)))"

definition sol_get_balance :: "sol_env \<Rightarrow> string \<Rightarrow> string \<Rightarrow> u64 sol_action" where
  "sol_get_balance env address token =
     (if token = ''SOL''
      then bindA (sol_rpc_call env ''getBalance'' [JStr address]) (\<lambda>result.
        liftR (ok_or (Option.bind (json_get ''value'' result) json_u64) (ChainRpc ''Invalid balance response'')))
      else bindA (sol_rpc_call env ''getTokenAccountsByOwner'' [JStr address, JObj [(''mint'', JStr token)], JObj [(''encoding'', JStr ''jsonParsed'')]]) (\<lambda>result.
        bindA (liftR (ok_or (Option.bind (json_get ''value'' result) as_array) (ChainRpc ''Invalid token balance response''))) (\<lambda>accounts.
        returnA (token_amount accounts))))"

section \<open>Building and signing\<close>

definition base58_error :: "char \<Rightarrow> string" where
  "base58_error ch = ''Invalid base58 character: '' @ [ch]"

definition fetch_recent_blockhash :: "sol_env \<Rightarrow> (sol_client, string, bytes) action" where
  "fetch_recent_blockhash env =
     bindA (map_errA transport_text (sol_post env (sol_request ''getLatestBlockhash'' [JObj [(''commitment'', JStr ''finalized'')]]))) (\<lambda>resp.
     bindA (liftR (ok_or (Option.bind (json_path [''result'', ''value'', ''blockhash''] resp) json_str) ''Missing blockhash in response'')) (\<lambda>hash_str.
     case bs58_decode hash_str of
       Inl ch \<Rightarrow> raiseA (base58_error ch)
     | Inr bytes \<Rightarrow> if length bytes = 32 then returnA bytes else raiseA ''Blockhash not 32 bytes''))"

definition decode_pubkey :: "string \<Rightarrow> chain_error + bytes" where
  "decode_pubkey address =
     (case bs58_decode address of
        Inl ch \<Rightarrow> Inl (ChainSigning (''Invalid address: '' @ base58_error ch))
      | Inr bytes \<Rightarrow> if length bytes = 32 then Inr bytes else Inl (ChainSigning ''Address must be 32 bytes''))"

definition mint_of :: "string \<Rightarrow> chain_error + bytes" where
  "mint_of token = (if token \<noteq> [] \<and> 10 < length token then decode_pubkey token else Inr SYSTEM_PROGRAM)"

definition settlement_message :: "sol_env \<Rightarrow> bytes \<Rightarrow> bytes \<Rightarrow> bytes \<Rightarrow> u64 \<Rightarrow> bytes \<Rightarrow> transaction_message" where
  "settlement_message env from_key to_key mint_key amount blockhash =
     (let source_ata = derive_ata (se_sha256 env) from_key mint_key;
          instructions = spl_transfer_with_ata (se_sha256 env) source_ata to_key mint_key from_key amount from_key
      in TransactionMessage_new from_key blockhash instructions)"

definition sol_build_settlement_tx :: "sol_env \<Rightarrow> settlement_data \<Rightarrow> unsigned_tx sol_action" where
  "sol_build_settlement_tx env data =
     bindA (map_errA ChainRpc (fetch_recent_blockhash env)) (\<lambda>blockhash.
     bindA (liftR (decode_pubkey (sd_from data))) (\<lambda>from_key.
     bindA (liftR (decode_pubkey (sd_to data))) (\<lambda>to_key.
     bindA (liftR (mint_of (sd_token data))) (\<lambda>mint_key.
     returnA \<lparr>ut_chain = ''solana'', ut_data = serialise (settlement_message env from_key to_key mint_key (sd_amount data) blockhash)\<rparr>))))"

definition sol_sign :: "sol_env \<Rightarrow> bytes \<Rightarrow> bytes \<Rightarrow> string + bytes" where
  "sol_sign env seed message = Inr (se_ed25519 env seed message)"

definition sol_sign_transaction :: "sol_env \<Rightarrow> unsigned_tx \<Rightarrow> bytes \<Rightarrow> chain_error + signed_tx" where
  "sol_sign_transaction env tx private_key =
     (case sol_sign env private_key (ut_data tx) of
        Inl e \<Rightarrow> Inl (ChainSigning e)
      | Inr sig \<Rightarrow> Inr \<lparr>sx_chain = ''solana'', sx_data = 1 # sig @ ut_data tx\<rparr>)"

definition solana_adapter :: "sol_env \<Rightarrow> sol_client chain_adapter" where
  "solana_adapter env =
     \<lparr>ca_chain_name = ''solana'', ca_required_confirmations = 31, ca_drop_timeout_secs = 120,
      ca_send_transaction = sol_send_transaction env, ca_get_transaction_status = sol_get_transaction_status env,
      ca_estimate_fees = sol_estimate_fees env, ca_get_balance = sol_get_balance env,
      ca_build_settlement_tx = sol_build_settlement_tx env, ca_sign_transaction = sol_sign_transaction env\<rparr>"

section \<open>What a validator reads\<close>

text \<open>A transaction on the wire: the number of signatures, the signatures of 64 bytes, and the message.\<close>

definition read_transaction :: "bytes \<Rightarrow> (bytes list \<times> bytes) option" where
  "read_transaction raw = dec_seq dec_compact (dec_fixed 64) raw"

lemma length_derive_ata:
  assumes "\<And>bs. length (se_sha256 env bs) = 32"
  shows "length (derive_ata (se_sha256 env) owner mint) = 32"
proof -
  have "length (fst (try_bumps (se_sha256 env) seeds p bs)) = 32" for seeds p bs
    using assms by (induction bs) (simp_all add: Let_def)
  then show ?thesis by (simp add: derive_ata_def find_program_address_def)
qed

lemma settlement_message_ok:
  assumes sha: "\<And>bs. length (se_sha256 env bs) = 32"
    and "length from = 32" "length to = 32" "length mint = 32" "length hash = 32"
  shows "message_ok (settlement_message env from to mint amount hash)"
proof -
  let ?m = "settlement_message env from to mint amount hash"
  have "length (mentions ?m) \<le> 256"
    by (simp add: mentions_def settlement_message_def spl_transfer_with_ata_def build_create_ata_instruction_def
        spl_transfer_instruction_def TransactionMessage_new_def Let_def)
  then have "length (account_table ?m) \<le> 256" using account_table_length [of ?m] by simp
  then show ?thesis using assms length_derive_ata [OF sha]
    by (auto simp: message_ok_def mentions_def settlement_message_def spl_transfer_with_ata_def build_create_ata_instruction_def
        spl_transfer_instruction_def TransactionMessage_new_def Let_def meta_def SPL_TOKEN_PROGRAM_def ASSOCIATED_TOKEN_PROGRAM_def SYSTEM_PROGRAM_def)
qed

lemma fetch_blockhash_length: "returns (\<lambda>h. length h = 32) (fetch_recent_blockhash env)"
  unfolding fetch_recent_blockhash_def by (intro returns_bindA) (auto split: sum.splits)

lemma decode_pubkey_length: "decode_pubkey s = Inr k \<Longrightarrow> length k = 32" "mint_of s = Inr k \<Longrightarrow> length k = 32"
  by (auto simp: decode_pubkey_def mint_of_def SYSTEM_PROGRAM_def split: sum.splits if_splits)

text \<open>
  The associated token account of an owner for a mint, by the rule of the token programs: the hash of owner, token program, mint, bump,
  program and marker for the greatest bump, from 255 down, that gives no point of the curve. Whether 32 bytes are a point is a parameter.
\<close>

definition account_at :: "(bytes \<Rightarrow> bytes) \<Rightarrow> bytes \<Rightarrow> bytes \<Rightarrow> u8 \<Rightarrow> bytes" where
  "account_at sha256 owner mint bump =
     sha256 (owner @ SPL_TOKEN_PROGRAM @ mint @ [bump] @ ASSOCIATED_TOKEN_PROGRAM @ map (\<lambda>c. word_of_nat (of_char c)) ''ProgramDerivedAddress'')"

definition associated_account :: "(bytes \<Rightarrow> bytes) \<Rightarrow> (bytes \<Rightarrow> bool) \<Rightarrow> bytes \<Rightarrow> bytes \<Rightarrow> bytes option" where
  "associated_account sha256 on_curve owner mint = find (\<lambda>a. \<not> on_curve a) (map (\<lambda>b. account_at sha256 owner mint (word_of_nat b)) (rev [1..<256]))"

lemma rev_upt_255: "m < 256 \<Longrightarrow> rev [m..<256] = 255 # rev [m..<255]"
  using upt_Suc_append [of m 255] by simp

lemma derive_ata_255:
  assumes "account_at sha256 owner mint 255 \<noteq> replicate 32 0"
  shows "derive_ata sha256 owner mint = account_at sha256 owner mint 255"
  using assms by (simp add: derive_ata_def find_program_address_def rev_upt_255 account_at_def is_likely_on_curve_def Let_def)

lemma associated_account_255:
  "associated_account sha256 on_curve owner mint = Some (account_at sha256 owner mint 255) \<longleftrightarrow> \<not> on_curve (account_at sha256 owner mint 255)"
proof -
  have "\<not> on_curve a" if "find (\<lambda>a. \<not> on_curve a) as = Some a" for a as using that by (auto simp: find_Some_iff)
  then show ?thesis by (auto simp: associated_account_def rev_upt_255)
qed

lemma settlement_instructions:
  assumes sha: "\<And>bs. length (se_sha256 env bs) = 32" and sig: "\<And>k m. length (se_ed25519 env k m) = 64"
    and build: "sol_build_settlement_tx env data c = (Inr u, c')" and sign: "sol_sign_transaction env u key = Inr stx"
  shows "\<exists>sender to mint d. decode_pubkey (sd_from data) = Inr sender \<and> decode_pubkey (sd_to data) = Inr to \<and> mint_of (sd_token data) = Inr mint \<and>
    read_transaction (sx_data stx) = Some ([se_ed25519 env key (ut_data u)], ut_data u) \<and> dec_message (ut_data u) = Some d \<and> hd (dm_keys d) = sender \<and>
    map (resolve (dm_keys d)) (dm_instructions d) =
      [(ASSOCIATED_TOKEN_PROGRAM, [sender, derive_ata (se_sha256 env) to mint, to, mint, SYSTEM_PROGRAM, SPL_TOKEN_PROGRAM], [1]),
       (SPL_TOKEN_PROGRAM, [derive_ata (se_sha256 env) sender mint, derive_ata (se_sha256 env) to mint, sender], 3 # le_bytes 8 (unat (sd_amount data)))]"
proof -
  obtain hash sender to mint c1 where p: "fetch_recent_blockhash env c = (Inr hash, c1)" "decode_pubkey (sd_from data) = Inr sender"
    "decode_pubkey (sd_to data) = Inr to" "mint_of (sd_token data) = Inr mint" "ut_data u = serialise (settlement_message env sender to mint (sd_amount data) hash)"
    using build by (auto simp: sol_build_settlement_tx_def action_simps)
  let ?m = "settlement_message env sender to mint (sd_amount data) hash"
  have ok: "message_ok ?m"
    using p returnsD [OF fetch_blockhash_length p(1)] decode_pubkey_length by (intro settlement_message_ok [OF sha]) blast+
  obtain hdr where d: "dec_message (ut_data u) = Some \<lparr>dm_header = hdr, dm_keys = map snd (account_table ?m), dm_blockhash = tm_recent_blockhash ?m,
    dm_instructions = map (compile (map snd (account_table ?m))) (tm_instructions ?m)\<rparr>" using serialise_decodes [OF ok] p(5) by auto
  have ixs: "map (resolve (map snd (account_table ?m))) (map (compile (map snd (account_table ?m))) (tm_instructions ?m)) =
      map (\<lambda>ix. (ix_program_id ix, map ac_pubkey (ix_accounts ix), ix_data ix)) (tm_instructions ?m)"
    using resolve_compile [OF ok] by (simp only: map_map o_def) (simp cong: map_cong)
  have payer: "hd (map snd (account_table ?m)) = sender"
    using account_table_eq [of ?m] by (auto simp: settlement_message_def TransactionMessage_new_def Let_def)
  have raw: "sx_data stx = 1 # se_ed25519 env key (ut_data u) @ ut_data u" using sign by (auto simp: sol_sign_transaction_def sol_sign_def)
  have "read_transaction (sx_data stx) = Some ([se_ed25519 env key (ut_data u)], ut_data u)"
    using sig by (simp add: read_transaction_def raw dec_compact_def dec_fixed_def dec_seq_def)
  then show ?thesis using p(2-4) d ixs payer
    by (auto simp: settlement_message_def spl_transfer_with_ata_def build_create_ata_instruction_def spl_transfer_instruction_def
        TransactionMessage_new_def Let_def meta_def)
qed

text \<open>
  C29. A settlement on Solana, from the request to the wire: for a token that is given by its mint, the signed bytes are one signature, by
  the key that was given, of the message behind it; the message decodes, by the rules of the wire format, to the
  creation of a token account for the recipient and a transfer of exactly the amount from an account \<open>src\<close> to that account
  \<open>dst\<close>, with the sender as fee payer and authority. These are the associated token accounts of the sender and of the recipient
  exactly when they are no points of the curve, since the code stops at bump 255 without looking at the curve.
\<close>

theorem solana_settlement_is_transfer:
  assumes "\<And>bs. length (se_sha256 env bs) = 32" and "\<And>k m. length (se_ed25519 env k m) = 64"
    and "sol_build_settlement_tx env data c = (Inr u, c')" and "sol_sign_transaction env u key = Inr stx"
    and "10 < length (sd_token data)" and "\<And>owner mint. Inr owner \<in> {decode_pubkey (sd_from data), decode_pubkey (sd_to data)} \<Longrightarrow>
      decode_pubkey (sd_token data) = Inr mint \<Longrightarrow> account_at (se_sha256 env) owner mint 255 \<noteq> replicate 32 0"
  shows "\<exists>sender to mint d src dst. decode_pubkey (sd_from data) = Inr sender \<and> decode_pubkey (sd_to data) = Inr to \<and> decode_pubkey (sd_token data) = Inr mint \<and>
    read_transaction (sx_data stx) = Some ([se_ed25519 env key (ut_data u)], ut_data u) \<and> dec_message (ut_data u) = Some d \<and> hd (dm_keys d) = sender \<and>
    map (resolve (dm_keys d)) (dm_instructions d) =
      [(ASSOCIATED_TOKEN_PROGRAM, [sender, dst, to, mint, SYSTEM_PROGRAM, SPL_TOKEN_PROGRAM], [1]),
       (SPL_TOKEN_PROGRAM, [src, dst, sender], 3 # le_bytes 8 (unat (sd_amount data)))] \<and>
    (\<forall>on_curve. (associated_account (se_sha256 env) on_curve sender mint = Some src \<longleftrightarrow> \<not> on_curve src) \<and>
      (associated_account (se_sha256 env) on_curve to mint = Some dst \<longleftrightarrow> \<not> on_curve dst))"
proof -
  obtain sender to mint d where p: "decode_pubkey (sd_from data) = Inr sender" "decode_pubkey (sd_to data) = Inr to" "mint_of (sd_token data) = Inr mint"
    "read_transaction (sx_data stx) = Some ([se_ed25519 env key (ut_data u)], ut_data u)" "dec_message (ut_data u) = Some d" "hd (dm_keys d) = sender"
    "map (resolve (dm_keys d)) (dm_instructions d) =
      [(ASSOCIATED_TOKEN_PROGRAM, [sender, derive_ata (se_sha256 env) to mint, to, mint, SYSTEM_PROGRAM, SPL_TOKEN_PROGRAM], [1]),
       (SPL_TOKEN_PROGRAM, [derive_ata (se_sha256 env) sender mint, derive_ata (se_sha256 env) to mint, sender], 3 # le_bytes 8 (unat (sd_amount data)))]"
    using settlement_instructions [OF assms(1-4)] by (elim exE conjE) (rule that, assumption+)
  have mint: "decode_pubkey (sd_token data) = Inr mint" using assms(5) p(3) by (auto simp: mint_of_def split: if_splits)
  then have "derive_ata (se_sha256 env) sender mint = account_at (se_sha256 env) sender mint 255" "derive_ata (se_sha256 env) to mint = account_at (se_sha256 env) to mint 255"
    using p(1,2) by (intro derive_ata_255 assms(6); simp)+
  then show ?thesis using associated_account_255 mint p
    by - (rule exI [of _ sender], rule exI [of _ to], rule exI [of _ mint], rule exI [of _ d], rule exI [of _ "account_at (se_sha256 env) sender mint 255"],
      rule exI [of _ "account_at (se_sha256 env) to mint 255"], auto)
qed

section \<open>A sample validator\<close>

definition sample_sol_env :: sol_env where
  "sample_sol_env = \<lparr>se_post = (\<lambda>log url body. Inr (JObj [(''result'', JObj [(''value'', JObj [(''blockhash'', JStr (replicate 32 (CHR ''1'')))])])])),
     se_show_json = (\<lambda>v. []), se_sha256 = (\<lambda>bs. replicate 32 9), se_ed25519 = (\<lambda>k m. replicate 64 3)\<rparr>"

definition sample_sol_data :: settlement_data where
  "sample_sol_data = \<lparr>sd_from = replicate 31 (CHR ''1'') @ ''2'', sd_to = replicate 31 (CHR ''1'') @ ''3'', sd_amount = 250,
     sd_token = replicate 31 (CHR ''1'') @ ''4'', sd_chain = ''solana''\<rparr>"

lemma sample_keys:
  "decode_pubkey (replicate 31 (CHR ''1'') @ ''2'') = Inr (replicate 31 0 @ [1])" "decode_pubkey (replicate 31 (CHR ''1'') @ ''3'') = Inr (replicate 31 0 @ [2])"
  "decode_pubkey (replicate 31 (CHR ''1'') @ ''4'') = Inr (replicate 31 0 @ [3])" "bs58_decode (replicate 32 (CHR ''1'')) = Inr (replicate 32 0)"
  by code_simp+

lemma sample_sol_build:
  "\<exists>u c. sol_build_settlement_tx sample_sol_env sample_sol_data (SolanaAdapter_new ''http://sol'') = (Inr u, c)"
proof -
  have "mint_of (sd_token sample_sol_data) = Inr (replicate 31 0 @ [3])" by (simp add: mint_of_def sample_sol_data_def sample_keys(3) [simplified])
  moreover have "decode_pubkey (sd_from sample_sol_data) = Inr (replicate 31 0 @ [1])" "decode_pubkey (sd_to sample_sol_data) = Inr (replicate 31 0 @ [2])"
    by (simp_all add: sample_sol_data_def sample_keys)
  moreover have "fetch_recent_blockhash sample_sol_env (SolanaAdapter_new ''http://sol'') =
     (Inr (replicate 32 0), snd (sol_post sample_sol_env (sol_request ''getLatestBlockhash'' [JObj [(''commitment'', JStr ''finalized'')]]) (SolanaAdapter_new ''http://sol'')))"
    by (simp add: fetch_recent_blockhash_def sol_post_def sample_sol_env_def action_evals liftR_def json_path_def sample_keys(4) [simplified])
  ultimately show ?thesis by (simp add: sol_build_settlement_tx_def action_evals liftR_def)
qed

theorem solana_settlement_is_transfer_witness:
  "\<exists>u c stx d dst. sol_build_settlement_tx sample_sol_env sample_sol_data (SolanaAdapter_new ''http://sol'') = (Inr u, c) \<and>
     sol_sign_transaction sample_sol_env u (replicate 32 7) = Inr stx \<and> dec_message (ut_data u) = Some d \<and> hd (dm_keys d) = replicate 31 0 @ [1] \<and>
     read_transaction (sx_data stx) = Some ([replicate 64 3], ut_data u) \<and>
     map (\<lambda>(p, keys, data). data) (map (resolve (dm_keys d)) (dm_instructions d)) = [[1], 3 # le_bytes 8 250] \<and>
     fst (snd (resolve (dm_keys d) (dm_instructions d ! 1))) ! 1 = dst \<and>
     associated_account (se_sha256 sample_sol_env) (\<lambda>_. False) (replicate 31 0 @ [2]) (replicate 31 0 @ [3]) = Some dst"
proof -
  obtain u c where build: "sol_build_settlement_tx sample_sol_env sample_sol_data (SolanaAdapter_new ''http://sol'') = (Inr u, c)" using sample_sol_build by blast
  obtain stx where sign: "sol_sign_transaction sample_sol_env u (replicate 32 7) = Inr stx" by (simp add: sol_sign_transaction_def sol_sign_def)
  have len: "length (se_sha256 sample_sol_env bs) = 32" "length (se_ed25519 sample_sol_env k m) = 64" for bs k m by (simp_all add: sample_sol_env_def)
  have hash: "account_at (se_sha256 sample_sol_env) owner mint 255 \<noteq> replicate 32 0" for owner mint
    by (simp add: account_at_def sample_sol_env_def)
  have sig: "se_ed25519 sample_sol_env (replicate 32 7) (ut_data u) = replicate 64 3" by (simp add: sample_sol_env_def)
  have data: "decode_pubkey (sd_from sample_sol_data) = Inr (replicate 31 0 @ [1])" "decode_pubkey (sd_to sample_sol_data) = Inr (replicate 31 0 @ [2])"
    "decode_pubkey (sd_token sample_sol_data) = Inr (replicate 31 0 @ [3])" "unat (sd_amount sample_sol_data) = 250" "10 < length (sd_token sample_sol_data)"
    by (simp_all add: sample_sol_data_def sample_keys)
  obtain sender to mint d src dst where d: "decode_pubkey (sd_from sample_sol_data) = Inr sender" "decode_pubkey (sd_to sample_sol_data) = Inr to"
    "decode_pubkey (sd_token sample_sol_data) = Inr mint"
    "read_transaction (sx_data stx) = Some ([se_ed25519 sample_sol_env (replicate 32 7) (ut_data u)], ut_data u)" "dec_message (ut_data u) = Some d" "hd (dm_keys d) = sender"
    "map (resolve (dm_keys d)) (dm_instructions d) =
      [(ASSOCIATED_TOKEN_PROGRAM, [sender, dst, to, mint, SYSTEM_PROGRAM, SPL_TOKEN_PROGRAM], [1]),
       (SPL_TOKEN_PROGRAM, [src, dst, sender], 3 # le_bytes 8 (unat (sd_amount sample_sol_data)))]"
    "associated_account (se_sha256 sample_sol_env) (\<lambda>_. False) to mint = Some dst"
    using solana_settlement_is_transfer [OF len build sign data(5) hash] by (elim exE conjE) (rule that, assumption+, blast)
  have "map (\<lambda>(p, keys, data). data) (map (resolve (dm_keys d)) (dm_instructions d)) = [[1], 3 # le_bytes 8 250]"
    by (simp only: d(7) data list.map prod.case)
  moreover have "fst (snd (resolve (dm_keys d) (dm_instructions d ! 1))) ! 1 = dst"
  proof -
    have "length (dm_instructions d) = 2" using arg_cong [OF d(7), of length] by simp
    then show ?thesis using arg_cong [OF d(7), of "\<lambda>xs. xs ! 1"] by simp
  qed
  moreover have "hd (dm_keys d) = replicate 31 0 @ [1]" using d(1,6) data by simp
  moreover have "read_transaction (sx_data stx) = Some ([replicate 64 3], ut_data u)" using d(4) sig by simp
  moreover have "associated_account (se_sha256 sample_sol_env) (\<lambda>_. False) (replicate 31 0 @ [2]) (replicate 31 0 @ [3]) = Some dst" using d(2,3,8) data by simp
  ultimately show ?thesis using build sign d(5)
    by - (rule exI [of _ u], rule exI [of _ c], rule exI [of _ stx], rule exI [of _ d], rule exI [of _ dst], intro conjI, assumption+)
qed

end
