(* ===== verification/Wallet.thy ===== *)
theory Wallet
  imports Ethereum Solana Bridge
begin

text \<open>
  The wallet: keys and their encryption (src/wallet/signing.rs, solana_signing.rs), the tables of wallets and
  transactions (repository.rs), the service that creates wallets and sends settlements through a chain
  adapter (service.rs), and the worker that follows submitted transactions (confirmation.rs). The state is the
  database and the state of the network clients; the adapters are arbitrary until the end, where those of
  main.rs are used. AES-GCM, the curves and the hashes are fields of the environment, random bytes are arguments.
\<close>

section \<open>Keys\<close>

record ('k, 'v) wallet_env =
  we_now :: timestamp
  we_age_secs :: "timestamp \<Rightarrow> timestamp \<Rightarrow> i64"
  we_master_key :: bytes
  we_keccak :: "bytes \<Rightarrow> bytes"
  we_secp :: "('k, 'v) secp"
  we_hex_encode :: "bytes \<Rightarrow> string"
  we_ed_public :: "bytes \<Rightarrow> bytes"
  we_aes_encrypt :: "bytes \<Rightarrow> bytes \<Rightarrow> bytes \<Rightarrow> bytes"
  we_aes_decrypt :: "bytes \<Rightarrow> bytes \<Rightarrow> bytes \<Rightarrow> string + bytes"

definition derive_address :: "('k, 'v) wallet_env \<Rightarrow> 'v \<Rightarrow> string" where
  "derive_address env vk = ''0x'' @ we_hex_encode env (drop 12 (we_keccak env (drop 1 (sc_point (we_secp env) vk))))"

text \<open>The random key is an argument.\<close>

definition generate_keypair :: "('k, 'v) wallet_env \<Rightarrow> 'k \<Rightarrow> bytes \<times> string" where
  "generate_keypair env signing_key =
     (sc_key_bytes (we_secp env) signing_key, derive_address env (sc_verifying_key (we_secp env) signing_key))"

definition sol_generate_keypair :: "('k, 'v) wallet_env \<Rightarrow> bytes \<Rightarrow> bytes \<times> string" where
  "sol_generate_keypair env seed = (seed, bs58_encode (we_ed_public env seed))"

definition encrypt_key :: "('k, 'v) wallet_env \<Rightarrow> bytes \<Rightarrow> bytes \<Rightarrow> bytes \<times> bytes" where
  "encrypt_key env nonce_bytes private_key = (we_aes_encrypt env (we_master_key env) nonce_bytes private_key, nonce_bytes)"

definition decrypt_with :: "('k, 'v) wallet_env \<Rightarrow> string \<Rightarrow> bytes \<Rightarrow> bytes \<Rightarrow> string + bytes" where
  "decrypt_with env wrong_length ciphertext nonce =
     (case we_aes_decrypt env (we_master_key env) nonce ciphertext of
        Inl e \<Rightarrow> Inl (''Decryption failed: '' @ e)
      | Inr plaintext \<Rightarrow> if length plaintext = 32 then Inr plaintext else Inl wrong_length)"

definition decrypt_key :: "('k, 'v) wallet_env \<Rightarrow> bytes \<Rightarrow> bytes \<Rightarrow> string + bytes" where
  "decrypt_key env = decrypt_with env ''Decrypted key has wrong length''"

definition decrypt_seed :: "('k, 'v) wallet_env \<Rightarrow> bytes \<Rightarrow> bytes \<Rightarrow> string + bytes" where
  "decrypt_seed env = decrypt_with env ''Decrypted seed has wrong length''"

section \<open>The repository\<close>

definition insert_wallet :: "wallet \<Rightarrow> unit dbm" where
  "insert_wallet w = sql_exec (\<lambda>s.
     if wa_id w \<in> wa_id ` set (db_wallets s) \<or> wa_address w \<in> wa_address ` set (db_wallets s) then Inl UniqueViolation
     else Inr ((), s\<lparr>db_wallets := db_wallets s @ [w]\<rparr>))"

definition find_wallet :: "uuid \<Rightarrow> wallet option dbm" where
  "find_wallet i = sql_query (\<lambda>s. find (\<lambda>w. wa_id w = i) (db_wallets s))"

definition find_wallet_by_account :: "uuid \<Rightarrow> wallet list dbm" where
  "find_wallet_by_account a = sql_query (\<lambda>s. sort_key wa_created_at (filter (\<lambda>w. wa_account_id w = a \<and> wa_active w) (db_wallets s)))"

definition find_wallet_by_address :: "string \<Rightarrow> wallet option dbm" where
  "find_wallet_by_address a = sql_query (\<lambda>s. find (\<lambda>w. wa_address w = a \<and> wa_active w) (db_wallets s))"

definition insert_transaction :: "transaction_record \<Rightarrow> unit dbm" where
  "insert_transaction t = sql_exec (\<lambda>s.
     if tx_fill_id t \<notin> insert None (Some ` fi_id ` set (db_fills s)) then Inl ForeignKeyViolation
     else if tx_id t \<in> tx_id ` set (db_transactions s) then Inl UniqueViolation
     else Inr ((), s\<lparr>db_transactions := db_transactions s @ [t]\<rparr>))"

definition find_transaction :: "uuid \<Rightarrow> transaction_record option dbm" where
  "find_transaction i = sql_query (\<lambda>s. find (\<lambda>t. tx_id t = i) (db_transactions s))"

definition find_transactions_by_fill :: "uuid \<Rightarrow> transaction_record list dbm" where
  "find_transactions_by_fill i = sql_query (\<lambda>s. sort_key tx_created_at (filter (\<lambda>t. tx_fill_id t = Some i) (db_transactions s)))"

definition open_transactions :: "transaction_record list \<Rightarrow> transaction_record list" where
  "open_transactions ts = take 100 (sort_key tx_created_at (filter (\<lambda>t. tx_status t = TsPending \<or> tx_status t = TsSubmitted) ts))"

definition find_pending_transactions :: "transaction_record list dbm" where
  "find_pending_transactions = sql_query (\<lambda>s. open_transactions (db_transactions s))"

definition update_tx :: "uuid \<Rightarrow> (transaction_record \<Rightarrow> transaction_record) \<Rightarrow> unit dbm" where
  "update_tx i f = sql_update (\<lambda>s. s\<lparr>db_transactions := map (\<lambda>t. if tx_id t = i then f t else t) (db_transactions s)\<rparr>)"

definition update_tx_submitted :: "timestamp \<Rightarrow> uuid \<Rightarrow> string \<Rightarrow> i64 \<Rightarrow> unit dbm" where
  "update_tx_submitted now i tx_hash price =
     update_tx i (\<lambda>t. t\<lparr>tx_status := TsSubmitted, tx_tx_hash := Some tx_hash, tx_gas_price := Some price, tx_submitted_at := Some now\<rparr>)"

definition update_tx_confirmed :: "timestamp \<Rightarrow> uuid \<Rightarrow> i64 \<Rightarrow> i64 \<Rightarrow> int \<Rightarrow> unit dbm" where
  "update_tx_confirmed now i block_number gas_used confirmations =
     update_tx i (\<lambda>t. t\<lparr>tx_status := TsConfirmed, tx_block_number := Some block_number, tx_gas_used := Some gas_used,
       tx_confirmations := confirmations, tx_confirmed_at := Some now\<rparr>)"

definition update_tx_failed :: "uuid \<Rightarrow> string \<Rightarrow> unit dbm" where
  "update_tx_failed i error = update_tx i (\<lambda>t. t\<lparr>tx_status := TsFailed, tx_error := Some error\<rparr>)"

definition increment_confirmations :: "uuid \<Rightarrow> int \<Rightarrow> unit dbm" where
  "increment_confirmations i confirmations = update_tx i (\<lambda>t. t\<lparr>tx_confirmations := confirmations\<rparr>)"

definition update_tx_dropped :: "uuid \<Rightarrow> string \<Rightarrow> unit dbm" where
  "update_tx_dropped i reason = update_tx i (\<lambda>t. t\<lparr>tx_status := TsDropped, tx_error := Some reason\<rparr>)"

definition mark_fill_on_chain_settled :: "uuid \<Rightarrow> string \<Rightarrow> unit dbm" where
  "mark_fill_on_chain_settled fill_id tx_hash =
     sql_update (\<lambda>s. s\<lparr>db_fills := map (\<lambda>f. if fi_id f = fill_id \<and> fi_tx_hash f = [] then f\<lparr>fi_tx_hash := tx_hash\<rparr> else f) (db_fills s)\<rparr>)"

section \<open>The service\<close>

record 'n wallet_world =
  ww_db :: pgdb
  ww_net :: 'n

datatype wallet_error = WalletNotFound | SigningError string | WalletRpcError string | UnsupportedChain string | WalletDbError sqlx_error

type_synonym ('n, 'e, 'a) wallet_action = "('n wallet_world, 'e, 'a) action"

definition in_db :: "(pgdb, 'e, 'a) action \<Rightarrow> ('n, 'e, 'a) wallet_action" where
  "in_db m w = (case m (ww_db w) of (r, s) \<Rightarrow> (r, w\<lparr>ww_db := s\<rparr>))"

definition on_net :: "('n, 'e, 'a) action \<Rightarrow> ('n, 'e, 'a) wallet_action" where
  "on_net m w = (case m (ww_net w) of (r, n) \<Rightarrow> (r, w\<lparr>ww_net := n\<rparr>))"

definition from_chain_error :: "chain_error \<Rightarrow> wallet_error" where
  "from_chain_error e = (case e of ChainRpc m \<Rightarrow> WalletRpcError m | ChainSigning m \<Rightarrow> SigningError m
     | ChainUnsupported m \<Rightarrow> UnsupportedChain m | ChainOther m \<Rightarrow> WalletRpcError m)"

definition adapter :: "'n chain_registry \<Rightarrow> string \<Rightarrow> wallet_error + 'n chain_adapter" where
  "adapter reg chain = map_sum (\<lambda>e. UnsupportedChain (chain_error_text e)) id (get_chain reg chain)"

text \<open>The random choices of a new wallet: a seed, a key, and the nonce of the encryption.\<close>

definition create_wallet ::
  "('k, 'v) wallet_env \<Rightarrow> 'n chain_registry \<Rightarrow> bytes \<Rightarrow> 'k \<Rightarrow> bytes \<Rightarrow> uuid \<Rightarrow> string \<Rightarrow> ('n, wallet_error, wallet) wallet_action" where
  "create_wallet env reg random_seed random_key random_nonce account_id chain =
     bindA (liftR (adapter reg chain)) (\<lambda>_.
     let (seed, address) = (if chain = ''solana'' then sol_generate_keypair env random_seed else generate_keypair env random_key);
         (encrypted_key, nonce) = encrypt_key env random_nonce seed
     in bindA (in_db new_uuid) (\<lambda>i.
        let w = \<lparr>wa_id = i, wa_account_id = account_id, wa_address = address, wa_chain = chain, wa_encrypted_key = encrypted_key,
                 wa_nonce = nonce, wa_active = True, wa_created_at = we_now env\<rparr>
        in seqA (in_db (map_errA WalletDbError (insert_wallet w))) (returnA w)))"

definition decrypt_wallet_key :: "('k, 'v) wallet_env \<Rightarrow> wallet \<Rightarrow> wallet_error + bytes" where
  "decrypt_wallet_key env w =
     map_sum SigningError id
       ((if wa_chain w = ''solana'' then decrypt_seed else decrypt_key) env (wa_encrypted_key w) (wa_nonce w))"

definition new_transaction :: "timestamp \<Rightarrow> uuid \<Rightarrow> uuid \<Rightarrow> wallet \<Rightarrow> string \<Rightarrow> i64 \<Rightarrow> string \<Rightarrow> transaction_record" where
  "new_transaction now i fill_id w to_address amount asset =
     \<lparr>tx_id = i, tx_fill_id = Some fill_id, tx_from_address = wa_address w, tx_to_address = to_address, tx_chain = wa_chain w,
      tx_tx_hash = None, tx_amount = amount, tx_asset = asset, tx_status = TsPending, tx_gas_price = None, tx_gas_used = None,
      tx_block_number = None, tx_confirmations = 0, tx_error = None, tx_submitted_at = None, tx_confirmed_at = None, tx_created_at = now\<rparr>"

text \<open>Sending a transaction that is recorded as pending, and recording the outcome.\<close>

definition send_recorded ::
  "('k, 'v) wallet_env \<Rightarrow> 'n chain_adapter \<Rightarrow> settlement_data \<Rightarrow> signed_tx \<Rightarrow> transaction_record \<Rightarrow> ('n, wallet_error, transaction_record) wallet_action" where
  "send_recorded env a data signed_tx tx_record =
     bindA (tryA (on_net (ca_send_transaction a signed_tx))) (\<lambda>sent.
     case sent of
       Inr tx_hash \<Rightarrow>
         bindA (tryA (on_net (ca_estimate_fees a data))) (\<lambda>fee.
         let price = (case fee of Inr f \<Rightarrow> sint (fe_total f) | Inl (_ :: chain_error) \<Rightarrow> 0) in
         seqA (in_db (map_errA WalletDbError (update_tx_submitted (we_now env) (tx_id tx_record) tx_hash price)))
         (returnA (tx_record\<lparr>tx_tx_hash := Some tx_hash, tx_status := TsSubmitted, tx_gas_price := Some price, tx_submitted_at := Some (we_now env)\<rparr>)))
     | Inl e \<Rightarrow>
         seqA (in_db (map_errA WalletDbError (update_tx_failed (tx_id tx_record) (chain_error_text e))))
         (raiseA (WalletRpcError (chain_error_text e))))"

definition send_settlement_tx ::
  "('k, 'v) wallet_env \<Rightarrow> 'n chain_registry \<Rightarrow> uuid \<Rightarrow> wallet \<Rightarrow> string \<Rightarrow> i64 \<Rightarrow> string \<Rightarrow> ('n, wallet_error, transaction_record) wallet_action" where
  "send_settlement_tx env reg fill_id from_wallet to_address amount asset =
     bindA (liftR (adapter reg (wa_chain from_wallet))) (\<lambda>a.
     bindA (liftR (decrypt_wallet_key env from_wallet)) (\<lambda>private_key.
     let data = \<lparr>sd_from = wa_address from_wallet, sd_to = to_address, sd_amount = word_of_int amount, sd_token = asset, sd_chain = wa_chain from_wallet\<rparr> in
     bindA (map_errA from_chain_error (on_net (ca_build_settlement_tx a data))) (\<lambda>unsigned_tx.
     bindA (liftR (map_sum from_chain_error id (ca_sign_transaction a unsigned_tx private_key))) (\<lambda>signed_tx.
     bindA (in_db new_uuid) (\<lambda>i.
     let tx_record = new_transaction (we_now env) i fill_id from_wallet to_address amount asset in
     seqA (in_db (map_errA WalletDbError (insert_transaction tx_record)))
     (send_recorded env a data signed_tx tx_record))))))"

section \<open>The confirmation worker\<close>

definition BATCH_SIZE :: nat where "BATCH_SIZE = 100"

datatype tx_outcome = OutConfirmed | OutFailed | OutDropped | OutPending | OutSkipped

definition update_execution_status :: "uuid \<Rightarrow> string \<Rightarrow> unit dbm" where
  "update_execution_status fill_id tx_hash =
     sql_update (\<lambda>s.
       case find (\<lambda>f. fi_id f = fill_id) (db_fills s) of
         None \<Rightarrow> s
       | Some f \<Rightarrow> s\<lparr>db_executions := map (\<lambda>x. if ex_intent_id x = fi_intent_id f \<and> ex_status x \<noteq> ExecCompleted
            then x\<lparr>ex_status := ExecCompleted, ex_tx_hash := tx_hash\<rparr> else x) (db_executions s)\<rparr>)"

definition post_confirmation :: "transaction_record \<Rightarrow> string \<Rightarrow> (pgdb, 'e, unit) action" where
  "post_confirmation tx tx_hash =
     (case tx_fill_id tx of
        None \<Rightarrow> returnA ()
      | Some fill_id \<Rightarrow>
          seqA (ignoreA (mark_fill_on_chain_settled fill_id tx_hash)) (ignoreA (update_execution_status fill_id tx_hash)))"

definition handle_confirmed ::
  "('k, 'v) wallet_env \<Rightarrow> transaction_record \<Rightarrow> string \<Rightarrow> u64 \<Rightarrow> u32 \<Rightarrow> u32 \<Rightarrow> (pgdb, 'e, tx_outcome) action" where
  "handle_confirmed env tx tx_hash block confirmations required =
     (if required \<le> confirmations
      then bindA (tryA (update_tx_confirmed (we_now env) (tx_id tx) (sint block)
             (case tx_gas_used tx of Some g \<Rightarrow> g | None \<Rightarrow> 0) (sint confirmations))) (\<lambda>r.
        case r of
          Inl (_ :: sqlx_error) \<Rightarrow> returnA OutPending
        | Inr _ \<Rightarrow> seqA (post_confirmation tx tx_hash) (returnA OutConfirmed))
      else seqA (ignoreA (increment_confirmations (tx_id tx) (sint confirmations))) (returnA OutPending))"

definition handle_failed :: "transaction_record \<Rightarrow> string \<Rightarrow> (pgdb, 'e, tx_outcome) action" where
  "handle_failed tx reason = seqA (ignoreA (update_tx_failed (tx_id tx) reason)) (returnA OutFailed)"

definition handle_pending :: "('k, 'v) wallet_env \<Rightarrow> transaction_record \<Rightarrow> i64 \<Rightarrow> (pgdb, 'e, tx_outcome) action" where
  "handle_pending env tx drop_timeout =
     (case tx_submitted_at tx of
        None \<Rightarrow> returnA OutPending
      | Some submitted \<Rightarrow>
          let age_secs = we_age_secs env (we_now env) submitted in
          if age_secs \<le> drop_timeout then returnA OutPending
          else seqA (ignoreA (update_tx_dropped (tx_id tx)
            (''No receipt after '' @ show_int age_secs @ ''s (chain drop timeout: '' @ show_int drop_timeout @ ''s)''))) (returnA OutDropped))"

definition process_tx :: "('k, 'v) wallet_env \<Rightarrow> 'n chain_registry \<Rightarrow> transaction_record \<Rightarrow> ('n, 'e, tx_outcome) wallet_action" where
  "process_tx env reg tx =
     (if tx_status tx \<noteq> TsSubmitted then returnA OutSkipped
      else case tx_tx_hash tx of
        None \<Rightarrow> returnA OutSkipped
      | Some tx_hash \<Rightarrow>
          (case get_chain reg (tx_chain tx) of
             Inl _ \<Rightarrow> returnA OutSkipped
           | Inr a \<Rightarrow>
               bindA (tryA (on_net (ca_get_transaction_status a tx_hash))) (\<lambda>r.
               case r of
                 Inr (TxConfirmed block confirmations) \<Rightarrow>
                   in_db (handle_confirmed env tx tx_hash block confirmations (ca_required_confirmations a))
               | Inr (TxFailed reason) \<Rightarrow> in_db (handle_failed tx reason)
               | Inr TxPending \<Rightarrow> in_db (handle_pending env tx (ca_drop_timeout_secs a))
               | Inl (_ :: chain_error) \<Rightarrow> returnA OutPending)))"

text \<open>The counts of the outcomes are only logged.\<close>

definition poll_cycle :: "('k, 'v) wallet_env \<Rightarrow> 'n chain_registry \<Rightarrow> ('n, wallet_error, unit) wallet_action" where
  "poll_cycle env reg =
     bindA (in_db (map_errA WalletDbError find_pending_transactions)) (\<lambda>pending.
     for_eachA (\<lambda>tx. ignoreA (process_tx env reg tx :: ('n, wallet_error, tx_outcome) wallet_action)) (take BATCH_SIZE pending))"

section \<open>The life cycle of a transaction\<close>

fun later_status :: "tx_status \<Rightarrow> tx_status set" where
  "later_status TsPending = {TsSubmitted, TsConfirmed, TsFailed, TsDropped}"
| "later_status TsSubmitted = {TsConfirmed, TsFailed, TsDropped}"
| "later_status _ = {}"

definition same_payment :: "transaction_record \<Rightarrow> transaction_record \<Rightarrow> bool" where
  "same_payment t u \<longleftrightarrow> tx_id u = tx_id t \<and> tx_fill_id u = tx_fill_id t \<and> tx_from_address u = tx_from_address t \<and>
     tx_to_address u = tx_to_address t \<and> tx_chain u = tx_chain t \<and> tx_amount u = tx_amount t \<and> tx_asset u = tx_asset t \<and> tx_created_at u = tx_created_at t"

text \<open>The chain of a transaction can answer that it knows nothing of it.\<close>

definition reports_pending :: "'n chain_registry \<Rightarrow> string \<Rightarrow> bool" where
  "reports_pending reg chain \<longleftrightarrow> (\<exists>a tx_hash n n'. get_chain reg chain = Inr a \<and> ca_get_transaction_status a tx_hash n = (Inr TxPending, n'))"

text \<open>What the columns of a transaction say about each other, and about the adapter of its chain.\<close>

definition tx_ok :: "'n chain_registry \<Rightarrow> transaction_record \<Rightarrow> bool" where
  "tx_ok reg t \<longleftrightarrow>
     (tx_status t = TsPending \<longrightarrow> tx_tx_hash t = None \<and> tx_submitted_at t = None) \<and>
     (tx_status t \<in> {TsSubmitted, TsConfirmed, TsDropped} \<longrightarrow> tx_tx_hash t \<noteq> None \<and> tx_submitted_at t \<noteq> None) \<and>
     (tx_status t \<in> {TsFailed, TsDropped} \<longrightarrow> tx_error t \<noteq> None) \<and>
     (tx_status t = TsConfirmed \<longleftrightarrow> tx_confirmed_at t \<noteq> None) \<and>
     (tx_status t = TsConfirmed \<longrightarrow> tx_block_number t \<noteq> None \<and>
        (\<exists>a c. get_chain reg (tx_chain t) = Inr a \<and> ca_required_confirmations a \<le> c \<and> tx_confirmations t = sint c)) \<and>
     (tx_status t = TsDropped \<longrightarrow> reports_pending reg (tx_chain t))"

definition tx_moves :: "'n chain_registry \<Rightarrow> transaction_record \<Rightarrow> transaction_record \<Rightarrow> bool" where
  "tx_moves reg t u \<longleftrightarrow> same_payment t u \<and> tx_status u \<in> insert (tx_status t) (later_status (tx_status t)) \<and>
     (later_status (tx_status t) = {} \<longrightarrow> u = t) \<and> (tx_ok reg t \<longrightarrow> tx_ok reg u)"

lemma later_status_trans: "b \<in> insert a (later_status a) \<Longrightarrow> c \<in> insert b (later_status b) \<Longrightarrow> c \<in> insert a (later_status a)"
  by (cases a; cases b) auto

interpretation txs: row_order "tx_moves reg" "tx_ok reg" for reg
proof
  show "tx_moves reg x x" for x by (simp add: tx_moves_def same_payment_def)
  show "tx_moves reg x z" if "tx_moves reg x y" "tx_moves reg y z" for x y z
    using that later_status_trans [of "tx_status y" "tx_status x" "tx_status z"] by (auto simp: tx_moves_def same_payment_def)
  show "tx_moves reg x y \<Longrightarrow> tx_ok reg x \<Longrightarrow> tx_ok reg y" for x y by (simp add: tx_moves_def)
qed

definition txs_evolve :: "'n chain_registry \<Rightarrow> transaction_record list \<Rightarrow> pgdb \<Rightarrow> bool" where
  "txs_evolve reg ts s \<longleftrightarrow> distinct (map tx_id (db_transactions s)) \<and> rows_evolve (tx_moves reg) (tx_ok reg) ts (db_transactions s)"

text \<open>The rows of \<open>s\<close> with other identifiers are still there in \<open>t\<close>.\<close>

definition keeps_others :: "uuid \<Rightarrow> pgdb \<Rightarrow> pgdb \<Rightarrow> bool" where
  "keeps_others i s t \<longleftrightarrow> (\<forall>y\<in>set (db_transactions s). tx_id y \<noteq> i \<longrightarrow> y \<in> set (db_transactions t))"

lemma update_tx_evolves:
  assumes evolve: "txs_evolve reg ts s" and row: "x \<in> set (db_transactions s)" and move: "tx_moves reg x (f x)"
    and run: "update_tx (tx_id x) f s = (r, t)"
  shows "txs_evolve reg ts t" "keeps_others (tx_id x) s t"
proof -
  let ?rows = "map (\<lambda>y. if tx_id y = tx_id x then f y else y) (db_transactions s)"
  have unique: "y = x" if "y \<in> set (db_transactions s)" "tx_id y = tx_id x" for y
    using evolve row that by (auto simp: txs_evolve_def distinct_map dest: inj_onD)
  have "tx_id (f x) = tx_id x" using move by (simp add: tx_moves_def same_payment_def)
  then have "map tx_id ?rows = map tx_id (db_transactions s)" using unique by auto
  then have "distinct (map tx_id ?rows)" using evolve by (simp only: txs_evolve_def)
  moreover have "rows_evolve (tx_moves reg) (tx_ok reg) (db_transactions s) ?rows"
    using move unique by (intro txs.evolve_update) metis
  ultimately have "txs_evolve reg ts (s\<lparr>db_transactions := ?rows\<rparr>)"
    using evolve txs.evolve_trans [of reg ts "db_transactions s" ?rows] by (simp add: txs_evolve_def)
  moreover have "keeps_others (tx_id x) s (s\<lparr>db_transactions := ?rows\<rparr>)" by (auto simp: keeps_others_def)
  moreover have "db_transactions t = db_transactions s \<or> db_transactions t = ?rows"
    using run by (auto simp: update_tx_def sql_update_def sql_exec_def tick_def split: if_splits)
  ultimately show "txs_evolve reg ts t" "keeps_others (tx_id x) s t"
    using evolve by (auto simp: txs_evolve_def keeps_others_def)
qed

lemma other_tables: "db_transactions (snd (mark_fill_on_chain_settled f h s)) = db_transactions s" "db_transactions (snd (update_execution_status f h s)) = db_transactions s"
  by (simp_all add: mark_fill_on_chain_settled_def update_execution_status_def sql_update_def sql_exec_def tick_def split: option.splits)

lemma post_confirmation_rows: "post_confirmation x h s = (r, t) \<Longrightarrow> db_transactions t = db_transactions s"
  by (auto simp: post_confirmation_def action_evals other_tables split: option.splits)

section \<open>The worker follows it\<close>

lemma handle_confirmed_evolves:
  assumes "txs_evolve reg ts s" "x \<in> set (db_transactions s)" "tx_status x = TsSubmitted" "get_chain reg (tx_chain x) = Inr a"
    and run: "handle_confirmed env x h b c (ca_required_confirmations a) s = (r, t)"
  shows "txs_evolve reg ts t \<and> keeps_others (tx_id x) s t"
proof (cases "ca_required_confirmations a \<le> c")
  case True
  let ?f = "\<lambda>t. t\<lparr>tx_status := TsConfirmed, tx_block_number := Some (sint b), tx_gas_used := Some (case tx_gas_used x of Some g \<Rightarrow> g | None \<Rightarrow> 0),
       tx_confirmations := sint c, tx_confirmed_at := Some (we_now env)\<rparr>"
  obtain q u where u: "update_tx (tx_id x) ?f s = (q, u)" by fastforce
  have "tx_moves reg x (?f x)" using assms(3,4) True by (auto simp: tx_moves_def same_payment_def tx_ok_def)
  note step = update_tx_evolves [OF assms(1,2) this u]
  have "db_transactions t = db_transactions u"
    using run True u by (cases q) (auto simp: handle_confirmed_def update_tx_confirmed_def action_evals post_confirmation_rows split: prod.splits sum.splits)
  then show ?thesis using step by (simp add: txs_evolve_def keeps_others_def)
next
  case False
  let ?f = "\<lambda>t. t\<lparr>tx_confirmations := sint c\<rparr>"
  obtain q u where u: "update_tx (tx_id x) ?f s = (q, u)" by fastforce
  have "tx_moves reg x (?f x)" using assms(3) by (auto simp: tx_moves_def same_payment_def tx_ok_def)
  note step = update_tx_evolves [OF assms(1,2) this u]
  have "t = u" using run False u by (auto simp: handle_confirmed_def increment_confirmations_def action_evals)
  then show ?thesis using step by simp
qed

lemma handle_failed_evolves:
  assumes "txs_evolve reg ts s" "x \<in> set (db_transactions s)" "tx_status x = TsSubmitted" and run: "handle_failed x reason s = (r, t)"
  shows "txs_evolve reg ts t \<and> keeps_others (tx_id x) s t"
proof -
  let ?f = "\<lambda>t. t\<lparr>tx_status := TsFailed, tx_error := Some reason\<rparr>"
  obtain q u where u: "update_tx (tx_id x) ?f s = (q, u)" by fastforce
  have "tx_moves reg x (?f x)" using assms(3) by (auto simp: tx_moves_def same_payment_def tx_ok_def)
  note step = update_tx_evolves [OF assms(1,2) this u]
  have "t = u" using run u by (auto simp: handle_failed_def update_tx_failed_def action_evals)
  then show ?thesis using step by simp
qed

lemma handle_pending_evolves:
  assumes "txs_evolve reg ts s" "x \<in> set (db_transactions s)" "tx_status x = TsSubmitted" "reports_pending reg (tx_chain x)"
    and run: "handle_pending env x timeout s = (r, t)"
  shows "txs_evolve reg ts t \<and> keeps_others (tx_id x) s t"
proof (cases "t = s")
  case True
  then show ?thesis using assms(1) by (simp add: keeps_others_def)
next
  case False
  obtain reason where "t = snd (update_tx_dropped (tx_id x) reason s)"
  proof (rule that)
    let ?age = "we_age_secs env (we_now env) (the (tx_submitted_at x))"
    show "t = snd (update_tx_dropped (tx_id x) (''No receipt after '' @ show_int ?age @ ''s (chain drop timeout: '' @ show_int timeout @ ''s)'') s)"
      using False run by (auto simp: handle_pending_def action_evals Let_def split: option.splits if_splits)
  qed
  then have u: "update_tx (tx_id x) (\<lambda>t. t\<lparr>tx_status := TsDropped, tx_error := Some reason\<rparr>) s = (fst (update_tx_dropped (tx_id x) reason s), t)"
    by (simp add: update_tx_dropped_def)
  have "tx_moves reg x (x\<lparr>tx_status := TsDropped, tx_error := Some reason\<rparr>)" using assms(3,4) by (auto simp: tx_moves_def same_payment_def tx_ok_def)
  from update_tx_evolves [OF assms(1,2) this u] show ?thesis by simp
qed

lemma process_tx_evolves:
  assumes "txs_evolve reg ts (ww_db w)" "x \<in> set (db_transactions (ww_db w))" and run: "process_tx env reg x w = (r, v)"
  shows "txs_evolve reg ts (ww_db v) \<and> keeps_others (tx_id x) (ww_db w) (ww_db v)"
proof (cases "ww_db v = ww_db w")
  case True
  then show ?thesis using assms(1) by (simp add: keeps_others_def)
next
  case False
  obtain h a where x: "tx_status x = TsSubmitted" "tx_tx_hash x = Some h" "get_chain reg (tx_chain x) = Inr a"
    using False run by (auto simp: process_tx_def returnA_def split: if_splits option.splits sum.splits)
  obtain st n where st: "ca_get_transaction_status a h (ww_net w) = (st, n)" by fastforce
  show ?thesis
  proof (cases st)
    case (Inl e)
    then show ?thesis using False run x st by (auto simp: process_tx_def action_evals on_net_def)
  next
    case (Inr tst)
    note eval = process_tx_def action_evals on_net_def in_db_def
    show ?thesis
    proof (cases tst)
      case TxPending
      then have pending: "reports_pending reg (tx_chain x)" using x(3) st Inr unfolding reports_pending_def by blast
      show ?thesis using run x st Inr TxPending
        by (auto simp: eval split: prod.splits dest: handle_pending_evolves [OF assms(1,2) x(1) pending])
    next
      case (TxConfirmed b c)
      then show ?thesis using run x st Inr by (auto simp: eval split: prod.splits dest: handle_confirmed_evolves [OF assms(1,2) x(1,3)])
    next
      case (TxFailed reason)
      then show ?thesis using run x st Inr by (auto simp: eval split: prod.splits dest: handle_failed_evolves [OF assms(1,2) x(1)])
    qed
  qed
qed

lemma poll_rows_evolve:
  assumes "txs_evolve reg ts (ww_db w)" "set xs \<subseteq> set (db_transactions (ww_db w))" "distinct (map tx_id xs)"
    and "for_eachA (\<lambda>x. ignoreA (process_tx env reg x :: ('n, wallet_error, tx_outcome) wallet_action)) xs w = (r, v)"
  shows "txs_evolve reg ts (ww_db v)"
  using assms
proof (induction xs arbitrary: w)
  case Nil
  then show ?case by (simp add: returnA_def)
next
  case (Cons x xs)
  let ?u = "snd (process_tx env reg x w :: (wallet_error + tx_outcome) \<times> 'n wallet_world)"
  have "process_tx env reg x w = (fst (process_tx env reg x w :: (wallet_error + tx_outcome) \<times> 'n wallet_world), ?u)" by simp
  from process_tx_evolves [OF Cons.prems(1) _ this] Cons.prems(2)
  have u: "txs_evolve reg ts (ww_db ?u)" "keeps_others (tx_id x) (ww_db w) (ww_db ?u)" by simp_all
  have "set xs \<subseteq> set (db_transactions (ww_db ?u))"
  proof
    fix y assume "y \<in> set xs"
    then have "tx_id y \<noteq> tx_id x" "y \<in> set (db_transactions (ww_db w))" using Cons.prems(2,3) by (auto simp: image_iff)
    then show "y \<in> set (db_transactions (ww_db ?u))" using u(2) unfolding keeps_others_def by blast
  qed
  then show ?case using Cons.IH [OF u(1)] Cons.prems(3,4) by (auto simp: action_evals)
qed

section \<open>The service starts it\<close>

lemma poll_cycle_evolves:
  fixes w :: "'n wallet_world"
  assumes "txs_evolve reg ts (ww_db w)" and run: "poll_cycle env reg w = (r, v)"
  shows "txs_evolve reg ts (ww_db v)"
proof (cases "next_fault (ww_db w)")
  case True
  then have "ww_db v = tick (ww_db w)" using run by (auto simp: poll_cycle_def find_pending_transactions_def sql_query_def in_db_def action_evals)
  then show ?thesis using assms(1) by (simp add: txs_evolve_def tick_def)
next
  case False
  let ?w = "w\<lparr>ww_db := tick (ww_db w)\<rparr>" and ?xs = "take BATCH_SIZE (open_transactions (db_transactions (ww_db w)))"
  have loop: "for_eachA (\<lambda>x. ignoreA (process_tx env reg x :: ('n, wallet_error, tx_outcome) wallet_action)) ?xs ?w = (r, v)"
    using run False by (simp add: poll_cycle_def find_pending_transactions_def sql_query_def in_db_def action_evals)
  have sub: "set ?xs \<subseteq> set (db_transactions (ww_db w))"
    by (auto simp: open_transactions_def dest!: in_set_takeD)
  have "distinct (map tx_id (filter P (db_transactions (ww_db w))))" for P using assms(1) by (simp add: txs_evolve_def distinct_map_filter)
  then have "distinct (map tx_id (sort_key tx_created_at (filter P (db_transactions (ww_db w)))))" for P
    by (simp add: distinct_map)
  then have "distinct (map tx_id ?xs)" by (simp add: open_transactions_def take_map [symmetric])
  then show ?thesis using poll_rows_evolve [OF _ _ _ loop, of ts] sub assms(1) by (simp add: txs_evolve_def tick_def)
qed

lemma insert_transaction_evolves:
  assumes "txs_evolve reg ts s" "tx_ok reg x" and run: "insert_transaction x s = (q, t)"
  shows "txs_evolve reg ts t" "q = Inr () \<Longrightarrow> x \<in> set (db_transactions t)"
proof -
  have "db_transactions t = db_transactions s \<and> q \<noteq> Inr () \<or> tx_id x \<notin> tx_id ` set (db_transactions s) \<and> db_transactions t = db_transactions s @ [x]"
    using run by (auto simp: insert_transaction_def sql_exec_def tick_def split: if_splits)
  moreover have "rows_evolve (tx_moves reg) (tx_ok reg) ts (db_transactions s @ [x])"
    using assms(1,2) txs.evolve_trans [of reg ts "db_transactions s"] txs.evolve_insert [of reg x "db_transactions s"] by (simp add: txs_evolve_def)
  ultimately show "txs_evolve reg ts t" "q = Inr () \<Longrightarrow> x \<in> set (db_transactions t)"
    using assms(1) by (auto simp: txs_evolve_def)
qed

lemma on_net_db: "on_net m w = (r, v) \<Longrightarrow> ww_db v = ww_db w"
  by (auto simp: on_net_def split: prod.splits)

lemma submitted_moves:
  "tx_moves reg (new_transaction now i f w to n a) (new_transaction now i f w to n a\<lparr>tx_status := TsSubmitted, tx_tx_hash := Some h, tx_gas_price := Some p, tx_submitted_at := Some now\<rparr>)"
  "tx_moves reg (new_transaction now i f w to n a) (new_transaction now i f w to n a\<lparr>tx_status := TsFailed, tx_error := Some e\<rparr>)"
  "tx_ok reg (new_transaction now i f w to n a)"
  by (simp_all add: tx_moves_def same_payment_def tx_ok_def new_transaction_def)

lemma send_recorded_evolves:
  assumes "txs_evolve reg ts (ww_db w)" "x \<in> set (db_transactions (ww_db w))" "x = new_transaction (we_now env) i f wa to n asset"
    and run: "send_recorded env a data stx x w = (r, v)"
  shows "txs_evolve reg ts (ww_db v)"
proof -
  obtain sent n1 where s: "ca_send_transaction a stx (ww_net w) = (sent, n1)" by fastforce
  obtain fee n2 where fee: "ca_estimate_fees a data n1 = (fee, n2)" by fastforce
  have "\<exists>q g. update_tx (tx_id x) g (ww_db w) = (q, ww_db v) \<and> tx_moves reg x (g x)"
  proof (cases sent)
    case (Inl e)
    then show ?thesis
      using run s submitted_moves(2) [of reg "we_now env" i f wa to n asset "chain_error_text e"] assms(3)
      by (intro exI [of _ "fst (update_tx_failed (tx_id x) (chain_error_text e) (ww_db w))"] exI [of _ "\<lambda>t. t\<lparr>tx_status := TsFailed, tx_error := Some (chain_error_text e)\<rparr>"])
         (auto simp: send_recorded_def action_evals on_net_def in_db_def update_tx_failed_def split: prod.splits sum.splits)
  next
    case (Inr h)
    let ?p = "case fee of Inr f \<Rightarrow> sint (fe_total f) | Inl _ \<Rightarrow> 0"
    show ?thesis
      using run s Inr fee submitted_moves(1) [of reg "we_now env" i f wa to n asset ?p h] assms(3)
      by (intro exI [of _ "fst (update_tx_submitted (we_now env) (tx_id x) h ?p (ww_db w))"]
            exI [of _ "\<lambda>t. t\<lparr>tx_status := TsSubmitted, tx_tx_hash := Some h, tx_gas_price := Some ?p, tx_submitted_at := Some (we_now env)\<rparr>"])
         (auto simp: send_recorded_def action_evals on_net_def in_db_def update_tx_submitted_def Let_def split: prod.splits sum.splits)
  qed
  then show ?thesis using update_tx_evolves(1) [OF assms(1,2)] by blast
qed

lemma send_settlement_evolves:
  assumes "txs_evolve reg ts (ww_db w)" and run: "send_settlement_tx env reg fill_id from_wallet to_address amount asset w = (r, v)"
  shows "txs_evolve reg ts (ww_db v)"
proof (cases "ww_db v = ww_db w")
  case False
  let ?i = "db_next_uuid (ww_db w)" and ?s = "ww_db w\<lparr>db_next_uuid := Suc (db_next_uuid (ww_db w))\<rparr>"
  let ?x = "new_transaction (we_now env) ?i fill_id from_wallet to_address amount asset"
  obtain q t where ins: "insert_transaction ?x ?s = (q, t)" by fastforce
  have s: "txs_evolve reg ts ?s" using assms(1) by (simp add: txs_evolve_def)
  note step = insert_transaction_evolves [OF s submitted_moves(3) ins]
  obtain a data stx n where rest: "(case q of Inl e \<Rightarrow> (Inl (WalletDbError e), w\<lparr>ww_net := n, ww_db := t\<rparr>)
      | Inr _ \<Rightarrow> send_recorded env a data stx ?x (w\<lparr>ww_net := n, ww_db := t\<rparr>)) = (r, v)"
    using run False ins
    by (auto simp: send_settlement_tx_def Let_def action_evals liftR_def on_net_def in_db_def new_uuid_def split: sum.splits prod.splits)
  show ?thesis
  proof (cases q)
    case (Inl e)
    then show ?thesis using rest step by auto
  next
    case (Inr u)
    then show ?thesis using rest step send_recorded_evolves [of reg ts "w\<lparr>ww_net := n, ww_db := t\<rparr>", OF _ _ refl] by simp
  qed
qed (use assms(1) in simp)

section \<open>The machine of the wallet\<close>

text \<open>Calls of the service and rounds of the worker in any order, each at its own time; \<open>env\<close> gives the environment at a time.\<close>

inductive wallet_step :: "'n chain_registry \<Rightarrow> (timestamp \<Rightarrow> ('k, 'v) wallet_env) \<Rightarrow> 'n wallet_world \<Rightarrow> 'n wallet_world \<Rightarrow> bool" for reg env where
  ws_create: "wallet_step reg env w (snd (create_wallet (env now) reg seed key nonce account_id chain w))"
| ws_send: "wallet_step reg env w (snd (send_settlement_tx (env now) reg fill_id from_wallet to_address amount asset w))"
| ws_poll: "wallet_step reg env w (snd (poll_cycle (env now) reg w))"

lemma create_wallet_rows: "create_wallet env reg seed key nonce account chain w = (r, v) \<Longrightarrow> db_transactions (ww_db v) = db_transactions (ww_db w)"
  by (auto simp: create_wallet_def action_evals liftR_def in_db_def new_uuid_def insert_wallet_def sql_exec_def tick_def Let_def encrypt_key_def
      split: sum.splits prod.splits if_splits)

lemma wallet_step_evolves:
  assumes "wallet_step reg env w v" and "txs_evolve reg ts (ww_db w)"
  shows "txs_evolve reg ts (ww_db v)"
  using assms
proof cases
  case (ws_create now seed key nonce account chain)
  have "db_transactions (ww_db v) = db_transactions (ww_db w)" unfolding ws_create by (rule create_wallet_rows [OF prod.collapse [symmetric]])
  then show ?thesis using assms(2) by (simp add: txs_evolve_def)
next
  case (ws_send now f wa to n a)
  show ?thesis unfolding ws_send by (rule send_settlement_evolves [OF assms(2) prod.collapse [symmetric]])
next
  case (ws_poll now)
  show ?thesis unfolding ws_poll by (rule poll_cycle_evolves [OF assms(2) prod.collapse [symmetric]])
qed

interpretation wallet_machine: transition_system "\<lambda>w. db_transactions (ww_db w) = ts \<and> distinct (map tx_id ts)" "wallet_step reg env"
  "\<lambda>w. txs_evolve reg ts (ww_db w)" for ts reg env
proof
  show "txs_evolve reg ts (ww_db w)" if "db_transactions (ww_db w) = ts \<and> distinct (map tx_id ts)" for w
    using that by (simp add: txs_evolve_def txs.evolve_refl)
qed (rule wallet_step_evolves)

text \<open>
  C26. The records of on-chain transactions follow their life cycle, for any chain adapters: after any calls of the
  service and rounds of the worker, with any database failures and answers of the chains, no record is lost,
  its payment is unchanged, its status only moves forward from pending over submitted to confirmed, failed or
  dropped, and a final record never changes. A confirmed record has its hash, block and time, and at least
  as many confirmations as its chain requires; a dropped one has a chain that can report that it
  knows nothing of a transaction.
\<close>

theorem transactions_follow_life_cycle:
  assumes "(wallet_step reg env)\<^sup>*\<^sup>* w v" and "distinct (map tx_id (db_transactions (ww_db w)))"
  shows "(\<forall>t\<in>set (db_transactions (ww_db w)). \<exists>u\<in>set (db_transactions (ww_db v)). same_payment t u \<and>
      tx_status u \<in> insert (tx_status t) (later_status (tx_status t)) \<and> (tx_status t \<in> {TsConfirmed, TsFailed, TsDropped} \<longrightarrow> u = t)) \<and>
    (list_all (tx_ok reg) (db_transactions (ww_db w)) \<longrightarrow> list_all (tx_ok reg) (db_transactions (ww_db v)))"
proof -
  have "txs_evolve reg (db_transactions (ww_db w)) (ww_db v)" using wallet_machine.reachable_invar [OF _ assms(1)] assms(2) by blast
  then have rows: "rows_evolve (tx_moves reg) (tx_ok reg) (db_transactions (ww_db w)) (db_transactions (ww_db v))" by (simp add: txs_evolve_def)
  have "\<exists>u\<in>set (db_transactions (ww_db v)). same_payment t u \<and> tx_status u \<in> insert (tx_status t) (later_status (tx_status t)) \<and>
      (tx_status t \<in> {TsConfirmed, TsFailed, TsDropped} \<longrightarrow> u = t)" if "t \<in> set (db_transactions (ww_db w))" for t
    using txs.evolve_old [OF rows that] by (auto simp: tx_moves_def)
  then show ?thesis using txs.evolve_all [OF rows] by blast
qed

section \<open>The adapters of the server\<close>

record main_net =
  mn_ethereum :: rpc_client
  mn_solana :: sol_client

definition focus :: "('n \<Rightarrow> 'm) \<Rightarrow> ('m \<Rightarrow> 'n \<Rightarrow> 'n) \<Rightarrow> ('m, 'e, 'a) action \<Rightarrow> ('n, 'e, 'a) action" where
  "focus get put m n = (case m (get n) of (r, x) \<Rightarrow> (r, put x n))"

lemma focus_iff: "focus get put m n = (r, n') \<longleftrightarrow> (\<exists>x. m (get n) = (r, x) \<and> n' = put x n)"
  by (auto simp: focus_def split: prod.splits)

text \<open>An adapter with a client of its own, as part of the state of all clients.\<close>

definition focus_adapter :: "('n \<Rightarrow> 'm) \<Rightarrow> ('m \<Rightarrow> 'n \<Rightarrow> 'n) \<Rightarrow> 'm chain_adapter \<Rightarrow> 'n chain_adapter" where
  "focus_adapter get put a =
     \<lparr>ca_chain_name = ca_chain_name a, ca_required_confirmations = ca_required_confirmations a, ca_drop_timeout_secs = ca_drop_timeout_secs a,
      ca_send_transaction = (\<lambda>tx. focus get put (ca_send_transaction a tx)), ca_get_transaction_status = (\<lambda>h. focus get put (ca_get_transaction_status a h)),
      ca_estimate_fees = (\<lambda>d. focus get put (ca_estimate_fees a d)), ca_get_balance = (\<lambda>x t. focus get put (ca_get_balance a x t)),
      ca_build_settlement_tx = (\<lambda>d. focus get put (ca_build_settlement_tx a d)), ca_sign_transaction = ca_sign_transaction a\<rparr>"

definition main_chains :: "('k, 'v) eth_env \<Rightarrow> sol_env \<Rightarrow> main_net chain_registry" where
  "main_chains eth sol =
     register_chain (focus_adapter mn_solana (\<lambda>c n. n\<lparr>mn_solana := c\<rparr>) (solana_adapter sol))
       (register_chain (focus_adapter mn_ethereum (\<lambda>c n. n\<lparr>mn_ethereum := c\<rparr>) (ethereum_adapter eth)) ChainRegistry_new)"

lemma main_chains_ethereum:
  "get_chain (main_chains eth sol) ''ethereum'' = Inr (focus_adapter mn_ethereum (\<lambda>c n. n\<lparr>mn_ethereum := c\<rparr>) (ethereum_adapter eth))"
  by (simp add: main_chains_def register_chain_def get_chain_def ChainRegistry_new_def focus_adapter_def ethereum_adapter_def solana_adapter_def)

lemma ethereum_never_reports_pending:
  assumes "null_is_none (ee_net eth)"
  shows "\<not> reports_pending (main_chains eth sol) ''ethereum''"
proof
  assume "reports_pending (main_chains eth sol) ''ethereum''"
  then obtain h n' and n :: main_net where "eth_get_transaction_status eth h (mn_ethereum n) = (Inr TxPending, n')"
    unfolding reports_pending_def main_chains_ethereum
    by (auto simp: focus_adapter_def ethereum_adapter_def focus_iff)
  from returnsD [OF eth_never_pending [OF assms] this] show False by simp
qed

text \<open>
  C30. With the adapters that main.rs registers, no Ethereum transaction is ever marked as dropped, however long
  the chain knows nothing of it: the client turns the null answer for an unknown receipt into an error, and the worker
  asks again for ever. A confirmed Ethereum transaction has at least 12 confirmations.
\<close>

theorem ethereum_never_dropped:
  assumes "null_is_none (ee_net eth)" and "(wallet_step (main_chains eth sol) env)\<^sup>*\<^sup>* w v" and "db_transactions (ww_db w) = []"
    and "t \<in> set (db_transactions (ww_db v))" and "tx_chain t = ''ethereum''"
  shows "tx_status t \<noteq> TsDropped \<and> (tx_status t = TsConfirmed \<longrightarrow> (\<exists>c. 12 \<le> c \<and> tx_confirmations t = sint (c :: u32)))"
proof -
  have "txs_evolve (main_chains eth sol) [] (ww_db v)" using wallet_machine.reachable_invar [OF _ assms(2), of "[]"] assms(3) by simp
  then have "list_all (tx_ok (main_chains eth sol)) (db_transactions (ww_db v))"
    unfolding txs_evolve_def using txs.evolve_all by fastforce
  then have "tx_ok (main_chains eth sol) t" using assms(4) by (simp add: list_all_iff)
  then show ?thesis using ethereum_never_reports_pending [OF assms(1), of sol] assms(5) main_chains_ethereum [of eth sol]
    by (auto simp: tx_ok_def focus_adapter_def ethereum_adapter_def)
qed

section \<open>Starvation\<close>

lemma skip_pending: "tx_status x = TsPending \<Longrightarrow> process_tx env reg x = returnA OutSkipped"
  by (simp add: process_tx_def fun_eq_iff)

text \<open>
  The worker can starve: it reads the hundred oldest records that are pending or submitted, and only looks at submitted
  ones. When those hundred are pending (their sending failed after they were recorded, or before the hash was stored), a
  round does nothing but this query, whatever is in the table behind them.
\<close>

theorem pending_records_starve:
  fixes w :: "'n wallet_world"
  assumes "\<forall>x\<in>set (open_transactions (db_transactions (ww_db w))). tx_status x = TsPending"
  shows "snd (poll_cycle env reg w) = w\<lparr>ww_db := tick (ww_db w)\<rparr>"
proof -
  have "for_eachA (\<lambda>x. ignoreA (process_tx env reg x :: ('n, wallet_error, tx_outcome) wallet_action)) xs u = (Inr () :: wallet_error + unit, u)"
    if "\<forall>x\<in>set xs. tx_status x = TsPending" for xs and u :: "'n wallet_world"
    using that by (induction xs) (simp_all add: skip_pending action_evals)
  moreover have "\<forall>x\<in>set (take BATCH_SIZE (open_transactions (db_transactions (ww_db w)))). tx_status x = TsPending"
    using assms by (auto dest: in_set_takeD)
  ultimately have "for_eachA (\<lambda>x. ignoreA (process_tx env reg x :: ('n, wallet_error, tx_outcome) wallet_action))
      (take BATCH_SIZE (open_transactions (db_transactions (ww_db w)))) u = (Inr () :: wallet_error + unit, u)" for u :: "'n wallet_world" by blast
  then show ?thesis by (simp add: poll_cycle_def find_pending_transactions_def sql_query_def in_db_def action_evals)
qed

section \<open>Keys are kept\<close>

text \<open>
  A new wallet can use its key: the stored ciphertext decrypts to the key that was drawn, the stored address is
  that of the key (for Ethereum the address a node recovers from its signatures, for Solana the Base58 form of
  the public key), and the wallet is in the table.
\<close>

theorem created_wallet_key:
  assumes aes: "\<And>k n p. we_aes_decrypt env k n (we_aes_encrypt env k n p) = Inr p" and law: "secp_law (we_secp env)"
    and len: "length seed = 32" "length (sc_key_bytes (we_secp env) key) = 32"
    and run: "create_wallet env reg seed key nonce account chain w = (Inr wa, v)"
  shows "wa \<in> set (db_wallets (ww_db v)) \<and> wa_chain wa = chain \<and>
    (if chain = ''solana'' then decrypt_wallet_key env wa = Inr seed \<and> wa_address wa = bs58_encode (we_ed_public env seed)
     else decrypt_wallet_key env wa = Inr (sc_key_bytes (we_secp env) key) \<and>
       (\<exists>a. private_key_to_address (we_keccak env) (we_secp env) (sc_key_bytes (we_secp env) key) = Inr a \<and> wa_address wa = ''0x'' @ we_hex_encode env a))"
proof -
  have "sc_signing_key (we_secp env) (sc_key_bytes (we_secp env) key) = Inr key" using law by (simp add: secp_law_def)
  then show ?thesis using run aes len
    by (auto simp: create_wallet_def action_evals liftR_def in_db_def new_uuid_def insert_wallet_def sql_exec_def tick_def Let_def encrypt_key_def
        decrypt_wallet_key_def decrypt_key_def decrypt_seed_def decrypt_with_def generate_keypair_def sol_generate_keypair_def derive_address_def
        private_key_to_address_def pubkey_to_address_def split: sum.splits prod.splits if_splits)
qed

section \<open>Samples\<close>

definition sample_wallet_env :: "timestamp \<Rightarrow> (bytes, bytes) wallet_env" where
  "sample_wallet_env now = \<lparr>we_now = now, we_age_secs = (\<lambda>a b. a - b), we_master_key = replicate 32 1, we_keccak = sample_keccak, we_secp = sample_secp,
     we_hex_encode = (\<lambda>bs. replicate (2 * length bs) (CHR ''a'')), we_ed_public = (\<lambda>seed. seed), we_aes_encrypt = (\<lambda>k n p. p), we_aes_decrypt = (\<lambda>k n c. Inr c)\<rparr>"

definition sample_wallet :: wallet where
  "sample_wallet = \<lparr>wa_id = 1, wa_account_id = 2, wa_address = ''0x01'', wa_chain = ''ethereum'', wa_encrypted_key = replicate 32 7, wa_nonce = [],
     wa_active = True, wa_created_at = 0\<rparr>"

definition sample_wallet_world :: "main_net wallet_world" where
  "sample_wallet_world = \<lparr>ww_db = empty_db\<lparr>db_fills := [Fill_new 7 0 3 ''solver'' 1 1 1]\<rparr>,
     ww_net = \<lparr>mn_ethereum = RpcClient_new ''http://node'' 5, mn_solana = SolanaAdapter_new ''http://sol''\<rparr>\<rparr>"

lemma nine_null: "null_is_none (ee_net nine_env)"
  by (simp add: null_is_none_def nine_env_def nine_node_def)

abbreviation sample_chains :: "main_net chain_registry" where
  "sample_chains \<equiv> main_chains nine_env sample_sol_env"

text \<open>A settlement of the sample wallet is recorded and sent.\<close>

lemma sample_settlement:
  "\<exists>t. db_transactions (ww_db (snd (send_settlement_tx (sample_wallet_env 9) sample_chains 7 sample_wallet (sd_to nine_data) 700 (sd_token nine_data) sample_wallet_world))) = [t] \<and>
     tx_chain t = ''ethereum'' \<and> tx_status t = TsSubmitted"
proof -
  let ?c = "RpcClient_new ''http://node'' 5" and ?u = "\<lparr>ut_chain = ''ethereum'', ut_data = [1]\<rparr>"
  have c: "cb_state (rc_breaker ?c) = Closed" "rc_chain_id ?c = 5" by (simp_all add: RpcClient_new_def CircuitBreaker_new_def)
  obtain c1 where build: "eth_build_settlement_tx nine_env nine_data ?c = (Inr ?u, c1)" "cb_state (rc_breaker c1) = Closed" "rc_chain_id c1 = 5"
    using nine_settlement c unfolding nine_gives_def by blast
  obtain stx where sign: "eth_sign_transaction nine_env ?u (replicate 32 7) = Inr stx"
    by (simp add: eth_sign_transaction_def nine_env_def nine_tx_def sign_legacy_tx_def sign_hash_def sample_secp_def)
  have raw: "nine_gives (send_raw_transaction nine_node raw) ''0x9''" for raw
    unfolding send_raw_transaction_def by (rule nine_bind [OF nine_call]) (simp add: nine_pure)
  have "ee_net nine_env = nine_node" by (simp add: nine_env_def)
  then have "nine_gives (eth_send_transaction nine_env stx) ''0x9''"
    unfolding eth_send_transaction_def eth_send_attempts.simps by (simp only:) (rule nine_bind [OF nine_wrapped(1) [OF raw]], simp add: nine_pure)
  then obtain c2 where send: "eth_send_transaction nine_env stx c1 = (Inr ''0x9'', c2)" using build(2,3) unfolding nine_gives_def by blast
  have data: "nine_data = \<lparr>sd_from = ''0x01'', sd_to = sd_to nine_data, sd_amount = 700, sd_token = sd_token nine_data, sd_chain = ''ethereum''\<rparr>"
    by (simp add: nine_data_def)
  have key: "decrypt_wallet_key (sample_wallet_env 9) sample_wallet = Inr (replicate 32 7)"
    by (simp add: decrypt_wallet_key_def decrypt_key_def decrypt_with_def sample_wallet_def sample_wallet_env_def)
  obtain fee c3 where fees: "eth_estimate_fees nine_env nine_data c2 = (fee, c3)" by fastforce
  show ?thesis
    using build(1) sign send fees key data
    by (simp add: send_settlement_tx_def adapter_def main_chains_ethereum action_evals liftR_def Let_def on_net_def in_db_def focus_adapter_def focus_def
        ethereum_adapter_def sample_wallet_def sample_wallet_world_def new_uuid_def insert_transaction_def sql_exec_def next_fault_def tick_def empty_db_def
        Fill_new_def new_transaction_def send_recorded_def update_tx_submitted_def update_tx_def sql_update_def)
qed

theorem ethereum_never_dropped_witness:
  "\<exists>w v t. (wallet_step sample_chains sample_wallet_env)\<^sup>*\<^sup>* w v \<and> t \<in> set (db_transactions (ww_db v)) \<and> tx_chain t = ''ethereum'' \<and> tx_status t \<noteq> TsDropped"
proof -
  let ?v = "snd (send_settlement_tx (sample_wallet_env 9) sample_chains 7 sample_wallet (sd_to nine_data) 700 (sd_token nine_data) sample_wallet_world)"
  obtain t where t: "db_transactions (ww_db ?v) = [t]" "tx_chain t = ''ethereum''" using sample_settlement by blast
  have step: "(wallet_step sample_chains sample_wallet_env)\<^sup>*\<^sup>* sample_wallet_world ?v" by (intro r_into_rtranclp ws_send)
  have "tx_status t \<noteq> TsDropped"
    using ethereum_never_dropped [OF nine_null step _ _ t(2)] t(1) by (simp add: sample_wallet_world_def empty_db_def)
  then show ?thesis using step t by (intro exI [of _ sample_wallet_world] exI [of _ ?v] exI [of _ t]) simp
qed

theorem pending_records_starve_witness:
  "snd (poll_cycle (sample_wallet_env 9) sample_chains (sample_wallet_world\<lparr>ww_db := empty_db\<lparr>db_transactions := [new_transaction 0 1 2 sample_wallet [] 5 []]\<rparr>\<rparr>)) =
     sample_wallet_world\<lparr>ww_db := tick (empty_db\<lparr>db_transactions := [new_transaction 0 1 2 sample_wallet [] 5 []]\<rparr>)\<rparr>"
  using pending_records_starve [of "sample_wallet_world\<lparr>ww_db := empty_db\<lparr>db_transactions := [new_transaction 0 1 2 sample_wallet [] 5 []]\<rparr>\<rparr>"]
  by (simp add: open_transactions_def new_transaction_def)

theorem created_wallet_key_witness:
  "\<exists>wa v. create_wallet (sample_wallet_env 9) sample_chains (replicate 32 5) (replicate 32 7) [] 2 ''ethereum'' sample_wallet_world = (Inr wa, v) \<and>
     decrypt_wallet_key (sample_wallet_env 9) wa = Inr (replicate 32 7)"
proof -
  let ?env = "sample_wallet_env 9"
  obtain wa v where run: "create_wallet ?env sample_chains (replicate 32 5) (replicate 32 7) [] 2 ''ethereum'' sample_wallet_world = (Inr wa, v)"
    by (simp add: create_wallet_def adapter_def main_chains_ethereum action_evals liftR_def in_db_def new_uuid_def insert_wallet_def sql_exec_def next_fault_def
        sample_wallet_world_def empty_db_def Let_def encrypt_key_def generate_keypair_def)
  have "secp_law (we_secp ?env)" by (simp add: sample_wallet_env_def sample_secp_law)
  moreover have "we_aes_decrypt ?env k n (we_aes_encrypt ?env k n p) = Inr p" "sc_key_bytes (we_secp ?env) x = x" for k n p x
    by (simp_all add: sample_wallet_env_def sample_secp_def)
  ultimately have "decrypt_wallet_key ?env wa = Inr (replicate 32 7)"
    using created_wallet_key [OF _ _ _ _ run] by simp
  then show ?thesis using run by blast
qed

text \<open>A submitted transaction with twelve confirmations.\<close>

definition done_adapter :: "unit chain_adapter" where
  "done_adapter = \<lparr>ca_chain_name = ''done'', ca_required_confirmations = 12, ca_drop_timeout_secs = 600, ca_send_transaction = (\<lambda>tx. returnA []),
     ca_get_transaction_status = (\<lambda>h. returnA (TxConfirmed 5 12)), ca_estimate_fees = (\<lambda>d. raiseA (ChainOther [])), ca_get_balance = (\<lambda>a t. returnA 0),
     ca_build_settlement_tx = (\<lambda>d. returnA \<lparr>ut_chain = [], ut_data = []\<rparr>), ca_sign_transaction = (\<lambda>u k. Inl (ChainOther []))\<rparr>"

definition done_tx :: transaction_record where
  "done_tx = (new_transaction 0 1 2 (sample_wallet\<lparr>wa_chain := ''done''\<rparr>) [] 5 [])\<lparr>tx_status := TsSubmitted, tx_tx_hash := Some ''0x1'', tx_submitted_at := Some 0\<rparr>"

theorem transactions_follow_life_cycle_witness:
  "let w = \<lparr>ww_db = empty_db\<lparr>db_transactions := [done_tx]\<rparr>, ww_net = ()\<rparr>; v = snd (poll_cycle (sample_wallet_env 9) [''done'' \<mapsto> done_adapter] w) in
   map tx_status (db_transactions (ww_db v)) = [TsConfirmed] \<and> list_all (same_payment done_tx) (db_transactions (ww_db v))"
proof -
  let ?reg = "[''done'' \<mapsto> done_adapter]" and ?w = "\<lparr>ww_db = empty_db\<lparr>db_transactions := [done_tx]\<rparr>, ww_net = ()\<rparr>"
  let ?v = "snd (poll_cycle (sample_wallet_env 9) ?reg ?w)"
  have status: "map tx_status (db_transactions (ww_db ?v)) = [TsConfirmed]"
    by (simp add: poll_cycle_def find_pending_transactions_def open_transactions_def sql_query_def next_fault_def tick_def in_db_def action_evals empty_db_def
        done_tx_def new_transaction_def BATCH_SIZE_def process_tx_def get_chain_def on_net_def done_adapter_def handle_confirmed_def update_tx_confirmed_def
        update_tx_def sql_update_def sql_exec_def post_confirmation_def mark_fill_on_chain_settled_def update_execution_status_def sample_wallet_def)
  have step: "(wallet_step ?reg sample_wallet_env)\<^sup>*\<^sup>* ?w ?v" by (intro r_into_rtranclp ws_poll)
  have rows: "db_transactions (ww_db ?w) = [done_tx]" by simp
  obtain u where "u \<in> set (db_transactions (ww_db ?v))" "same_payment done_tx u"
    using transactions_follow_life_cycle [OF step] by (auto simp: rows)
  moreover have "length (db_transactions (ww_db ?v)) = 1" using arg_cong [OF status, of length] by simp
  ultimately have "list_all (same_payment done_tx) (db_transactions (ww_db ?v))" by (auto simp: length_Suc_conv)
  then show ?thesis using status by (simp add: Let_def)
qed

end
