(* ===== verification/Positions.thy ===== *)
theory Positions
  imports Database F64 Rust_Text
begin

text \<open>
  The position book of a solver (src/solver/positions.rs) and the bot that keeps it (src/bin/solver_bot.rs): the
  size of the position per asset, its average entry price and the profit realised on it. Arithmetic is that of
  \<open>i64\<close> in the program and of \<open>BIGINT\<close> in the database. The messages of the socket are JSON values; the random
  premium of a bid and the decoding of an intent are fields of the environment.
\<close>

record position_pnl =
  pp_solver_id :: string
  pp_asset :: string
  pp_position :: i64
  pp_avg_entry_price :: i64
  pp_current_price :: i64
  pp_unrealized_pnl :: i64
  pp_realized_pnl :: i64
  pp_total_pnl :: i64

section \<open>The book\<close>

abbreviation is_position :: "string \<Rightarrow> string \<Rightarrow> solver_position \<Rightarrow> bool" where
  "is_position solver_id asset p \<equiv> sp_solver_id p = solver_id \<and> sp_asset p = asset"

definition find_position :: "string \<Rightarrow> string \<Rightarrow> pgdb \<Rightarrow> solver_position option" where
  "find_position solver_id asset s = find (is_position solver_id asset) (db_positions s)"

text \<open>The order of texts is that of the collation of the database.\<close>

definition load_positions :: "(string \<Rightarrow> int) \<Rightarrow> string \<Rightarrow> solver_position list dbm" where
  "load_positions collation solver_id =
     sql_query (\<lambda>s. sort_key (\<lambda>p. collation (sp_asset p)) (filter (\<lambda>p. sp_solver_id p = solver_id) (db_positions s)))"

definition get_position :: "string \<Rightarrow> string \<Rightarrow> (pgdb, 'e, i64) action" where
  "get_position solver_id asset =
     bindA (tryA (sql_query (\<lambda>s. map_option sp_position (find_position solver_id asset s)))) (\<lambda>r.
     returnA (case r of Inr (Some n) \<Rightarrow> n | _ \<Rightarrow> 0))"

definition exposure :: "string \<Rightarrow> pgdb \<Rightarrow> int" where
  "exposure solver_id s = sum_list (map (\<lambda>p. \<bar>sp_position p\<bar>) (filter (\<lambda>p. sp_solver_id p = solver_id) (db_positions s)))"

definition get_total_exposure :: "string \<Rightarrow> (pgdb, 'e, i64) action" where
  "get_total_exposure solver_id =
     bindA (tryA (sql_sum (exposure solver_id))) (\<lambda>r. returnA (case r of Inr n \<Rightarrow> n | Inl _ \<Rightarrow> 0))"

definition check_limit :: "string \<Rightarrow> i64 \<Rightarrow> i64 \<Rightarrow> (pgdb, 'e, bool) action" where
  "check_limit solver_id amount max_position =
     bindA (get_total_exposure solver_id) (\<lambda>exp. returnA (wrap64 (exp + wrap64 \<bar>amount\<bar>) \<le> max_position))"

definition new_average :: "solver_position \<Rightarrow> i64 \<Rightarrow> i64 \<Rightarrow> i64" where
  "new_average pos qty price =
     (let new_position = wrap64 (sp_position pos + qty) in
      if new_position \<noteq> 0 \<and> (sgn (sp_position pos) = sgn qty \<or> sp_position pos = 0)
      then let total_cost = wrap64 (wrap64 (sp_avg_entry_price pos * wrap64 \<bar>sp_position pos\<bar>) + wrap64 (price * wrap64 \<bar>qty\<bar>))
           in rust_div total_cost (wrap64 \<bar>new_position\<bar>)
      else if new_position = 0 then 0
      else sp_avg_entry_price pos)"

definition closed_qty :: "solver_position \<Rightarrow> i64 \<Rightarrow> i64" where
  "closed_qty pos qty = (if sgn (sp_position pos) \<noteq> sgn qty then min (wrap64 \<bar>qty\<bar>) (wrap64 \<bar>sp_position pos\<bar>) else 0)"

text \<open>The update of a position; the database adds the realised profit and rejects an overflow.\<close>

definition update_position :: "timestamp \<Rightarrow> string \<Rightarrow> string \<Rightarrow> i64 \<Rightarrow> i64 \<Rightarrow> i64 \<Rightarrow> unit dbm" where
  "update_position now solver_id asset new_position new_avg realized =
     sql_exec (\<lambda>s.
       if list_all (\<lambda>p. is_position solver_id asset p \<longrightarrow> in_i64 (sp_realized_pnl p + realized)) (db_positions s)
       then Inr ((), s\<lparr>db_positions := map (\<lambda>p. if is_position solver_id asset p
              then p\<lparr>sp_position := new_position, sp_avg_entry_price := new_avg, sp_realized_pnl := sp_realized_pnl p + realized, sp_updated_at := now\<rparr>
              else p) (db_positions s)\<rparr>)
       else Inl NumericOutOfRange)"

definition insert_position :: "solver_position \<Rightarrow> unit dbm" where
  "insert_position p =
     sql_exec (\<lambda>s. if list_ex (is_position (sp_solver_id p) (sp_asset p)) (db_positions s) then Inl UniqueViolation
                   else Inr ((), s\<lparr>db_positions := db_positions s @ [p]\<rparr>))"

definition record_fill :: "timestamp \<Rightarrow> string \<Rightarrow> string \<Rightarrow> i64 \<Rightarrow> i64 \<Rightarrow> solver_position dbm" where
  "record_fill now solver_id asset qty price =
     bindA (sql_query (find_position solver_id asset)) (\<lambda>existing.
     case existing of
       Some pos \<Rightarrow>
         let new_position = wrap64 (sp_position pos + qty);
             new_avg = new_average pos qty price;
             realized = wrap64 (closed_qty pos qty * wrap64 (price - sp_avg_entry_price pos))
         in seqA (update_position now solver_id asset new_position new_avg realized)
            (returnA \<lparr>sp_solver_id = solver_id, sp_asset = asset, sp_position = new_position, sp_avg_entry_price = new_avg,
               sp_realized_pnl = wrap64 (sp_realized_pnl pos + realized), sp_updated_at = now\<rparr>)
     | None \<Rightarrow>
         let pos = \<lparr>sp_solver_id = solver_id, sp_asset = asset, sp_position = qty, sp_avg_entry_price = price,
                    sp_realized_pnl = 0, sp_updated_at = now\<rparr>
         in seqA (insert_position pos) (returnA pos))"

definition calculate_pnl :: "solver_position \<Rightarrow> i64 \<Rightarrow> position_pnl" where
  "calculate_pnl pos current_price =
     (let unrealized = (if sp_position pos \<noteq> 0 then wrap64 (sp_position pos * wrap64 (current_price - sp_avg_entry_price pos)) else 0)
      in \<lparr>pp_solver_id = sp_solver_id pos, pp_asset = sp_asset pos, pp_position = sp_position pos,
          pp_avg_entry_price = sp_avg_entry_price pos, pp_current_price = current_price, pp_unrealized_pnl = unrealized,
          pp_realized_pnl = sp_realized_pnl pos, pp_total_pnl = wrap64 (unrealized + sp_realized_pnl pos)\<rparr>)"

section \<open>Fills and profit\<close>

text \<open>A row and a fill that leave ample room below the 64-bit limits.\<close>

definition moderate :: "solver_position \<Rightarrow> i64 \<Rightarrow> i64 \<Rightarrow> bool" where
  "moderate p qty price \<longleftrightarrow> \<bar>sp_position p\<bar> \<le> 2 ^ 30 \<and> \<bar>sp_avg_entry_price p\<bar> \<le> 2 ^ 30 \<and> \<bar>sp_realized_pnl p\<bar> \<le> 2 ^ 60 \<and>
     0 \<le> sp_avg_entry_price p \<and> \<bar>qty\<bar> \<le> 2 ^ 30 \<and> 0 \<le> price \<and> \<bar>price\<bar> \<le> 2 ^ 30"

definition adds_to :: "solver_position \<Rightarrow> i64 \<Rightarrow> bool" where
  "adds_to pos qty \<longleftrightarrow> sgn (sp_position pos) = sgn qty \<or> sp_position pos = 0"

definition fill_cost :: "solver_position \<Rightarrow> i64 \<Rightarrow> i64 \<Rightarrow> int" where
  "fill_cost pos qty price = sp_avg_entry_price pos * \<bar>sp_position pos\<bar> + price * \<bar>qty\<bar>"

lemma adds_to_abs: "adds_to pos qty \<Longrightarrow> \<bar>sp_position pos + qty\<bar> = \<bar>sp_position pos\<bar> + \<bar>qty\<bar>"
  by (auto simp: adds_to_def sgn_if split: if_splits)

lemma fill_cost_bounds:
  assumes "moderate pos qty price"
  shows "0 \<le> fill_cost pos qty price" "fill_cost pos qty price \<le> 2 ^ 30 * (\<bar>sp_position pos\<bar> + \<bar>qty\<bar>)" "fill_cost pos qty price \<le> 2 ^ 61"
proof -
  have "sp_avg_entry_price pos * \<bar>sp_position pos\<bar> \<le> 2 ^ 30 * \<bar>sp_position pos\<bar>" "price * \<bar>qty\<bar> \<le> 2 ^ 30 * \<bar>qty\<bar>"
    using assms by (intro mult_right_mono; simp add: moderate_def)+
  then show *: "fill_cost pos qty price \<le> 2 ^ 30 * (\<bar>sp_position pos\<bar> + \<bar>qty\<bar>)" by (simp add: fill_cost_def algebra_simps)
  have "\<bar>sp_position pos\<bar> + \<bar>qty\<bar> \<le> 2 ^ 31" using assms by (simp add: moderate_def)
  with * show "fill_cost pos qty price \<le> 2 ^ 61" by simp
  show "0 \<le> fill_cost pos qty price" using assms by (simp add: fill_cost_def moderate_def)
qed

lemma fill_wraps:
  assumes "moderate pos qty price"
  shows "wrap64 (sp_position pos + qty) = sp_position pos + qty" "wrap64 (price - sp_avg_entry_price pos) = price - sp_avg_entry_price pos"
    "wrap64 \<bar>sp_position pos\<bar> = \<bar>sp_position pos\<bar>" "wrap64 \<bar>qty\<bar> = \<bar>qty\<bar>" "wrap64 \<bar>sp_position pos + qty\<bar> = \<bar>sp_position pos + qty\<bar>"
    "wrap64 (sp_avg_entry_price pos * \<bar>sp_position pos\<bar>) = sp_avg_entry_price pos * \<bar>sp_position pos\<bar>" "wrap64 (price * \<bar>qty\<bar>) = price * \<bar>qty\<bar>"
    "wrap64 (fill_cost pos qty price) = fill_cost pos qty price"
proof -
  note b = assms [unfolded moderate_def]
  have "\<bar>sp_avg_entry_price pos * \<bar>sp_position pos\<bar>\<bar> \<le> 2 ^ 30 * 2 ^ 30" "\<bar>price * \<bar>qty\<bar>\<bar> \<le> 2 ^ 30 * 2 ^ 30"
    using b by (intro abs_mult_le; simp)+
  then show "wrap64 (sp_avg_entry_price pos * \<bar>sp_position pos\<bar>) = sp_avg_entry_price pos * \<bar>sp_position pos\<bar>" "wrap64 (price * \<bar>qty\<bar>) = price * \<bar>qty\<bar>"
    by (intro wrap64_small; simp)+
  show "wrap64 (fill_cost pos qty price) = fill_cost pos qty price" using fill_cost_bounds [OF assms] by (intro wrap64_small) simp
qed (use assms in \<open>auto simp: moderate_def intro!: wrap64_small\<close>)

lemma new_average_small:
  assumes "moderate pos qty price"
  shows "new_average pos qty price =
    (if sp_position pos + qty = 0 then 0 else if adds_to pos qty then fill_cost pos qty price div \<bar>sp_position pos + qty\<bar> else sp_avg_entry_price pos)"
  using fill_wraps [OF assms] fill_cost_bounds [OF assms]
  by (simp add: new_average_def Let_def adds_to_def rust_div_nonneg flip: fill_cost_def)

lemma new_average_bounds:
  assumes "moderate pos qty price"
  shows "0 \<le> new_average pos qty price \<and> new_average pos qty price \<le> 2 ^ 30"
proof -
  have "fill_cost pos qty price div \<bar>sp_position pos + qty\<bar> \<le> 2 ^ 30" if "adds_to pos qty" "sp_position pos + qty \<noteq> 0"
    using div_le_bound [OF fill_cost_bounds(2) [OF assms]] that adds_to_abs [OF that(1)] by simp
  then show ?thesis using assms fill_cost_bounds(1) [OF assms]
    by (auto simp: new_average_small [OF assms] moderate_def pos_imp_zdiv_nonneg_iff)
qed

text \<open>Profit and loss at a price, without rounding.\<close>

lemma total_pnl_small:
  assumes "\<bar>sp_position p\<bar> \<le> 2 ^ 31" and "0 \<le> sp_avg_entry_price p" "sp_avg_entry_price p \<le> 2 ^ 30" and "0 \<le> price" "price \<le> 2 ^ 30"
    and "\<bar>sp_realized_pnl p\<bar> \<le> 2 ^ 61"
  shows "pp_total_pnl (calculate_pnl p price) = sp_position p * (price - sp_avg_entry_price p) + sp_realized_pnl p"
proof -
  have "\<bar>price - sp_avg_entry_price p\<bar> \<le> 2 ^ 30" using assms by simp
  then have "\<bar>sp_position p * (price - sp_avg_entry_price p)\<bar> \<le> 2 ^ 31 * 2 ^ 30" by (rule abs_mult_le [OF assms(1)])
  then have "\<bar>sp_position p * (price - sp_avg_entry_price p)\<bar> \<le> 2 ^ 61" by simp
  moreover from this have "\<bar>sp_position p * (price - sp_avg_entry_price p) + sp_realized_pnl p\<bar> \<le> 2 ^ 62" using assms(6) by simp
  ultimately show ?thesis using assms by (simp add: calculate_pnl_def Let_def wrap64_small)
qed

definition fill_slack :: "solver_position \<Rightarrow> i64 \<Rightarrow> i64 \<Rightarrow> int" where
  "fill_slack pos qty price =
     (if adds_to pos qty then sgn qty * (fill_cost pos qty price mod max 1 \<bar>sp_position pos + qty\<bar>)
      else (qty + min \<bar>qty\<bar> \<bar>sp_position pos\<bar>) * (price - sp_avg_entry_price pos))"

lemma realized_small:
  assumes "moderate pos qty price"
  shows "wrap64 (closed_qty pos qty * wrap64 (price - sp_avg_entry_price pos)) =
      (if sgn (sp_position pos) \<noteq> sgn qty then min \<bar>qty\<bar> \<bar>sp_position pos\<bar> else 0) * (price - sp_avg_entry_price pos)"
    and "\<bar>wrap64 (closed_qty pos qty * wrap64 (price - sp_avg_entry_price pos))\<bar> \<le> 2 ^ 60"
proof -
  let ?c = "if sgn (sp_position pos) \<noteq> sgn qty then min \<bar>qty\<bar> \<bar>sp_position pos\<bar> else 0"
  have c: "closed_qty pos qty = ?c" using fill_wraps [OF assms] by (simp add: closed_qty_def)
  have "\<bar>?c * (price - sp_avg_entry_price pos)\<bar> \<le> 2 ^ 30 * 2 ^ 30"
    using assms by (intro abs_mult_le) (auto simp: moderate_def)
  then have b: "\<bar>?c * (price - sp_avg_entry_price pos)\<bar> \<le> 2 ^ 60" by simp
  then show r: "wrap64 (closed_qty pos qty * wrap64 (price - sp_avg_entry_price pos)) = ?c * (price - sp_avg_entry_price pos)"
    unfolding c fill_wraps(2) [OF assms] by (intro wrap64_small) simp
  show "\<bar>wrap64 (closed_qty pos qty * wrap64 (price - sp_avg_entry_price pos))\<bar> \<le> 2 ^ 60" unfolding r by (rule b)
qed

text \<open>The accounts before and after a fill, exactly.\<close>

lemma fill_balance:
  assumes "moderate pos qty price"
  shows "(sp_position pos + qty) * (price - new_average pos qty price) +
      (if sgn (sp_position pos) \<noteq> sgn qty then min \<bar>qty\<bar> \<bar>sp_position pos\<bar> else 0) * (price - sp_avg_entry_price pos) =
    sp_position pos * (price - sp_avg_entry_price pos) + fill_slack pos qty price"
proof -
  let ?P = "sp_position pos" and ?a = "sp_avg_entry_price pos" and ?C = "fill_cost pos qty price"
  consider "?P + qty = 0" | "?P + qty \<noteq> 0" "adds_to pos qty" | "?P + qty \<noteq> 0" "\<not> adds_to pos qty" by blast
  then show ?thesis
  proof cases
    case 1
    then have "qty = - ?P" by simp
    then show ?thesis using assms
      by (auto simp: new_average_small fill_slack_def adds_to_def sgn_if algebra_simps)
  next
    case 2
    define N q where "N = ?P + qty" and "q = ?C div \<bar>N\<bar>"
    have n: "q * \<bar>N\<bar> = ?C - ?C mod \<bar>N\<bar>" by (simp add: q_def minus_mod_eq_div_mult)
    have s: "N = sgn qty * \<bar>N\<bar>" "?P = sgn qty * \<bar>?P\<bar>" "qty = sgn qty * \<bar>qty\<bar>"
      using 2 by (auto simp: N_def adds_to_def sgn_if split: if_splits)
    have "N * q = sgn qty * (q * \<bar>N\<bar>)" using s(1) by (metis mult.assoc mult.commute)
    also have "\<dots> = ?a * ?P + price * qty - sgn qty * (?C mod \<bar>N\<bar>)"
      unfolding n using s(2,3) by (simp add: fill_cost_def algebra_simps) 
    finally have "N * (price - q) = ?P * (price - ?a) + sgn qty * (?C mod \<bar>N\<bar>)" by (simp add: N_def algebra_simps)
    moreover have "(if sgn ?P \<noteq> sgn qty then min \<bar>qty\<bar> \<bar>?P\<bar> else 0) = 0" using 2(2) by (auto simp: adds_to_def)
    moreover have "max 1 \<bar>N\<bar> = \<bar>N\<bar>" using 2(1) by (simp add: N_def)
    ultimately show ?thesis using 2 by (simp add: new_average_small [OF assms] fill_slack_def N_def [symmetric] q_def [symmetric])
  next
    case 3
    then show ?thesis using assms
      by (auto simp: new_average_small fill_slack_def adds_to_def algebra_simps)
  qed
qed

text \<open>What a fill of an existing position does to the table, on every input.\<close>

lemma record_fill_existing:
  assumes "record_fill now i a qty price s = (Inr x, t)" and "find_position i a s = Some pos" and "in_i64 (sp_realized_pnl pos)"
  shows "find_position i a t = Some x" "is_position i a x" "sp_position x = wrap64 (sp_position pos + qty)"
    "sp_avg_entry_price x = new_average pos qty price"
    "sp_realized_pnl x = sp_realized_pnl pos + wrap64 (closed_qty pos qty * wrap64 (price - sp_avg_entry_price pos))"
    "(j, b) \<noteq> (i, a) \<Longrightarrow> find_position j b t = find_position j b s"
proof -
  let ?r = "wrap64 (closed_qty pos qty * wrap64 (price - sp_avg_entry_price pos))"
  let ?f = "\<lambda>p. p\<lparr>sp_position := wrap64 (sp_position pos + qty), sp_avg_entry_price := new_average pos qty price,
    sp_realized_pnl := sp_realized_pnl p + ?r, sp_updated_at := now\<rparr>"
  have run: "list_all (\<lambda>p. is_position i a p \<longrightarrow> in_i64 (sp_realized_pnl p + ?r)) (db_positions s)"
    "db_positions t = map (\<lambda>p. if is_position i a p then ?f p else p) (db_positions s)"
    "x = \<lparr>sp_solver_id = i, sp_asset = a, sp_position = wrap64 (sp_position pos + qty), sp_avg_entry_price = new_average pos qty price,
      sp_realized_pnl = wrap64 (sp_realized_pnl pos + ?r), sp_updated_at = now\<rparr>"
    using assms(1,2) by (auto simp: record_fill_def action_simps Let_def update_position_def find_position_def split: if_splits)
  have pos: "pos \<in> set (db_positions s)" "is_position i a pos"
    using assms(2) by (auto simp: find_position_def find_Some_iff)
  have r: "in_i64 (sp_realized_pnl pos + ?r)" using run(1) pos by (simp add: list_all_iff)
  have x: "x = ?f pos" using run(3) pos(2) r by simp
  show "find_position i a t = Some x"
    using assms(2) unfolding find_position_def run(2) x by (intro find_map_update) auto
  show "is_position i a x" "sp_position x = wrap64 (sp_position pos + qty)" "sp_avg_entry_price x = new_average pos qty price"
    "sp_realized_pnl x = sp_realized_pnl pos + ?r" using x pos(2) by auto
  show "find_position j b t = find_position j b s" if "(j, b) \<noteq> (i, a)"
    unfolding find_position_def run(2) by (rule find_map_other) (use that in auto)
qed

text \<open>What the first fill of an asset does.\<close>

lemma record_fill_first:
  assumes "record_fill now i a qty price s = (Inr x, t)" and "find_position i a s = None"
  shows "x = \<lparr>sp_solver_id = i, sp_asset = a, sp_position = qty, sp_avg_entry_price = price, sp_realized_pnl = 0, sp_updated_at = now\<rparr>"
    "find_position i a t = Some x" "(j, b) \<noteq> (i, a) \<Longrightarrow> find_position j b t = find_position j b s"
proof -
  have run: "x = \<lparr>sp_solver_id = i, sp_asset = a, sp_position = qty, sp_avg_entry_price = price, sp_realized_pnl = 0, sp_updated_at = now\<rparr>"
    "db_positions t = db_positions s @ [x]"
    using assms by (auto simp: record_fill_def action_simps Let_def insert_position_def split: if_splits)
  then show "x = \<lparr>sp_solver_id = i, sp_asset = a, sp_position = qty, sp_avg_entry_price = price, sp_realized_pnl = 0, sp_updated_at = now\<rparr>"
    by simp
  show "find_position i a t = Some x" using assms(2) run by (simp add: find_position_def find_append)
  show "find_position j b t = find_position j b s" if "(j, b) \<noteq> (i, a)"
    using that run by (auto simp: find_position_def find_append split: option.split)
qed

text \<open>
  C32. The accounts of a fill. The row that is returned is the one in the table, and no other row changes. The
  first fill of an asset opens a position of its size at its price with no profit. A fill of an existing position, for amounts and prices up
  to thirty bits, adds to the size; the average price becomes the average of both costs, rounded down, when the
  fill is on the side of the position, zero when nothing is left, and stays otherwise, even when the position changes its side;
  a fill on the other side realises the closed quantity times the price less the average, which is the profit of a long position and the
  loss of a short one. So at the price of the fill the total of realised and open profit is unchanged up to the
  rounding of the average, when the fill adds to the position or reduces a long one, and off by twice the profit when it
  reduces a short one.
\<close>

theorem record_fill_pnl:
  assumes "record_fill now i a qty price s = (Inr x, t)"
  shows "(find_position i a s = None \<longrightarrow>
      find_position i a t = Some x \<and> (\<forall>j b. (j, b) \<noteq> (i, a) \<longrightarrow> find_position j b t = find_position j b s) \<and>
      sp_position x = qty \<and> sp_avg_entry_price x = price \<and> sp_realized_pnl x = 0 \<and> pp_total_pnl (calculate_pnl x price) = 0) \<and>
    (\<forall>pos. find_position i a s = Some pos \<longrightarrow> moderate pos qty price \<longrightarrow>
      find_position i a t = Some x \<and> (\<forall>j b. (j, b) \<noteq> (i, a) \<longrightarrow> find_position j b t = find_position j b s) \<and>
      sp_position x = sp_position pos + qty \<and>
      sp_avg_entry_price x = (if sp_position x = 0 then 0
        else if adds_to pos qty then (sp_avg_entry_price pos * \<bar>sp_position pos\<bar> + price * \<bar>qty\<bar>) div \<bar>sp_position x\<bar>
        else sp_avg_entry_price pos) \<and>
      sp_realized_pnl x = sp_realized_pnl pos +
        (if adds_to pos qty then 0 else min \<bar>qty\<bar> \<bar>sp_position pos\<bar> * (price - sp_avg_entry_price pos)) \<and>
      (adds_to pos qty \<longrightarrow>
         \<bar>pp_total_pnl (calculate_pnl x price) - pp_total_pnl (calculate_pnl pos price)\<bar> < max 1 \<bar>sp_position x\<bar>) \<and>
      (0 < sp_position pos \<longrightarrow> qty \<le> 0 \<longrightarrow> - qty \<le> sp_position pos \<longrightarrow>
         pp_total_pnl (calculate_pnl x price) = pp_total_pnl (calculate_pnl pos price)) \<and>
      (sp_position pos < 0 \<longrightarrow> 0 \<le> qty \<longrightarrow> qty \<le> - sp_position pos \<longrightarrow>
         pp_total_pnl (calculate_pnl x price) = pp_total_pnl (calculate_pnl pos price) + 2 * qty * (price - sp_avg_entry_price pos)))"
proof (intro conjI allI impI)
  assume none: "find_position i a s = None"
  note row = record_fill_first [OF assms none]
  show "find_position i a t = Some x" by (rule row(2))
  show "find_position j b t = find_position j b s" if "(j, b) \<noteq> (i, a)" for j b using that by (rule row(3))
  show "sp_position x = qty" "sp_avg_entry_price x = price" "sp_realized_pnl x = 0" by (simp_all add: row(1))
  show "pp_total_pnl (calculate_pnl x price) = 0" by (simp add: row(1) calculate_pnl_def wrap64_small)
next
  fix pos assume pos: "find_position i a s = Some pos" and mod: "moderate pos qty price"
  note b = mod [unfolded moderate_def]
  have "in_i64 (sp_realized_pnl pos)" using b by (auto simp: in_i64_iff)
  note row = record_fill_existing [OF assms pos this]
  note avg = new_average_bounds [OF mod] and r = realized_small [OF mod]
  have x: "sp_position x = sp_position pos + qty" using row(3) fill_wraps(1) [OF mod] by simp
  show "find_position i a t = Some x" "sp_position x = sp_position pos + qty" by (rule row(1)) (rule x)
  show "find_position j b t = find_position j b s" if "(j, b) \<noteq> (i, a)" for j b using that by (rule row(6))
  show "sp_avg_entry_price x = (if sp_position x = 0 then 0
      else if adds_to pos qty then (sp_avg_entry_price pos * \<bar>sp_position pos\<bar> + price * \<bar>qty\<bar>) div \<bar>sp_position x\<bar>
      else sp_avg_entry_price pos)"
    using row(4) new_average_small [OF mod] x by (simp add: fill_cost_def)
  show "sp_realized_pnl x = sp_realized_pnl pos +
      (if adds_to pos qty then 0 else min \<bar>qty\<bar> \<bar>sp_position pos\<bar> * (price - sp_avg_entry_price pos))"
    using row(5) r(1) by (auto simp: adds_to_def)
  have "pp_total_pnl (calculate_pnl x price) = sp_position x * (price - sp_avg_entry_price x) + sp_realized_pnl x"
    using b avg r(2) row(4,5) x by (intro total_pnl_small) auto
  moreover have "pp_total_pnl (calculate_pnl pos price) = sp_position pos * (price - sp_avg_entry_price pos) + sp_realized_pnl pos"
    using b by (intro total_pnl_small) auto
  ultimately have total: "pp_total_pnl (calculate_pnl x price) = pp_total_pnl (calculate_pnl pos price) + fill_slack pos qty price"
    using fill_balance [OF mod] row(4,5) x r(1) by simp
  show "\<bar>pp_total_pnl (calculate_pnl x price) - pp_total_pnl (calculate_pnl pos price)\<bar> < max 1 \<bar>sp_position x\<bar>" if "adds_to pos qty"
    using that x total pos_mod_bound [of "max 1 \<bar>sp_position pos + qty\<bar>" "fill_cost pos qty price"]
    by (simp add: fill_slack_def abs_mult abs_sgn_eq less_max_iff_disj)
  show "pp_total_pnl (calculate_pnl x price) = pp_total_pnl (calculate_pnl pos price)"
    if "0 < sp_position pos" "qty \<le> 0" "- qty \<le> sp_position pos"
    using that total by (simp add: fill_slack_def adds_to_def sgn_if)
  show "pp_total_pnl (calculate_pnl x price) = pp_total_pnl (calculate_pnl pos price) + 2 * qty * (price - sp_avg_entry_price pos)"
    if "sp_position pos < 0" "0 \<le> qty" "qty \<le> - sp_position pos"
    using that total by (simp add: fill_slack_def adds_to_def sgn_if)
qed

section \<open>The bot\<close>

record bot_intent =
  bi_id :: uuid
  bi_token_in :: string
  bi_token_out :: string
  bi_amount_in :: u64
  bi_min_amount_out :: u64

record bid_request =
  br_intent_id :: uuid
  br_solver_id :: string
  br_amount_out :: u64
  br_fee :: u64

datatype bid_strategy = Aggressive | Conservative | Balanced

record bot_config =
  bc_solver_id :: string
  bc_bid_strategy :: bid_strategy
  bc_max_position :: i64

text \<open>The clock, the decoder of serde for an intent, and the random number drawn from a range of doubles.\<close>

record bot_env =
  be_now :: timestamp
  be_intent :: "json \<Rightarrow> bot_intent option"
  be_random_range :: "f64 \<Rightarrow> f64 \<Rightarrow> f64"

text \<open>The state of the bot: the database and the bids it has posted.\<close>

record bot_state =
  bo_db :: pgdb
  bo_bids :: "bid_request list"

definition premium_range :: "bid_strategy \<Rightarrow> (f64 \<times> f64) \<times> f64" where
  "premium_range st = (case st of
     Aggressive \<Rightarrow> ((Fin 4728779608739021 (- 52), Fin 2476979795053773 (- 51)), Fin 1152921504606847 (- 59))
   | Conservative \<Rightarrow> ((Fin 1 0, Fin 4638707616191611 (- 52)), Fin 1152921504606847 (- 57))
   | Balanced \<Rightarrow> ((Fin 1 0, Fin 2476979795053773 (- 51)), Fin 5764607523034235 (- 60)))"

definition make_bid :: "bot_env \<Rightarrow> bot_config \<Rightarrow> bot_intent \<Rightarrow> bid_request" where
  "make_bid env cfg intent =
     (let ((lo, hi), fee_pct) = premium_range (bc_bid_strategy cfg)
      in \<lparr>br_intent_id = bi_id intent, br_solver_id = bc_solver_id cfg,
          br_amount_out = f64_to_u64 (f64_mult (f64_of_int (uint (bi_min_amount_out intent))) (be_random_range env lo hi)),
          br_fee = f64_to_u64 (f64_mult (f64_of_int (uint (bi_amount_in intent))) fee_pct)\<rparr>)"

definition handle_new_intent :: "bot_env \<Rightarrow> bot_config \<Rightarrow> json \<Rightarrow> bot_state \<Rightarrow> bot_state" where
  "handle_new_intent env cfg data st =
     (case Option.bind (json_get ''data'' data) (be_intent env) of
        None \<Rightarrow> st
      | Some intent \<Rightarrow>
          let (allowed, s) = (check_limit (bc_solver_id cfg) (u64_as_i64 (bi_amount_in intent)) (bc_max_position cfg) :: (pgdb, unit, bool) action) (bo_db st) in
          if allowed \<noteq> Inr True then st\<lparr>bo_db := snd ((get_total_exposure (bc_solver_id cfg) :: (pgdb, unit, i64) action) s)\<rparr>
          else st\<lparr>bo_db := s, bo_bids := bo_bids st @ [make_bid env cfg intent]\<rparr>)"

text \<open>The fill of a matched intent: token, amount and price, if the bot's bid won.\<close>

definition matched_fill :: "bot_config \<Rightarrow> json \<Rightarrow> (string \<times> i64 \<times> i64) option" where
  "matched_fill cfg data =
     (let d = (case json_get ''data'' data of Some d \<Rightarrow> d | None \<Rightarrow> data);
          number = (\<lambda>path. case Option.bind (json_path path d) json_i64 of Some n \<Rightarrow> n | None \<Rightarrow> 0)
      in if Option.bind (json_path [''bid'', ''solver_id''] d) json_str \<noteq> Some (bc_solver_id cfg) then None
         else let token_in = str_or ''?'' (json_path [''intent'', ''token_in''] d);
                  amount_in = number [''intent'', ''amount_in''];
                  net = wrap64 (number [''bid'', ''amount_out''] - number [''bid'', ''fee''])
              in Some (token_in, amount_in, if 0 < net then rust_div (wrap64 (amount_in * 100)) net else 0))"

definition handle_matched :: "bot_env \<Rightarrow> bot_config \<Rightarrow> json \<Rightarrow> bot_state \<Rightarrow> bot_state" where
  "handle_matched env cfg data st =
     (case matched_fill cfg data of
        None \<Rightarrow> st
      | Some (token_in, amount_in, price) \<Rightarrow>
          st\<lparr>bo_db := snd (record_fill (be_now env) (bc_solver_id cfg) token_in amount_in price (bo_db st))\<rparr>)"

text \<open>One message of the socket; a completed execution is only printed.\<close>

definition handle_event :: "bot_env \<Rightarrow> bot_config \<Rightarrow> string \<times> json \<Rightarrow> bot_state \<Rightarrow> bot_state" where
  "handle_event env cfg ev st = (case ev of (event, data) \<Rightarrow>
     if event = ''intent_created'' then handle_new_intent env cfg data st
     else if event = ''intent_matched'' then handle_matched env cfg data st
     else st)"

definition run_bot :: "bot_env \<Rightarrow> bot_config \<Rightarrow> (string \<times> json) list \<Rightarrow> bot_state \<Rightarrow> bot_state" where
  "run_bot env cfg evs st = foldl (\<lambda>st ev. handle_event env cfg ev st) st evs"

section \<open>The bot only buys\<close>

text \<open>What the bot has won with an event, and with a sequence of them, of one token and in all.\<close>

definition won :: "bot_config \<Rightarrow> string \<times> json \<Rightarrow> (string \<times> i64) option" where
  "won cfg ev = (case ev of (event, data) \<Rightarrow>
     if event = ''intent_matched'' then map_option (\<lambda>(a, n, _). (a, n)) (matched_fill cfg data) else None)"

definition won_total :: "bot_config \<Rightarrow> (string \<Rightarrow> bool) \<Rightarrow> (string \<times> json) list \<Rightarrow> int" where
  "won_total cfg P evs = sum_list (map (\<lambda>ev. case won cfg ev of Some (a, n) \<Rightarrow> if P a then n else 0 | None \<Rightarrow> 0) evs)"

definition held :: "string \<Rightarrow> string \<Rightarrow> pgdb \<Rightarrow> int" where
  "held i a s = (case find_position i a s of Some p \<Rightarrow> sp_position p | None \<Rightarrow> 0)"

definition bot_book_ok :: "string \<Rightarrow> pgdb \<Rightarrow> bool" where
  "bot_book_ok i s \<longleftrightarrow> db_faults s = [] \<and> distinct (map (\<lambda>p. (sp_solver_id p, sp_asset p)) (db_positions s)) \<and>
     (\<forall>p\<in>set (db_positions s). sp_solver_id p = i \<longrightarrow> 0 < sp_position p \<and> sp_realized_pnl p = 0)"

lemma exposure_sum: "exposure i s = sum_list (map (\<lambda>p. if sp_solver_id p = i then \<bar>sp_position p\<bar> else 0) (db_positions s))"
  by (simp add: exposure_def sum_list_map_filter')

lemma held_le_exposure: "bot_book_ok i s \<Longrightarrow> find_position i a s = Some p \<Longrightarrow> 0 < sp_position p \<and> sp_position p \<le> exposure i s \<and> sp_realized_pnl p = 0"
proof -
  assume ok: "bot_book_ok i s" and p: "find_position i a s = Some p"
  have m: "p \<in> set (db_positions s)" "is_position i a p" using p by (auto simp: find_position_def find_Some_iff)
  let ?g = "\<lambda>p. if sp_solver_id p = i then \<bar>sp_position p\<bar> else 0"
  have "?g p \<le> sum_list (map ?g (db_positions s))" using m(1) by (intro member_le_sum_list) auto
  then show "0 < sp_position p \<and> sp_position p \<le> exposure i s \<and> sp_realized_pnl p = 0"
    using ok m by (auto simp: bot_book_ok_def exposure_sum)
qed


text \<open>A won intent adds its amount to one position and nothing else.\<close>

lemma find_position_None_ex: "find_position i a s = None \<longleftrightarrow> \<not> list_ex (is_position i a) (db_positions s)"
  by (auto simp: find_position_def find_None_iff list_ex_iff)

lemma key_eq: "is_position i a p \<longleftrightarrow> (sp_solver_id p, sp_asset p) = (i, a)"
  by simp

lemma no_faults: "bot_book_ok i s \<Longrightarrow> \<not> next_fault s"
  by (simp add: bot_book_ok_def next_fault_def)

lemma fill_first:
  fixes now price
  assumes ok: "bot_book_ok i s" and n: "0 < n" and none: "find_position i a s = None"
  defines "t \<equiv> snd (record_fill now i a n price s)"
  shows "bot_book_ok i t \<and> exposure i t = exposure i s + n \<and> (\<forall>b. held i b t = held i b s + (if b = a then n else 0))"
proof -
  let ?p = "\<lparr>sp_solver_id = i, sp_asset = a, sp_position = n, sp_avg_entry_price = price, sp_realized_pnl = 0, sp_updated_at = now\<rparr>"
  have t: "db_positions t = db_positions s @ [?p]" "db_faults t = []" "db_decodes_numeric t = db_decodes_numeric s"
    using ok none no_faults [OF ok]
    by (simp_all add: t_def record_fill_def action_evals sql_query_def Let_def insert_position_def sql_exec_def find_position_None_ex [symmetric]
        find_position_def next_fault_def bot_book_ok_def tick_def)
  have "(i, a) \<notin> (\<lambda>p. (sp_solver_id p, sp_asset p)) ` set (db_positions s)"
    using none by (auto simp: find_position_def find_None_iff)
  then have "bot_book_ok i t" using ok n t by (auto simp: bot_book_ok_def)
  moreover have "exposure i t = exposure i s + n" using n by (simp add: exposure_sum t(1))
  moreover have "held i b t = held i b s + (if b = a then n else 0)" for b
    using none by (auto simp: held_def find_position_def t(1) find_append split: option.splits)
  ultimately show ?thesis by blast
qed

lemma fill_more:
  fixes now price
  assumes ok: "bot_book_ok i s" and n: "0 < n" and max: "exposure i s + n \<le> i64_max" and some: "find_position i a s = Some p"
  defines "t \<equiv> snd (record_fill now i a n price s)"
  shows "bot_book_ok i t \<and> exposure i t = exposure i s + n \<and> (\<forall>b. held i b t = held i b s + (if b = a then n else 0))"
proof -
  note p = held_le_exposure [OF ok some]
  let ?f = "\<lambda>q. q\<lparr>sp_position := sp_position p + n, sp_avg_entry_price := new_average p n price, sp_realized_pnl := sp_realized_pnl q + 0, sp_updated_at := now\<rparr>"
  have new: "wrap64 (sp_position p + n) = sp_position p + n" using p n max by (intro wrap64_id) (simp add: i64_defs)
  have closed: "closed_qty p n = 0" using p n by (simp add: closed_qty_def)
  have all: "list_all (\<lambda>q. is_position i a q \<longrightarrow> in_i64 (sp_realized_pnl q + 0)) (db_positions s)"
    using ok by (auto simp: list_all_iff bot_book_ok_def in_i64_iff)
  have t: "db_positions t = map (\<lambda>q. if is_position i a q then ?f q else q) (db_positions s)" "db_faults t = []" "db_decodes_numeric t = db_decodes_numeric s"
    using ok some no_faults [OF ok] all new closed wrap64_small [of 0]
    by (simp_all add: t_def record_fill_def action_evals sql_query_def Let_def update_position_def sql_exec_def next_fault_def bot_book_ok_def tick_def)
  have own: "p \<in> set (db_positions s)" "is_position i a p"
    using find_Some_memD [OF some [unfolded find_position_def]] by blast+
  have keys: "distinct (map (\<lambda>p. (sp_solver_id p, sp_asset p)) (db_positions s))" using ok by (simp add: bot_book_ok_def)
  have same: "(sp_solver_id q, sp_asset q) = (sp_solver_id p, sp_asset p) \<longleftrightarrow> is_position i a q" for q using own(2) by auto
  let ?g = "\<lambda>p. if sp_solver_id p = i then \<bar>sp_position p\<bar> else 0"
  have "exposure i t = exposure i s - ?g p + ?g (?f p)"
    using sum_list_map_update [OF keys own(1), of ?g ?f] unfolding same exposure_sum t(1) map_map comp_def .
  then have "exposure i t = exposure i s + n" using own(2) p n by simp
  moreover have "map (\<lambda>p. (sp_solver_id p, sp_asset p)) (db_positions t) = map (\<lambda>p. (sp_solver_id p, sp_asset p)) (db_positions s)"
    by (simp add: t(1))
  moreover have "0 < sp_position q \<and> sp_realized_pnl q = 0" if "q \<in> set (db_positions t)" "sp_solver_id q = i" for q
  proof -
    obtain x where x: "x \<in> set (db_positions s)" "q = (if is_position i a x then ?f x else x)" using \<open>q \<in> set (db_positions t)\<close> unfolding t(1) by auto
    then have "sp_solver_id x = i" using that(2) by (simp split: if_splits)
    then have "0 < sp_position x \<and> sp_realized_pnl x = 0" using ok x(1) by (simp add: bot_book_ok_def)
    then show ?thesis using x(2) p n by simp
  qed
  ultimately have "bot_book_ok i t" "exposure i t = exposure i s + n" using ok t(2,3) unfolding bot_book_ok_def by auto
  moreover have "held i b t = held i b s + (if b = a then n else 0)" for b
  proof (cases "b = a")
    case True
    have "find_position i a t = Some (?f p)" using some unfolding find_position_def t(1) by (intro find_map_update) auto
    then show ?thesis using True some by (simp add: held_def)
  next
    case False
    then have "find_position i b t = find_position i b s" unfolding find_position_def t(1) by (intro find_map_other) auto
    then show ?thesis using False by (simp add: held_def)
  qed
  ultimately show ?thesis by blast
qed

lemma won_fill:
  assumes "bot_book_ok i s" and "0 < n" and "exposure i s + n \<le> i64_max"
  shows "bot_book_ok i (snd (record_fill now i a n price s)) \<and> exposure i (snd (record_fill now i a n price s)) = exposure i s + n \<and>
    (\<forall>b. held i b (snd (record_fill now i a n price s)) = held i b s + (if b = a then n else 0))"
  using fill_first [OF assms(1,2)] fill_more [OF assms] by (cases "find_position i a s") auto


lemma tick_quiet: "bot_book_ok i s \<Longrightarrow> tick s = s"
  by (simp add: bot_book_ok_def tick_def)

text \<open>What the bot sees of its exposure: the sum, or nothing when the driver does not decode it.\<close>

definition seen_exposure :: "string \<Rightarrow> pgdb \<Rightarrow> int" where
  "seen_exposure i s = (if db_decodes_numeric s then exposure i s else 0)"

lemma total_exposure_ok:
  assumes "bot_book_ok i s" and "exposure i s \<le> i64_max"
  shows "get_total_exposure i s = (Inr (seen_exposure i s), s)"
proof -
  have "0 \<le> exposure i s" unfolding exposure_sum by (rule sum_list_nonneg) auto
  then have "in_i64 (exposure i s)" using assms(2) by (simp add: i64_defs)
  then show ?thesis
    using assms(1) no_faults [OF assms(1)] tick_quiet [OF assms(1)]
    by (simp add: get_total_exposure_def action_evals sql_sum_def sql_exec_def bot_book_ok_def seen_exposure_def)
qed

lemma check_limit_ok:
  assumes "bot_book_ok i s" and "exposure i s \<le> i64_max"
  shows "check_limit i n m s = (Inr (wrap64 (seen_exposure i s + wrap64 \<bar>n\<bar>) \<le> m), s)"
  by (simp add: check_limit_def action_evals total_exposure_ok [OF assms])

lemma new_intent_ok:
  assumes "bot_book_ok (bc_solver_id cfg) (bo_db st)" and "exposure (bc_solver_id cfg) (bo_db st) \<le> i64_max"
  shows "bo_db (handle_new_intent env cfg data st) = bo_db st"
  by (simp add: handle_new_intent_def Let_def check_limit_ok [OF assms] total_exposure_ok [OF assms] split: option.splits)

lemma event_step:
  assumes ok: "bot_book_ok (bc_solver_id cfg) (bo_db st)" and max: "exposure (bc_solver_id cfg) (bo_db st) + won_total cfg (\<lambda>_. True) [ev] \<le> i64_max"
    and pos: "\<forall>a n. won cfg ev = Some (a, n) \<longrightarrow> 0 < n"
  shows "bot_book_ok (bc_solver_id cfg) (bo_db (handle_event env cfg ev st)) \<and>
    exposure (bc_solver_id cfg) (bo_db (handle_event env cfg ev st)) = exposure (bc_solver_id cfg) (bo_db st) + won_total cfg (\<lambda>_. True) [ev] \<and>
    (\<forall>a. held (bc_solver_id cfg) a (bo_db (handle_event env cfg ev st)) = held (bc_solver_id cfg) a (bo_db st) + won_total cfg (\<lambda>b. b = a) [ev])"
proof (cases "won cfg ev")
  case None
  then have "bo_db (handle_event env cfg ev st) = bo_db st"
    using new_intent_ok [OF ok] max by (auto simp: handle_event_def handle_matched_def won_def won_total_def split: prod.splits if_splits option.splits)
  then show ?thesis using None ok by (simp add: won_total_def)
next
  case (Some an)
  obtain a n where an: "an = (a, n)" by fastforce
  obtain data price where ev: "ev = (''intent_matched'', data)" "matched_fill cfg data = Some (a, n, price)"
    using Some an by (auto simp: won_def split: prod.splits if_splits)
  have "bo_db (handle_event env cfg ev st) = snd (record_fill (be_now env) (bc_solver_id cfg) a n price (bo_db st))"
    by (simp add: handle_event_def handle_matched_def ev)
  moreover have "0 < n" "exposure (bc_solver_id cfg) (bo_db st) + n \<le> i64_max" using pos max Some an by (simp_all add: won_total_def)
  ultimately show ?thesis using won_fill [OF ok] Some an by (simp add: won_total_def eq_commute)
qed

lemma won_total_Cons: "won_total cfg P (ev # evs) = won_total cfg P [ev] + won_total cfg P evs"
  by (simp add: won_total_def)

lemma won_total_nonneg: "\<forall>ev\<in>set evs. \<forall>a n. won cfg ev = Some (a, n) \<longrightarrow> 0 < n \<Longrightarrow> 0 \<le> won_total cfg P evs"
  unfolding won_total_def by (rule sum_list_nonneg) (auto split: option.splits simp: less_imp_le)

lemma run_bot_accumulates:
  assumes "bot_book_ok (bc_solver_id cfg) (bo_db st)" and "exposure (bc_solver_id cfg) (bo_db st) + won_total cfg (\<lambda>_. True) evs \<le> i64_max"
    and "\<forall>ev\<in>set evs. \<forall>a n. won cfg ev = Some (a, n) \<longrightarrow> 0 < n"
  shows "bot_book_ok (bc_solver_id cfg) (bo_db (run_bot env cfg evs st)) \<and>
    exposure (bc_solver_id cfg) (bo_db (run_bot env cfg evs st)) = exposure (bc_solver_id cfg) (bo_db st) + won_total cfg (\<lambda>_. True) evs \<and>
    (\<forall>a. held (bc_solver_id cfg) a (bo_db (run_bot env cfg evs st)) = held (bc_solver_id cfg) a (bo_db st) + won_total cfg (\<lambda>b. b = a) evs)"
  using assms
proof (induction evs arbitrary: st)
  case Nil
  then show ?case by (simp add: run_bot_def won_total_def)
next
  case (Cons ev evs)
  have "0 \<le> won_total cfg (\<lambda>_. True) evs" using Cons.prems(3) by (intro won_total_nonneg) simp
  then have step: "bot_book_ok (bc_solver_id cfg) (bo_db (handle_event env cfg ev st)) \<and>
    exposure (bc_solver_id cfg) (bo_db (handle_event env cfg ev st)) = exposure (bc_solver_id cfg) (bo_db st) + won_total cfg (\<lambda>_. True) [ev] \<and>
    (\<forall>a. held (bc_solver_id cfg) a (bo_db (handle_event env cfg ev st)) = held (bc_solver_id cfg) a (bo_db st) + won_total cfg (\<lambda>b. b = a) [ev])"
    using Cons.prems by (intro event_step) (simp_all add: won_total_Cons [of cfg _ ev evs])
  have run: "run_bot env cfg (ev # evs) st = run_bot env cfg evs (handle_event env cfg ev st)" by (simp add: run_bot_def)
  show ?case unfolding run
    using Cons.IH [of "handle_event env cfg ev st"] Cons.prems(2,3) step by (simp add: won_total_Cons [of cfg _ ev evs])
qed

text \<open>
  The bot only buys: through any sequence of events, with a database that answers, its position in every token
  grows by exactly what it has won, its exposure by the sum of all it has won, and it never realises a profit. After that it bids
  for an intent exactly when what it sees of its exposure and the amount stay within its limit: with a driver that does not decode
  the sum, what it holds never counts.
\<close>

theorem bot_only_accumulates:
  assumes "bot_book_ok (bc_solver_id cfg) (bo_db st)" and "exposure (bc_solver_id cfg) (bo_db st) + won_total cfg (\<lambda>_. True) evs \<le> i64_max"
    and "\<forall>ev\<in>set evs. \<forall>a n. won cfg ev = Some (a, n) \<longrightarrow> 0 < n"
    and "Option.bind (json_get ''data'' data) (be_intent env) = Some intent"
    and "exposure (bc_solver_id cfg) (bo_db st) + won_total cfg (\<lambda>_. True) evs + uint (bi_amount_in intent) \<le> i64_max"
  defines "u \<equiv> run_bot env cfg evs st"
  shows "(\<forall>a. held (bc_solver_id cfg) a (bo_db u) = held (bc_solver_id cfg) a (bo_db st) + won_total cfg (\<lambda>b. b = a) evs) \<and>
    exposure (bc_solver_id cfg) (bo_db u) = exposure (bc_solver_id cfg) (bo_db st) + won_total cfg (\<lambda>_. True) evs \<and>
    list_all (\<lambda>p. sp_solver_id p = bc_solver_id cfg \<longrightarrow> sp_realized_pnl p = 0) (db_positions (bo_db u)) \<and>
    bo_bids (handle_event env cfg (''intent_created'', data) u) = bo_bids u @
      (if seen_exposure (bc_solver_id cfg) (bo_db u) + uint (bi_amount_in intent) \<le> bc_max_position cfg
       then [make_bid env cfg intent] else [])"
proof -
  note run = run_bot_accumulates [OF assms(1-3), of env, folded u_def]
  have e: "exposure (bc_solver_id cfg) (bo_db u) \<le> i64_max" "0 \<le> exposure (bc_solver_id cfg) (bo_db u)"
    using run assms(2) by (simp, unfold exposure_sum, intro sum_list_nonneg, auto)
  have w: "u64_as_i64 (bi_amount_in intent) = uint (bi_amount_in intent)"
    using assms(5) e(2) run by (intro u64_as_i64_small) (simp add: i64_defs)
  have "in_i64 (uint (bi_amount_in intent))" "in_i64 (seen_exposure (bc_solver_id cfg) (bo_db u) + uint (bi_amount_in intent))"
    using assms(5) e(2) run by (auto intro!: nonneg_in_i64 add_nonneg_nonneg simp: seen_exposure_def)
  then have "bo_bids (handle_event env cfg (''intent_created'', data) u) = bo_bids u @
      (if seen_exposure (bc_solver_id cfg) (bo_db u) + uint (bi_amount_in intent) \<le> bc_max_position cfg then [make_bid env cfg intent] else [])"
    using assms(4) w by (simp add: handle_event_def handle_new_intent_def Let_def check_limit_ok [OF run [THEN conjunct1] e(1)])
  then show ?thesis using run by (simp add: bot_book_ok_def list_all_iff)
qed


section \<open>Samples\<close>

definition sample_position :: solver_position where
  "sample_position = \<lparr>sp_solver_id = ''bot'', sp_asset = ''ETH'', sp_position = - 10, sp_avg_entry_price = 20, sp_realized_pnl = 5, sp_updated_at = 0\<rparr>"

text \<open>A short position of ten at twenty, with four of it bought back at thirty: a loss of forty is booked as a profit.\<close>

theorem record_fill_pnl_witness:
  "\<exists>x t. record_fill 9 ''bot'' ''ETH'' 4 30 (empty_db\<lparr>db_positions := [sample_position]\<rparr>) = (Inr x, t) \<and>
     sp_position x = - 6 \<and> sp_avg_entry_price x = 20 \<and> sp_realized_pnl x = 45 \<and>
     pp_total_pnl (calculate_pnl sample_position 30) = - 95 \<and> pp_total_pnl (calculate_pnl x 30) = - 15"
proof -
  let ?s = "empty_db\<lparr>db_positions := [sample_position]\<rparr>"
  have pos: "find_position ''bot'' ''ETH'' ?s = Some sample_position" by (simp add: find_position_def sample_position_def)
  have m: "moderate sample_position 4 30" by (simp add: moderate_def sample_position_def)
  obtain x t where run: "record_fill 9 ''bot'' ''ETH'' 4 30 ?s = (Inr x, t)"
    by (simp add: closed_qty_def wrap64_def record_fill_def action_evals sql_query_def next_fault_def empty_db_def Let_def update_position_def sql_exec_def tick_def
        find_position_def sample_position_def in_i64_iff)
  have old: "pp_total_pnl (calculate_pnl sample_position 30) = - 95"
    by (simp add: calculate_pnl_def sample_position_def wrap64_def)
  have "sp_position x = - 6 \<and> sp_avg_entry_price x = 20 \<and> sp_realized_pnl x = 45 \<and> pp_total_pnl (calculate_pnl x 30) = - 15"
    using record_fill_pnl [OF run] pos m old by (simp add: sample_position_def adds_to_def)
  then show ?thesis using run old by (intro exI [of _ x] exI [of _ t]) simp
qed

definition sample_bot :: bot_config where
  "sample_bot = \<lparr>bc_solver_id = ''bot'', bc_bid_strategy = Balanced, bc_max_position = 100\<rparr>"

definition sample_bot_env :: bot_env where
  "sample_bot_env = \<lparr>be_now = 9, be_intent = (\<lambda>_. Some \<lparr>bi_id = 7, bi_token_in = ''ETH'', bi_token_out = ''USDC'', bi_amount_in = 60, bi_min_amount_out = 50\<rparr>),
     be_random_range = (\<lambda>lo hi. lo)\<rparr>"

definition sample_match :: json where
  "sample_match = JObj [(''intent'', JObj [(''token_in'', JStr ''ETH''), (''amount_in'', JNum 50)]),
     (''bid'', JObj [(''solver_id'', JStr ''bot''), (''amount_out'', JNum 30), (''fee'', JNum 5)])]"

lemma sample_won: "won sample_bot (''intent_matched'', sample_match) = Some (''ETH'', 50)"
  by (simp add: won_def matched_fill_def sample_match_def sample_bot_def json_path_def str_or_def Let_def in_i64_iff)

text \<open>A bot with a limit of a hundred that holds fifty bids for another sixty.\<close>

theorem bot_only_accumulates_witness:
  "let st = \<lparr>bo_db = empty_db, bo_bids = []\<rparr>; u = run_bot sample_bot_env sample_bot [(''intent_matched'', sample_match)] st in
   held ''bot'' ''ETH'' (bo_db u) = 50 \<and>
   length (bo_bids (handle_event sample_bot_env sample_bot (''intent_created'', JObj [(''data'', JNull)]) u)) = 1"
proof -
  let ?db = "empty_db"
  let ?u = "run_bot sample_bot_env sample_bot [(''intent_matched'', sample_match)] \<lparr>bo_db = ?db, bo_bids = []\<rparr>"
  have tot: "won_total sample_bot P [(''intent_matched'', sample_match)] = (if P ''ETH'' then 50 else 0)" for P
    by (simp add: won_total_def sample_won)
  have cfg: "bc_solver_id sample_bot = ''bot''" "bc_max_position sample_bot = 100" by (simp_all add: sample_bot_def)
  have e: "exposure ''bot'' ?db = 0" "held ''bot'' ''ETH'' ?db = 0" "bot_book_ok ''bot'' ?db"
    by (simp_all add: exposure_def held_def find_position_def bot_book_ok_def empty_db_def)
  have u: "bo_bids ?u = []" "bo_db ?u = snd (record_fill 9 ''bot'' ''ETH'' 50 (rust_div 5000 25) ?db)"
    by (simp_all add: run_bot_def handle_event_def handle_matched_def matched_fill_def sample_match_def sample_bot_def sample_bot_env_def json_path_def
        str_or_def Let_def in_i64_iff wrap64_def)
  then have "\<not> db_decodes_numeric (bo_db ?u)"
    by (simp add: record_fill_def action_evals sql_query_def next_fault_def empty_db_def Let_def insert_position_def sql_exec_def tick_def find_position_def)
  then show ?thesis
    using bot_only_accumulates [of sample_bot "\<lparr>bo_db = ?db, bo_bids = []\<rparr>" "[(''intent_matched'', sample_match)]" "JObj [(''data'', JNull)]" sample_bot_env] u(1)
    by (simp add: tot cfg e sample_won sample_bot_env_def i64_defs seen_exposure_def)
qed

end
