(* ===== verification/Rate_Limit.thy ===== *)
theory Rate_Limit
  imports Rust_Text
begin

text \<open>
  The rate limiter of the gateway (src/gateway/rate_limit.rs). Redis keeps a sorted set of the times of the requests of one
  client to one group of routes; a request is counted in a pipeline of four commands. What the pipeline of the redis
  library returns for commands that are marked as ignored is a parameter, and its documented behaviour, that
  their results are left out, a hypothesis.
\<close>

section \<open>Redis\<close>

datatype redis_value = RNil | RInt int | RBulk string | RArray "redis_value list"

text \<open>A sorted set with distinct members, and the time at which its key expires, in microseconds.\<close>

record zset =
  zs_members :: "(string \<times> int) list"
  zs_expires :: int

type_synonym redis = "string \<Rightarrow> zset option"

definition zset_at :: "int \<Rightarrow> string \<Rightarrow> redis \<Rightarrow> (string \<times> int) list" where
  "zset_at now key rd = (case rd key of Some z \<Rightarrow> if now < zs_expires z then zs_members z else [] | None \<Rightarrow> [])"

definition zremrangebyscore :: "int \<Rightarrow> (string \<times> int) list \<Rightarrow> (string \<times> int) list" where
  "zremrangebyscore upper ms = filter (\<lambda>(_, score). upper < score) ms"

definition zadd :: "int \<Rightarrow> string \<Rightarrow> (string \<times> int) list \<Rightarrow> (string \<times> int) list" where
  "zadd score member ms = filter (\<lambda>(m, _). m \<noteq> member) ms @ [(member, score)]"

definition zrem :: "string \<Rightarrow> (string \<times> int) list \<Rightarrow> (string \<times> int) list" where
  "zrem member ms = filter (\<lambda>(m, _). m \<noteq> member) ms"

text \<open>The answer of a pipeline, from the result of each command and whether it is ignored.\<close>

type_synonym pipeline = "(redis_value \<times> bool) list \<Rightarrow> redis_value list"

definition skips_ignored :: "pipeline \<Rightarrow> bool" where
  "skips_ignored pipe \<longleftrightarrow> (\<forall>cs. pipe cs = map fst (filter (\<lambda>c. \<not> snd c) cs))"

section \<open>The limiter\<close>

record route_limit =
  rl_max_requests :: u64
  rl_window_secs :: u64

definition route_limit_for :: "route_limit \<Rightarrow> string \<Rightarrow> route_limit" where
  "route_limit_for dflt path =
     (if starts_with path ''/intents'' \<or> starts_with path ''/bids'' then \<lparr>rl_max_requests = 30, rl_window_secs = 60\<rparr>
      else if starts_with path ''/balances/deposit'' \<or> starts_with path ''/balances/withdraw'' then \<lparr>rl_max_requests = 10, rl_window_secs = 60\<rparr>
      else if starts_with path ''/auth/'' then \<lparr>rl_max_requests = 5, rl_window_secs = 60\<rparr>
      else dflt)"

record http_request =
  hq_path :: string
  hq_headers :: "string \<rightharpoonup> string"

definition extract_identity :: "http_request \<Rightarrow> string" where
  "extract_identity req =
     (case hq_headers req ''x-user-id'' of Some uid \<Rightarrow> uid
      | None \<Rightarrow> (case hq_headers req ''x-api-key'' of Some key \<Rightarrow> key
      | None \<Rightarrow> (case hq_headers req ''x-forwarded-for'' of Some a \<Rightarrow> a | None \<Rightarrow> ''unknown'')))"

record rate_limit_result =
  rr_limit :: u64
  rr_remaining :: u64
  rr_reset_secs :: u64

datatype status_code = TooManyRequests | InternalServerError

text \<open>The first two segments of a path: everything before the second slash.\<close>

definition route_prefix :: "string \<Rightarrow> string" where
  "route_prefix route =
     (let first = takeWhile (\<lambda>c. c \<noteq> CHR ''/'') route; rest = dropWhile (\<lambda>c. c \<noteq> CHR ''/'') route in
      case rest of [] \<Rightarrow> first | c # cs \<Rightarrow> first @ c # takeWhile (\<lambda>c. c \<noteq> CHR ''/'') cs)"

definition limit_key :: "string \<Rightarrow> string \<Rightarrow> string" where
  "limit_key identity route = ''rate_limit:'' @ identity @ '':'' @ route_prefix route"

definition counted :: "redis_value list \<Rightarrow> u64" where
  "counted results = (case results of _ # RInt n # _ \<Rightarrow> word_of_int n | _ \<Rightarrow> 0)"

text \<open>The state is Redis; \<open>down\<close> says that the pipeline fails.\<close>

definition limiter_check ::
  "pipeline \<Rightarrow> bool \<Rightarrow> int \<Rightarrow> string \<Rightarrow> string \<Rightarrow> route_limit \<Rightarrow> (redis, status_code, rate_limit_result) action" where
  "limiter_check pipe down now_micros identity route limit rd =
     (if down then (Inl InternalServerError, rd)
      else
        let key = limit_key identity route;
            window_start = wrap64 (now_micros - wrap64 (u64_as_i64 (rl_window_secs limit) * 1000000));
            member = show_int now_micros;
            old = zset_at now_micros key rd;
            kept = zremrangebyscore window_start old;
            added = zadd now_micros member kept;
            expires = now_micros + uint (rl_window_secs limit * 2) * 1000000;
            results = pipe [(RInt (int (length old - length kept)), True), (RInt (int (length kept)), False),
                            (RInt (if member \<in> fst ` set kept then 0 else 1), True), (RInt 1, True)];
            count = counted results
        in if rl_max_requests limit \<le> count
           then (Inl TooManyRequests, rd(key \<mapsto> \<lparr>zs_members = zrem member added, zs_expires = expires\<rparr>))
           else (Inr \<lparr>rr_limit = rl_max_requests limit, rr_remaining = rl_max_requests limit - count - 1, rr_reset_secs = rl_window_secs limit\<rparr>,
                 rd(key \<mapsto> \<lparr>zs_members = added, zs_expires = expires\<rparr>)))"

text \<open>The service around the gateway: a request is forwarded, or answered with a status.\<close>

definition rate_limit_call ::
  "pipeline \<Rightarrow> route_limit \<Rightarrow> bool \<Rightarrow> int \<Rightarrow> http_request \<Rightarrow> (redis, status_code, rate_limit_result) action" where
  "rate_limit_call pipe dflt down now_micros req =
     limiter_check pipe down now_micros (extract_identity req) (hq_path req) (route_limit_for dflt (hq_path req))"

text \<open>A sequence of requests with their times, and what happens to each.\<close>

fun serve_requests :: "pipeline \<Rightarrow> route_limit \<Rightarrow> (int \<times> http_request) list \<Rightarrow> redis \<Rightarrow> (status_code + rate_limit_result) list" where
  "serve_requests pipe dflt [] rd = []"
| "serve_requests pipe dflt ((now, req) # rqs) rd =
     (case rate_limit_call pipe dflt False now req rd of (r, rd') \<Rightarrow> r # serve_requests pipe dflt rqs rd')"

section \<open>What the limiter counts\<close>

text \<open>The sorted set counts the requests of the window: distinct times, all of them in it.\<close>

lemma route_limit_pos: "0 < rl_max_requests dflt \<Longrightarrow> 0 < rl_max_requests (route_limit_for dflt path)"
  by (simp add: route_limit_for_def)

lemma counted_skips: "skips_ignored pipe \<Longrightarrow> counted (pipe [(a, True), (b, False), (c, True), (d, True)]) = 0"
  by (simp add: skips_ignored_def counted_def)

text \<open>
  The rate limiter never limits: because the pipeline leaves out the results of ignored commands, the count of the
  requests in the window is the first and only result and not the second, and is read as zero. Whatever the number of requests of a
  client, to whatever routes and at whatever times, each of them is forwarded and told that all but one of its requests remain.
\<close>

theorem rate_limit_never_rejects:
  assumes "skips_ignored pipe" and "0 < rl_max_requests dflt"
  shows "serve_requests pipe dflt rqs rd =
    map (\<lambda>(now, req). let limit = route_limit_for dflt (hq_path req) in
      Inr \<lparr>rr_limit = rl_max_requests limit, rr_remaining = rl_max_requests limit - 1, rr_reset_secs = rl_window_secs limit\<rparr>) rqs"
proof (induction rqs arbitrary: rd)
  case (Cons q rqs)
  obtain now req where q: "q = (now, req)" by fastforce
  have "\<not> rl_max_requests (route_limit_for dflt (hq_path req)) \<le> 0"
    using route_limit_pos [OF assms(2), of "hq_path req"] by (simp add: word_neq_0_conv)
  then show ?case
    unfolding q by (simp add: rate_limit_call_def limiter_check_def Let_def counted_skips [OF assms(1)] Cons.IH)
qed simp

text \<open>Forty requests for intents within one second, where thirty per minute are allowed.\<close>

theorem rate_limit_never_rejects_witness:
  "list_all (\<lambda>r. r \<noteq> Inl TooManyRequests)
     (serve_requests (\<lambda>cs. map fst (filter (\<lambda>c. \<not> snd c) cs)) \<lparr>rl_max_requests = 100, rl_window_secs = 60\<rparr>
       (map (\<lambda>n. (int n, \<lparr>hq_path = ''/intents'', hq_headers = Map.empty\<rparr>)) [0..<40]) Map.empty)"
  using rate_limit_never_rejects [of "\<lambda>cs. map fst (filter (\<lambda>c. \<not> snd c) cs)" "\<lparr>rl_max_requests = 100, rl_window_secs = 60\<rparr>"]
  by (simp add: skips_ignored_def list_all_iff Let_def)

end
