(* ===== verification/Jwt_Keys.thy ===== *)
theory Jwt_Keys
  imports Database
begin

text \<open>
  Session tokens (src/auth/key_rotation.rs and jwt.rs): the table of signing keys, their rotation and clean-up, and the creation and
  validation of tokens with a cache of the signing key. The encoding of tokens is that of a library and a parameter with its
  law; random secrets are arguments. Times are in microseconds, the times in a token in seconds.
\<close>

section \<open>Keys\<close>

definition DAY :: int where "DAY = 86400000000"
definition KEY_MAX_AGE_DAYS :: int where "KEY_MAX_AGE_DAYS = 7"
definition KEY_CLEANUP_DAYS :: int where "KEY_CLEANUP_DAYS = 30"

definition create_and_activate_key :: "timestamp \<Rightarrow> string \<Rightarrow> jwt_key dbm" where
  "create_and_activate_key now secret =
     bindA new_uuid (\<lambda>i.
     let key = \<lparr>jk_id = i, jk_key_secret = secret, jk_active = True, jk_created_at = now\<rparr> in
     seqA (sql_exec (\<lambda>s. if i \<in> jk_id ` set (db_jwt_keys s) then Inl UniqueViolation
                         else Inr ((), s\<lparr>db_jwt_keys := db_jwt_keys s @ [key]\<rparr>)))
     (returnA key))"

definition newest_active :: "jwt_key list \<Rightarrow> jwt_key option" where
  "newest_active ks = (case sort_key (\<lambda>k. - jk_created_at k) (filter jk_active ks) of [] \<Rightarrow> None | k # _ \<Rightarrow> Some k)"

definition get_active_key :: "timestamp \<Rightarrow> string \<Rightarrow> jwt_key dbm" where
  "get_active_key now secret =
     bindA (sql_query (\<lambda>s. newest_active (db_jwt_keys s))) (\<lambda>key.
     case key of Some k \<Rightarrow> returnA k | None \<Rightarrow> create_and_activate_key now secret)"

definition validation_keys :: "timestamp \<Rightarrow> jwt_key list \<Rightarrow> jwt_key list" where
  "validation_keys now ks =
     (let grace_cutoff = now - KEY_MAX_AGE_DAYS * DAY in
      sort_key (\<lambda>k. if jk_active k then 0 else 1 :: int)
        (sort_key (\<lambda>k. - jk_created_at k) (filter (\<lambda>k. jk_active k \<or> grace_cutoff \<le> jk_created_at k) ks)))"

definition get_validation_keys :: "timestamp \<Rightarrow> jwt_key list dbm" where
  "get_validation_keys now = sql_query (\<lambda>s. validation_keys now (db_jwt_keys s))"

definition deactivate :: "uuid \<Rightarrow> unit dbm" where
  "deactivate i = sql_update (\<lambda>s. s\<lparr>db_jwt_keys := map (\<lambda>k. if jk_id k = i then k\<lparr>jk_active := False\<rparr> else k) (db_jwt_keys s)\<rparr>)"

definition rotate_if_needed :: "timestamp \<Rightarrow> string \<Rightarrow> string \<Rightarrow> bool dbm" where
  "rotate_if_needed now first_secret new_secret =
     bindA (get_active_key now first_secret) (\<lambda>active.
     if rust_div (now - jk_created_at active) DAY < KEY_MAX_AGE_DAYS then returnA False
     else seqA (deactivate (jk_id active))
         (bindA (create_and_activate_key now new_secret) (\<lambda>_.
          returnA True)))"

definition cleanup_old_keys :: "timestamp \<Rightarrow> nat dbm" where
  "cleanup_old_keys now =
     sql_exec (\<lambda>s. let old = (\<lambda>k. \<not> jk_active k \<and> jk_created_at k < now - KEY_CLEANUP_DAYS * DAY) in
       Inr (length (filter old (db_jwt_keys s)), s\<lparr>db_jwt_keys := filter (\<lambda>k. \<not> old k) (db_jwt_keys s)\<rparr>))"

text \<open>One round of the worker; errors are logged.\<close>

definition rotation_round :: "timestamp \<Rightarrow> string \<Rightarrow> string \<Rightarrow> (pgdb, 'e, unit) action" where
  "rotation_round now first_secret new_secret =
     seqA (ignoreA (rotate_if_needed now first_secret new_secret)) (ignoreA (cleanup_old_keys now))"

section \<open>Tokens\<close>

definition TOKEN_EXPIRY_SECS :: i64 where "TOKEN_EXPIRY_SECS = 86400"
definition KEY_CACHE_TTL_SECS :: int where "KEY_CACHE_TTL_SECS = 60"

record claims =
  cl_sub :: uuid
  cl_email :: string
  cl_permissions :: "string list"
  cl_exp :: i64
  cl_iat :: i64
  cl_kid :: "string option"

datatype decode_error = ExpiredSignature | BadSignature | OtherDecodeError string

datatype jwt_error = EncodingFailed string | InvalidToken string | TokenExpired | NoSigningKey

text \<open>The token library, and the settings of the module: whether a key service was set at start-up, and the secret of the configuration.\<close>

record jwt_env =
  jw_encode :: "claims \<Rightarrow> string \<Rightarrow> string + string"
  jw_decode :: "i64 \<Rightarrow> string \<Rightarrow> string \<Rightarrow> decode_error + claims"
  jw_error_text :: "sqlx_error \<Rightarrow> string"
  jw_has_service :: bool
  jw_config_secret :: string

text \<open>A token is accepted with the secret it was made with, until a minute after its expiry.\<close>

definition jwt_law :: "jwt_env \<Rightarrow> bool" where
  "jwt_law env \<longleftrightarrow> (\<forall>c s tok. jw_encode env c s = Inr tok \<longrightarrow> (\<forall>now s'. jw_decode env now tok s' =
     (if s' \<noteq> s then Inl BadSignature else if cl_exp c < now - 60 then Inl ExpiredSignature else Inr c)))"

record jwt_state =
  js_db :: pgdb
  js_cache :: "(string \<times> timestamp) option"

type_synonym 'a jwt_action = "(jwt_state, jwt_error, 'a) action"

definition jwt_db :: "(pgdb, 'e, 'a) action \<Rightarrow> (jwt_state, 'e, 'a) action" where
  "jwt_db m st = (case m (js_db st) of (r, s) \<Rightarrow> (r, st\<lparr>js_db := s\<rparr>))"

definition get_signing_secret :: "jwt_env \<Rightarrow> timestamp \<Rightarrow> string \<Rightarrow> string jwt_action" where
  "get_signing_secret env now random st =
     (if \<not> jw_has_service env then (Inr (jw_config_secret env), st)
      else case js_cache st of
        Some (secret, fetched) \<Rightarrow>
          if (now - fetched) div 1000000 < KEY_CACHE_TTL_SECS then (Inr secret, st)
          else bindA (jwt_db (map_errA (\<lambda>e. EncodingFailed (jw_error_text env e)) (get_active_key now random))) (\<lambda>key.
            seqA (modifyA (\<lambda>st. st\<lparr>js_cache := Some (jk_key_secret key, now)\<rparr>)) (returnA (jk_key_secret key))) st
      | None \<Rightarrow>
          bindA (jwt_db (map_errA (\<lambda>e. EncodingFailed (jw_error_text env e)) (get_active_key now random))) (\<lambda>key.
            seqA (modifyA (\<lambda>st. st\<lparr>js_cache := Some (jk_key_secret key, now)\<rparr>)) (returnA (jk_key_secret key))) st)"

definition get_validation_secrets :: "jwt_env \<Rightarrow> timestamp \<Rightarrow> string list jwt_action" where
  "get_validation_secrets env now =
     (if \<not> jw_has_service env then returnA [jw_config_secret env]
      else bindA (tryA (jwt_db (get_validation_keys now))) (\<lambda>r.
        returnA (case r of Inr keys \<Rightarrow> map jk_key_secret keys | Inl _ \<Rightarrow> [jw_config_secret env])))"

definition create_token :: "jwt_env \<Rightarrow> timestamp \<Rightarrow> string \<Rightarrow> uuid \<Rightarrow> string \<Rightarrow> string list \<Rightarrow> string jwt_action" where
  "create_token env now random user_id email permissions =
     bindA (get_signing_secret env now random) (\<lambda>secret.
     let secs = now div 1000000;
         c = \<lparr>cl_sub = user_id, cl_email = email, cl_permissions = permissions, cl_exp = wrap64 (secs + TOKEN_EXPIRY_SECS), cl_iat = secs, cl_kid = None\<rparr>
     in case jw_encode env c secret of Inl e \<Rightarrow> raiseA (EncodingFailed e) | Inr tok \<Rightarrow> returnA tok)"

fun try_secrets :: "jwt_env \<Rightarrow> i64 \<Rightarrow> string \<Rightarrow> string list \<Rightarrow> jwt_error + claims" where
  "try_secrets env now tok [] = Inl (InvalidToken ''No valid signing key found'')"
| "try_secrets env now tok (secret # secrets) =
     (case jw_decode env now tok secret of
        Inr c \<Rightarrow> Inr c
      | Inl ExpiredSignature \<Rightarrow> Inl TokenExpired
      | Inl _ \<Rightarrow> try_secrets env now tok secrets)"

definition validate_token :: "jwt_env \<Rightarrow> timestamp \<Rightarrow> string \<Rightarrow> claims jwt_action" where
  "validate_token env now tok =
     bindA (get_validation_secrets env now) (\<lambda>secrets. liftR (try_secrets env (now div 1000000) tok secrets))"

definition validate_token_sync :: "jwt_env \<Rightarrow> timestamp \<Rightarrow> string \<Rightarrow> jwt_error + claims" where
  "validate_token_sync env now tok =
     (case jw_decode env (now div 1000000) tok (jw_config_secret env) of
        Inr c \<Rightarrow> Inr c
      | Inl ExpiredSignature \<Rightarrow> Inl TokenExpired
      | Inl BadSignature \<Rightarrow> Inl (InvalidToken ''InvalidSignature'')
      | Inl (OtherDecodeError e) \<Rightarrow> Inl (InvalidToken e))"

section \<open>Rotation\<close>

lemma newest_active_SomeD:
  assumes "newest_active ks = Some k"
  shows "k \<in> set ks" "jk_active k"
proof -
  obtain ys where "sort_key (\<lambda>k. - jk_created_at k) (filter jk_active ks) = k # ys"
    using assms by (auto simp: newest_active_def split: list.splits)
  then have "k \<in> set (filter jk_active ks)" by (metis list.set_intros(1) set_sort)
  then show "k \<in> set ks" "jk_active k" by auto
qed

lemma set_validation_keys: "set (validation_keys now ks) = {k \<in> set ks. jk_active k \<or> now - 7 * DAY \<le> jk_created_at k}"
  by (auto simp: validation_keys_def Let_def KEY_MAX_AGE_DAYS_def)

text \<open>What the table is after a rotation: the key that was active is not any more, and a new one is.\<close>

lemma rotate_rows:
  assumes "rotate_if_needed now r1 r2 s = (Inr True, t)"
  obtains k i where "newest_active (db_jwt_keys s) = Some k" "7 * DAY \<le> now - jk_created_at k"
    "db_jwt_keys t = map (\<lambda>x. if jk_id x = jk_id k then x\<lparr>jk_active := False\<rparr> else x) (db_jwt_keys s) @
      [\<lparr>jk_id = i, jk_key_secret = r2, jk_active = True, jk_created_at = now\<rparr>]"
proof -
  have "\<exists>k. newest_active (db_jwt_keys s) = Some k"
  proof (rule ccontr)
    assume "\<not> ?thesis"
    then have "newest_active (db_jwt_keys s) = None" by auto
    then show False using assms
      by (auto simp: rotate_if_needed_def get_active_key_def create_and_activate_key_def action_simps Let_def rust_div_def KEY_MAX_AGE_DAYS_def
          split: if_splits)
  qed
  then obtain k where k: "newest_active (db_jwt_keys s) = Some k" by blast
  have age: "\<not> rust_div (now - jk_created_at k) DAY < 7"
    using assms k by (auto simp: rotate_if_needed_def get_active_key_def action_simps KEY_MAX_AGE_DAYS_def split: if_splits)
  have "7 * DAY \<le> now - jk_created_at k"
  proof (rule ccontr)
    assume "\<not> ?thesis"
    then have "now - jk_created_at k < 7 * DAY" by simp
    then have "rust_div (now - jk_created_at k) DAY < 7"
      by (cases "0 \<le> now - jk_created_at k") (auto simp: rust_div_def DAY_def sgn_if mult.commute)
    then show False using age by simp
  qed
  then show ?thesis using assms k age
    by (intro that [of k]) (auto simp: rotate_if_needed_def get_active_key_def create_and_activate_key_def deactivate_def action_simps new_uuid_def
        KEY_MAX_AGE_DAYS_def Let_def split: if_splits)
qed


lemma try_secrets_signed:
  assumes "jwt_law env" and "jw_encode env c secret = Inr tok"
  shows "try_secrets env now tok secrets =
    (if secret \<in> set secrets then (if cl_exp c < now - 60 then Inl TokenExpired else Inr c) else Inl (InvalidToken ''No valid signing key found''))"
  using assms by (induction secrets) (auto simp: jwt_law_def)

lemma validate_token_db:
  assumes "jw_has_service env" and "\<not> next_fault (js_db st)"
  shows "fst (validate_token env now tok st) = try_secrets env (now div 1000000) tok (map jk_key_secret (validation_keys now (db_jwt_keys (js_db st))))"
  using assms by (simp add: validate_token_def get_validation_secrets_def get_validation_keys_def jwt_db_def sql_query_def action_evals liftR_def)

text \<open>
  C34. A rotation ends every session of the old key: a token of the active key is accepted until its expiry as long as the key is
  active; but once the key has been rotated, at an age of at least seven days, it is too old for the
  grace period of seven days from its creation, and at any later time a token that was made with it just before
  is rejected as invalid, although it has not expired.
\<close>

theorem rotation_ends_tokens:
  assumes "jwt_law env" and "jw_has_service env" and "rotate_if_needed t1 r1 r2 s = (Inr True, t)" and "newest_active (db_jwt_keys s) = Some k"
    and "jw_encode env c (jk_key_secret k) = Inr tok" and "\<not> next_fault s" and "\<not> next_fault t"
    and "\<forall>x\<in>set (db_jwt_keys s). jk_key_secret x = jk_key_secret k \<longrightarrow> x = k" and "r2 \<noteq> jk_key_secret k" and "t1 < t2"
  shows "fst (validate_token env t1 tok \<lparr>js_db = s, js_cache = cache\<rparr>) = (if cl_exp c < t1 div 1000000 - 60 then Inl TokenExpired else Inr c) \<and>
    fst (validate_token env t2 tok \<lparr>js_db = t, js_cache = cache\<rparr>) = Inl (InvalidToken ''No valid signing key found'')"
proof -
  obtain k' i where k': "newest_active (db_jwt_keys s) = Some k'" "7 * DAY \<le> t1 - jk_created_at k'" "db_jwt_keys t =
      map (\<lambda>x. if jk_id x = jk_id k' then x\<lparr>jk_active := False\<rparr> else x) (db_jwt_keys s) @ [\<lparr>jk_id = i, jk_key_secret = r2, jk_active = True, jk_created_at = t1\<rparr>]"
    using assms(3) by (rule rotate_rows)
  have "k' = k" using k'(1) assms(4) by simp
  note old = k'(2) [unfolded this] and rows = k'(3) [unfolded this]
  note k = newest_active_SomeD [OF assms(4)]
  have "k \<in> set (validation_keys t1 (db_jwt_keys s))" using k by (simp add: set_validation_keys)
  moreover have "jk_key_secret k \<notin> jk_key_secret ` set (validation_keys t2 (db_jwt_keys t))"
  proof
    assume "jk_key_secret k \<in> jk_key_secret ` set (validation_keys t2 (db_jwt_keys t))"
    then obtain y where y: "y \<in> set (db_jwt_keys t)" "jk_active y \<or> t2 - 7 * DAY \<le> jk_created_at y" "jk_key_secret y = jk_key_secret k"
      by (auto simp: set_validation_keys)
    then obtain x where x: "x \<in> set (db_jwt_keys s)" "y = (if jk_id x = jk_id k then x\<lparr>jk_active := False\<rparr> else x)" using assms(9) unfolding rows by auto
    then have "jk_key_secret x = jk_key_secret k" using y(3) by (simp split: if_splits)
    then have "x = k" using assms(8) x(1) by blast
    then have "y = k\<lparr>jk_active := False\<rparr>" using x(2) by simp
    then show False using y(2) old assms(10) by simp
  qed
  ultimately show ?thesis using assms(2,6,7) by (simp add: validate_token_db try_secrets_signed [OF assms(1,5)])
qed



definition sample_claims :: claims where
  "sample_claims = \<lparr>cl_sub = 1, cl_email = ''a@b'', cl_permissions = [], cl_exp = 691200, cl_iat = 604800, cl_kid = None\<rparr>"

definition sample_jwt_env :: jwt_env where
  "sample_jwt_env = \<lparr>jw_encode = (\<lambda>c s. if c = sample_claims then Inr s else Inl []),
     jw_decode = (\<lambda>now tok s. if s \<noteq> tok then Inl BadSignature else if cl_exp sample_claims < now - 60 then Inl ExpiredSignature else Inr sample_claims),
     jw_error_text = (\<lambda>_. []), jw_has_service = True, jw_config_secret = []\<rparr>"

definition sample_key_db :: pgdb where
  "sample_key_db = empty_db\<lparr>db_jwt_keys := [\<lparr>jk_id = 1, jk_key_secret = ''old'', jk_active = True, jk_created_at = 0\<rparr>]\<rparr>"

text \<open>A token that is made on the seventh day, with a day to live, and the rotation in the same second.\<close>

theorem rotation_ends_tokens_witness:
  "\<exists>t. rotate_if_needed (7 * DAY) [] ''new'' sample_key_db = (Inr True, t) \<and>
     fst (validate_token sample_jwt_env (7 * DAY) ''old'' \<lparr>js_db = sample_key_db, js_cache = None\<rparr>) = Inr sample_claims \<and>
     fst (validate_token sample_jwt_env (7 * DAY + 1) ''old'' \<lparr>js_db = t, js_cache = None\<rparr>) = Inl (InvalidToken ''No valid signing key found'')"
proof -
  have law: "jwt_law sample_jwt_env" "jw_has_service sample_jwt_env" by (auto simp: jwt_law_def sample_jwt_env_def split: if_splits)
  let ?k = "\<lparr>jk_id = 1, jk_key_secret = ''old'', jk_active = True, jk_created_at = 0\<rparr> :: jwt_key"
  have k: "newest_active (db_jwt_keys sample_key_db) = Some ?k" by (simp add: newest_active_def sample_key_db_def)
  obtain t where t: "rotate_if_needed (7 * DAY) [] ''new'' sample_key_db = (Inr True, t)" "\<not> next_fault t"
    by (simp add: rotate_if_needed_def get_active_key_def create_and_activate_key_def deactivate_def action_evals new_uuid_def sql_query_def sql_exec_def
        sql_update_def next_fault_def tick_def newest_active_def sample_key_db_def rust_div_def DAY_def KEY_MAX_AGE_DAYS_def Let_def)
  have enc: "jw_encode sample_jwt_env sample_claims (jk_key_secret ?k) = Inr ''old''" by (simp add: sample_jwt_env_def)
  have "\<not> next_fault sample_key_db" by (simp add: sample_key_db_def next_fault_def)
  note main = rotation_ends_tokens [OF law t(1) k enc this t(2), of "7 * DAY + 1" None]
  show ?thesis using main t(1) by (auto simp: sample_key_db_def sample_claims_def DAY_def)
qed

end
