(* ===== verification/Users.thy ===== *)
theory Users
  imports Jwt_Keys Rust_Text "HOL-Library.List_Lexorder" "HOL-Library.Char_ord"
begin

text \<open>
  Users, their passwords and roles, and the two handlers that give out tokens (src/users, src/accounts/service.rs and
  repository.rs, src/rbac/service.rs, src/auth/handler.rs). Texts are ASCII; the salted hashes of the bcrypt
  library and the text form of identifiers are fields of the environment. Of an account the model keeps its identifier and
  the text of its owner, as the settlement reads them.
\<close>

section \<open>Passwords\<close>

definition MIN_LENGTH :: nat where "MIN_LENGTH = 12"

definition COMMON_PASSWORDS :: "string list" where
  "COMMON_PASSWORDS =
     [''password1234'', ''123456789012'', ''qwertyuiopas'', ''abcdefghijkl'', ''letmein12345'', ''welcome12345'', ''administrator'', ''changeme1234'',
      ''iloveyou1234'', ''trustno1test'', ''passw0rd1234'', ''p@ssword1234'', ''admin1234567'', ''master123456'', ''dragon123456'', ''monkey123456'',
      ''shadow123456'', ''sunshine1234'', ''princess1234'', ''football1234'', ''charlie12345'', ''michael12345'', ''password!234'', ''1234567890ab'',
      ''qwerty123456'', ''abc123456789'']"

definition is_uppercase :: "char \<Rightarrow> bool" where
  "is_uppercase c = (let n = of_char c :: nat in 65 \<le> n \<and> n \<le> 90)"

definition is_lowercase :: "char \<Rightarrow> bool" where
  "is_lowercase c = (let n = of_char c :: nat in 97 \<le> n \<and> n \<le> 122)"

definition is_alphanumeric :: "char \<Rightarrow> bool" where
  "is_alphanumeric c = (is_uppercase c \<or> is_lowercase c \<or> is_digit c)"

definition password_errors :: "string \<Rightarrow> string \<Rightarrow> string list" where
  "password_errors password email =
     (let local_part = takeWhile (\<lambda>c. c \<noteq> CHR ''@'') (map to_lower email);
          password_lower = map to_lower password in
      (if length password < MIN_LENGTH then [''Must be at least '' @ show_nat MIN_LENGTH @ '' characters''] else []) @
      (if \<not> list_ex is_uppercase password then [''Must contain at least 1 uppercase letter''] else []) @
      (if \<not> list_ex is_lowercase password then [''Must contain at least 1 lowercase letter''] else []) @
      (if \<not> list_ex is_digit password then [''Must contain at least 1 number''] else []) @
      (if \<not> list_ex (\<lambda>c. \<not> is_alphanumeric c) password then [''Must contain at least 1 special character''] else []) @
      (if local_part \<noteq> [] \<and> 3 \<le> length local_part \<and> contains password_lower local_part then [''Must not contain your email or username''] else []) @
      (if password_lower \<in> set COMMON_PASSWORDS then [''This password is too common''] else []))"

definition validate_password :: "string \<Rightarrow> string \<Rightarrow> string list + unit" where
  "validate_password password email =
     (let errors = password_errors password email in if errors = [] then Inr () else Inl errors)"

section \<open>Roles\<close>

datatype rbac_error = RoleNotFound string | RbacDb sqlx_error

definition roles_of :: "uuid \<Rightarrow> pgdb \<Rightarrow> role list" where
  "roles_of user_id s = filter (\<lambda>r. (user_id, ro_id r) \<in> set (db_user_roles s)) (db_roles s)"

definition permissions_of :: "uuid \<Rightarrow> pgdb \<Rightarrow> role_permission list" where
  "permissions_of user_id s = filter (\<lambda>p. (user_id, rp_role_id p) \<in> set (db_user_roles s)) (db_permissions s)"

definition get_user_roles :: "uuid \<Rightarrow> (pgdb, rbac_error, role list) action" where
  "get_user_roles user_id = map_errA RbacDb (sql_query (roles_of user_id))"

definition get_user_role_names :: "uuid \<Rightarrow> (pgdb, rbac_error, string list) action" where
  "get_user_role_names user_id = map_errA RbacDb (sql_query (\<lambda>s. map ro_name (roles_of user_id s)))"

definition get_user_permissions :: "uuid \<Rightarrow> (pgdb, rbac_error, (string \<times> string) list) action" where
  "get_user_permissions user_id =
     map_errA RbacDb (sql_query (\<lambda>s. remdups (map (\<lambda>p. (rp_resource p, rp_action p)) (permissions_of user_id s))))"

definition get_user_permission_strings :: "uuid \<Rightarrow> (pgdb, rbac_error, string list) action" where
  "get_user_permission_strings user_id =
     bindA (get_user_permissions user_id) (\<lambda>perms.
     bindA (get_user_role_names user_id) (\<lambda>roles.
     returnA (remdups_adj (sort (map (\<lambda>(resource, action). resource @ '':'' @ action) perms @ roles)))))"

definition has_role :: "uuid \<Rightarrow> string \<Rightarrow> (pgdb, rbac_error, bool) action" where
  "has_role user_id role_name =
     map_errA RbacDb (sql_query (\<lambda>s. 0 < length (filter (\<lambda>r. ro_name r = role_name) (roles_of user_id s))))"

definition user_has_permission :: "uuid \<Rightarrow> string \<Rightarrow> string \<Rightarrow> (pgdb, rbac_error, bool) action" where
  "user_has_permission user_id resource act =
     map_errA RbacDb (sql_query (\<lambda>s. 0 < length (filter
       (\<lambda>p. (rp_resource p = resource \<or> rp_resource p = ''*'') \<and> (rp_action p = act \<or> rp_action p = ''*'')) (permissions_of user_id s))))"

definition assign_role :: "uuid \<Rightarrow> string \<Rightarrow> (pgdb, rbac_error, unit) action" where
  "assign_role user_id role_name =
     bindA (map_errA RbacDb (sql_query (\<lambda>s. map_option ro_id (find (\<lambda>r. ro_name r = role_name) (db_roles s))))) (\<lambda>found.
     case found of None \<Rightarrow> raiseA (RoleNotFound role_name)
     | Some role_id \<Rightarrow> map_errA RbacDb (sql_exec (\<lambda>s.
         if user_id \<notin> us_id ` set (db_users s) then Inl ForeignKeyViolation
         else if (user_id, role_id) \<in> set (db_user_roles s) then Inr ((), s)
         else Inr ((), s\<lparr>db_user_roles := db_user_roles s @ [(user_id, role_id)]\<rparr>))))"

definition list_roles :: "(string \<Rightarrow> int) \<Rightarrow> (pgdb, rbac_error, role list) action" where
  "list_roles collation = map_errA RbacDb (sql_query (\<lambda>s. sort_key (\<lambda>r. collation (ro_name r)) (db_roles s)))"

text \<open>
  The rows that the migrations insert: the roles and the permissions on plural names in migrations/018_rbac.sql, those on the names
  that the routes use in migrations/026_granular_permissions.sql. No two of them agree, so that \<open>ON CONFLICT\<close> drops none.
\<close>

definition seed_roles :: "role list" where
  "seed_roles =
     [\<lparr>ro_id = 1, ro_name = ''admin'', ro_description = ''Full platform access''\<rparr>,
      \<lparr>ro_id = 2, ro_name = ''trader'', ro_description = ''Can create intents, deposit, withdraw''\<rparr>,
      \<lparr>ro_id = 3, ro_name = ''solver'', ro_description = ''Can submit bids and view auctions''\<rparr>,
      \<lparr>ro_id = 4, ro_name = ''read_only'', ro_description = ''Can only view data''\<rparr>]"

definition granted :: "nat \<times> string \<times> string \<Rightarrow> role_permission" where
  "granted = (\<lambda>(r, resource, act). \<lparr>rp_role_id = r, rp_resource = resource, rp_action = act\<rparr>)"

definition broad_permissions :: "role_permission list" where
  "broad_permissions = map granted
     [(1, ''*'', ''*''),
      (2, ''intents'', ''create''), (2, ''intents'', ''read''), (2, ''intents'', ''cancel''), (2, ''balances'', ''read''), (2, ''balances'', ''deposit''),
      (2, ''balances'', ''withdraw''), (2, ''markets'', ''read''), (2, ''trades'', ''read''),
      (3, ''bids'', ''create''), (3, ''bids'', ''read''), (3, ''intents'', ''read''), (3, ''markets'', ''read''), (3, ''auctions'', ''read''),
      (4, ''intents'', ''read''), (4, ''markets'', ''read''), (4, ''trades'', ''read''), (4, ''balances'', ''read'')]"

definition granular_permissions :: "role_permission list" where
  "granular_permissions = map granted
     [(2, ''intent'', ''create''), (2, ''intent'', ''read''), (2, ''balance'', ''deposit''), (2, ''balance'', ''withdraw''), (2, ''balance'', ''read''),
      (2, ''market'', ''read''), (2, ''trade'', ''read''),
      (3, ''bid'', ''create''), (3, ''intent'', ''read''), (3, ''market'', ''read''), (3, ''trade'', ''read''),
      (4, ''intent'', ''read''), (4, ''market'', ''read''), (4, ''trade'', ''read''), (4, ''balance'', ''read'')]"

definition seed_permissions :: "role_permission list" where
  "seed_permissions = broad_permissions @ granular_permissions"

section \<open>Users\<close>

datatype user_error = EmailTaken | WeakPassword "string list" | InvalidCredentials | HashError string | UserDb sqlx_error | AccountError string

record user_env =
  ue_hash :: "string \<Rightarrow> string \<Rightarrow> string + string"
  ue_verify :: "string \<Rightarrow> string \<Rightarrow> string + bool"
  ue_uuid_text :: "uuid \<Rightarrow> string"
  ue_error_text :: "sqlx_error \<Rightarrow> string"

record auth_response =
  ar_user_id :: uuid
  ar_email :: string

definition find_by_email :: "string \<Rightarrow> pgdb \<Rightarrow> user option" where
  "find_by_email email s = find (\<lambda>u. us_email u = email) (db_users s)"

definition insert_user :: "user \<Rightarrow> unit dbm" where
  "insert_user u =
     sql_exec (\<lambda>s. if us_id u \<in> us_id ` set (db_users s) \<or> us_email u \<in> us_email ` set (db_users s) then Inl UniqueViolation
                   else Inr ((), s\<lparr>db_users := db_users s @ [u]\<rparr>))"

definition create_default_account :: "user_env \<Rightarrow> uuid \<Rightarrow> uuid dbm" where
  "create_default_account env user_id =
     bindA new_uuid (\<lambda>account_id.
     seqA (sql_exec (\<lambda>s. if account_id \<in> set (db_accounts s) then Inl UniqueViolation
             else if user_id \<notin> us_id ` set (db_users s) then Inl ForeignKeyViolation
             else Inr ((), s\<lparr>db_accounts := db_accounts s @ [account_id],
                              db_user_accounts := db_user_accounts s @ [(ue_uuid_text env user_id, account_id)]\<rparr>)))
     (returnA account_id))"

definition register_user :: "user_env \<Rightarrow> timestamp \<Rightarrow> string \<Rightarrow> string \<Rightarrow> string \<Rightarrow> (pgdb, user_error, auth_response) action" where
  "register_user env now salt email password =
     seqA (liftR (case validate_password password email of Inl violations \<Rightarrow> Inl (WeakPassword violations) | Inr _ \<Rightarrow> Inr ()))
     (bindA (map_errA UserDb (sql_query (find_by_email email))) (\<lambda>existing.
      if existing \<noteq> None then raiseA EmailTaken else
      bindA (liftR (case ue_hash env salt password of Inl e \<Rightarrow> Inl (HashError e) | Inr h \<Rightarrow> Inr h)) (\<lambda>password_hash.
      bindA new_uuid (\<lambda>i.
      let user = \<lparr>us_id = i, us_email = email, us_password_hash = password_hash, us_created_at = now, us_updated_at = now\<rparr> in
      seqA (map_errA UserDb (insert_user user))
      (bindA (map_errA (\<lambda>e. AccountError (''Database error: '' @ ue_error_text env e)) (create_default_account env i)) (\<lambda>_.
       returnA \<lparr>ar_user_id = i, ar_email = email\<rparr>))))))"

definition login_user :: "user_env \<Rightarrow> string \<Rightarrow> string \<Rightarrow> (pgdb, user_error, auth_response) action" where
  "login_user env email password =
     bindA (map_errA UserDb (sql_query (find_by_email email))) (\<lambda>found.
     case found of None \<Rightarrow> raiseA InvalidCredentials
     | Some user \<Rightarrow>
         bindA (liftR (case ue_verify env password (us_password_hash user) of Inl e \<Rightarrow> Inl (HashError e) | Inr b \<Rightarrow> Inr b)) (\<lambda>valid.
         if \<not> valid then raiseA InvalidCredentials
         else returnA \<lparr>ar_user_id = us_id user, ar_email = us_email user\<rparr>))"

definition get_user :: "uuid \<Rightarrow> (pgdb, user_error, user option) action" where
  "get_user i = map_errA UserDb (sql_query (\<lambda>s. find (\<lambda>u. us_id u = i) (db_users s)))"

section \<open>Handlers\<close>

datatype auth_error = UserFailed user_error | TokenFailed jwt_error

text \<open>The status of the answer to a failed request.\<close>

fun map_error :: "user_error \<Rightarrow> int" where
  "map_error EmailTaken = 409"
| "map_error (WeakPassword _) = 400"
| "map_error InvalidCredentials = 401"
| "map_error (HashError _) = 500"
| "map_error (UserDb _) = 500"
| "map_error (AccountError _) = 500"

record token_response =
  tr_token :: string
  tr_user_id :: string
  tr_email :: string
  tr_roles :: "string list"

definition issue_token :: "jwt_env \<Rightarrow> user_env \<Rightarrow> timestamp \<Rightarrow> string \<Rightarrow> auth_response \<Rightarrow> string list \<Rightarrow> (jwt_state, auth_error, token_response) action" where
  "issue_token jenv env now random auth roles =
     bindA (map_errA TokenFailed (create_token jenv now random (ar_user_id auth) (ar_email auth) roles)) (\<lambda>token.
     returnA \<lparr>tr_token = token, tr_user_id = ue_uuid_text env (ar_user_id auth), tr_email = ar_email auth, tr_roles = roles\<rparr>)"

definition register_handler ::
  "jwt_env \<Rightarrow> user_env \<Rightarrow> timestamp \<Rightarrow> string \<Rightarrow> string \<Rightarrow> string \<Rightarrow> string \<Rightarrow> (jwt_state, auth_error, token_response) action" where
  "register_handler jenv env now random salt email password =
     bindA (jwt_db (map_errA UserFailed (register_user env now salt email password))) (\<lambda>auth.
     seqA (ignoreA (jwt_db (assign_role (ar_user_id auth) ''trader'')))
     (bindA (tryA (jwt_db (get_user_permission_strings (ar_user_id auth)))) (\<lambda>r.
      issue_token jenv env now random auth (case r of Inr roles \<Rightarrow> roles | Inl _ \<Rightarrow> [''trader'']))))"

definition login_handler ::
  "jwt_env \<Rightarrow> user_env \<Rightarrow> timestamp \<Rightarrow> string \<Rightarrow> string \<Rightarrow> string \<Rightarrow> (jwt_state, auth_error, token_response) action" where
  "login_handler jenv env now random email password =
     bindA (jwt_db (map_errA UserFailed (login_user env email password))) (\<lambda>auth.
     bindA (tryA (jwt_db (get_user_role_names (ar_user_id auth)))) (\<lambda>r.
     issue_token jenv env now random auth (case r of Inr roles \<Rightarrow> roles | Inl _ \<Rightarrow> [])))"

section \<open>Registration and login\<close>

text \<open>
  The documented behaviour of bcrypt: a password is compared with its terminating zero byte, and only the first 72 bytes count.
\<close>

definition bcrypt_bytes :: "string \<Rightarrow> string" where
  "bcrypt_bytes password = take 72 (password @ [CHR 0x00])"

definition bcrypt_law :: "user_env \<Rightarrow> bool" where
  "bcrypt_law env \<longleftrightarrow> (\<forall>salt p h. ue_hash env salt p = Inr h \<longrightarrow> (\<forall>p'. ue_verify env p' h = Inr (bcrypt_bytes p' = bcrypt_bytes p)))"

text \<open>Registrations of others in between, whatever becomes of them.\<close>

fun register_all :: "user_env \<Rightarrow> (timestamp \<times> string \<times> string \<times> string) list \<Rightarrow> pgdb \<Rightarrow> pgdb" where
  "register_all env [] s = s"
| "register_all env ((now, salt, email, password) # rs) s = register_all env rs (snd (register_user env now salt email password s))"

lemmas register_evals = register_user_def insert_user_def create_default_account_def db_evals liftR_def map_errA_def

lemma register_appends:
  "\<exists>us as os. db_users (snd (register_user env now salt email p s)) = db_users s @ us \<and>
     db_accounts (snd (register_user env now salt email p s)) = db_accounts s @ as \<and>
     db_user_accounts (snd (register_user env now salt email p s)) = db_user_accounts s @ os"
  by (auto simp: register_evals split: sum.splits)

lemma register_all_appends:
  "\<exists>us as os. db_users (register_all env rs s) = db_users s @ us \<and> db_accounts (register_all env rs s) = db_accounts s @ as \<and>
     db_user_accounts (register_all env rs s) = db_user_accounts s @ os"
proof (induction env rs s rule: register_all.induct)
  case (2 env now salt email p rs s)
  then show ?case using register_appends [of env now salt email p s] by fastforce
qed simp

lemma register_rows:
  assumes "register_user env now salt email p s = (Inr auth, t)"
  obtains h a where "validate_password p email = Inr ()" "ue_hash env salt p = Inr h" "find_by_email email s = None"
    "db_users t = db_users s @ [\<lparr>us_id = ar_user_id auth, us_email = email, us_password_hash = h, us_created_at = now, us_updated_at = now\<rparr>]"
    "ar_email auth = email" "a \<in> set (db_accounts t)" "(ue_uuid_text env (ar_user_id auth), a) \<in> set (db_user_accounts t)"
  using assms by (auto simp: register_evals split: sum.splits if_splits) blast

lemma registered_email:
  assumes "find_by_email email s = None" and "db_users t = db_users s @ u # us" and "us_email u = email"
  shows "find_by_email email t = Some u"
  using assms by (simp add: find_by_email_def find_append)

text \<open>
  C35. Registration and login: when a registration succeeds, the password satisfies the policy and the user has an account; after
  any further registrations, a login with the same email succeeds as that user exactly when the password agrees
  with the registered one on the 72 bytes that bcrypt reads and is rejected otherwise, and the email cannot
  be registered again.
\<close>

theorem registered_user_logs_in:
  assumes "bcrypt_law env" and "register_user env now salt email p s = (Inr auth, t)"
    and "\<not> next_fault (register_all env rs t)"
  defines "u \<equiv> register_all env rs t"
  shows "password_errors p email = [] \<and> (\<exists>a\<in>set (db_accounts u). (ue_uuid_text env (ar_user_id auth), a) \<in> set (db_user_accounts u)) \<and>
    fst (login_user env email p' u) = (if bcrypt_bytes p' = bcrypt_bytes p then Inr auth else Inl InvalidCredentials) \<and>
    fst (register_user env now' salt' email p2 u) =
      Inl (if password_errors p2 email = [] then EmailTaken else WeakPassword (password_errors p2 email))"
proof -
  obtain h a where r: "validate_password p email = Inr ()" "ue_hash env salt p = Inr h" "find_by_email email s = None"
    "db_users t = db_users s @ [\<lparr>us_id = ar_user_id auth, us_email = email, us_password_hash = h, us_created_at = now, us_updated_at = now\<rparr>]"
    "ar_email auth = email" "a \<in> set (db_accounts t)" "(ue_uuid_text env (ar_user_id auth), a) \<in> set (db_user_accounts t)"
    using assms(2) by (rule register_rows)
  obtain us as os where u: "db_users u = db_users t @ us" "db_accounts u = db_accounts t @ as" "db_user_accounts u = db_user_accounts t @ os"
    using register_all_appends [of env rs t] unfolding u_def by blast
  have f: "find_by_email email u = Some \<lparr>us_id = ar_user_id auth, us_email = email, us_password_hash = h, us_created_at = now, us_updated_at = now\<rparr>"
    using r(3,4) u(1) by (intro registered_email) auto
  have v: "ue_verify env p' h = Inr (bcrypt_bytes p' = bcrypt_bytes p)" using assms(1) r(2) by (simp add: bcrypt_law_def)
  have e: "password_errors p email = []" using r(1) by (simp add: validate_password_def Let_def split: if_splits)
  have a: "\<exists>a\<in>set (db_accounts u). (ue_uuid_text env (ar_user_id auth), a) \<in> set (db_user_accounts u)" using u r(6,7) by auto
  have "auth = \<lparr>ar_user_id = ar_user_id auth, ar_email = email\<rparr>" using r(5) by (cases auth) simp
  then have l: "fst (login_user env email p' u) = (if bcrypt_bytes p' = bcrypt_bytes p then Inr auth else Inl InvalidCredentials)"
    using f v assms(3) by (simp add: login_user_def db_evals liftR_def map_errA_def u_def)
  have "fst (register_user env now' salt' email p2 u) =
      Inl (if password_errors p2 email = [] then EmailTaken else WeakPassword (password_errors p2 email))"
    using f assms(3) by (simp add: register_user_def validate_password_def db_evals liftR_def map_errA_def u_def)
  then show ?thesis using e a l by blast
qed

section \<open>Sample\<close>

definition sample_user_env :: user_env where
  "sample_user_env = \<lparr>ue_hash = (\<lambda>salt p. Inr (bcrypt_bytes p)), ue_verify = (\<lambda>p h. Inr (bcrypt_bytes p = h)), ue_uuid_text = show_nat,
     ue_error_text = (\<lambda>_. [])\<rparr>"

lemma sample_password_ok: "password_errors ''C0mpl3x!Pass#'' ''user@test.com'' = []"
  by code_simp

theorem registered_user_logs_in_witness:
  "\<exists>t. register_user sample_user_env 5 [] ''user@test.com'' ''C0mpl3x!Pass#'' empty_db = (Inr \<lparr>ar_user_id = 100, ar_email = ''user@test.com''\<rparr>, t) \<and>
     fst (login_user sample_user_env ''user@test.com'' ''C0mpl3x!Pass'' t) = Inl InvalidCredentials \<and>
     fst (login_user sample_user_env ''user@test.com'' ''C0mpl3x!Pass#'' t) = Inr \<lparr>ar_user_id = 100, ar_email = ''user@test.com''\<rparr>"
proof -
  have law: "bcrypt_law sample_user_env" by (simp add: bcrypt_law_def sample_user_env_def)
  obtain t where t: "register_user sample_user_env 5 [] ''user@test.com'' ''C0mpl3x!Pass#'' empty_db = (Inr \<lparr>ar_user_id = 100, ar_email = ''user@test.com''\<rparr>, t)"
    "\<not> next_fault t"
    by (simp add: register_evals sample_user_env_def validate_password_def sample_password_ok find_by_email_def next_fault_def tick_def)
  show ?thesis
    using registered_user_logs_in [OF law t(1), of "[]" "''C0mpl3x!Pass''"] registered_user_logs_in [OF law t(1), of "[]" "''C0mpl3x!Pass#''"] t
    by (auto simp: bcrypt_bytes_def)
qed

end
