(* ===== verification/Request_Signing.thy ===== *)
theory Request_Signing
  imports Rust_Text
begin

text \<open>
  Signed requests between the services (src/signing/signer.rs and verifier.rs): a keyed hash over method, path, body, time stamp and
  nonce, a bound on the age, and nonces that are kept in Redis for a minute. Time is in microseconds; the clock of the check
  counts seconds. The keyed hash is a parameter. Each of the two commands to Redis may fail (\<open>down\<close>, for EXISTS and for SETEX): the
  code then goes on as if the nonce were new, or without storing it.
\<close>

section \<open>Signing\<close>

definition text_bytes :: "string \<Rightarrow> bytes" where
  "text_bytes s = map of_char s"

definition signed_message :: "string \<Rightarrow> string \<Rightarrow> bytes \<Rightarrow> i64 \<Rightarrow> string \<Rightarrow> bytes" where
  "signed_message meth path body timestamp nonce =
     text_bytes meth @ text_bytes ''|'' @ text_bytes path @ text_bytes ''|'' @ body @ text_bytes ''|'' @
     text_bytes (show_int timestamp) @ text_bytes ''|'' @ text_bytes nonce"

text \<open>HMAC-SHA256 of a message under a key, and its hexadecimal form.\<close>

record sign_env =
  sg_hmac :: "string \<Rightarrow> bytes \<Rightarrow> bytes"
  sg_hex :: "bytes \<Rightarrow> string"

definition compute_signature :: "sign_env \<Rightarrow> string \<Rightarrow> string \<Rightarrow> string \<Rightarrow> bytes \<Rightarrow> i64 \<Rightarrow> string \<Rightarrow> string" where
  "compute_signature env secret meth path body timestamp nonce =
     sg_hex env (sg_hmac env secret (signed_message meth path body timestamp nonce))"

definition sign_request :: "sign_env \<Rightarrow> i64 \<Rightarrow> string \<Rightarrow> string \<Rightarrow> string \<Rightarrow> string \<Rightarrow> bytes \<Rightarrow> string \<times> string \<times> string" where
  "sign_request env now nonce secret meth path body =
     (compute_signature env secret meth path body now nonce, show_int now, nonce)"

section \<open>Verifying\<close>

definition MAX_AGE_SECS :: i64 where "MAX_AGE_SECS = 30"
definition NONCE_TTL_SECS :: int where "NONCE_TTL_SECS = 60"

text \<open>A body over the limit cannot be read, and counts as empty.\<close>

definition BODY_LIMIT :: nat where "BODY_LIMIT = 10 * 1024 * 1024"

definition body_bytes :: "bytes \<Rightarrow> bytes" where
  "body_bytes body = (if BODY_LIMIT < length body then [] else body)"

record signed_request =
  sr_method :: string
  sr_path :: string
  sr_body :: bytes
  sr_signature :: "string option"
  sr_timestamp :: "string option"
  sr_nonce :: "string option"

datatype verify_error = MissingHeaders | InvalidTimestamp | RequestTooOld | NonceUsed | InvalidSignature

text \<open>The keys of Redis with the times at which they expire.\<close>

type_synonym nonces = "string \<rightharpoonup> int"

definition nonce_key :: "string \<Rightarrow> string" where
  "nonce_key nonce = ''nonce:'' @ nonce"

definition verify_call :: "sign_env \<Rightarrow> string \<Rightarrow> bool \<times> bool \<Rightarrow> int \<Rightarrow> signed_request \<Rightarrow> (nonces, verify_error, signed_request) action" where
  "verify_call env secret down micros req st =
     (case (sr_signature req, sr_timestamp req, sr_nonce req) of
        (Some signature, Some timestamp_str, Some nonce) \<Rightarrow>
          (case parse_i64 timestamp_str of
             None \<Rightarrow> (Inl InvalidTimestamp, st)
           | Some timestamp \<Rightarrow>
               let now = micros div 1000000 in
               if wrap64 \<bar>wrap64 (now - timestamp)\<bar> > MAX_AGE_SECS then (Inl RequestTooOld, st)
               else if \<not> fst down \<and> (case st (nonce_key nonce) of Some e \<Rightarrow> micros < e | None \<Rightarrow> False) then (Inl NonceUsed, st)
               else let st' = (if snd down then st else st(nonce_key nonce \<mapsto> micros + NONCE_TTL_SECS * 1000000)) in
                 if signature \<noteq> compute_signature env secret (sr_method req) (sr_path req) (body_bytes (sr_body req)) timestamp nonce
                 then (Inl InvalidSignature, st') else (Inr (req\<lparr>sr_body := body_bytes (sr_body req)\<rparr>), st'))
      | _ \<Rightarrow> (Inl MissingHeaders, st))"

text \<open>Requests served in between, with a Redis that answers.\<close>

fun serve_signed :: "sign_env \<Rightarrow> string \<Rightarrow> (int \<times> signed_request) list \<Rightarrow> nonces \<Rightarrow> nonces" where
  "serve_signed env secret [] st = st"
| "serve_signed env secret ((micros, req) # rqs) st = serve_signed env secret rqs (snd (verify_call env secret (False, False) micros req st))"

section \<open>Replays\<close>

definition signed_at :: "i64 \<Rightarrow> signed_request \<Rightarrow> bool" where
  "signed_at ts req \<longleftrightarrow> (\<exists>s. sr_timestamp req = Some s \<and> parse_i64 s = Some ts)"

text \<open>A nonce stays in Redis at least until the time it was stored for.\<close>

definition kept_until :: "int \<Rightarrow> string \<Rightarrow> nonces \<Rightarrow> bool" where
  "kept_until e nonce st \<longleftrightarrow> (\<exists>e'. st (nonce_key nonce) = Some e' \<and> e \<le> e')"

lemma verify_call_keeps:
  assumes "kept_until e n st" and "e \<le> micros + NONCE_TTL_SECS * 1000000"
  shows "kept_until e n (snd (verify_call env secret (False, False) micros req st))"
  using assms by (auto simp: kept_until_def verify_call_def Let_def nonce_key_def split: option.splits)

lemma serve_signed_keeps:
  assumes "kept_until e n st" and "list_all (\<lambda>(micros, _). e \<le> micros + NONCE_TTL_SECS * 1000000) rqs"
  shows "kept_until e n (serve_signed env secret rqs st)"
  using assms
proof (induction rqs arbitrary: st)
  case (Cons q rqs)
  then show ?case by (cases q) (simp add: verify_call_keeps)
qed simp

lemma accepted_stores:
  assumes "verify_call env secret (False, False) micros req st = (Inr r, st')" and "sr_nonce req = Some n"
  shows "kept_until (micros + NONCE_TTL_SECS * 1000000) n st'" "\<not> kept_until (micros + 1) n st"
  using assms by (auto simp: verify_call_def kept_until_def Let_def split: option.splits if_splits)

lemma accepted_fresh:
  assumes "verify_call env secret down micros req st = (Inr r, st')" and "signed_at ts req" and "0 \<le> ts" "ts < 2 ^ 62" "0 \<le> micros" "micros < 2 ^ 62"
  shows "\<bar>micros div 1000000 - ts\<bar> \<le> 30"
proof -
  have "0 \<le> micros div 1000000" "micros div 1000000 < 2 ^ 62" using assms(5,6) by simp_all
  then have "wrap64 (micros div 1000000 - ts) = micros div 1000000 - ts" using assms(3,4) by (intro wrap64_id) (simp add: in_i64_iff)
  moreover have "wrap64 \<bar>micros div 1000000 - ts\<bar> = \<bar>micros div 1000000 - ts\<bar>"
    using assms(3,4) \<open>0 \<le> micros div 1000000\<close> \<open>micros div 1000000 < 2 ^ 62\<close> by (intro wrap64_id) (auto simp: in_i64_iff abs_if)
  ultimately show ?thesis
    using assms(1,2) by (auto simp: verify_call_def signed_at_def Let_def MAX_AGE_SECS_def split: option.splits if_splits)
qed

text \<open>
  C33. Replays: when a request has been accepted and is presented again, with any requests in between and a Redis that answers, it is
  refused, except at the very edge of its life: the first time in the second that is 30 seconds before its time
  stamp, and again in the second that is 30 seconds after it, when its nonce has just expired.
\<close>

theorem replay_only_at_the_edge:
  assumes "verify_call env secret (False, False) t1 req st = (Inr r1, st1)"
    and "verify_call env secret (False, False) t2 req (serve_signed env secret rqs st1) = (Inr r2, st2)"
    and "list_all (\<lambda>(t, _). t1 \<le> t \<and> t \<le> t2) rqs" and "signed_at ts req" and "0 \<le> ts" "ts < 2 ^ 62" and "0 \<le> t1" "t1 \<le> t2" "t2 < 2 ^ 62"
  shows "t1 + 60000000 \<le> t2 \<and> t1 div 1000000 = ts - 30 \<and> t2 div 1000000 = ts + 30"
proof -
  obtain n where n: "sr_nonce req = Some n" using assms(1) by (auto simp: verify_call_def split: option.splits)
  have "kept_until (t1 + 60000000) n (serve_signed env secret rqs st1)"
    using accepted_stores(1) [OF assms(1) n] assms(3) by (intro serve_signed_keeps) (auto simp: NONCE_TTL_SECS_def list_all_iff)
  then have late: "t1 + 60000000 \<le> t2" using accepted_stores(2) [OF assms(2) n] by (force simp: kept_until_def)
  have "\<bar>t1 div 1000000 - ts\<bar> \<le> 30" "\<bar>t2 div 1000000 - ts\<bar> \<le> 30"
    using accepted_fresh [OF assms(1,4)] accepted_fresh [OF assms(2,4)] assms(5-9) by auto
  moreover have "t1 div 1000000 + 60 \<le> t2 div 1000000" using late by simp
  ultimately show ?thesis using late by linarith
qed


definition sample_sign_env :: sign_env where
  "sample_sign_env = \<lparr>sg_hmac = (\<lambda>k m. m), sg_hex = map (\<lambda>b. char_of (unat b))\<rparr>"

definition sample_request :: signed_request where
  "sample_request = (case sign_request sample_sign_env 1000 ''n'' ''s'' ''POST'' ''/intents'' [] of (sig, ts, nonce) \<Rightarrow>
     \<lparr>sr_method = ''POST'', sr_path = ''/intents'', sr_body = [], sr_signature = Some sig, sr_timestamp = Some ts, sr_nonce = Some nonce\<rparr>)"

text \<open>A request that is accepted thirty seconds early and, a minute later, once more.\<close>

theorem replay_only_at_the_edge_witness:
  "\<exists>st1 st2. verify_call sample_sign_env ''s'' (False, False) 970000000 sample_request Map.empty = (Inr sample_request, st1) \<and>
     verify_call sample_sign_env ''s'' (False, False) 1030000000 sample_request st1 = (Inr sample_request, st2) \<and>
     970000000 div 1000000 = (1000 - 30 :: int) \<and> 1030000000 div 1000000 = (1000 + 30 :: int)"
proof -
  have small: "wrap64 30 = 30" "wrap64 (- 30) = - 30" by (intro wrap64_small; simp)+
  have "in_i64 1000" by (simp add: in_i64_iff)
  then have ts: "signed_at 1000 sample_request" by (simp add: signed_at_def sample_request_def sign_request_def)
  obtain st1 where st1: "verify_call sample_sign_env ''s'' (False, False) 970000000 sample_request Map.empty = (Inr sample_request, st1)" "st1 (nonce_key ''n'') = Some 1030000000"
    by (simp add: verify_call_def sample_request_def sign_request_def Let_def small body_bytes_def MAX_AGE_SECS_def NONCE_TTL_SECS_def \<open>in_i64 1000\<close>)
  obtain st2 where st2: "verify_call sample_sign_env ''s'' (False, False) 1030000000 sample_request st1 = (Inr sample_request, st2)"
    using st1(2) by (simp add: verify_call_def sample_request_def sign_request_def Let_def small body_bytes_def MAX_AGE_SECS_def \<open>in_i64 1000\<close>)
  show ?thesis
    using replay_only_at_the_edge [OF st1(1), of 1030000000 "[]" sample_request st2 1000] st1 st2 ts by auto
qed

end
