(* ===== verification/Api_Access.thy ===== *)
theory Api_Access
  imports Users Request_Signing
begin

text \<open>
  What a request has to pass on its way to a handler: at the gateway the check of a token or an API key (src/gateway/auth.rs,
  src/api_keys/service.rs) and the proxy that signs it (src/gateway/proxy.rs), at the server the check of the
  signature (\<open>Request_Signing\<close>), of the token (src/auth/middleware.rs) and of the permission of the route
  (src/rbac/middleware.rs, the routers of src/api, src/balances and src/settlement). The state is the database with
  the key cache of the server, and the nonces and form tokens in Redis. A handler is an action; a panic is an error of it.
\<close>

section \<open>Requests\<close>

record request =
  rq_method :: string
  rq_path :: string
  rq_query :: "string option"
  rq_headers :: "(string \<times> string) list"
  rq_body :: bytes
  rq_claims :: "claims option"

text \<open>Of the headers of an answer the model keeps the one that marks a replay.\<close>

record response =
  rs_status :: int
  rs_body :: string
  rs_replay :: bool

record server_state =
  sv_jwt :: jwt_state
  sv_nonces :: nonces
  sv_csrf :: "string \<rightharpoonup> string \<times> timestamp"

datatype http_panic = Panicked string

type_synonym 'a server_action = "(server_state, http_panic, 'a) action"
type_synonym handler = "request \<Rightarrow> response server_action"

definition on_jwt :: "(jwt_state, 'e, 'a) action \<Rightarrow> (server_state, 'e, 'a) action" where
  "on_jwt m st = (case m (sv_jwt st) of (r, j) \<Rightarrow> (r, st\<lparr>sv_jwt := j\<rparr>))"

definition on_db :: "(pgdb, 'e, 'a) action \<Rightarrow> (server_state, 'e, 'a) action" where
  "on_db m = on_jwt (jwt_db m)"

definition on_nonces :: "(nonces, 'e, 'a) action \<Rightarrow> (server_state, 'e, 'a) action" where
  "on_nonces m st = (case m (sv_nonces st) of (r, n) \<Rightarrow> (r, st\<lparr>sv_nonces := n\<rparr>))"

definition respond :: "int \<Rightarrow> string \<Rightarrow> response server_action" where
  "respond status body = returnA \<lparr>rs_status = status, rs_body = body, rs_replay = False\<rparr>"

text \<open>\<open>HeaderValue::to_str\<close> accepts visible characters and tabs, \<open>HeaderValue::from_str\<close> all but control characters.\<close>

definition visible :: "char \<Rightarrow> bool" where
  "visible c = (let n = of_char c :: nat in n = 9 \<or> 32 \<le> n \<and> n < 127)"

definition header_char :: "char \<Rightarrow> bool" where
  "header_char c = (let n = of_char c :: nat in n = 9 \<or> 32 \<le> n \<and> n \<noteq> 127)"

definition header_get :: "string \<Rightarrow> request \<Rightarrow> string option" where
  "header_get name req =
     Option.bind (map_of (rq_headers req) name) (\<lambda>v. if list_all visible v then Some v else None)"

definition header_insert :: "string \<Rightarrow> string \<Rightarrow> request \<Rightarrow> request server_action" where
  "header_insert name v req =
     (if list_all header_char v then returnA (req\<lparr>rq_headers := filter (\<lambda>h. fst h \<noteq> name) (rq_headers req) @ [(name, v)]\<rparr>)
      else raiseA (Panicked ''called `Result::unwrap()` on an `Err` value: InvalidHeaderValue''))"

definition strip_prefix :: "string \<Rightarrow> string \<Rightarrow> string option" where
  "strip_prefix pre s = (if starts_with s pre then Some (drop (length pre) s) else None)"

definition bearer_token :: "request \<Rightarrow> string option" where
  "bearer_token req = Option.bind (header_get ''authorization'' req) (strip_prefix ''Bearer '')"

text \<open>\<open>s.split(c)\<close> and \<open>s.trim()\<close>\<close>

definition split_on :: "char \<Rightarrow> string \<Rightarrow> string list" where
  "split_on sep s = foldr (\<lambda>c parts. if c = sep then [] # parts else (c # hd parts) # tl parts) s [[]]"

definition is_space :: "char \<Rightarrow> bool" where
  "is_space c = (let n = of_char c :: nat in 9 \<le> n \<and> n \<le> 13 \<or> n = 32)"

definition trim :: "string \<Rightarrow> string" where
  "trim s = rev (dropWhile is_space (rev (dropWhile is_space s)))"

section \<open>API keys\<close>

definition KEY_PREFIX_LEN :: nat where "KEY_PREFIX_LEN = 8"

datatype api_key_error = KeyNotFound | KeyRevoked | InvalidKey | KeyDb sqlx_error

record create_key_response =
  ck_id :: uuid
  ck_key :: string
  ck_name :: string

definition generate_key :: "bytes \<Rightarrow> string" where
  "generate_key random_bytes = ''itx_'' @ concat (map (\<lambda>b. hex_padded 2 (unat b)) random_bytes)"

text \<open>\<open>hash\<close> is SHA-256 in hexadecimal, \<open>random_bytes\<close> what the generator draws.\<close>

definition create_key ::
  "(string \<Rightarrow> string) \<Rightarrow> timestamp \<Rightarrow> bytes \<Rightarrow> uuid \<Rightarrow> string \<Rightarrow> string list \<Rightarrow> (pgdb, api_key_error, create_key_response) action" where
  "create_key hash now random_bytes user_id name permissions =
     (let raw_key = generate_key random_bytes in
      bindA new_uuid (\<lambda>i.
      let row = \<lparr>ak_id = i, ak_user_id = user_id, ak_key_hash = hash raw_key, ak_key_prefix = take KEY_PREFIX_LEN raw_key, ak_name = name,
                 ak_permissions = permissions, ak_created_at = now, ak_last_used_at = None, ak_revoked = False\<rparr> in
      seqA (map_errA KeyDb (sql_exec (\<lambda>s.
        if i \<in> ak_id ` set (db_api_keys s) then Inl UniqueViolation
        else if user_id \<notin> us_id ` set (db_users s) then Inl ForeignKeyViolation
        else Inr ((), s\<lparr>db_api_keys := db_api_keys s @ [row]\<rparr>))))
      (returnA \<lparr>ck_id = i, ck_key = raw_key, ck_name = name\<rparr>)))"

definition update_last_used :: "timestamp \<Rightarrow> uuid \<Rightarrow> unit dbm" where
  "update_last_used now i =
     sql_update (\<lambda>s. s\<lparr>db_api_keys := map (\<lambda>k. if ak_id k = i then k\<lparr>ak_last_used_at := Some now\<rparr> else k) (db_api_keys s)\<rparr>)"

definition validate_key :: "(string \<Rightarrow> string) \<Rightarrow> timestamp \<Rightarrow> string \<Rightarrow> (pgdb, api_key_error, api_key) action" where
  "validate_key hash now raw_key =
     (if length raw_key < KEY_PREFIX_LEN then raiseA InvalidKey
      else
        bindA (map_errA KeyDb (sql_query (\<lambda>s. filter (\<lambda>k. ak_key_prefix k = take KEY_PREFIX_LEN raw_key \<and> \<not> ak_revoked k) (db_api_keys s)))) (\<lambda>candidates.
        case find (\<lambda>k. ak_key_hash k = hash raw_key) candidates of
          None \<Rightarrow> raiseA KeyNotFound
        | Some key \<Rightarrow>
            if ak_revoked key then raiseA KeyRevoked
            else seqA (ignoreA (update_last_used now (ak_id key))) (returnA key)))"

definition list_keys :: "uuid \<Rightarrow> (pgdb, api_key_error, api_key list) action" where
  "list_keys user_id =
     map_errA KeyDb (sql_query (\<lambda>s. sort_key (\<lambda>k. - ak_created_at k) (filter (\<lambda>k. ak_user_id k = user_id) (db_api_keys s))))"

definition revoke_key :: "uuid \<Rightarrow> uuid \<Rightarrow> (pgdb, api_key_error, unit) action" where
  "revoke_key key_id user_id =
     bindA (map_errA KeyDb (sql_exec (\<lambda>s.
       let hit = (\<lambda>k. ak_id k = key_id \<and> ak_user_id k = user_id) in
       Inr (length (filter hit (db_api_keys s)),
            s\<lparr>db_api_keys := map (\<lambda>k. if hit k then k\<lparr>ak_revoked := True\<rparr> else k) (db_api_keys s)\<rparr>)))) (\<lambda>affected.
     if affected = 0 then raiseA KeyNotFound else returnA ())"

section \<open>The gateway\<close>

record gateway_env =
  ge_jwt :: jwt_env
  ge_hash :: "string \<Rightarrow> string"
  ge_uuid_text :: "uuid \<Rightarrow> string"
  ge_sign :: sign_env
  ge_signing_secret :: string
  ge_has_keys :: bool

fun comma_separated :: "string list \<Rightarrow> string" where
  "comma_separated [] = []"
| "comma_separated [p] = p"
| "comma_separated (p # q # ps) = p @ CHR '','' # comma_separated (q # ps)"

definition validate_auth :: "gateway_env \<Rightarrow> timestamp \<Rightarrow> handler \<Rightarrow> handler" where
  "validate_auth env now next req =
     (case bearer_token req of
        Some token \<Rightarrow>
          (case validate_token_sync (ge_jwt env) now token of
             Inr c \<Rightarrow>
               bindA (header_insert ''x-user-id'' (ge_uuid_text env (cl_sub c)) req) (\<lambda>req.
               bindA (header_insert ''x-user-email'' (cl_email c) req) next)
           | Inl TokenExpired \<Rightarrow> respond 401 ''Token expired''
           | Inl _ \<Rightarrow> respond 401 ''Invalid token'')
      | None \<Rightarrow>
          (case header_get ''x-api-key'' req of
             Some raw_key \<Rightarrow>
               if \<not> ge_has_keys env then respond 500 ''API key validation unavailable''
               else bindA (tryA (on_db (validate_key (ge_hash env) now raw_key))) (\<lambda>r.
                 case r of
                   Inr key \<Rightarrow>
                     bindA (header_insert ''x-user-id'' (ge_uuid_text env (ak_user_id key)) req) (\<lambda>req.
                     bindA (header_insert ''x-user-permissions'' (comma_separated (ak_permissions key)) req) next)
                 | Inl KeyRevoked \<Rightarrow> respond 403 ''API key revoked''
                 | Inl _ \<Rightarrow> respond 401 ''Invalid API key'')
           | None \<Rightarrow> respond 401 ''Unauthorized''))"

definition forwarded :: "string \<Rightarrow> bool" where
  "forwarded name = (name \<notin> {''host'', ''connection'', ''transfer-encoding''})"

definition proxied :: "gateway_env \<Rightarrow> timestamp \<Rightarrow> string \<Rightarrow> request \<Rightarrow> request" where
  "proxied env now nonce req =
     (case sign_request (ge_sign env) (now div 1000000) nonce (ge_signing_secret env) (rq_method req) (rq_path req) (rq_body req) of
        (sig, ts, nonce) \<Rightarrow>
          req\<lparr>rq_headers := filter (\<lambda>h. forwarded (fst h)) (rq_headers req) @ [(''x-signature'', sig), (''x-timestamp'', ts), (''x-nonce'', nonce)],
              rq_claims := None\<rparr>)"

text \<open>The answer of the server is passed on; \<open>upstream\<close> is \<open>None\<close> when it cannot be reached.\<close>

definition MAX_BODY :: nat where "MAX_BODY = 10 * 1024 * 1024"

definition proxy_handler :: "gateway_env \<Rightarrow> timestamp \<Rightarrow> string \<Rightarrow> handler option \<Rightarrow> handler" where
  "proxy_handler env now nonce upstream req =
     (if MAX_BODY < length (rq_body req) then respond 400 []
      else case upstream of None \<Rightarrow> respond 502 [] | Some server \<Rightarrow> server (proxied env now nonce req))"

definition gateway :: "gateway_env \<Rightarrow> timestamp \<Rightarrow> string \<Rightarrow> handler option \<Rightarrow> handler" where
  "gateway env now nonce upstream = validate_auth env now (proxy_handler env now nonce upstream)"

section \<open>The server\<close>

definition signed_of :: "request \<Rightarrow> signed_request" where
  "signed_of req =
     \<lparr>sr_method = rq_method req, sr_path = rq_path req, sr_body = rq_body req, sr_signature = header_get ''x-signature'' req,
      sr_timestamp = header_get ''x-timestamp'' req, sr_nonce = header_get ''x-nonce'' req\<rparr>"

fun verify_status :: "verify_error \<Rightarrow> int \<times> string" where
  "verify_status MissingHeaders = (401, ''Missing signature headers'')"
| "verify_status InvalidTimestamp = (400, ''Invalid timestamp'')"
| "verify_status RequestTooOld = (401, ''Request too old'')"
| "verify_status NonceUsed = (401, ''Nonce already used'')"
| "verify_status InvalidSignature = (401, ''Invalid signature'')"

definition verify_layer :: "gateway_env \<Rightarrow> bool \<times> bool \<Rightarrow> timestamp \<Rightarrow> handler \<Rightarrow> handler" where
  "verify_layer env down now next req =
     bindA (tryA (on_nonces (verify_call (ge_sign env) (ge_signing_secret env) down now (signed_of req)))) (\<lambda>r.
     case r of Inl e \<Rightarrow> (case verify_status e of (status, text) \<Rightarrow> respond status text) | Inr sreq \<Rightarrow> next (req\<lparr>rq_body := sr_body sreq\<rparr>))"

definition require_auth :: "jwt_env \<Rightarrow> timestamp \<Rightarrow> handler \<Rightarrow> handler" where
  "require_auth env now next req =
     (case bearer_token req of
        None \<Rightarrow> respond 401 ''Missing Authorization header''
      | Some token \<Rightarrow>
          bindA (tryA (on_jwt (validate_token env now token))) (\<lambda>r.
          case r of
            Inr c \<Rightarrow> next (req\<lparr>rq_claims := Some c\<rparr>)
          | Inl TokenExpired \<Rightarrow> respond 401 ''Token expired''
          | Inl _ \<Rightarrow> respond 401 ''Invalid token''))"

definition extract_permissions :: "request \<Rightarrow> string list" where
  "extract_permissions req =
     (case rq_claims req of Some c \<Rightarrow> cl_permissions c
      | None \<Rightarrow> (case header_get ''x-user-permissions'' req of Some s \<Rightarrow> map trim (split_on CHR '','' s) | None \<Rightarrow> []))"

definition has_permission :: "string list \<Rightarrow> string \<Rightarrow> bool" where
  "has_permission permissions required =
     (let parts = splitn 2 CHR '':'' required;
          resource = (if length parts = 2 then parts ! 0 else required);
          act = (if length parts = 2 then parts ! 1 else ''*'')
      in list_ex (\<lambda>p. p = ''admin'' \<or> p = ''*:*'' \<or> p = required \<or> p = resource @ '':*'' \<or>
                       act = ''*'' \<and> starts_with p (resource @ '':'')) permissions)"

definition require_perm :: "string \<Rightarrow> handler \<Rightarrow> handler" where
  "require_perm permission next req =
     (let permissions = extract_permissions req in
      if permissions = [] then respond 401 ''No permissions found''
      else if \<not> has_permission permissions permission then respond 403 (''Permission '' @ [char_of (39 :: nat)] @ permission @ [char_of (39 :: nat)] @ '' required'')
      else next req)"

text \<open>
  The routes of the three routers: method, path and the permissions that are checked, from the outside. A \<open>route_layer\<close> wraps
  all routes that were added before it, so that a deposit needs the permission to withdraw, too.
\<close>

type_synonym route = "string \<times> string \<times> string list"

definition intent_routes :: "route list" where
  "intent_routes =
     [(''POST'', ''/intents'', [''intent:create'']), (''PUT'', ''/intents/{id}/amend'', [''intent:create'']),
      (''GET'', ''/intents'', [''intent:read'']), (''GET'', ''/intents/{id}'', [''intent:read'']),
      (''POST'', ''/bids'', [''bid:create'']), (''GET'', ''/orderbook/{intent_id}'', [''market:read''])]"

definition balance_routes :: "route list" where
  "balance_routes =
     [(''POST'', ''/balances/deposit'', [''balance:withdraw'', ''balance:deposit'']), (''POST'', ''/balances/withdraw'', [''balance:withdraw'']),
      (''GET'', ''/balances/{account_id}'', [''balance:read''])]"

definition settlement_routes :: "route list" where
  "settlement_routes =
     [(''POST'', ''/trades'', [''trade:settle'']), (''POST'', ''/trades/{trade_id}/settle'', [''trade:settle'']),
      (''POST'', ''/intents/{intent_id}/settle'', [''trade:settle'']), (''GET'', ''/trades/{trade_id}'', [''trade:read''])]"

definition routes :: "route list" where
  "routes = intent_routes @ balance_routes @ settlement_routes"

definition admin_role :: string where
  "admin_role = ''admin''"

text \<open>A protected route with its permissions, as the server mounts it; signatures are checked in production only.\<close>

definition protected_route :: "jwt_env \<Rightarrow> timestamp \<Rightarrow> string list \<Rightarrow> handler \<Rightarrow> handler" where
  "protected_route env now permissions next = require_auth env now (foldr require_perm permissions next)"

definition server :: "gateway_env \<Rightarrow> bool \<Rightarrow> bool \<times> bool \<Rightarrow> timestamp \<Rightarrow> handler \<Rightarrow> handler" where
  "server env production down now next =
     (let app = require_auth (ge_jwt env) now next in if production then verify_layer env down now app else app)"

section \<open>Permissions of tokens\<close>

definition roles_seeded :: "pgdb \<Rightarrow> bool" where
  "roles_seeded s \<longleftrightarrow> db_roles s = seed_roles \<and> db_permissions s = seed_permissions"

definition is_admin :: "uuid \<Rightarrow> pgdb \<Rightarrow> bool" where
  "is_admin i s \<longleftrightarrow> (i, 1) \<in> set (db_user_roles s)"

lemma has_permission_set: "set ps = set qs \<Longrightarrow> has_permission ps r = has_permission qs r"
  unfolding has_permission_def Let_def list_ex_iff by simp

lemma has_permission_mono: "has_permission ps r \<Longrightarrow> set ps \<subseteq> set qs \<Longrightarrow> has_permission qs r"
  unfolding has_permission_def Let_def list_ex_iff by blast

text \<open>The names of the ordinary roles open no route.\<close>

definition ordinary_names :: "string list" where
  "ordinary_names = [''trader'', ''solver'', ''read_only'']"

lemma names_open_nothing: "list_all (\<lambda>(_, _, perms). perms \<noteq> [] \<and> \<not> has_permission ordinary_names (hd perms)) routes"
  by code_simp

lemma names_rejected:
  assumes "set ps \<subseteq> set ordinary_names" and "(meth, path, perms) \<in> set routes"
  obtains r rest where "perms = r # rest" "\<not> has_permission ps r"
proof -
  have "perms \<noteq> []" "\<not> has_permission ordinary_names (hd perms)" using names_open_nothing assms(2) by (auto simp: list_all_iff)
  then show ?thesis using that [of "hd perms" "tl perms"] assms(1) has_permission_mono by auto
qed

lemma role_names_ordinary:
  assumes "db_roles s = seed_roles" and "\<not> is_admin i s" and "get_user_role_names i s = (Inr ps, t)"
  shows "set ps \<subseteq> set ordinary_names"
  using assms by (auto simp: get_user_role_names_def map_errA_def sql_query_def roles_of_def seed_roles_def is_admin_def ordinary_names_def split: if_splits)

lemma register_user_roles:
  "db_roles (snd (register_user env now salt email p s)) = db_roles s \<and> db_permissions (snd (register_user env now salt email p s)) = db_permissions s \<and>
   db_user_roles (snd (register_user env now salt email p s)) = db_user_roles s"
  by (auto simp: register_evals split: sum.splits)

lemma login_user_roles:
  "db_roles (snd (login_user env email p s)) = db_roles s \<and> db_permissions (snd (login_user env email p s)) = db_permissions s \<and>
   db_user_roles (snd (login_user env email p s)) = db_user_roles s"
  by (auto simp: login_user_def db_evals liftR_def map_errA_def split: sum.splits option.splits)

lemma login_user_found: "login_user env email p s = (Inr auth, t) \<Longrightarrow> \<exists>u. find_by_email email s = Some u \<and> us_id u = ar_user_id auth"
  by (auto simp: login_user_def db_evals liftR_def map_errA_def split: sum.splits option.splits if_splits)

lemma issued_claims:
  assumes "issue_token jenv env now random auth roles st = (Inr tr, st')"
  shows "tr_user_id tr = ue_uuid_text env (ar_user_id auth) \<and> (\<exists>c s. jw_encode jenv c s = Inr (tr_token tr) \<and> cl_permissions c = roles)"
  using assms by (fastforce simp: issue_token_def create_token_def bindA_def map_errA_def returnA_def raiseA_def Let_def split: prod.splits sum.splits)

text \<open>A token that is given at login carries the names of the roles of the user.\<close>

lemma login_token_names:
  assumes "login_handler jenv env now random email p st = (Inr tr, st')" and "db_roles (js_db st) = seed_roles"
    and "\<And>u. find_by_email email (js_db st) = Some u \<Longrightarrow> \<not> is_admin (us_id u) (js_db st)"
  shows "\<exists>c s. jw_encode jenv c s = Inr (tr_token tr) \<and> set (cl_permissions c) \<subseteq> set ordinary_names"
proof -
  obtain auth s1 r s2 where 1: "login_user env email p (js_db st) = (Inr auth, s1)" and 2: "get_user_role_names (ar_user_id auth) s1 = (r, s2)"
    and 3: "issue_token jenv env now random auth (case r of Inr roles \<Rightarrow> roles | Inl _ \<Rightarrow> []) (st\<lparr>js_db := s1\<rparr>\<lparr>js_db := s2\<rparr>) = (Inr tr, st')"
    using assms(1) by (auto simp: login_handler_def jwt_db_def map_errA_def action_evals split: prod.splits sum.splits)
  have "db_roles s1 = seed_roles" "\<not> is_admin (ar_user_id auth) s1"
    using assms(2,3) login_user_found [OF 1] login_user_roles [of env email p "js_db st"] 1 by (auto simp: is_admin_def)
  then have "set (case r of Inr roles \<Rightarrow> roles | Inl _ \<Rightarrow> []) \<subseteq> set ordinary_names"
    using 2 role_names_ordinary [of s1 "ar_user_id auth"] by (cases r) auto
  then show ?thesis using issued_claims [OF 3] by metis
qed

lemma validated_claims:
  assumes "jwt_law env" and "jw_encode env c s = Inr tok"
  shows "fst (validate_token env now tok st) \<in> {Inr c, Inl TokenExpired, Inl (InvalidToken ''No valid signing key found'')}"
  using try_secrets_signed [OF assms]
  by (auto simp: validate_token_def get_validation_secrets_def jwt_db_def action_evals liftR_def split: prod.splits sum.splits)

lemmas route_evals = protected_route_def require_auth_def require_perm_def extract_permissions_def on_jwt_def action_evals respond_def Let_def

lemma protected_route_rejects:
  assumes "jwt_law env" and "jw_encode env c s = Inr tok" and "bearer_token req = Some tok"
    and "\<not> has_permission (cl_permissions c) permission"
  shows "\<exists>r t. rs_status r \<in> {401, 403} \<and> (\<forall>handler. protected_route env now (permission # rest) handler req st = (Inr r, t))"
proof -
  obtain v j where v: "validate_token env now tok (sv_jwt st) = (v, j)" by fastforce
  then have "v \<in> {Inr c, Inl TokenExpired, Inl (InvalidToken ''No valid signing key found'')}" using validated_claims [OF assms(1,2), of now "sv_jwt st"] by simp
  then consider "v = Inr c" "cl_permissions c = []" | "v = Inr c" "cl_permissions c \<noteq> []" | "v = Inl TokenExpired"
    | "v = Inl (InvalidToken ''No valid signing key found'')" by blast
  then show ?thesis by cases (use assms(3,4) v in \<open>simp_all add: route_evals\<close>)
qed


section \<open>The token of a registration\<close>

text \<open>The permissions of a trader by the migrations, with the name of the role.\<close>

definition trader_permissions :: "string list" where
  "trader_permissions = ''trader'' # map (\<lambda>p. rp_resource p @ '':'' @ rp_action p) (filter (\<lambda>p. rp_role_id p = 2) seed_permissions)"

lemma trader_passes:
  "list_all (\<lambda>(_, _, perms). if perms = [''bid:create''] \<or> perms = [''trade:settle''] then \<not> has_permission trader_permissions (hd perms)
     else list_all (has_permission trader_permissions) perms) routes"
  by code_simp

lemma assign_trader:
  assumes "db_roles s = seed_roles" and "db_faults s = []" and "i \<in> us_id ` set (db_users s)" and "\<forall>r. (i, r) \<notin> set (db_user_roles s)"
  shows "\<exists>t. assign_role i ''trader'' s = (Inr (), t) \<and> db_user_roles t = db_user_roles s @ [(i, 2)] \<and> db_roles t = db_roles s \<and>
    db_permissions t = db_permissions s \<and> db_faults t = [] \<and> db_jwt_keys t = db_jwt_keys s"
  using assms by (auto simp: assign_role_def db_evals map_errA_def seed_roles_def next_fault_def tick_def)

definition trader_strings :: "string list" where
  "trader_strings = remdups_adj (sort (map (\<lambda>(resource, action). resource @ '':'' @ action)
     (remdups (map (\<lambda>p. (rp_resource p, rp_action p)) (filter (\<lambda>p. rp_role_id p = 2) seed_permissions))) @ [''trader'']))"

lemma set_trader_strings: "set trader_strings = set trader_permissions"
  by (auto simp: trader_strings_def trader_permissions_def)

lemma trader_permission_strings:
  assumes "roles_seeded s" and "db_faults s = []" and "\<forall>r. (i, r) \<in> set (db_user_roles s) \<longleftrightarrow> r = 2"
  shows "\<exists>t. get_user_permission_strings i s = (Inr trader_strings, t) \<and> db_jwt_keys t = db_jwt_keys s \<and> db_faults t = []"
proof -
  have "map ro_name (roles_of i (tick s)) = [''trader'']" using assms by (simp add: roles_of_def roles_seeded_def seed_roles_def)
  then show ?thesis using assms
    by (simp add: get_user_permission_strings_def get_user_permissions_def get_user_role_names_def db_evals map_errA_def next_fault_def
      permissions_of_def trader_strings_def roles_seeded_def)
qed

lemma registered_fresh:
  assumes "register_user env now salt email p s = (Inr auth, t)" and "db_faults s = []"
  shows "ar_user_id auth \<notin> us_id ` set (db_users s) \<and> ar_user_id auth \<in> us_id ` set (db_users t) \<and> db_faults t = []"
  using assms by (auto simp: register_evals next_fault_def tick_def split: sum.splits if_splits)

lemma registration_claims:
  assumes "register_handler jenv env now random salt email p st = (Inr tr, st')"
    and "roles_seeded (js_db st)" and "db_faults (js_db st) = []" and "fst ` set (db_user_roles (js_db st)) \<subseteq> us_id ` set (db_users (js_db st))"
  shows "\<exists>c s. jw_encode jenv c s = Inr (tr_token tr) \<and> set (cl_permissions c) = set trader_permissions"
proof -
  obtain auth s1 s2 r s3 where 1: "register_user env now salt email p (js_db st) = (Inr auth, s1)" and 2: "s2 = snd (assign_role (ar_user_id auth) ''trader'' s1)"
    and 3: "get_user_permission_strings (ar_user_id auth) s2 = (r, s3)"
    and 4: "issue_token jenv env now random auth (case r of Inr roles \<Rightarrow> roles | Inl _ \<Rightarrow> [''trader'']) (st\<lparr>js_db := s1\<rparr>\<lparr>js_db := s2\<rparr>\<lparr>js_db := s3\<rparr>) = (Inr tr, st')"
    using assms(1) by (auto simp: register_handler_def jwt_db_def map_errA_def action_evals split: prod.splits sum.splits)
  note fresh = registered_fresh [OF 1 assms(3)]
  have rows: "db_roles s1 = seed_roles" "db_permissions s1 = seed_permissions" "db_user_roles s1 = db_user_roles (js_db st)"
    using assms(2) register_user_roles [of env now salt email p "js_db st"] 1 by (simp_all add: roles_seeded_def)
  then have none: "\<forall>r. (ar_user_id auth, r) \<notin> set (db_user_roles s1)" using fresh assms(4) by force
  then obtain t where "assign_role (ar_user_id auth) ''trader'' s1 = (Inr (), t)" "db_user_roles t = db_user_roles s1 @ [(ar_user_id auth, 2)]"
      "roles_seeded t" "db_faults t = []"
    using assign_trader [OF rows(1) _ _ none] fresh rows by (auto simp: roles_seeded_def)
  then have "r = Inr trader_strings"
    using trader_permission_strings [of t "ar_user_id auth"] none 2 3 by auto
  then show ?thesis using issued_claims [OF 4] set_trader_strings by fastforce
qed

lemma perms_pass:
  assumes "list_all (has_permission ps) perms" and "ps \<noteq> []" and "rq_claims req = Some c" and "cl_permissions c = ps"
  shows "foldr require_perm perms handler req = handler req"
  using assms(1) by (induction perms) (use assms in \<open>simp_all add: require_perm_def extract_permissions_def Let_def\<close>)


section \<open>Through the gateway\<close>

lemma header_insert_cases:
  "header_insert name v req st = (if list_all header_char v
     then (Inr (req\<lparr>rq_headers := filter (\<lambda>h. fst h \<noteq> name) (rq_headers req) @ [(name, v)]\<rparr>), st)
     else (Inl (Panicked ''called `Result::unwrap()` on an `Err` value: InvalidHeaderValue''), st))"
  by (simp add: header_insert_def action_evals)

lemma map_of_filter_key: "P k \<Longrightarrow> map_of (filter (\<lambda>h. P (fst h)) hs) k = map_of hs k"
  by (induction hs) auto

lemma bearer_header_insert [simp]:
  assumes "name \<noteq> ''authorization''"
  shows "bearer_token (req\<lparr>rq_headers := filter (\<lambda>h. fst h \<noteq> name) (rq_headers req) @ [(name, v)]\<rparr>) = bearer_token req"
  using assms map_of_filter_key [of "\<lambda>k. k \<noteq> name" "''authorization''" "rq_headers req"]
  by (simp add: bearer_token_def header_get_def map_add_def split: option.splits)

lemma bearer_proxied [simp]: "bearer_token (proxied env now nonce req) = bearer_token req"
  using map_of_filter_key [of forwarded "''authorization''" "rq_headers req"]
  by (simp add: proxied_def sign_request_def bearer_token_def header_get_def map_add_def forwarded_def split: option.splits)

text \<open>An action that gives one of the given statuses, or panics, whatever the handler is.\<close>

definition closed_door :: "(handler \<Rightarrow> response server_action) \<Rightarrow> server_state \<Rightarrow> bool" where
  "closed_door f st \<longleftrightarrow> (\<exists>r t. (\<forall>handler. f handler st = (r, t)) \<and> (\<forall>x. r = Inr x \<longrightarrow> 400 \<le> rs_status x))"

lemma closed_door_respond [intro, simp]: "400 \<le> status \<Longrightarrow> closed_door (\<lambda>_. respond status text) st"
  by (simp add: closed_door_def respond_def action_evals)

lemma closed_door_bind:
  assumes "\<And>x t. m st = (Inr x, t) \<Longrightarrow> closed_door (\<lambda>handler. k handler x) t"
  shows "closed_door (\<lambda>handler. bindA m (k handler)) st"
proof (cases "m st")
  case (Pair r t)
  then show ?thesis using assms by (cases r) (auto simp: closed_door_def bindA_def)
qed

lemma verify_status_error: "400 \<le> fst (verify_status e)"
  by (cases e) simp_all

lemma closed_door_verify:
  assumes "\<And>n b. closed_door (\<lambda>handler. f handler (req\<lparr>rq_body := b\<rparr>)) (st\<lparr>sv_nonces := n\<rparr>)"
  shows "closed_door (\<lambda>handler. verify_layer env down now (f handler) req) st"
  unfolding verify_layer_def
proof (rule closed_door_bind)
  fix x t assume "tryA (on_nonces (verify_call (ge_sign env) (ge_signing_secret env) down now (signed_of req))) st = (Inr x, t)"
  then have "\<exists>n. t = st\<lparr>sv_nonces := n\<rparr>" by (auto simp: tryA_def on_nonces_def split: prod.splits)
  then show "closed_door (\<lambda>handler. case x of Inl e \<Rightarrow> (case verify_status e of (status, text) \<Rightarrow> respond status text) | Inr sreq \<Rightarrow> f handler (req\<lparr>rq_body := sr_body sreq\<rparr>)) t"
    using assms
  proof (cases x)
    case (Inl e)
    obtain status msg where "verify_status e = (status, msg)" by fastforce
    then show ?thesis using Inl verify_status_error [of e] by simp
  qed auto
qed

lemma closed_door_server:
  assumes "\<And>n b. closed_door (\<lambda>handler. require_auth (ge_jwt env) now handler (req\<lparr>rq_body := b\<rparr>)) (st\<lparr>sv_nonces := n\<rparr>)"
  shows "closed_door (\<lambda>handler. server env production down now handler req) st"
  using closed_door_verify [of "require_auth (ge_jwt env) now", OF assms] assms [where n = "sv_nonces st" and b = "rq_body req"]
  by (cases production) (simp_all add: server_def Let_def)

lemma bearer_body [simp]: "bearer_token (req\<lparr>rq_body := b\<rparr>) = bearer_token req"
  by (simp add: bearer_token_def header_get_def)

lemma closed_door_no_token: "bearer_token req = None \<Longrightarrow> closed_door (\<lambda>handler. require_auth env now handler req) st"
  by (simp add: require_auth_def)

lemma closed_door_foreign_token:
  assumes "jwt_law env" "jw_has_service env" "jw_encode env c s = Inr tok" "bearer_token req = Some tok"
    and "\<not> next_fault (js_db (sv_jwt st))" "s \<notin> jk_key_secret ` set (db_jwt_keys (js_db (sv_jwt st)))"
  shows "closed_door (\<lambda>handler. require_auth env now handler req) st"
proof -
  have "s \<notin> set (map jk_key_secret (validation_keys now (db_jwt_keys (js_db (sv_jwt st)))))"
    using assms(6) by (auto simp: set_validation_keys)
  then have "fst (validate_token env now tok (sv_jwt st)) = Inl (InvalidToken ''No valid signing key found'')"
    using assms(2,5) try_secrets_signed [OF assms(1,3)] by (simp add: validate_token_db)
  then show ?thesis using assms(4)
    by (auto simp: require_auth_def closed_door_def on_jwt_def action_evals respond_def split: prod.splits)
qed

lemma header_insert_bearer:
  "header_insert name v req st = (Inr req', t) \<Longrightarrow> name \<noteq> ''authorization'' \<Longrightarrow> bearer_token req' = bearer_token req \<and> t = st"
  by (auto simp: header_insert_cases split: if_splits)

lemma closed_door_headers:
  assumes "a \<noteq> ''authorization''" "b \<noteq> ''authorization''" and "\<And>req'. bearer_token req' = bearer_token req \<Longrightarrow> closed_door (\<lambda>handler. f handler req') st"
  shows "closed_door (\<lambda>handler. bindA (header_insert a v req) (\<lambda>req. bindA (header_insert b w req) (f handler))) st"
proof (intro closed_door_bind)
  fix r1 t1 r2 t2 assume "header_insert a v req st = (Inr r1, t1)" "header_insert b w r1 t1 = (Inr r2, t2)"
  then show "closed_door (\<lambda>handler. f handler r2) t2"
    using assms header_insert_bearer by metis
qed

lemma validate_auth_token:
  assumes "bearer_token req = Some tok" and "\<And>req'. bearer_token req' = Some tok \<Longrightarrow> closed_door (\<lambda>handler. f handler req') st"
  shows "closed_door (\<lambda>handler. validate_auth env now (f handler) req) st"
proof (cases "validate_token_sync (ge_jwt env) now tok")
  case (Inl e)
  then show ?thesis using assms(1) by (cases e) (simp_all add: validate_auth_def)
next
  case (Inr c)
  then show ?thesis using assms by (auto simp: validate_auth_def intro!: closed_door_headers)
qed

lemma validate_auth_no_token:
  assumes "bearer_token req = None" and "\<And>req' st'. bearer_token req' = None \<Longrightarrow> closed_door (\<lambda>handler. f handler req') st'"
  shows "closed_door (\<lambda>handler. validate_auth env now (f handler) req) st"
proof (cases "header_get ''x-api-key'' req")
  case None
  then show ?thesis using assms(1) by (simp add: validate_auth_def)
next
  case (Some raw)
  have "closed_door (\<lambda>handler. bindA (tryA (on_db (validate_key (ge_hash env) now raw))) (\<lambda>r.
      case r of
        Inr key \<Rightarrow>
          bindA (header_insert ''x-user-id'' (ge_uuid_text env (ak_user_id key)) req) (\<lambda>req.
          bindA (header_insert ''x-user-permissions'' (comma_separated (ak_permissions key)) req) (f handler))
      | Inl KeyRevoked \<Rightarrow> respond 403 ''API key revoked''
      | Inl _ \<Rightarrow> respond 401 ''Invalid API key'')) st"
  proof (rule closed_door_bind, goal_cases)
    case (1 x t)
    show ?case
    proof (cases x)
      case (Inl e)
      then show ?thesis by (cases e) simp_all
    next
      case (Inr key)
      then show ?thesis using assms by (auto intro!: closed_door_headers)
    qed
  qed
  then show ?thesis using assms(1) Some by (cases "ge_has_keys env") (simp_all add: validate_auth_def)
qed

text \<open>
  C38. The gateway and the server do not accept the same tokens: the gateway accepts those of the secret in the configuration, the
  server those of the rotated keys in the database, and it does not accept API keys. A request, with a token that was made with any secret,
  with an API key or with neither, reaches a protected handler through the gateway only if its token was made with the secret
  of the configuration and the query of the server for its keys fails, upon which the server falls back to that secret;
  otherwise the answer is an error, and the same whatever the handler would do.
\<close>

theorem gateway_reaches_no_handler:
  assumes "jwt_law (ge_jwt env)" and "jw_has_service (ge_jwt env)"
    and "jw_config_secret (ge_jwt env) \<notin> jk_key_secret ` set (db_jwt_keys (js_db (sv_jwt st)))"
    and "\<forall>tok. bearer_token req = Some tok \<longrightarrow> (\<exists>c s. jw_encode (ge_jwt env) c s = Inr tok)"
  shows "(\<exists>r t. (\<forall>handler. gateway env now nonce (Some (server env production down now' handler)) req st = (r, t)) \<and>
      (\<forall>x. r = Inr x \<longrightarrow> 400 \<le> rs_status x)) \<or>
    next_fault (js_db (sv_jwt st)) \<and> (\<exists>tok c. bearer_token req = Some tok \<and> jw_encode (ge_jwt env) c (jw_config_secret (ge_jwt env)) = Inr tok)"
proof (cases "next_fault (js_db (sv_jwt st)) \<and> (\<exists>tok c. bearer_token req = Some tok \<and> jw_encode (ge_jwt env) c (jw_config_secret (ge_jwt env)) = Inr tok)")
  case False
  define door where "door handler = proxy_handler env now nonce (Some (server env production down now' handler))" for handler
  have proxy: "closed_door (\<lambda>handler. door handler req') st'"
    if "\<And>n b. closed_door (\<lambda>handler. require_auth (ge_jwt env) now' handler ((proxied env now nonce req')\<lparr>rq_body := b\<rparr>)) (st'\<lparr>sv_nonces := n\<rparr>)" for req' st'
    using closed_door_server [OF that] by (cases "MAX_BODY < length (rq_body req')") (simp_all add: door_def proxy_handler_def)
  have "closed_door (\<lambda>handler. validate_auth env now (door handler) req) st"
  proof (cases "bearer_token req")
    case None
    then show ?thesis by (rule validate_auth_no_token) (intro proxy closed_door_no_token, simp)
  next
    case (Some tok)
    then obtain c s where enc: "jw_encode (ge_jwt env) c s = Inr tok" using assms(4) by blast
    show ?thesis
    proof (cases "s = jw_config_secret (ge_jwt env)")
      case True
      then have "\<not> next_fault (js_db (sv_jwt st))" using False Some enc by blast
      then have "closed_door (\<lambda>handler. door handler req') st" if "bearer_token req' = Some tok" for req'
        using that True assms(3) by (intro proxy closed_door_foreign_token [OF assms(1,2) enc]) auto
      then show ?thesis by (rule validate_auth_token [OF Some])
    next
      case False
      then have "jw_decode (ge_jwt env) (now div 1000000) tok (jw_config_secret (ge_jwt env)) = Inl BadSignature"
        using assms(1) enc by (auto simp: jwt_law_def)
      then show ?thesis using Some by (simp add: validate_auth_def validate_token_sync_def)
    qed
  qed
  then show ?thesis by (simp add: closed_door_def gateway_def door_def)
qed simp

section \<open>API keys over time\<close>

datatype key_op = CreateKey timestamp bytes uuid string "string list" | ValidateKey timestamp string | RevokeKey uuid uuid

fun run_key_op :: "(string \<Rightarrow> string) \<Rightarrow> key_op \<Rightarrow> pgdb \<Rightarrow> pgdb" where
  "run_key_op hash (CreateKey now rb user_id name ps) s = snd (create_key hash now rb user_id name ps s)"
| "run_key_op hash (ValidateKey now raw) s = snd (validate_key hash now raw s)"
| "run_key_op hash (RevokeKey key_id user_id) s = snd (revoke_key key_id user_id s)"

definition run_key_ops :: "(string \<Rightarrow> string) \<Rightarrow> key_op list \<Rightarrow> pgdb \<Rightarrow> pgdb" where
  "run_key_ops hash ops s = foldl (\<lambda>s op. run_key_op hash op s) s ops"

fun other_key :: "(string \<Rightarrow> string) \<Rightarrow> string \<Rightarrow> key_op \<Rightarrow> bool" where
  "other_key hash h (CreateKey now rb user_id name ps) = (hash (generate_key rb) \<noteq> h)"
| "other_key hash h _ = True"

text \<open>The one row with a given hash, and whether it is revoked.\<close>

definition key_row :: "string \<Rightarrow> api_key \<Rightarrow> bool \<Rightarrow> pgdb \<Rightarrow> bool" where
  "key_row h k revoked s \<longleftrightarrow> db_faults s = [] \<and>
     (\<exists>used. filter (\<lambda>x. ak_key_hash x = h) (db_api_keys s) = [k\<lparr>ak_last_used_at := used, ak_revoked := revoked\<rparr>])"

lemma filter_map_same: "(\<And>x. P (f x) = P x) \<Longrightarrow> filter P (map f xs) = map f (filter P xs)"
  by (induction xs) auto

lemma find_filter: "find P (filter Q xs) = (case filter Q (filter P xs) of [] \<Rightarrow> None | x # _ \<Rightarrow> Some x)"
  by (induction xs) auto

lemma key_row_update:
  assumes "key_row h k b s" and "db_api_keys t = map f (db_api_keys s)" and "db_faults t = []" and "\<And>x. ak_key_hash (f x) = ak_key_hash x"
    and "\<And>used. \<exists>used'. f (k\<lparr>ak_last_used_at := used, ak_revoked := b\<rparr>) = k\<lparr>ak_last_used_at := used', ak_revoked := b'\<rparr>"
  shows "key_row h k b' t"
proof -
  have "filter (\<lambda>x. ak_key_hash x = h) (map f (db_api_keys s)) = map f (filter (\<lambda>x. ak_key_hash x = h) (db_api_keys s))"
    by (rule filter_map_same) (simp add: assms(4))
  then show ?thesis using assms(1-3,5) by (force simp: key_row_def)
qed

lemma key_row_create:
  assumes "key_row h k b s" and "hash (generate_key rb) \<noteq> h"
  shows "key_row h k b (snd (create_key hash now rb user_id name ps s))"
  using assms by (auto simp: key_row_def create_key_def db_evals map_errA_def next_fault_def tick_def)

lemma key_row_validate:
  assumes "key_row h k b s"
  shows "key_row h k b (snd (validate_key hash now raw s))"
proof -
  have f: "db_faults s = []" using assms by (simp add: key_row_def)
  then have "db_faults (snd (validate_key hash now raw s)) = [] \<and> (db_api_keys (snd (validate_key hash now raw s)) = db_api_keys s \<or>
     (\<exists>i. db_api_keys (snd (validate_key hash now raw s)) = map (\<lambda>k. if ak_id k = i then k\<lparr>ak_last_used_at := Some now\<rparr> else k) (db_api_keys s)))"
    by (auto simp: validate_key_def update_last_used_def ignoreA_def map_errA_def db_evals tick_def next_fault_def split: option.splits)
  then show ?thesis
  proof (elim conjE disjE exE)
    assume "db_faults (snd (validate_key hash now raw s)) = []" "db_api_keys (snd (validate_key hash now raw s)) = db_api_keys s"
    then show ?thesis using assms by (simp add: key_row_def)
  next
    fix i assume "db_faults (snd (validate_key hash now raw s)) = []"
      "db_api_keys (snd (validate_key hash now raw s)) = map (\<lambda>k. if ak_id k = i then k\<lparr>ak_last_used_at := Some now\<rparr> else k) (db_api_keys s)"
    note rows = this
    show ?thesis by (rule key_row_update [OF assms rows(2,1)]; cases k; auto)
  qed
qed

lemma key_row_revoke:
  assumes "key_row h k b s"
  shows "key_row h k (b \<or> ak_id k = i \<and> ak_user_id k = u) (snd (revoke_key i u s))"
proof -
  let ?f = "\<lambda>k. if ak_id k = i \<and> ak_user_id k = u then k\<lparr>ak_revoked := True\<rparr> else k"
  have "db_api_keys (snd (revoke_key i u s)) = map ?f (db_api_keys s)" "db_faults (snd (revoke_key i u s)) = []"
    using assms by (auto simp: key_row_def revoke_key_def db_evals map_errA_def next_fault_def tick_def)
  then show ?thesis by (rule key_row_update [OF assms]) auto
qed

lemma key_row_run:
  assumes "key_row h k b s" and "list_all (other_key hash h) ops"
  shows "key_row h k (b \<or> RevokeKey (ak_id k) (ak_user_id k) \<in> set ops) (run_key_ops hash ops s)"
  using assms
proof (induction ops arbitrary: b s)
  case Nil
  then show ?case by (simp add: run_key_ops_def)
next
  case (Cons op ops)
  have "key_row h k (b \<or> op = RevokeKey (ak_id k) (ak_user_id k)) (run_key_op hash op s)"
  proof (cases op)
    case (RevokeKey i u)
    then show ?thesis using key_row_revoke [OF Cons.prems(1), of i u] by (simp add: eq_commute)
  qed (use Cons.prems in \<open>simp_all add: key_row_create key_row_validate\<close>)
  from Cons.IH [OF this] Cons.prems(2) show ?case by (simp add: run_key_ops_def disj_assoc eq_commute)
qed

lemma validate_key_row:
  assumes "key_row (hash raw) k b s" and "ak_key_prefix k = take KEY_PREFIX_LEN raw" and "KEY_PREFIX_LEN \<le> length raw"
  shows "\<exists>used. fst (validate_key hash now raw s) = (if b then Inl KeyNotFound else Inr (k\<lparr>ak_last_used_at := used, ak_revoked := False\<rparr>))"
proof -
  obtain used where row: "filter (\<lambda>x. ak_key_hash x = hash raw) (db_api_keys s) = [k\<lparr>ak_last_used_at := used, ak_revoked := b\<rparr>]" "db_faults s = []"
    using assms(1) by (auto simp: key_row_def)
  then have "find (\<lambda>x. ak_key_hash x = hash raw) (filter (\<lambda>x. ak_key_prefix x = take KEY_PREFIX_LEN raw \<and> \<not> ak_revoked x) (db_api_keys s)) =
      (if b then None else Some (k\<lparr>ak_last_used_at := used, ak_revoked := False\<rparr>))"
    using assms(2) by (simp add: find_filter)
  then show ?thesis using assms(3) row(2) by (intro exI [of _ used]) (simp add: validate_key_def db_evals map_errA_def ignoreA_def next_fault_def)
qed

text \<open>
  The life of an API key: after any sequence of operations on keys, a key that was created is accepted, as the key of
  its user with its name and permissions, exactly as long as its user has not revoked it; after that it is not found. That the
  server would answer that a key was revoked never happens.
\<close>

theorem api_key_until_revoked:
  assumes "create_key hash now rb user_id name permissions s = (Inr ck, t)" and "db_faults s = []"
    and "hash (generate_key rb) \<notin> ak_key_hash ` set (db_api_keys s)" and "list_all (other_key hash (hash (generate_key rb))) ops" and "4 \<le> length rb"
  shows "\<exists>used. fst (validate_key hash now' (ck_key ck) (run_key_ops hash ops t)) =
    (if RevokeKey (ck_id ck) user_id \<in> set ops then Inl KeyNotFound
     else Inr \<lparr>ak_id = ck_id ck, ak_user_id = user_id, ak_key_hash = hash (ck_key ck), ak_key_prefix = take KEY_PREFIX_LEN (ck_key ck), ak_name = name,
               ak_permissions = permissions, ak_created_at = now, ak_last_used_at = used, ak_revoked = False\<rparr>)"
proof -
  define k where "k = \<lparr>ak_id = ck_id ck, ak_user_id = user_id, ak_key_hash = hash (ck_key ck), ak_key_prefix = take KEY_PREFIX_LEN (ck_key ck),
    ak_name = name, ak_permissions = permissions, ak_created_at = now, ak_last_used_at = None, ak_revoked = False\<rparr>"
  have key: "ck_key ck = generate_key rb" and t: "db_api_keys t = db_api_keys s @ [k]" "db_faults t = []"
    using assms(1,2) by (auto simp: create_key_def db_evals map_errA_def next_fault_def tick_def k_def split: if_splits)
  have "filter (\<lambda>x. ak_key_hash x = hash (generate_key rb)) (db_api_keys t) = [k\<lparr>ak_last_used_at := None, ak_revoked := False\<rparr>]"
    using assms(3) unfolding t by (auto simp: k_def key filter_empty_conv image_iff)
  then have "key_row (hash (ck_key ck)) k False t" using t(2) unfolding key_row_def key by blast
  note row = key_row_run [OF this, of hash ops] 
  have "length (generate_key rb) = 4 + sum_list (map (\<lambda>_. 2) rb)" by (simp add: generate_key_def length_concat o_def)
  then have "KEY_PREFIX_LEN \<le> length (ck_key ck)" using assms(5) by (simp add: key KEY_PREFIX_LEN_def sum_list_triv)
  then obtain used where "fst (validate_key hash now' (ck_key ck) (run_key_ops hash ops t)) =
      (if RevokeKey (ck_id ck) user_id \<in> set ops then Inl KeyNotFound else Inr (k\<lparr>ak_last_used_at := used, ak_revoked := False\<rparr>))"
    using validate_key_row [of hash "ck_key ck", OF row, of now'] assms(4) by (auto simp: k_def key)
  then show ?thesis by (intro exI [of _ used]) (simp add: k_def)
qed

section \<open>Signed requests\<close>

text \<open>
  What the gateway forwards passes the check of the server: when a client sends none of the three headers itself, the clocks differ by
  at most thirty seconds and the nonce is new, the signature is accepted, for every method, path and body up to the limit, and
  whatever the query is, which is not signed.
\<close>

theorem forwarded_requests_verify:
  assumes "header_names = fst ` set (rq_headers req)" and "''x-signature'' \<notin> header_names" "''x-timestamp'' \<notin> header_names" "''x-nonce'' \<notin> header_names"
    and "in_i64 (now div 1000000)" and "\<bar>now' div 1000000 - now div 1000000\<bar> \<le> 30" and "nonces (nonce_key nonce) = None"
    and "list_all visible nonce" and "\<And>b. list_all visible (sg_hex (ge_sign env) b)" and "length (rq_body req) \<le> BODY_LIMIT"
  shows "verify_call (ge_sign env) (ge_signing_secret env) (False, False) now' (signed_of (proxied env now nonce (req\<lparr>rq_query := query\<rparr>))) nonces =
    (Inr (signed_of (proxied env now nonce req)), nonces(nonce_key nonce \<mapsto> now' + 60000000))"
proof -
  define hs where "hs = filter (\<lambda>h. forwarded (fst h)) (rq_headers req)"
  have none: "map_of hs ''x-signature'' = None" "map_of hs ''x-timestamp'' = None" "map_of hs ''x-nonce'' = None"
    using assms(1-4) by (auto simp: hs_def map_of_eq_None_iff)
  have digits: "list_all visible (show_nat n)" for n
    using show_nat_digits [of n] by (auto simp: list_all_iff visible_def is_digit_def Let_def)
  have "visible CHR ''-''" by (simp add: visible_def)
  then have ts: "list_all visible (show_int i)" for i using digits by (simp add: show_int_def)
  have sig: "list_all visible (compute_signature (ge_sign env) secret m p b ts n)" for secret m p b ts n
    using assms(9) by (simp add: compute_signature_def)
  have req: "signed_of (proxied env now nonce (req\<lparr>rq_query := q\<rparr>)) =
      \<lparr>sr_method = rq_method req, sr_path = rq_path req, sr_body = rq_body req,
       sr_signature = Some (compute_signature (ge_sign env) (ge_signing_secret env) (rq_method req) (rq_path req) (rq_body req) (now div 1000000) nonce),
       sr_timestamp = Some (show_int (now div 1000000)), sr_nonce = Some nonce\<rparr>" for q
    using none ts sig assms(8) by (simp add: signed_of_def proxied_def sign_request_def header_get_def map_add_def flip: hs_def)
  have "req = req\<lparr>rq_query := rq_query req\<rparr>" by simp
  then have "signed_of (proxied env now nonce req) = signed_of (proxied env now nonce (req\<lparr>rq_query := query\<rparr>))" using req by metis
  moreover have "wrap64 (now' div 1000000 - now div 1000000) = now' div 1000000 - now div 1000000"
    "wrap64 \<bar>now' div 1000000 - now div 1000000\<bar> = \<bar>now' div 1000000 - now div 1000000\<bar>"
    using assms(6) by (auto intro!: wrap64_small)
  ultimately show ?thesis using assms(5-7,10) by (simp add: req verify_call_def body_bytes_def MAX_AGE_SECS_def NONCE_TTL_SECS_def Let_def)
qed

section \<open>Samples\<close>

text \<open>A token library that can make tokens of one content only: the token is the secret.\<close>

definition token_env :: "claims \<Rightarrow> jwt_env" where
  "token_env c0 = \<lparr>jw_encode = (\<lambda>c s. if c = c0 then Inr s else Inl []),
     jw_decode = (\<lambda>now tok s. if s \<noteq> tok then Inl BadSignature else if cl_exp c0 < now - 60 then Inl ExpiredSignature else Inr c0),
     jw_error_text = (\<lambda>_. []), jw_has_service = True, jw_config_secret = ''config''\<rparr>"

lemma token_env_law: "jwt_law (token_env c0)"
  by (auto simp: jwt_law_def token_env_def split: if_splits)

definition trader_claims :: claims where
  "trader_claims = \<lparr>cl_sub = 7, cl_email = ''t@x'', cl_permissions = [''trader''], cl_exp = 86400, cl_iat = 0, cl_kid = None\<rparr>"

definition trader_state :: jwt_state where
  "trader_state = \<lparr>js_db = empty_db\<lparr>db_roles := seed_roles, db_permissions := seed_permissions, db_user_roles := [(7, 2)],
       db_users := [\<lparr>us_id = 7, us_email = ''t@x'', us_password_hash = bcrypt_bytes ''pw'', us_created_at = 0, us_updated_at = 0\<rparr>],
       db_jwt_keys := [\<lparr>jk_id = 1, jk_key_secret = ''key'', jk_active = True, jk_created_at = 0\<rparr>]\<rparr>, js_cache = None\<rparr>"

definition bearer_request :: "string \<Rightarrow> request" where
  "bearer_request tok = \<lparr>rq_method = ''POST'', rq_path = ''/intents'', rq_query = None, rq_headers = [(''authorization'', ''Bearer '' @ tok)],
     rq_body = [], rq_claims = None\<rparr>"

lemma trader_login:
  "\<exists>st'. login_handler (token_env trader_claims) sample_user_env 0 [] ''t@x'' ''pw'' trader_state =
     (Inr \<lparr>tr_token = ''key'', tr_user_id = ''7'', tr_email = ''t@x'', tr_roles = [''trader'']\<rparr>, st')"
proof -
  have "show_nat 7 = ''7''" by code_simp
  moreover have "wrap64 86400 = 86400" by (simp add: wrap64_def)
  ultimately show ?thesis
    by (simp add: login_handler_def login_user_def issue_token_def create_token_def get_signing_secret_def get_active_key_def newest_active_def
        jwt_db_def map_errA_def liftR_def db_evals trader_state_def find_by_email_def sample_user_env_def token_env_def trader_claims_def next_fault_def tick_def
        get_user_role_names_def roles_of_def seed_roles_def TOKEN_EXPIRY_SECS_def)
qed

definition server_with :: "jwt_state \<Rightarrow> server_state" where
  "server_with j = \<lparr>sv_jwt = j, sv_nonces = (\<lambda>_. None), sv_csrf = (\<lambda>_. None)\<rparr>"

lemma bearer_request_token: "list_all visible tok \<Longrightarrow> bearer_token (bearer_request tok) = Some tok"
  by (simp add: bearer_token_def bearer_request_def header_get_def visible_def strip_prefix_def starts_with_def)


definition registered_claims :: claims where
  "registered_claims = \<lparr>cl_sub = 100, cl_email = ''user@test.com'', cl_permissions = trader_strings, cl_exp = 86400, cl_iat = 0, cl_kid = None\<rparr>"

lemma sample_registration:
  "\<exists>tr st'. register_handler (token_env registered_claims) sample_user_env 0 [] [] ''user@test.com'' ''C0mpl3x!Pass#'' trader_state = (Inr tr, st') \<and> tr_token tr = ''key''"
proof -
  let ?s = "js_db trader_state"
  obtain s1 where 1: "register_user sample_user_env 0 [] ''user@test.com'' ''C0mpl3x!Pass#'' ?s = (Inr \<lparr>ar_user_id = 100, ar_email = ''user@test.com''\<rparr>, s1)"
    "db_faults s1 = []" "db_roles s1 = seed_roles" "db_permissions s1 = seed_permissions" "db_user_roles s1 = [(7, 2)]" "100 \<in> us_id ` set (db_users s1)"
    "db_jwt_keys s1 = db_jwt_keys ?s"
    by (simp add: register_evals sample_user_env_def validate_password_def sample_password_ok find_by_email_def next_fault_def tick_def trader_state_def)
  obtain s2 where 2: "assign_role 100 ''trader'' s1 = (Inr (), s2)" "db_user_roles s2 = [(7, 2), (100, 2)]" "roles_seeded s2" "db_faults s2 = []" "db_jwt_keys s2 = db_jwt_keys ?s"
    using assign_trader [of s1 100] 1 by (auto simp: roles_seeded_def)
  obtain s3 where 3: "get_user_permission_strings 100 s2 = (Inr trader_strings, s3)" "db_jwt_keys s3 = db_jwt_keys ?s" "db_faults s3 = []"
    using trader_permission_strings [of s2 100] 2 by auto
  have "wrap64 86400 = 86400" by (simp add: wrap64_def)
  then have "\<exists>j. create_token (token_env registered_claims) 0 [] 100 ''user@test.com'' trader_strings (trader_state\<lparr>js_db := s3\<rparr>) = (Inr ''key'', j)"
    using 3 by (simp add: create_token_def get_signing_secret_def get_active_key_def newest_active_def jwt_db_def map_errA_def liftR_def db_evals next_fault_def
        token_env_def registered_claims_def TOKEN_EXPIRY_SECS_def trader_state_def)
  then show ?thesis using 1 2 3 by (auto simp: register_handler_def jwt_db_def map_errA_def action_evals issue_token_def)
qed


definition sample_gateway_env :: gateway_env where
  "sample_gateway_env = \<lparr>ge_jwt = token_env trader_claims, ge_hash = (\<lambda>s. s), ge_uuid_text = show_nat,
     ge_sign = \<lparr>sg_hmac = (\<lambda>_ m. m), sg_hex = (\<lambda>b. concat (map (\<lambda>_. ''00'') b))\<rparr>, ge_signing_secret = ''s'', ge_has_keys = True\<rparr>"

theorem gateway_reaches_no_handler_witness:
  "\<exists>r t. (\<forall>handler. gateway sample_gateway_env 5 ''n'' (Some (server sample_gateway_env True (False, False) 6 handler)) (bearer_request ''config'')
      (server_with trader_state) = (r, t)) \<and> (\<forall>x. r = Inr x \<longrightarrow> 400 \<le> rs_status x)"
proof -
  have "jwt_law (ge_jwt sample_gateway_env)" by (simp add: sample_gateway_env_def token_env_law)
  moreover have "jw_has_service (ge_jwt sample_gateway_env)" "jw_config_secret (ge_jwt sample_gateway_env) = ''config''"
    by (simp_all add: sample_gateway_env_def token_env_def)
  moreover have "\<forall>tok. bearer_token (bearer_request ''config'') = Some tok \<longrightarrow> (\<exists>c s. jw_encode (ge_jwt sample_gateway_env) c s = Inr tok)"
    by (auto simp: sample_gateway_env_def token_env_def)
  moreover have "jk_key_secret ` set (db_jwt_keys (js_db (sv_jwt (server_with trader_state)))) = {''key''}" "\<not> next_fault (js_db (sv_jwt (server_with trader_state)))"
    by (simp_all add: server_with_def trader_state_def next_fault_def)
  ultimately show ?thesis
    using gateway_reaches_no_handler [of sample_gateway_env "server_with trader_state" "bearer_request ''config''" 5 "''n''" True "(False, False)" 6] by simp
qed

theorem api_key_until_revoked_witness:
  "\<exists>ck t. create_key (\<lambda>s. s) 5 [1, 2, 3, 4] 7 ''bot'' [''admin''] (js_db trader_state) = (Inr ck, t) \<and> ck_id ck = 100 \<and>
     (\<exists>k. fst (validate_key (\<lambda>s. s) 6 (ck_key ck) t) = Inr k \<and> ak_permissions k = [''admin'']) \<and>
     fst (validate_key (\<lambda>s. s) 6 (ck_key ck) (run_key_ops (\<lambda>s. s) [RevokeKey 100 7] t)) = Inl KeyNotFound"
proof -
  obtain ck t where c: "create_key (\<lambda>s. s) 5 [1, 2, 3, 4] 7 ''bot'' [''admin''] (js_db trader_state) = (Inr ck, t)" "ck_id ck = 100"
    by (simp add: create_key_def db_evals map_errA_def next_fault_def trader_state_def)
  have q: "db_faults (js_db trader_state) = []" "generate_key [1, 2, 3, 4] \<notin> ak_key_hash ` set (db_api_keys (js_db trader_state))"
    by (simp_all add: trader_state_def)
  have "run_key_ops (\<lambda>s. s) [] t = t" by (simp add: run_key_ops_def)
  then obtain used where "fst (validate_key (\<lambda>s. s) 6 (ck_key ck) t) = Inr \<lparr>ak_id = ck_id ck, ak_user_id = 7, ak_key_hash = ck_key ck,
      ak_key_prefix = take KEY_PREFIX_LEN (ck_key ck), ak_name = ''bot'', ak_permissions = [''admin''], ak_created_at = 5, ak_last_used_at = used, ak_revoked = False\<rparr>"
    using api_key_until_revoked [OF c(1) q, of "[]" 6] by auto
  moreover have "fst (validate_key (\<lambda>s. s) 6 (ck_key ck) (run_key_ops (\<lambda>s. s) [RevokeKey 100 7] t)) = Inl KeyNotFound"
    using api_key_until_revoked [OF c(1) q, of "[RevokeKey 100 7]" 6] c(2) by simp
  ultimately show ?thesis using c by (intro exI [of _ ck] exI [of _ t]) simp
qed

theorem forwarded_requests_verify_witness:
  "fst (verify_call (ge_sign sample_gateway_env) (ge_signing_secret sample_gateway_env) (False, False) 20000000
     (signed_of (proxied sample_gateway_env 5000000 ''n'' (bearer_request ''key''\<lparr>rq_query := Some ''a=b''\<rparr>))) (\<lambda>_. None)) =
   Inr (signed_of (proxied sample_gateway_env 5000000 ''n'' (bearer_request ''key'')))"
proof -
  have "list_all visible (sg_hex (ge_sign sample_gateway_env) b)" for b
    by (auto simp: sample_gateway_env_def list_all_iff visible_def)
  then show ?thesis
    using forwarded_requests_verify [OF refl, of "bearer_request ''key''" 5000000 20000000 "\<lambda>_. None" "''n''" sample_gateway_env "Some ''a=b''"]
    by (simp add: bearer_request_def in_i64_iff visible_def)
qed

end
