(* ===== verification/Idempotency.thy ===== *)
theory Idempotency
  imports Api_Access
begin

text \<open>
  Two layers between the token check and the handlers of the protected routes: stored answers for repeated requests
  (src/idempotency) and form tokens against forged requests (src/csrf). The server mounts the first outside the
  second. Answers are stored as text: the lossy conversion of bytes is a parameter. Redis may be
  unreachable (\<open>down\<close>).
\<close>

section \<open>Stored answers\<close>

definition lookup_response :: "string \<Rightarrow> (pgdb, 'e, cached_response option) action" where
  "lookup_response key =
     bindA (tryA (sql_query (\<lambda>s. find (\<lambda>r. cr_key r = key) (db_responses s)))) (\<lambda>r.
     returnA (case r of Inr found \<Rightarrow> found | Inl _ \<Rightarrow> None))"

definition store_response :: "cached_response \<Rightarrow> unit dbm" where
  "store_response row =
     sql_exec (\<lambda>s. if cr_key row \<in> cr_key ` set (db_responses s) then Inr ((), s)
                   else Inr ((), s\<lparr>db_responses := db_responses s @ [row]\<rparr>))"

definition cached_status :: "int \<Rightarrow> int" where
  "cached_status code = (let n = code mod 2 ^ 16 in if 100 \<le> n \<and> n \<le> 999 then n else 500)"

definition build_cached_response :: "cached_response \<Rightarrow> response" where
  "build_cached_response cached = \<lparr>rs_status = cached_status (cr_status_code cached), rs_body = cr_response_body cached, rs_replay = True\<rparr>"

definition conflict_response :: response where
  "conflict_response = \<lparr>rs_status = 422, rs_body = ''Idempotency key already used for a different request'', rs_replay = False\<rparr>"

definition is_mutating :: "request \<Rightarrow> bool" where
  "is_mutating req = (rq_method req \<in> {''POST'', ''PUT'', ''PATCH''})"

definition header_user :: "request \<Rightarrow> string" where
  "header_user req = (case header_get ''x-user-id'' req of Some u \<Rightarrow> u | None \<Rightarrow> [])"

definition request_hash :: "request \<Rightarrow> string" where
  "request_hash req = rq_method req @ '':'' @ rq_path req @ '':'' @ header_user req"

text \<open>A body above the limit is read as empty.\<close>

definition read_body :: "string \<Rightarrow> string" where
  "read_body b = (if MAX_BODY < length b then [] else b)"

definition idempotency_call :: "(string \<Rightarrow> string) \<Rightarrow> handler \<Rightarrow> handler" where
  "idempotency_call lossy inner req =
     (if \<not> is_mutating req then inner req
      else case header_get ''idempotency-key'' req of
        None \<Rightarrow> inner req
      | Some key \<Rightarrow>
          bindA (on_db (lookup_response key)) (\<lambda>found.
          case found of
            Some cached \<Rightarrow>
              returnA (if cr_request_hash cached \<noteq> request_hash req then conflict_response else build_cached_response cached)
          | None \<Rightarrow>
              bindA (inner req) (\<lambda>response.
              let body = read_body (rs_body response) in
              seqA (ignoreA (on_db (store_response
                \<lparr>cr_key = key, cr_user_id = header_user req, cr_request_hash = request_hash req, cr_status_code = rs_status response,
                 cr_response_body = lossy body\<rparr>)))
              (returnA (response\<lparr>rs_body := body\<rparr>)))))"

section \<open>Form tokens\<close>

definition TOKEN_TTL_SECS :: int where "TOKEN_TTL_SECS = 3600"

definition csrf_key :: "string \<Rightarrow> string" where
  "csrf_key token = ''csrf:'' @ token"

definition csrf_generate_token :: "(uuid \<Rightarrow> string) \<Rightarrow> bool \<Rightarrow> timestamp \<Rightarrow> string \<Rightarrow> string server_action" where
  "csrf_generate_token uuid_text down now user_id =
     bindA (on_db new_uuid) (\<lambda>i.
     let token = uuid_text i in
     seqA (whenA (\<not> down) (modifyA (\<lambda>st. st\<lparr>sv_csrf := (sv_csrf st)(csrf_key token \<mapsto> (user_id, now + TOKEN_TTL_SECS * 1000000))\<rparr>)))
     (returnA token))"

definition csrf_validate_token :: "bool \<Rightarrow> timestamp \<Rightarrow> string \<Rightarrow> string option server_action" where
  "csrf_validate_token down now token st =
     (case (if down then None else sv_csrf st (csrf_key token)) of
        Some (user_id, expires) \<Rightarrow>
          if now < expires then (Inr (Some user_id), st\<lparr>sv_csrf := (sv_csrf st)(csrf_key token := None)\<rparr>) else (Inr None, st)
      | None \<Rightarrow> (Inr None, st))"

definition get_csrf_token :: "(uuid \<Rightarrow> string) \<Rightarrow> bool \<Rightarrow> timestamp \<Rightarrow> request \<Rightarrow> string server_action" where
  "get_csrf_token uuid_text down now req =
     csrf_generate_token uuid_text down now (case header_get ''x-user-id'' req of Some u \<Rightarrow> u | None \<Rightarrow> ''anonymous'')"

text \<open>\<open>cookies.split(';').find_map(..)\<close>\<close>

definition cookie_value :: "string \<Rightarrow> string option" where
  "cookie_value c = (let c = trim c in
     if starts_with c ''csrf_token'' then (case splitn 2 CHR ''='' c of [_, v] \<Rightarrow> Some v | _ \<Rightarrow> None) else None)"

definition cookie_token :: "request \<Rightarrow> string option" where
  "cookie_token req =
     Option.bind (header_get ''cookie'' req) (\<lambda>cookies.
       case filter (\<lambda>v. v \<noteq> None) (map cookie_value (split_on CHR '';'' cookies)) of [] \<Rightarrow> None | v # _ \<Rightarrow> v)"

definition csrf_call :: "bool \<Rightarrow> timestamp \<Rightarrow> handler \<Rightarrow> handler" where
  "csrf_call down now inner req =
     (if rq_method req \<in> {''GET'', ''HEAD'', ''OPTIONS''} then inner req
      else case header_get ''x-csrf-token'' req of
        None \<Rightarrow> respond 403 ''Missing X-CSRF-Token header''
      | Some token \<Rightarrow>
          if cookie_token req \<noteq> None \<and> cookie_token req \<noteq> Some token then respond 403 ''CSRF token mismatch''
          else bindA (csrf_validate_token down now token) (\<lambda>found.
            case found of
              None \<Rightarrow> respond 403 ''Invalid or expired CSRF token''
            | Some token_user \<Rightarrow>
                (case header_get ''x-user-id'' req of
                   Some request_user \<Rightarrow>
                     if request_user \<noteq> token_user \<and> token_user \<noteq> ''anonymous'' then respond 403 ''CSRF token not issued for this user''
                     else inner req
                 | None \<Rightarrow> inner req)))"

text \<open>The two layers of the protected routes, as the server mounts them.\<close>

definition protected_layers :: "(string \<Rightarrow> string) \<Rightarrow> bool \<Rightarrow> timestamp \<Rightarrow> handler \<Rightarrow> handler" where
  "protected_layers lossy down now inner = idempotency_call lossy (csrf_call down now inner)"

section \<open>Replays\<close>

text \<open>A handler that leaves the stored answers alone, and a database without failures.\<close>

definition keeps_responses :: "handler \<Rightarrow> bool" where
  "keeps_responses h \<longleftrightarrow> (\<forall>req st. db_responses (js_db (sv_jwt (snd (h req st)))) = db_responses (js_db (sv_jwt st)) \<and>
     (db_faults (js_db (sv_jwt st)) = [] \<longrightarrow> db_faults (js_db (sv_jwt (snd (h req st)))) = []))"

abbreviation server_db :: "server_state \<Rightarrow> pgdb" where
  "server_db st \<equiv> js_db (sv_jwt st)"

definition stored :: "string \<Rightarrow> cached_response \<Rightarrow> server_state \<Rightarrow> bool" where
  "stored key row st \<longleftrightarrow> db_faults (server_db st) = [] \<and> find (\<lambda>r. cr_key r = key) (db_responses (server_db st)) = Some row"

fun serve_all :: "(string \<Rightarrow> string) \<Rightarrow> (handler \<times> request) list \<Rightarrow> server_state \<Rightarrow> server_state" where
  "serve_all lossy [] st = st"
| "serve_all lossy ((h, req) # rqs) st = serve_all lossy rqs (snd (idempotency_call lossy h req st))"

lemma lookup_response_quiet:
  "db_faults (server_db st) = [] \<Longrightarrow>
     on_db (lookup_response key) st = (Inr (find (\<lambda>r. cr_key r = key) (db_responses (server_db st))), st)"
  by (simp add: on_db_def on_jwt_def jwt_db_def lookup_response_def db_evals next_fault_def tick_def)

lemma store_response_quiet:
  assumes "db_faults (server_db st) = []"
  shows "\<exists>rows. db_responses (server_db (snd (on_db (store_response row) st))) = db_responses (server_db st) @ rows"
    "db_faults (server_db (snd (on_db (store_response row) st))) = []"
    "find (\<lambda>r. cr_key r = cr_key row) (db_responses (server_db st)) = None \<Longrightarrow>
       db_responses (server_db (snd (on_db (store_response row) st))) = db_responses (server_db st) @ [row]"
  using assms by (auto simp: on_db_def on_jwt_def jwt_db_def store_response_def db_evals next_fault_def tick_def find_None_iff image_iff)

lemma idempotency_evals:
  assumes "db_faults (server_db st) = []" "is_mutating req" "header_get ''idempotency-key'' req = Some key"
  shows "idempotency_call lossy h req st =
    (case find (\<lambda>r. cr_key r = key) (db_responses (server_db st)) of
       Some cached \<Rightarrow> (Inr (if cr_request_hash cached \<noteq> request_hash req then conflict_response else build_cached_response cached), st)
     | None \<Rightarrow> (case h req st of (Inl e, t) \<Rightarrow> (Inl e, t)
         | (Inr r, t) \<Rightarrow> (Inr (r\<lparr>rs_body := read_body (rs_body r)\<rparr>), snd (on_db (store_response
             \<lparr>cr_key = key, cr_user_id = header_user req, cr_request_hash = request_hash req, cr_status_code = rs_status r,
              cr_response_body = lossy (read_body (rs_body r))\<rparr>) t))))"
  using assms by (simp add: idempotency_call_def bindA_def lookup_response_quiet returnA_def seqA_def ignoreA_def Let_def
      split: option.splits prod.splits sum.splits)

lemma keeps_responsesD:
  assumes "keeps_responses h" and "db_faults (server_db st) = []"
  shows "db_responses (server_db (snd (h req st))) = db_responses (server_db st)" "db_faults (server_db (snd (h req st))) = []"
  using assms by (simp_all add: keeps_responses_def)

lemma stored_append:
  assumes "stored key row st" and "db_responses (server_db t) = db_responses (server_db st) @ rows" and "db_faults (server_db t) = []"
  shows "stored key row t"
  using assms by (simp add: stored_def find_append)

lemma idempotency_appends:
  assumes "keeps_responses h" and "db_faults (server_db st) = []"
  shows "db_faults (server_db (snd (idempotency_call lossy h req st))) = [] \<and>
    (\<exists>rows. db_responses (server_db (snd (idempotency_call lossy h req st))) = db_responses (server_db st) @ rows)"
proof (cases "is_mutating req \<and> header_get ''idempotency-key'' req \<noteq> None")
  case False
  then have "idempotency_call lossy h req st = h req st" by (auto simp: idempotency_call_def)
  then show ?thesis using keeps_responsesD [OF assms] by simp
next
  case True
  then obtain key where "is_mutating req" "header_get ''idempotency-key'' req = Some key" by blast
  note ev = idempotency_evals [OF assms(2) this]
  obtain r t where h: "h req st = (r, t)" by fastforce
  then have t: "db_responses (server_db t) = db_responses (server_db st)" "db_faults (server_db t) = []" using keeps_responsesD [OF assms, of req] by simp_all
  show ?thesis
    using assms(2) t store_response_quiet [OF t(2)] unfolding ev h
    by (cases r; cases "find (\<lambda>r. cr_key r = key) (db_responses (server_db st))") fastforce+
qed

lemma stored_serve_all:
  assumes "stored key row st" and "\<forall>(h, req)\<in>set rqs. keeps_responses h"
  shows "stored key row (serve_all lossy rqs st)"
  using assms
proof (induction rqs arbitrary: st)
  case (Cons q rqs)
  obtain h req where q: "q = (h, req)" by fastforce
  then have "stored key row (snd (idempotency_call lossy h req st))"
    using Cons.prems idempotency_appends [of h st lossy req] stored_append [OF Cons.prems(1)] by (auto simp: stored_def)
  then show ?case using Cons q by simp
qed simp

lemma first_answer_stored:
  assumes "keeps_responses h" and "db_faults (server_db st) = []" and "is_mutating req" and "header_get ''idempotency-key'' req = Some key"
    and "find (\<lambda>r. cr_key r = key) (db_responses (server_db st)) = None" and "idempotency_call lossy h req st = (Inr r, t)"
  shows "stored key \<lparr>cr_key = key, cr_user_id = header_user req, cr_request_hash = request_hash req, cr_status_code = rs_status r,
    cr_response_body = lossy (rs_body r)\<rparr> t"
proof -
  obtain r' u where h: "h req st = (Inr r', u)" using assms(5,6) unfolding idempotency_evals [OF assms(2-4)] by (auto split: prod.splits sum.splits)
  then have u: "db_responses (server_db u) = db_responses (server_db st)" "db_faults (server_db u) = []"
    using keeps_responsesD [OF assms(1,2), of req] by simp_all
  have r: "r = r'\<lparr>rs_body := read_body (rs_body r')\<rparr>" and t: "t = snd (on_db (store_response
      \<lparr>cr_key = key, cr_user_id = header_user req, cr_request_hash = request_hash req, cr_status_code = rs_status r, cr_response_body = lossy (rs_body r)\<rparr>) u)"
    using assms(5,6) h unfolding idempotency_evals [OF assms(2-4)] by auto
  show ?thesis unfolding t stored_def
    using store_response_quiet(2,3) [OF u(2)] assms(5) u(1) by (simp add: find_append)
qed

lemma stored_answer:
  assumes "stored key row st" and "is_mutating req" and "header_get ''idempotency-key'' req = Some key"
  shows "idempotency_call lossy h req st =
    (Inr (if cr_request_hash row \<noteq> request_hash req then conflict_response else build_cached_response row), st)"
  using assms by (simp add: stored_def idempotency_evals)

text \<open>
  C39. Repeated requests: once the first request with a key has been answered, by any handler that leaves the table alone, and after
  any further requests, each request with that key is answered without running its handler and without a change of
  state: with the stored answer when method, path and the user header are the same, and as a conflict
  otherwise. Neither the body nor the user of the token counts: the answer is also given to other users.
\<close>

theorem repeated_request_replayed:
  assumes "keeps_responses h" and "db_faults (server_db st) = []" and "is_mutating req" and "header_get ''idempotency-key'' req = Some key"
    and "find (\<lambda>r. cr_key r = key) (db_responses (server_db st)) = None" and "idempotency_call lossy h req st = (Inr r, t)"
    and "100 \<le> rs_status r" "rs_status r \<le> 999" and "\<forall>(h, req)\<in>set rqs. keeps_responses h"
    and "is_mutating req'" and "header_get ''idempotency-key'' req' = Some key"
  shows "idempotency_call lossy h' req' (serve_all lossy rqs t) =
    (Inr (if request_hash req' = request_hash req then \<lparr>rs_status = rs_status r, rs_body = lossy (rs_body r), rs_replay = True\<rparr> else conflict_response),
     serve_all lossy rqs t)"
  using stored_answer [OF stored_serve_all [OF first_answer_stored [OF assms(1-6)] assms(9)] assms(10,11)] assms(7,8)
  by (simp add: build_cached_response_def cached_status_def Let_def eq_commute)

lemma csrf_keeps: "keeps_responses h \<Longrightarrow> keeps_responses (csrf_call down now h)"
  by (auto simp: keeps_responses_def csrf_call_def csrf_validate_token_def respond_def action_evals split: option.splits prod.splits)

text \<open>
  A rejection is final: a request that is rejected for its missing form token has its rejection stored under its key, and
  the same request with a valid form token is answered with the stored rejection, without running its handler, however often and
  however late it is repeated.
\<close>

theorem rejection_is_replayed:
  assumes "keeps_responses h" and "db_faults (server_db st) = []" and "is_mutating req" and "header_get ''idempotency-key'' req = Some key"
    and "find (\<lambda>r. cr_key r = key) (db_responses (server_db st)) = None" and "header_get ''x-csrf-token'' req = None"
    and "\<forall>(h, req)\<in>set rqs. keeps_responses h"
    and "header_get ''idempotency-key'' req' = Some key" and "rq_method req' = rq_method req" "rq_path req' = rq_path req" "header_user req' = header_user req"
  shows "fst (protected_layers lossy down now h req st) = Inr \<lparr>rs_status = 403, rs_body = ''Missing X-CSRF-Token header'', rs_replay = False\<rparr> \<and>
    fst (protected_layers lossy down' now' h' req' (serve_all lossy rqs (snd (protected_layers lossy down now h req st)))) =
      Inr \<lparr>rs_status = 403, rs_body = lossy ''Missing X-CSRF-Token header'', rs_replay = True\<rparr>"
proof -
  let ?r = "\<lparr>rs_status = 403, rs_body = ''Missing X-CSRF-Token header'', rs_replay = False\<rparr>"
  have m: "rq_method req \<notin> {''GET'', ''HEAD'', ''OPTIONS''}" using assms(3) by (auto simp: is_mutating_def)
  then have c: "csrf_call down now h req st = (Inr ?r, st)" using assms(6) by (simp add: csrf_call_def respond_def action_evals)
  obtain t where first: "protected_layers lossy down now h req st = (Inr ?r, t)"
    using assms(5) c unfolding protected_layers_def idempotency_evals [OF assms(2-4)] by (simp add: read_body_def MAX_BODY_def)
  have s: "stored key \<lparr>cr_key = key, cr_user_id = header_user req, cr_request_hash = request_hash req, cr_status_code = 403,
      cr_response_body = lossy ''Missing X-CSRF-Token header''\<rparr> t"
    using first_answer_stored [OF csrf_keeps [OF assms(1)] assms(2-5) first [unfolded protected_layers_def]] by simp
  have same: "is_mutating req'" "request_hash req' = request_hash req"
    using assms(3,9-11) by (simp_all add: is_mutating_def request_hash_def)
  show ?thesis
    using stored_answer [OF stored_serve_all [OF s assms(7)] same(1) assms(8)] first same(2)
    by (simp add: protected_layers_def build_cached_response_def cached_status_def Let_def)
qed

section \<open>Samples\<close>

definition ok_handler :: handler where
  "ok_handler req = respond 201 ''created''"

definition keyed_request :: "(string \<times> string) list \<Rightarrow> bytes \<Rightarrow> request" where
  "keyed_request hs body = \<lparr>rq_method = ''POST'', rq_path = ''/intents'', rq_query = None, rq_headers = (''idempotency-key'', ''k1'') # hs,
     rq_body = body, rq_claims = None\<rparr>"

definition sample_server :: server_state where
  "sample_server = \<lparr>sv_jwt = \<lparr>js_db = empty_db, js_cache = None\<rparr>, sv_nonces = (\<lambda>_. None), sv_csrf = (\<lambda>_. None)\<rparr>"

lemma ok_handler_keeps: "keeps_responses ok_handler"
  by (simp add: keeps_responses_def ok_handler_def respond_def action_evals)

lemma keyed_request_facts:
  "is_mutating (keyed_request hs body)" "header_get ''idempotency-key'' (keyed_request hs body) = Some ''k1''"
  "rq_method (keyed_request hs body) = ''POST''" "rq_path (keyed_request hs body) = ''/intents''"
  "header_get ''x-csrf-token'' (keyed_request [] body) = None"
  "header_user (keyed_request [] body) = []" "header_user (keyed_request [(''x-csrf-token'', tok)] body) = []"
  by (simp_all add: is_mutating_def keyed_request_def header_get_def visible_def header_user_def)

lemma sample_server_facts: "db_faults (server_db sample_server) = []" "find P (db_responses (server_db sample_server)) = None"
  by (simp_all add: sample_server_def)

theorem repeated_request_replayed_witness:
  "\<exists>t. idempotency_call id ok_handler (keyed_request [] [1]) sample_server = (Inr \<lparr>rs_status = 201, rs_body = ''created'', rs_replay = False\<rparr>, t) \<and>
     idempotency_call id ok_handler (keyed_request [] [2]) t = (Inr \<lparr>rs_status = 201, rs_body = ''created'', rs_replay = True\<rparr>, t)"
proof -
  obtain t where t: "idempotency_call id ok_handler (keyed_request [] [1]) sample_server = (Inr \<lparr>rs_status = 201, rs_body = ''created'', rs_replay = False\<rparr>, t)"
    unfolding idempotency_evals [OF sample_server_facts(1) keyed_request_facts(1,2)]
    by (simp add: sample_server_facts ok_handler_def respond_def action_evals read_body_def MAX_BODY_def)
  have "request_hash (keyed_request [] [2]) = request_hash (keyed_request [] [1])" by (simp add: request_hash_def keyed_request_facts)
  then show ?thesis
    using repeated_request_replayed [OF ok_handler_keeps sample_server_facts(1) keyed_request_facts(1,2) sample_server_facts(2) t, of "[]"
        "keyed_request [] [2]" ok_handler] t
    by (simp add: keyed_request_facts)
qed

theorem rejection_is_replayed_witness:
  "fst (protected_layers id False 5 ok_handler (keyed_request [(''x-csrf-token'', ''tok'')] [])
     (snd (protected_layers id False 4 ok_handler (keyed_request [] []) sample_server))) =
   Inr \<lparr>rs_status = 403, rs_body = ''Missing X-CSRF-Token header'', rs_replay = True\<rparr>"
  using rejection_is_replayed [where h = ok_handler and st = sample_server and req = "keyed_request [] []" and key = "''k1''" and rqs = "[]" and lossy = id
      and req' = "keyed_request [(''x-csrf-token'', ''tok'')] []" and down = False and now = 4 and down' = False and now' = 5 and h' = ok_handler]
  by (simp add: keyed_request_facts sample_server_facts ok_handler_keeps)

end
