(* ===== verification/Oracle.thy ===== *)
theory Oracle
  imports Risk Rust_Text
begin

text \<open>
  The price oracle (src/oracle/service.rs): it asks three exchanges for the price of each market, takes the median, stores it in
  cents with its history, and caches it in Redis for ten seconds. The answers of the exchanges are JSON values, a function of
  the market and the address; the connection to Redis may fail (\<open>oe_redis_down\<close>).
\<close>

section \<open>Doubles\<close>

fun f64_add :: "f64 \<Rightarrow> f64 \<Rightarrow> f64" where
  "f64_add x (Fin m e) = f64_sub x (Fin (- m) e)"
| "f64_add x PosInf = f64_sub x NegInf"
| "f64_add x NegInf = f64_sub x PosInf"
| "f64_add x NaN = NaN"

text \<open>\<open>f64::min\<close> and \<open>f64::max\<close> leave out a NaN.\<close>

definition f64_min :: "f64 \<Rightarrow> f64 \<Rightarrow> f64" where
  "f64_min x y = (if x = NaN then y else if y = NaN then x else if f64_less y x then y else x)"

definition f64_max :: "f64 \<Rightarrow> f64 \<Rightarrow> f64" where
  "f64_max x y = (if x = NaN then y else if y = NaN then x else if f64_less x y then y else x)"

text \<open>\<open>str::parse\<close> at \<open>f64\<close>: the decimal numbers with an optional exponent, infinities and NaN, rounded correctly.\<close>

definition f64_of_decimal :: "int \<Rightarrow> int \<Rightarrow> f64" where
  "f64_of_decimal d k = (if 0 \<le> k then f64_round (d * 10 ^ nat k) 0 else f64_div (Fin d 0) (Fin (10 ^ nat (- k)) 0))"

definition parse_exponent :: "string \<Rightarrow> int option" where
  "parse_exponent s =
     (let neg = (s \<noteq> [] \<and> hd s = CHR ''-''); ds = (if s \<noteq> [] \<and> hd s \<in> {CHR ''-'', CHR ''+''} then tl s else s) in
      if ds \<noteq> [] \<and> list_all is_digit ds then Some (if neg then - int (digits_value ds) else int (digits_value ds)) else None)"

definition parse_unsigned_f64 :: "bool \<Rightarrow> string \<Rightarrow> f64 option" where
  "parse_unsigned_f64 neg s =
     (let low = map to_lower s in
      if low = ''nan'' then Some NaN
      else if low = ''inf'' \<or> low = ''infinity'' then Some (if neg then NegInf else PosInf)
      else
        let whole = takeWhile is_digit s; rest = dropWhile is_digit s;
            point = (rest \<noteq> [] \<and> hd rest = CHR ''.'');
            frac = (if point then takeWhile is_digit (tl rest) else []);
            tail = (if point then dropWhile is_digit (tl rest) else rest);
            expo = (if tail = [] then Some 0 else if hd tail \<in> {CHR ''e'', CHR ''E''} then parse_exponent (tl tail) else None)
        in if whole @ frac = [] then None
           else map_option (\<lambda>x. let d = int (digits_value (whole @ frac)) in
             f64_of_decimal (if neg then - d else d) (x - int (length frac))) expo)"

definition parse_f64 :: "string \<Rightarrow> f64 option" where
  "parse_f64 s =
     (if s \<noteq> [] \<and> hd s = CHR ''-'' then parse_unsigned_f64 True (tl s)
      else if s \<noteq> [] \<and> hd s = CHR ''+'' then parse_unsigned_f64 False (tl s)
      else parse_unsigned_f64 False s)"

section \<open>Sources\<close>

record source_price =
  so_source :: string
  so_price :: f64

record oracle_env =
  oe_answer :: "uuid \<Rightarrow> string \<Rightarrow> json option"
  oe_hash_index :: "nat \<Rightarrow> nat"
  oe_redis_down :: bool
  oe_avg :: "int list \<Rightarrow> f64"

fun asset_debug :: "asset \<Rightarrow> string" where
  "asset_debug USDC = ''USDC''"
| "asset_debug ETH = ''ETH''"
| "asset_debug BTC = ''BTC''"
| "asset_debug SOL = ''SOL''"

definition symbol_for_market :: "market \<Rightarrow> string" where
  "symbol_for_market k = asset_debug (mk_base_asset k) @ asset_debug (mk_quote_asset k)"

text \<open>A field of type \<open>Option<String>\<close>: \<open>None\<close> outside when the message cannot be decoded.\<close>

definition opt_string :: "string \<Rightarrow> json \<Rightarrow> string option option" where
  "opt_string key v =
     (case v of JObj _ \<Rightarrow> (case json_get key v of None \<Rightarrow> Some None | Some JNull \<Rightarrow> Some None | Some (JStr s) \<Rightarrow> Some (Some s) | Some _ \<Rightarrow> None)
      | _ \<Rightarrow> None)"

definition fetch_binance :: "oracle_env \<Rightarrow> uuid \<Rightarrow> string \<Rightarrow> f64 option" where
  "fetch_binance env i symbol =
     Option.bind (oe_answer env i (''https://api.binance.com/api/v3/ticker/price?symbol='' @ symbol)) (\<lambda>v.
     Option.bind (opt_string ''lastPrice'' v) (\<lambda>last_price.
     Option.bind (opt_string ''price'' v) (\<lambda>price.
     Option.bind (case price of Some p \<Rightarrow> Some p | None \<Rightarrow> last_price) parse_f64)))"

definition fetch_coinbase :: "oracle_env \<Rightarrow> uuid \<Rightarrow> string \<Rightarrow> f64 option" where
  "fetch_coinbase env i symbol =
     Option.bind (oe_answer env i (''https://api.coinbase.com/v2/prices/'' @ take 3 symbol @ ''-'' @ drop 3 symbol @ ''/spot'')) (\<lambda>v.
     Option.bind (Option.bind (json_path [''data'', ''amount''] v) json_str) parse_f64)"

definition kraken_pair :: "string \<Rightarrow> string" where
  "kraken_pair upper =
     (if upper = ''ETHUSDC'' \<or> upper = ''ETHUSD'' then ''XETHZUSD''
      else if upper = ''BTCUSDC'' \<or> upper = ''BTCUSD'' then ''XXBTZUSD''
      else if upper = ''SOLUSDC'' \<or> upper = ''SOLUSD'' then ''SOLUSD''
      else upper)"

definition strings_of :: "json list \<Rightarrow> string list option" where
  "strings_of vs = (if list_all (\<lambda>v. json_str v \<noteq> None) vs then Some (map (\<lambda>v. the (json_str v)) vs) else None)"

text \<open>The optional list \<open>c\<close> of a pair.\<close>

definition kraken_closed :: "json \<Rightarrow> string list option option" where
  "kraken_closed v =
     (case v of JObj _ \<Rightarrow> (case json_get ''c'' v of None \<Rightarrow> Some None | Some JNull \<Rightarrow> Some None
        | Some (JArr vs) \<Rightarrow> map_option Some (strings_of vs) | Some _ \<Rightarrow> None)
      | _ \<Rightarrow> None)"

definition kraken_price :: "oracle_env \<Rightarrow> json \<Rightarrow> f64 option" where
  "kraken_price env v =
     (case v of JObj _ \<Rightarrow> (case json_get ''result'' v of
        Some (JObj pairs) \<Rightarrow>
          let cs = map (\<lambda>(_, p). kraken_closed p) pairs in
          if pairs = [] \<or> None \<in> set cs then None
          else (case cs ! (oe_hash_index env (length cs) mod length cs) of Some (Some (s # _)) \<Rightarrow> parse_f64 s | _ \<Rightarrow> None)
        | _ \<Rightarrow> None)
      | _ \<Rightarrow> None)"

definition fetch_kraken :: "oracle_env \<Rightarrow> uuid \<Rightarrow> string \<Rightarrow> f64 option" where
  "fetch_kraken env i symbol =
     Option.bind (oe_answer env i (''https://api.kraken.com/0/public/Ticker?pair='' @ kraken_pair symbol)) (kraken_price env)"

definition fetch_all_sources :: "oracle_env \<Rightarrow> market \<Rightarrow> source_price list" where
  "fetch_all_sources env k =
     (let symbol = symbol_for_market k; tag = (\<lambda>name p. case p of Some x \<Rightarrow> [\<lparr>so_source = name, so_price = x\<rparr>] | None \<Rightarrow> []) in
      tag ''binance'' (fetch_binance env (mk_id k) symbol) @ tag ''coinbase'' (fetch_coinbase env (mk_id k) symbol) @
      tag ''kraken'' (fetch_kraken env (mk_id k) symbol))"

section \<open>Median and anomalies\<close>

text \<open>
  \<open>sort_by\<close> of at most twenty elements is an insertion sort; with \<open>partial_cmp\<close> and \<open>Equal\<close> for a NaN the
  order is not a total one, and the result is what the insertions make of it.
\<close>

fun insert_back :: "f64 \<Rightarrow> f64 list \<Rightarrow> f64 list" where
  "insert_back x [] = [x]"
| "insert_back x (y # ys) = (if f64_less x y then y # insert_back x ys else x # y # ys)"

definition sort_prices :: "f64 list \<Rightarrow> f64 list" where
  "sort_prices xs = rev (foldl (\<lambda>ys x. insert_back x ys) [] xs)"

definition median :: "f64 list \<Rightarrow> f64" where
  "median prices =
     (let ys = sort_prices prices; n = length ys in
      if n = 0 then Fin 0 0
      else if n mod 2 = 0 then f64_div (f64_add (ys ! (n div 2 - 1)) (ys ! (n div 2))) (f64_of_int 2)
      else ys ! (n div 2))"

definition ANOMALY_THRESHOLD :: f64 where
  "ANOMALY_THRESHOLD = Fin 3602879701896397 (- 53)"

definition detect_anomaly :: "source_price list \<Rightarrow> f64 option" where
  "detect_anomaly ps =
     (if length ps < 2 then None
      else let prices = map so_price ps;
               mn = foldl f64_min PosInf prices;
               mx = foldl f64_max NegInf prices
           in if mn \<noteq> NaN \<and> \<not> f64_less (Fin 0 0) mn then None
              else let deviation = f64_div (f64_sub mx mn) mn in
                if f64_less ANOMALY_THRESHOLD deviation then Some deviation else None)"

section \<open>The price feed\<close>

record oracle_state =
  os_db :: pgdb
  os_cache :: "uuid \<rightharpoonup> market_price \<times> timestamp"
  os_published :: "market_price list"

type_synonym 'a oracle_action = "(oracle_state, sqlx_error, 'a) action"

definition oracle_db :: "(pgdb, 'e, 'a) action \<Rightarrow> (oracle_state, 'e, 'a) action" where
  "oracle_db m st = (case m (os_db st) of (r, s) \<Rightarrow> (r, st\<lparr>os_db := s\<rparr>))"

definition get_cached_price :: "oracle_env \<Rightarrow> timestamp \<Rightarrow> uuid \<Rightarrow> oracle_state \<Rightarrow> market_price option" where
  "get_cached_price env now i st =
     (if oe_redis_down env then None else case os_cache st i of Some (p, expires) \<Rightarrow> if now < expires then Some p else None | None \<Rightarrow> None)"

definition cache_price :: "oracle_env \<Rightarrow> timestamp \<Rightarrow> market_price \<Rightarrow> oracle_state \<Rightarrow> oracle_state" where
  "cache_price env now p st = (if oe_redis_down env then st else st\<lparr>os_cache := (os_cache st)(mp_market_id p \<mapsto> (p, now + 10000000))\<rparr>)"

definition publish_price_update :: "oracle_env \<Rightarrow> market_price \<Rightarrow> oracle_state \<Rightarrow> oracle_state" where
  "publish_price_update env p st = (if oe_redis_down env then st else st\<lparr>os_published := os_published st @ [p]\<rparr>)"

definition find_price :: "uuid \<Rightarrow> pgdb \<Rightarrow> market_price option" where
  "find_price i s = find (\<lambda>p. mp_market_id p = i) (db_prices s)"

definition get_price :: "oracle_env \<Rightarrow> timestamp \<Rightarrow> uuid \<Rightarrow> (oracle_state, 'e, market_price option) action" where
  "get_price env now i st =
     (case get_cached_price env now i st of Some p \<Rightarrow> (Inr (Some p), st)
      | None \<Rightarrow> bindA (tryA (oracle_db (sql_query (find_price i)))) (\<lambda>r. returnA (case r of Inr p \<Rightarrow> p | Inl _ \<Rightarrow> None)) st)"

definition get_all_prices :: "(oracle_state, 'e, market_price list) action" where
  "get_all_prices =
     bindA (tryA (oracle_db (sql_query (\<lambda>s. sort_key (\<lambda>p. - mp_updated_at p) (db_prices s))))) (\<lambda>r.
     returnA (case r of Inr ps \<Rightarrow> ps | Inl _ \<Rightarrow> []))"

definition get_price_value :: "oracle_env \<Rightarrow> timestamp \<Rightarrow> uuid \<Rightarrow> (oracle_state, 'e, i64 option) action" where
  "get_price_value env now i = bindA (get_price env now i) (\<lambda>p. returnA (map_option mp_price p))"

text \<open>The average of the window, which the database computes (\<open>oe_avg\<close>), \<open>NULL\<close> when it is empty, which does not decode into a number.\<close>

definition get_twap :: "oracle_env \<Rightarrow> timestamp \<Rightarrow> uuid \<Rightarrow> int \<Rightarrow> (oracle_state, 'e, (f64 \<times> nat) option) action" where
  "get_twap env now i window_secs =
     bindA (tryA (oracle_db (sql_query (\<lambda>s. filter (\<lambda>h. ph_market_id h = i \<and> now - window_secs * 1000000 \<le> ph_fetched_at h) (db_price_history s))))) (\<lambda>r.
     returnA (case r of Inl _ \<Rightarrow> None
       | Inr hs \<Rightarrow> if hs = [] then None
                   else Some (oe_avg env (map ph_price hs), length hs)))"

definition upsert_price :: "market_price \<Rightarrow> unit dbm" where
  "upsert_price p =
     sql_exec (\<lambda>s.
       if mp_market_id p \<notin> mk_id ` set (db_markets s) then Inl ForeignKeyViolation
       else Inr ((), s\<lparr>db_prices := (if mp_market_id p \<in> mp_market_id ` set (db_prices s)
              then map (\<lambda>q. if mp_market_id q = mp_market_id p then p else q) (db_prices s) else db_prices s @ [p])\<rparr>))"

definition insert_history :: "market_price \<Rightarrow> unit dbm" where
  "insert_history p =
     bindA new_uuid (\<lambda>i. sql_exec (\<lambda>s.
       if mp_market_id p \<notin> mk_id ` set (db_markets s) then Inl ForeignKeyViolation
       else Inr ((), s\<lparr>db_price_history := db_price_history s @
         [\<lparr>ph_id = i, ph_market_id = mp_market_id p, ph_price = mp_price p, ph_source = mp_source p, ph_fetched_at = mp_updated_at p\<rparr>]\<rparr>)))"

fun joined :: "string list \<Rightarrow> string" where
  "joined [] = []"
| "joined [p] = p"
| "joined (p # q # ps) = p @ CHR '','' # joined (q # ps)"

definition price_of :: "timestamp \<Rightarrow> market \<Rightarrow> source_price list \<Rightarrow> market_price" where
  "price_of now k ps =
     \<lparr>mp_market_id = mk_id k, mp_price = f64_to_i64 (f64_mult (median (map so_price ps)) (f64_of_int 100)),
      mp_source = joined (map so_source ps), mp_updated_at = now\<rparr>"

definition update_market :: "oracle_env \<Rightarrow> timestamp \<Rightarrow> market \<Rightarrow> (oracle_state, 'e, unit) action" where
  "update_market env now k =
     (let ps = fetch_all_sources env k in
      if ps = [] then returnA ()
      else let p = price_of now k ps in
        bindA (tryA (oracle_db (upsert_price p))) (\<lambda>r.
        case r of Inl _ \<Rightarrow> returnA ()
        | Inr _ \<Rightarrow>
            seqA (ignoreA (oracle_db (insert_history p)))
            (modifyA (publish_price_update env p \<circ> cache_price env now p))))"

definition prune_history :: "timestamp \<Rightarrow> unit dbm" where
  "prune_history now =
     sql_update (\<lambda>s.
       let old = take 500 (sort_key ph_fetched_at (filter (\<lambda>h. ph_fetched_at h < now - 86400000000) (db_price_history s))) in
       s\<lparr>db_price_history := filter (\<lambda>h. ph_id h \<notin> ph_id ` set old) (db_price_history s)\<rparr>)"

definition update_all_prices :: "oracle_env \<Rightarrow> market list option \<Rightarrow> timestamp \<Rightarrow> (oracle_state, 'e, unit) action" where
  "update_all_prices env cached now =
     bindA (tryA (oracle_db (list_markets cached))) (\<lambda>r.
     case r of Inl _ \<Rightarrow> returnA ()
     | Inr markets \<Rightarrow> seqA (for_eachA (update_market env now) markets) (ignoreA (oracle_db (prune_history now))))"

section \<open>The order of doubles\<close>

lemma fval_less_iff: "fval a e < fval b e \<longleftrightarrow> a < b"
  by (simp add: fval_def)

lemma f64_less_fval: "f64_less (Fin m1 e1) (Fin m2 e2) \<longleftrightarrow> fval m1 e1 < fval m2 e2"
proof -
  let ?e = "min e1 e2"
  have "fval (m1 * 2 ^ nat (e1 - ?e)) ?e = fval m1 e1" "fval (m2 * 2 ^ nat (e2 - ?e)) ?e = fval m2 e2"
    by (simp_all add: fval_shift)
  then show ?thesis using fval_less_iff [of "m1 * 2 ^ nat (e1 - ?e)" ?e "m2 * 2 ^ nat (e2 - ?e)"] by (simp add: Let_def)
qed

lemma f64_less_trans: "f64_less x y \<Longrightarrow> f64_less y z \<Longrightarrow> f64_less x z"
  by (cases x; cases y; cases z) (auto simp: f64_less_fval simp del: f64_less.simps(1))

lemma f64_less_asym: "f64_less x y \<Longrightarrow> \<not> f64_less y x"
  by (cases x; cases y) (auto simp: f64_less_fval simp del: f64_less.simps(1))

lemma f64_not_less_trans: "\<not> f64_less x y \<Longrightarrow> \<not> f64_less y z \<Longrightarrow> y \<noteq> NaN \<Longrightarrow> \<not> f64_less x z"
  by (cases x; cases y; cases z) (auto simp: f64_less_fval simp del: f64_less.simps(1))

text \<open>Not below both of two prices, and not above both.\<close>

definition between :: "f64 \<Rightarrow> f64 \<Rightarrow> f64 \<Rightarrow> bool" where
  "between m x y \<longleftrightarrow> \<not> (f64_less m x \<and> f64_less m y) \<and> \<not> (f64_less x m \<and> f64_less y m)"

lemma median_of_three:
  assumes "a \<noteq> NaN" "b \<noteq> NaN" "c \<noteq> NaN"
  shows "median [a, b, c] \<in> {a, b, c} \<and> between (median [a, b, c]) a b \<and> between (median [a, b, c]) a c \<and> between (median [a, b, c]) b c"
proof -
  have irr: "\<not> f64_less x x" for x using f64_less_asym by blast
  note asym = f64_less_asym [of a b] f64_less_asym [of a c] f64_less_asym [of b c]
  note trans = f64_not_less_trans [of a b c] f64_not_less_trans [of a c b] f64_not_less_trans [of b a c] f64_not_less_trans [of b c a] f64_not_less_trans [of c a b] f64_not_less_trans [of c b a]
  consider "f64_less b a" "f64_less c a" "f64_less c b" | "f64_less b a" "f64_less c a" "\<not> f64_less c b" | "f64_less b a" "\<not> f64_less c a"
    | "\<not> f64_less b a" "f64_less c b" "f64_less c a" | "\<not> f64_less b a" "f64_less c b" "\<not> f64_less c a" | "\<not> f64_less b a" "\<not> f64_less c b" by blast
  then show ?thesis
    by cases (use assms asym trans irr in \<open>simp_all add: median_def sort_prices_def between_def Let_def numeral_3_eq_3\<close>, blast+)
qed

section \<open>What is stored\<close>

text \<open>A database without failures, with the given markets.\<close>

definition quiet_oracle :: "market list \<Rightarrow> oracle_state \<Rightarrow> bool" where
  "quiet_oracle ks st \<longleftrightarrow> db_faults (os_db st) = [] \<and> db_markets (os_db st) = ks"

lemma upsert_price_quiet:
  assumes "quiet_oracle ks st" and "mp_market_id p \<in> mk_id ` set ks"
  obtains t where "oracle_db (upsert_price p) st = (Inr (), t)" "quiet_oracle ks t" "find_price (mp_market_id p) (os_db t) = Some p"
    "\<forall>i. i \<noteq> mp_market_id p \<longrightarrow> find_price i (os_db t) = find_price i (os_db st)" "os_cache t = os_cache st"
proof -
  let ?new = "if mp_market_id p \<in> mp_market_id ` set (db_prices (os_db st))
    then map (\<lambda>q. if mp_market_id q = mp_market_id p then p else q) (db_prices (os_db st)) else db_prices (os_db st) @ [p]"
  let ?t = "st\<lparr>os_db := (os_db st)\<lparr>db_prices := ?new\<rparr>\<rparr>"
  have run: "oracle_db (upsert_price p) st = (Inr (), ?t)"
    using assms by (simp add: oracle_db_def upsert_price_def sql_exec_def next_fault_def tick_def quiet_oracle_def)
  have hit: "find (\<lambda>q. mp_market_id q = mp_market_id p) (map (\<lambda>q. if mp_market_id q = mp_market_id p then p else q) qs) = Some p"
    if "mp_market_id p \<in> mp_market_id ` set qs" for qs using that by (induction qs) auto
  have miss: "find (\<lambda>q. mp_market_id q = i) (map (\<lambda>q. if mp_market_id q = mp_market_id p then p else q) qs) = find (\<lambda>q. mp_market_id q = i) qs"
    if "i \<noteq> mp_market_id p" for i qs using that by (induction qs) auto
  have none: "find (\<lambda>q. mp_market_id q = mp_market_id p) qs = None" if "mp_market_id p \<notin> mp_market_id ` set qs" for qs
    using that by (auto simp: find_None_iff image_iff)
  have "find (\<lambda>q. mp_market_id q = mp_market_id p) ?new = Some p"
    using hit [of "db_prices (os_db st)"] none [of "db_prices (os_db st)"] by (simp add: find_append)
  moreover have "find (\<lambda>q. mp_market_id q = i) ?new = find (\<lambda>q. mp_market_id q = i) (db_prices (os_db st))" if "i \<noteq> mp_market_id p" for i
    using miss [OF that] that by (auto simp: find_append split: option.splits)
  ultimately show thesis
    by (intro that [OF run]) (use assms in \<open>simp_all add: quiet_oracle_def find_price_def\<close>)
qed

lemma insert_history_quiet:
  assumes "quiet_oracle ks st"
  shows "quiet_oracle ks (snd (oracle_db (insert_history p) st)) \<and> db_prices (os_db (snd (oracle_db (insert_history p) st))) = db_prices (os_db st)"
  using assms by (auto simp: oracle_db_def insert_history_def db_evals next_fault_def tick_def quiet_oracle_def)

lemma update_market_quiet:
  assumes "quiet_oracle ks st" and "mk_id k \<in> mk_id ` set ks"
  shows "\<exists>t. update_market env now k st = (Inr () :: 'e + unit, t) \<and> quiet_oracle ks t \<and>
    (fetch_all_sources env k \<noteq> [] \<longrightarrow> find_price (mk_id k) (os_db t) = Some (price_of now k (fetch_all_sources env k))) \<and>
    (\<forall>i. i \<noteq> mk_id k \<longrightarrow> find_price i (os_db t) = find_price i (os_db st))"
proof (cases "fetch_all_sources env k = []")
  case True
  then show ?thesis using assms by (simp add: update_market_def action_evals)
next
  case False
  define p where "p = price_of now k (fetch_all_sources env k)"
  have id: "mp_market_id p = mk_id k" by (simp add: p_def price_of_def)
  then obtain u where u: "oracle_db (upsert_price p) st = (Inr (), u)" "quiet_oracle ks u" "find_price (mk_id k) (os_db u) = Some p"
    "\<forall>i. i \<noteq> mk_id k \<longrightarrow> find_price i (os_db u) = find_price i (os_db st)"
    using upsert_price_quiet [OF assms(1), of p] assms(2) by metis
  note h = insert_history_quiet [OF u(2), of p]
  have "os_db (publish_price_update env p (cache_price env now p v)) = os_db v" for v
    by (simp add: publish_price_update_def cache_price_def)
  then show ?thesis using False u h
    by (simp add: update_market_def Let_def action_evals ignoreA_def find_price_def quiet_oracle_def flip: p_def)
qed

lemma update_markets_quiet:
  assumes "quiet_oracle ks st" and "mk_id ` set markets \<subseteq> mk_id ` set ks" and "distinct (map mk_id markets)"
  shows "\<exists>t. for_eachA (update_market env now) markets st = (Inr () :: 'e + unit, t) \<and> quiet_oracle ks t \<and>
    (\<forall>k\<in>set markets. fetch_all_sources env k \<noteq> [] \<longrightarrow> find_price (mk_id k) (os_db t) = Some (price_of now k (fetch_all_sources env k))) \<and>
    (\<forall>i. i \<notin> mk_id ` set markets \<longrightarrow> find_price i (os_db t) = find_price i (os_db st))"
  using assms
proof (induction markets arbitrary: st)
  case Nil
  then show ?case by (simp add: action_evals)
next
  case (Cons k markets)
  obtain u where u: "update_market env now k st = (Inr () :: 'e + unit, u)" "quiet_oracle ks u"
    "fetch_all_sources env k \<noteq> [] \<longrightarrow> find_price (mk_id k) (os_db u) = Some (price_of now k (fetch_all_sources env k))"
    "\<forall>i. i \<noteq> mk_id k \<longrightarrow> find_price i (os_db u) = find_price i (os_db st)"
    using update_market_quiet [OF Cons.prems(1), of k env now] Cons.prems(2) by auto
  obtain t where t: "for_eachA (update_market env now) markets u = (Inr () :: 'e + unit, t)" "quiet_oracle ks t"
    "\<forall>k\<in>set markets. fetch_all_sources env k \<noteq> [] \<longrightarrow> find_price (mk_id k) (os_db t) = Some (price_of now k (fetch_all_sources env k))"
    "\<forall>i. i \<notin> mk_id ` set markets \<longrightarrow> find_price i (os_db t) = find_price i (os_db u)"
    using Cons.IH [OF u(2)] Cons.prems(2,3) by (auto 0 3)
  have "mk_id k \<notin> mk_id ` set markets" using Cons.prems(3) by auto
  then show ?case using u t by (intro exI [of _ t]) (auto simp: action_evals)
qed

text \<open>
  C40. One source cannot move a price: when all three exchanges answer for a market with numbers, a round of the feed stores, in
  cents, the price of one of them that is not below any two of the prices and not above any two, and so lies between the
  two that are honest, whatever the third says; this price is what is read from the database until the next round.
\<close>

theorem one_source_cannot_move_price:
  assumes "db_faults (os_db st) = []" and "distinct (map mk_id (db_markets (os_db st)))" and "k \<in> set (db_markets (os_db st))"
    and "fetch_all_sources env k = [s1, s2, s3]" and "NaN \<notin> {so_price s1, so_price s2, so_price s3}"
  shows "\<exists>m t. update_all_prices env None now st = (Inr () :: 'a + unit, t) \<and> m \<in> {so_price s1, so_price s2, so_price s3} \<and>
    between m (so_price s1) (so_price s2) \<and> between m (so_price s1) (so_price s3) \<and> between m (so_price s2) (so_price s3) \<and>
    map_option mp_price (find_price (mk_id k) (os_db t)) = Some (f64_to_i64 (f64_mult m (f64_of_int 100)))"
proof -
  define ks where "ks = db_markets (os_db st)"
  have q: "quiet_oracle ks st" using assms(1) by (simp add: quiet_oracle_def ks_def)
  let ?ms = "sort_key (\<lambda>k. - mk_created_at k) ks"
  have l: "oracle_db (list_markets None) st = (Inr ?ms, st)"
    using assms(1) by (simp add: oracle_db_def list_markets_def market_find_all_def map_errA_def sql_query_def next_fault_def tick_def ks_def)
  have "distinct (map mk_id ?ms)" using assms(2) by (simp add: ks_def distinct_map)
  then obtain u where u: "for_eachA (update_market env now) ?ms st = (Inr () :: 'a + unit, u)" "quiet_oracle ks u"
    "\<forall>k\<in>set ?ms. fetch_all_sources env k \<noteq> [] \<longrightarrow> find_price (mk_id k) (os_db u) = Some (price_of now k (fetch_all_sources env k))"
    using update_markets_quiet [OF q, of ?ms env now] by auto
  let ?t = "snd (oracle_db (prune_history now) u)"
  have t: "update_all_prices env None now st = (Inr () :: 'a + unit, ?t)"
    using l u(1) by (simp add: update_all_prices_def action_evals ignoreA_def)
  have "db_prices (os_db ?t) = db_prices (os_db u)"
    by (simp add: oracle_db_def prune_history_def sql_update_def sql_exec_def Let_def)
  then have "find_price (mk_id k) (os_db ?t) = Some (price_of now k [s1, s2, s3])"
    using u(3) assms(3,4) by (simp add: find_price_def ks_def)
  moreover have numbers: "so_price s1 \<noteq> NaN" "so_price s2 \<noteq> NaN" "so_price s3 \<noteq> NaN" using assms(5) by auto
  ultimately show ?thesis
    using t median_of_three [of "so_price s1" "so_price s2" "so_price s3"] numbers
    by (intro exI [of _ "median [so_price s1, so_price s2, so_price s3]"] exI [of _ ?t]) (simp add: price_of_def)
qed

section \<open>NaN\<close>

text \<open>
  When the second source answers with the text NaN, the insertions leave it in the middle, the price is stored as zero, and the risk engine, which
  skips a price that is not positive, has no reference any more.
\<close>

lemma nan_is_stored_as_zero:
  assumes "map so_price ps = [a, NaN, c]"
  shows "mp_price (price_of now k ps) = 0"
proof -
  have n: "\<not> f64_less NaN x" "\<not> f64_less x NaN" for x by (cases x; simp)+
  have "median [a, NaN, c] = NaN" using n by (simp add: median_def sort_prices_def Let_def numeral_3_eq_3)
  then show ?thesis by (simp add: price_of_def assms)
qed

lemma zero_price_is_no_reference:
  assumes "re_oracle_price env (mk_id k) = Some 0"
  shows "oracle_reference env k = None"
  using assms by (simp add: oracle_reference_def)

section \<open>Sample\<close>

definition sample_market :: market where
  "sample_market = \<lparr>mk_id = 3, mk_base_asset = ETH, mk_quote_asset = USDC, mk_tick_size = 1, mk_min_order_size = 1, mk_fee_rate = f64_0_001, mk_chain = ''ethereum'',
     mk_settlement_contract = None, mk_base_token_mint = None, mk_quote_token_mint = None, mk_base_decimals = 18, mk_quote_decimals = 6, mk_created_at = 0\<rparr>"

text \<open>Two exchanges near 35, the third says 99: the stored price is 35.25.\<close>

definition sample_oracle_env :: oracle_env where
  "sample_oracle_env = \<lparr>oe_answer = (\<lambda>i url.
       if url = ''https://api.binance.com/api/v3/ticker/price?symbol=ETHUSDC'' then Some (JObj [(''price'', JStr ''35.00'')])
       else if url = ''https://api.coinbase.com/v2/prices/ETH-USDC/spot'' then Some (JObj [(''data'', JObj [(''amount'', JStr ''35.25'')])])
       else if url = ''https://api.kraken.com/0/public/Ticker?pair=XETHZUSD'' then Some (JObj [(''result'', JObj [(''XETHZUSD'', JObj [(''c'', JArr [JStr ''99'', JStr ''1''])])])])
       else None), oe_hash_index = (\<lambda>_. 0), oe_redis_down = False, oe_avg = (\<lambda>_. Fin 0 0)\<rparr>"

lemma parse_samples:
  "parse_f64 ''35.00'' = Some (f64_of_decimal 3500 (- 2))" "parse_f64 ''35.25'' = Some (f64_of_decimal 3525 (- 2))" "parse_f64 ''99'' = Some (f64_of_decimal 99 0)"
  by (simp_all add: parse_f64_def parse_unsigned_f64_def to_lower_def is_digit_def digits_value_def Let_def)

lemma sample_sources:
  "fetch_all_sources sample_oracle_env sample_market =
     [\<lparr>so_source = ''binance'', so_price = f64_of_decimal 3500 (- 2)\<rparr>, \<lparr>so_source = ''coinbase'', so_price = f64_of_decimal 3525 (- 2)\<rparr>,
      \<lparr>so_source = ''kraken'', so_price = f64_of_decimal 99 0\<rparr>]"
  by (simp add: fetch_all_sources_def fetch_binance_def fetch_coinbase_def fetch_kraken_def symbol_for_market_def sample_market_def sample_oracle_env_def
      kraken_pair_def kraken_price_def kraken_closed_def strings_of_def opt_string_def json_path_def parse_samples Let_def)

lemma f64_round_number: "f64_round m e \<noteq> NaN"
  by (simp add: f64_round_def Let_def split: prod.splits)

lemma decimal_is_number: "f64_of_decimal d k \<noteq> NaN"
  using f64_round_number by (simp add: f64_of_decimal_def Let_def)

lemma sample_numbers: "NaN \<notin> {f64_of_decimal 3500 (- 2), f64_of_decimal 3525 (- 2), f64_of_decimal 99 0}"
  using decimal_is_number by (metis empty_iff insert_iff)

theorem one_source_cannot_move_price_witness:
  "\<exists>m t. update_all_prices sample_oracle_env None 5 \<lparr>os_db = empty_db\<lparr>db_markets := [sample_market]\<rparr>, os_cache = (\<lambda>_. None), os_published = []\<rparr> = (Inr () :: unit + unit, t) \<and>
     between m (f64_of_decimal 3500 (- 2)) (f64_of_decimal 3525 (- 2)) \<and>
     map_option mp_price (find_price 3 (os_db t)) = Some (f64_to_i64 (f64_mult m (f64_of_int 100)))"
  using one_source_cannot_move_price [of "\<lparr>os_db = empty_db\<lparr>db_markets := [sample_market]\<rparr>, os_cache = (\<lambda>_. None), os_published = []\<rparr>" sample_market,
      OF _ _ _ sample_sources, of 5] sample_numbers
  by (auto simp: sample_market_def)

end
