(* ===== verification/Chaos_Verify.thy ===== *)
theory Chaos_Verify
  imports Balances Htlc_Swap
begin

text \<open>
  The audit that the platform runs on its own database after fault injection (src/chaos/verify.rs): eight checks, each a query and a
  verdict. Rows of a group come in the order of their first occurrence. The sum of a \<open>BIGINT\<close> column is a
  \<open>NUMERIC\<close>, which decodes into an \<open>i64\<close> only where \<open>db_decodes_numeric\<close> says so. The text of a
  violation is a value with the data that the text shows. The audit is compared with what is proved of the operations.
\<close>

section \<open>The report\<close>

datatype violation_detail =
    QueryFailed sqlx_error
  | NegativeBalance uuid asset i64 i64
  | BalanceSum asset i64 i64 i64
  | OrphanLock uuid asset i64
  | SettledFills uuid nat
  | StuckSwap uuid htlc_status string string
  | SecretLength uuid nat
  | PreimageMismatch uuid
  | LegCount uuid nat
  | Unfinalized uuid uuid intent_status
  | RefundMismatch uuid leg_status leg_status
  | LedgerMismatch uuid asset i64 i64 i64

record violation =
  vi_check :: string
  vi_detail :: violation_detail

record invariant_report =
  ir_violations :: "violation list"
  ir_checks_run :: nat
  ir_checks_passed :: nat

definition InvariantReport_new :: invariant_report where
  "InvariantReport_new = \<lparr>ir_violations = [], ir_checks_run = 0, ir_checks_passed = 0\<rparr>"

definition record_pass :: "invariant_report \<Rightarrow> invariant_report" where
  "record_pass rep = rep\<lparr>ir_checks_run := ir_checks_run rep + 1, ir_checks_passed := ir_checks_passed rep + 1\<rparr>"

definition record_fail :: "string \<Rightarrow> violation_detail \<Rightarrow> invariant_report \<Rightarrow> invariant_report" where
  "record_fail check detail rep =
     rep\<lparr>ir_checks_run := ir_checks_run rep + 1, ir_violations := ir_violations rep @ [\<lparr>vi_check = check, vi_detail = detail\<rparr>]\<rparr>"

definition report_passed :: "invariant_report \<Rightarrow> bool" where
  "report_passed rep \<longleftrightarrow> ir_violations rep = []"

text \<open>The verdict on the rows of a query: no row is a pass, each row a violation.\<close>

definition verdict :: "string \<Rightarrow> ('a \<Rightarrow> violation_detail) \<Rightarrow> sqlx_error + 'a list \<Rightarrow> invariant_report \<Rightarrow> invariant_report" where
  "verdict check detail rows rep =
     (case rows of Inl e \<Rightarrow> record_fail check (QueryFailed e) rep
      | Inr bad \<Rightarrow> if bad = [] then record_pass rep else foldl (\<lambda>rep row. record_fail check (detail row) rep) rep bad)"

type_synonym check = "invariant_report \<Rightarrow> (pgdb, unit, invariant_report) action"

section \<open>Balances\<close>

definition check_no_negative_balances :: check where
  "check_no_negative_balances rep =
     bindA (tryA (sql_query (\<lambda>s. filter (\<lambda>b. bal_available_balance b < 0 \<or> bal_locked_balance b < 0) (db_balances s)))) (\<lambda>rows.
     returnA (verdict ''no_negative_balances''
       (\<lambda>b. NegativeBalance (bal_account_id b) (bal_asset b) (bal_available_balance b) (bal_locked_balance b)) rows rep))"

text \<open>A query with sums per group, which fails when a sum does not decode.\<close>

definition sum_query :: "(pgdb \<Rightarrow> bool) \<Rightarrow> (pgdb \<Rightarrow> ('k \<times> int) list) \<Rightarrow> ('k \<times> i64) list dbm" where
  "sum_query fits f = sql_exec (\<lambda>s.
     if \<not> fits s then Inl NumericOutOfRange
     else if f s = [] \<or> db_decodes_numeric s \<and> list_all (\<lambda>(_, n). in_i64 n) (f s) then Inr (f s, s) else Inl ColumnDecode)"

definition signed_amount :: "ledger_entry \<Rightarrow> int" where
  "signed_amount e = (if le_entry_type e = CREDIT then le_amount e else - le_amount e)"

definition balance_sums :: "pgdb \<Rightarrow> (asset \<times> int) list" where
  "balance_sums s = map (\<lambda>a. (a, total_supply a s)) (remdups (map bal_asset (db_balances s)))"

definition ledger_sums :: "pgdb \<Rightarrow> (asset \<times> int) list" where
  "ledger_sums s = map (\<lambda>a. (a, sum_list (map signed_amount (filter (\<lambda>e. le_asset e = a) (db_ledger s)))))
     (remdups (map le_asset (db_ledger s)))"

definition rows_fit :: "pgdb \<Rightarrow> bool" where
  "rows_fit s = list_all (\<lambda>b. in_i64 (bal_available_balance b + bal_locked_balance b)) (db_balances s)"

definition entries_fit :: "pgdb \<Rightarrow> bool" where
  "entries_fit s = list_all (\<lambda>e. in_i64 (signed_amount e)) (db_ledger s)"

definition compare_sums :: "(asset \<times> i64) list \<Rightarrow> (asset \<times> i64) list \<Rightarrow> violation_detail list" where
  "compare_sums balances ledger =
     concat (map (\<lambda>(a, balance_total). let ledger_net = (case map_of ledger a of Some n \<Rightarrow> n | None \<Rightarrow> 0) in
       if balance_total \<noteq> ledger_net then [BalanceSum a balance_total ledger_net (wrap64 (balance_total - ledger_net))] else []) balances)"

definition check_balance_sum_constant :: check where
  "check_balance_sum_constant rep =
     bindA (tryA (sum_query rows_fit balance_sums)) (\<lambda>balances.
     bindA (tryA (sum_query entries_fit ledger_sums)) (\<lambda>ledger.
     returnA (verdict ''balance_sum_constant'' (\<lambda>d. d)
       (case balances of Inl e \<Rightarrow> Inl e | Inr bs \<Rightarrow> (case ledger of Inl e \<Rightarrow> Inl e | Inr ls \<Rightarrow> Inr (compare_sums bs ls))) rep)))"

definition is_active :: "intent_status \<Rightarrow> bool" where
  "is_active st = (st \<in> {Open, Bidding, Matched, Executing})"

definition check_no_orphan_locked_funds :: check where
  "check_no_orphan_locked_funds rep =
     bindA (tryA (sql_query (\<lambda>s. filter (\<lambda>b. 0 < bal_locked_balance b \<and>
       \<not> list_ex (\<lambda>i. (in_user_id i, bal_account_id b) \<in> set (db_user_accounts s) \<and> is_active (in_status i)) (db_intents s)) (db_balances s)))) (\<lambda>rows.
     returnA (verdict ''no_orphan_locked_funds'' (\<lambda>b. OrphanLock (bal_account_id b) (bal_asset b) (bal_locked_balance b)) rows rep))"

section \<open>Settlements and swaps\<close>

definition count_by :: "('a \<Rightarrow> uuid) \<Rightarrow> 'a list \<Rightarrow> (uuid \<times> nat) list" where
  "count_by key xs = map (\<lambda>k. (k, length (filter (\<lambda>x. key x = k) xs))) (remdups (map key xs))"

definition check_no_double_settlement :: check where
  "check_no_double_settlement rep =
     bindA (tryA (sql_query (\<lambda>s. filter (\<lambda>(_, n). 1 < n) (count_by fi_intent_id (filter fi_settled (db_fills s)))))) (\<lambda>rows.
     returnA (verdict ''no_double_settlement'' (\<lambda>(i, n). SettledFills i n) rows rep))"

definition check_htlc_terminal_states :: "timestamp \<Rightarrow> check" where
  "check_htlc_terminal_states now rep =
     bindA (tryA (sql_query (\<lambda>s. filter (\<lambda>r. hs_status r \<notin> {SourceUnlocked, SwapRefunded, SwapExpired, SwapFailed} \<and> hs_source_timelock r < now) (db_swaps s)))) (\<lambda>rows.
     returnA (verdict ''htlc_terminal_states'' (\<lambda>r. StuckSwap (hs_id r) (hs_status r) (hs_source_chain r) (hs_dest_chain r)) rows rep))"

definition secret_violations :: "(bytes \<Rightarrow> bytes) \<Rightarrow> htlc_swap \<Rightarrow> violation_detail list" where
  "secret_violations sha256 r =
     (case hs_secret r of None \<Rightarrow> []
      | Some secret \<Rightarrow>
          if length secret \<noteq> 32 then [SecretLength (hs_id r) (length secret)]
          else if sha256 secret \<noteq> hs_secret_hash r then [PreimageMismatch (hs_id r)] else [])"

definition check_htlc_secret_integrity :: "(bytes \<Rightarrow> bytes) \<Rightarrow> check" where
  "check_htlc_secret_integrity sha256 rep =
     bindA (tryA (sql_query (\<lambda>s. filter (\<lambda>r. hs_secret r \<noteq> None \<and> hs_status r \<in> {DestClaimed, SourceUnlocked}) (db_swaps s)))) (\<lambda>rows.
     returnA (verdict ''htlc_secret_integrity'' (\<lambda>d. d)
       (case rows of Inl e \<Rightarrow> Inl e | Inr rs \<Rightarrow> Inr (concat (map (secret_violations sha256) rs))) rep))"

definition other_leg :: "cross_chain_leg \<Rightarrow> int \<Rightarrow> cross_chain_leg list \<Rightarrow> cross_chain_leg list" where
  "other_leg l i legs = filter (\<lambda>l2. lg_fill_id l2 = lg_fill_id l \<and> lg_leg_index l2 = i) legs"

definition unfinalized_legs :: "pgdb \<Rightarrow> (uuid \<times> uuid \<times> intent_status) list" where
  "unfinalized_legs s =
     concat (map (\<lambda>l. map (\<lambda>i. (lg_fill_id l, lg_intent_id l, in_status i))
         (filter (\<lambda>i. in_id i = lg_intent_id l \<and> in_status i \<noteq> Completed) (db_intents s)))
       (filter (\<lambda>l. lg_leg_index l = 0 \<and> lg_status l = LegConfirmed \<and>
          list_ex (\<lambda>l2. lg_status l2 = LegConfirmed) (other_leg l 1 (db_legs s))) (db_legs s)))"

definition uncascaded_refunds :: "pgdb \<Rightarrow> (uuid \<times> leg_status \<times> leg_status) list" where
  "uncascaded_refunds s =
     (let ended = {LegRefunded, LegFailed, LegConfirmed} in
      concat (map (\<lambda>src. map (\<lambda>dest. (lg_fill_id src, lg_status src, lg_status dest))
         (filter (\<lambda>dest. lg_status src = LegRefunded \<and> lg_status dest \<notin> ended \<or> lg_status dest = LegRefunded \<and> lg_status src \<notin> ended)
            (other_leg src 1 (db_legs s))))
       (filter (\<lambda>l. lg_leg_index l = 0) (db_legs s))))"

definition check_cross_chain_leg_consistency :: check where
  "check_cross_chain_leg_consistency rep =
     bindA (tryA (sql_query (\<lambda>s. filter (\<lambda>(_, n). n \<noteq> 2) (count_by lg_fill_id (db_legs s))))) (\<lambda>counts.
     let rep = verdict ''cross_chain_leg_count'' (\<lambda>(i, n). LegCount i n) counts rep in
     bindA (tryA (sql_query unfinalized_legs)) (\<lambda>unfinalized.
     let rep = verdict ''cross_chain_unfinalized'' (\<lambda>(f, i, st). Unfinalized f i st) unfinalized rep in
     bindA (tryA (sql_query uncascaded_refunds)) (\<lambda>refunds.
     returnA (verdict ''cross_chain_refund_mismatch'' (\<lambda>(f, a, b). RefundMismatch f a b) refunds rep))))"

section \<open>The ledger\<close>

definition account_net :: "uuid \<Rightarrow> asset \<Rightarrow> pgdb \<Rightarrow> int" where
  "account_net c a s = sum_list (map signed_amount (filter (\<lambda>e. le_account_id e = c \<and> le_asset e = a) (db_ledger s)))"

definition ledger_mismatches :: "pgdb \<Rightarrow> (balance \<times> int) list" where
  "ledger_mismatches s = map (\<lambda>b. (b, account_net (bal_account_id b) (bal_asset b) s))
     (filter (\<lambda>b. bal_available_balance b + bal_locked_balance b \<noteq> account_net (bal_account_id b) (bal_asset b) s) (db_balances s))"

definition check_ledger_debits_equal_credits :: check where
  "check_ledger_debits_equal_credits rep =
     bindA (tryA (sum_query (\<lambda>s. rows_fit s \<and> entries_fit s) ledger_mismatches)) (\<lambda>rows.
     returnA (verdict ''ledger_balance_match'' (\<lambda>(b, net). LedgerMismatch (bal_account_id b) (bal_asset b)
        (bal_available_balance b + bal_locked_balance b) net (wrap64 (bal_available_balance b + bal_locked_balance b - net))) rows rep))"

definition run_all :: "(bytes \<Rightarrow> bytes) \<Rightarrow> timestamp \<Rightarrow> (pgdb, unit, invariant_report) action" where
  "run_all sha256 now =
     bindA (check_no_negative_balances InvariantReport_new) (\<lambda>rep.
     bindA (check_balance_sum_constant rep) (\<lambda>rep.
     bindA (check_no_orphan_locked_funds rep) (\<lambda>rep.
     bindA (check_no_double_settlement rep) (\<lambda>rep.
     bindA (check_htlc_terminal_states now rep) (\<lambda>rep.
     bindA (check_htlc_secret_integrity sha256 rep) (\<lambda>rep.
     bindA (check_cross_chain_leg_consistency rep) (\<lambda>rep.
     check_ledger_debits_equal_credits rep)))))))"

section \<open>What the audit says\<close>

text \<open>A verdict only adds violations, and those of its own check.\<close>

definition adds :: "string list \<Rightarrow> invariant_report \<Rightarrow> invariant_report \<Rightarrow> bool" where
  "adds checks rep rep' \<longleftrightarrow> (\<exists>vs. ir_violations rep' = ir_violations rep @ vs \<and> list_all (\<lambda>v. vi_check v \<in> set checks) vs)"

lemma fold_fails:
  "ir_violations (foldl (\<lambda>rep row. record_fail check (detail row) rep) rep rows) =
     ir_violations rep @ map (\<lambda>row. \<lparr>vi_check = check, vi_detail = detail row\<rparr>) rows"
  by (induction rows arbitrary: rep) (simp_all add: record_fail_def)

lemma verdict_adds: "check \<in> set checks \<Longrightarrow> adds checks rep (verdict check detail rows rep)"
proof (cases rows)
  case (Inl e)
  then show "check \<in> set checks \<Longrightarrow> ?thesis" by (simp add: adds_def verdict_def record_fail_def)
next
  case (Inr bad)
  have "ir_violations (verdict check detail rows rep) = ir_violations rep @ map (\<lambda>row. \<lparr>vi_check = check, vi_detail = detail row\<rparr>) bad"
    using Inr by (simp add: verdict_def fold_fails record_pass_def)
  then show "check \<in> set checks \<Longrightarrow> ?thesis" by (auto simp: adds_def list_all_iff)
qed

lemma adds_trans: "adds checks a b \<Longrightarrow> adds checks b c \<Longrightarrow> adds checks a c"
  by (auto simp: adds_def)

lemma adds_refl: "adds checks rep rep"
  by (simp add: adds_def)

lemma verdict_adds_more: "adds checks a b \<Longrightarrow> check \<in> set checks \<Longrightarrow> adds checks a (verdict check detail rows b)"
  using adds_trans verdict_adds by blast

definition later_checks :: "string list" where
  "later_checks = [''no_orphan_locked_funds'', ''no_double_settlement'', ''htlc_terminal_states'', ''htlc_secret_integrity'',
     ''cross_chain_leg_count'', ''cross_chain_unfinalized'', ''cross_chain_refund_mismatch'', ''ledger_balance_match'']"

lemma later_checks_add:
  "check_no_orphan_locked_funds rep s = (Inr rep', t) \<Longrightarrow> adds later_checks rep rep'"
  "check_no_double_settlement rep s = (Inr rep', t) \<Longrightarrow> adds later_checks rep rep'"
  "check_htlc_terminal_states now rep s = (Inr rep', t) \<Longrightarrow> adds later_checks rep rep'"
  "check_htlc_secret_integrity sha256 rep s = (Inr rep', t) \<Longrightarrow> adds later_checks rep rep'"
  "check_ledger_debits_equal_credits rep s = (Inr rep', t) \<Longrightarrow> adds later_checks rep rep'"
  unfolding check_no_orphan_locked_funds_def check_no_double_settlement_def check_htlc_terminal_states_def
      check_htlc_secret_integrity_def check_ledger_debits_equal_credits_def bindA_Inr_iff returnA_iff
  by (elim exE conjE, hypsubst?, simp only: sum.inject, rule verdict_adds, simp add: later_checks_def)+

lemma leg_check_adds: "check_cross_chain_leg_consistency rep s = (Inr rep', t) \<Longrightarrow> adds later_checks rep rep'"
  unfolding check_cross_chain_leg_consistency_def bindA_Inr_iff returnA_iff Let_def
  by (elim exE conjE, simp only: sum.inject, intro verdict_adds_more adds_refl) (simp_all add: later_checks_def)

lemma sum_query_refused:
  assumes "db_faults s = []" "\<not> db_decodes_numeric s" "fits s" "f s \<noteq> []"
  shows "sum_query fits f s = (Inl ColumnDecode, s)"
  using assms by (simp add: sum_query_def sql_exec_def next_fault_def tick_def)

lemma holding_le_sum:
  assumes "b \<in> set bs" and "\<forall>x\<in>set bs. 0 \<le> bal_available_balance x \<and> 0 \<le> bal_locked_balance x"
  shows "holding a b \<le> sum_list (map (holding a) bs)"
  using assms
proof (induction bs)
  case (Cons x bs)
  have "0 \<le> holding a x" "0 \<le> sum_list (map (holding a) bs)" using Cons.prems(2) by (auto simp: holding_def intro!: sum_list_nonneg)
  then show ?case using Cons by auto
qed simp

lemma book_rows_fit: "book_ok s \<Longrightarrow> rows_fit s"
proof -
  assume ok: "book_ok s"
  have "in_i64 (bal_available_balance b + bal_locked_balance b)" if b: "b \<in> set (db_balances s)" for b
  proof -
    have "holding (bal_asset b) b \<le> total_supply (bal_asset b) s"
      unfolding total_supply_def using b ok by (intro holding_le_sum) (auto simp: book_ok_def all_nonneg_def)
    also have "\<dots> \<le> i64_max" using ok by (simp add: book_ok_def)
    finally show ?thesis using b ok by (intro nonneg_in_i64) (auto simp: book_ok_def all_nonneg_def holding_def)
  qed
  then show "rows_fit s" by (simp add: rows_fit_def list_all_iff)
qed

text \<open>The first two checks of a book in order, with a driver that refuses the sums.\<close>

lemma balance_checks:
  assumes ok: "book_ok s" and nf: "db_faults s = []" and d: "\<not> db_decodes_numeric s" and rows: "db_balances s \<noteq> []"
  shows "check_no_negative_balances rep s = (Inr (record_pass rep), s)"
    "\<exists>t. check_balance_sum_constant rep s = (Inr (record_fail ''balance_sum_constant'' (QueryFailed ColumnDecode) rep), t)"
proof -
  have "filter (\<lambda>b. bal_available_balance b < 0 \<or> bal_locked_balance b < 0) (db_balances s) = []"
    using ok by (auto simp: book_ok_def all_nonneg_def filter_empty_conv not_less)
  then show "check_no_negative_balances rep s = (Inr (record_pass rep), s)"
    using nf by (simp add: check_no_negative_balances_def db_evals next_fault_def verdict_def)
  have "balance_sums s \<noteq> []" using rows by (simp add: balance_sums_def)
  then have "sum_query rows_fit balance_sums s = (Inl ColumnDecode, s)"
    using sum_query_refused nf d book_rows_fit [OF ok] by blast
  then show "\<exists>t. check_balance_sum_constant rep s = (Inr (record_fail ''balance_sum_constant'' (QueryFailed ColumnDecode) rep), t)"
    by (auto simp: check_balance_sum_constant_def bindA_def tryA_def returnA_def verdict_def split: prod.split)
qed

text \<open>
  The audit never passes. After any calls of the balance service on an empty database that leave a row behind, with no total
  past the \<open>i64\<close> range, with a driver that does not decode \<open>NUMERIC\<close> into \<open>i64\<close> and a database that answers, the
  report of the audit is not passed: it has no negative balance, and the check that balances and ledger agree has
  exactly one violation, the decoding error of its own query, whether the books agree or not.
\<close>

theorem audit_never_passes:
  assumes "bank_start s0" and "run_calls ks s0 = (rs, s)" and "calls_fit ks s0"
    and "db_balances s \<noteq> []" and "\<not> db_decodes_numeric s" and "db_faults s = []"
    and "run_all sha now s = (Inr rep, t)"
  shows "filter (\<lambda>v. vi_check v \<in> {''no_negative_balances'', ''balance_sum_constant''}) (ir_violations rep) =
      [\<lparr>vi_check = ''balance_sum_constant'', vi_detail = QueryFailed ColumnDecode\<rparr>] \<and> \<not> report_passed rep"
proof -
  have ok: "book_ok s" using run_calls_ok [OF _ assms(2,3)] bank_start_ok [OF assms(1)] by blast
  let ?rep = "record_fail ''balance_sum_constant'' (QueryFailed ColumnDecode) (record_pass InvariantReport_new)"
  obtain s1 where s1: "check_balance_sum_constant (record_pass InvariantReport_new) s = (Inr ?rep, s1)"
    using balance_checks(2) [OF ok assms(6,5,4)] by blast
  have "adds later_checks ?rep rep"
    using assms(7) unfolding run_all_def bindA_Inr_iff balance_checks(1) [OF ok assms(6,5,4)]
    by (auto simp: s1 dest!: later_checks_add leg_check_adds) (meson adds_trans)
  then obtain vs where vs: "ir_violations rep = ir_violations ?rep @ vs" "list_all (\<lambda>v. vi_check v \<in> set later_checks) vs"
    by (auto simp: adds_def)
  have "filter (\<lambda>v. vi_check v \<in> {''no_negative_balances'', ''balance_sum_constant''}) vs = []"
    using vs(2) by (auto simp: filter_empty_conv list_all_iff later_checks_def)
  then show ?thesis using vs(1) by (simp add: record_fail_def record_pass_def InvariantReport_new_def report_passed_def)
qed

text \<open>The check of the secrets accepts whatever the service and the worker of the swaps produce.\<close>

lemma audit_accepts_swaps:
  assumes "db_swaps s = []" and "(swap_call sha chk)\<^sup>*\<^sup>* s t" and "db_faults t = []"
  shows "fst (check_htlc_secret_integrity sha rep t) = Inr (record_pass rep)"
proof -
  have "swaps_evolve sha chk s t" using swap_machine.reachable_invar [of s s sha chk t] assms by simp
  then have "list_all (swap_ok sha chk) (db_swaps t)"
    using swaps.evolve_all [of sha chk "db_swaps s" "db_swaps t"] assms(1) by (simp add: swaps_evolve_def)
  moreover have "secret_violations sha r = []" if "swap_ok sha chk r" for r
    using that by (simp add: secret_violations_def swap_ok_def split: option.split)
  ultimately have "concat (map (secret_violations sha) (filter (\<lambda>r. hs_secret r \<noteq> None \<and> hs_status r \<in> {DestClaimed, SourceUnlocked}) (db_swaps t))) = []"
    by (simp add: list_all_iff)
  then show ?thesis using assms(3) by (simp add: check_htlc_secret_integrity_def db_evals next_fault_def verdict_def)
qed

text \<open>The audit of one deposit of a thousand.\<close>

theorem audit_never_passes_witness:
  "\<exists>rep t. run_all rev 0 funded_db = (Inr rep, t) \<and> \<not> report_passed rep \<and> total_supply USDC funded_db = deposited USDC funded_db"
proof -
  have start: "bank_start sample_db" by (simp add: bank_start_def sample_db_def)
  obtain rs where run: "run_calls [Deposit 5 10 USDC 1000] sample_db = (rs, funded_db)"
    by (cases "deposit 5 10 USDC 1000 sample_db") (simp add: funded_db_def)
  have fits: "calls_fit [Deposit 5 10 USDC 1000] sample_db" by (simp add: total_supply_def sample_db_def i64_max_def)
  have f: "db_balances funded_db \<noteq> []" "\<not> db_decodes_numeric funded_db" "db_faults funded_db = []"
    by (simp_all add: funded_db_eval sample_db_def)
  have "\<exists>rep t. run_all rev 0 funded_db = (Inr rep, t)"
    by (simp add: run_all_def check_no_negative_balances_def check_balance_sum_constant_def check_no_orphan_locked_funds_def
        check_no_double_settlement_def check_htlc_terminal_states_def check_htlc_secret_integrity_def check_cross_chain_leg_consistency_def
        check_ledger_debits_equal_credits_def bindA_def tryA_def returnA_def Let_def split: prod.split)
  then obtain rep t where rep: "run_all rev 0 funded_db = (Inr rep, t)" by blast
  moreover have "total_supply USDC funded_db = deposited USDC funded_db"
    by (simp add: funded_db_eval total_supply_def holding_def deposited_def flow_value_def)
  ultimately show ?thesis using audit_never_passes [OF start run fits f rep] by blast
qed

end
