(* ===== verification/Stream_Bus.thy ===== *)
theory Stream_Bus
  imports Rust_Text
begin

text \<open>
  The event bus over Redis streams (src/db/stream_bus.rs): publishing, consumer groups, the reading loop with its acknowledgements, and the
  parsing of replies. Redis keeps for each stream its entries with increasing identifiers, and for each group the last
  identifier that was delivered and those that wait for an acknowledgement; with the argument \<open>>\<close> a group is given each
  entry once. Trimming drops old entries above the limit, as many as Redis likes. Texts are valid UTF-8. A crash of the consumer
  is a round that handles only the first of its messages.
\<close>

section \<open>Redis streams\<close>

datatype stream_value = VNil | VInt int | VBulk string | VArray "stream_value list"

type_synonym fields = "(string \<times> string) list"

record consumer_group =
  cg_last :: nat
  cg_pending :: "nat list"

record redis_stream =
  xs_entries :: "(nat \<times> fields) list"
  xs_next :: nat
  xs_groups :: "string \<rightharpoonup> consumer_group"

type_synonym streams = "string \<rightharpoonup> redis_stream"

datatype redis_error = TypeError string | IoError | NoGroup

definition stream_of :: "string \<Rightarrow> streams \<Rightarrow> redis_stream" where
  "stream_of name st = (case st name of Some x \<Rightarrow> x | None \<Rightarrow> \<lparr>xs_entries = [], xs_next = 1, xs_groups = Map.empty\<rparr>)"

definition id_text :: "nat \<Rightarrow> string" where
  "id_text i = show_nat i @ ''-0''"

definition xadd :: "string \<Rightarrow> nat \<Rightarrow> fields \<Rightarrow> streams \<Rightarrow> nat \<times> streams" where
  "xadd name trim fs st =
     (let x = stream_of name st in
      (xs_next x, st(name \<mapsto> x\<lparr>xs_entries := drop trim (xs_entries x @ [(xs_next x, fs)]), xs_next := xs_next x + 1\<rparr>)))"

definition fresh_entries :: "string \<Rightarrow> redis_stream \<Rightarrow> (nat \<times> fields) list" where
  "fresh_entries grp x =
     (case xs_groups x grp of None \<Rightarrow> [] | Some g \<Rightarrow> take 10 (filter (\<lambda>(i, _). cg_last g < i) (xs_entries x)))"

definition deliver :: "string \<Rightarrow> redis_stream \<Rightarrow> redis_stream" where
  "deliver grp x =
     (case xs_groups x grp of None \<Rightarrow> x
      | Some g \<Rightarrow> let ids = map fst (fresh_entries grp x) in
          if ids = [] then x
          else x\<lparr>xs_groups := (xs_groups x)(grp \<mapsto> \<lparr>cg_last = last ids, cg_pending = cg_pending g @ ids\<rparr>)\<rparr>)"

definition entry_value :: "nat \<times> fields \<Rightarrow> stream_value" where
  "entry_value e = VArray [VBulk (id_text (fst e)), VArray (concat (map (\<lambda>(k, v). [VBulk k, VBulk v]) (snd e)))]"

definition stream_reply :: "string \<Rightarrow> (nat \<times> fields) list \<Rightarrow> stream_value" where
  "stream_reply name es = VArray [VBulk name, VArray (map entry_value es)]"

definition batch :: "string \<Rightarrow> string list \<Rightarrow> streams \<Rightarrow> (string \<times> (nat \<times> fields) list) list" where
  "batch grp names st = filter (\<lambda>(_, es). es \<noteq> []) (map (\<lambda>n. (n, fresh_entries grp (stream_of n st))) names)"

definition xreadgroup :: "string \<Rightarrow> string list \<Rightarrow> streams \<Rightarrow> (redis_error + stream_value) \<times> streams" where
  "xreadgroup grp names st =
     (if list_ex (\<lambda>n. xs_groups (stream_of n st) grp = None) names then (Inl NoGroup, st)
      else (Inr (if batch grp names st = [] then VNil else VArray (map (\<lambda>(n, es). stream_reply n es) (batch grp names st))),
            \<lambda>n. if n \<in> set names then map_option (deliver grp) (st n) else st n))"

definition xack :: "string \<Rightarrow> string \<Rightarrow> string \<Rightarrow> streams \<Rightarrow> streams" where
  "xack name grp rid st =
     (case st name of None \<Rightarrow> st
      | Some x \<Rightarrow> (case xs_groups x grp of None \<Rightarrow> st
          | Some g \<Rightarrow> st(name \<mapsto> x\<lparr>xs_groups := (xs_groups x)(grp \<mapsto> g\<lparr>cg_pending := filter (\<lambda>i. id_text i \<noteq> rid) (cg_pending g)\<rparr>)\<rparr>)))"

section \<open>Publishing\<close>

record stream_event =
  se_event_type :: string
  se_payload :: string
  se_event_id :: string
  se_timestamp :: i64

definition MAX_STREAM_LEN :: nat where "MAX_STREAM_LEN = 10000"

definition event_fields :: "stream_event \<Rightarrow> fields" where
  "event_fields e = [(''event_type'', se_event_type e), (''payload'', se_payload e), (''event_id'', se_event_id e), (''timestamp'', show_int (se_timestamp e))]"

text \<open>\<open>json\<close> is the serialised payload, \<open>None\<close> when that fails; \<open>trim\<close> how many entries above the limit Redis drops.\<close>

definition publish :: "bool \<Rightarrow> nat \<Rightarrow> string \<Rightarrow> i64 \<Rightarrow> string \<Rightarrow> string option \<Rightarrow> (streams, redis_error, string) action" where
  "publish down trim event_id ts name json st =
     (case json of None \<Rightarrow> (Inl (TypeError ''JSON serialization failed''), st)
      | Some payload \<Rightarrow>
          if down then (Inl IoError, st)
          else let n = Suc (length (xs_entries (stream_of name st))) - MAX_STREAM_LEN in
            case xadd name (min trim n) (event_fields \<lparr>se_event_type = name, se_payload = payload, se_event_id = event_id, se_timestamp = ts\<rparr>) st of
              (i, st') \<Rightarrow> (Inr (id_text i), st'))"

text \<open>Three commands, each of which can fail.\<close>

definition ensure_group :: "bool \<Rightarrow> bool \<Rightarrow> bool \<Rightarrow> string \<Rightarrow> string \<Rightarrow> (streams, redis_error, unit) action" where
  "ensure_group down1 down2 down3 name grp st =
     (if down1 then (Inl IoError, st)
      else if st name = None \<and> down2 then (Inl IoError, st)
      else
        let st' = (if st name = None then snd (xadd name 0 [(''_init'', ''1'')] st) else st); x = stream_of name st' in
        if down3 then (Inl IoError, st')
        else if xs_groups x grp \<noteq> None then (Inr (), st')
        else (Inr (), st'(name \<mapsto> x\<lparr>xs_groups := (xs_groups x)(grp \<mapsto> \<lparr>cg_last = 0, cg_pending = []\<rparr>)\<rparr>)))"

section \<open>Parsing\<close>

fun parse_field_pairs :: "stream_value list \<Rightarrow> (string \<rightharpoonup> string) \<Rightarrow> (string \<rightharpoonup> string)" where
  "parse_field_pairs (k # v # vs) m =
     parse_field_pairs vs (case (k, v) of (VBulk key, VBulk val) \<Rightarrow> m(key \<mapsto> val) | _ \<Rightarrow> m)"
| "parse_field_pairs _ m = m"

definition fields_to_event :: "(string \<rightharpoonup> string) \<Rightarrow> stream_event option" where
  "fields_to_event fs =
     Option.bind (fs ''event_type'') (\<lambda>event_type.
     Option.bind (fs ''payload'') (\<lambda>payload.
     Some \<lparr>se_event_type = event_type, se_payload = payload,
           se_event_id = (case fs ''event_id'' of Some i \<Rightarrow> i | None \<Rightarrow> []),
           se_timestamp = (case Option.bind (fs ''timestamp'') parse_i64 of Some t \<Rightarrow> t | None \<Rightarrow> 0)\<rparr>))"

fun parse_message :: "stream_value \<Rightarrow> (string \<times> stream_event) list" where
  "parse_message (VArray [VBulk rid, VArray fs]) =
     (case fields_to_event (parse_field_pairs fs Map.empty) of Some e \<Rightarrow> [(rid, e)] | None \<Rightarrow> [])"
| "parse_message _ = []"

fun parse_stream :: "stream_value \<Rightarrow> (string \<times> (string \<times> stream_event) list) list" where
  "parse_stream (VArray [VBulk name, VArray msgs]) = [(name, concat (map parse_message msgs))]"
| "parse_stream _ = []"

fun parse_xreadgroup_result :: "stream_value \<Rightarrow> (string \<times> (string \<times> stream_event) list) list" where
  "parse_xreadgroup_result (VArray ss) = concat (map parse_stream ss)"
| "parse_xreadgroup_result _ = []"

fun parse_plain_message :: "stream_value \<Rightarrow> stream_event list" where
  "parse_plain_message (VArray [_, VArray fs]) =
     (case fields_to_event (parse_field_pairs fs Map.empty) of Some e \<Rightarrow> [e] | None \<Rightarrow> [])"
| "parse_plain_message _ = []"

fun parse_xrange_result :: "stream_value \<Rightarrow> stream_event list" where
  "parse_xrange_result (VArray msgs) = concat (map parse_plain_message msgs)"
| "parse_xrange_result _ = []"

definition read_recent :: "bool \<Rightarrow> string \<Rightarrow> nat \<Rightarrow> streams \<Rightarrow> redis_error + stream_event list" where
  "read_recent down name cnt st =
     (if down then Inl IoError
      else Inr (parse_xrange_result (VArray (map entry_value (take cnt (rev (xs_entries (stream_of name st))))))))"

section \<open>The reading loop\<close>

record bus_state =
  bs_redis :: streams
  bs_log :: "(string \<times> string \<times> stream_event) list"

definition messages :: "stream_value \<Rightarrow> (string \<times> string \<times> stream_event) list" where
  "messages reply = concat (map (\<lambda>(n, evs). map (\<lambda>(rid, e). (n, rid, e)) evs) (parse_xreadgroup_result reply))"

text \<open>The handler is called with the event, and then the entry is acknowledged; whether that succeeds (\<open>acked\<close>, by stream and identifier) is ignored.\<close>

definition handle_message :: "string \<Rightarrow> (string \<times> string \<Rightarrow> bool) \<Rightarrow> string \<times> string \<times> stream_event \<Rightarrow> bus_state \<Rightarrow> bus_state" where
  "handle_message grp acked m st =
     (case m of (n, rid, e) \<Rightarrow>
        st\<lparr>bs_log := bs_log st @ [(n, rid, e)], bs_redis := (if acked (n, rid) then xack n grp rid (bs_redis st) else bs_redis st)\<rparr>)"

definition handle_all :: "string \<Rightarrow> (string \<times> string \<Rightarrow> bool) \<Rightarrow> (string \<times> string \<times> stream_event) list \<Rightarrow> bus_state \<Rightarrow> bus_state" where
  "handle_all grp acked ms st = foldl (\<lambda>st m. handle_message grp acked m st) st ms"

definition subscribe_round :: "string \<Rightarrow> string list \<Rightarrow> bool \<Rightarrow> (string \<times> string \<Rightarrow> bool) \<Rightarrow> (bus_state, redis_error, unit) action" where
  "subscribe_round grp names down acked st =
     (if down then (Inl IoError, st)
      else case xreadgroup grp names (bs_redis st) of
        (Inl e, r) \<Rightarrow> (Inl e, st\<lparr>bs_redis := r\<rparr>)
      | (Inr reply, r) \<Rightarrow> (Inr (), handle_all grp acked (messages reply) (st\<lparr>bs_redis := r\<rparr>)))"

text \<open>The groups of all streams are made before the first round; \<open>down\<close> says which of the three commands for a stream fail.\<close>

fun ensure_groups :: "(string \<Rightarrow> bool \<times> bool \<times> bool) \<Rightarrow> string list \<Rightarrow> string \<Rightarrow> (streams, redis_error, unit) action" where
  "ensure_groups down [] grp st = (Inr (), st)"
| "ensure_groups down (n # ns) grp st =
     (case down n of (d1, d2, d3) \<Rightarrow>
        (case ensure_group d1 d2 d3 n grp st of
           (Inl e, st') \<Rightarrow> (Inl e, st')
         | (Inr _, st') \<Rightarrow> ensure_groups down ns grp st'))"

text \<open>The consumer is stopped after the first \<open>k\<close> messages of a round.\<close>

definition crashed_round :: "string \<Rightarrow> string list \<Rightarrow> (string \<times> string \<Rightarrow> bool) \<Rightarrow> nat \<Rightarrow> bus_state \<Rightarrow> bus_state" where
  "crashed_round grp names acked k st =
     (case xreadgroup grp names (bs_redis st) of
        (Inl e, r) \<Rightarrow> st\<lparr>bs_redis := r\<rparr>
      | (Inr reply, r) \<Rightarrow> handle_all grp acked (take k (messages reply)) (st\<lparr>bs_redis := r\<rparr>))"

inductive bus_step :: "string \<Rightarrow> string list \<Rightarrow> bus_state \<Rightarrow> bus_state \<Rightarrow> bool" for grp names where
  publish_step: "publish down trim event_id ts name json (bs_redis st) = (x, r) \<Longrightarrow> bus_step grp names st (st\<lparr>bs_redis := r\<rparr>)"
| ensure_step: "ensure_groups downs ns g (bs_redis st) = (x, r) \<Longrightarrow> bus_step grp names st (st\<lparr>bs_redis := r\<rparr>)"
| round_step: "subscribe_round grp names down acked st = (x, st') \<Longrightarrow> bus_step grp names st st'"
| crash_step: "bus_step grp names st (crashed_round grp names acked k st)"

section \<open>Round trip\<close>

lemma parse_fields: "parse_field_pairs (concat (map (\<lambda>(k, v). [VBulk k, VBulk v]) fs)) m = m ++ map_of (rev fs)"
proof (induction fs arbitrary: m)
  case (Cons f fs)
  then show ?case by (cases f) (auto simp: map_add_def fun_eq_iff split: option.splits)
qed simp

definition entry_events :: "nat \<times> fields \<Rightarrow> (string \<times> stream_event) list" where
  "entry_events e = (case fields_to_event (map_of (rev (snd e))) of Some ev \<Rightarrow> [(id_text (fst e), ev)] | None \<Rightarrow> [])"

lemma parse_entry: "parse_message (entry_value e) = entry_events e"
  by (simp add: entry_value_def entry_events_def parse_fields)

lemma parse_reply: "parse_xreadgroup_result (VArray (map (\<lambda>(n, es). stream_reply n es) b)) = map (\<lambda>(n, es). (n, concat (map entry_events es))) b"
  by (induction b) (auto simp: stream_reply_def parse_entry o_def)

lemma event_round_trip:
  assumes "in_i64 (se_timestamp e)"
  shows "entry_events (i, event_fields e) = [(id_text i, e)]"
  using assms by (simp add: entry_events_def event_fields_def fields_to_event_def)

lemma init_entry_is_skipped: "entry_events (i, [(''_init'', ''1'')]) = []"
  by (simp add: entry_events_def fields_to_event_def)

section \<open>Every entry is handled at most once\<close>

definition last_delivered :: "string \<Rightarrow> streams \<Rightarrow> string \<Rightarrow> nat option" where
  "last_delivered grp r n = Option.bind (r n) (\<lambda>x. map_option cg_last (xs_groups x grp))"

definition stream_ok :: "redis_stream \<Rightarrow> bool" where
  "stream_ok x \<longleftrightarrow> sorted_wrt (<) (map fst (xs_entries x)) \<and> list_all (\<lambda>i. i < xs_next x) (map fst (xs_entries x))"

definition streams_ok :: "streams \<Rightarrow> bool" where
  "streams_ok r \<longleftrightarrow> (\<forall>n x. r n = Some x \<longrightarrow> stream_ok x)"

definition log_key :: "string \<times> string \<times> stream_event \<Rightarrow> string \<times> string" where
  "log_key m = (fst m, fst (snd m))"

text \<open>What is handled has been delivered.\<close>

definition bus_ok :: "string \<Rightarrow> bus_state \<Rightarrow> bool" where
  "bus_ok grp st \<longleftrightarrow> streams_ok (bs_redis st) \<and> distinct (map log_key (bs_log st)) \<and>
     (\<forall>(n, rid) \<in> set (map log_key (bs_log st)). \<exists>i k. rid = id_text i \<and> last_delivered grp (bs_redis st) n = Some k \<and> i \<le> k)"

definition advances :: "string \<Rightarrow> streams \<Rightarrow> streams \<Rightarrow> bool" where
  "advances grp r r' \<longleftrightarrow> (\<forall>n k. last_delivered grp r n = Some k \<longrightarrow> (\<exists>k' \<ge> k. last_delivered grp r' n = Some k'))"

lemma advances_refl [simp]: "advances grp r r"
  by (simp add: advances_def)

lemma advances_trans: "advances grp r r' \<Longrightarrow> advances grp r' r'' \<Longrightarrow> advances grp r r''"
  unfolding advances_def by (meson order_trans)

lemma id_text_inj [simp]: "id_text i = id_text j \<longleftrightarrow> i = j"
  by (metis append_same_eq digits_value_show_nat id_text_def)

lemma stream_ok_of: "streams_ok r \<Longrightarrow> stream_ok (stream_of n r)"
  by (simp add: streams_ok_def stream_of_def stream_ok_def split: option.split)

lemma stream_ok_push:
  assumes "stream_ok x"
  shows "stream_ok (x\<lparr>xs_entries := drop t (xs_entries x @ [(xs_next x, fs)]), xs_next := xs_next x + 1\<rparr>)"
proof -
  let ?es = "xs_entries x @ [(xs_next x, fs)]"
  have "sorted_wrt (<) (map fst ?es)" "\<forall>i \<in> set (map fst ?es). i < xs_next x + 1"
    using assms by (auto simp: stream_ok_def sorted_wrt_append list_all_iff)
  then have "sorted_wrt (<) (drop t (map fst ?es))" "\<forall>i \<in> set (drop t (map fst ?es)). i < xs_next x + 1"
    by (blast intro: sorted_wrt_drop dest: in_set_dropD)+
  then show ?thesis by (simp add: stream_ok_def list_all_iff drop_map del: drop_append map_append)
qed

lemma xadd_keeps:
  assumes "streams_ok r" "xadd n t fs r = (i, r')"
  shows "streams_ok r'" "advances grp r r'"
proof -
  have "stream_ok (stream_of n r)" using assms(1) by (rule stream_ok_of)
  from stream_ok_push [OF this, of t fs] show "streams_ok r'" using assms
    by (auto simp: xadd_def Let_def streams_ok_def split: if_splits)
  show "advances grp r r'" using assms(2)
    by (auto simp: xadd_def Let_def advances_def last_delivered_def stream_of_def split: option.splits)
qed

lemma publish_keeps:
  assumes "streams_ok r" "publish down trim eid ts n json r = (x, r')"
  shows "streams_ok r' \<and> advances grp r r'"
  using assms xadd_keeps by (fastforce simp: publish_def Let_def split: option.splits if_splits prod.splits)

lemma ensure_group_keeps:
  assumes "streams_ok r" "ensure_group d1 d2 d3 n g r = (x, r')"
  shows "streams_ok r' \<and> advances grp r r'"
proof -
  define r1 where "r1 = (if r n = None then snd (xadd n 0 [(''_init'', ''1'')] r) else r)"
  have r1: "streams_ok r1 \<and> advances grp r r1"
    using xadd_keeps [OF assms(1) prod.collapse [symmetric]] assms(1) by (simp add: r1_def)
  have "r' = r \<or> r' = r1 \<or> xs_groups (stream_of n r1) g = None \<and>
        r' = r1(n \<mapsto> (stream_of n r1)\<lparr>xs_groups := (xs_groups (stream_of n r1))(g \<mapsto> \<lparr>cg_last = 0, cg_pending = []\<rparr>)\<rparr>)"
    using assms(2) by (auto simp: ensure_group_def r1_def Let_def split: if_splits)
  moreover have "advances grp r1 (r1(n \<mapsto> (stream_of n r1)\<lparr>xs_groups := (xs_groups (stream_of n r1))(g \<mapsto> h)\<rparr>))"
    if "xs_groups (stream_of n r1) g = None" for h
    using that by (auto simp: advances_def last_delivered_def stream_of_def split: option.splits)
  moreover have "streams_ok (r1(n \<mapsto> (stream_of n r1)\<lparr>xs_groups := gs\<rparr>))" for gs
    using r1 stream_ok_of [of r1 n] by (simp add: streams_ok_def stream_ok_def)
  ultimately show ?thesis using r1 assms(1) advances_trans by fastforce
qed

lemma ensure_groups_keep:
  "streams_ok r \<Longrightarrow> ensure_groups down ns g r = (x, r') \<Longrightarrow> streams_ok r' \<and> advances grp r r'"
proof (induction ns arbitrary: r)
  case (Cons n ns)
  obtain d1 d2 d3 where d: "down n = (d1, d2, d3)" by (cases "down n")
  obtain y r1 where e: "ensure_group d1 d2 d3 n g r = (y, r1)" by (cases "ensure_group d1 d2 d3 n g r")
  have "streams_ok r1 \<and> advances grp r r1" using Cons.prems(1) e by (rule ensure_group_keeps)
  then show ?case using Cons d e by (cases y) (auto intro: advances_trans)
qed simp

lemma sorted_below_last: "sorted_wrt (<) (is :: nat list) \<Longrightarrow> \<forall>i \<in> set is. i \<le> last is"
  by (induction "is" rule: rev_induct) (auto simp: sorted_wrt_append less_imp_le)

lemma fresh_entries_sorted: "stream_ok x \<Longrightarrow> sorted_wrt (<) (map fst (fresh_entries grp x))"
  by (auto simp: fresh_entries_def stream_ok_def sorted_wrt_map
      intro!: sorted_wrt_take sorted_wrt_filter split: option.split)

lemma last_delivered_deliver:
  assumes "stream_ok x" "xs_groups x grp = Some g"
  shows "\<exists>g'. xs_groups (deliver grp x) grp = Some g' \<and> cg_last g \<le> cg_last g' \<and>
           (\<forall>i \<in> set (map fst (fresh_entries grp x)). cg_last g < i \<and> i \<le> cg_last g')"
proof -
  let ?ids = "map fst (fresh_entries grp x)"
  have fresh: "\<forall>i \<in> set ?ids. cg_last g < i"
    using assms(2) by (auto simp: fresh_entries_def dest!: in_set_takeD)
  have "sorted_wrt (<) ?ids" using assms(1) by (rule fresh_entries_sorted)
  then have "\<forall>i \<in> set ?ids. i \<le> last ?ids" by (rule sorted_below_last)
  moreover have "last ?ids \<in> set ?ids" if "?ids \<noteq> []" using that by (rule last_in_set)
  ultimately show ?thesis using fresh assms(2)
    by (cases "?ids = []") (auto simp: deliver_def Let_def less_imp_le)
qed

definition batch_messages :: "(string \<times> (nat \<times> fields) list) list \<Rightarrow> (string \<times> string \<times> stream_event) list" where
  "batch_messages b = concat (map (\<lambda>(n, es). map (Pair n) (concat (map entry_events es))) b)"

lemma messages_reply: "messages (VArray (map (\<lambda>(n, es). stream_reply n es) b)) = batch_messages b"
  unfolding messages_def parse_reply by (induction b) (auto simp: batch_messages_def)

lemma batch_messages_filter [simp]: "batch_messages (filter (\<lambda>(_, es). es \<noteq> []) b) = batch_messages b"
  by (induction b) (auto simp: batch_messages_def)

lemma messages_of_entries:
  "sorted_wrt (<) (map fst es) \<Longrightarrow> distinct (map fst (concat (map entry_events es))) \<and>
     set (map fst (concat (map entry_events es))) \<subseteq> id_text ` set (map fst es)"
proof (induction es)
  case (Cons e es)
  define rs where "rs = map fst (concat (map entry_events es))"
  have eq: "map fst (concat (map entry_events (e # es))) = map fst (entry_events e) @ rs" by (simp add: rs_def)
  have "map fst (entry_events e) \<in> {[], [id_text (fst e)]}" by (simp add: entry_events_def split: option.split)
  moreover have "id_text (fst e) \<notin> id_text ` set (map fst es)" using Cons.prems by auto
  moreover have "distinct rs \<and> set rs \<subseteq> id_text ` set (map fst es)" using Cons by (simp add: rs_def)
  ultimately have "distinct (map fst (entry_events e) @ rs) \<and> set (map fst (entry_events e) @ rs) \<subseteq> id_text ` set (map fst (e # es))"
    by (elim insertE) (auto simp del: set_map)
  then show ?case unfolding eq .
qed simp

lemma keys_append:
  assumes "distinct (map (Pair n) rs)" "set rs \<subseteq> t ` A n"
    and "distinct ks" "\<forall>(m, rid) \<in> set ks. m \<in> set names \<and> (\<exists>i \<in> A m. rid = t i)" "n \<notin> set names"
  shows "distinct (map (Pair n) rs @ ks) \<and>
    (\<forall>(m, rid) \<in> set (map (Pair n) rs @ ks). m \<in> set (n # names) \<and> (\<exists>i \<in> A m. rid = t i))"
  using assms by auto

lemma messages_of_streams:
  assumes "distinct names" "\<forall>n \<in> set names. sorted_wrt (<) (map fst (f n))"
  defines "ks \<equiv> map log_key (batch_messages (map (\<lambda>n. (n, f n)) names))"
  shows "distinct ks \<and> (\<forall>(n, rid) \<in> set ks. n \<in> set names \<and> (\<exists>i \<in> set (map fst (f n)). rid = id_text i))"
  unfolding ks_def using assms(1,2)
proof (induction names)
  case (Cons n names)
  let ?es = "concat (map entry_events (f n))"
  have hd: "map log_key (map (Pair n) ?es) = map (Pair n) (map fst ?es)" by (simp add: log_key_def)
  have split: "map log_key (batch_messages (map (\<lambda>n. (n, f n)) (n # names))) =
     map (Pair n) (map fst ?es) @ map log_key (batch_messages (map (\<lambda>n. (n, f n)) names))"
    by (simp add: batch_messages_def hd del: map_map map_concat)
  have "distinct (map (Pair n) (map fst ?es))"
    using messages_of_entries [of "f n"] Cons.prems(2) by (simp add: distinct_map inj_on_def)
  moreover have "set (map fst ?es) \<subseteq> id_text ` set (map fst (f n))"
    using messages_of_entries [of "f n"] Cons.prems(2) by simp
  moreover have "distinct (map log_key (batch_messages (map (\<lambda>n. (n, f n)) names)))"
    "\<forall>(m, rid) \<in> set (map log_key (batch_messages (map (\<lambda>n. (n, f n)) names))).
       m \<in> set names \<and> (\<exists>i \<in> set (map fst (f m)). rid = id_text i)"
    using Cons by simp_all
  moreover have "n \<notin> set names" using Cons.prems(1) by simp
  ultimately show ?case unfolding split by (rule keys_append)
qed (simp add: batch_messages_def)

lemma handle_all_log: "bs_log (handle_all grp acked ms st) = bs_log st @ ms"
  by (induction ms arbitrary: st) (auto simp: handle_all_def handle_message_def)

lemma xack_keeps: "streams_ok (xack n grp' rid r) = streams_ok r" "last_delivered grp (xack n grp' rid r) = last_delivered grp r"
  by (auto simp: xack_def streams_ok_def stream_ok_def last_delivered_def fun_eq_iff split: option.splits if_splits)

lemma handle_all_redis:
  "streams_ok (bs_redis (handle_all grp' acked ms st)) = streams_ok (bs_redis st)"
  "last_delivered grp (bs_redis (handle_all grp' acked ms st)) = last_delivered grp (bs_redis st)"
  by (induction ms arbitrary: st) (simp_all add: handle_all_def handle_message_def xack_keeps split: prod.split)

text \<open>What a round hands to the handler was not delivered before and is delivered after it.\<close>

definition newly_delivered :: "string \<Rightarrow> streams \<Rightarrow> streams \<Rightarrow> string \<times> string \<Rightarrow> bool" where
  "newly_delivered grp r r' = (\<lambda>(n, rid). \<exists>i k k'. rid = id_text i \<and> last_delivered grp r n = Some k \<and>
     last_delivered grp r' n = Some k' \<and> k < i \<and> i \<le> k')"

lemma xreadgroup_ok:
  assumes "xreadgroup grp names r = (Inr reply, r')" "streams_ok r" "distinct names"
  shows "streams_ok r'" "advances grp r r'" "distinct (map log_key (messages reply))"
    "list_all (newly_delivered grp r r') (map log_key (messages reply))"
proof -
  let ?f = "\<lambda>n. fresh_entries grp (stream_of n r)"
  have r': "r' = (\<lambda>n. if n \<in> set names then map_option (deliver grp) (r n) else r n)"
    and groups: "\<forall>n \<in> set names. xs_groups (stream_of n r) grp \<noteq> None"
    and reply: "messages reply = batch_messages (map (\<lambda>n. (n, ?f n)) names)"
    using assms(1) messages_reply [of "batch grp names r"] batch_messages_filter [of "map (\<lambda>n. (n, ?f n)) names"]
    by (auto simp: xreadgroup_def list_ex_iff batch_def messages_def split: if_splits)
  have known: "r n = Some (stream_of n r)" if "n \<in> set names" for n
    using that groups by (auto simp: stream_of_def split: option.splits)
  have entries: "xs_entries (deliver grp x) = xs_entries x" "xs_next (deliver grp x) = xs_next x" for x
    by (simp_all add: deliver_def Let_def split: option.split)
  show "streams_ok r'" using assms(2) entries by (auto simp: r' streams_ok_def stream_ok_def split: if_splits)
  have new: "\<exists>k k'. last_delivered grp r n = Some k \<and> last_delivered grp r' n = Some k' \<and> k \<le> k' \<and>
      (\<forall>i \<in> set (map fst (?f n)). k < i \<and> i \<le> k')" if "n \<in> set names" for n
    using last_delivered_deliver [OF stream_ok_of [OF assms(2), of n]] groups known [OF that] that
    by (fastforce simp: r' last_delivered_def)
  show "advances grp r r'" unfolding advances_def
  proof (intro allI impI)
    fix n k assume "last_delivered grp r n = Some k"
    then show "\<exists>k' \<ge> k. last_delivered grp r' n = Some k'"
      using new [of n] by (cases "n \<in> set names") (auto simp: r' last_delivered_def)
  qed
  have keys: "distinct (map log_key (messages reply)) \<and> (\<forall>(n, rid) \<in> set (map log_key (messages reply)).
      n \<in> set names \<and> (\<exists>i \<in> set (map fst (?f n)). rid = id_text i))"
    unfolding reply using assms(3) fresh_entries_sorted [OF stream_ok_of [OF assms(2)]] by (intro messages_of_streams) auto
  then show "distinct (map log_key (messages reply))" by blast
  have "newly_delivered grp r r' key" if "key \<in> set (map log_key (messages reply))" for key
  proof (cases key)
    case (Pair n rid)
    with keys that obtain i where "n \<in> set names" "i \<in> set (map fst (?f n))" "rid = id_text i" by blast
    then show ?thesis using new [of n] Pair unfolding newly_delivered_def by blast
  qed
  then show "list_all (newly_delivered grp r r') (map log_key (messages reply))" unfolding list_all_iff by blast
qed

text \<open>Every step keeps the streams, moves the group forward, and logs only entries that were delivered in it.\<close>

definition step_ok :: "string \<Rightarrow> bus_state \<Rightarrow> bus_state \<Rightarrow> bool" where
  "step_ok grp st st' \<longleftrightarrow> streams_ok (bs_redis st') \<and> advances grp (bs_redis st) (bs_redis st') \<and>
     (\<exists>ms. bs_log st' = bs_log st @ ms \<and> distinct (map log_key ms) \<and>
        list_all (newly_delivered grp (bs_redis st) (bs_redis st')) (map log_key ms))"

lemma quiet_step: "streams_ok r \<and> advances grp (bs_redis st) r \<Longrightarrow> step_ok grp st (st\<lparr>bs_redis := r\<rparr>)"
  by (simp add: step_ok_def)

lemma read_step:
  assumes "xreadgroup grp names (bs_redis st) = (Inr reply, r)" "streams_ok (bs_redis st)" "distinct names"
  shows "step_ok grp st (handle_all grp acked (take k (messages reply)) (st\<lparr>bs_redis := r\<rparr>))"
proof -
  let ?st' = "handle_all grp acked (take k (messages reply)) (st\<lparr>bs_redis := r\<rparr>)"
  note ok = xreadgroup_ok [OF assms]
  have "newly_delivered grp (bs_redis st) (bs_redis ?st') = newly_delivered grp (bs_redis st) r"
    "advances grp (bs_redis st) (bs_redis ?st') = advances grp (bs_redis st) r"
    by (simp_all add: newly_delivered_def advances_def handle_all_redis)
  moreover have "distinct (map log_key (take k (messages reply)))"
    "list_all (newly_delivered grp (bs_redis st) r) (map log_key (take k (messages reply)))"
    using ok(3,4) by (auto simp: take_map [symmetric] list_all_iff dest!: in_set_takeD)
  ultimately show ?thesis using ok(1,2) unfolding step_ok_def handle_all_redis by (simp add: handle_all_log)
qed

lemma bus_step_ok:
  assumes "bus_step grp names st st'" "streams_ok (bs_redis st)" "distinct names"
  shows "step_ok grp st st'"
  using assms(1)
proof cases
  case (publish_step down trim event_id ts name json x r)
  then show ?thesis using publish_keeps assms(2) quiet_step by metis
next
  case (ensure_step downs ns g x r)
  then show ?thesis using ensure_groups_keep assms(2) quiet_step by metis
next
  case (round_step down acked x)
  obtain y r where r: "xreadgroup grp names (bs_redis st) = (y, r)" by fastforce
  show ?thesis
  proof (cases "down \<or> isl y")
    case True
    then have "st' = st" using round_step r by (auto simp: subscribe_round_def xreadgroup_def split: if_splits)
    then show ?thesis using assms(2) by (simp add: step_ok_def)
  next
    case False
    then obtain reply where "y = Inr reply" by (cases y) auto
    then show ?thesis using False round_step r read_step [of grp names st reply r acked "length (messages reply)"] assms
      by (simp add: subscribe_round_def)
  qed
next
  case (crash_step acked k)
  then show ?thesis using assms read_step [of grp names st _ _ acked k]
    by (auto simp: crashed_round_def step_ok_def xreadgroup_def split: prod.splits sum.splits if_splits)
qed

lemma step_ok_keeps:
  assumes "step_ok grp st st'" "bus_ok grp st"
  shows "bus_ok grp st'"
proof -
  obtain ms where ms: "bs_log st' = bs_log st @ ms" "distinct (map log_key ms)"
    and new: "\<forall>key \<in> set (map log_key ms). newly_delivered grp (bs_redis st) (bs_redis st') key"
    using assms(1) by (auto simp: step_ok_def list_all_iff)
  have adv: "advances grp (bs_redis st) (bs_redis st')" and ok: "streams_ok (bs_redis st')" using assms(1) by (simp_all add: step_ok_def)
  have old: "\<forall>(n, rid) \<in> set (map log_key (bs_log st)). \<exists>i k. rid = id_text i \<and> last_delivered grp (bs_redis st) n = Some k \<and> i \<le> k"
    and dist: "distinct (map log_key (bs_log st))" using assms(2) unfolding bus_ok_def by blast+
  have "key \<notin> set (map log_key ms)" if "key \<in> set (map log_key (bs_log st))" for key
    using bspec [OF old that] new unfolding newly_delivered_def by (cases key) fastforce
  then have "distinct (map log_key (bs_log st'))" unfolding ms(1) map_append distinct_append using dist ms(2) by blast
  moreover have "\<exists>i k. rid = id_text i \<and> last_delivered grp (bs_redis st') n = Some k \<and> i \<le> k"
    if "(n, rid) \<in> set (map log_key (bs_log st'))" for n rid
  proof (cases "(n, rid) \<in> set (map log_key ms)")
    case True
    then show ?thesis using new unfolding newly_delivered_def by blast
  next
    case False
    then have "(n, rid) \<in> set (map log_key (bs_log st))" using that unfolding ms(1) by simp
    then obtain i k where "rid = id_text i" "last_delivered grp (bs_redis st) n = Some k" "i \<le> k" using old by blast
    moreover from this(2) obtain k' where "last_delivered grp (bs_redis st') n = Some k'" "k \<le> k'"
      using adv unfolding advances_def by blast
    ultimately show ?thesis by (intro exI [of _ i] exI [of _ k']) simp
  qed
  ultimately show ?thesis using ok unfolding bus_ok_def by blast
qed

definition new_bus :: bus_state where
  "new_bus = \<lparr>bs_redis = Map.empty, bs_log = []\<rparr>"

interpretation bus: transition_system "\<lambda>st. st = new_bus" "bus_step grp names" "\<lambda>st. distinct names \<longrightarrow> bus_ok grp st" for grp names
proof
  show "distinct names \<longrightarrow> bus_ok grp st" if "st = new_bus" for st
    using that by (simp add: new_bus_def bus_ok_def streams_ok_def)
  show "distinct names \<longrightarrow> bus_ok grp st'" if "bus_step grp names st st'" "distinct names \<longrightarrow> bus_ok grp st" for st st'
    using that bus_step_ok step_ok_keeps unfolding bus_ok_def by meson
qed

lemma missed_stays_missed:
  assumes "bus_step grp names st st'" "bus_ok grp st" "distinct names"
    and "last_delivered grp (bs_redis st) n = Some k" "i \<le> k" "(n, id_text i) \<notin> set (map log_key (bs_log st))"
  shows "\<exists>k'. last_delivered grp (bs_redis st') n = Some k' \<and> i \<le> k'" "(n, id_text i) \<notin> set (map log_key (bs_log st'))"
proof -
  have ok: "step_ok grp st st'" using assms(1-3) bus_step_ok unfolding bus_ok_def by blast
  then show "\<exists>k'. last_delivered grp (bs_redis st') n = Some k' \<and> i \<le> k'"
    using assms(4,5) unfolding step_ok_def advances_def by (meson order_trans)
  obtain ms where ms: "bs_log st' = bs_log st @ ms"
    and new: "\<forall>key \<in> set (map log_key ms). newly_delivered grp (bs_redis st) (bs_redis st') key"
    using ok by (auto simp: step_ok_def list_all_iff)
  have "(n, id_text i) \<notin> set (map log_key ms)"
    using new assms(4,5) unfolding newly_delivered_def by fastforce
  then show "(n, id_text i) \<notin> set (map log_key (bs_log st'))" unfolding ms using assms(6) by simp
qed

lemma missed_for_ever:
  assumes "(bus_step grp names)\<^sup>*\<^sup>* st st'" "bus_ok grp st" "distinct names"
    and "last_delivered grp (bs_redis st) n = Some k" "i \<le> k" "(n, id_text i) \<notin> set (map log_key (bs_log st))"
  shows "(\<exists>k'. last_delivered grp (bs_redis st') n = Some k' \<and> i \<le> k') \<and> (n, id_text i) \<notin> set (map log_key (bs_log st'))"
  using assms(1)
proof (induction rule: rtranclp_induct)
  case (step y z)
  have "bus_ok grp y" using bus.steps_invar [OF step.hyps(1)] assms(2,3) by blast
  with step missed_stays_missed [OF step.hyps(2)] assms(3) show ?case by blast
qed (use assms in blast)

text \<open>
  C19. Whatever is published, read, acknowledged or not, and wherever the consumer of a group stops within a round, no entry of a stream
  is handed to the handler of a group twice; and an entry that the group was given before some moment without its handler
  having been called by then is never handed to it later.
\<close>

theorem handled_at_most_once:
  assumes "distinct names" "(bus_step grp names)\<^sup>*\<^sup>* new_bus st" "(bus_step grp names)\<^sup>*\<^sup>* st st'"
    and "last_delivered grp (bs_redis st) n = Some k" "i \<le> k" "(n, id_text i) \<notin> set (map log_key (bs_log st))"
  shows "distinct (map log_key (bs_log st')) \<and> (n, id_text i) \<notin> set (map log_key (bs_log st'))"
proof -
  have ok: "bus_ok grp st" using bus.reachable_invar [OF refl assms(2)] assms(1) by blast
  then have "bus_ok grp st'" using bus.steps_invar [OF assms(3)] assms(1) by blast
  then show ?thesis using missed_for_ever [OF assms(3) ok assms(1,4-6)] unfolding bus_ok_def by blast
qed

definition sample_event :: stream_event where
  "sample_event = \<lparr>se_event_type = ''s'', se_payload = ''1'', se_event_id = ''e'', se_timestamp = 7\<rparr>"

definition sample_bus :: bus_state where
  "sample_bus = new_bus\<lparr>bs_redis := [''s'' \<mapsto> \<lparr>xs_entries = [(1, [(''_init'', ''1'')]), (2, event_fields sample_event)], xs_next = 3,
     xs_groups = [''g'' \<mapsto> \<lparr>cg_last = 0, cg_pending = []\<rparr>]\<rparr>]\<rparr>"

definition crashed_bus :: bus_state where
  "crashed_bus = new_bus\<lparr>bs_redis := [''s'' \<mapsto> \<lparr>xs_entries = [(1, [(''_init'', ''1'')]), (2, event_fields sample_event)], xs_next = 3,
     xs_groups = [''g'' \<mapsto> \<lparr>cg_last = 2, cg_pending = [1, 2]\<rparr>]\<rparr>]\<rparr>"

lemma sample_run: "(bus_step ''g'' [''s''])\<^sup>*\<^sup>* new_bus crashed_bus"
proof -
  define b1 where "b1 = new_bus\<lparr>bs_redis := [''s'' \<mapsto> \<lparr>xs_entries = [(1, [(''_init'', ''1'')])], xs_next = 2,
     xs_groups = [''g'' \<mapsto> \<lparr>cg_last = 0, cg_pending = []\<rparr>]\<rparr>]\<rparr>"
  have "bus_step ''g'' [''s''] new_bus b1"
    using bus_step.ensure_step [of "\<lambda>_. (False, False, False)" "[''s'']" "''g''" new_bus "Inr ()" "bs_redis b1"]
    by (simp add: b1_def new_bus_def ensure_group_def xadd_def stream_of_def Let_def numeral_2_eq_2)
  moreover have "bus_step ''g'' [''s''] b1 sample_bus"
    using bus_step.publish_step [of False 0 "''e''" 7 "''s''" "Some ''1''" b1 "Inr (id_text 2)" "bs_redis sample_bus"]
    by (simp add: b1_def new_bus_def sample_bus_def publish_def sample_event_def xadd_def stream_of_def Let_def)
  moreover have "crashed_round ''g'' [''s''] (\<lambda>_. True) 0 sample_bus = crashed_bus"
    by (simp add: crashed_round_def sample_bus_def crashed_bus_def new_bus_def xreadgroup_def stream_of_def batch_def
        fresh_entries_def deliver_def Let_def handle_all_def fun_eq_iff)
  then have "bus_step ''g'' [''s''] sample_bus crashed_bus" by (metis bus_step.crash_step)
  ultimately show ?thesis by (meson converse_rtranclp_into_rtranclp rtranclp.rtrancl_refl)
qed

theorem handled_at_most_once_witness:
  "(''s'', id_text 2) \<notin> set (map log_key (bs_log (snd (subscribe_round ''g'' [''s''] False (\<lambda>_. True) crashed_bus))))"
proof -
  have "bus_step ''g'' [''s''] crashed_bus (snd (subscribe_round ''g'' [''s''] False (\<lambda>_. True) crashed_bus))"
    by (rule bus_step.round_step) (rule prod.collapse [symmetric])
  moreover have "last_delivered ''g'' (bs_redis crashed_bus) ''s'' = Some 2" "bs_log crashed_bus = []"
    by (simp_all add: crashed_bus_def new_bus_def last_delivered_def)
  ultimately show ?thesis
    using handled_at_most_once [of "[''s'']" "''g''" crashed_bus _ "''s''" 2 2] sample_run
    by (simp add: r_into_rtranclp)
qed

end
