(* ===== verification/Spec2Isabelle.thy ===== *)
theory Spec2Isabelle
  imports Settlement_Program Htlc_Program Intent_Workers Twap Bridges Mock_Guardian Rlp Base58 Solana_Tx Circuit_Breaker Wallet Positions Rate_Limit Idempotency Oracle Chaos_Verify Stream_Bus
begin

text \<open>
  IntentX is a trading platform: users post intents (orders to swap one asset for another), solvers bid for
  them, an auction matches the bids, fills are settled against balances kept in a PostgreSQL database, and
  cross-chain trades are settled by two legs, or by an atomic swap, over bridges. Two Solana programs
  keep funds on chain. This library models the Rust sources under src/ (the backend crate in src/src, the
  programs in src/programs) as executable HOL functions and proves what they do, flaws included.

  \<^bold>\<open>How the code is modelled.\<close>
  \<^item> A fallible, stateful operation is an action \<open>'s \<Rightarrow> ('e + 'a) \<times> 's\<close> (theory \<open>Prelude\<close>): \<open>bindA\<close>
    is the question mark operator, \<open>raiseA\<close> an early return with an error, \<open>preserves I m\<close> says that an action keeps an
    invariant, and its introduction rules carry the invariants through composed code.
  \<^item> The database (\<open>Database\<close>) is a record of tables, each a list of rows. \<open>transact\<close> rolls back on an
    error. Every statement may fail for external reasons: \<open>db_faults\<close> is the schedule of such failures, and
    the theorems hold for every schedule. SQL \<open>BIGINT\<close> arithmetic raises an error out of range; Rust
    \<open>i64\<close> arithmetic wraps (\<open>wrap64\<close>), as in the optimised build. Doubles are those of IEEE 754 (\<open>F64\<close>).
  \<^item> Fresh identifiers come from a counter. The clock, the hash functions, signatures, decoders of JSON texts
    and hexadecimal strings, and duration arithmetic of the chrono library are arguments or
    fields of an environment record; what a theorem needs of them is a named hypothesis with a witness.
  \<^item> A panic is an error value of its own. Concurrency is modelled where the sources rely on it: the
    circuit breaker locks twice per call, and its steps interleave; transactions are atomic; other operations are
    sequences of steps in any order.
  \<^item> What a bridge or an RPC node answers is a function of everything sent so far (\<open>Bridge\<close>,
    \<open>Evm_Rpc\<close>), so that the statements hold for every behaviour of the network.

  \<^bold>\<open>Theories, sources, and what is shown.\<close>
  \<^item> \<open>Prelude\<close>, \<open>Codec\<close>, \<open>F64\<close>, \<open>Rust_Text\<close>: actions and invariants, wrap-around, byte
    strings, the interface of wire formats (a locale), doubles, and the text functions of the Rust library.
  \<^item> \<open>Solana_Runtime\<close>, \<open>Settlement_Program\<close>, \<open>Htlc_Program\<close> (programs/*/src/lib.rs): the instructions
    with their account constraints. A settlement moves exactly the amount and the fee; the fee rate stays
    bounded; deposits can never leave; an open HTLC is funded, claim and refund exclude each other and are final.
  \<^item> \<open>Database\<close>, \<open>Models\<close>, \<open>Ledger\<close>, \<open>Balances\<close>, \<open>Fees\<close>, \<open>Markets\<close>, \<open>Solver_Stats\<close>
    (src/ledger, src/balances, src/fees, src/markets, src/models, src/solver_reputation/stats.rs): balances are
    never negative and backed by deposits after any sequence of calls with any failures, up to what self-transfers and failed
    entries leave unrecorded; transfers are exact, fees add up.
  \<^item> \<open>Settlement\<close>, \<open>Settlement_Worker\<close> (src/settlement): a fill settles exactly once, completely or not at
    all, with balanced ledger entries; retries are bounded; a redelivered event is harmless.
  \<^item> \<open>Storage\<close>, \<open>Auction\<close> (src/db/storage.rs, src/engine, src/services/bid_service.rs): the greedy
    fills take the best bids and exactly the available amount; the executions of the engine never settle.
  \<^item> \<open>Risk\<close>, \<open>Intents\<close>, \<open>Intent_Workers\<close>, \<open>Twap\<close> (src/risk, src/services/intent_service.rs,
    src/workers, src/twap): the limits per user bound what was admitted, locks of created, amended, cancelled and expired intents, stop
    orders, and the schedule of a time-weighted order.
  \<^item> \<open>Bridge\<close>, \<open>Htlc_Swap\<close>, \<open>Cross_Chain\<close> (src/cross_chain with htlc): the life cycles of swaps and of
    settlements over arbitrary bridges, as a refinement of an abstract life cycle and by invariants of the records.
  \<^item> \<open>Evm_Rpc\<close>, \<open>Erc20_Abi\<close>, \<open>Vaa\<close>, \<open>Wormhole\<close>, \<open>Layerzero\<close>, \<open>Mock_Guardian\<close>, \<open>Bridges\<close>
    (src/cross_chain/wormhole.rs, layerzero.rs, mock_guardian.rs, src/wallet/erc20_abi.rs, the registry of
    src/main.rs): the two adapters with their retry loops, the guardian messages and their quorum rule, the mock
    guardian, and the composition of the workers with the registry that the server builds. A release sends only
    messages with a quorum that the guardians gave for its identifier.
  \<^item> \<open>Circuit_Breaker\<close>, \<open>Rlp\<close>, \<open>Base58\<close>, \<open>Solana_Tx\<close> (src/circuit_breaker.rs, src/wallet): the breaker
    refines a machine with the states and transitions of its documentation, except that half-open admits every call; the encoders are inverse to decoders of the wire formats; sending ends.
  \<^item> \<open>Chain\<close>, \<open>Eth_Sign\<close>, \<open>Ethereum\<close>, \<open>Solana\<close>, \<open>Wallet\<close> (src/wallet): the interface of a chain adapter, the two
    adapters with their RPC clients, keys and signatures, the wallet service and the confirmation worker. A settlement
    that is built and signed is read by a node as one transfer of exactly the amount by the key's address (on Solana
    between the associated accounts only when bump 255 is off the curve); sending ends; records of transactions follow their life cycle with any adapters, and with those of the server an
    Ethereum transaction is never dropped.
  \<^item> \<open>Positions\<close> (src/solver/positions.rs, src/bin/solver_bot.rs): the book of a solver and the example bot; the accounts of
    a fill on every branch, and that the bot only accumulates.
  \<^item> \<open>Jwt_Keys\<close>, \<open>Users\<close>, \<open>Request_Signing\<close>, \<open>Api_Access\<close>, \<open>Idempotency\<close>, \<open>Rate_Limit\<close> (src/auth, src/users, src/rbac,
    src/api_keys, src/signing, src/gateway, src/idempotency, src/csrf): everything that a request passes before a handler.
    Registered users log in; a rotation ends the sessions of its key; the token of a registration opens the routes of a
    trader, that of a login opens none, and the gateway and the server accept no common token unless the query for the keys fails; an answer is replayed for its key; replays of
    signed requests are rejected but for one second; the rate limiter limits nothing.
  \<^item> \<open>Oracle\<close> (src/oracle/service.rs): prices of three exchanges and their median, which one source cannot move.
  \<^item> \<open>Chaos_Verify\<close> (src/chaos/verify.rs): the audit that the platform runs on its own database: with a driver that does not decode the type
    of a sum it never passes, whatever the books say.
  \<^item> \<open>Stream_Bus\<close> (src/db/stream_bus.rs): the event bus over Redis streams; an entry is handled at most once by a group, and what
    was delivered before a crash is never handled.

  \<^bold>\<open>Interfaces.\<close> Locales state what a client needs: \<open>transition_system\<close> and \<open>monotone_system\<close> (an
  initial set, steps, an invariant; reachability), \<open>balance_store\<close> (a table of balances, interpreted by the
  repository and by the statements of the settlement transaction), \<open>row_order\<close> (rows that only move along an
  order), \<open>prefix_codec\<close> and \<open>counted_codec\<close> (an encoder with its decoder, and sequences of them) and
  \<open>deaf_registry\<close> (bridges that reject the identifiers the workers use). Each is interpreted on the definitions
  of the model, and the properties are written out over them.

  \<^bold>\<open>Loops.\<close> Retry loops of the sources count attempts, and the model recurses on that count. Loops over rows and
  bytes are structural, others have a termination proof; no function takes fuel. The endless loops of the workers are
  modelled by one cycle, and the machines of the workers by sequences of cycles and calls in any order.

  \<^bold>\<open>Not modelled.\<close> HTTP routing and handlers that only forward (src/api, the paths of src/gateway/router.rs, the
  handler files), the WebSocket feed, metrics, telemetry, configuration and start-up, the Redis clients, market data, the scores of
  solvers and the load generator are input and output, or glue without state of their own. Hash functions, signatures, the
  token library and bcrypt are parameters with laws. The manifest lists every part.
\<close>

end
